(* ===== verification/Prelude_VLan.thy ===== *)
theory Prelude_VLan
  imports Main "HOL-Library.Word" "HOL-Library.Monad_Syntax"
begin

text \<open>
  Shared vocabulary of the development: the machine types of the C++ sources, ordered
  containers (\<^verbatim>\<open>std::map\<close>, \<^verbatim>\<open>std::set\<close>, \<^verbatim>\<open>QMap\<close>) as sorted association lists, the
  contract they satisfy as a locale, and the generic facts on lists and words that the
  component theories use.
\<close>

unbundle bit_operations_syntax

section \<open>Machine types\<close>

type_synonym u8 = "8 word"
type_synonym u16 = "16 word"
type_synonym u32 = "32 word"
type_synonym u64 = "64 word"
type_synonym bytes = "u8 list"

named_theorems sizes \<open>lengths of encoded values and buffers\<close>
named_theorems roundtrips \<open>decoding after encoding\<close>

section \<open>Ordered maps\<close>

text \<open>
  A \<^verbatim>\<open>std::map\<close> or \<^verbatim>\<open>QMap\<close> is an association list in ascending key order, so that
  iteration visits the entries in the order the C++ loops see them.  \<open>map_of\<close> is
  \<^verbatim>\<open>find\<close>, \<open>om_upd\<close> is \<^verbatim>\<open>operator[]=\<close>/\<^verbatim>\<open>insert\<close>, \<open>om_del\<close> is \<^verbatim>\<open>erase\<close>.
\<close>

type_synonym ('k, 'v) omap = "('k \<times> 'v) list"

fun om_upd :: "'k::linorder \<Rightarrow> 'v \<Rightarrow> ('k, 'v) omap \<Rightarrow> ('k, 'v) omap" where
  "om_upd k v [] = [(k, v)]"
| "om_upd k v ((a, b) # m) =
     (if k < a then (k, v) # (a, b) # m
      else if k = a then (k, v) # m
      else (a, b) # om_upd k v m)"

definition om_del :: "'k \<Rightarrow> ('k, 'v) omap \<Rightarrow> ('k, 'v) omap" where
  "om_del k m = filter (\<lambda>e. fst e \<noteq> k) m"

definition om_keys :: "('k, 'v) omap \<Rightarrow> 'k list" where
  "om_keys m = map fst m"

definition om_ok :: "('k::linorder, 'v) omap \<Rightarrow> bool" where
  "om_ok m \<longleftrightarrow> sorted_wrt (<) (map fst m)"

text \<open>Updating the value stored under a key, if there is one.\<close>

definition om_adj :: "'k::linorder \<Rightarrow> ('v \<Rightarrow> 'v) \<Rightarrow> ('k, 'v) omap \<Rightarrow> ('k, 'v) omap" where
  "om_adj k f m = map (\<lambda>e. if fst e = k then (fst e, f (snd e)) else e) m"

lemma map_of_om_upd [simp]: "map_of (om_upd k v m) = (map_of m)(k \<mapsto> v)"
  by (induction k v m rule: om_upd.induct) auto

lemma map_of_om_del [simp]: "map_of (om_del k m) = (map_of m)(k := None)"
proof (rule ext)
  show "map_of (om_del k m) x = ((map_of m)(k := None)) x" for x
    unfolding om_del_def by (induction m) auto
qed

lemma map_of_om_adj [simp]:
  "map_of (om_adj k f m) x = (if x = k then map_option f (map_of m k) else map_of m x)"
  unfolding om_adj_def by (induction m) auto

lemma om_keys_adj [simp]: "map fst (om_adj k f m) = map fst m"
  unfolding om_adj_def by (induction m) auto

lemma om_ok_adj [simp]: "om_ok (om_adj k f m) = om_ok m"
  by (simp add: om_ok_def)

lemma om_ok_Nil [simp]: "om_ok []"
  by (simp add: om_ok_def)

lemma om_ok_Cons: "om_ok ((k, v) # m) \<longleftrightarrow> (\<forall>k' \<in> fst ` set m. k < k') \<and> om_ok m"
  by (auto simp: om_ok_def)

lemma om_ok_distinct: "om_ok m \<Longrightarrow> distinct (map fst m)"
  unfolding om_ok_def
  by (induction m) force+

lemma fst_set_om_upd [simp]: "fst ` set (om_upd k v m) = insert k (fst ` set m)"
  by (induction k v m rule: om_upd.induct) auto

lemma set_om_upd_subset: "set (om_upd k v m) \<subseteq> insert (k, v) (set m)"
  by (induction k v m rule: om_upd.induct) auto

lemma om_ok_upd [simp]: "om_ok m \<Longrightarrow> om_ok (om_upd k v m)"
  by (induction k v m rule: om_upd.induct) (fastforce simp: om_ok_Cons)+

lemma om_ok_del [simp]: "om_ok m \<Longrightarrow> om_ok (om_del k m)"
  unfolding om_del_def by (induction m) (auto simp: om_ok_Cons)

lemma set_om_del [simp]: "set (om_del k m) = {e \<in> set m. fst e \<noteq> k}"
  by (auto simp: om_del_def)

lemma om_del_adj [simp]: "om_del k (om_adj k f m) = om_del k m"
  by (induction m) (auto simp: om_del_def om_adj_def)

lemma length_om_del_le: "length (om_del k m) \<le> length m"
  by (simp add: om_del_def)

lemma om_del_absent [simp]: "k \<notin> fst ` set m \<Longrightarrow> om_del k m = m"
  by (force simp: om_del_def filter_id_conv)

lemma length_om_del_present:
  "k \<in> fst ` set m \<Longrightarrow> length (om_del k m) < length m"
  unfolding om_del_def by (force intro: length_filter_less)

lemma om_in_set_iff:
  "om_ok m \<Longrightarrow> (k, v) \<in> set m \<longleftrightarrow> map_of m k = Some v"
  by (metis map_of_eq_Some_iff om_ok_distinct)

lemma map_of_Some_in_fst: "map_of m k = Some v \<Longrightarrow> k \<in> fst ` set m"
  by (metis map_of_SomeD fst_conv image_eqI)

lemma length_om_upd:
  "om_ok m \<Longrightarrow> length (om_upd k v m) = (if k \<in> fst ` set m then length m else Suc (length m))"
  by (induction k v m rule: om_upd.induct) (auto simp: om_ok_Cons)

section \<open>The map contract\<close>

text \<open>
  What the components rely on when they keep a table: lookup after insertion and after
  erasure, and that both keep the representation invariant.
\<close>

locale table =
  fixes find :: "'m \<Rightarrow> 'k \<Rightarrow> 'v option"
    and ins :: "'k \<Rightarrow> 'v \<Rightarrow> 'm \<Rightarrow> 'm"
    and del :: "'k \<Rightarrow> 'm \<Rightarrow> 'm"
    and ok :: "'m \<Rightarrow> bool"
  assumes find_ins: "find (ins k v m) x = (if x = k then Some v else find m x)"
    and find_del: "find (del k m) x = (if x = k then None else find m x)"
    and ok_ins: "ok m \<Longrightarrow> ok (ins k v m)"
    and ok_del: "ok m \<Longrightarrow> ok (del k m)"
begin

lemma find_ins_same: "find (ins k v m) k = Some v"
  by (simp add: find_ins)

lemma find_del_ins: "find (del k (ins k v m)) x = find (del k m) x"
  by (simp add: find_ins find_del)

lemma dom_ins: "dom (find (ins k v m)) = insert k (dom (find m))"
  by (auto simp: find_ins dom_def)

lemma dom_del: "dom (find (del k m)) = dom (find m) - {k}"
  by (auto simp: find_del dom_def)

lemma fold_ins_keeps_ok: "ok m \<Longrightarrow> ok (fold (\<lambda>(k, v). ins k v) kvs m)"
  by (induction kvs arbitrary: m) (auto simp: ok_ins)

end

interpretation om: table map_of om_upd om_del om_ok
  by unfold_locales auto

section \<open>Lists and words\<close>

lemma unat_of_nat_small: "n < 2 ^ LENGTH('a::len) \<Longrightarrow> unat (of_nat n :: 'a word) = n"
  by (simp add: unat_of_nat take_bit_nat_eq_self)

lemma unat_u8_lt: "unat (b :: u8) < 256"
  using unsigned_less [of b, where ?'a = nat] by simp

lemma unat_u16_lt: "unat (b :: u16) < 65536"
  using unsigned_less [of b, where ?'a = nat] by simp

lemma unat_plus_one:
  fixes x :: "'a::len word"
  assumes "x \<noteq> -1"
  shows "unat (x + 1) = Suc (unat x)"
proof -
  have "1 + x \<noteq> 0" using assms by (metis add.commute add_eq_0_iff)
  then show ?thesis using unatSuc by (metis add.commute)
qed

lemma sum_list_filter_split:
  "sum_list (map f (filter P xs)) + sum_list (map f (filter (\<lambda>x. \<not> P x) xs)) = (sum_list (map f xs) :: nat)"
  by (induction xs) auto

lemma if_False_eq: "(if b then False else P) \<longleftrightarrow> \<not> b \<and> P"
  by simp

lemma take_append_length [simp]: "take (length xs) (xs @ ys) = xs"
  by simp

lemma drop_append_length [simp]: "drop (length xs) (xs @ ys) = ys"
  by simp

end
