(* ===== verification/Protocol.thy ===== *)
theory Protocol
  imports Prelude_VLan "HOL-Library.Signed_Division"
begin

text \<open>
  The protocol vocabulary of \<^verbatim>\<open>common/protocol.h\<close>: constants, message numbers, the enums of
  the wire format with their numeric values, validity and normalisation of the fields a peer
  can choose, the traffic policy of a room, the payload budget of a tunnel and the FEC parity
  counts.  A \<^verbatim>\<open>std::string\<close> is its list of bytes.
\<close>

section \<open>Constants\<close>

abbreviation (input) VNET_SUBNET :: u32 where "VNET_SUBNET \<equiv> 0x0A0A0000"
abbreviation (input) VNET_BROADCAST :: u32 where "VNET_BROADCAST \<equiv> 0x0A0A00FF"
abbreviation (input) HEARTBEAT_TIMEOUT_MS :: int where "HEARTBEAT_TIMEOUT_MS \<equiv> 45000"
abbreviation (input) RAW_UDP_KEEPALIVE_MS :: u32 where "RAW_UDP_KEEPALIVE_MS \<equiv> 5000"
abbreviation (input) RAW_UDP_DEAD_TIMEOUT_MS :: u32 where "RAW_UDP_DEAD_TIMEOUT_MS \<equiv> 30000"
abbreviation (input) RAW_UDP_FRAG_TIMEOUT_MS :: u32 where "RAW_UDP_FRAG_TIMEOUT_MS \<equiv> 2000"
abbreviation (input) RAW_UDP_MAX_FRAG_PAYLOAD :: int where "RAW_UDP_MAX_FRAG_PAYLOAD \<equiv> 1457"
abbreviation (input) RAW_UDP_MAX_REASSEMBLY_BYTES :: nat where "RAW_UDP_MAX_REASSEMBLY_BYTES \<equiv> 131072"
abbreviation (input) RAW_UDP_MAX_ACTIVE_MESSAGES :: nat where "RAW_UDP_MAX_ACTIVE_MESSAGES \<equiv> 64"
abbreviation (input) FEC_MAX_BUFFERED_BYTES :: nat where "FEC_MAX_BUFFERED_BYTES \<equiv> 262144"
abbreviation (input) FEC_MAX_ACTIVE_GROUPS :: nat where "FEC_MAX_ACTIVE_GROUPS \<equiv> 32"
abbreviation (input) ROOM_MTU_SAFE :: int where "ROOM_MTU_SAFE \<equiv> 1280"
abbreviation (input) ROOM_MTU_BALANCED :: int where "ROOM_MTU_BALANCED \<equiv> 1400"
abbreviation (input) ROOM_MTU_AGGRESSIVE :: int where "ROOM_MTU_AGGRESSIVE \<equiv> 1420"
abbreviation (input) ROOM_MTU_DEFAULT :: int where "ROOM_MTU_DEFAULT \<equiv> ROOM_MTU_BALANCED"
abbreviation (input) MAX_ROOM_NAME_LEN :: nat where "MAX_ROOM_NAME_LEN \<equiv> 63"
abbreviation (input) MIN_PLAYER_NAME_LEN :: nat where "MIN_PLAYER_NAME_LEN \<equiv> 5"
abbreviation (input) MAX_PLAYER_NAME_LEN :: nat where "MAX_PLAYER_NAME_LEN \<equiv> 63"
abbreviation (input) MIN_ROOM_PASSWORD_LEN :: nat where "MIN_ROOM_PASSWORD_LEN \<equiv> 6"
abbreviation (input) MAX_ROOM_PASSWORD_LEN :: nat where "MAX_ROOM_PASSWORD_LEN \<equiv> 63"
abbreviation (input) MAX_PLAYERS :: nat where "MAX_PLAYERS \<equiv> 8"
abbreviation (input) RECONNECT_TOKEN_SIZE :: nat where "RECONNECT_TOKEN_SIZE \<equiv> 32"
abbreviation (input) RECONNECT_LEASE_TIMEOUT_SEC :: int where "RECONNECT_LEASE_TIMEOUT_SEC \<equiv> 120"
abbreviation (input) VNET_FIRST_HOST_SUFFIX :: nat where "VNET_FIRST_HOST_SUFFIX \<equiv> 2"
abbreviation (input) VNET_LAST_HOST_SUFFIX :: nat where "VNET_LAST_HOST_SUFFIX \<equiv> 254"
abbreviation (input) MAX_TCP_SEND_BUF :: nat where "MAX_TCP_SEND_BUF \<equiv> 2097152"
abbreviation (input) MAX_TCP_MSG_PAYLOAD :: nat where "MAX_TCP_MSG_PAYLOAD \<equiv> 65000"
abbreviation (input) ROOM_LIST_PAGE_PAYLOAD :: nat where "ROOM_LIST_PAGE_PAYLOAD \<equiv> 60000"
abbreviation (input) PROTOCOL_VERSION :: u16 where "PROTOCOL_VERSION \<equiv> 9"
abbreviation (input) AUTH_KDF_PROFILE :: u8 where "AUTH_KDF_PROFILE \<equiv> 1"
abbreviation (input) AUTH_SALT_SIZE :: nat where "AUTH_SALT_SIZE \<equiv> 16"

abbreviation (input) UDP_RELAY_DATA :: u8 where "UDP_RELAY_DATA \<equiv> 0x02"
abbreviation (input) UDP_KEEPALIVE :: u8 where "UDP_KEEPALIVE \<equiv> 0x07"
abbreviation (input) UDP_RAW_RELAY_DATA :: u8 where "UDP_RAW_RELAY_DATA \<equiv> 0x08"
abbreviation (input) UDP_ENCRYPTED :: u8 where "UDP_ENCRYPTED \<equiv> 0x09"

section \<open>Message numbers\<close>

abbreviation (input) MSG_LOGIN :: u8 where "MSG_LOGIN \<equiv> 0x01"
abbreviation (input) MSG_LOGIN_RESP :: u8 where "MSG_LOGIN_RESP \<equiv> 0x02"
abbreviation (input) MSG_CREATE_ROOM :: u8 where "MSG_CREATE_ROOM \<equiv> 0x03"
abbreviation (input) MSG_JOIN_ROOM :: u8 where "MSG_JOIN_ROOM \<equiv> 0x04"
abbreviation (input) MSG_ROOM_INFO :: u8 where "MSG_ROOM_INFO \<equiv> 0x05"
abbreviation (input) MSG_PEER_JOINED :: u8 where "MSG_PEER_JOINED \<equiv> 0x06"
abbreviation (input) MSG_PEER_LEFT :: u8 where "MSG_PEER_LEFT \<equiv> 0x07"
abbreviation (input) MSG_LEAVE_ROOM :: u8 where "MSG_LEAVE_ROOM \<equiv> 0x08"
abbreviation (input) MSG_ROOM_CREATED :: u8 where "MSG_ROOM_CREATED \<equiv> 0x09"
abbreviation (input) MSG_JOIN_RESP :: u8 where "MSG_JOIN_RESP \<equiv> 0x0A"
abbreviation (input) MSG_REQUEST_RELAY :: u8 where "MSG_REQUEST_RELAY \<equiv> 0x0E"
abbreviation (input) MSG_RELAY_READY :: u8 where "MSG_RELAY_READY \<equiv> 0x0F"
abbreviation (input) MSG_LIST_ROOMS :: u8 where "MSG_LIST_ROOMS \<equiv> 0x10"
abbreviation (input) MSG_ROOM_LIST :: u8 where "MSG_ROOM_LIST \<equiv> 0x11"
abbreviation (input) MSG_ROOM_LIST_PUSH :: u8 where "MSG_ROOM_LIST_PUSH \<equiv> 0x12"
abbreviation (input) MSG_RESUME_ROOM :: u8 where "MSG_RESUME_ROOM \<equiv> 0x13"
abbreviation (input) MSG_LOGOUT :: u8 where "MSG_LOGOUT \<equiv> 0x14"
abbreviation (input) MSG_LOGOUT_ACK :: u8 where "MSG_LOGOUT_ACK \<equiv> 0x15"
abbreviation (input) MSG_PEER_RESUMED :: u8 where "MSG_PEER_RESUMED \<equiv> 0x16"
abbreviation (input) MSG_TCP_RELAY_DATA :: u8 where "MSG_TCP_RELAY_DATA \<equiv> 0x20"
abbreviation (input) MSG_DATA_CHANNEL_INIT :: u8 where "MSG_DATA_CHANNEL_INIT \<equiv> 0x21"
abbreviation (input) MSG_DATA_CHANNEL_ACK :: u8 where "MSG_DATA_CHANNEL_ACK \<equiv> 0x22"
abbreviation (input) MSG_CLIENT_HELLO :: u8 where "MSG_CLIENT_HELLO \<equiv> 0x30"
abbreviation (input) MSG_SERVER_HELLO :: u8 where "MSG_SERVER_HELLO \<equiv> 0x31"
abbreviation (input) MSG_SERVER_AUTH :: u8 where "MSG_SERVER_AUTH \<equiv> 0x32"
abbreviation (input) MSG_SERVER_AUTH_OK :: u8 where "MSG_SERVER_AUTH_OK \<equiv> 0x33"
abbreviation (input) MSG_ENCRYPTED :: u8 where "MSG_ENCRYPTED \<equiv> 0x34"
abbreviation (input) MSG_AUTH_CHALLENGE :: u8 where "MSG_AUTH_CHALLENGE \<equiv> 0xE0"
abbreviation (input) MSG_AUTH_RESPONSE :: u8 where "MSG_AUTH_RESPONSE \<equiv> 0xE1"
abbreviation (input) MSG_PING :: u8 where "MSG_PING \<equiv> 0xF0"
abbreviation (input) MSG_PONG :: u8 where "MSG_PONG \<equiv> 0xF1"
abbreviation (input) MSG_ERROR :: u8 where "MSG_ERROR \<equiv> 0xF2"

abbreviation (input) TRAFFIC_TCP :: u8 where "TRAFFIC_TCP \<equiv> 1"
abbreviation (input) TRAFFIC_UDP :: u8 where "TRAFFIC_UDP \<equiv> 2"
abbreviation (input) ROOM_LIST_UPSERT :: u8 where "ROOM_LIST_UPSERT \<equiv> 1"
abbreviation (input) ROOM_LIST_REMOVE :: u8 where "ROOM_LIST_REMOVE \<equiv> 2"

section \<open>Authentication error codes\<close>

datatype AuthErrorCode = General | VersionMismatch | InvalidPassword | InvalidServerProof
  | UnsupportedKdf | InvalidKey | RateLimited | AuthTimeout | KdfFailed | RoomPassword

fun AuthErrorCode_val :: "AuthErrorCode \<Rightarrow> u16" where
  "AuthErrorCode_val General = 0"
| "AuthErrorCode_val VersionMismatch = 1"
| "AuthErrorCode_val InvalidPassword = 2"
| "AuthErrorCode_val InvalidServerProof = 3"
| "AuthErrorCode_val UnsupportedKdf = 4"
| "AuthErrorCode_val InvalidKey = 5"
| "AuthErrorCode_val RateLimited = 6"
| "AuthErrorCode_val AuthTimeout = 7"
| "AuthErrorCode_val KdfFailed = 8"
| "AuthErrorCode_val RoomPassword = 9"

definition isFatalAuthError :: "u16 \<Rightarrow> bool" where
  "isFatalAuthError code \<longleftrightarrow>
     AuthErrorCode_val VersionMismatch \<le> code \<and> code \<le> AuthErrorCode_val KdfFailed"

section \<open>The data plane switch\<close>

datatype DataPlaneState = Stopped | Running
datatype DataPlaneSecurityMode = Unconfigured | Secure

definition dataPlaneAllowsTraffic :: "DataPlaneState \<Rightarrow> DataPlaneSecurityMode \<Rightarrow> bool" where
  "dataPlaneAllowsTraffic state mode \<longleftrightarrow> state = Running \<and> mode = Secure"

definition dataPlaneCanReconfigure :: "DataPlaneState \<Rightarrow> bool" where
  "dataPlaneCanReconfigure state \<longleftrightarrow> state = Stopped"

section \<open>Transport, FEC and KCP settings\<close>

datatype TransportMode = MODE_RELAY_KCP | MODE_RELAY_TCP | MODE_RELAY_RAW_UDP
datatype FecMode = FEC_NONE | FEC_10 | FEC_30 | FEC_50 | FEC_70 | FEC_100 | FEC_200
datatype KcpProfile = KCP_PROFILE_REALTIME | KCP_PROFILE_BULK

fun TransportMode_val :: "TransportMode \<Rightarrow> u8" where
  "TransportMode_val MODE_RELAY_KCP = 2"
| "TransportMode_val MODE_RELAY_TCP = 3"
| "TransportMode_val MODE_RELAY_RAW_UDP = 4"

fun FecMode_val :: "FecMode \<Rightarrow> u8" where
  "FecMode_val FEC_NONE = 0"
| "FecMode_val FEC_10 = 1"
| "FecMode_val FEC_30 = 2"
| "FecMode_val FEC_50 = 3"
| "FecMode_val FEC_70 = 4"
| "FecMode_val FEC_100 = 5"
| "FecMode_val FEC_200 = 6"

fun KcpProfile_val :: "KcpProfile \<Rightarrow> u8" where
  "KcpProfile_val KCP_PROFILE_REALTIME = 0"
| "KcpProfile_val KCP_PROFILE_BULK = 1"

text \<open>The enumerator a \<^verbatim>\<open>static_cast\<close> of a number selects, where there is one.\<close>

definition TransportMode_of :: "u8 \<Rightarrow> TransportMode option" where
  "TransportMode_of raw =
     find (\<lambda>m. TransportMode_val m = raw) [MODE_RELAY_KCP, MODE_RELAY_TCP, MODE_RELAY_RAW_UDP]"

definition FecMode_of :: "u8 \<Rightarrow> FecMode option" where
  "FecMode_of raw =
     find (\<lambda>m. FecMode_val m = raw) [FEC_NONE, FEC_10, FEC_30, FEC_50, FEC_70, FEC_100, FEC_200]"

definition KcpProfile_of :: "u8 \<Rightarrow> KcpProfile option" where
  "KcpProfile_of raw =
     find (\<lambda>m. KcpProfile_val m = raw) [KCP_PROFILE_REALTIME, KCP_PROFILE_BULK]"

section \<open>Names and passwords\<close>

definition isAsciiAlphaNum :: "u8 \<Rightarrow> bool" where
  "isAsciiAlphaNum c \<longleftrightarrow>
     (0x30 \<le> c \<and> c \<le> 0x39) \<or> (0x41 \<le> c \<and> c \<le> 0x5A) \<or> (0x61 \<le> c \<and> c \<le> 0x7A)"

fun isAsciiAlphaNumString :: "bytes \<Rightarrow> bool" where
  "isAsciiAlphaNumString [] = True"
| "isAsciiAlphaNumString (c # s) = (if \<not> isAsciiAlphaNum c then False else isAsciiAlphaNumString s)"

definition isValidPlayerName :: "bytes \<Rightarrow> bool" where
  "isValidPlayerName s \<longleftrightarrow>
     MIN_PLAYER_NAME_LEN \<le> length s \<and> length s \<le> MAX_PLAYER_NAME_LEN \<and> isAsciiAlphaNumString s"

definition isValidRoomName :: "bytes \<Rightarrow> bool" where
  "isValidRoomName s \<longleftrightarrow> s \<noteq> [] \<and> length s \<le> MAX_ROOM_NAME_LEN"

definition isValidRoomPassword :: "bytes \<Rightarrow> bool" where
  "isValidRoomPassword s \<longleftrightarrow>
     MIN_ROOM_PASSWORD_LEN \<le> length s \<and> length s \<le> MAX_ROOM_PASSWORD_LEN \<and> isAsciiAlphaNumString s"

definition normalizeMaxPlayers :: "int \<Rightarrow> u8" where
  "normalizeMaxPlayers value =
     (if value < 2 then 2 else if value > int MAX_PLAYERS then of_nat MAX_PLAYERS else of_int value)"

section \<open>Validity and normalisation of settings\<close>

definition isValidTransportModeValue :: "u8 \<Rightarrow> bool" where
  "isValidTransportModeValue raw \<longleftrightarrow>
     raw = TransportMode_val MODE_RELAY_KCP \<or> raw = TransportMode_val MODE_RELAY_TCP \<or>
     raw = TransportMode_val MODE_RELAY_RAW_UDP"

definition normalizeTransportMode :: "u8 \<Rightarrow> TransportMode" where
  "normalizeTransportMode raw =
     (if isValidTransportModeValue raw then the (TransportMode_of raw) else MODE_RELAY_KCP)"

definition isValidFecModeValue :: "u8 \<Rightarrow> bool" where
  "isValidFecModeValue raw \<longleftrightarrow>
     raw = FecMode_val FEC_NONE \<or> raw = FecMode_val FEC_10 \<or> raw = FecMode_val FEC_30 \<or>
     raw = FecMode_val FEC_50 \<or> raw = FecMode_val FEC_70 \<or> raw = FecMode_val FEC_100 \<or>
     raw = FecMode_val FEC_200"

definition normalizeFecMode :: "u8 \<Rightarrow> TransportMode \<Rightarrow> FecMode" where
  "normalizeFecMode raw mode =
     (let fec = (if isValidFecModeValue raw then the (FecMode_of raw) else FEC_NONE)
      in if mode = MODE_RELAY_TCP then FEC_NONE else fec)"

definition isValidKcpProfileValue :: "u8 \<Rightarrow> bool" where
  "isValidKcpProfileValue raw \<longleftrightarrow>
     raw = KcpProfile_val KCP_PROFILE_REALTIME \<or> raw = KcpProfile_val KCP_PROFILE_BULK"

definition normalizeKcpProfile :: "u8 \<Rightarrow> KcpProfile" where
  "normalizeKcpProfile raw =
     (if isValidKcpProfileValue raw then the (KcpProfile_of raw) else KCP_PROFILE_REALTIME)"

definition isValidRoomMtuValue :: "int \<Rightarrow> bool" where
  "isValidRoomMtuValue mtu \<longleftrightarrow>
     mtu = ROOM_MTU_SAFE \<or> mtu = ROOM_MTU_BALANCED \<or> mtu = ROOM_MTU_AGGRESSIVE"

definition normalizeRoomMtu :: "int \<Rightarrow> u16" where
  "normalizeRoomMtu mtu = (if isValidRoomMtuValue mtu then of_int mtu else of_int ROOM_MTU_DEFAULT)"

section \<open>Header sizes and the payload budget\<close>

text \<open>The packed sizes of \<^verbatim>\<open>UdpRelayHeader\<close>, \<^verbatim>\<open>TcpMsgHeader\<close>, \<^verbatim>\<open>FragHeader\<close> and \<^verbatim>\<open>FecHeader\<close>.\<close>

abbreviation (input) sizeof_UdpRelayHeader :: nat where "sizeof_UdpRelayHeader \<equiv> 10"
abbreviation (input) sizeof_TcpMsgHeader :: nat where "sizeof_TcpMsgHeader \<equiv> 3"
abbreviation (input) sizeof_FragHeader :: nat where "sizeof_FragHeader \<equiv> 6"
abbreviation (input) sizeof_FecHeader :: nat where "sizeof_FecHeader \<equiv> 4"

definition transportPayloadBudget :: "int \<Rightarrow> TransportMode \<Rightarrow> bool \<Rightarrow> bool \<Rightarrow> int" where
  "transportPayloadBudget roomMtu mode fecEnabled encrypted =
     (let budget = uint (normalizeRoomMtu roomMtu);
          budget = budget - int sizeof_UdpRelayHeader;
          budget = (if fecEnabled then budget - int sizeof_FecHeader else budget);
          budget = (if encrypted then budget - (1 + 4 + 8 + 16) else budget);
          budget = (if mode = MODE_RELAY_RAW_UDP then budget - int sizeof_FragHeader else budget);
          budget = (if budget < 256 then 256 else budget);
          budget = (if budget > RAW_UDP_MAX_FRAG_PAYLOAD then RAW_UDP_MAX_FRAG_PAYLOAD else budget)
      in budget)"

definition kcpMtuFromRoomMtu :: "int \<Rightarrow> bool \<Rightarrow> bool \<Rightarrow> int" where
  "kcpMtuFromRoomMtu roomMtu fecEnabled encrypted =
     transportPayloadBudget roomMtu MODE_RELAY_KCP fecEnabled encrypted"

section \<open>Traffic policies\<close>

record RoomTrafficPolicy =
  tp_transportMode :: TransportMode
  tp_fecMode :: FecMode
  tp_kcpProfile :: KcpProfile

definition makeDefaultTcpPolicy :: RoomTrafficPolicy where
  "makeDefaultTcpPolicy =
     \<lparr>tp_transportMode = MODE_RELAY_RAW_UDP, tp_fecMode = FEC_NONE, tp_kcpProfile = KCP_PROFILE_REALTIME\<rparr>"

definition makeDefaultUdpPolicy :: RoomTrafficPolicy where
  "makeDefaultUdpPolicy =
     \<lparr>tp_transportMode = MODE_RELAY_KCP, tp_fecMode = FEC_NONE, tp_kcpProfile = KCP_PROFILE_REALTIME\<rparr>"

definition normalizeTrafficPolicy :: "u8 \<Rightarrow> u8 \<Rightarrow> u8 \<Rightarrow> RoomTrafficPolicy \<Rightarrow> RoomTrafficPolicy" where
  "normalizeTrafficPolicy transport fec profile fallback =
     (let p = fallback;
          p = (if isValidTransportModeValue transport
               then p\<lparr>tp_transportMode := the (TransportMode_of transport)\<rparr> else p);
          p = p\<lparr>tp_fecMode := normalizeFecMode fec (tp_transportMode p)\<rparr>;
          p = p\<lparr>tp_kcpProfile := normalizeKcpProfile profile\<rparr>;
          p = (if tp_transportMode p = MODE_RELAY_TCP then p\<lparr>tp_fecMode := FEC_NONE\<rparr> else p)
      in p)"

definition policyForTraffic :: "RoomTrafficPolicy \<Rightarrow> RoomTrafficPolicy \<Rightarrow> u8 \<Rightarrow> RoomTrafficPolicy" where
  "policyForTraffic tcpPolicy udpPolicy cls = (if cls = TRAFFIC_TCP then tcpPolicy else udpPolicy)"

definition trafficClassFromIpPacket :: "bytes \<Rightarrow> u8" where
  "trafficClassFromIpPacket ipPacket =
     (if length ipPacket < 20 then TRAFFIC_UDP
      else let version = drop_bit 4 (ipPacket ! 0) AND 0x0F in
      if version \<noteq> 4 then TRAFFIC_UDP
      else let ihl = (ipPacket ! 0 AND 0x0F) * 4 in
      if ihl < 20 \<or> length ipPacket < unat ihl then TRAFFIC_UDP
      else let proto = ipPacket ! 9 in
      if proto = 6 then TRAFFIC_TCP else TRAFFIC_UDP)"

fun fecParityCount :: "FecMode \<Rightarrow> int \<Rightarrow> int" where
  "fecParityCount FEC_10 dataCount = (dataCount * 1 + 9) sdiv 10"
| "fecParityCount FEC_30 dataCount = (dataCount * 3 + 9) sdiv 10"
| "fecParityCount FEC_50 dataCount = (dataCount * 5 + 9) sdiv 10"
| "fecParityCount FEC_70 dataCount = (dataCount * 7 + 9) sdiv 10"
| "fecParityCount FEC_100 dataCount = dataCount"
| "fecParityCount FEC_200 dataCount = dataCount * 2"
| "fecParityCount FEC_NONE dataCount = 0"

section \<open>Facts\<close>

lemma isAsciiAlphaNumString_iff: "isAsciiAlphaNumString s \<longleftrightarrow> (\<forall>c \<in> set s. isAsciiAlphaNum c)"
  by (induction s) auto

lemma TransportMode_of_val [simp]: "TransportMode_of (TransportMode_val m) = Some m"
  by (cases m) (simp_all add: TransportMode_of_def)

lemma FecMode_of_val [simp]: "FecMode_of (FecMode_val m) = Some m"
  by (cases m) (simp_all add: FecMode_of_def)

lemma KcpProfile_of_val [simp]: "KcpProfile_of (KcpProfile_val m) = Some m"
  by (cases m) (simp_all add: KcpProfile_of_def)

lemma isValidTransportModeValue_iff: "isValidTransportModeValue raw \<longleftrightarrow> (\<exists>m. raw = TransportMode_val m)"
proof
  show "isValidTransportModeValue raw \<Longrightarrow> \<exists>m. raw = TransportMode_val m"
    unfolding isValidTransportModeValue_def by blast
next
  assume "\<exists>m. raw = TransportMode_val m"
  then obtain m where "raw = TransportMode_val m" ..
  then show "isValidTransportModeValue raw"
    by (cases m) (simp_all add: isValidTransportModeValue_def)
qed

lemma isValidFecModeValue_iff: "isValidFecModeValue raw \<longleftrightarrow> (\<exists>m. raw = FecMode_val m)"
proof
  show "isValidFecModeValue raw \<Longrightarrow> \<exists>m. raw = FecMode_val m"
    unfolding isValidFecModeValue_def by blast
next
  assume "\<exists>m. raw = FecMode_val m"
  then obtain m where "raw = FecMode_val m" ..
  then show "isValidFecModeValue raw"
    by (cases m) (simp_all add: isValidFecModeValue_def)
qed

lemma isValidKcpProfileValue_iff: "isValidKcpProfileValue raw \<longleftrightarrow> (\<exists>m. raw = KcpProfile_val m)"
proof
  show "isValidKcpProfileValue raw \<Longrightarrow> \<exists>m. raw = KcpProfile_val m"
    unfolding isValidKcpProfileValue_def by blast
next
  assume "\<exists>m. raw = KcpProfile_val m"
  then obtain m where "raw = KcpProfile_val m" ..
  then show "isValidKcpProfileValue raw"
    by (cases m) (simp_all add: isValidKcpProfileValue_def)
qed

lemma isValidTransportModeValue_val [simp]: "isValidTransportModeValue (TransportMode_val m)"
  by (auto simp: isValidTransportModeValue_iff)

lemma isValidFecModeValue_val [simp]: "isValidFecModeValue (FecMode_val m)"
  by (auto simp: isValidFecModeValue_iff)

lemma isValidKcpProfileValue_val [simp]: "isValidKcpProfileValue (KcpProfile_val m)"
  by (auto simp: isValidKcpProfileValue_iff)

lemma uint_normalizeRoomMtu:
  "uint (normalizeRoomMtu mtu) = (if isValidRoomMtuValue mtu then mtu else ROOM_MTU_DEFAULT)"
  by (auto simp: normalizeRoomMtu_def isValidRoomMtuValue_def)

lemma unat_normalizeRoomMtu_cases:
  "unat (normalizeRoomMtu mtu) \<in> {1280, 1400, 1420}"
  by (auto simp: normalizeRoomMtu_def isValidRoomMtuValue_def)

lemma normalizeRoomMtu_idem [simp]:
  "normalizeRoomMtu (uint (normalizeRoomMtu mtu)) = normalizeRoomMtu mtu"
  by (auto simp: normalizeRoomMtu_def isValidRoomMtuValue_def)

text \<open>A policy that the wire format can carry: the TCP relay has no FEC.\<close>

definition policy_wf :: "RoomTrafficPolicy \<Rightarrow> bool" where
  "policy_wf p \<longleftrightarrow> (tp_transportMode p = MODE_RELAY_TCP \<longrightarrow> tp_fecMode p = FEC_NONE)"

lemma normalizeTrafficPolicy_wf: "policy_wf (normalizeTrafficPolicy t f k fb)"
  by (simp add: normalizeTrafficPolicy_def policy_wf_def Let_def normalizeFecMode_def)

lemma normalizeTrafficPolicy_val:
  assumes "policy_wf p"
  shows "normalizeTrafficPolicy (TransportMode_val (tp_transportMode p))
           (FecMode_val (tp_fecMode p)) (KcpProfile_val (tp_kcpProfile p)) fb = p"
  using assms
  by (cases p) (auto simp: normalizeTrafficPolicy_def policy_wf_def Let_def normalizeFecMode_def
      normalizeKcpProfile_def)

lemma transportPayloadBudget_exact:
  "transportPayloadBudget mtu mode fec enc =
     uint (normalizeRoomMtu mtu) - 10 - (if fec then 4 else 0) - (if enc then 29 else 0)
       - (if mode = MODE_RELAY_RAW_UDP then 6 else 0)"
  unfolding transportPayloadBudget_def
  by (auto simp: Let_def uint_normalizeRoomMtu isValidRoomMtuValue_def)

lemma fecParityCount_nat:
  "fecParityCount m (int n) =
     (case m of FEC_NONE \<Rightarrow> 0 | FEC_10 \<Rightarrow> int ((n + 9) div 10) | FEC_30 \<Rightarrow> int ((3 * n + 9) div 10)
      | FEC_50 \<Rightarrow> int ((5 * n + 9) div 10) | FEC_70 \<Rightarrow> int ((7 * n + 9) div 10)
      | FEC_100 \<Rightarrow> int n | FEC_200 \<Rightarrow> int (2 * n))"
  by (cases m) (simp_all add: signed_divide_int_def zdiv_int algebra_simps)

end
