(* ===== verification/Byte_Buffer.thy ===== *)
theory Byte_Buffer
  imports Protocol
begin

text \<open>
  The big-endian message buffer of \<^verbatim>\<open>common/byte_buffer.h\<close>, the traffic-policy codec of
  \<^verbatim>\<open>common/traffic_policy_codec.h\<close> and the frame probe of \<^verbatim>\<open>common/tcp_frame_probe.h\<close>.
  A read is a function to \<open>option\<close>: \<open>None\<close> is the thrown \<^verbatim>\<open>ByteBufferReadError\<close>.
  The locale \<open>codec\<close> is the contract between a writer and its reader; every pair of the
  class is an instance of it.
\<close>

section \<open>The buffer\<close>

record ByteBuffer =
  bb_data :: bytes
  bb_readPos :: nat

definition emptyBuffer :: ByteBuffer where
  "emptyBuffer = \<lparr>bb_data = [], bb_readPos = 0\<rparr>"

text \<open>The constructor from a pointer and a length: a null pointer with a length throws.\<close>

definition mkByteBuffer :: "bytes option \<Rightarrow> nat \<Rightarrow> ByteBuffer option" where
  "mkByteBuffer d len =
     (if len = 0 then Some emptyBuffer
      else case d of None \<Rightarrow> None
           | Some p \<Rightarrow> Some \<lparr>bb_data = take len p, bb_readPos = 0\<rparr>)"

definition writeU8 :: "u8 \<Rightarrow> ByteBuffer \<Rightarrow> ByteBuffer" where
  "writeU8 v b = b\<lparr>bb_data := bb_data b @ [v]\<rparr>"

definition writeU16 :: "u16 \<Rightarrow> ByteBuffer \<Rightarrow> ByteBuffer" where
  "writeU16 v b =
     (let b = b\<lparr>bb_data := bb_data b @ [ucast (drop_bit 8 v AND 0xFF)]\<rparr>
      in b\<lparr>bb_data := bb_data b @ [ucast (v AND 0xFF)]\<rparr>)"

definition writeU32 :: "u32 \<Rightarrow> ByteBuffer \<Rightarrow> ByteBuffer" where
  "writeU32 v b =
     (let b = b\<lparr>bb_data := bb_data b @ [ucast (drop_bit 24 v AND 0xFF)]\<rparr>;
          b = b\<lparr>bb_data := bb_data b @ [ucast (drop_bit 16 v AND 0xFF)]\<rparr>;
          b = b\<lparr>bb_data := bb_data b @ [ucast (drop_bit 8 v AND 0xFF)]\<rparr>
      in b\<lparr>bb_data := bb_data b @ [ucast (v AND 0xFF)]\<rparr>)"

text \<open>The loop over \<^verbatim>\<open>shift = 56, 48, .., 0\<close>.\<close>

definition writeU64 :: "u64 \<Rightarrow> ByteBuffer \<Rightarrow> ByteBuffer" where
  "writeU64 v b =
     fold (\<lambda>shift b. b\<lparr>bb_data := bb_data b @ [ucast (drop_bit shift v AND 0xFF)]\<rparr>)
       [56, 48, 40, 32, 24, 16, 8, 0] b"

definition writeString :: "bytes \<Rightarrow> ByteBuffer \<Rightarrow> ByteBuffer" where
  "writeString s b =
     (let b = writeU16 (of_nat (length s)) b in b\<lparr>bb_data := bb_data b @ s\<rparr>)"

definition writeBytes :: "bytes \<Rightarrow> ByteBuffer \<Rightarrow> ByteBuffer" where
  "writeBytes d b = b\<lparr>bb_data := bb_data b @ d\<rparr>"

definition bb_size :: "ByteBuffer \<Rightarrow> nat" where
  "bb_size b = length (bb_data b)"

definition remaining :: "ByteBuffer \<Rightarrow> nat" where
  "remaining b = length (bb_data b) - bb_readPos b"

definition atEnd :: "ByteBuffer \<Rightarrow> bool" where
  "atEnd b \<longleftrightarrow> bb_readPos b \<ge> length (bb_data b)"

definition bb_clear :: "ByteBuffer \<Rightarrow> ByteBuffer" where
  "bb_clear b = b\<lparr>bb_data := [], bb_readPos := 0\<rparr>"

definition ensureReadable :: "nat \<Rightarrow> ByteBuffer \<Rightarrow> unit option" where
  "ensureReadable n b = (if n > remaining b then None else Some ())"

definition readU8 :: "ByteBuffer \<Rightarrow> (u8 \<times> ByteBuffer) option" where
  "readU8 b = do {
     ensureReadable 1 b;
     Some (bb_data b ! bb_readPos b, b\<lparr>bb_readPos := bb_readPos b + 1\<rparr>)
   }"

definition readU16 :: "ByteBuffer \<Rightarrow> (u16 \<times> ByteBuffer) option" where
  "readU16 b = do {
     ensureReadable 2 b;
     let v = push_bit 8 (ucast (bb_data b ! bb_readPos b)) OR ucast (bb_data b ! (bb_readPos b + 1));
     Some (v, b\<lparr>bb_readPos := bb_readPos b + 2\<rparr>)
   }"

definition readU32 :: "ByteBuffer \<Rightarrow> (u32 \<times> ByteBuffer) option" where
  "readU32 b = do {
     ensureReadable 4 b;
     let v = push_bit 24 (ucast (bb_data b ! bb_readPos b)) OR
             push_bit 16 (ucast (bb_data b ! (bb_readPos b + 1))) OR
             push_bit 8 (ucast (bb_data b ! (bb_readPos b + 2))) OR
             ucast (bb_data b ! (bb_readPos b + 3));
     Some (v, b\<lparr>bb_readPos := bb_readPos b + 4\<rparr>)
   }"

definition readU64 :: "ByteBuffer \<Rightarrow> (u64 \<times> ByteBuffer) option" where
  "readU64 b = do {
     ensureReadable 8 b;
     let v = fold (\<lambda>i v. push_bit 8 v OR ucast (bb_data b ! (bb_readPos b + i))) [0..<8] 0;
     Some (v, b\<lparr>bb_readPos := bb_readPos b + 8\<rparr>)
   }"

definition readString :: "ByteBuffer \<Rightarrow> (bytes \<times> ByteBuffer) option" where
  "readString b = do {
     (len, b) \<leftarrow> readU16 b;
     ensureReadable (unat len) b;
     let s = take (unat len) (drop (bb_readPos b) (bb_data b));
     Some (s, b\<lparr>bb_readPos := bb_readPos b + unat len\<rparr>)
   }"

definition readBytes :: "nat \<Rightarrow> ByteBuffer \<Rightarrow> (bytes \<times> ByteBuffer) option" where
  "readBytes len b = do {
     ensureReadable len b;
     Some (take len (drop (bb_readPos b) (bb_data b)), b\<lparr>bb_readPos := bb_readPos b + len\<rparr>)
   }"

text \<open>\<^verbatim>\<open>readTrafficPolicy\<close>: three single-byte reads in this order.\<close>

definition readTrafficPolicy :: "RoomTrafficPolicy \<Rightarrow> ByteBuffer \<Rightarrow> (RoomTrafficPolicy \<times> ByteBuffer) option" where
  "readTrafficPolicy fallback buffer = do {
     (transport, buffer) \<leftarrow> readU8 buffer;
     (fec, buffer) \<leftarrow> readU8 buffer;
     (profile, buffer) \<leftarrow> readU8 buffer;
     Some (normalizeTrafficPolicy transport fec profile fallback, buffer)
   }"

section \<open>The frame probe\<close>

datatype TcpFrameProbeStatus = NeedMore | Ready | Malformed

record TcpFrameProbeResult =
  fp_status :: TcpFrameProbeStatus
  fp_msgType :: u8
  fp_payloadLength :: u16
  fp_frameLength :: nat

definition probeTcpFrame :: "bytes option \<Rightarrow> nat \<Rightarrow> TcpFrameProbeResult" where
  "probeTcpFrame data len =
     (let result = \<lparr>fp_status = NeedMore, fp_msgType = 0, fp_payloadLength = 0, fp_frameLength = 0\<rparr> in
      if len < 3 then result
      else case data of
        None \<Rightarrow> result\<lparr>fp_status := Malformed\<rparr>
      | Some d \<Rightarrow>
        (let result = result\<lparr>fp_msgType := d ! 0\<rparr>;
             result = result\<lparr>fp_payloadLength := push_bit 8 (ucast (d ! 1)) OR ucast (d ! 2)\<rparr> in
         if unat (fp_payloadLength result) > MAX_TCP_MSG_PAYLOAD then result\<lparr>fp_status := Malformed\<rparr>
         else let result = result\<lparr>fp_frameLength := 3 + unat (fp_payloadLength result)\<rparr> in
           result\<lparr>fp_status := if len < fp_frameLength result then NeedMore else Ready\<rparr>))"

section \<open>Big-endian encodings\<close>

definition be16 :: "u16 \<Rightarrow> bytes" where
  "be16 v = [ucast (drop_bit 8 v AND 0xFF), ucast (v AND 0xFF)]"

definition be32 :: "u32 \<Rightarrow> bytes" where
  "be32 v = [ucast (drop_bit 24 v AND 0xFF), ucast (drop_bit 16 v AND 0xFF),
             ucast (drop_bit 8 v AND 0xFF), ucast (v AND 0xFF)]"

definition be64 :: "u64 \<Rightarrow> bytes" where
  "be64 v = map (\<lambda>shift. ucast (drop_bit shift v AND 0xFF)) [56, 48, 40, 32, 24, 16, 8, 0]"

lemma mask8: "(0xFF :: 'a::len word) = mask 8"
  by (simp add: mask_eq_exp_minus_1)

lemma join16:
  "push_bit 8 (ucast (ucast (drop_bit 8 v AND 0xFF) :: u8)) OR ucast (ucast (v AND 0xFF) :: u8) = (v :: u16)"
  by (rule bit_word_eqI) (auto simp: mask8 bit_simps)

lemma join32:
  "push_bit 24 (ucast (ucast (drop_bit 24 v AND 0xFF) :: u8)) OR
   push_bit 16 (ucast (ucast (drop_bit 16 v AND 0xFF) :: u8)) OR
   push_bit 8 (ucast (ucast (drop_bit 8 v AND 0xFF) :: u8)) OR
   ucast (ucast (v AND 0xFF) :: u8) = (v :: u32)" (is "?l = v")
proof (rule bit_word_eqI)
  fix n
  assume "n < LENGTH(32)"
  then consider "n < 8" | "8 \<le> n" "n < 16" | "16 \<le> n" "n < 24" | "24 \<le> n" "n < 32"
    by fastforce
  then show "bit ?l n = bit v n"
    by cases (auto simp: mask8 bit_simps)
qed

lemma join64_step:
  "push_bit 8 (drop_bit (sh + 8) v) OR ucast (ucast (drop_bit sh v AND 0xFF) :: u8) = drop_bit sh (v :: u64)"
    (is "?l = ?r")
proof (rule bit_word_eqI)
  fix n
  assume n: "n < LENGTH(64)"
  then consider "n < 8" | "8 \<le> n" by fastforce
  then show "bit ?l n = bit ?r n"
    using n by cases (auto simp: mask8 bit_simps ac_simps)
qed

lemma join64:
  "fold (\<lambda>i v. push_bit 8 v OR ucast (be64 w ! i)) [0..<8] 0 = (w :: u64)"
proof -
  have z: "drop_bit 64 w = 0"
    by (rule bit_word_eqI) (auto simp: bit_simps dest: bit_imp_le_length)
  have "fold (\<lambda>i v. push_bit 8 v OR ucast (be64 w ! i)) [0..<8] (drop_bit 64 w) = w"
    using join64_step [of 56 w] join64_step [of 48 w] join64_step [of 40 w] join64_step [of 32 w]
      join64_step [of 24 w] join64_step [of 16 w] join64_step [of 8 w] join64_step [of 0 w]
    by (simp add: upt_rec be64_def numeral_nat)
  then show ?thesis by (simp only: z)
qed

lemma length_be [simp, sizes]: "length (be16 a) = 2" "length (be32 b) = 4" "length (be64 c) = 8"
  by (simp_all add: be16_def be32_def be64_def)

lemma be32_join:
  "push_bit 24 (ucast (be32 v ! 0)) OR push_bit 16 (ucast (be32 v ! 1)) OR
     push_bit 8 (ucast (be32 v ! 2)) OR ucast (be32 v ! 3) = v"
  by (simp add: be32_def join32)

lemma be16_join: "push_bit 8 (ucast (be16 v ! 0)) OR ucast (be16 v ! 1) = v"
  by (simp add: be16_def join16)

lemma be_eq_iff [simp]:
  "be16 a = be16 a' \<longleftrightarrow> a = a'" "be32 b = be32 b' \<longleftrightarrow> b = b'" "be64 c = be64 c' \<longleftrightarrow> c = c'"
proof -
  show "be16 a = be16 a' \<longleftrightarrow> a = a'" by (metis be16_join)
  show "be32 b = be32 b' \<longleftrightarrow> b = b'" by (metis be32_join)
  show "be64 c = be64 c' \<longleftrightarrow> c = c'" by (metis join64)
qed

lemma be_ne [simp]: "be16 a \<noteq> []" "be32 b \<noteq> []" "be64 c \<noteq> []" "[] \<noteq> be16 a" "[] \<noteq> be32 b" "[] \<noteq> be64 c"
  by (simp_all add: be16_def be32_def be64_def)

text \<open>Conversely, every string of that many bytes is the encoding of the value it denotes.\<close>

lemma u8_bit_high: "8 \<le> m \<Longrightarrow> \<not> bit (b :: u8) m"
  using bit_imp_le_length [of b m] by auto

lemma u8_bit_add: "\<not> bit (b :: u8) (8 + n)" "\<not> bit b (16 + n)" "\<not> bit b (24 + n)" "\<not> bit b (32 + n)"
  "\<not> bit b (40 + n)" "\<not> bit b (48 + n)" "\<not> bit b (56 + n)"
  by (simp_all add: u8_bit_high)

lemma len2: "length d = 2 \<Longrightarrow> \<exists>a b. d = [a, b]"
  by (auto simp: length_Suc_conv numeral_eq_Suc)

lemma split16: "length d = 2 \<Longrightarrow> be16 (push_bit 8 (ucast (d ! 0)) OR ucast (d ! 1)) = d"
  by (drule len2) (auto simp: be16_def mask8 bit_simps u8_bit_add intro!: bit_word_eqI)

lemma len4: "length d = 4 \<Longrightarrow> \<exists>a b c e. d = [a, b, c, e]"
  by (auto simp: length_Suc_conv numeral_eq_Suc)
lemma len8: "length d = 8 \<Longrightarrow> \<exists>a b c e f g h i. d = [a, b, c, e, f, g, h, i]"
  by (auto simp: length_Suc_conv numeral_eq_Suc)

lemma split32: "length d = 4 \<Longrightarrow> be32 (push_bit 24 (ucast (d ! 0)) OR push_bit 16 (ucast (d ! 1)) OR
     push_bit 8 (ucast (d ! 2)) OR ucast (d ! 3)) = d"
  by (drule len4) (auto simp: be32_def mask8 bit_simps u8_bit_add intro!: bit_word_eqI)

lemma split64: "length d = 8 \<Longrightarrow> be64 (fold (\<lambda>i v. push_bit 8 v OR ucast (d ! i)) [0..<8] 0) = d"
  by (drule len8) (auto simp: be64_def mask8 upt_rec bit_simps u8_bit_add intro!: bit_word_eqI)

section \<open>Unread bytes\<close>

definition unread :: "ByteBuffer \<Rightarrow> bytes" where
  "unread b = drop (bb_readPos b) (bb_data b)"

definition advance :: "nat \<Rightarrow> ByteBuffer \<Rightarrow> ByteBuffer" where
  "advance n b = b\<lparr>bb_readPos := bb_readPos b + n\<rparr>"

lemma unread_advance [simp]: "unread (advance n b) = drop n (unread b)"
  by (simp add: unread_def advance_def add.commute)

lemma data_advance [simp]: "bb_data (advance n b) = bb_data b"
  by (simp add: advance_def)

lemma advance_advance [simp]: "advance n (advance m b) = advance (m + n) b"
  by (simp add: advance_def add.assoc)

lemma remaining_unread: "remaining b = length (unread b)"
  by (simp add: remaining_def unread_def)

lemma atEnd_unread: "atEnd b \<longleftrightarrow> unread b = []"
  by (auto simp: atEnd_def unread_def)

lemma unread_nth: "i < length (unread b) \<Longrightarrow> bb_data b ! (bb_readPos b + i) = unread b ! i"
  by (simp add: unread_def)

lemma unread_nth0: "0 < length (unread b) \<Longrightarrow> bb_data b ! bb_readPos b = unread b ! 0"
  using unread_nth [of 0 b] by simp

lemma ensureReadable_unread: "ensureReadable n b = (if n \<le> length (unread b) then Some () else None)"
  by (simp add: ensureReadable_def remaining_unread)

text \<open>Every reader as a function of the unread bytes.\<close>

lemma readU8_unread:
  "readU8 b = (case unread b of [] \<Rightarrow> None | x # _ \<Rightarrow> Some (x, advance 1 b))"
  using unread_nth0 [of b]
  by (cases "unread b") (auto simp: readU8_def ensureReadable_unread advance_def)

lemma readU16_unread:
  "readU16 b = (if length (unread b) < 2 then None
     else Some (push_bit 8 (ucast (unread b ! 0)) OR ucast (unread b ! 1), advance 2 b))"
proof (cases "length (unread b) < 2")
  case False
  then have "0 < length (unread b)" "1 < length (unread b)" by linarith+
  with False show ?thesis
    by (simp only: readU16_def ensureReadable_unread advance_def Let_def unread_nth unread_nth0) simp
qed (simp add: readU16_def ensureReadable_unread)

lemma readU32_unread:
  "readU32 b = (if length (unread b) < 4 then None
     else Some (push_bit 24 (ucast (unread b ! 0)) OR push_bit 16 (ucast (unread b ! 1)) OR
                push_bit 8 (ucast (unread b ! 2)) OR ucast (unread b ! 3), advance 4 b))"
proof (cases "length (unread b) < 4")
  case False
  then have "0 < length (unread b)" "1 < length (unread b)" "2 < length (unread b)" "3 < length (unread b)"
    by linarith+
  with False show ?thesis
    by (simp only: readU32_def ensureReadable_unread advance_def Let_def unread_nth unread_nth0) simp
qed (simp add: readU32_def ensureReadable_unread)

lemma readU64_unread:
  "readU64 b = (if length (unread b) < 8 then None
     else Some (fold (\<lambda>i v. push_bit 8 v OR ucast (unread b ! i)) [0..<8] 0, advance 8 b))"
proof (cases "length (unread b) < 8")
  case False
  then have "fold (\<lambda>i v. push_bit 8 v OR ucast (bb_data b ! (bb_readPos b + i))) [0..<8] (0 :: u64)
      = fold (\<lambda>i v. push_bit 8 v OR ucast (unread b ! i)) [0..<8] 0"
    by (intro fold_cong) (auto simp: unread_nth)
  with False show ?thesis
    by (simp add: readU64_def ensureReadable_unread advance_def Let_def)
qed (simp add: readU64_def ensureReadable_unread)

lemma readBytes_unread:
  "readBytes n b = (if length (unread b) < n then None else Some (take n (unread b), advance n b))"
  by (simp add: readBytes_def ensureReadable_unread advance_def unread_def)

lemma readString_unread:
  "readString b = (case readU16 b of None \<Rightarrow> None
     | Some (len, b') \<Rightarrow> readBytes (unat len) b')"
  by (simp add: readString_def readBytes_def Let_def bind_eq_None_conv split: option.splits prod.splits)

section \<open>The codec contract\<close>

locale codec =
  fixes put :: "'a \<Rightarrow> ByteBuffer \<Rightarrow> ByteBuffer"
    and get :: "ByteBuffer \<Rightarrow> ('a \<times> ByteBuffer) option"
    and enc :: "'a \<Rightarrow> bytes"
    and okv :: "'a \<Rightarrow> bool"
  assumes put_data: "put x b = b\<lparr>bb_data := bb_data b @ enc x\<rparr>"
    and get_enc: "okv x \<Longrightarrow> unread b = enc x @ r \<Longrightarrow> get b = Some (x, advance (length (enc x)) b)"
begin

lemma data_put: "bb_data (put x b) = bb_data b @ enc x"
  by (simp add: put_data)

lemma get_put:
  assumes "okv x" and "bb_readPos b = length (bb_data b)"
  shows "get (put x b) = Some (x, advance (length (enc x)) (put x b))"
proof -
  have "unread (put x b) = enc x @ []"
    using assms(2) by (simp add: unread_def put_data)
  with assms(1) show ?thesis by (rule get_enc)
qed

lemma unread_after_get:
  "okv x \<Longrightarrow> unread b = enc x @ r \<Longrightarrow> map_option (unread \<circ> snd) (get b) = Some r"
  by (simp add: get_enc)

end

interpretation u8c: codec writeU8 readU8 "\<lambda>v. [v]" "\<lambda>_. True"
  by unfold_locales (simp_all add: writeU8_def readU8_unread)

interpretation u16c: codec writeU16 readU16 be16 "\<lambda>_. True"
proof unfold_locales
  show "writeU16 x b = b\<lparr>bb_data := bb_data b @ be16 x\<rparr>" for x b
    by (simp add: writeU16_def be16_def)
  show "readU16 b = Some (x, advance (length (be16 x)) b)" if "unread b = be16 x @ r" for x b r
    unfolding length_be using that by (simp add: readU16_unread be16_def join16)
qed

interpretation u32c: codec writeU32 readU32 be32 "\<lambda>_. True"
proof unfold_locales
  show "writeU32 x b = b\<lparr>bb_data := bb_data b @ be32 x\<rparr>" for x b
    by (simp add: writeU32_def be32_def)
  show "readU32 b = Some (x, advance (length (be32 x)) b)" if "unread b = be32 x @ r" for x b r
    unfolding length_be using that by (simp add: readU32_unread be32_def join32)
qed

interpretation u64c: codec writeU64 readU64 be64 "\<lambda>_. True"
proof unfold_locales
  show "writeU64 x b = b\<lparr>bb_data := bb_data b @ be64 x\<rparr>" for x b
    by (simp add: writeU64_def be64_def)
  show "readU64 b = Some (x, advance (length (be64 x)) b)" if "unread b = be64 x @ r" for x b r
  proof -
    have "fold (\<lambda>i v. push_bit 8 v OR ucast (unread b ! i)) [0..<8] (0 :: u64)
        = fold (\<lambda>i v. push_bit 8 v OR ucast (be64 x ! i)) [0..<8] 0"
      by (intro fold_cong) (auto simp: that nth_append)
    then show ?thesis by (simp add: readU64_unread that join64)
  qed
qed

definition string_enc :: "bytes \<Rightarrow> bytes" where
  "string_enc s = be16 (of_nat (length s)) @ s"

lemma readString_enc:
  assumes "length s < 65536" and "unread b = string_enc s @ r"
  shows "readString b = Some (s, advance (length (string_enc s)) b)"
proof -
  have "readU16 b = Some (of_nat (length s), advance 2 b)"
    using u16c.get_enc [where x = "of_nat (length s)" and b = b and r = "s @ r"] assms(2) by (simp add: string_enc_def)
  moreover have "unat (of_nat (length s) :: u16) = length s"
    using assms(1) by (simp add: unat_of_nat_small)
  ultimately show ?thesis
    by (simp add: readString_unread readBytes_unread assms(2) string_enc_def)
qed

interpretation strc: codec writeString readString string_enc "\<lambda>s. length s < 65536"
proof unfold_locales
  show "writeString x b = b\<lparr>bb_data := bb_data b @ string_enc x\<rparr>" for x b
    by (simp add: writeString_def string_enc_def u16c.put_data)
  show "readString b = Some (x, advance (length (string_enc x)) b)"
    if "length x < 65536" "unread b = string_enc x @ r" for x b r
    using that by (rule readString_enc)
qed

interpretation rawc: codec writeBytes "readBytes n" "\<lambda>d. d" "\<lambda>d. length d = n" for n
  by unfold_locales (auto simp: writeBytes_def readBytes_unread)

lemmas put_data_simps [simp] =
  u8c.data_put u16c.data_put u32c.data_put u64c.data_put strc.data_put rawc.data_put

lemma readPos_writers [simp]:
  "bb_readPos (writeU8 a b) = bb_readPos b" "bb_readPos (writeU16 c b) = bb_readPos b"
  "bb_readPos (writeU32 d b) = bb_readPos b" "bb_readPos (writeU64 e b) = bb_readPos b"
  "bb_readPos (writeString s b) = bb_readPos b" "bb_readPos (writeBytes s b) = bb_readPos b"
  by (simp_all add: u8c.put_data u16c.put_data u32c.put_data u64c.put_data strc.put_data rawc.put_data)

lemmas get_enc_simps [roundtrips] =
  u8c.get_enc u16c.get_enc u32c.get_enc u64c.get_enc strc.get_enc rawc.get_enc

lemma emptyBuffer_simps [simp]: "bb_data emptyBuffer = []" "bb_readPos emptyBuffer = 0"
  by (simp_all add: emptyBuffer_def)

definition policy_enc :: "RoomTrafficPolicy \<Rightarrow> bytes" where
  "policy_enc p = [TransportMode_val (tp_transportMode p), FecMode_val (tp_fecMode p), KcpProfile_val (tp_kcpProfile p)]"

lemma policy_bytes_iff:
  "isValidTransportModeValue t \<and> isValidFecModeValue f \<and> isValidKcpProfileValue k \<and>
     \<not> (t = TransportMode_val MODE_RELAY_TCP \<and> f \<noteq> FecMode_val FEC_NONE) \<longleftrightarrow>
   (\<exists>p. policy_wf p \<and> [t, f, k] = policy_enc p)" (is "?l \<longleftrightarrow> ?r")
proof
  assume l: ?l
  then obtain T F K where v: "t = TransportMode_val T" "f = FecMode_val F" "k = KcpProfile_val K"
    by (auto simp: isValidTransportModeValue_iff isValidFecModeValue_iff isValidKcpProfileValue_iff)
  then have "policy_wf \<lparr>tp_transportMode = T, tp_fecMode = F, tp_kcpProfile = K\<rparr>"
    using l by (cases F) (auto simp: policy_wf_def)
  then show ?r
    using v by (intro exI [of _ "\<lparr>tp_transportMode = T, tp_fecMode = F, tp_kcpProfile = K\<rparr>"])
      (simp add: policy_enc_def)
next
  assume ?r
  then obtain p where p: "policy_wf p" "[t, f, k] = policy_enc p" by blast
  moreover from this have "TransportMode_val (tp_transportMode p) = TransportMode_val MODE_RELAY_TCP \<longrightarrow>
      FecMode_val (tp_fecMode p) = FecMode_val FEC_NONE"
    by (metis TransportMode_of_val option.inject policy_wf_def)
  ultimately show ?l by (simp add: policy_enc_def)
qed

section \<open>Frames\<close>

definition tcp_frame :: "u8 \<Rightarrow> bytes \<Rightarrow> bytes" where
  "tcp_frame t p = t # be16 (of_nat (length p)) @ p"

lemma length_tcp_frame [simp, sizes]: "length (tcp_frame t p) = 3 + length p"
  by (simp add: tcp_frame_def)

lemma unat_length_u16: "length p < 65536 \<Longrightarrow> unat (of_nat (length p) :: u16) = length p"
  by (simp add: unat_of_nat_small)

lemma tcp_frame_nth [simp]:
  "tcp_frame t p ! 0 = t"
  "tcp_frame t p ! Suc 0 = be16 (of_nat (length p)) ! 0"
  "tcp_frame t p ! 2 = be16 (of_nat (length p)) ! 1"
  by (simp_all add: tcp_frame_def nth_append)

text \<open>The header fields the probe reads from any buffer that starts with a frame's header.\<close>

lemma probe_header:
  assumes "length p < 65536" and "3 \<le> n" and "n \<le> length (tcp_frame t p @ rest)"
  defines "d \<equiv> take n (tcp_frame t p @ rest)"
  shows "d ! 0 = t" and "push_bit 8 (ucast (d ! 1)) OR ucast (d ! 2) = (of_nat (length p) :: u16)"
proof -
  have nth: "d ! i = tcp_frame t p ! i" if "i < 3" for i
    using that assms(2) by (simp add: d_def nth_append)
  show "d ! 0 = t" using nth [of 0] by simp
  show "push_bit 8 (ucast (d ! 1)) OR ucast (d ! 2) = (of_nat (length p) :: u16)"
    using nth [of 1] nth [of 2] be16_join [of "of_nat (length p)"] by simp
qed

text \<open>
  Frame boundaries are recognised on every prefix of the stream: of the first \<open>n\<close> bytes
  of a frame followed by anything, the probe wants more while the header is incomplete,
  rejects as soon as the announced length exceeds the cap, wants more until the whole frame
  is there, and then reports the type, the payload length and the frame length of exactly
  that frame.
\<close>

lemma probeTcpFrame_prefix:
  assumes "length p < 65536" and "n \<le> length (tcp_frame t p @ rest)"
  shows "probeTcpFrame (Some (take n (tcp_frame t p @ rest))) n =
     (if n < 3 then \<lparr>fp_status = NeedMore, fp_msgType = 0, fp_payloadLength = 0, fp_frameLength = 0\<rparr>
      else if length p > MAX_TCP_MSG_PAYLOAD
      then \<lparr>fp_status = Malformed, fp_msgType = t, fp_payloadLength = of_nat (length p), fp_frameLength = 0\<rparr>
      else \<lparr>fp_status = if n < 3 + length p then NeedMore else Ready, fp_msgType = t,
            fp_payloadLength = of_nat (length p), fp_frameLength = 3 + length p\<rparr>)"
proof (cases "n < 3")
  case False
  then have "3 \<le> n" by simp
  define d where "d = take n (tcp_frame t p @ rest)"
  note h = probe_header [OF assms(1) \<open>3 \<le> n\<close> assms(2), folded d_def]
  show ?thesis
    using False unat_length_u16 [OF assms(1)] unfolding d_def [symmetric] probeTcpFrame_def
    by (simp add: Let_def h [simplified])
qed (simp add: probeTcpFrame_def)

text \<open>
  A room policy survives the wire: the three bytes a peer writes for a policy the format
  can carry are read back as that policy, whatever the fallback, and exactly they are
  consumed.
\<close>

lemma readTrafficPolicy_roundtrip:
  assumes "policy_wf p"
    and "unread b = [TransportMode_val (tp_transportMode p), FecMode_val (tp_fecMode p),
                     KcpProfile_val (tp_kcpProfile p)] @ rest"
  shows "readTrafficPolicy fb b = Some (p, advance 3 b) \<and> unread (advance 3 b) = rest"
  using assms by (simp add: readTrafficPolicy_def readU8_unread normalizeTrafficPolicy_val numeral_3_eq_3)

end
