(* ===== verification/Bounded_Cache.thy ===== *)
theory Bounded_Cache
  imports Byte_Buffer
begin

text \<open>
  A table of entries with a byte counter, from which the oldest entry is evicted until a new
  one fits: the scheme of the FEC decoder and of the fragment reassembly of the clients.  The
  locale \<open>bounded_cache\<close> states what the scheme needs of a component; its lemmas show that the
  counter stays exact and that room is always made.
\<close>

section \<open>The oldest entry\<close>

text \<open>The loop over the table: a later entry replaces the choice only if it is strictly older.\<close>

definition oldestKey :: "('g \<Rightarrow> u32) \<Rightarrow> ('k, 'g) omap \<Rightarrow> 'k" where
  "oldestKey created m = fst (fold (\<lambda>e best. if created (snd e) < created (snd best) then e else best) m (hd m))"

lemma oldest_fold_in:
  "b \<in> set m \<Longrightarrow> set xs \<subseteq> set m \<Longrightarrow> fold (\<lambda>e best. if created (snd e) < created (snd best) then e else best) xs b \<in> set m"
  by (induction xs arbitrary: b) auto

lemma oldestKey_in: "m \<noteq> [] \<Longrightarrow> oldestKey created m \<in> fst ` set m"
  unfolding oldestKey_def by (rule imageI, rule oldest_fold_in) auto

section \<open>Byte counts\<close>

definition costs :: "('g \<Rightarrow> nat) \<Rightarrow> ('k, 'g) omap \<Rightarrow> nat" where
  "costs c m = (\<Sum>e \<leftarrow> m. c (snd e))"

lemma costs_simps [simp]: "costs c [] = 0" "costs c (e # m) = c (snd e) + costs c m"
  by (simp_all add: costs_def)

lemma costs_del:
  assumes "om_ok m" "map_of m k = Some g"
  shows "costs c (om_del k m) + c g = costs c m"
  using assms
proof (induction m)
  case (Cons e m)
  show ?case
  proof (cases "fst e = k")
    case True
    then have "om_del k m = m" using Cons.prems by (cases e) (force simp: om_ok_Cons intro: om_del_absent)
    with True Cons.prems show ?thesis by (cases e) (simp add: om_del_def)
  next
    case False
    then show ?thesis using Cons by (cases e) (simp add: om_del_def om_ok_Cons)
  qed
qed simp

lemma costs_upd:
  assumes "om_ok m"
  shows "costs c (om_upd k g m) + (case map_of m k of None \<Rightarrow> 0 | Some g' \<Rightarrow> c g') = costs c m + c g"
  using assms
proof (induction k g m rule: om_upd.induct)
  case (2 k v a b m)
  have "k < a \<Longrightarrow> map_of m k = None" using 2(2) by (force simp: om_ok_Cons map_of_eq_None_iff)
  then show ?case using 2 by (auto simp: om_ok_Cons)
qed simp

definition cache_exact :: "('g \<Rightarrow> nat) \<Rightarrow> ('k::linorder, 'g) omap \<Rightarrow> nat \<Rightarrow> bool" where
  "cache_exact c m t \<longleftrightarrow> om_ok m \<and> t = costs c m"

lemma cache_exact_grow:
  assumes "cache_exact c m t" "map_of m k = Some g" "c g' = c g + n"
  shows "cache_exact c (om_upd k g' m) (t + n)" "length (om_upd k g' m) = length m"
  using assms costs_upd [of m c k g'] length_om_upd [of m k g'] map_of_Some_in_fst [OF assms(2)] by (auto simp: cache_exact_def)

lemma cache_exact_new:
  assumes "cache_exact c m t" "map_of m k = None" "c g = 0"
  shows "cache_exact c (om_upd k g m) t" "length (om_upd k g m) = Suc (length m)"
  using assms costs_upd [of m c k g] length_om_upd [of m k g] map_of_eq_None_iff [of m k] by (auto simp: cache_exact_def)

definition cache_crowded :: "nat \<Rightarrow> nat \<Rightarrow> nat \<Rightarrow> bool \<Rightarrow> ('k, 'g) omap \<Rightarrow> nat \<Rightarrow> bool" where
  "cache_crowded maxBytes maxEntries n new m t \<longleftrightarrow> m \<noteq> [] \<and> (new \<and> length m \<ge> maxEntries \<or> t + n > maxBytes)"

section \<open>The contract\<close>

locale bounded_cache =
  fixes entries :: "'s \<Rightarrow> ('k::linorder, 'g) omap"
    and total :: "'s \<Rightarrow> nat"
    and remove :: "'k \<Rightarrow> 's \<Rightarrow> 's"
    and evict :: "nat \<Rightarrow> bool \<Rightarrow> 's \<Rightarrow> 's"
    and cost :: "'g \<Rightarrow> nat"
    and created :: "'g \<Rightarrow> u32"
    and maxBytes maxEntries :: nat
  assumes entries_remove: "entries (remove k s) = om_del k (entries s)"
    and total_remove: "total (remove k s) = (case map_of (entries s) k of None \<Rightarrow> total s | Some g \<Rightarrow> total s - cost g)"
    and evict_step: "evict n new s = (if entries s \<noteq> [] \<and> (new \<and> length (entries s) \<ge> maxEntries \<or> total s + n > maxBytes)
          then evict n new (remove (oldestKey created (entries s)) s) else s)"
    and some_entry: "0 < maxEntries"
begin

lemma exact_remove:
  assumes "cache_exact cost (entries s) (total s)"
  shows "cache_exact cost (entries (remove k s)) (total (remove k s))"
proof (cases "map_of (entries s) k")
  case None
  then show ?thesis using assms by (auto simp: cache_exact_def entries_remove total_remove map_of_eq_None_iff [symmetric] intro!: arg_cong [of _ _ "costs cost"])
next
  case (Some g)
  then show ?thesis using assms costs_del [of "entries s" k g cost]
    by (simp add: cache_exact_def entries_remove total_remove)
qed

lemma evict_stop: "\<not> cache_crowded maxBytes maxEntries n new (entries s) (total s) \<Longrightarrow> evict n new s = s"
  by (subst evict_step) (auto simp: cache_crowded_def)

lemma evict_go: "cache_crowded maxBytes maxEntries n new (entries s) (total s) \<Longrightarrow> evict n new s = evict n new (remove (oldestKey created (entries s)) s)"
  by (subst evict_step) (simp add: cache_crowded_def)

lemma remove_shorter: "cache_crowded maxBytes maxEntries n new (entries s) (total s) \<Longrightarrow> length (entries (remove (oldestKey created (entries s)) s)) < length (entries s)"
  using oldestKey_in [of "entries s" created] by (simp add: entries_remove cache_crowded_def length_om_del_present)

lemma evict_induct [case_names stop go]:
  assumes "\<And>s. \<not> cache_crowded maxBytes maxEntries n new (entries s) (total s) \<Longrightarrow> P s"
    and "\<And>s. cache_crowded maxBytes maxEntries n new (entries s) (total s) \<Longrightarrow> P (remove (oldestKey created (entries s)) s) \<Longrightarrow> P s"
  shows "P s"
proof (induction "length (entries s)" arbitrary: s rule: less_induct)
  case less
  show ?case using less [OF remove_shorter [of n new s]] assms by blast
qed

lemma evict_exact: "cache_exact cost (entries s) (total s) \<Longrightarrow> cache_exact cost (entries (evict n new s)) (total (evict n new s))"
proof (induction s rule: evict_induct [of n new])
  case (stop s)
  then show ?case by (simp add: evict_stop)
next
  case (go s)
  then show ?case by (simp add: evict_go exact_remove)
qed

lemma evict_quiet: "\<not> cache_crowded maxBytes maxEntries n new (entries (evict n new s)) (total (evict n new s))"
proof (induction s rule: evict_induct [of n new])
  case (stop s)
  then show ?case by (simp add: evict_stop)
next
  case (go s)
  then show ?case by (simp add: evict_go)
qed

lemma evict_subset: "set (entries (evict n new s)) \<subseteq> set (entries s)"
proof (induction s rule: evict_induct [of n new])
  case (stop s)
  then show ?case by (simp add: evict_stop)
next
  case (go s)
  then show ?case by (auto simp: evict_go entries_remove)
qed

lemma evict_shorter: "length (entries (evict n new s)) \<le> length (entries s)"
proof (induction s rule: evict_induct [of n new])
  case (stop s)
  then show ?case by (simp add: evict_stop)
next
  case (go s)
  then show ?case using remove_shorter [of n new s] by (simp add: evict_go)
qed

lemma evict_room:
  assumes "cache_exact cost (entries s) (total s)" "n \<le> maxBytes"
  shows "total (evict n new s) + n \<le> maxBytes \<and> (new \<longrightarrow> length (entries (evict n new s)) < maxEntries)"
proof (cases "entries (evict n new s) = []")
  case True
  then show ?thesis using evict_exact [OF assms(1), of n new] assms(2) some_entry by (auto simp: cache_exact_def)
next
  case False
  then show ?thesis using evict_quiet [of n new s] by (auto simp: cache_crowded_def)
qed

lemma evict_same:
  assumes "total s + n \<le> maxBytes" "new \<Longrightarrow> length (entries s) < maxEntries"
  shows "evict n new s = s"
  using assms by (intro evict_stop) (auto simp: cache_crowded_def)

end

end
