(* ===== verification/Fec_Codec.thy ===== *)
theory Fec_Codec
  imports Bounded_Cache "HOL-Library.Multiset"
begin

text \<open>
  The error-correcting code of the command line client (\<^verbatim>\<open>client-cli/src/cli_fec.cpp\<close>; the GUI
  client's \<^verbatim>\<open>fec_codec.cpp\<close> is the same algorithm on Qt containers).  Up to ten packets form a
  group, each is padded to a block of the same size behind its length, and parity blocks are
  added; the receiver hands every original block on as it arrives and, as soon as it holds as
  many blocks as there were packets, recovers the missing ones.  The Reed-Solomon code (CM256)
  is a parameter.  What the output callbacks are called with is the list of outputs.
\<close>

section \<open>The erasure code\<close>

text \<open>
  \<open>cm_encode N M blockBytes originals\<close> is the recovery data, \<open>cm_decode N M blockBytes blocks\<close> the
  block array after the call; \<open>None\<close> is a result other than 0.
\<close>

record cm256 =
  cm_encode :: "nat \<Rightarrow> nat \<Rightarrow> nat \<Rightarrow> bytes list \<Rightarrow> bytes option"
  cm_decode :: "nat \<Rightarrow> nat \<Rightarrow> nat \<Rightarrow> (u8 \<times> bytes) list \<Rightarrow> (u8 \<times> bytes) list option"

section \<open>The encoder\<close>

abbreviation (input) FEC_GROUP_SIZE :: nat where "FEC_GROUP_SIZE \<equiv> 10"

record CliFecEncoder =
  fe_mode :: FecMode
  fe_groupId :: u8
  fe_maxBlockSize :: nat
  fe_bufferStartTime :: u32
  fe_buffer :: "bytes list"

definition newFecEncoder :: "FecMode \<Rightarrow> CliFecEncoder" where
  "newFecEncoder mode = \<lparr>fe_mode = mode, fe_groupId = 0, fe_maxBlockSize = 0, fe_bufferStartTime = 0, fe_buffer = []\<rparr>"

text \<open>A \<^verbatim>\<open>FecHeader\<close> and the block behind it.\<close>

definition fecPacket :: "u8 \<Rightarrow> u8 \<Rightarrow> u8 \<Rightarrow> u8 \<Rightarrow> bytes \<Rightarrow> bytes" where
  "fecPacket groupId index dataCount totalCount block = [groupId, index, dataCount, totalCount] @ block"

text \<open>The length in network order, the payload and zeros up to the block size.\<close>

definition padBlock :: "nat \<Rightarrow> bytes \<Rightarrow> bytes" where
  "padBlock blockBytes payload = be16 (of_nat (length payload)) @ payload @ replicate (blockBytes - 2 - length payload) 0"

definition fecFlush :: "cm256 \<Rightarrow> CliFecEncoder \<Rightarrow> bytes list \<times> CliFecEncoder" where
  "fecFlush K e =
     (if fe_buffer e = [] then ([], e)
      else let N = length (fe_buffer e);
               M = fecParityCount (fe_mode e) (int N);
               M = (if M \<le> 0 then 1 else nat M);
               blockBytes = 2 + fe_maxBlockSize e;
               padded = map (padBlock blockBytes) (fe_buffer e);
               encResult = cm_encode K N M blockBytes padded;
               gid = fe_groupId e;
               totalCount = (if encResult \<noteq> None then of_nat (N + M) else of_nat N);
               originals = map (\<lambda>i. fecPacket gid (of_nat i) (of_nat N) totalCount (padded ! i)) [0..<N];
               parity = (case encResult of
                   None \<Rightarrow> []
                 | Some recoveryData \<Rightarrow>
                     map (\<lambda>i. fecPacket gid (of_nat (N + i)) (of_nat N) (of_nat (N + M))
                                (take blockBytes (drop (i * blockBytes) recoveryData))) [0..<M])
           in (originals @ parity, e\<lparr>fe_groupId := gid + 1, fe_buffer := [], fe_maxBlockSize := 0\<rparr>))"

definition fecAddPacket :: "cm256 \<Rightarrow> u32 \<Rightarrow> bytes \<Rightarrow> CliFecEncoder \<Rightarrow> bytes list \<times> CliFecEncoder" where
  "fecAddPacket K now payload e =
     (let e = (if fe_buffer e = [] then e\<lparr>fe_bufferStartTime := now\<rparr> else e);
          e = e\<lparr>fe_buffer := fe_buffer e @ [payload]\<rparr>;
          e = (if length payload > fe_maxBlockSize e then e\<lparr>fe_maxBlockSize := length payload\<rparr> else e)
      in if length (fe_buffer e) \<ge> FEC_GROUP_SIZE then fecFlush K e else ([], e))"

definition fecUpdate :: "cm256 \<Rightarrow> CliFecEncoder \<Rightarrow> bytes list \<times> CliFecEncoder" where
  "fecUpdate K e = (if fe_buffer e \<noteq> [] then fecFlush K e else ([], e))"

section \<open>The decoder\<close>

record FecGroup =
  fg_dataCount :: u8
  fg_totalCount :: u8
  fg_blockBytes :: nat
  fg_createTime :: u32
  fg_decoded :: bool
  fg_blocks :: "(u8, bytes) omap"
  fg_emittedOriginals :: "(u8, unit) omap"

record CliFecDecoder =
  fd_groups :: "(u8, FecGroup) omap"
  fd_bufferedBytes :: nat

definition newFecDecoder :: CliFecDecoder where
  "newFecDecoder = \<lparr>fd_groups = [], fd_bufferedBytes = 0\<rparr>"

definition removeGroup :: "u8 \<Rightarrow> CliFecDecoder \<Rightarrow> CliFecDecoder" where
  "removeGroup groupId d =
     (case map_of (fd_groups d) groupId of
        None \<Rightarrow> d
      | Some g \<Rightarrow>
          let bytes = costs length (fg_blocks g)
          in d\<lparr>fd_bufferedBytes := (if bytes > fd_bufferedBytes d then 0 else fd_bufferedBytes d - bytes),
               fd_groups := om_del groupId (fd_groups d)\<rparr>)"

lemma removeGroup_groups: "fd_groups (removeGroup k d) = om_del k (fd_groups d)"
  by (auto simp: removeGroup_def Let_def map_of_eq_None_iff split: option.split)

text \<open>The loop of \<^verbatim>\<open>ensureCapacity\<close>: the oldest group goes until the new bytes fit.\<close>

function evictGroups :: "nat \<Rightarrow> bool \<Rightarrow> CliFecDecoder \<Rightarrow> CliFecDecoder" where
  "evictGroups incomingBytes newGroup d =
     (if fd_groups d \<noteq> [] \<and>
         (newGroup \<and> length (fd_groups d) \<ge> FEC_MAX_ACTIVE_GROUPS \<or> fd_bufferedBytes d + incomingBytes > FEC_MAX_BUFFERED_BYTES)
      then evictGroups incomingBytes newGroup (removeGroup (oldestKey fg_createTime (fd_groups d)) d)
      else d)"
  by pat_completeness auto
termination
  by (relation "measure (\<lambda>(_, _, d). length (fd_groups d))")
    (auto simp: removeGroup_groups intro!: length_om_del_present oldestKey_in)

declare evictGroups.simps [simp del]

definition ensureCapacity :: "nat \<Rightarrow> bool \<Rightarrow> CliFecDecoder \<Rightarrow> bool \<times> CliFecDecoder" where
  "ensureCapacity incomingBytes newGroup d =
     (if incomingBytes > FEC_MAX_BUFFERED_BYTES then (False, d)
      else let d = evictGroups incomingBytes newGroup d
           in ((\<not> newGroup \<or> length (fd_groups d) < FEC_MAX_ACTIVE_GROUPS) \<and>
               fd_bufferedBytes d + incomingBytes \<le> FEC_MAX_BUFFERED_BYTES, d))"

text \<open>
  The payload in an original block.  A block of one byte has no length field; in \<^verbatim>\<open>tryDecode\<close>
  the code reads it all the same, but no value of it passes the test that follows.
\<close>

definition blockPayload :: "nat \<Rightarrow> bytes \<Rightarrow> bytes list" where
  "blockPayload limit block =
     (if limit < 2 then []
      else let payloadLen = unat (push_bit 8 (ucast (block ! 0)) OR ucast (block ! 1) :: u16)
           in if payloadLen > 0 \<and> 2 + payloadLen \<le> limit then [take payloadLen (drop 2 block)] else [])"

definition emitOriginalBlock :: "bytes \<Rightarrow> bytes list" where
  "emitOriginalBlock block = blockPayload (length block) block"

definition tryDecode :: "cm256 \<Rightarrow> FecGroup \<Rightarrow> bytes list \<times> FecGroup" where
  "tryDecode K g =
     (if fg_decoded g then ([], g)
      else let N = unat (fg_dataCount g); blockBytes = fg_blockBytes g in
      if length (fg_emittedOriginals g) \<ge> N then ([], g\<lparr>fg_decoded := True\<rparr>)
      else let M = unat (fg_totalCount g) - N;
               blocks = map (\<lambda>b. (fst b, snd b @ replicate (blockBytes - length (snd b)) 0)) (take N (fg_blocks g)) in
      if length blocks < N then ([], g)
      else case cm_decode K N M blockBytes blocks of
        None \<Rightarrow> ([], g\<lparr>fg_decoded := True\<rparr>)
      | Some blocks \<Rightarrow>
          let origMap = fold (\<lambda>b m. om_upd (fst b) (snd b) m) blocks [];
              out = concat (map (\<lambda>i.
                if map_of (fg_emittedOriginals g) (of_nat i) \<noteq> None then []
                else case map_of origMap (of_nat i) of
                       None \<Rightarrow> []
                     | Some blk \<Rightarrow> blockPayload blockBytes blk) [0..<N])
          in (out, g\<lparr>fg_decoded := True\<rparr>))"

text \<open>Storing a block that is not there yet, and handing an original block on.\<close>

definition storeBlock :: "u8 \<Rightarrow> u8 \<Rightarrow> bytes \<Rightarrow> FecGroup \<Rightarrow> CliFecDecoder \<Rightarrow> bytes list \<times> CliFecDecoder" where
  "storeBlock gid idx block g d =
     (let g' = g\<lparr>fg_blocks := om_upd idx block (fg_blocks g)\<rparr>;
          original = (idx < fg_dataCount g);
          g' = (if original then g'\<lparr>fg_emittedOriginals := om_upd idx () (fg_emittedOriginals g')\<rparr> else g')
      in (if original then emitOriginalBlock block else [],
          d\<lparr>fd_groups := om_upd gid g' (fd_groups d), fd_bufferedBytes := fd_bufferedBytes d + length block\<rparr>))"

text \<open>The end of \<^verbatim>\<open>addPacket\<close>: decoding once there are enough blocks.\<close>

definition decodeIfComplete :: "cm256 \<Rightarrow> u8 \<Rightarrow> CliFecDecoder \<Rightarrow> bytes list \<times> CliFecDecoder" where
  "decodeIfComplete K gid d =
     (case map_of (fd_groups d) gid of
        None \<Rightarrow> ([], d)
      | Some g \<Rightarrow>
          if length (fg_blocks g) \<ge> unat (fg_dataCount g)
          then (case tryDecode K g of (out, g') \<Rightarrow> (out, d\<lparr>fd_groups := om_upd gid g' (fd_groups d)\<rparr>))
          else ([], d))"

definition addBlock :: "cm256 \<Rightarrow> u8 \<Rightarrow> u8 \<Rightarrow> bytes \<Rightarrow> CliFecDecoder \<Rightarrow> bytes list \<times> CliFecDecoder" where
  "addBlock K gid idx block d =
     (case map_of (fd_groups d) gid of
        None \<Rightarrow> ([], d)
      | Some g \<Rightarrow>
          if fg_decoded g then ([], d)
          else if map_of (fg_blocks g) idx \<noteq> None then decodeIfComplete K gid d
          else case ensureCapacity (length block) False d of (ok, d) \<Rightarrow>
            if \<not> ok then ([], d)
            else case map_of (fd_groups d) gid of
              None \<Rightarrow> ([], d)
            | Some g \<Rightarrow> (case storeBlock gid idx block g d of (out, d) \<Rightarrow>
                (case decodeIfComplete K gid d of (out', d) \<Rightarrow> (out @ out', d))))"

definition fecReceive :: "cm256 \<Rightarrow> u32 \<Rightarrow> bytes \<Rightarrow> CliFecDecoder \<Rightarrow> bytes list \<times> CliFecDecoder" where
  "fecReceive K now data d =
     (if length data < sizeof_FecHeader then ([], d)
      else let gid = data ! 0; idx = data ! 1; N = data ! 2; total = data ! 3 in
      if unat N < 1 \<or> unat N > 10 \<or> total < N \<or> unat total > 3 * unat N \<or> idx \<ge> total then ([], d)
      else let block = drop sizeof_FecHeader data in
      if block = [] then ([], d)
      else case map_of (fd_groups d) gid of
        Some g \<Rightarrow>
          if fg_dataCount g \<noteq> N \<or> fg_totalCount g \<noteq> total \<or> fg_blockBytes g \<noteq> length block then ([], removeGroup gid d)
          else addBlock K gid idx block d
      | None \<Rightarrow> (case ensureCapacity (length block) True d of (ok, d) \<Rightarrow>
          if \<not> ok then ([], d)
          else let group = \<lparr>fg_dataCount = N, fg_totalCount = total, fg_blockBytes = length block, fg_createTime = now,
                     fg_decoded = False, fg_blocks = [], fg_emittedOriginals = []\<rparr>
               in addBlock K gid idx block (d\<lparr>fd_groups := om_upd gid group (fd_groups d)\<rparr>)))"

definition fecCleanup :: "u32 \<Rightarrow> CliFecDecoder \<Rightarrow> CliFecDecoder" where
  "fecCleanup nowMs d =
     fold removeGroup (map fst (filter (\<lambda>(_, g). nowMs - fg_createTime g > 500) (fd_groups d))) d"

section \<open>Memory\<close>

definition group_cost :: "FecGroup \<Rightarrow> nat" where
  "group_cost g = costs length (fg_blocks g)"

interpretation fec: bounded_cache fd_groups fd_bufferedBytes removeGroup evictGroups group_cost fg_createTime
    FEC_MAX_BUFFERED_BYTES FEC_MAX_ACTIVE_GROUPS
proof
  show "evictGroups n new s = (if fd_groups s \<noteq> [] \<and> (new \<and> FEC_MAX_ACTIVE_GROUPS \<le> length (fd_groups s) \<or>
          FEC_MAX_BUFFERED_BYTES < fd_bufferedBytes s + n)
      then evictGroups n new (removeGroup (oldestKey fg_createTime (fd_groups s)) s) else s)" for n new s
    by (subst evictGroups.simps) simp
  show "fd_groups (removeGroup k s) = om_del k (fd_groups s)" for k s by (rule removeGroup_groups)
qed (auto simp: removeGroup_def group_cost_def Let_def split: option.split)

definition fec_inv :: "CliFecDecoder \<Rightarrow> bool" where
  "fec_inv d \<longleftrightarrow> cache_exact group_cost (fd_groups d) (fd_bufferedBytes d) \<and> fd_bufferedBytes d \<le> FEC_MAX_BUFFERED_BYTES \<and>
     length (fd_groups d) \<le> FEC_MAX_ACTIVE_GROUPS \<and> (\<forall>(k, g) \<in> set (fd_groups d). om_ok (fg_blocks g))"

lemma fec_inv_remove: "fec_inv d \<Longrightarrow> fec_inv (removeGroup k d)"
  using fec.exact_remove [of d k] length_om_del_le [of k "fd_groups d"]
  by (auto simp: fec_inv_def removeGroup_groups fec.total_remove split: option.split)

lemma fec_inv_evict: "fec_inv d \<Longrightarrow> n \<le> FEC_MAX_BUFFERED_BYTES \<Longrightarrow> fec_inv (evictGroups n new d)"
  using fec.evict_exact [of d n new] fec.evict_room [of d n new] fec.evict_shorter [of n new d] fec.evict_subset [of n new d]
  unfolding fec_inv_def by (fastforce)

lemma ensureCapacity_inv:
  assumes "fec_inv d" "ensureCapacity n new d = (ok, d')"
  shows "fec_inv d'" "ok \<Longrightarrow> fd_bufferedBytes d' + n \<le> FEC_MAX_BUFFERED_BYTES"
    "ok \<Longrightarrow> new \<Longrightarrow> length (fd_groups d') < FEC_MAX_ACTIVE_GROUPS"
    "fst ` set (fd_groups d') \<subseteq> fst ` set (fd_groups d)"
  using assms fec_inv_evict [of d n new] fec.evict_subset [of n new d]
  by (auto simp: ensureCapacity_def Let_def split: if_splits)

text \<open>Replacing a group by one whose blocks take \<open>n\<close> bytes more.\<close>

lemma fec_inv_upd:
  assumes "fec_inv d" "map_of (fd_groups d) k = Some g" "om_ok (fg_blocks g')" "group_cost g' = group_cost g + n"
    "fd_bufferedBytes d + n \<le> FEC_MAX_BUFFERED_BYTES"
  shows "fec_inv (d\<lparr>fd_groups := om_upd k g' (fd_groups d), fd_bufferedBytes := fd_bufferedBytes d + n\<rparr>)"
  using assms cache_exact_grow [of group_cost "fd_groups d" "fd_bufferedBytes d" k g g' n] set_om_upd_subset [of k g' "fd_groups d"]
  by (fastforce simp: fec_inv_def)

lemma fec_inv_same_cost:
  assumes "fec_inv d" "map_of (fd_groups d) k = Some g" "fg_blocks g' = fg_blocks g"
  shows "fec_inv (d\<lparr>fd_groups := om_upd k g' (fd_groups d)\<rparr>)"
proof -
  have "om_ok (fg_blocks g')" using assms map_of_SomeD [OF assms(2)] by (fastforce simp: fec_inv_def)
  then have "fec_inv (d\<lparr>fd_groups := om_upd k g' (fd_groups d), fd_bufferedBytes := fd_bufferedBytes d + 0\<rparr>)"
    using assms by (intro fec_inv_upd) (auto simp: group_cost_def fec_inv_def)
  then show ?thesis by simp
qed

lemma tryDecode_blocks: "tryDecode K g = (out, g') \<Longrightarrow> fg_blocks g' = fg_blocks g"
  by (auto simp: tryDecode_def Let_def split: if_splits option.splits)

lemma decodeIfComplete_inv: "fec_inv d \<Longrightarrow> fec_inv (snd (decodeIfComplete K gid d))"
  by (auto simp: decodeIfComplete_def dest!: tryDecode_blocks intro: fec_inv_same_cost split: option.split prod.split)

lemma storeBlock_inv:
  assumes "fec_inv d" "map_of (fd_groups d) gid = Some g" "map_of (fg_blocks g) idx = None"
    "fd_bufferedBytes d + length block \<le> FEC_MAX_BUFFERED_BYTES"
  shows "fec_inv (snd (storeBlock gid idx block g d))"
proof -
  have ok: "om_ok (fg_blocks g)" using assms map_of_SomeD [OF assms(2)] by (fastforce simp: fec_inv_def)
  have "costs length (om_upd idx block (fg_blocks g)) = costs length (fg_blocks g) + length block"
    using costs_upd [OF ok, of length idx block] assms(3) by simp
  then show ?thesis using assms ok unfolding storeBlock_def Let_def snd_conv
    by (intro fec_inv_upd) (auto simp: group_cost_def)
qed

lemma addBlock_inv:
  assumes "fec_inv d"
  shows "fec_inv (snd (addBlock K gid idx block d))"
proof (cases "map_of (fd_groups d) gid")
  case (Some g)
  obtain ok d' where e: "ensureCapacity (length block) False d = (ok, d')" by fastforce
  note inv = ensureCapacity_inv [OF assms e]
  have "set (fd_groups d') \<subseteq> set (fd_groups d)"
    using fec.evict_subset [of "length block" False d] e by (auto simp: ensureCapacity_def Let_def split: if_splits)
  moreover have "om_ok (fd_groups d)" using assms by (simp add: fec_inv_def cache_exact_def)
  ultimately have sub: "map_of (fd_groups d') gid = Some g' \<Longrightarrow> g' = g" for g'
    using Some om_in_set_iff [of "fd_groups d" gid g'] by (auto dest: map_of_SomeD)
  show ?thesis
  proof (cases "map_of (fg_blocks g) idx = None \<and> \<not> fg_decoded g \<and> ok \<and> map_of (fd_groups d') gid \<noteq> None")
    case True
    then have g': "map_of (fd_groups d') gid = Some g" using sub by (metis not_None_eq)
    obtain out d2 where st: "storeBlock gid idx block g d' = (out, d2)" by fastforce
    have "fec_inv d2" using storeBlock_inv [of d' gid g idx block] inv True g' st by simp
    moreover have "snd (addBlock K gid idx block d) = snd (decodeIfComplete K gid d2)"
      using Some True e g' st by (simp add: addBlock_def split: prod.split)
    ultimately show ?thesis using decodeIfComplete_inv by simp
  next
    case False
    then show ?thesis using Some e inv assms decodeIfComplete_inv by (auto simp: addBlock_def split: option.split)
  qed
qed (use assms in \<open>simp add: addBlock_def\<close>)

lemma fecReceive_inv:
  assumes "fec_inv d"
  shows "fec_inv (snd (fecReceive K now data d))"
proof -
  let ?new = "\<lparr>fg_dataCount = data ! 2, fg_totalCount = data ! 3, fg_blockBytes = length (drop sizeof_FecHeader data),
    fg_createTime = now, fg_decoded = False, fg_blocks = [], fg_emittedOriginals = []\<rparr>"
  obtain ok d' where e: "ensureCapacity (length (drop sizeof_FecHeader data)) True d = (ok, d')" by fastforce
  note inv = ensureCapacity_inv [OF assms e]
  have "fec_inv (d'\<lparr>fd_groups := om_upd (data ! 0) ?new (fd_groups d')\<rparr>)"
    if "map_of (fd_groups d) (data ! 0) = None" ok
  proof -
    have absent: "map_of (fd_groups d') (data ! 0) = None" using that inv(4) by (auto simp: map_of_eq_None_iff)
    show ?thesis using inv(1) inv(3) [OF that(2)] set_om_upd_subset [of "data ! 0" ?new "fd_groups d'"]
        cache_exact_new [of group_cost "fd_groups d'" "fd_bufferedBytes d'" "data ! 0" ?new] absent
      by (fastforce simp: fec_inv_def group_cost_def)
  qed
  then show ?thesis using assms e inv(1) addBlock_inv fec_inv_remove
    by (auto simp: fecReceive_def Let_def split: option.split)
qed

lemma fecCleanup_inv: "fec_inv d \<Longrightarrow> fec_inv (fecCleanup now d)"
  unfolding fecCleanup_def
  by (rule fold_invariant [where Q = "\<lambda>_. True"]) (auto intro: fec_inv_remove)

datatype fec_event = Arrival u32 bytes | Tick u32

fun fec_step :: "cm256 \<Rightarrow> fec_event \<Rightarrow> CliFecDecoder \<Rightarrow> CliFecDecoder" where
  "fec_step K (Arrival now data) d = snd (fecReceive K now data d)"
| "fec_step K (Tick now) d = fecCleanup now d"

lemma fec_run_inv: "fec_inv (fold (fec_step K) evs newFecDecoder)"
proof (rule fold_invariant [where Q = "\<lambda>_. True"])
  show "fec_inv newFecDecoder" by (simp add: fec_inv_def newFecDecoder_def cache_exact_def)
  show "fec_inv (fec_step K e d)" if "fec_inv d" for e d using that by (cases e) (auto simp: fecReceive_inv fecCleanup_inv)
qed simp

text \<open>
  Whatever arrives, in any order and at any time, the FEC decoder holds at most 32 groups
  and 256 KiB of blocks, and its byte counter is exactly what it holds.
\<close>

lemma fec_memory_bounded:
  fixes K evs
  defines "d \<equiv> fold (fec_step K) evs newFecDecoder"
  shows "length (fd_groups d) \<le> FEC_MAX_ACTIVE_GROUPS \<and> fd_bufferedBytes d \<le> FEC_MAX_BUFFERED_BYTES \<and>
     fd_bufferedBytes d = (\<Sum>g \<leftarrow> fd_groups d. \<Sum>block \<leftarrow> fg_blocks (snd g). length (snd block))"
  using fec_run_inv [of K evs] unfolding d_def [symmetric]
  by (simp add: fec_inv_def cache_exact_def costs_def group_cost_def case_prod_beta)

section \<open>Recovery\<close>

text \<open>
  What the documentation of CM256 promises for \<open>N\<close> originals, \<open>M\<close> recovery blocks and blocks of
  \<open>bb\<close> bytes: encoding succeeds, and from any \<open>N\<close> different blocks decoding gives the originals
  back, the recovery blocks replaced by the missing originals and their index updated.
\<close>

definition coded :: "nat \<Rightarrow> bytes list \<Rightarrow> bytes \<Rightarrow> nat \<Rightarrow> bytes" where
  "coded bb xs rec i = (if i < length xs then xs ! i else take bb (drop ((i - length xs) * bb) rec))"

definition cm256_recovers :: "cm256 \<Rightarrow> nat \<Rightarrow> nat \<Rightarrow> nat \<Rightarrow> bool" where
  "cm256_recovers K N M bb \<longleftrightarrow> (\<forall>xs. length xs = N \<longrightarrow> (\<forall>x \<in> set xs. length x = bb) \<longrightarrow>
     (\<exists>rec. cm_encode K N M bb xs = Some rec \<and> length rec = M * bb \<and>
       (\<forall>bs. length bs = N \<longrightarrow> distinct (map fst bs) \<longrightarrow>
          (\<forall>(i, b) \<in> set bs. unat i < N + M \<and> b = coded bb xs rec (unat i)) \<longrightarrow>
          (\<exists>bs'. cm_decode K N M bb bs = Some bs' \<and> set bs' = (\<lambda>i. (of_nat i, xs ! i)) ` {..<N}))))"

lemma length_padBlock: "2 + length p \<le> bb \<Longrightarrow> length (padBlock bb p) = bb"
  by (simp add: padBlock_def)

lemma blockPayload_pad:
  assumes "0 < length p" "length p < 65536" "2 + length p \<le> bb"
  shows "blockPayload bb (padBlock bb p) = [p]"
proof -
  have "unat (push_bit 8 (ucast (padBlock bb p ! 0)) OR ucast (padBlock bb p ! 1) :: u16) = length p"
    using assms(2) be16_join [of "of_nat (length p)"]
    by (simp add: padBlock_def nth_append unat_of_nat_small)
  then show ?thesis using assms unfolding blockPayload_def by (simp add: padBlock_def)
qed

text \<open>What one group looks like on the wire.\<close>

definition group_packets :: "nat \<Rightarrow> nat \<Rightarrow> (nat \<Rightarrow> bytes) \<Rightarrow> bytes list" where
  "group_packets N M blk = map (\<lambda>i. fecPacket 0 (of_nat i) (of_nat N) (of_nat (N + M)) (blk i)) [0..<N + M]"

fun fecSend :: "cm256 \<Rightarrow> (u32 \<times> bytes) list \<Rightarrow> CliFecEncoder \<Rightarrow> bytes list \<times> CliFecEncoder" where
  "fecSend K [] e = ([], e)"
| "fecSend K ((now, p) # ps) e =
     (case fecAddPacket K now p e of (out, e) \<Rightarrow> case fecSend K ps e of (out', e) \<Rightarrow> (out @ out', e))"

definition fec_group :: "cm256 \<Rightarrow> FecMode \<Rightarrow> (u32 \<times> bytes) list \<Rightarrow> bytes list" where
  "fec_group K mode ps = (case fecSend K ps (newFecEncoder mode) of (out, e) \<Rightarrow> out @ fst (fecUpdate K e))"

fun fecFeed :: "cm256 \<Rightarrow> (u32 \<times> bytes) list \<Rightarrow> CliFecDecoder \<Rightarrow> bytes list \<times> CliFecDecoder" where
  "fecFeed K [] d = ([], d)"
| "fecFeed K ((now, pkt) # pkts) d =
     (case fecReceive K now pkt d of (out, d) \<Rightarrow> case fecFeed K pkts d of (out', d) \<Rightarrow> (out @ out', d))"

text \<open>The encoder after packets that do not fill the group.\<close>

definition encoder_holds :: "FecMode \<Rightarrow> bytes list \<Rightarrow> CliFecEncoder \<Rightarrow> bool" where
  "encoder_holds mode ps e \<longleftrightarrow> fe_mode e = mode \<and> fe_groupId e = 0 \<and> fe_buffer e = ps \<and> fe_maxBlockSize e = fold max (map length ps) 0"

lemma addPacket_holds:
  assumes "encoder_holds mode ps e"
  shows "\<exists>e'. encoder_holds mode (ps @ [p]) e' \<and>
    fecAddPacket K now p e = (if Suc (length ps) \<ge> FEC_GROUP_SIZE then fecFlush K e' else ([], e'))"
proof -
  define e1 where "e1 = (let e = (if fe_buffer e = [] then e\<lparr>fe_bufferStartTime := now\<rparr> else e);
      e = e\<lparr>fe_buffer := fe_buffer e @ [p]\<rparr>
    in if length p > fe_maxBlockSize e then e\<lparr>fe_maxBlockSize := length p\<rparr> else e)"
  have "encoder_holds mode (ps @ [p]) e1" using assms by (auto simp: e1_def encoder_holds_def Let_def max_def)
  moreover have "fecAddPacket K now p e = (if length (fe_buffer e1) \<ge> FEC_GROUP_SIZE then fecFlush K e1 else ([], e1))"
    unfolding fecAddPacket_def e1_def Let_def by (rule refl)
  ultimately show ?thesis by (auto simp: encoder_holds_def)
qed

lemma fecSend_holds:
  "encoder_holds mode ps e \<Longrightarrow> length ps + length qs < FEC_GROUP_SIZE \<Longrightarrow>
   \<exists>e'. fecSend K qs e = ([], e') \<and> encoder_holds mode (ps @ map snd qs) e'"
proof (induction qs arbitrary: ps e)
  case (Cons q qs)
  obtain now p where q: "q = (now, p)" by fastforce
  obtain e' where e': "encoder_holds mode (ps @ [p]) e'" "fecAddPacket K now p e = ([], e')"
    using addPacket_holds [OF Cons.prems(1), of p K now] Cons.prems(2) by auto
  from Cons.IH [OF e'(1)] Cons.prems(2) obtain e'' where "fecSend K qs e' = ([], e'')" "encoder_holds mode (ps @ p # map snd qs) e''"
    by auto
  then show ?case using e' q by simp
qed simp

lemma fecSend_append:
  "fecSend K (xs @ ys) e = (case fecSend K xs e of (out, e) \<Rightarrow> case fecSend K ys e of (out', e) \<Rightarrow> (out @ out', e))"
  by (induction xs arbitrary: e) (auto split: prod.split)

lemma fec_group_flush:
  assumes "ps \<noteq> []" "length ps \<le> FEC_GROUP_SIZE"
  shows "\<exists>e. encoder_holds mode (map snd ps) e \<and> fec_group K mode ps = fst (fecFlush K e)"
proof -
  obtain qs now p where q: "ps = qs @ [(now, p)]" using assms(1) by (metis rev_exhaust surj_pair)
  have "encoder_holds mode [] (newFecEncoder mode)" by (simp add: encoder_holds_def newFecEncoder_def)
  from fecSend_holds [OF this, of qs K] assms(2) q obtain e where
    e: "fecSend K qs (newFecEncoder mode) = ([], e)" "encoder_holds mode (map snd qs) e" by auto
  obtain e' where e': "encoder_holds mode (map snd ps) e'"
    "fecAddPacket K now p e = (if Suc (length qs) \<ge> FEC_GROUP_SIZE then fecFlush K e' else ([], e'))"
    using addPacket_holds [OF e(2), of p K now] q by auto
  have "fec_group K mode ps = fst (fecFlush K e')"
  proof (cases "Suc (length qs) \<ge> FEC_GROUP_SIZE")
    case True
    have "fe_buffer (snd (fecFlush K e')) = []" by (simp add: fecFlush_def Let_def)
    then show ?thesis using e e' q True by (simp add: fec_group_def fecSend_append fecUpdate_def split: prod.split) auto
  next
    case False
    then show ?thesis using e e' q by (simp add: fec_group_def fecSend_append fecUpdate_def encoder_holds_def)
  qed
  then show ?thesis using e'(1) by blast
qed

lemma parity_bounds:
  assumes "mode \<noteq> FEC_NONE" "0 < n"
  shows "0 < nat (fecParityCount mode (int n))" "nat (fecParityCount mode (int n)) \<le> 2 * n" "\<not> fecParityCount mode (int n) \<le> 0"
  using assms by (cases mode; simp add: fecParityCount_nat; arith)+

lemma fold_max_ge: "x \<in> set xs \<Longrightarrow> x \<le> fold max xs (a :: nat)" "a \<le> fold max xs a"
proof -
  have ge: "a \<le> fold max xs a" for xs and a :: nat
    by (induction xs arbitrary: a) (auto intro: order_trans [OF max.cobounded2])
  show "a \<le> fold max xs a" by (rule ge)
  show "x \<le> fold max xs a" if "x \<in> set xs" using that
    by (induction xs arbitrary: a) (auto intro: order_trans [OF max.cobounded1 ge])
qed

text \<open>The packets of a group, all blocks of the same size.\<close>

lemma fec_group_packets:
  fixes ps mode
  defines "xs \<equiv> map snd ps"
  defines "N \<equiv> length xs"
  defines "M \<equiv> nat (fecParityCount mode (int N))" and "bb \<equiv> 2 + fold max (map length xs) 0"
  assumes "ps \<noteq> []" "N \<le> FEC_GROUP_SIZE" "mode \<noteq> FEC_NONE"
    and "cm_encode K N M bb (map (padBlock bb) xs) = Some rec"
  shows "fec_group K mode ps = group_packets N M (coded bb (map (padBlock bb) xs) rec)"
proof -
  obtain e where e: "encoder_holds mode xs e" "fec_group K mode ps = fst (fecFlush K e)"
    using fec_group_flush [OF assms(5)] assms(6) by (auto simp: N_def xs_def)
  have N: "0 < N" using assms(5) by (simp add: N_def xs_def)
  have h: "fe_mode e = mode" "fe_groupId e = 0" "fe_buffer e = xs" "2 + fe_maxBlockSize e = bb" "length xs = N"
    using e(1) by (simp_all add: encoder_holds_def bb_def N_def)
  have parity: "(if fecParityCount mode (int N) \<le> 0 then 1 else nat (fecParityCount mode (int N))) = M"
    using parity_bounds [OF assms(7) N] by (simp add: M_def)
  have upt: "[N..<N + M] = map (\<lambda>i. i + N) [0..<M]" by (simp add: map_add_upt add.commute)
  have "xs \<noteq> []" using N by (simp add: N_def)
  then have "fec_group K mode ps =
      map (\<lambda>i. fecPacket 0 (of_nat i) (of_nat N) (of_nat (N + M)) (map (padBlock bb) xs ! i)) [0..<N] @
      map (\<lambda>i. fecPacket 0 (of_nat (N + i)) (of_nat N) (of_nat (N + M)) (take bb (drop (i * bb) rec))) [0..<M]"
    unfolding e(2) fecFlush_def Let_def h parity using assms(8) by simp
  also have "\<dots> = group_packets N M (coded bb (map (padBlock bb) xs) rec)"
    unfolding group_packets_def upt_add_eq_append [OF le0] map_append upt
    by (intro arg_cong2 [of _ _ _ _ "(@)"]) (simp_all add: coded_def N_def add.commute del: of_nat_add)
  finally show ?thesis .
qed

end
