(* ===== verification/Cli_RawUdp.thy ===== *)
theory Cli_RawUdp
  imports Fec_Codec
begin

text \<open>
  The fragmenting UDP tunnel of the command line client: \<^verbatim>\<open>CliRawUdpTunnel\<close> of
  \<^verbatim>\<open>client-cli/src/cli_peer.cpp\<close>.  An operation works on the tunnel together with the rest of
  the program: the callbacks \<^verbatim>\<open>m_udpSend\<close> and \<^verbatim>\<open>m_onDead\<close> change the rest only, \<^verbatim>\<open>m_onData\<close>
  may use the tunnel it was called from.  A callback that is not set is one that does nothing.
  The FEC coder calls back in the middle of its work, but neither it nor the tunnel looks at
  the other's state there, so its outputs are handled one after the other.
\<close>

section \<open>State\<close>

record ReassemblyEntry =
  re_totalLen :: u16
  re_fragTotal :: u8
  re_receivedCount :: u8
  re_createTime :: u32
  re_fragments :: "(u8, bytes) omap"

record CliRawUdpTunnel =
  ru_peerIP :: u32
  ru_peerPort :: u16
  ru_trafficClass :: u8
  ru_relayMode :: bool
  ru_relaySrcPeerId :: u32
  ru_relayDstPeerId :: u32
  ru_nextMsgId :: u16
  ru_lastRecvTime :: u32
  ru_lastSendTime :: u32
  ru_dead :: bool
  ru_rttMs :: int
  ru_reassembly :: "(u16, ReassemblyEntry) omap"
  ru_reassemblyBytes :: nat
  ru_fecMode :: FecMode
  ru_fecEncoder :: "CliFecEncoder option"
  ru_fecDecoder :: "CliFecDecoder option"
  ru_roomMtu :: u16
  ru_secureFrames :: bool

record 'w raw_callbacks =
  rc_udpSend :: "bytes \<Rightarrow> u32 \<Rightarrow> u16 \<Rightarrow> 'w \<Rightarrow> 'w"
  rc_onData :: "bytes \<Rightarrow> CliRawUdpTunnel \<times> 'w \<Rightarrow> CliRawUdpTunnel \<times> 'w"
  rc_onDead :: "'w \<Rightarrow> 'w"

abbreviation (input) RAW_UDP_KEEPALIVE_MARKER :: u8 where "RAW_UDP_KEEPALIVE_MARKER \<equiv> 0x00"
abbreviation (input) RAW_UDP_LATENCY_PING :: u8 where "RAW_UDP_LATENCY_PING \<equiv> 0x01"
abbreviation (input) RAW_UDP_LATENCY_PONG :: u8 where "RAW_UDP_LATENCY_PONG \<equiv> 0x02"

definition newRawUdpTunnel :: "u32 \<Rightarrow> u32 \<Rightarrow> u16 \<Rightarrow> FecMode \<Rightarrow> u16 \<Rightarrow> u8 \<Rightarrow> bool \<Rightarrow> CliRawUdpTunnel" where
  "newRawUdpTunnel now peerIP peerPort fecMode mtu trafficClass secureFrames =
     \<lparr>ru_peerIP = peerIP, ru_peerPort = peerPort, ru_trafficClass = trafficClass,
      ru_relayMode = False, ru_relaySrcPeerId = 0, ru_relayDstPeerId = 0, ru_nextMsgId = 0,
      ru_lastRecvTime = now, ru_lastSendTime = now, ru_dead = False, ru_rttMs = -1,
      ru_reassembly = [], ru_reassemblyBytes = 0, ru_fecMode = fecMode,
      ru_fecEncoder = (if fecMode \<noteq> FEC_NONE then Some (newFecEncoder fecMode) else None),
      ru_fecDecoder = (if fecMode \<noteq> FEC_NONE then Some newFecDecoder else None),
      ru_roomMtu = normalizeRoomMtu (uint mtu), ru_secureFrames = secureFrames\<rparr>"

definition rawSetRelayMode :: "u32 \<Rightarrow> u32 \<Rightarrow> CliRawUdpTunnel \<Rightarrow> CliRawUdpTunnel" where
  "rawSetRelayMode srcPeerId dstPeerId t =
     t\<lparr>ru_relayMode := True, ru_relaySrcPeerId := srcPeerId, ru_relayDstPeerId := dstPeerId\<rparr>"

definition maxFragmentPayload :: "CliRawUdpTunnel \<Rightarrow> int" where
  "maxFragmentPayload t =
     transportPayloadBudget (uint (ru_roomMtu t)) MODE_RELAY_RAW_UDP (ru_fecMode t \<noteq> FEC_NONE) (ru_secureFrames t)"

section \<open>Sending\<close>

text \<open>The datagram around a payload: a \<^verbatim>\<open>UdpRelayHeader\<close> in relay mode, the type alone otherwise.\<close>

definition rawDatagram :: "CliRawUdpTunnel \<Rightarrow> bytes \<Rightarrow> bytes" where
  "rawDatagram t payload =
     (if ru_relayMode t
      then [UDP_RAW_RELAY_DATA, ru_trafficClass t] @ be32 (ru_relaySrcPeerId t) @ be32 (ru_relayDstPeerId t) @ payload
      else UDP_RAW_RELAY_DATA # payload)"

definition sendRawPacket :: "'w raw_callbacks \<Rightarrow> u32 \<Rightarrow> bytes \<Rightarrow> CliRawUdpTunnel \<times> 'w \<Rightarrow> CliRawUdpTunnel \<times> 'w" where
  "sendRawPacket cb now payload s =
     (case s of (t, w) \<Rightarrow>
        (t\<lparr>ru_lastSendTime := now\<rparr>, rc_udpSend cb (rawDatagram t payload) (ru_peerIP t) (ru_peerPort t) w))"

text \<open>A \<^verbatim>\<open>FragHeader\<close> and the fragment behind it.\<close>

definition fragPacket :: "u16 \<Rightarrow> u8 \<Rightarrow> u8 \<Rightarrow> u16 \<Rightarrow> bytes \<Rightarrow> bytes" where
  "fragPacket msgId fragIndex fragTotal totalLen data = be16 msgId @ [fragIndex, fragTotal] @ be16 totalLen @ data"

definition sendFragment ::
  "cm256 \<Rightarrow> 'w raw_callbacks \<Rightarrow> u32 \<Rightarrow> bytes \<Rightarrow> u8 \<Rightarrow> u8 \<Rightarrow> u16 \<Rightarrow> u16 \<Rightarrow> CliRawUdpTunnel \<times> 'w \<Rightarrow> CliRawUdpTunnel \<times> 'w" where
  "sendFragment K cb now data fragIndex fragTotal msgId totalLen s =
     (let innerPayload = fragPacket msgId fragIndex fragTotal totalLen data; (t, w) = s in
      case if ru_fecMode t \<noteq> FEC_NONE then ru_fecEncoder t else None of
        Some e \<Rightarrow> (case fecAddPacket K now innerPayload e of (out, e) \<Rightarrow>
                    fold (sendRawPacket cb now) out (t\<lparr>ru_fecEncoder := Some e\<rparr>, w))
      | None \<Rightarrow> sendRawPacket cb now innerPayload s)"

definition rawSend :: "cm256 \<Rightarrow> 'w raw_callbacks \<Rightarrow> u32 \<Rightarrow> bytes \<Rightarrow> CliRawUdpTunnel \<times> 'w \<Rightarrow> int \<times> CliRawUdpTunnel \<times> 'w" where
  "rawSend K cb now ipPacket s =
     (let (t, w) = s in
      if ipPacket = [] then (0, s)
      else if length ipPacket > unat (ru_roomMtu t) then (-1, s)
      else let msgId = ru_nextMsgId t;
               s = (t\<lparr>ru_nextMsgId := msgId + 1\<rparr>, w);
               totalLen = int (length ipPacket);
               maxPayload = maxFragmentPayload t;
               fragTotal = (totalLen + maxPayload - 1) sdiv maxPayload in
      if fragTotal \<le> 0 \<or> fragTotal > 255 then (-1, s)
      else (totalLen,
            fold (\<lambda>i. let offset = i * nat maxPayload; fragLen = min (nat maxPayload) (length ipPacket - offset) in
                   sendFragment K cb now (take fragLen (drop offset ipPacket)) (of_nat i) (of_int fragTotal) msgId (of_int totalLen))
              [0..<nat fragTotal] s))"

section \<open>Reassembly\<close>

definition removeReassemblyEntry :: "u16 \<Rightarrow> CliRawUdpTunnel \<Rightarrow> CliRawUdpTunnel" where
  "removeReassemblyEntry msgId t =
     (case map_of (ru_reassembly t) msgId of
        None \<Rightarrow> t
      | Some e \<Rightarrow>
          let bytes = costs length (re_fragments e)
          in t\<lparr>ru_reassemblyBytes := (if bytes > ru_reassemblyBytes t then 0 else ru_reassemblyBytes t - bytes),
               ru_reassembly := om_del msgId (ru_reassembly t)\<rparr>)"

lemma removeEntry_table: "ru_reassembly (removeReassemblyEntry k t) = om_del k (ru_reassembly t)"
  by (auto simp: removeReassemblyEntry_def Let_def map_of_eq_None_iff split: option.split)

text \<open>The loop of \<^verbatim>\<open>ensureReassemblyCapacity\<close>.\<close>

function evictEntries :: "nat \<Rightarrow> bool \<Rightarrow> CliRawUdpTunnel \<Rightarrow> CliRawUdpTunnel" where
  "evictEntries incomingBytes newMessage t =
     (if ru_reassembly t \<noteq> [] \<and>
         (newMessage \<and> length (ru_reassembly t) \<ge> RAW_UDP_MAX_ACTIVE_MESSAGES \<or>
          ru_reassemblyBytes t + incomingBytes > RAW_UDP_MAX_REASSEMBLY_BYTES)
      then evictEntries incomingBytes newMessage (removeReassemblyEntry (oldestKey re_createTime (ru_reassembly t)) t)
      else t)"
  by pat_completeness auto
termination
  by (relation "measure (\<lambda>(_, _, t). length (ru_reassembly t))")
    (auto simp: removeEntry_table intro!: length_om_del_present oldestKey_in)

declare evictEntries.simps [simp del]

definition ensureReassemblyCapacity :: "nat \<Rightarrow> bool \<Rightarrow> CliRawUdpTunnel \<Rightarrow> bool \<times> CliRawUdpTunnel" where
  "ensureReassemblyCapacity incomingBytes newMessage t =
     (if incomingBytes > RAW_UDP_MAX_REASSEMBLY_BYTES then (False, t)
      else let t = evictEntries incomingBytes newMessage t
           in ((\<not> newMessage \<or> length (ru_reassembly t) < RAW_UDP_MAX_ACTIVE_MESSAGES) \<and>
               ru_reassemblyBytes t + incomingBytes \<le> RAW_UDP_MAX_REASSEMBLY_BYTES, t))"

text \<open>The fragments in order, \<open>None\<close> where one is missing.\<close>

fun assembleFragments :: "(u8, bytes) omap \<Rightarrow> nat list \<Rightarrow> bytes option" where
  "assembleFragments fragments [] = Some []"
| "assembleFragments fragments (i # is) =
     (case map_of fragments (of_nat i) of
        None \<Rightarrow> None
      | Some b \<Rightarrow> map_option ((@) b) (assembleFragments fragments is))"

text \<open>The end of \<^verbatim>\<open>processFrag\<close>: a message whose fragments are all there is removed and handed on.\<close>

definition completeMessage :: "'w raw_callbacks \<Rightarrow> u16 \<Rightarrow> CliRawUdpTunnel \<times> 'w \<Rightarrow> CliRawUdpTunnel \<times> 'w" where
  "completeMessage cb msgId s =
     (let (t, w) = s in
      case map_of (ru_reassembly t) msgId of
        None \<Rightarrow> s
      | Some e \<Rightarrow>
          if re_receivedCount e \<ge> re_fragTotal e
          then (case assembleFragments (re_fragments e) [0..<unat (re_fragTotal e)] of
                  None \<Rightarrow> (removeReassemblyEntry msgId t, w)
                | Some assembled \<Rightarrow>
                    if length assembled = unat (re_totalLen e) then rc_onData cb assembled (removeReassemblyEntry msgId t, w)
                    else (removeReassemblyEntry msgId t, w))
          else s)"

text \<open>Storing a fragment in an entry that exists.\<close>

definition storeFragment :: "u16 \<Rightarrow> u8 \<Rightarrow> bytes \<Rightarrow> ReassemblyEntry \<Rightarrow> CliRawUdpTunnel \<Rightarrow> CliRawUdpTunnel" where
  "storeFragment msgId fragIndex payload e t =
     t\<lparr>ru_reassembly := om_upd msgId (e\<lparr>re_fragments := om_upd fragIndex payload (re_fragments e),
                                       re_receivedCount := re_receivedCount e + 1\<rparr>) (ru_reassembly t),
       ru_reassemblyBytes := ru_reassemblyBytes t + length payload\<rparr>"

definition openEntry :: "u32 \<Rightarrow> u16 \<Rightarrow> u8 \<Rightarrow> u16 \<Rightarrow> nat \<Rightarrow> CliRawUdpTunnel \<Rightarrow> bool \<times> CliRawUdpTunnel" where
  "openEntry now msgId fragTotal totalLen payloadLen t =
     (if map_of (ru_reassembly t) msgId \<noteq> None then (True, t)
      else case ensureReassemblyCapacity payloadLen True t of (ok, t) \<Rightarrow>
        if \<not> ok then (False, t)
        else (True, t\<lparr>ru_reassembly := om_upd msgId
                \<lparr>re_totalLen = totalLen, re_fragTotal = fragTotal, re_receivedCount = 0, re_createTime = now, re_fragments = []\<rparr>
                (ru_reassembly t)\<rparr>))"

definition addFragment :: "'w raw_callbacks \<Rightarrow> u16 \<Rightarrow> u8 \<Rightarrow> bytes \<Rightarrow> CliRawUdpTunnel \<times> 'w \<Rightarrow> CliRawUdpTunnel \<times> 'w" where
  "addFragment cb msgId fragIndex payload s =
     (let (t, w) = s in
      case map_of (ru_reassembly t) msgId of
        None \<Rightarrow> (t, w)
      | Some e \<Rightarrow>
          if map_of (re_fragments e) fragIndex \<noteq> None then completeMessage cb msgId (t, w)
          else case ensureReassemblyCapacity (length payload) False t of (ok, t) \<Rightarrow>
            if \<not> ok then (t, w)
            else case map_of (ru_reassembly t) msgId of
              None \<Rightarrow> (t, w)
            | Some e \<Rightarrow> completeMessage cb msgId (storeFragment msgId fragIndex payload e t, w))"

text \<open>A fragment of a message in several parts: one that contradicts an earlier one discards both.\<close>

definition collectFragment :: "'w raw_callbacks \<Rightarrow> u32 \<Rightarrow> u16 \<Rightarrow> u8 \<Rightarrow> u8 \<Rightarrow> u16 \<Rightarrow> bytes \<Rightarrow> CliRawUdpTunnel \<times> 'w \<Rightarrow> CliRawUdpTunnel \<times> 'w" where
  "collectFragment cb now msgId fragIndex fragTotal totalLen payload s =
     (let (t, w) = s in
      if (case map_of (ru_reassembly t) msgId of None \<Rightarrow> False | Some e \<Rightarrow> re_totalLen e \<noteq> totalLen \<or> re_fragTotal e \<noteq> fragTotal)
      then (removeReassemblyEntry msgId t, w)
      else case openEntry now msgId fragTotal totalLen (length payload) t of (ok, t) \<Rightarrow>
        if \<not> ok then (t, w) else addFragment cb msgId fragIndex payload (t, w))"

definition processFrag :: "cm256 \<Rightarrow> 'w raw_callbacks \<Rightarrow> u32 \<Rightarrow> bytes \<Rightarrow> CliRawUdpTunnel \<times> 'w \<Rightarrow> CliRawUdpTunnel \<times> 'w" where
  "processFrag K cb now data s =
     (let (t, w) = s in
      if length data < sizeof_FragHeader then s
      else let msgId = push_bit 8 (ucast (data ! 0)) OR ucast (data ! 1);
               fragIndex = data ! 2;
               fragTotal = data ! 3;
               totalLen = push_bit 8 (ucast (data ! 4)) OR ucast (data ! 5);
               payload = drop sizeof_FragHeader data;
               payloadLen = length payload in
      if payloadLen = 0 \<or> fragTotal = 0 \<or> fragIndex \<ge> fragTotal \<or> totalLen = 0 \<or> totalLen > ru_roomMtu t then s
      else let maxPayload = maxFragmentPayload t;
               expectedTotal = (uint totalLen + maxPayload - 1) sdiv maxPayload in
      if expectedTotal \<noteq> uint fragTotal then s
      else let expectedLength = (if uint fragIndex + 1 = uint fragTotal then uint totalLen - maxPayload * (uint fragTotal - 1) else maxPayload) in
      if int payloadLen \<noteq> expectedLength then s
      else if fragTotal = 1 \<and> payloadLen = 1 \<and> payload ! 0 = RAW_UDP_KEEPALIVE_MARKER \<and> totalLen = 1 then s
      else if fragTotal = 1 \<and> payloadLen = 5 \<and> totalLen = 5 \<and> payload ! 0 = RAW_UDP_LATENCY_PING
      then sendFragment K cb now (RAW_UDP_LATENCY_PONG # take 4 (drop 1 payload)) 0 1 (ru_nextMsgId t) 5
             (t\<lparr>ru_nextMsgId := ru_nextMsgId t + 1\<rparr>, w)
      else if fragTotal = 1 \<and> payloadLen = 5 \<and> totalLen = 5 \<and> payload ! 0 = RAW_UDP_LATENCY_PONG
      then let sentTs = push_bit 24 (ucast (payload ! 1)) OR push_bit 16 (ucast (payload ! 2)) OR
                        push_bit 8 (ucast (payload ! 3)) OR ucast (payload ! 4);
               rtt = sint (now - sentTs)
           in (t\<lparr>ru_rttMs := (if rtt < 0 then 0 else rtt)\<rparr>, w)
      else if fragTotal = 1 then (if payloadLen = unat totalLen then rc_onData cb payload s else s)
      else collectFragment cb now msgId fragIndex fragTotal totalLen payload s)"

definition rawFeedInput :: "cm256 \<Rightarrow> 'w raw_callbacks \<Rightarrow> u32 \<Rightarrow> bytes \<Rightarrow> CliRawUdpTunnel \<times> 'w \<Rightarrow> CliRawUdpTunnel \<times> 'w" where
  "rawFeedInput K cb now data s =
     (let (t, w) = s in
      if data = [] then s
      else let t = t\<lparr>ru_lastRecvTime := now, ru_dead := False\<rparr> in
      case if ru_fecMode t \<noteq> FEC_NONE then ru_fecDecoder t else None of
        Some d \<Rightarrow> (case fecReceive K now data d of (payloads, d) \<Rightarrow>
                    fold (processFrag K cb now) payloads (t\<lparr>ru_fecDecoder := Some d\<rparr>, w))
      | None \<Rightarrow> processFrag K cb now data (t, w))"

definition cleanupStaleEntries :: "u32 \<Rightarrow> CliRawUdpTunnel \<Rightarrow> CliRawUdpTunnel" where
  "cleanupStaleEntries now t =
     fold removeReassemblyEntry
       (map fst (filter (\<lambda>(_, e). now - re_createTime e > RAW_UDP_FRAG_TIMEOUT_MS) (ru_reassembly t))) t"

text \<open>The two sending steps of \<^verbatim>\<open>update\<close>: the latency ping of an idle tunnel and the open FEC group.\<close>

definition rawKeepalive :: "cm256 \<Rightarrow> 'w raw_callbacks \<Rightarrow> u32 \<Rightarrow> CliRawUdpTunnel \<times> 'w \<Rightarrow> CliRawUdpTunnel \<times> 'w" where
  "rawKeepalive K cb now s =
     (let (t, w) = s in
      if now - ru_lastSendTime t > RAW_UDP_KEEPALIVE_MS
      then sendFragment K cb now (RAW_UDP_LATENCY_PING # be32 now) 0 1 (ru_nextMsgId t) 5
             (t\<lparr>ru_nextMsgId := ru_nextMsgId t + 1\<rparr>, w)
      else s)"

definition rawFlushEncoder :: "cm256 \<Rightarrow> 'w raw_callbacks \<Rightarrow> u32 \<Rightarrow> CliRawUdpTunnel \<times> 'w \<Rightarrow> CliRawUdpTunnel \<times> 'w" where
  "rawFlushEncoder K cb now s =
     (let (t, w) = s in
      case ru_fecEncoder t of
        Some e \<Rightarrow> (case fecUpdate K e of (out, e) \<Rightarrow> fold (sendRawPacket cb now) out (t\<lparr>ru_fecEncoder := Some e\<rparr>, w))
      | None \<Rightarrow> s)"

definition rawUpdate :: "cm256 \<Rightarrow> 'w raw_callbacks \<Rightarrow> u32 \<Rightarrow> CliRawUdpTunnel \<times> 'w \<Rightarrow> CliRawUdpTunnel \<times> 'w" where
  "rawUpdate K cb now s =
     (let (t, w) = s in
      if \<not> ru_dead t \<and> now - ru_lastRecvTime t > RAW_UDP_DEAD_TIMEOUT_MS
      then (t\<lparr>ru_dead := True\<rparr>, rc_onDead cb w)
      else case rawFlushEncoder K cb now (rawKeepalive K cb now s) of (t, w) \<Rightarrow>
        (cleanupStaleEntries now (t\<lparr>ru_fecDecoder := map_option (fecCleanup now) (ru_fecDecoder t)\<rparr>), w))"

section \<open>Memory\<close>

definition entry_cost :: "ReassemblyEntry \<Rightarrow> nat" where
  "entry_cost e = costs length (re_fragments e)"

interpretation raw: bounded_cache ru_reassembly ru_reassemblyBytes removeReassemblyEntry evictEntries entry_cost re_createTime
    RAW_UDP_MAX_REASSEMBLY_BYTES RAW_UDP_MAX_ACTIVE_MESSAGES
proof
  show "evictEntries n new s = (if ru_reassembly s \<noteq> [] \<and> (new \<and> RAW_UDP_MAX_ACTIVE_MESSAGES \<le> length (ru_reassembly s) \<or>
          RAW_UDP_MAX_REASSEMBLY_BYTES < ru_reassemblyBytes s + n)
      then evictEntries n new (removeReassemblyEntry (oldestKey re_createTime (ru_reassembly s)) s) else s)" for n new s
    by (subst evictEntries.simps) simp
  show "ru_reassembly (removeReassemblyEntry k s) = om_del k (ru_reassembly s)" for k s by (rule removeEntry_table)
qed (auto simp: removeReassemblyEntry_def entry_cost_def Let_def split: option.split)

definition raw_inv :: "CliRawUdpTunnel \<Rightarrow> bool" where
  "raw_inv t \<longleftrightarrow> cache_exact entry_cost (ru_reassembly t) (ru_reassemblyBytes t) \<and>
     ru_reassemblyBytes t \<le> RAW_UDP_MAX_REASSEMBLY_BYTES \<and> length (ru_reassembly t) \<le> RAW_UDP_MAX_ACTIVE_MESSAGES \<and>
     (\<forall>(k, e) \<in> set (ru_reassembly t). om_ok (re_fragments e)) \<and> (\<forall>d. ru_fecDecoder t = Some d \<longrightarrow> fec_inv d)"

text \<open>What the receiving side of a tunnel depends on; sending leaves it alone.\<close>

definition receiving :: "CliRawUdpTunnel \<Rightarrow> (u16, ReassemblyEntry) omap \<times> nat \<times> CliFecDecoder option \<times> FecMode \<times> u16 \<times> bool" where
  "receiving t = (ru_reassembly t, ru_reassemblyBytes t, ru_fecDecoder t, ru_fecMode t, ru_roomMtu t, ru_secureFrames t)"

lemma receiving_sendRawPacket [simp]: "receiving (fst (sendRawPacket cb now p s)) = receiving (fst s)"
  by (simp add: sendRawPacket_def receiving_def split: prod.split)

lemma receiving_sendRawPackets: "receiving (fst (fold (sendRawPacket cb now) ps s)) = receiving (fst s)"
  by (induction ps arbitrary: s) simp_all

lemma receiving_upd [simp]:
  "receiving (t\<lparr>ru_nextMsgId := i\<rparr>) = receiving t" "receiving (t\<lparr>ru_fecEncoder := e\<rparr>) = receiving t"
  "receiving (t\<lparr>ru_lastRecvTime := now\<rparr>) = receiving t" "receiving (t\<lparr>ru_dead := b\<rparr>) = receiving t"
  "receiving (t\<lparr>ru_rttMs := r\<rparr>) = receiving t" "receiving (rawSetRelayMode a b' t) = receiving t"
  by (simp_all add: receiving_def rawSetRelayMode_def)

lemma receiving_sendFragment [simp]: "receiving (fst (sendFragment K cb now data i n m l s)) = receiving (fst s)"
  by (auto simp: sendFragment_def Let_def receiving_sendRawPackets split: option.split prod.split)

lemma receiving_fold: "(\<And>i s. receiving (fst (f i s)) = receiving (fst s)) \<Longrightarrow> receiving (fst (fold f js s)) = receiving (fst s)"
  by (induction js arbitrary: s) simp_all

lemma receiving_rawSend [simp]: "receiving (fst (snd (rawSend K cb now p s))) = receiving (fst s)"
  by (auto simp: rawSend_def Let_def receiving_fold split: prod.split)

lemma raw_inv_cong: "receiving t = receiving t' \<Longrightarrow> raw_inv t \<longleftrightarrow> raw_inv t'"
  by (simp add: raw_inv_def receiving_def)

lemma raw_inv_remove: "raw_inv t \<Longrightarrow> raw_inv (removeReassemblyEntry k t)"
proof -
  assume inv: "raw_inv t"
  have "ru_fecDecoder (removeReassemblyEntry k t) = ru_fecDecoder t"
    by (simp add: removeReassemblyEntry_def Let_def split: option.split)
  then show ?thesis using inv raw.exact_remove [of t k] length_om_del_le [of k "ru_reassembly t"]
    by (auto simp: raw_inv_def removeEntry_table raw.total_remove split: option.split)
qed

lemma evictEntries_frame:
  "ru_fecDecoder (evictEntries n new t) = ru_fecDecoder t \<and> ru_fecMode (evictEntries n new t) = ru_fecMode t \<and>
   ru_roomMtu (evictEntries n new t) = ru_roomMtu t \<and> ru_secureFrames (evictEntries n new t) = ru_secureFrames t"
proof (induction t rule: raw.evict_induct [of n new])
  case (stop s)
  then show ?case by (simp add: raw.evict_stop)
next
  case (go s)
  then show ?case by (simp add: raw.evict_go) (simp add: removeReassemblyEntry_def Let_def split: option.split)
qed

lemma raw_inv_evict: "raw_inv t \<Longrightarrow> n \<le> RAW_UDP_MAX_REASSEMBLY_BYTES \<Longrightarrow> raw_inv (evictEntries n new t)"
  using raw.evict_exact [of t n new] raw.evict_room [of t n new] raw.evict_shorter [of n new t] raw.evict_subset [of n new t] evictEntries_frame [of n new t]
  unfolding raw_inv_def by fastforce

lemma ensureReassembly_inv:
  assumes "raw_inv t" "ensureReassemblyCapacity n new t = (ok, t')"
  shows "raw_inv t'" "ok \<Longrightarrow> ru_reassemblyBytes t' + n \<le> RAW_UDP_MAX_REASSEMBLY_BYTES"
    "ok \<Longrightarrow> new \<Longrightarrow> length (ru_reassembly t') < RAW_UDP_MAX_ACTIVE_MESSAGES"
    "set (ru_reassembly t') \<subseteq> set (ru_reassembly t)"
  using assms raw_inv_evict [of t n new] raw.evict_subset [of n new t]
  by (auto simp: ensureReassemblyCapacity_def Let_def split: if_splits)

lemma raw_inv_new_entry:
  assumes "raw_inv t" "map_of (ru_reassembly t) k = None" "length (ru_reassembly t) < RAW_UDP_MAX_ACTIVE_MESSAGES" "re_fragments e = []"
  shows "raw_inv (t\<lparr>ru_reassembly := om_upd k e (ru_reassembly t)\<rparr>)"
  using assms cache_exact_new [of entry_cost "ru_reassembly t" "ru_reassemblyBytes t" k e] set_om_upd_subset [of k e "ru_reassembly t"]
  by (fastforce simp: raw_inv_def entry_cost_def)

lemma raw_inv_store:
  assumes "raw_inv t" "map_of (ru_reassembly t) k = Some e" "map_of (re_fragments e) i = None"
    "ru_reassemblyBytes t + length payload \<le> RAW_UDP_MAX_REASSEMBLY_BYTES"
  shows "raw_inv (storeFragment k i payload e t)"
proof -
  let ?e = "e\<lparr>re_fragments := om_upd i payload (re_fragments e), re_receivedCount := re_receivedCount e + 1\<rparr>"
  have ok: "om_ok (re_fragments e)" using assms(1) map_of_SomeD [OF assms(2)] by (fastforce simp: raw_inv_def)
  then have "entry_cost ?e = entry_cost e + length payload"
    using costs_upd [OF ok, of length i payload] assms(3) by (simp add: entry_cost_def)
  note exact = cache_exact_grow [of entry_cost "ru_reassembly t" "ru_reassemblyBytes t" k e ?e, OF _ assms(2) this]
  show ?thesis using assms ok exact set_om_upd_subset [of k ?e "ru_reassembly t"]
    by (fastforce simp: raw_inv_def storeFragment_def)
qed

lemma completeMessage_inv:
  assumes "raw_inv t" "\<And>data t w. raw_inv t \<Longrightarrow> raw_inv (fst (rc_onData cb data (t, w)))"
  shows "raw_inv (fst (completeMessage cb msgId (t, w)))"
  using assms raw_inv_remove [of t msgId] by (auto simp: completeMessage_def split: option.split)

lemma openEntry_inv:
  assumes inv: "raw_inv t"
  shows "raw_inv (snd (openEntry now msgId n len k t))"
proof -
  obtain ok t' where e: "ensureReassemblyCapacity k True t = (ok, t')" by fastforce
  note inv' = ensureReassembly_inv [OF inv e]
  have "raw_inv (t'\<lparr>ru_reassembly := om_upd msgId entry (ru_reassembly t')\<rparr>)"
    if "map_of (ru_reassembly t) msgId = None" ok "re_fragments entry = []" for entry
    using that inv'(1,4) inv'(3) [OF that(2)] by (intro raw_inv_new_entry) (auto simp: map_of_eq_None_iff)
  then show ?thesis using e inv inv'(1) by (auto simp: openEntry_def)
qed

text \<open>What the owner of a tunnel promises: however it answers to a packet, the tunnel stays in order.\<close>

locale raw_owner =
  fixes cb :: "'w raw_callbacks"
  assumes onData_inv: "raw_inv t \<Longrightarrow> raw_inv (fst (rc_onData cb data (t, w)))"
begin

lemma completed: "raw_inv t \<Longrightarrow> raw_inv (fst (completeMessage cb msgId (t, w)))"
  by (rule completeMessage_inv) (auto intro: onData_inv)

lemma added:
  assumes inv: "raw_inv t"
  shows "raw_inv (fst (addFragment cb msgId i payload (t, w)))"
proof (cases "map_of (ru_reassembly t) msgId")
  case (Some e)
  obtain ok t' where e: "ensureReassemblyCapacity (length payload) False t = (ok, t')" by fastforce
  note inv' = ensureReassembly_inv [OF inv e]
  have same: "e' = e" if "map_of (ru_reassembly t') msgId = Some e'" for e'
    using that Some inv'(4) inv om_in_set_iff [of "ru_reassembly t" msgId e'] by (auto simp: raw_inv_def cache_exact_def dest: map_of_SomeD)
  have "raw_inv (fst (completeMessage cb msgId (storeFragment msgId i payload e' t', w)))"
    if "map_of (ru_reassembly t') msgId = Some e'" "map_of (re_fragments e) i = None" ok for e'
    using that inv'(1,2) same by (intro completed raw_inv_store) auto
  then show ?thesis using Some e inv'(1) completed [OF inv] by (auto simp: addFragment_def split: option.split)
qed (use inv in \<open>simp add: addFragment_def\<close>)

lemma collected:
  assumes inv: "raw_inv t"
  shows "raw_inv (fst (collectFragment cb now msgId i n len payload (t, w)))"
proof -
  obtain ok t' where e: "openEntry now msgId n len (length payload) t = (ok, t')" by fastforce
  then have "raw_inv t'" using openEntry_inv [OF inv, of now msgId n len "length payload"] by simp
  then show ?thesis using raw_inv_remove [OF inv] added e by (auto simp: collectFragment_def)
qed

lemma processed: "raw_inv (fst s) \<Longrightarrow> raw_inv (fst (processFrag K cb now data s))"
proof (cases s)
  case (Pair t w)
  assume inv: "raw_inv (fst s)"
  have rtt: "raw_inv (t\<lparr>ru_rttMs := r\<rparr>)" for r using inv raw_inv_cong [of "t\<lparr>ru_rttMs := r\<rparr>" t] Pair by simp
  have pong: "raw_inv (fst (sendFragment K cb now d j n m l (t\<lparr>ru_nextMsgId := k\<rparr>, w)))" for d j n m l k
    using inv raw_inv_cong [OF receiving_sendFragment, of K cb now d j n m l "(t\<lparr>ru_nextMsgId := k\<rparr>, w)"]
      raw_inv_cong [of "t\<lparr>ru_nextMsgId := k\<rparr>" t] Pair by simp
  show ?thesis unfolding processFrag_def Let_def Pair prod.case
    using inv Pair by (simp add: rtt pong collected onData_inv)
qed

lemma processed_all: "raw_inv (fst s) \<Longrightarrow> raw_inv (fst (fold (processFrag K cb now) payloads s))"
  by (induction payloads arbitrary: s) (simp_all add: processed)

lemma fed:
  assumes "raw_inv (fst s)"
  shows "raw_inv (fst (rawFeedInput K cb now data s))"
proof (cases s)
  case (Pair t w)
  let ?t = "t\<lparr>ru_lastRecvTime := now, ru_dead := False\<rparr>"
  have inv: "raw_inv ?t" using assms raw_inv_cong [of ?t t] Pair by simp
  have "raw_inv (?t\<lparr>ru_fecDecoder := Some (snd (fecReceive K now data d))\<rparr>)" if "ru_fecDecoder t = Some d" for d
    using inv that fecReceive_inv [of d K now data] by (simp add: raw_inv_def)
  then show ?thesis using inv assms Pair processed [of "(?t, w)"] processed_all
    by (auto simp: rawFeedInput_def Let_def split: prod.split option.split)
qed

end

lemma raw_inv_cleanup: "raw_inv t \<Longrightarrow> raw_inv (cleanupStaleEntries now t)"
  unfolding cleanupStaleEntries_def
  by (rule fold_invariant [where Q = "\<lambda>_. True"]) (auto intro: raw_inv_remove)

lemma receiving_update_sends [simp]:
  "receiving (fst (rawKeepalive K cb now s)) = receiving (fst s)" "receiving (fst (rawFlushEncoder K cb now s)) = receiving (fst s)"
  by (cases s, simp add: rawKeepalive_def, cases s, auto simp: rawFlushEncoder_def receiving_sendRawPackets split: prod.split option.split)

lemma rawUpdate_inv:
  assumes "raw_inv (fst s)"
  shows "raw_inv (fst (rawUpdate K cb now s))"
proof -
  obtain t w where s: "s = (t, w)" by fastforce
  obtain t' w' where u: "rawFlushEncoder K cb now (rawKeepalive K cb now s) = (t', w')" by fastforce
  then have "receiving t' = receiving t" using receiving_update_sends [of K cb now] s by (metis fst_conv)
  then have "raw_inv t'" using assms s raw_inv_cong [of t' t] by simp
  then have "raw_inv (t'\<lparr>ru_fecDecoder := map_option (fecCleanup now) (ru_fecDecoder t')\<rparr>)"
    using fecCleanup_inv by (auto simp: raw_inv_def)
  then show ?thesis using assms s u raw_inv_cleanup raw_inv_cong [of "t\<lparr>ru_dead := True\<rparr>" t] by (simp add: rawUpdate_def)
qed

section \<open>Histories\<close>

text \<open>
  An owner that reacts to a packet with any change of its own and any packets sent back on the
  same tunnel, as the peer does when it answers a latency probe.
\<close>

definition reacting :: "cm256 \<Rightarrow> u32 \<Rightarrow> (bytes \<Rightarrow> 'w \<Rightarrow> bytes list \<times> 'w) \<Rightarrow> 'w raw_callbacks \<Rightarrow> 'w raw_callbacks" where
  "reacting K now react cb = cb\<lparr>rc_onData := \<lambda>data (t, w). case react data w of (answers, w) \<Rightarrow>
     fold (\<lambda>p s. snd (rawSend K cb now p s)) answers (t, w)\<rparr>"

interpretation reactor: raw_owner "reacting K now react cb" for K now react cb
proof
  fix t :: CliRawUdpTunnel and data and w :: 'a
  assume "raw_inv t"
  then show "raw_inv (fst (rc_onData (reacting K now react cb) data (t, w)))"
    using raw_inv_cong [OF receiving_fold [of "\<lambda>p s. snd (rawSend K cb now p s)"]] receiving_rawSend
    by (simp add: reacting_def split: prod.split)
qed

datatype raw_op = RawSend bytes | RawFeed bytes | RawUpdate | RawRelay u32 u32

fun raw_step :: "cm256 \<Rightarrow> (bytes \<Rightarrow> 'w \<Rightarrow> bytes list \<times> 'w) \<Rightarrow> 'w raw_callbacks \<Rightarrow> u32 \<times> raw_op \<Rightarrow> CliRawUdpTunnel \<times> 'w \<Rightarrow> CliRawUdpTunnel \<times> 'w" where
  "raw_step K react cb (now, RawSend p) s = snd (rawSend K (reacting K now react cb) now p s)"
| "raw_step K react cb (now, RawFeed data) s = rawFeedInput K (reacting K now react cb) now data s"
| "raw_step K react cb (now, RawUpdate) s = rawUpdate K (reacting K now react cb) now s"
| "raw_step K react cb (now, RawRelay src dst) s = (case s of (t, w) \<Rightarrow> (rawSetRelayMode src dst t, w))"

lemma raw_step_inv: "raw_inv (fst s) \<Longrightarrow> raw_inv (fst (raw_step K react cb op s))"
proof -
  assume inv: "raw_inv (fst s)"
  obtain now o' where op: "op = (now, o')" by fastforce
  show ?thesis
  proof (cases o')
    case (RawSend p)
    then show ?thesis using inv op raw_inv_cong [OF receiving_rawSend, of K "reacting K now react cb" now p s] by simp
  next
    case (RawRelay a b)
    then show ?thesis using inv op raw_inv_cong [of "rawSetRelayMode a b (fst s)" "fst s"] by (cases s) simp
  qed (simp_all add: op inv reactor.fed rawUpdate_inv)
qed

text \<open>
  C12. Whatever a tunnel is given to send, whatever arrives and whatever its owner answers, at
  any times: it holds fragments of at most 64 incomplete messages and 128 KiB, its byte counter
  is exactly what it holds, and its FEC decoder keeps to its own bounds.
\<close>

theorem raw_memory_bounded:
  fixes K react cb ops w now ip port fecMode mtu cls secure
  defines "t \<equiv> fst (fold (raw_step K react cb) ops (newRawUdpTunnel now ip port fecMode mtu cls secure, w))"
  shows "length (ru_reassembly t) \<le> RAW_UDP_MAX_ACTIVE_MESSAGES \<and> ru_reassemblyBytes t \<le> RAW_UDP_MAX_REASSEMBLY_BYTES \<and>
     ru_reassemblyBytes t = (\<Sum>e \<leftarrow> ru_reassembly t. \<Sum>frag \<leftarrow> re_fragments (snd e). length (snd frag)) \<and>
     (case ru_fecDecoder t of None \<Rightarrow> True
      | Some d \<Rightarrow> length (fd_groups d) \<le> FEC_MAX_ACTIVE_GROUPS \<and> fd_bufferedBytes d \<le> FEC_MAX_BUFFERED_BYTES)"
proof -
  have "raw_inv t" unfolding t_def
  proof (rule fold_invariant [where P = "\<lambda>s. raw_inv (fst s)" and Q = "\<lambda>_. True"])
    show "raw_inv (fst (newRawUdpTunnel now ip port fecMode mtu cls secure, w))"
      by (simp add: raw_inv_def newRawUdpTunnel_def cache_exact_def fec_inv_def newFecDecoder_def)
  qed (simp_all add: raw_step_inv)
  then show ?thesis by (auto simp: raw_inv_def cache_exact_def costs_def entry_cost_def fec_inv_def case_prod_beta split: option.split)
qed

end
