(* ===== verification/Cli_Kcp.thy ===== *)
theory Cli_Kcp
  imports Cli_RawUdp
begin

text \<open>
  The KCP tunnel of the command line client: \<^verbatim>\<open>CliKcpTunnel\<close> of \<^verbatim>\<open>client-cli/src/cli_peer.cpp\<close>.
  KCP itself is a vendored library; a session is an opaque state and its functions are the
  fields of \<open>kcp_api\<close>.  \<^verbatim>\<open>ikcp_update\<close> calls the output function, \<open>ka_update\<close> returns what it was
  called with; the output function does not touch the session.
\<close>

section \<open>The library\<close>

record 'k kcp_api =
  ka_create :: "u32 \<Rightarrow> 'k"
  ka_setmtu :: "int \<Rightarrow> 'k \<Rightarrow> 'k"
  ka_nodelay :: "int \<Rightarrow> int \<Rightarrow> int \<Rightarrow> int \<Rightarrow> 'k \<Rightarrow> 'k"
  ka_wndsize :: "int \<Rightarrow> int \<Rightarrow> 'k \<Rightarrow> 'k"
  ka_tune :: "int \<Rightarrow> int \<Rightarrow> 'k \<Rightarrow> 'k"
  ka_send :: "bytes \<Rightarrow> 'k \<Rightarrow> int \<times> 'k"
  ka_input :: "bytes \<Rightarrow> 'k \<Rightarrow> 'k"
  ka_recv :: "'k \<Rightarrow> bytes option \<times> 'k"
  ka_update :: "u32 \<Rightarrow> 'k \<Rightarrow> bytes list \<times> 'k"
  ka_waitsnd :: "'k \<Rightarrow> int"
  ka_srtt :: "'k \<Rightarrow> int"
  ka_pending :: "'k \<Rightarrow> nat"

text \<open>
  \<open>ka_recv\<close> is \<^verbatim>\<open>ikcp_recv\<close> into a buffer of 64 KiB, \<open>None\<close> a result that is not positive;
  \<open>ka_tune\<close> sets the fields \<^verbatim>\<open>rx_minrto\<close> and \<^verbatim>\<open>fastresend\<close>, \<open>ka_srtt\<close> reads \<^verbatim>\<open>rx_srtt\<close>, and
  \<open>ka_pending\<close> is the number of messages the session can still hand out, which bounds the
  receiving loop.
\<close>

section \<open>State\<close>

record 'k CliKcpTunnel =
  ku_kcp :: 'k
  ku_peerIP :: u32
  ku_peerPort :: u16
  ku_trafficClass :: u8
  ku_profile :: KcpProfile
  ku_relayMode :: bool
  ku_relaySrcPeerId :: u32
  ku_relayDstPeerId :: u32
  ku_lastRecvTime :: u32
  ku_lastSendTime :: u32
  ku_dead :: bool
  ku_fecMode :: FecMode
  ku_fecEncoder :: "CliFecEncoder option"
  ku_fecDecoder :: "CliFecDecoder option"

record ('k, 'w) kcp_callbacks =
  kc_udpSend :: "bytes \<Rightarrow> u32 \<Rightarrow> u16 \<Rightarrow> 'w \<Rightarrow> 'w"
  kc_onData :: "bytes \<Rightarrow> 'k CliKcpTunnel \<times> 'w \<Rightarrow> 'k CliKcpTunnel \<times> 'w"
  kc_onDead :: "'w \<Rightarrow> 'w"

abbreviation (input) UDP_KCP_DATA :: u8 where "UDP_KCP_DATA \<equiv> 0x01"
abbreviation (input) KCP_KEEPALIVE_MARKER :: u8 where "KCP_KEEPALIVE_MARKER \<equiv> 0x00"
abbreviation (input) KCP_DEAD_TIMEOUT_MS :: u32 where "KCP_DEAD_TIMEOUT_MS \<equiv> 30000"
abbreviation (input) KCP_KEEPALIVE_INTERVAL_MS :: u32 where "KCP_KEEPALIVE_INTERVAL_MS \<equiv> 5000"

definition newKcpTunnel ::
  "'k kcp_api \<Rightarrow> u32 \<Rightarrow> u32 \<Rightarrow> u32 \<Rightarrow> u16 \<Rightarrow> FecMode \<Rightarrow> u16 \<Rightarrow> KcpProfile \<Rightarrow> u8 \<Rightarrow> bool \<Rightarrow> 'k CliKcpTunnel" where
  "newKcpTunnel A now conv peerIP peerPort fecMode mtu profile trafficClass secureFrames =
     (let kcp = ka_create A conv;
          kcp = ka_setmtu A (kcpMtuFromRoomMtu (uint mtu) (fecMode \<noteq> FEC_NONE) secureFrames) kcp;
          kcp = (if profile = KCP_PROFILE_BULK
                 then ka_tune A 30 4 (ka_wndsize A 1024 1024 (ka_nodelay A 1 20 4 0 kcp))
                 else ka_tune A 10 2 (ka_wndsize A 256 256 (ka_nodelay A 1 10 2 1 kcp)))
      in \<lparr>ku_kcp = kcp, ku_peerIP = peerIP, ku_peerPort = peerPort, ku_trafficClass = trafficClass, ku_profile = profile,
          ku_relayMode = False, ku_relaySrcPeerId = 0, ku_relayDstPeerId = 0,
          ku_lastRecvTime = now, ku_lastSendTime = now, ku_dead = False, ku_fecMode = fecMode,
          ku_fecEncoder = (if fecMode \<noteq> FEC_NONE then Some (newFecEncoder fecMode) else None),
          ku_fecDecoder = (if fecMode \<noteq> FEC_NONE then Some newFecDecoder else None)\<rparr>)"

definition kcpSetRelayMode :: "u32 \<Rightarrow> u32 \<Rightarrow> 'k CliKcpTunnel \<Rightarrow> 'k CliKcpTunnel" where
  "kcpSetRelayMode srcPeerId dstPeerId t =
     t\<lparr>ku_relayMode := True, ku_relaySrcPeerId := srcPeerId, ku_relayDstPeerId := dstPeerId\<rparr>"

definition kcpGetRttMs :: "'k kcp_api \<Rightarrow> 'k CliKcpTunnel \<Rightarrow> int" where
  "kcpGetRttMs A t = ka_srtt A (ku_kcp t)"

section \<open>Sending\<close>

definition kcpDatagram :: "'k CliKcpTunnel \<Rightarrow> bytes \<Rightarrow> bytes" where
  "kcpDatagram t payload =
     (if ku_relayMode t
      then [UDP_RELAY_DATA, ku_trafficClass t] @ be32 (ku_relaySrcPeerId t) @ be32 (ku_relayDstPeerId t) @ payload
      else UDP_KCP_DATA # payload)"

definition sendKcpPacket :: "('k, 'w) kcp_callbacks \<Rightarrow> u32 \<Rightarrow> bytes \<Rightarrow> 'k CliKcpTunnel \<times> 'w \<Rightarrow> 'k CliKcpTunnel \<times> 'w" where
  "sendKcpPacket cb now payload s =
     (case s of (t, w) \<Rightarrow>
        (t\<lparr>ku_lastSendTime := now\<rparr>, kc_udpSend cb (kcpDatagram t payload) (ku_peerIP t) (ku_peerPort t) w))"

definition kcpOutput :: "cm256 \<Rightarrow> ('k, 'w) kcp_callbacks \<Rightarrow> u32 \<Rightarrow> bytes \<Rightarrow> 'k CliKcpTunnel \<times> 'w \<Rightarrow> 'k CliKcpTunnel \<times> 'w" where
  "kcpOutput K cb now kcpData s =
     (let (t, w) = s in
      case if ku_fecMode t \<noteq> FEC_NONE then ku_fecEncoder t else None of
        Some e \<Rightarrow> (case fecAddPacket K now kcpData e of (out, e) \<Rightarrow>
                    fold (sendKcpPacket cb now) out (t\<lparr>ku_fecEncoder := Some e\<rparr>, w))
      | None \<Rightarrow> sendKcpPacket cb now kcpData s)"

definition kcpSend :: "'k kcp_api \<Rightarrow> bytes \<Rightarrow> 'k CliKcpTunnel \<Rightarrow> int \<times> 'k CliKcpTunnel" where
  "kcpSend A data t =
     (if ku_profile t = KCP_PROFILE_BULK \<and> ka_waitsnd A (ku_kcp t) > 2048 then (-1, t)
      else case ka_send A data (ku_kcp t) of (r, k) \<Rightarrow> (r, t\<lparr>ku_kcp := k\<rparr>))"

section \<open>Receiving\<close>

text \<open>The loop of \<^verbatim>\<open>tryRecv\<close>, with the number of rounds left.\<close>

fun kcpRecvLoop :: "'k kcp_api \<Rightarrow> ('k, 'w) kcp_callbacks \<Rightarrow> nat \<Rightarrow> 'k CliKcpTunnel \<times> 'w \<Rightarrow> 'k CliKcpTunnel \<times> 'w" where
  "kcpRecvLoop A cb 0 s = s"
| "kcpRecvLoop A cb (Suc n) (t, w) =
     (case ka_recv A (ku_kcp t) of
        (None, k) \<Rightarrow> (t\<lparr>ku_kcp := k\<rparr>, w)
      | (Some m, k) \<Rightarrow>
          let s = (t\<lparr>ku_kcp := k\<rparr>, w) in
          kcpRecvLoop A cb n (if m = [KCP_KEEPALIVE_MARKER] then s else kc_onData cb m s))"

definition tryRecv :: "'k kcp_api \<Rightarrow> ('k, 'w) kcp_callbacks \<Rightarrow> 'k CliKcpTunnel \<times> 'w \<Rightarrow> 'k CliKcpTunnel \<times> 'w" where
  "tryRecv A cb s = kcpRecvLoop A cb (Suc (ka_pending A (ku_kcp (fst s)))) s"

definition kcpInput :: "'k kcp_api \<Rightarrow> ('k, 'w) kcp_callbacks \<Rightarrow> bytes \<Rightarrow> 'k CliKcpTunnel \<times> 'w \<Rightarrow> 'k CliKcpTunnel \<times> 'w" where
  "kcpInput A cb data s = (case s of (t, w) \<Rightarrow> tryRecv A cb (t\<lparr>ku_kcp := ka_input A data (ku_kcp t)\<rparr>, w))"

definition kcpFeedInput :: "'k kcp_api \<Rightarrow> cm256 \<Rightarrow> ('k, 'w) kcp_callbacks \<Rightarrow> u32 \<Rightarrow> bytes \<Rightarrow> 'k CliKcpTunnel \<times> 'w \<Rightarrow> 'k CliKcpTunnel \<times> 'w" where
  "kcpFeedInput A K cb now data s =
     (let (t, w) = s; t = t\<lparr>ku_lastRecvTime := now, ku_dead := False\<rparr> in
      case if ku_fecMode t \<noteq> FEC_NONE then ku_fecDecoder t else None of
        Some d \<Rightarrow> (case fecReceive K now data d of (payloads, d) \<Rightarrow>
                    fold (kcpInput A cb) payloads (t\<lparr>ku_fecDecoder := Some d\<rparr>, w))
      | None \<Rightarrow> kcpInput A cb data (t, w))"

section \<open>The timer\<close>

text \<open>The session's own timer with what it transmits.\<close>

definition kcpFlush :: "'k kcp_api \<Rightarrow> cm256 \<Rightarrow> ('k, 'w) kcp_callbacks \<Rightarrow> u32 \<Rightarrow> 'k CliKcpTunnel \<times> 'w \<Rightarrow> 'k CliKcpTunnel \<times> 'w" where
  "kcpFlush A K cb now s =
     (case s of (t, w) \<Rightarrow> case ka_update A now (ku_kcp t) of (out, k) \<Rightarrow>
        fold (kcpOutput K cb now) out (t\<lparr>ku_kcp := k\<rparr>, w))"

definition kcpFlushEncoder :: "cm256 \<Rightarrow> ('k, 'w) kcp_callbacks \<Rightarrow> u32 \<Rightarrow> 'k CliKcpTunnel \<times> 'w \<Rightarrow> 'k CliKcpTunnel \<times> 'w" where
  "kcpFlushEncoder K cb now s =
     (let (t, w) = s in
      case ku_fecEncoder t of
        Some e \<Rightarrow> (case fecUpdate K e of (out, e) \<Rightarrow> fold (sendKcpPacket cb now) out (t\<lparr>ku_fecEncoder := Some e\<rparr>, w))
      | None \<Rightarrow> s)"

definition kcpUpdate :: "'k kcp_api \<Rightarrow> cm256 \<Rightarrow> ('k, 'w) kcp_callbacks \<Rightarrow> u32 \<Rightarrow> 'k CliKcpTunnel \<times> 'w \<Rightarrow> 'k CliKcpTunnel \<times> 'w" where
  "kcpUpdate A K cb now s =
     (let (t, w) = tryRecv A cb (kcpFlush A K cb now s) in
      if \<not> ku_dead t \<and> now - ku_lastRecvTime t > KCP_DEAD_TIMEOUT_MS
      then (t\<lparr>ku_dead := True\<rparr>, kc_onDead cb w)
      else let t = (if now - ku_lastSendTime t > KCP_KEEPALIVE_INTERVAL_MS
                    then t\<lparr>ku_kcp := snd (ka_send A [KCP_KEEPALIVE_MARKER] (ku_kcp t))\<rparr> else t);
               (t, w) = kcpFlushEncoder K cb now (t, w)
           in (t\<lparr>ku_fecDecoder := map_option (fecCleanup now) (ku_fecDecoder t)\<rparr>, w))"

section \<open>The receiving loop ends\<close>

text \<open>
  What the code relies on: the session keeps a queue of complete messages, of which it knows
  the length, \<^verbatim>\<open>ikcp_recv\<close> takes the first one and fails on an empty queue, and \<^verbatim>\<open>ikcp_send\<close>
  leaves the queue alone.
\<close>

definition kcp_queue :: "'k kcp_api \<Rightarrow> ('k \<Rightarrow> bytes list) \<Rightarrow> bool" where
  "kcp_queue A q \<longleftrightarrow> (\<forall>k. fst (ka_recv A k) = (case q k of [] \<Rightarrow> None | m # _ \<Rightarrow> Some m) \<and> q (snd (ka_recv A k)) = tl (q k) \<and>
     ka_pending A k = length (q k)) \<and> (\<forall>data k. q (snd (ka_send A data k)) = q k)"

text \<open>An owner that notes each message and answers it with messages on the same tunnel.\<close>

definition kcp_noting :: "'k kcp_api \<Rightarrow> (bytes \<Rightarrow> bytes list) \<Rightarrow> ('k, bytes list) kcp_callbacks" where
  "kcp_noting A answers =
     \<lparr>kc_udpSend = \<lambda>pkt ip port w. w, kc_onData = \<lambda>m (t, w). (fold (\<lambda>a t. snd (kcpSend A a t)) (answers m) t, w @ [m]), kc_onDead = \<lambda>w. w\<rparr>"

lemma kcpSend_queue: "kcp_queue A q \<Longrightarrow> q (ku_kcp (snd (kcpSend A data t))) = q (ku_kcp t)"
  by (simp add: kcpSend_def kcp_queue_def split: prod.split) (metis snd_conv)

lemma kcpSends_queue: "kcp_queue A q \<Longrightarrow> q (ku_kcp (fold (\<lambda>a t. snd (kcpSend A a t)) xs t)) = q (ku_kcp t)"
  by (induction xs arbitrary: t) (simp_all add: kcpSend_queue)

lemma kcpRecvLoop_drains:
  assumes law: "kcp_queue A q" and "length (q (ku_kcp t)) < n"
  shows "\<exists>t'. kcpRecvLoop A (kcp_noting A answers) n (t, w) = (t', w @ filter (\<lambda>m. m \<noteq> [KCP_KEEPALIVE_MARKER]) (q (ku_kcp t))) \<and> q (ku_kcp t') = []"
  using assms(2)
proof (induction n arbitrary: t w)
  case (Suc n)
  obtain r k where r: "ka_recv A (ku_kcp t) = (r, k)" by fastforce
  then have rk: "r = (case q (ku_kcp t) of [] \<Rightarrow> None | m # _ \<Rightarrow> Some m)" "q k = tl (q (ku_kcp t))"
    using law unfolding kcp_queue_def by (metis fst_conv, metis snd_conv)
  show ?case
  proof (cases "q (ku_kcp t)")
    case Nil
    then show ?thesis using r rk by simp
  next
    case (Cons m ms)
    let ?t = "t\<lparr>ku_kcp := k\<rparr>"
    obtain t1 w1 where s1: "(if m = [KCP_KEEPALIVE_MARKER] then (?t, w) else kc_onData (kcp_noting A answers) m (?t, w)) = (t1, w1)" by fastforce
    then have q1: "q (ku_kcp t1) = ms" "w1 = (if m = [KCP_KEEPALIVE_MARKER] then w else w @ [m])"
      using rk(2) Cons kcpSends_queue [OF law, of "answers m" ?t] by (auto simp: kcp_noting_def split: if_splits)
    have "kcpRecvLoop A (kcp_noting A answers) (Suc n) (t, w) = kcpRecvLoop A (kcp_noting A answers) n (t1, w1)"
      using r rk(1) Cons s1 by (simp add: Let_def)
    then show ?thesis using Suc.IH [of t1 w1] Suc.prems Cons q1 by auto
  qed
qed simp


text \<open>A session that hands on each datagram as one message.\<close>

definition demo_kcp :: "bytes list kcp_api" where
  "demo_kcp = \<lparr>ka_create = \<lambda>_. [], ka_setmtu = \<lambda>_ k. k, ka_nodelay = \<lambda>_ _ _ _ k. k, ka_wndsize = \<lambda>_ _ k. k, ka_tune = \<lambda>_ _ k. k,
     ka_send = \<lambda>_ k. (0, k), ka_input = \<lambda>data k. k @ [data], ka_recv = \<lambda>k. case k of [] \<Rightarrow> (None, []) | m # ms \<Rightarrow> (Some m, ms),
     ka_update = \<lambda>_ k. ([], k), ka_waitsnd = \<lambda>_. 0, ka_srtt = \<lambda>_. 5, ka_pending = length\<rparr>"

lemma demo_kcp_queue: "kcp_queue demo_kcp (\<lambda>k. k)"
  by (auto simp: kcp_queue_def demo_kcp_def split: list.split)


end
