(* ===== verification/Probe_Quality.thy ===== *)
theory Probe_Quality
  imports Complex_Main Prelude_VLan
begin

text \<open>
  The loss and latency tracker of \<^verbatim>\<open>common/probe_quality.h\<close> and the outage watchdog of
  \<^verbatim>\<open>common/relay_probe_watchdog.h\<close>.  Times are the 32-bit millisecond clock of the callers;
  every difference is taken modulo \<open>2\<^sup>32\<close> as in the code.  A \<^verbatim>\<open>Record*\<close> is an index into
  the deque.  The percentage, a \<^verbatim>\<open>double\<close> in the code, is the exact rational.
\<close>

section \<open>Data\<close>

datatype ProbeState = Pending | Replied | TimedOut | SendFailed

record ProbeRecord =
  pr_id :: u32
  pr_sent :: u32
  pr_replyAt :: u32
  pr_state :: ProbeState
  pr_committed :: bool
  pr_earlyReply :: bool

record ProbeQualityTracker =
  pq_records :: "ProbeRecord list"
  pq_pathKind :: int
  pq_enabled :: bool
  pq_started :: bool
  pq_outage :: bool
  pq_queueSendFailure :: bool
  pq_transportSendFailure :: bool
  pq_hasReply :: bool
  pq_reference :: u32
  pq_lastReply :: u32
  pq_rtt :: int
  pq_recoveryReplies :: nat

record ProbeQualitySnapshot =
  ps_active :: bool
  ps_outage :: bool
  ps_localSendFailure :: bool
  ps_sampling :: bool
  ps_replies :: nat
  ps_timeouts :: nat
  ps_pending :: nat
  ps_sendFailures :: nat
  ps_rttMs :: int
  ps_timeoutPercent :: rat

abbreviation (input) PROBE_WINDOW_MS :: u32 where "PROBE_WINDOW_MS \<equiv> 60000"
abbreviation (input) PROBE_TIMEOUT_MS :: u32 where "PROBE_TIMEOUT_MS \<equiv> 10000"
abbreviation (input) PROBE_MIN_SAMPLES :: nat where "PROBE_MIN_SAMPLES \<equiv> 5"

definition newProbeRecord :: "u32 \<Rightarrow> u32 \<Rightarrow> ProbeRecord" where
  "newProbeRecord token time = \<lparr>pr_id = token, pr_sent = time, pr_replyAt = 0, pr_state = Pending,
     pr_committed = False, pr_earlyReply = False\<rparr>"

definition newProbeQualityTracker :: ProbeQualityTracker where
  "newProbeQualityTracker = \<lparr>pq_records = [], pq_pathKind = 0, pq_enabled = False, pq_started = False,
     pq_outage = False, pq_queueSendFailure = False, pq_transportSendFailure = False,
     pq_hasReply = False, pq_reference = 0, pq_lastReply = 0, pq_rtt = -1, pq_recoveryReplies = 0\<rparr>"

text \<open>The identifier source: the value before the atomic increment, and the new sequence.\<close>

definition nextProbeEchoId :: "u32 \<Rightarrow> u32 \<times> u32" where
  "nextProbeEchoId sequence = (sequence, sequence + 1)"

section \<open>Operations\<close>

definition probeReset :: "ProbeQualityTracker \<Rightarrow> ProbeQualityTracker" where
  "probeReset t = t\<lparr>pq_records := [], pq_started := False, pq_outage := False,
     pq_queueSendFailure := False, pq_transportSendFailure := False, pq_hasReply := False,
     pq_reference := 0, pq_lastReply := 0, pq_rtt := -1, pq_recoveryReplies := 0\<rparr>"

definition probeSuspend :: "ProbeQualityTracker \<Rightarrow> ProbeQualityTracker" where
  "probeSuspend t = t\<lparr>pq_enabled := False,
     pq_records := filter (\<lambda>r. pr_state r \<noteq> Pending) (pq_records t)\<rparr>"

definition setPath :: "int \<Rightarrow> ProbeQualityTracker \<Rightarrow> ProbeQualityTracker" where
  "setPath kind t =
     (if kind = 0 then probeSuspend t
      else (if pq_pathKind t \<noteq> kind then (probeReset t)\<lparr>pq_pathKind := kind\<rparr> else t)\<lparr>pq_enabled := True\<rparr>)"

fun find_index :: "('a \<Rightarrow> bool) \<Rightarrow> 'a list \<Rightarrow> nat option" where
  "find_index P [] = None"
| "find_index P (x # xs) = (if P x then Some 0 else map_option Suc (find_index P xs))"

definition findPending :: "u32 \<Rightarrow> ProbeQualityTracker \<Rightarrow> nat option" where
  "findPending pid t = find_index (\<lambda>r. pr_id r = pid \<and> pr_state r = Pending) (pq_records t)"

definition upd_record :: "nat \<Rightarrow> (ProbeRecord \<Rightarrow> ProbeRecord) \<Rightarrow> ProbeQualityTracker \<Rightarrow> ProbeQualityTracker" where
  "upd_record i f t = t\<lparr>pq_records := (pq_records t)[i := f (pq_records t ! i)]\<rparr>"

definition acceptReply :: "nat \<Rightarrow> u32 \<Rightarrow> ProbeQualityTracker \<Rightarrow> ProbeQualityTracker" where
  "acceptReply i now t =
     (let sent = pr_sent (pq_records t ! i);
          t = upd_record i (\<lambda>r. r\<lparr>pr_state := Replied\<rparr>) t;
          t = t\<lparr>pq_rtt := sint (now - sent), pq_hasReply := True, pq_lastReply := now, pq_reference := now\<rparr> in
      if pq_outage t
      then let t = t\<lparr>pq_recoveryReplies := pq_recoveryReplies t + 1\<rparr> in
           if pq_recoveryReplies t \<ge> 2 then t\<lparr>pq_outage := False, pq_recoveryReplies := 0\<rparr> else t
      else t)"

definition probeOverdue :: "u32 \<Rightarrow> ProbeRecord \<Rightarrow> bool" where
  "probeOverdue now r \<longleftrightarrow> pr_state r = Pending \<and> pr_committed r \<and> now - pr_sent r \<ge> PROBE_TIMEOUT_MS"

text \<open>The first loop of \<^verbatim>\<open>expire\<close>: the records already visited, those left, the recovery count.\<close>

fun expire_loop :: "u32 \<Rightarrow> bool \<Rightarrow> u32 \<Rightarrow> ProbeRecord list \<Rightarrow> nat \<Rightarrow> ProbeRecord list \<times> nat" where
  "expire_loop now hasReply lastReply [] rec = ([], rec)"
| "expire_loop now hasReply lastReply (r # rs) rec =
     (if probeOverdue now r
      then let rec = (if \<not> hasReply \<or> sint (pr_sent r - lastReply) \<ge> 0 then 0 else rec)
           in case expire_loop now hasReply lastReply rs rec of (rs', rec') \<Rightarrow> (r\<lparr>pr_state := TimedOut\<rparr> # rs', rec')
      else case expire_loop now hasReply lastReply rs rec of (rs', rec') \<Rightarrow> (r # rs', rec'))"

definition expire :: "u32 \<Rightarrow> ProbeQualityTracker \<Rightarrow> ProbeQualityTracker" where
  "expire now t =
     (case expire_loop now (pq_hasReply t) (pq_lastReply t) (pq_records t) (pq_recoveryReplies t) of (rs, rec) \<Rightarrow>
        let t = t\<lparr>pq_records := dropWhile (\<lambda>r. now - pr_sent r \<ge> PROBE_WINDOW_MS) rs, pq_recoveryReplies := rec\<rparr> in
        if pq_enabled t \<and> pq_started t \<and> \<not> pq_queueSendFailure t \<and> \<not> pq_transportSendFailure t \<and>
           now - pq_reference t \<ge> PROBE_TIMEOUT_MS
        then t\<lparr>pq_outage := True, pq_recoveryReplies := 0\<rparr>
        else t)"

definition beginProbe :: "u32 \<Rightarrow> u32 \<Rightarrow> ProbeQualityTracker \<Rightarrow> u32 \<times> ProbeQualityTracker" where
  "beginProbe now pid t =
     (let t = expire now t in
      (pid, if pq_enabled t then t\<lparr>pq_records := pq_records t @ [newProbeRecord pid now]\<rparr> else t))"

definition completeSend :: "u32 \<Rightarrow> u32 \<Rightarrow> bool \<Rightarrow> ProbeQualityTracker \<Rightarrow> ProbeQualityTracker" where
  "completeSend pid now success t =
     (case findPending pid t of
        None \<Rightarrow> t
      | Some i \<Rightarrow>
        (let wasLocalFailure = (pq_queueSendFailure t \<or> pq_transportSendFailure t);
             t = t\<lparr>pq_queueSendFailure := \<not> success\<rparr> in
         if \<not> success \<or> pq_transportSendFailure t
         then upd_record i (\<lambda>r. r\<lparr>pr_state := SendFailed, pr_earlyReply := False\<rparr>) t
         else let sent = pr_sent (pq_records t ! i);
                  t = (if wasLocalFailure \<and> \<not> pq_outage t then t\<lparr>pq_reference := sent\<rparr> else t);
                  t = upd_record i (\<lambda>r. r\<lparr>pr_committed := True\<rparr>) t;
                  t = (if \<not> pq_started t then t\<lparr>pq_started := True, pq_reference := sent\<rparr> else t);
                  t = (if pr_earlyReply (pq_records t ! i)
                       then acceptReply i (pr_replyAt (pq_records t ! i)) t else t)
              in expire now t))"

definition reportTransportSend :: "u32 \<Rightarrow> bool \<Rightarrow> ProbeQualityTracker \<Rightarrow> ProbeQualityTracker" where
  "reportTransportSend now success t =
     (let t = expire now t;
          wasTransportFailure = pq_transportSendFailure t;
          t = t\<lparr>pq_transportSendFailure := \<not> success\<rparr> in
      if success
      then (if wasTransportFailure \<and> \<not> pq_outage t then t\<lparr>pq_reference := now\<rparr> else t)
      else t\<lparr>pq_records := map (\<lambda>r. if pr_state r = Pending
                                     then r\<lparr>pr_state := SendFailed, pr_earlyReply := False\<rparr> else r)
                           (pq_records t)\<rparr>)"

definition probeReply :: "u32 \<Rightarrow> u32 \<Rightarrow> ProbeQualityTracker \<Rightarrow> bool \<times> ProbeQualityTracker" where
  "probeReply pid now t =
     (let t = expire now t in
      case findPending pid t of
        None \<Rightarrow> (False, t)
      | Some i \<Rightarrow>
        (let r = pq_records t ! i in
         if \<not> pq_enabled t \<or> now - pr_sent r \<ge> PROBE_TIMEOUT_MS then (False, t)
         else if \<not> pr_committed r
         then (if pr_earlyReply r then (False, t)
               else (True, upd_record i (\<lambda>r. r\<lparr>pr_earlyReply := True, pr_replyAt := now\<rparr>) t))
         else (True, acceptReply i now t)))"

definition latencyMs :: "u32 \<Rightarrow> ProbeQualityTracker \<Rightarrow> int" where
  "latencyMs now t =
     (if \<not> pq_enabled t \<or> \<not> pq_hasReply t \<or> now - pq_lastReply t \<ge> PROBE_TIMEOUT_MS then -1 else pq_rtt t)"

definition probeSnapshot :: "u32 \<Rightarrow> ProbeQualityTracker \<Rightarrow> ProbeQualitySnapshot \<times> ProbeQualityTracker" where
  "probeSnapshot now t =
     (let t = expire now t;
          cnt = (\<lambda>P. length (filter P (pq_records t)));
          replies = cnt (\<lambda>r. pr_state r = Replied);
          timeouts = cnt (\<lambda>r. pr_state r = TimedOut);
          settled = replies + timeouts in
      (\<lparr>ps_active = (pq_enabled t \<and> pq_started t), ps_outage = pq_outage t,
        ps_localSendFailure = (pq_queueSendFailure t \<or> pq_transportSendFailure t),
        ps_sampling = settled < PROBE_MIN_SAMPLES,
        ps_replies = replies, ps_timeouts = timeouts,
        ps_pending = cnt (\<lambda>r. pr_state r = Pending \<and> pr_committed r),
        ps_sendFailures = cnt (\<lambda>r. pr_state r = SendFailed),
        ps_rttMs = latencyMs now t,
        ps_timeoutPercent = (if settled \<noteq> 0 then 100 * of_nat timeouts / of_nat settled else 0)\<rparr>, t))"

section \<open>The watchdog\<close>

record RelayProbeWatchdog =
  wd_waiting :: bool
  wd_reported :: bool
  wd_since :: u32

definition newRelayProbeWatchdog :: RelayProbeWatchdog where
  "newRelayProbeWatchdog = \<lparr>wd_waiting = False, wd_reported = False, wd_since = 0\<rparr>"

definition outageReported :: "RelayProbeWatchdog \<Rightarrow> bool" where
  "outageReported w = wd_reported w"

definition observe :: "u32 \<Rightarrow> bool \<Rightarrow> RelayProbeWatchdog \<Rightarrow> bool \<times> RelayProbeWatchdog" where
  "observe now hasFreshReply w =
     (if hasFreshReply then (False, w\<lparr>wd_waiting := False, wd_reported := False\<rparr>)
      else let w = (if \<not> wd_waiting w then w\<lparr>wd_waiting := True, wd_since := now\<rparr> else w) in
        if \<not> wd_reported w \<and> now - wd_since w \<ge> 10000 then (True, w\<lparr>wd_reported := True\<rparr>)
        else (False, w))"

section \<open>Histories of a tracker\<close>

datatype probe_op =
    SetPath int | Reset | Begin u32 u32 | Complete u32 u32 bool | Transport u32 bool
  | Reply u32 u32 | Snapshot u32

fun probe_step :: "probe_op \<Rightarrow> ProbeQualityTracker \<Rightarrow> ProbeQualityTracker" where
  "probe_step (SetPath k) t = setPath k t"
| "probe_step Reset t = probeReset t"
| "probe_step (Begin now pid) t = snd (beginProbe now pid t)"
| "probe_step (Complete pid now ok) t = completeSend pid now ok t"
| "probe_step (Transport now ok) t = reportTransportSend now ok t"
| "probe_step (Reply pid now) t = snd (probeReply pid now t)"
| "probe_step (Snapshot now) t = snd (probeSnapshot now t)"

text \<open>Whether a step counts a reply, and whether it discards the history.\<close>

fun probe_accepts :: "probe_op \<Rightarrow> ProbeQualityTracker \<Rightarrow> bool" where
  "probe_accepts (Reply pid now) t =
     (let t = expire now t in case findPending pid t of None \<Rightarrow> False
      | Some i \<Rightarrow> pq_enabled t \<and> now - pr_sent (pq_records t ! i) < PROBE_TIMEOUT_MS \<and>
                  pr_committed (pq_records t ! i))"
| "probe_accepts (Complete pid now ok) t =
     (case findPending pid t of None \<Rightarrow> False
      | Some i \<Rightarrow> ok \<and> \<not> pq_transportSendFailure t \<and> pr_earlyReply (pq_records t ! i))"
| "probe_accepts _ t = False"

fun probe_resets :: "probe_op \<Rightarrow> ProbeQualityTracker \<Rightarrow> bool" where
  "probe_resets (SetPath k) t = (k \<noteq> 0 \<and> pq_pathKind t \<noteq> k)"
| "probe_resets Reset t = True"
| "probe_resets _ t = False"

fun probe_run :: "probe_op list \<Rightarrow> ProbeQualityTracker \<Rightarrow> ProbeQualityTracker" where
  "probe_run [] t = t"
| "probe_run (op # ops) t = probe_run ops (probe_step op t)"

fun accepted_replies :: "probe_op list \<Rightarrow> ProbeQualityTracker \<Rightarrow> nat" where
  "accepted_replies [] t = 0"
| "accepted_replies (op # ops) t =
     (if probe_accepts op t then 1 else 0) + accepted_replies ops (probe_step op t)"

fun keeps_history :: "probe_op list \<Rightarrow> ProbeQualityTracker \<Rightarrow> bool" where
  "keeps_history [] t = True"
| "keeps_history (op # ops) t = (\<not> probe_resets op t \<and> keeps_history ops (probe_step op t))"

lemma find_index_Some:
  "find_index P xs = Some i \<Longrightarrow> i < length xs \<and> P (xs ! i)"
  by (induction xs arbitrary: i) (auto split: if_splits)

lemma find_index_None: "find_index P xs = None \<longleftrightarrow> (\<forall>x \<in> set xs. \<not> P x)"
  by (induction xs) auto

lemma expire_loop_rec: "snd (expire_loop now h l rs rec) \<le> rec"
  by (induction now h l rs rec rule: expire_loop.induct)
     (auto simp: Let_def case_prod_unfold intro: order.trans)

lemma expire_loop_set:
  "r \<in> set (fst (expire_loop now h l rs rec)) \<Longrightarrow>
     r \<in> set rs \<or> (\<exists>r0 \<in> set rs. probeOverdue now r0 \<and> r = r0\<lparr>pr_state := TimedOut\<rparr>)"
  by (induction now h l rs rec rule: expire_loop.induct) (auto simp: Let_def case_prod_unfold split: if_splits)

lemma expire_keeps [simp]:
  "pq_enabled (expire now t) = pq_enabled t" "pq_started (expire now t) = pq_started t"
  "pq_hasReply (expire now t) = pq_hasReply t" "pq_rtt (expire now t) = pq_rtt t"
  "pq_lastReply (expire now t) = pq_lastReply t" "pq_pathKind (expire now t) = pq_pathKind t"
  "pq_transportSendFailure (expire now t) = pq_transportSendFailure t"
  by (simp_all add: expire_def Let_def case_prod_unfold)

lemma expire_outage: "pq_outage t \<Longrightarrow> pq_outage (expire now t)"
  by (simp add: expire_def Let_def case_prod_unfold)

lemma expire_recovery: "pq_recoveryReplies (expire now t) \<le> pq_recoveryReplies t"
  using expire_loop_rec by (simp add: expire_def Let_def case_prod_unfold)

lemma expire_records:
  "r \<in> set (pq_records (expire now t)) \<Longrightarrow>
     r \<in> set (pq_records t) \<or> (\<exists>r0 \<in> set (pq_records t). probeOverdue now r0 \<and> r = r0\<lparr>pr_state := TimedOut\<rparr>)"
  by (auto simp: expire_def Let_def case_prod_unfold split: if_splits dest!: set_dropWhileD expire_loop_set)

lemma acceptReply_simps [simp]:
  "pq_rtt (acceptReply i now t) = sint (now - pr_sent (pq_records t ! i))"
  "pq_hasReply (acceptReply i now t)"
  "pq_records (acceptReply i now t) = (pq_records t)[i := (pq_records t ! i)\<lparr>pr_state := Replied\<rparr>]"
  "pq_enabled (acceptReply i now t) = pq_enabled t"
  by (simp_all add: acceptReply_def upd_record_def Let_def)

lemma acceptReply_outage:
  "pq_outage t \<Longrightarrow>
     (pq_outage (acceptReply i now t) \<longrightarrow>
        pq_recoveryReplies t = 0 \<and> pq_recoveryReplies (acceptReply i now t) = 1) \<and>
     (\<not> pq_outage (acceptReply i now t) \<longrightarrow>
        pq_recoveryReplies t \<ge> 1 \<and> pq_recoveryReplies (acceptReply i now t) = 0)"
  by (auto simp: acceptReply_def upd_record_def Let_def)

text \<open>The state in which a successful \<^verbatim>\<open>completeSend\<close> looks at an early reply.\<close>

definition committed :: "nat \<Rightarrow> ProbeQualityTracker \<Rightarrow> ProbeQualityTracker" where
  "committed i t =
     (let sent = pr_sent (pq_records t ! i);
          wasLocalFailure = (pq_queueSendFailure t \<or> pq_transportSendFailure t);
          t = t\<lparr>pq_queueSendFailure := False\<rparr>;
          t = (if wasLocalFailure \<and> \<not> pq_outage t then t\<lparr>pq_reference := sent\<rparr> else t);
          t = upd_record i (\<lambda>r. r\<lparr>pr_committed := True\<rparr>) t
      in if \<not> pq_started t then t\<lparr>pq_started := True, pq_reference := sent\<rparr> else t)"

lemma committed_simps [simp]:
  "pq_records (committed i t) = (pq_records t)[i := (pq_records t ! i)\<lparr>pr_committed := True\<rparr>]"
  "pq_outage (committed i t) = pq_outage t" "pq_recoveryReplies (committed i t) = pq_recoveryReplies t"
  "pq_hasReply (committed i t) = pq_hasReply t" "pq_rtt (committed i t) = pq_rtt t"
  by (simp_all add: committed_def Let_def upd_record_def)

lemma completeSend_success:
  assumes "findPending pid t = Some i" "\<not> pq_transportSendFailure t"
  shows "completeSend pid now True t =
     expire now (if pr_earlyReply (pq_records t ! i)
                 then acceptReply i (pr_replyAt (pq_records t ! i)) (committed i t) else committed i t)"
proof -
  have i: "i < length (pq_records t)" using assms(1) by (auto simp: findPending_def dest: find_index_Some)
  then show ?thesis
    using assms unfolding completeSend_def Let_def committed_def by (simp add: upd_record_def)
qed

lemma completeSend_failure:
  assumes "findPending pid t = Some i" "\<not> (ok \<and> \<not> pq_transportSendFailure t)"
  shows "completeSend pid now ok t =
     upd_record i (\<lambda>r. r\<lparr>pr_state := SendFailed, pr_earlyReply := False\<rparr>) (t\<lparr>pq_queueSendFailure := \<not> ok\<rparr>)"
  using assms by (auto simp: completeSend_def Let_def)

subsection \<open>Recovery\<close>

lemma step_outage:
  assumes "pq_outage t" "\<not> probe_resets op t"
  shows "(if pq_outage (probe_step op t)
          then pq_recoveryReplies (probe_step op t) \<le> pq_recoveryReplies t + (if probe_accepts op t then 1 else 0)
          else probe_accepts op t \<and> pq_recoveryReplies t \<ge> 1)"
proof (cases op)
  case (Complete pid now ok)
  show ?thesis
  proof (cases "findPending pid t")
    case (Some i)
    have u: "pq_outage (committed i t)" using assms(1) by simp
    show ?thesis
    proof (cases "ok \<and> \<not> pq_transportSendFailure t")
      case True
      then have st: "probe_step op t = expire now (if pr_earlyReply (pq_records t ! i)
          then acceptReply i (pr_replyAt (pq_records t ! i)) (committed i t) else committed i t)"
        and ac: "probe_accepts op t = pr_earlyReply (pq_records t ! i)"
        using Complete Some completeSend_success [OF Some] by auto
      show ?thesis
        unfolding st ac using u acceptReply_outage [OF u, of i "pr_replyAt (pq_records t ! i)"]
          expire_outage [of "acceptReply i (pr_replyAt (pq_records t ! i)) (committed i t)" now]
          expire_recovery [of now "acceptReply i (pr_replyAt (pq_records t ! i)) (committed i t)"]
          expire_outage [of "committed i t" now] expire_recovery [of now "committed i t"]
        by auto
    next
      case False
      then show ?thesis using Complete assms(1) by (simp add: completeSend_failure [OF Some] upd_record_def)
    qed
  qed (use assms Complete in \<open>simp add: completeSend_def\<close>)
next
  case (Reply pid now)
  note e = expire_outage [OF assms(1), of now] expire_recovery [of now t]
  show ?thesis
    using Reply e acceptReply_outage [OF e(1)]
    by (fastforce simp: probeReply_def Let_def upd_record_def split: option.splits)
next
  case (SetPath k)
  then show ?thesis using assms by (auto simp: setPath_def probeSuspend_def)
qed (use assms expire_outage [OF assms(1)] expire_recovery [of _ t] in
  \<open>auto simp: beginProbe_def probeSnapshot_def reportTransportSend_def Let_def\<close>)

lemma recovery_count:
  assumes "pq_outage t" "keeps_history ops t" "\<not> pq_outage (probe_run ops t)"
  shows "2 \<le> pq_recoveryReplies t + accepted_replies ops t"
  using assms
proof (induction ops arbitrary: t)
  case (Cons op ops)
  note s = step_outage [OF Cons.prems(1), of op]
  show ?case
  proof (cases "pq_outage (probe_step op t)")
    case True
    with Cons.IH [OF True] Cons.prems s show ?thesis by (auto split: if_splits)
  next
    case False
    with Cons.prems s show ?thesis by auto
  qed
qed simp

subsection \<open>Each probe is answered once\<close>

definition probe_open :: "u32 \<Rightarrow> ProbeRecord \<Rightarrow> bool" where
  "probe_open pid r \<longleftrightarrow> pr_id r = pid \<and> pr_state r = Pending \<and> \<not> pr_earlyReply r"

definition open_count :: "u32 \<Rightarrow> ProbeQualityTracker \<Rightarrow> nat" where
  "open_count pid t = length (filter (probe_open pid) (pq_records t))"

definition early_inv :: "ProbeQualityTracker \<Rightarrow> bool" where
  "early_inv t \<longleftrightarrow> (\<forall>r \<in> set (pq_records t). pr_earlyReply r \<and> pr_state r = Pending \<longrightarrow> \<not> pr_committed r)"

lemma count_update:
  "i < length xs \<Longrightarrow> length (filter P (xs[i := y])) + (if P (xs ! i) then 1 else 0) =
     length (filter P xs) + (if P y then 1 else 0)"
proof (induction xs arbitrary: i)
  case (Cons x xs)
  then show ?case by (cases i) (auto split: if_splits)
qed simp

lemma expire_loop_open:
  "length (filter (probe_open pid) (fst (expire_loop now h l rs rec))) \<le> length (filter (probe_open pid) rs)"
  by (induction now h l rs rec rule: expire_loop.induct)
     (auto simp: Let_def case_prod_unfold probe_open_def)

lemma count_dropWhile: "length (filter P (dropWhile Q xs)) \<le> length (filter P xs)"
  by (induction xs) auto

lemma expire_open: "open_count pid (expire now t) \<le> open_count pid t"
  using order.trans [OF count_dropWhile expire_loop_open]
  by (simp add: open_count_def expire_def Let_def case_prod_unfold)

lemma expire_early: "early_inv t \<Longrightarrow> early_inv (expire now t)"
  unfolding early_inv_def by (auto dest!: expire_records)

lemma early_inv_update:
  "early_inv t \<Longrightarrow> (pr_earlyReply r \<and> pr_state r = Pending \<longrightarrow> \<not> pr_committed r) \<Longrightarrow>
     pq_records t' = (pq_records t)[i := r] \<Longrightarrow> early_inv t'"
  unfolding early_inv_def by (auto dest!: set_update_subset_insert [THEN subsetD])

lemma step_open_complete:
  assumes "early_inv t"
  shows "early_inv (completeSend pid now ok t) \<and> open_count q (completeSend pid now ok t) \<le> open_count q t"
proof (cases "findPending pid t")
  case (Some i)
  then have i: "i < length (pq_records t)" by (auto simp: findPending_def dest: find_index_Some)
  let ?r = "pq_records t ! i"
  have upd: "length (filter (probe_open q) ((pq_records t)[i := r'])) \<le> open_count q t"
    if "probe_open q r' \<longrightarrow> probe_open q ?r" for r'
    using count_update [OF i, of "probe_open q" r'] that by (auto simp: open_count_def split: if_splits)
  show ?thesis
  proof (cases "ok \<and> \<not> pq_transportSendFailure t")
    case False
    have "early_inv (completeSend pid now ok t)"
      by (rule early_inv_update [OF assms, where i = i and r = "?r\<lparr>pr_state := SendFailed, pr_earlyReply := False\<rparr>"])
         (simp_all add: completeSend_failure [OF Some False] upd_record_def)
    then show ?thesis
      using upd [of "?r\<lparr>pr_state := SendFailed, pr_earlyReply := False\<rparr>"]
      by (simp add: completeSend_failure [OF Some False] upd_record_def open_count_def probe_open_def)
  next
    case True
    define r where "r = (if pr_earlyReply ?r then ?r\<lparr>pr_committed := True, pr_state := Replied\<rparr> else ?r\<lparr>pr_committed := True\<rparr>)"
    define u where "u = (if pr_earlyReply ?r then acceptReply i (pr_replyAt ?r) (committed i t) else committed i t)"
    have u: "completeSend pid now ok t = expire now u" "pq_records u = (pq_records t)[i := r]"
      using True i completeSend_success [OF Some] by (auto simp: u_def r_def)
    have "early_inv u"
      by (rule early_inv_update [OF assms _ u(2)]) (auto simp: r_def)
    moreover have "open_count q u \<le> open_count q t"
      using upd [of r] by (simp add: open_count_def u(2) r_def probe_open_def)
    ultimately show ?thesis
      using expire_early [of u now] expire_open [of q now u] by (simp add: u(1))
  qed
qed (simp add: completeSend_def assms)

lemma step_open_reply:
  assumes "early_inv t"
  shows "early_inv (snd (probeReply pid now t)) \<and>
         open_count q (snd (probeReply pid now t)) + (if fst (probeReply pid now t) \<and> pid = q then 1 else 0)
           \<le> open_count q t"
proof -
  let ?e = "expire now t"
  note e = expire_early [OF assms, of now] expire_open [of q now t]
  show ?thesis
  proof (cases "findPending pid ?e")
    case (Some i)
    then have i: "i < length (pq_records ?e)" "pr_id (pq_records ?e ! i) = pid" "pr_state (pq_records ?e ! i) = Pending"
      by (auto simp: findPending_def dest: find_index_Some)
    let ?r = "pq_records ?e ! i"
    have step: "early_inv u \<and> open_count q u + (if pid = q then 1 else 0) \<le> open_count q t"
      if "pq_records u = (pq_records ?e)[i := r']" "\<not> probe_open q r'" "\<not> pr_earlyReply ?r"
        "pr_earlyReply r' \<and> pr_state r' = Pending \<longrightarrow> \<not> pr_committed r'" for u r'
      using count_update [OF i(1), of "probe_open q" r'] that e(2) i early_inv_update [OF e(1) that(4,1)]
      by (auto simp: open_count_def probe_open_def split: if_splits)
    have "\<not> pr_earlyReply ?r" if "pr_committed ?r"
      using e(1) i that by (auto simp: early_inv_def)
    then show ?thesis
      using Some e i step [of "acceptReply i now ?e" "?r\<lparr>pr_state := Replied\<rparr>"]
        step [of "upd_record i (\<lambda>r. r\<lparr>pr_earlyReply := True, pr_replyAt := now\<rparr>) ?e"
                 "?r\<lparr>pr_earlyReply := True, pr_replyAt := now\<rparr>"]
      by (auto simp: probeReply_def Let_def upd_record_def probe_open_def)
  qed (use e in \<open>simp add: probeReply_def Let_def\<close>)
qed

fun answers :: "u32 \<Rightarrow> probe_op list \<Rightarrow> ProbeQualityTracker \<Rightarrow> nat" where
  "answers pid [] t = 0"
| "answers pid (op # ops) t =
     (case op of Reply q now \<Rightarrow> (if q = pid \<and> fst (probeReply q now t) then 1 else 0) | _ \<Rightarrow> 0) +
     answers pid ops (probe_step op t)"

definition begun :: "u32 \<Rightarrow> probe_op list \<Rightarrow> nat" where
  "begun pid ops = length (filter (\<lambda>op. case op of Begin _ q \<Rightarrow> q = pid | _ \<Rightarrow> False) ops)"

lemma step_open:
  assumes "early_inv t"
  shows "early_inv (probe_step op t) \<and>
         open_count pid (probe_step op t) +
           (case op of Reply q now \<Rightarrow> (if q = pid \<and> fst (probeReply q now t) then 1 else 0) | _ \<Rightarrow> 0)
         \<le> open_count pid t + (case op of Begin _ q \<Rightarrow> (if q = pid then 1 else 0) | _ \<Rightarrow> 0)"
proof (cases op)
  case (SetPath k)
  have "length (filter (probe_open pid) (filter P rs)) \<le> length (filter (probe_open pid) rs)" for P rs
    by (induction rs) auto
  then show ?thesis
    using SetPath assms by (auto simp: setPath_def probeSuspend_def probeReset_def open_count_def early_inv_def)
next
  case (Begin now q)
  then show ?thesis
    using expire_open [of pid now t] expire_early [OF assms, of now]
    by (auto simp: beginProbe_def Let_def open_count_def early_inv_def newProbeRecord_def probe_open_def)
next
  case (Transport now ok)
  have "length (filter (probe_open pid) (map (\<lambda>r. if pr_state r = Pending
          then r\<lparr>pr_state := SendFailed, pr_earlyReply := False\<rparr> else r) rs)) = 0" for rs
    by (simp add: filter_empty_conv probe_open_def)
  then show ?thesis
    using Transport expire_open [of pid now t] expire_early [OF assms, of now]
    by (auto simp: reportTransportSend_def Let_def open_count_def early_inv_def)
next
  case (Reply q now)
  then show ?thesis using step_open_reply [OF assms, of q now pid] by auto
qed (use assms step_open_complete [OF assms] expire_open [of pid _ t] expire_early [OF assms] in
  \<open>auto simp: probeSnapshot_def probeReset_def open_count_def early_inv_def Let_def\<close>)

lemma answers_bound: "early_inv t \<Longrightarrow> answers pid ops t \<le> open_count pid t + begun pid ops"
proof (induction ops arbitrary: t)
  case (Cons op ops)
  note s = step_open [OF Cons.prems, of op pid]
  with Cons.IH [of "probe_step op t"] show ?case
    by (cases op) (auto simp: begun_def)
qed simp

subsection \<open>Ranges\<close>

definition range_inv :: "ProbeQualityTracker \<Rightarrow> bool" where
  "range_inv t \<longleftrightarrow> (\<forall>r \<in> set (pq_records t). pr_earlyReply r \<longrightarrow> pr_replyAt r - pr_sent r < PROBE_TIMEOUT_MS) \<and>
     (pq_hasReply t \<longrightarrow> 0 \<le> pq_rtt t \<and> pq_rtt t < 10000)"

lemma sint_small: "x < (10000 :: u32) \<Longrightarrow> 0 \<le> sint x \<and> sint x < 10000"
proof -
  assume "x < 10000"
  then have "uint x < 10000" by (simp add: word_less_def)
  moreover have "signed_take_bit 31 (uint x) = uint x"
    using calculation by (intro signed_take_bit_int_eq_self) (auto intro: order.trans [OF _ uint_ge_0])
  ultimately show ?thesis by (simp add: sint_uint)
qed

lemma expire_range: "range_inv t \<Longrightarrow> range_inv (expire now t)"
  unfolding range_inv_def by (auto dest!: expire_records)

lemma range_inv_update:
  "range_inv t \<Longrightarrow> (pr_earlyReply r \<longrightarrow> pr_replyAt r - pr_sent r < PROBE_TIMEOUT_MS) \<Longrightarrow>
   pq_records t' = (pq_records t)[i := r] \<Longrightarrow>
   (pq_hasReply t' \<longrightarrow> 0 \<le> pq_rtt t' \<and> pq_rtt t' < 10000) \<Longrightarrow> range_inv t'"
  unfolding range_inv_def by (auto dest!: set_update_subset_insert [THEN subsetD])

lemma accept_range:
  assumes "range_inv t" "i < length (pq_records t)" "now - pr_sent (pq_records t ! i) < PROBE_TIMEOUT_MS"
  shows "range_inv (acceptReply i now t)"
  by (rule range_inv_update [OF assms(1), where i = i and r = "(pq_records t ! i)\<lparr>pr_state := Replied\<rparr>"])
     (use assms sint_small in \<open>auto simp: range_inv_def\<close>)

lemma step_range:
  assumes "range_inv t"
  shows "range_inv (probe_step op t)"
proof (cases op)
  case (Complete pid now ok)
  show ?thesis
  proof (cases "findPending pid t")
    case (Some i)
    then have i: "i < length (pq_records t)" by (auto simp: findPending_def dest: find_index_Some)
    let ?r = "pq_records t ! i"
    have r: "pr_earlyReply ?r \<longrightarrow> pr_replyAt ?r - pr_sent ?r < PROBE_TIMEOUT_MS"
      using assms i by (auto simp: range_inv_def)
    show ?thesis
    proof (cases "ok \<and> \<not> pq_transportSendFailure t")
      case False
      show ?thesis
        by (rule range_inv_update [OF assms, where i = i and r = "?r\<lparr>pr_state := SendFailed, pr_earlyReply := False\<rparr>"])
           (use Complete assms in \<open>auto simp: completeSend_failure [OF Some False] upd_record_def range_inv_def\<close>)
    next
      case True
      have "range_inv (committed i t)"
        by (rule range_inv_update [OF assms, where i = i and r = "?r\<lparr>pr_committed := True\<rparr>"])
           (use r assms in \<open>auto simp: range_inv_def\<close>)
      then show ?thesis
        using Complete True i r accept_range [of "committed i t" i "pr_replyAt ?r"] expire_range
        by (simp add: completeSend_success [OF Some])
    qed
  qed (simp add: completeSend_def assms Complete)
next
  case (Reply pid now)
  note e = expire_range [OF assms, of now]
  show ?thesis
  proof (cases "findPending pid (expire now t)")
    case (Some i)
    then have i: "i < length (pq_records (expire now t))" by (auto simp: findPending_def dest: find_index_Some)
    let ?r = "pq_records (expire now t) ! i"
    have early: "range_inv (upd_record i (\<lambda>r. r\<lparr>pr_earlyReply := True, pr_replyAt := now\<rparr>) (expire now t))"
      if "now - pr_sent ?r < PROBE_TIMEOUT_MS"
      by (rule range_inv_update [OF e, where i = i and r = "?r\<lparr>pr_earlyReply := True, pr_replyAt := now\<rparr>"])
         (use that e in \<open>auto simp: upd_record_def range_inv_def\<close>)
    show ?thesis
      using Some Reply e early accept_range [OF e i, of now] by (simp add: probeReply_def Let_def not_le)
  qed (use e Reply in \<open>simp add: probeReply_def Let_def\<close>)
qed (use assms expire_range [OF assms] in
  \<open>auto simp: setPath_def probeSuspend_def probeReset_def beginProbe_def newProbeRecord_def
     reportTransportSend_def probeSnapshot_def Let_def range_inv_def\<close>)

lemma run_range: "range_inv t \<Longrightarrow> range_inv (probe_run ops t)"
  by (induction ops arbitrary: t) (auto simp: step_range)

lemma count_split4:
  "length (filter (\<lambda>r. pr_state r = Replied) rs) + length (filter (\<lambda>r. pr_state r = TimedOut) rs) +
   length (filter (\<lambda>r. pr_state r = SendFailed) rs) +
   length (filter (\<lambda>r. pr_state r = Pending \<and> pr_committed r) rs) \<le> length rs"
  by (induction rs) auto

section \<open>Properties\<close>


definition outage_history :: "probe_op list" where
  "outage_history = [SetPath 1, Begin 0 1, Complete 1 0 True, Snapshot 10000]"

definition recovery_history :: "probe_op list" where
  "recovery_history = [Begin 10000 2, Complete 2 10000 True, Reply 2 10020,
     Begin 11000 3, Complete 3 11000 True, Reply 3 11020]"


text \<open>
  No probe is answered twice: in any history of a tracker, the replies with a given echo
  identifier that are accepted are at most as many as the probes begun with that identifier.
\<close>

lemma replies_bounded_by_probes:
  "answers pid ops newProbeQualityTracker \<le> begun pid ops"
  using answers_bound [of newProbeQualityTracker pid ops]
  by (simp add: early_inv_def newProbeQualityTracker_def open_count_def)

text \<open>
  Reported values stay in range after any history: the latency is -1 or below the ten second
  timeout, the timeout percentage lies between 0 and 100, and the four counts together do not
  exceed the number of probes in the window.
\<close>

lemma snapshot_ranges:
  fixes ops now
  defines "r \<equiv> probeSnapshot now (probe_run ops newProbeQualityTracker)"
  shows "(ps_rttMs (fst r) = -1 \<or> (0 \<le> ps_rttMs (fst r) \<and> ps_rttMs (fst r) < 10000)) \<and>
    0 \<le> ps_timeoutPercent (fst r) \<and> ps_timeoutPercent (fst r) \<le> 100 \<and>
    ps_replies (fst r) + ps_timeouts (fst r) + ps_sendFailures (fst r) + ps_pending (fst r)
      \<le> length (pq_records (snd r))"
proof -
  let ?t = "expire now (probe_run ops newProbeQualityTracker)"
  have "range_inv newProbeQualityTracker" by (simp add: range_inv_def newProbeQualityTracker_def)
  then have "range_inv ?t" by (intro expire_range run_range)
  then have "latencyMs now ?t = -1 \<or> (0 \<le> latencyMs now ?t \<and> latencyMs now ?t < 10000)"
    by (auto simp: latencyMs_def range_inv_def)
  moreover have "0 \<le> 100 * of_nat b / (of_nat (a + b) :: rat) \<and> 100 * of_nat b / of_nat (a + b) \<le> (100 :: rat)" for a b
    by (cases "a + b = 0") (simp_all add: divide_le_eq)
  ultimately show ?thesis
    using count_split4 [of "pq_records ?t"] unfolding r_def probeSnapshot_def Let_def
    by auto
qed

subsection \<open>The watchdog\<close>

fun watch :: "(u32 \<times> bool) list \<Rightarrow> RelayProbeWatchdog \<Rightarrow> bool list" where
  "watch [] w = []"
| "watch ((now, fresh) # obs) w = fst (observe now fresh w) # watch obs (snd (observe now fresh w))"

lemma watch_silent:
  "wd_waiting w \<Longrightarrow> \<forall>(now, fresh) \<in> set obs. \<not> fresh \<Longrightarrow>
     length (filter (\<lambda>b. b) (watch obs w)) =
       (if \<not> wd_reported w \<and> (\<exists>(now, fresh) \<in> set obs. now - wd_since w \<ge> 10000) then 1 else 0)"
proof (induction obs w rule: watch.induct)
  case (2 now fresh obs w)
  then show ?case by (fastforce simp: observe_def Let_def case_prod_unfold)
qed simp

text \<open>
  An uninterrupted outage is reported exactly once if some observation lies ten seconds or
  more after its first one, and never otherwise.
\<close>

lemma watchdog_reports_once:
  assumes "\<not> wd_waiting w" "\<not> wd_reported w" "\<forall>(now, fresh) \<in> set obs. \<not> fresh"
  shows "length (filter (\<lambda>b. b) (watch ((start, False) # obs) w)) =
     (if \<exists>(now, fresh) \<in> set obs. now - start \<ge> 10000 then 1 else 0)"
  using assms watch_silent [of "w\<lparr>wd_waiting := True, wd_since := start\<rparr>" obs]
  by (simp add: observe_def Let_def)

end
