(* ===== verification/Cli_Peer.thy ===== *)
theory Cli_Peer
  imports Byte_Buffer Probe_Quality
begin

text \<open>
  A peer of the room as the command line client sees it: \<^verbatim>\<open>CliPeerConnection\<close> of
  \<^verbatim>\<open>client-cli/src/cli_peer.cpp\<close>, its own state.  The tunnels are pointers; what sends through
  them is with the tunnel manager, which owns the objects.  The sender for the TCP relay is a
  function of the application, of which the peer keeps what it captured, its own peer id.
\<close>

datatype TransportType = TRANSPORT_NONE | TRANSPORT_RELAY_KCP | TRANSPORT_RELAY_TCP | TRANSPORT_RELAY_RAW_UDP

fun TransportType_val :: "TransportType \<Rightarrow> int" where
  "TransportType_val TRANSPORT_NONE = 0"
| "TransportType_val TRANSPORT_RELAY_KCP = 2"
| "TransportType_val TRANSPORT_RELAY_TCP = 3"
| "TransportType_val TRANSPORT_RELAY_RAW_UDP = 4"

abbreviation (input) TCP_RELAY_KEEPALIVE_MS :: u32 where "TCP_RELAY_KEEPALIVE_MS \<equiv> 10000"
abbreviation (input) TCP_RELAY_DEAD_MS :: u32 where "TCP_RELAY_DEAD_MS \<equiv> 30000"
abbreviation (input) CLI_LATENCY_PROBE_MARKER :: u8 where "CLI_LATENCY_PROBE_MARKER \<equiv> 0xFE"
abbreviation (input) CLI_LATENCY_PROBE_PING :: u8 where "CLI_LATENCY_PROBE_PING \<equiv> 0x01"
abbreviation (input) CLI_LATENCY_PROBE_PONG :: u8 where "CLI_LATENCY_PROBE_PONG \<equiv> 0x02"

record CliPeerConnection =
  pc_peerId :: u32
  pc_virtualIP :: u32
  pc_name :: bytes
  pc_transport :: "TransportType list"
  pc_kcpTunnel :: "nat option list"
  pc_rawUdpTunnel :: "nat option list"
  pc_tcpSender :: "u32 option"
  pc_tcpControlReady :: bool
  pc_tcpRelayLastRecv :: "u32 list"
  pc_tcpRelayLastSend :: "u32 list"
  pc_quality :: "ProbeQualityTracker list"

definition newPeerConnection :: "u32 \<Rightarrow> u32 \<Rightarrow> u32 \<Rightarrow> bytes \<Rightarrow> CliPeerConnection" where
  "newPeerConnection now peerId virtualIP name =
     \<lparr>pc_peerId = peerId, pc_virtualIP = virtualIP, pc_name = name, pc_transport = replicate 3 TRANSPORT_NONE,
      pc_kcpTunnel = replicate 3 None, pc_rawUdpTunnel = replicate 3 None, pc_tcpSender = None, pc_tcpControlReady = False,
      pc_tcpRelayLastRecv = replicate 3 now, pc_tcpRelayLastSend = replicate 3 now,
      pc_quality = replicate 3 newProbeQualityTracker\<rparr>"

text \<open>The array index of a traffic class; a class out of range is replaced by the given one.\<close>

definition classIndex :: "u8 \<Rightarrow> u8 \<Rightarrow> nat" where
  "classIndex other cls = (if unat cls > 2 then unat other else unat cls)"

definition pcTransport :: "u8 \<Rightarrow> CliPeerConnection \<Rightarrow> TransportType" where
  "pcTransport cls p = pc_transport p ! classIndex TRAFFIC_UDP cls"

definition pcSetKcpTunnel :: "u8 \<Rightarrow> nat option \<Rightarrow> CliPeerConnection \<Rightarrow> CliPeerConnection" where
  "pcSetKcpTunnel cls tunnel p = p\<lparr>pc_kcpTunnel := (pc_kcpTunnel p)[classIndex TRAFFIC_UDP cls := tunnel]\<rparr>"

definition pcSetRawUdpTunnel :: "u8 \<Rightarrow> nat option \<Rightarrow> CliPeerConnection \<Rightarrow> CliPeerConnection" where
  "pcSetRawUdpTunnel cls tunnel p = p\<lparr>pc_rawUdpTunnel := (pc_rawUdpTunnel p)[classIndex TRAFFIC_UDP cls := tunnel]\<rparr>"

definition pcClearKcpTunnel :: "u8 \<Rightarrow> CliPeerConnection \<Rightarrow> CliPeerConnection" where
  "pcClearKcpTunnel cls p = p\<lparr>pc_kcpTunnel := (pc_kcpTunnel p)[classIndex TRAFFIC_UDP cls := None]\<rparr>"

definition pcClearRawUdpTunnel :: "u8 \<Rightarrow> CliPeerConnection \<Rightarrow> CliPeerConnection" where
  "pcClearRawUdpTunnel cls p = p\<lparr>pc_rawUdpTunnel := (pc_rawUdpTunnel p)[classIndex TRAFFIC_UDP cls := None]\<rparr>"

definition pcModQuality :: "nat \<Rightarrow> (ProbeQualityTracker \<Rightarrow> ProbeQualityTracker) \<Rightarrow> CliPeerConnection \<Rightarrow> CliPeerConnection" where
  "pcModQuality idx f p = p\<lparr>pc_quality := (pc_quality p)[idx := f (pc_quality p ! idx)]\<rparr>"

definition pcSetTransport :: "u8 \<Rightarrow> TransportType \<Rightarrow> CliPeerConnection \<Rightarrow> CliPeerConnection" where
  "pcSetTransport cls t p =
     (let idx = classIndex TRAFFIC_UDP cls;
          p = (if pc_transport p ! idx \<noteq> t then pcModQuality idx (setPath (TransportType_val t)) p else p)
      in p\<lparr>pc_transport := (pc_transport p)[idx := t]\<rparr>)"

definition pcClearTransport :: "u32 \<Rightarrow> u8 \<Rightarrow> CliPeerConnection \<Rightarrow> CliPeerConnection" where
  "pcClearTransport now cls p =
     (let idx = classIndex TRAFFIC_UDP cls in
      pcModQuality idx probeSuspend
        (p\<lparr>pc_transport := (pc_transport p)[idx := TRANSPORT_NONE],
           pc_tcpRelayLastRecv := (pc_tcpRelayLastRecv p)[idx := now],
           pc_tcpRelayLastSend := (pc_tcpRelayLastSend p)[idx := now]\<rparr>))"

definition pcOnTcpRelayDataReceived :: "u32 \<Rightarrow> u8 \<Rightarrow> CliPeerConnection \<Rightarrow> CliPeerConnection" where
  "pcOnTcpRelayDataReceived now cls p =
     p\<lparr>pc_tcpRelayLastRecv := (pc_tcpRelayLastRecv p)[classIndex TRAFFIC_TCP cls := now]\<rparr>"

text \<open>The classes an empty keepalive is sent for, and the new times.\<close>

definition pcRelayKeepalive1 :: "u32 \<Rightarrow> nat \<Rightarrow> u8 list \<times> CliPeerConnection \<Rightarrow> u8 list \<times> CliPeerConnection" where
  "pcRelayKeepalive1 now idx s =
     (let (sent, p) = s in
      if pc_transport p ! idx \<noteq> TRANSPORT_RELAY_TCP \<or> pc_tcpSender p = None then s
      else if now - pc_tcpRelayLastSend p ! idx \<ge> TCP_RELAY_KEEPALIVE_MS
      then (sent @ [of_nat idx], p\<lparr>pc_tcpRelayLastSend := (pc_tcpRelayLastSend p)[idx := now]\<rparr>)
      else s)"

definition pcSendTcpRelayKeepalive :: "u32 \<Rightarrow> CliPeerConnection \<Rightarrow> u8 list \<times> CliPeerConnection" where
  "pcSendTcpRelayKeepalive now p = fold (pcRelayKeepalive1 now) [1, 2] ([], p)"

definition pcIsTcpRelayDead :: "u32 \<Rightarrow> u8 \<Rightarrow> CliPeerConnection \<Rightarrow> bool" where
  "pcIsTcpRelayDead now cls p =
     (let idx = classIndex TRAFFIC_TCP cls in
      if pc_transport p ! idx \<noteq> TRANSPORT_RELAY_TCP then False
      else now - pc_tcpRelayLastRecv p ! idx > TCP_RELAY_DEAD_MS)"

definition pcAnyTcpRelayDead :: "u32 \<Rightarrow> CliPeerConnection \<Rightarrow> bool" where
  "pcAnyTcpRelayDead now p \<longleftrightarrow> pcIsTcpRelayDead now TRAFFIC_TCP p \<or> pcIsTcpRelayDead now TRAFFIC_UDP p"

definition pcLatencyMs :: "u32 \<Rightarrow> u8 \<Rightarrow> CliPeerConnection \<Rightarrow> int" where
  "pcLatencyMs now cls p = latencyMs now (pc_quality p ! classIndex TRAFFIC_UDP cls)"

definition pcQualitySnapshot :: "u32 \<Rightarrow> u8 \<Rightarrow> CliPeerConnection \<Rightarrow> ProbeQualitySnapshot \<times> CliPeerConnection" where
  "pcQualitySnapshot now cls p =
     (let idx = classIndex TRAFFIC_UDP cls in
      case probeSnapshot now (pc_quality p ! idx) of (snap, q) \<Rightarrow> (snap, pcModQuality idx (\<lambda>_. q) p))"

definition pcResetQuality :: "CliPeerConnection \<Rightarrow> CliPeerConnection" where
  "pcResetQuality p = fold (\<lambda>idx. pcModQuality idx probeReset) [0..<3] p"

definition pcReportLocalTransportSend :: "u32 \<Rightarrow> u8 \<Rightarrow> bool \<Rightarrow> CliPeerConnection \<Rightarrow> CliPeerConnection" where
  "pcReportLocalTransportSend now cls success p = pcModQuality (classIndex TRAFFIC_UDP cls) (reportTransportSend now success) p"

text \<open>A latency probe with its token.\<close>

definition latencyProbe :: "u8 \<Rightarrow> u32 \<Rightarrow> bytes" where
  "latencyProbe kind token =
     [CLI_LATENCY_PROBE_MARKER, kind, ucast (drop_bit 24 token AND 0xFF), ucast (drop_bit 16 token AND 0xFF),
      ucast (drop_bit 8 token AND 0xFF), ucast (token AND 0xFF)]"

definition probeToken :: "bytes \<Rightarrow> u32" where
  "probeToken data =
     push_bit 24 (ucast (data ! 2)) OR push_bit 16 (ucast (data ! 3)) OR push_bit 8 (ucast (data ! 4)) OR ucast (data ! 5)"

section \<open>What identifies a peer\<close>

text \<open>The fields that the tunnel manager relies on; only setting or clearing a tunnel changes them.\<close>

definition peer_links :: "CliPeerConnection \<Rightarrow> u32 \<times> u32 \<times> nat option list \<times> nat option list" where
  "peer_links p = (pc_peerId p, pc_virtualIP p, pc_kcpTunnel p, pc_rawUdpTunnel p)"

lemma peer_links_ops [simp]:
  "peer_links (pcModQuality i f p) = peer_links p" "peer_links (pcSetTransport cls t p) = peer_links p"
  "peer_links (pcClearTransport now cls p) = peer_links p" "peer_links (pcOnTcpRelayDataReceived now cls p) = peer_links p"
  "peer_links (snd (pcQualitySnapshot now cls p)) = peer_links p" "peer_links (pcReportLocalTransportSend now cls ok p) = peer_links p"
  by (simp_all add: peer_links_def pcModQuality_def pcSetTransport_def pcClearTransport_def pcOnTcpRelayDataReceived_def
      pcQualitySnapshot_def pcReportLocalTransportSend_def Let_def split: prod.split)

lemma peer_links_reset [simp]: "peer_links (pcResetQuality p) = peer_links p"
  unfolding pcResetQuality_def by (rule fold_invariant [where Q = "\<lambda>_. True"]) simp_all

lemma peer_links_keepalive [simp]: "peer_links (snd (pcSendTcpRelayKeepalive now p)) = peer_links p"
  by (simp add: pcSendTcpRelayKeepalive_def pcRelayKeepalive1_def peer_links_def)

lemma probe_roundtrip: "probeToken (latencyProbe kind token) = token"
  by (simp add: probeToken_def latencyProbe_def join32)

end
