(* ===== verification/Overlay.thy ===== *)
theory Overlay
  imports Byte_Buffer
begin

text \<open>
  The overlay packet checks of \<^verbatim>\<open>common/overlay_packet_validator.h\<close> and the IPv4 helpers of
  \<^verbatim>\<open>common/net_common.h\<close>: what a client lets into and out of its virtual adapter.
\<close>

datatype OverlayPacketError = OvNone | OvTruncated | OvNotIpv4 | OvInvalidHeaderLength
  | OvInvalidTotalLength | OvExceedsMtu | OvInvalidSource | OvInvalidDestination

record OverlayPacketResult =
  op_error :: OverlayPacketError
  op_source :: u32
  op_destination :: u32

definition mkOverlayPacketResult :: "OverlayPacketError \<Rightarrow> u32 \<Rightarrow> u32 \<Rightarrow> OverlayPacketResult" where
  "mkOverlayPacketResult e src dst = \<lparr>op_error = e, op_source = src, op_destination = dst\<rparr>"

definition overlayIsValid :: "OverlayPacketResult \<Rightarrow> bool" where
  "overlayIsValid r \<longleftrightarrow> op_error r = OvNone"

fun overlayPacketErrorName :: "OverlayPacketError \<Rightarrow> string" where
  "overlayPacketErrorName OvNone = ''none''"
| "overlayPacketErrorName OvTruncated = ''truncated''"
| "overlayPacketErrorName OvNotIpv4 = ''not-ipv4''"
| "overlayPacketErrorName OvInvalidHeaderLength = ''invalid-header-length''"
| "overlayPacketErrorName OvInvalidTotalLength = ''invalid-total-length''"
| "overlayPacketErrorName OvExceedsMtu = ''exceeds-mtu''"
| "overlayPacketErrorName OvInvalidSource = ''invalid-source''"
| "overlayPacketErrorName OvInvalidDestination = ''invalid-destination''"

definition readOverlayAddress :: "bytes \<Rightarrow> u32" where
  "readOverlayAddress p =
     push_bit 24 (ucast (p ! 0)) OR push_bit 16 (ucast (p ! 1)) OR push_bit 8 (ucast (p ! 2)) OR ucast (p ! 3)"

text \<open>\<open>None\<close> is a null packet pointer.\<close>

definition validateOverlayIpv4Structure :: "bytes option \<Rightarrow> u16 \<Rightarrow> OverlayPacketResult" where
  "validateOverlayIpv4Structure pkt roomMtu =
     (case pkt of None \<Rightarrow> mkOverlayPacketResult OvTruncated 0 0
      | Some packet \<Rightarrow>
     (if length packet < 20 then mkOverlayPacketResult OvTruncated 0 0
      else if drop_bit 4 (packet ! 0) \<noteq> 4 then mkOverlayPacketResult OvNotIpv4 0 0
      else let headerLength = unat (packet ! 0 AND 0x0f) * 4 in
      if headerLength < 20 \<or> headerLength > length packet then mkOverlayPacketResult OvInvalidHeaderLength 0 0
      else let totalLength = unat (push_bit 8 (ucast (packet ! 2)) OR ucast (packet ! 3) :: u16) in
      if totalLength < headerLength \<or> totalLength \<noteq> length packet
      then mkOverlayPacketResult OvInvalidTotalLength 0 0
      else if length packet > unat (normalizeRoomMtu (uint roomMtu)) then mkOverlayPacketResult OvExceedsMtu 0 0
      else mkOverlayPacketResult OvNone (readOverlayAddress (drop 12 packet)) (readOverlayAddress (drop 16 packet))))"

definition validateInboundOverlayIpv4 ::
  "bytes option \<Rightarrow> u16 \<Rightarrow> u32 \<Rightarrow> u32 \<Rightarrow> OverlayPacketResult" where
  "validateInboundOverlayIpv4 packet roomMtu expectedSource localAddress =
     (let result = validateOverlayIpv4Structure packet roomMtu in
      if \<not> overlayIsValid result then result
      else if expectedSource = 0 \<or> op_source result \<noteq> expectedSource
      then mkOverlayPacketResult OvInvalidSource (op_source result) (op_destination result)
      else if localAddress = 0 \<or>
         (op_destination result \<noteq> localAddress \<and> op_destination result \<noteq> VNET_BROADCAST \<and>
          op_destination result \<noteq> 0xffffffff)
      then mkOverlayPacketResult OvInvalidDestination (op_source result) (op_destination result)
      else result)"

definition validateOutboundOverlayIpv4 :: "bytes option \<Rightarrow> u16 \<Rightarrow> u32 \<Rightarrow> OverlayPacketResult" where
  "validateOutboundOverlayIpv4 packet roomMtu localAddress =
     (let result = validateOverlayIpv4Structure packet roomMtu in
      if \<not> overlayIsValid result then result
      else if localAddress = 0 \<or> op_source result \<noteq> localAddress
      then mkOverlayPacketResult OvInvalidSource (op_source result) (op_destination result)
      else result)"

section \<open>IPv4 helpers\<close>

definition extractDstIP :: "bytes \<Rightarrow> u32" where
  "extractDstIP ipPacket =
     (if length ipPacket < 20 then 0
      else let version = drop_bit 4 (ipPacket ! 0) AND 0x0F in
      if version \<noteq> 4 then 0
      else push_bit 24 (ucast (ipPacket ! 16)) OR push_bit 16 (ucast (ipPacket ! 17)) OR
           push_bit 8 (ucast (ipPacket ! 18)) OR ucast (ipPacket ! 19))"

definition extractSrcIP :: "bytes \<Rightarrow> u32" where
  "extractSrcIP ipPacket =
     (if length ipPacket < 20 then 0
      else let version = drop_bit 4 (ipPacket ! 0) AND 0x0F in
      if version \<noteq> 4 then 0
      else push_bit 24 (ucast (ipPacket ! 12)) OR push_bit 16 (ucast (ipPacket ! 13)) OR
           push_bit 8 (ucast (ipPacket ! 14)) OR ucast (ipPacket ! 15))"

definition isBroadcast :: "u32 \<Rightarrow> bool" where
  "isBroadcast ip \<longleftrightarrow> ip = 0xFFFFFFFF \<or> (ip AND 0x000000FF) = 0xFF"

section \<open>Facts\<close>

lemma drop_bit_4_and: "drop_bit 4 (x :: u8) AND 0x0F = drop_bit 4 x"
proof (rule bit_word_eqI)
  fix n
  have m: "(0x0F :: u8) = mask 4" by (simp add: mask_eq_exp_minus_1)
  show "bit (drop_bit 4 x AND 0x0F) n = bit (drop_bit 4 x) n"
    unfolding m using bit_imp_le_length [of x "4 + n"] by (auto simp: bit_simps)
qed

lemma structure_none_iff:
  "op_error (validateOverlayIpv4Structure (Some p) mtu) = OvNone \<longleftrightarrow>
     20 \<le> length p \<and> drop_bit 4 (p ! 0) = 4 \<and>
     20 \<le> unat (p ! 0 AND 0x0f) * 4 \<and> unat (p ! 0 AND 0x0f) * 4 \<le> length p \<and>
     unat (push_bit 8 (ucast (p ! 2)) OR ucast (p ! 3) :: u16) = length p \<and>
     length p \<le> unat (normalizeRoomMtu (uint mtu))"
  by (auto simp: validateOverlayIpv4Structure_def mkOverlayPacketResult_def Let_def)

lemma structure_addresses:
  assumes "op_error (validateOverlayIpv4Structure (Some p) mtu) = OvNone"
  shows "op_source (validateOverlayIpv4Structure (Some p) mtu) = extractSrcIP p"
    and "op_destination (validateOverlayIpv4Structure (Some p) mtu) = extractDstIP p"
proof -
  note c = assms [unfolded structure_none_iff]
  have v: "validateOverlayIpv4Structure (Some p) mtu =
      mkOverlayPacketResult OvNone (readOverlayAddress (drop 12 p)) (readOverlayAddress (drop 16 p))"
    using c by (simp add: validateOverlayIpv4Structure_def Let_def)
  show "op_source (validateOverlayIpv4Structure (Some p) mtu) = extractSrcIP p"
    and "op_destination (validateOverlayIpv4Structure (Some p) mtu) = extractDstIP p"
    using c unfolding v
    by (simp_all add: mkOverlayPacketResult_def readOverlayAddress_def extractSrcIP_def extractDstIP_def
        drop_bit_4_and)
qed

lemma inbound_rule:
  "overlayIsValid (validateInboundOverlayIpv4 (Some p) mtu src local) \<longleftrightarrow>
     op_error (validateOverlayIpv4Structure (Some p) mtu) = OvNone \<and>
     src \<noteq> 0 \<and> extractSrcIP p = src \<and>
     local \<noteq> 0 \<and> extractDstIP p \<in> {local, VNET_BROADCAST, 0xffffffff}"
proof (cases "op_error (validateOverlayIpv4Structure (Some p) mtu) = OvNone")
  case True
  show ?thesis
    using structure_addresses [OF True] True
    by (auto simp: validateInboundOverlayIpv4_def Let_def overlayIsValid_def mkOverlayPacketResult_def)
next
  case False
  then show ?thesis
    by (simp add: validateInboundOverlayIpv4_def Let_def overlayIsValid_def)
qed


lemma validateOutbound_iff:
  "overlayIsValid (validateOutboundOverlayIpv4 (Some p) mtu local) \<longleftrightarrow>
     op_error (validateOverlayIpv4Structure (Some p) mtu) = OvNone \<and>
     local \<noteq> 0 \<and> extractSrcIP p = local"
proof (cases "op_error (validateOverlayIpv4Structure (Some p) mtu) = OvNone")
  case True
  show ?thesis
    using structure_addresses [OF True] True
    by (auto simp: validateOutboundOverlayIpv4_def Let_def overlayIsValid_def mkOverlayPacketResult_def)
next
  case False
  then show ?thesis
    by (simp add: validateOutboundOverlayIpv4_def Let_def overlayIsValid_def)
qed

text \<open>
  C36. What one member sends, the addressed member accepts: a packet that passes the outbound
  check of a member is accepted by the inbound check of every member that knows the sender's
  lease and is either the destination or receives a broadcast; a member with another lease for
  the sender rejects it as \<open>OvInvalidSource\<close>.
\<close>

theorem outbound_then_inbound:
  assumes "overlayIsValid (validateOutboundOverlayIpv4 (Some p) mtu sender)" and "receiver \<noteq> 0"
  shows "(overlayIsValid (validateInboundOverlayIpv4 (Some p) mtu sender receiver) \<longleftrightarrow>
           extractDstIP p \<in> {receiver, VNET_BROADCAST, 0xffffffff}) \<and>
     (\<forall>other. other \<noteq> sender \<longrightarrow>
           op_error (validateInboundOverlayIpv4 (Some p) mtu other receiver) = OvInvalidSource)"
proof -
  note v = assms(1) [unfolded validateOutbound_iff]
  have "op_error (validateInboundOverlayIpv4 (Some p) mtu other receiver) = OvInvalidSource"
    if "other \<noteq> sender" for other
    using that v structure_addresses(1) [of p mtu]
    by (simp add: validateInboundOverlayIpv4_def Let_def overlayIsValid_def mkOverlayPacketResult_def)
  with v assms(2) show ?thesis by (simp add: inbound_rule)
qed

definition sample_packet :: bytes where
  "sample_packet = [0x45, 0, 0, 21, 0, 0, 0, 0, 64, 17, 0, 0, 10, 10, 0, 2, 10, 10, 0, 3, 99]"

theorem outbound_then_inbound_witness:
  "overlayIsValid (validateInboundOverlayIpv4 (Some sample_packet) 1400 0x0A0A0002 0x0A0A0003)"
proof -
  have "overlayIsValid (validateOutboundOverlayIpv4 (Some sample_packet) 1400 0x0A0A0002)"
    by code_simp
  moreover have "extractDstIP sample_packet = 0x0A0A0003"
    by code_simp
  ultimately show ?thesis
    using outbound_then_inbound [of sample_packet 1400 "0x0A0A0002" "0x0A0A0003"] by simp
qed

end
