(* ===== verification/Secure_Frame.thy ===== *)
theory Secure_Frame
  imports Byte_Buffer
begin

text \<open>
  Password hashing and key derivation (\<^verbatim>\<open>common/payload_cipher.h\<close>) and the authenticated
  frames with their replay window (\<^verbatim>\<open>common/secure_frame.h\<close>).  The primitives of the bundled
  Monocypher library are the fields of the record \<open>crypto\<close>, an argument of every definition
  that calls them; what a theorem relies on is a named predicate on that record.
\<close>

section \<open>The cryptographic library\<close>

record crypto =
  cr_blake2b :: "nat \<Rightarrow> bytes \<Rightarrow> bytes"
  cr_blake2b_keyed :: "nat \<Rightarrow> bytes \<Rightarrow> bytes \<Rightarrow> bytes"
  cr_x25519 :: "bytes \<Rightarrow> bytes \<Rightarrow> bytes"
  cr_x25519_public_key :: "bytes \<Rightarrow> bytes"
  cr_aead_lock :: "bytes \<Rightarrow> bytes \<Rightarrow> bytes \<Rightarrow> bytes \<Rightarrow> bytes \<times> bytes"
  cr_aead_unlock :: "bytes \<Rightarrow> bytes \<Rightarrow> bytes \<Rightarrow> bytes \<Rightarrow> bytes \<Rightarrow> bytes option"
  cr_argon2 :: "nat \<Rightarrow> nat \<Rightarrow> nat \<Rightarrow> bytes \<Rightarrow> bytes \<Rightarrow> bytes"

text \<open>
  The documented behaviour of \<^verbatim>\<open>crypto_aead_lock\<close>/\<^verbatim>\<open>crypto_aead_unlock\<close>: the cipher text is as
  long as the plain text, the tag has 16 bytes, and unlocking what was locked with the same
  key, nonce and additional data gives the plain text back.
\<close>

definition aead_correct :: "crypto \<Rightarrow> bool" where
  "aead_correct C \<longleftrightarrow>
     (\<forall>k n ad p. case cr_aead_lock C k n ad p of (c, m) \<Rightarrow>
        length c = length p \<and> length m = 16 \<and> cr_aead_unlock C k n ad m c = Some p)"

definition ascii :: "string \<Rightarrow> bytes" where
  "ascii s = map of_char s"

section \<open>Password hashing\<close>

abbreviation (input) CIPHER_KEY_SIZE :: nat where "CIPHER_KEY_SIZE \<equiv> 32"
abbreviation (input) ARGON2_NB_BLOCKS :: nat where "ARGON2_NB_BLOCKS \<equiv> 19456"
abbreviation (input) ARGON2_NB_PASSES :: nat where "ARGON2_NB_PASSES \<equiv> 2"
abbreviation (input) ARGON2_NB_LANES :: nat where "ARGON2_NB_LANES \<equiv> 1"

definition ARGON2_AUTH_SALT :: bytes where
  "ARGON2_AUTH_SALT = ascii ''VLan-auth-saltv1''"

text \<open>
  \<open>workOk\<close> says whether the allocator returned a work area; the result is the return value and
  the contents of \<^verbatim>\<open>out\<close>.  A null \<^verbatim>\<open>password\<close> or \<^verbatim>\<open>salt\<close> is \<open>None\<close>.
\<close>

definition computeIntermediateWithAllocator ::
  "crypto \<Rightarrow> bool \<Rightarrow> bytes option \<Rightarrow> nat \<Rightarrow> bytes option \<Rightarrow> u8 \<Rightarrow> bool \<times> bytes" where
  "computeIntermediateWithAllocator C workOk password pwdLen salt profile =
     (if salt = None \<or> profile \<noteq> AUTH_KDF_PROFILE \<or> (pwdLen > 0 \<and> password = None) \<or> pwdLen > 2 ^ 32 - 1
      then (False, replicate CIPHER_KEY_SIZE 0)
      else if \<not> workOk then (False, replicate CIPHER_KEY_SIZE 0)
      else (True, cr_argon2 C ARGON2_NB_BLOCKS ARGON2_NB_PASSES ARGON2_NB_LANES
                    (case password of None \<Rightarrow> [] | Some p \<Rightarrow> take pwdLen p) (take 16 (the salt))))"

definition authHashFromIntermediate :: "crypto \<Rightarrow> bytes \<Rightarrow> bytes" where
  "authHashFromIntermediate C intermediate =
     cr_blake2b_keyed C CIPHER_KEY_SIZE intermediate (ascii ''VLan-auth-hash'')"

definition hashPassword :: "crypto \<Rightarrow> bool \<Rightarrow> bytes \<Rightarrow> bool \<times> bytes" where
  "hashPassword C workOk password =
     (case computeIntermediateWithAllocator C workOk (Some password) (length password)
             (Some ARGON2_AUTH_SALT) AUTH_KDF_PROFILE of
        (ok, intermediate) \<Rightarrow>
          if \<not> ok then (False, replicate CIPHER_KEY_SIZE 0)
          else (True, authHashFromIntermediate C intermediate))"

definition hashPasswordSalted :: "crypto \<Rightarrow> bool \<Rightarrow> bytes \<Rightarrow> bytes \<Rightarrow> u8 \<Rightarrow> bool \<times> bytes" where
  "hashPasswordSalted C workOk password salt profile =
     (case computeIntermediateWithAllocator C workOk (Some password) (length password) (Some salt) profile of
        (ok, intermediate) \<Rightarrow>
          if \<not> ok then (False, replicate CIPHER_KEY_SIZE 0)
          else (True, authHashFromIntermediate C intermediate))"

definition computeChallengeResponse :: "crypto \<Rightarrow> bytes \<Rightarrow> bytes \<Rightarrow> bytes" where
  "computeChallengeResponse C authHash challenge = cr_blake2b_keyed C CIPHER_KEY_SIZE authHash challenge"

section \<open>Randomness and key derivation\<close>

abbreviation (input) SECURE_KEY_SIZE :: nat where "SECURE_KEY_SIZE \<equiv> 32"
abbreviation (input) SECURE_NONCE_SIZE :: nat where "SECURE_NONCE_SIZE \<equiv> 24"
abbreviation (input) SECURE_MAC_SIZE :: nat where "SECURE_MAC_SIZE \<equiv> 16"
abbreviation (input) SECURE_COUNTER_SIZE :: nat where "SECURE_COUNTER_SIZE \<equiv> 8"
abbreviation (input) SECURE_SESSION_ID_SIZE :: nat where "SECURE_SESSION_ID_SIZE \<equiv> 4"
abbreviation (input) SECURE_FRAME_OVERHEAD :: nat where "SECURE_FRAME_OVERHEAD \<equiv> 24"
abbreviation (input) SERVER_AUTH_TIMEOUT_SEC :: int where "SERVER_AUTH_TIMEOUT_SEC \<equiv> 120"

text \<open>A provider answers a request for \<open>len\<close> bytes with the bytes or fails.\<close>

definition secureRandomBytesWithProvider :: "nat \<Rightarrow> (nat \<Rightarrow> bytes option) option \<Rightarrow> bool \<times> bytes" where
  "secureRandomBytesWithProvider len provider =
     (case provider of
        Some f \<Rightarrow> (case f len of Some bs \<Rightarrow> (True, bs) | None \<Rightarrow> (False, replicate len 0))
      | None \<Rightarrow> (False, replicate len 0))"

definition readU32BE :: "bytes \<Rightarrow> u32" where
  "readU32BE p =
     push_bit 24 (ucast (p ! 0)) OR push_bit 16 (ucast (p ! 1)) OR push_bit 8 (ucast (p ! 2)) OR ucast (p ! 3)"

definition readU64BE :: "bytes \<Rightarrow> u64" where
  "readU64BE p = fold (\<lambda>i v. push_bit 8 v OR ucast (p ! i)) [0..<8] 0"

text \<open>The loop fills \<^verbatim>\<open>p[7]\<close> down to \<^verbatim>\<open>p[0]\<close>, shifting \<^verbatim>\<open>v\<close> right by a byte each time.\<close>

fun writeU64BE_loop :: "nat \<Rightarrow> u64 \<Rightarrow> bytes \<Rightarrow> bytes" where
  "writeU64BE_loop 0 v acc = acc"
| "writeU64BE_loop (Suc i) v acc = writeU64BE_loop i (drop_bit 8 v) (ucast (v AND 0xFF) # acc)"

definition writeU64BE :: "u64 \<Rightarrow> bytes" where
  "writeU64BE v = writeU64BE_loop 8 v []"

definition writeU32BE :: "u32 \<Rightarrow> bytes" where
  "writeU32BE v = [ucast (drop_bit 24 v AND 0xFF), ucast (drop_bit 16 v AND 0xFF),
                   ucast (drop_bit 8 v AND 0xFF), ucast (v AND 0xFF)]"

definition deriveSecureKey :: "crypto \<Rightarrow> bytes \<Rightarrow> bytes \<Rightarrow> bytes" where
  "deriveSecureKey C master domain = cr_blake2b_keyed C SECURE_KEY_SIZE master domain"

definition deriveSessionId :: "crypto \<Rightarrow> bytes \<Rightarrow> u32" where
  "deriveSessionId C master =
     (let tmp = deriveSecureKey C master (ascii ''VLan-session-id'');
          sid = readU32BE tmp
      in if sid = 0 then 1 else sid)"

definition deriveSecureMaster ::
  "crypto \<Rightarrow> bytes \<Rightarrow> bytes \<Rightarrow> bytes \<Rightarrow> bytes \<Rightarrow> bytes \<Rightarrow> bytes \<Rightarrow> bytes \<Rightarrow> u8 \<Rightarrow> bytes" where
  "deriveSecureMaster C sharedSecret authHash clientNonce serverNonce clientPub serverPub salt profile =
     cr_blake2b C SECURE_KEY_SIZE
       (ascii ''VLan-secure-master-v9'' @
        [ucast (drop_bit 8 PROTOCOL_VERSION), ucast PROTOCOL_VERSION] @ [profile] @
        salt @ sharedSecret @ authHash @ clientNonce @ serverNonce @ clientPub @ serverPub)"

text \<open>\<^verbatim>\<open>crypto_verify32\<close> is 0 exactly on equal buffers.\<close>

definition crypto_verify32 :: "bytes \<Rightarrow> bytes \<Rightarrow> int" where
  "crypto_verify32 a b = (if a = b then 0 else -1)"

definition validX25519Shared :: "bytes \<Rightarrow> bool" where
  "validX25519Shared shared \<longleftrightarrow> crypto_verify32 shared (replicate 32 0) \<noteq> 0"

definition computeClientAuthProof :: "crypto \<Rightarrow> bytes \<Rightarrow> bytes \<Rightarrow> bytes" where
  "computeClientAuthProof C master authHash = cr_blake2b_keyed C SECURE_KEY_SIZE authHash master"

definition computeServerAuthProof :: "crypto \<Rightarrow> bytes \<Rightarrow> bytes \<Rightarrow> bytes" where
  "computeServerAuthProof C master authHash =
     cr_blake2b_keyed C SECURE_KEY_SIZE authHash (ascii ''VLan-server-proof'' @ master)"

section \<open>The frame cipher\<close>

record SecureFrameCipher =
  sc_sendKey :: bytes
  sc_recvKey :: bytes
  sc_sendNonceSeed :: bytes
  sc_recvNonceSeed :: bytes
  sc_sendCounter :: u64
  sc_recvMaxCounter :: u64
  sc_recvStarted :: bool
  sc_initialized :: bool
  sc_replayBitmap :: bytes

abbreviation (input) REPLAY_WINDOW :: u64 where "REPLAY_WINDOW \<equiv> 2048"

definition newCipher :: SecureFrameCipher where
  "newCipher = \<lparr>sc_sendKey = replicate 32 0, sc_recvKey = replicate 32 0,
     sc_sendNonceSeed = replicate 16 0, sc_recvNonceSeed = replicate 16 0,
     sc_sendCounter = 0, sc_recvMaxCounter = 0, sc_recvStarted = False, sc_initialized = False,
     sc_replayBitmap = replicate 256 0\<rparr>"

definition resetCipher :: "SecureFrameCipher \<Rightarrow> SecureFrameCipher" where
  "resetCipher c = c\<lparr>sc_sendKey := replicate 32 0, sc_recvKey := replicate 32 0,
     sc_sendNonceSeed := replicate 16 0, sc_recvNonceSeed := replicate 16 0,
     sc_replayBitmap := replicate 256 0,
     sc_sendCounter := 0, sc_recvMaxCounter := 0, sc_recvStarted := False, sc_initialized := False\<rparr>"

definition initCipher ::
  "crypto \<Rightarrow> bytes \<Rightarrow> bool \<Rightarrow> string \<Rightarrow> SecureFrameCipher \<Rightarrow> SecureFrameCipher" where
  "initCipher C master clientSide context c =
     (let prefix = ascii ''VLan-'' @ ascii context;
          c2s = deriveSecureKey C master (prefix @ ascii ''-c2s-key'');
          s2c = deriveSecureKey C master (prefix @ ascii ''-s2c-key'');
          c2sNonce = deriveSecureKey C master (prefix @ ascii ''-c2s-nonce'');
          s2cNonce = deriveSecureKey C master (prefix @ ascii ''-s2c-nonce'');
          sendKey = (if clientSide then c2s else s2c);
          recvKey = (if clientSide then s2c else c2s) in
      if sc_initialized c \<and> crypto_verify32 (sc_sendKey c) sendKey = 0 \<and>
         crypto_verify32 (sc_recvKey c) recvKey = 0
      then c
      else let c = resetCipher c;
               c = c\<lparr>sc_initialized := True\<rparr>;
               c = (if clientSide
                    then c\<lparr>sc_sendKey := c2s, sc_recvKey := s2c,
                           sc_sendNonceSeed := take 16 c2sNonce, sc_recvNonceSeed := take 16 s2cNonce\<rparr>
                    else c\<lparr>sc_sendKey := s2c, sc_recvKey := c2s,
                           sc_sendNonceSeed := take 16 s2cNonce, sc_recvNonceSeed := take 16 c2sNonce\<rparr>)
           in c\<lparr>sc_sendCounter := 0, sc_recvMaxCounter := 0, sc_recvStarted := False,
                sc_replayBitmap := replicate 256 0\<rparr>)"

definition buildNonce :: "bytes \<Rightarrow> u64 \<Rightarrow> bytes" where
  "buildNonce seed counter = writeU64BE counter @ seed"

definition encryptFrame :: "crypto \<Rightarrow> bytes \<Rightarrow> bytes \<Rightarrow> SecureFrameCipher \<Rightarrow> bytes \<times> SecureFrameCipher" where
  "encryptFrame C plain ad c =
     (if \<not> sc_initialized c \<or> sc_sendCounter c = -1 then ([], c)
      else let ctr = sc_sendCounter c;
               c = c\<lparr>sc_sendCounter := sc_sendCounter c + 1\<rparr>;
               nonce = buildNonce (sc_sendNonceSeed c) ctr
           in case cr_aead_lock C (sc_sendKey c) nonce ad plain of
                (cipher, mac) \<Rightarrow> (writeU64BE ctr @ cipher @ mac, c))"

subsection \<open>The replay window\<close>

definition bitmapGet :: "bytes \<Rightarrow> nat \<Rightarrow> bool" where
  "bitmapGet bm pos \<longleftrightarrow> bm ! (pos div 8) AND push_bit (pos mod 8) 1 \<noteq> 0"

definition bitmapSet :: "nat \<Rightarrow> bytes \<Rightarrow> bytes" where
  "bitmapSet pos bm = bm[pos div 8 := bm ! (pos div 8) OR push_bit (pos mod 8) 1]"

definition bitmapClear :: "nat \<Rightarrow> bytes \<Rightarrow> bytes" where
  "bitmapClear pos bm = bm[pos div 8 := bm ! (pos div 8) AND NOT (push_bit (pos mod 8) 1)]"

definition recordCounter :: "u64 \<Rightarrow> SecureFrameCipher \<Rightarrow> bool \<times> SecureFrameCipher" where
  "recordCounter ctr c =
     (let tooOld = (sc_recvStarted c \<and> \<not> ctr > sc_recvMaxCounter c \<and>
                    sc_recvMaxCounter c - ctr \<ge> REPLAY_WINDOW);
          c' = (if \<not> sc_recvStarted c
                then c\<lparr>sc_recvStarted := True, sc_recvMaxCounter := ctr, sc_replayBitmap := replicate 256 0\<rparr>
                else if ctr > sc_recvMaxCounter c
                then let shift = ctr - sc_recvMaxCounter c;
                         bm = (if shift \<ge> REPLAY_WINDOW then replicate 256 0
                               else fold (\<lambda>i. bitmapClear (unat ((sc_recvMaxCounter c + of_nat i) mod REPLAY_WINDOW)))
                                      [1..<Suc (unat shift)] (sc_replayBitmap c))
                     in c\<lparr>sc_replayBitmap := bm, sc_recvMaxCounter := ctr\<rparr>
                else c) in
      if tooOld then (False, c)
      else let pos = unat (ctr mod REPLAY_WINDOW) in
        if bitmapGet (sc_replayBitmap c') pos then (False, c')
        else (True, c'\<lparr>sc_replayBitmap := bitmapSet pos (sc_replayBitmap c')\<rparr>))"

definition isCounterAllowed :: "u64 \<Rightarrow> SecureFrameCipher \<Rightarrow> bool" where
  "isCounterAllowed ctr c =
     (if \<not> sc_recvStarted c then True
      else if ctr > sc_recvMaxCounter c then True
      else if sc_recvMaxCounter c - ctr \<ge> REPLAY_WINDOW then False
      else \<not> bitmapGet (sc_replayBitmap c) (unat (ctr mod REPLAY_WINDOW)))"

text \<open>The result is \<open>None\<close> where \<^verbatim>\<open>decrypt\<close> returns false, and the plain text otherwise.\<close>

definition decryptFrame ::
  "crypto \<Rightarrow> bytes \<Rightarrow> bytes \<Rightarrow> SecureFrameCipher \<Rightarrow> bytes option \<times> SecureFrameCipher" where
  "decryptFrame C frame ad c =
     (if \<not> sc_initialized c \<or> length frame < SECURE_FRAME_OVERHEAD then (None, c)
      else let ctr = readU64BE frame in
      if \<not> isCounterAllowed ctr c then (None, c)
      else let cipherLen = length frame - SECURE_COUNTER_SIZE - SECURE_MAC_SIZE;
               cipher = take cipherLen (drop SECURE_COUNTER_SIZE frame);
               mac = drop cipherLen (drop SECURE_COUNTER_SIZE frame);
               nonce = buildNonce (sc_recvNonceSeed c) ctr in
        case cr_aead_unlock C (sc_recvKey c) nonce ad mac cipher of
          None \<Rightarrow> (None, c)
        | Some plain \<Rightarrow> (Some plain, snd (recordCounter ctr c)))"

section \<open>Byte-order facts\<close>

lemma writeU64BE_be64: "writeU64BE v = be64 v"
  by (simp add: writeU64BE_def be64_def numeral_eq_Suc)

section \<open>The replay window, as a set of accepted counters\<close>

lemma bitmapGet_bit: "bitmapGet bm pos = bit (bm ! (pos div 8)) (pos mod 8)"
proof -
  have "pos mod 8 < 8" by simp
  then have "(x AND push_bit (pos mod 8) 1 = 0) = (\<not> bit x (pos mod 8))" for x :: u8
    by (simp add: push_bit_eq_mult and_exp_eq_0_iff_not_bit)
  then show ?thesis by (simp add: bitmapGet_def)
qed

lemma same_slot: "(p::nat) div 8 = q div 8 \<Longrightarrow> p mod 8 = q mod 8 \<Longrightarrow> p = q"
  by (metis div_mult_mod_eq)

lemma bitmapGet_set:
  assumes "length bm = 256" "p < 2048" "q < 2048"
  shows "bitmapGet (bitmapSet p bm) q = (q = p \<or> bitmapGet bm q)"
  using assms same_slot [of q p]
  by (auto simp: bitmapGet_bit bitmapSet_def nth_list_update bit_simps)

lemma bitmapGet_clear:
  assumes "length bm = 256" "p < 2048" "q < 2048"
  shows "bitmapGet (bitmapClear p bm) q = (q \<noteq> p \<and> bitmapGet bm q)"
  using assms same_slot [of q p]
  by (auto simp: bitmapGet_bit bitmapClear_def nth_list_update bit_simps)

lemma length_bitmap_ops [simp]: "length (bitmapSet p bm) = length bm" "length (bitmapClear p bm) = length bm"
  by (simp_all add: bitmapSet_def bitmapClear_def)

lemma length_fold_clear [simp]: "length (fold (\<lambda>i. bitmapClear (f i)) is bm) = length bm"
  by (induction "is" arbitrary: bm) auto

lemma bitmapGet_fold_clear:
  assumes "length bm = 256" "q < 2048" "\<And>i. i \<in> set is \<Longrightarrow> f i < 2048"
  shows "bitmapGet (fold (\<lambda>i. bitmapClear (f i)) is bm) q = (q \<notin> f ` set is \<and> bitmapGet bm q)"
  using assms by (induction "is" arbitrary: bm) (auto simp: bitmapGet_clear)

lemma bitmapGet_zero [simp]: "q < 2048 \<Longrightarrow> \<not> bitmapGet (replicate 256 0) q"
  by (simp add: bitmapGet_bit)

lemma unat_mod_window: "unat (x mod (2048::u64)) = unat x mod 2048"
  by (simp add: unat_mod)


definition window_fresh :: "nat set \<Rightarrow> nat \<Rightarrow> bool" where
  "window_fresh acc n \<longleftrightarrow> n \<notin> acc \<and> (\<forall>m \<in> acc. m < n + 2048)"

definition window_rel :: "nat set \<Rightarrow> SecureFrameCipher \<Rightarrow> bool" where
  "window_rel acc c \<longleftrightarrow>
     length (sc_replayBitmap c) = 256 \<and>
     (if sc_recvStarted c
      then unat (sc_recvMaxCounter c) \<in> acc \<and> (\<forall>m \<in> acc. m \<le> unat (sc_recvMaxCounter c)) \<and>
           (\<forall>n. n \<le> unat (sc_recvMaxCounter c) \<and> unat (sc_recvMaxCounter c) < n + 2048 \<longrightarrow>
                bitmapGet (sc_replayBitmap c) (n mod 2048) = (n \<in> acc))
      else acc = {})"

lemma window_ge:
  assumes "y \<le> (x :: u64)"
  shows "(2048 \<le> x - y) = (unat y + 2048 \<le> unat x)"
proof -
  have "unat (2048 :: u64) = 2048" by simp
  moreover have "unat y \<le> unat x" using assms by (simp add: word_le_nat_alt)
  ultimately show ?thesis
    unfolding word_le_nat_alt unat_sub [OF assms] by linarith
qed

lemma isCounterAllowed_fresh:
  assumes "window_rel acc c"
  shows "isCounterAllowed ctr c \<longleftrightarrow> window_fresh acc (unat ctr)"
proof (cases "sc_recvStarted c")
  case started: True
  let ?m = "unat (sc_recvMaxCounter c)"
  have max: "?m \<in> acc" "\<And>m. m \<in> acc \<Longrightarrow> m \<le> ?m"
    and bits: "\<And>n. n \<le> ?m \<Longrightarrow> ?m < n + 2048 \<Longrightarrow> bitmapGet (sc_replayBitmap c) (n mod 2048) = (n \<in> acc)"
    using assms started by (auto simp: window_rel_def)
  show ?thesis
  proof (cases "ctr > sc_recvMaxCounter c")
    case True
    then have "?m < unat ctr" by (simp add: word_less_nat_alt)
    with started True max show ?thesis
      by (fastforce simp: isCounterAllowed_def window_fresh_def)
  next
    case False
    then have le: "unat ctr \<le> ?m" "ctr \<le> sc_recvMaxCounter c" by (simp_all add: word_le_nat_alt word_less_nat_alt)
    have "(\<forall>m \<in> acc. m < unat ctr + 2048) \<longleftrightarrow> ?m < unat ctr + 2048"
      using max by (meson le_less_trans)
    with le bits [of "unat ctr"] started False show ?thesis
      by (auto simp: isCounterAllowed_def window_fresh_def window_ge unat_mod_window)
  qed
qed (use assms in \<open>simp add: isCounterAllowed_def window_fresh_def window_rel_def\<close>)

lemma shifted_slot_distinct:
  fixes n k :: nat
  assumes "n < k" "k < n + 2048"
  shows "k mod 2048 \<noteq> n mod 2048"
proof
  assume "k mod 2048 = n mod 2048"
  then have "2048 dvd k - n" using assms(1) by (metis mod_eq_dvd_iff_nat less_imp_le)
  with assms show False using nat_dvd_not_less [of "k - n" 2048] by simp
qed

text \<open>The window after the highest counter moved from \<open>m\<close> to \<open>c > m\<close>.\<close>

lemma slid_window_bits:
  fixes m ctr :: u64
  assumes gt: "m < ctr" and len: "length bm = 256"
    and bits: "\<And>n. n \<le> unat m \<Longrightarrow> unat m < n + 2048 \<Longrightarrow> bitmapGet bm (n mod 2048) = (n \<in> acc)"
    and max: "\<And>x. x \<in> acc \<Longrightarrow> x \<le> unat m"
    and n: "n \<le> unat ctr" "unat ctr < n + 2048"
  defines "bm' \<equiv> if ctr - m \<ge> 2048 then replicate 256 0
      else fold (\<lambda>i. bitmapClear (unat ((m + of_nat i) mod 2048))) [1..<Suc (unat (ctr - m))] bm"
  shows "bitmapGet bm' (n mod 2048) = (n \<in> acc)"
proof (cases "ctr - m \<ge> 2048")
  case True
  then have "unat m + 2048 \<le> unat ctr" using gt by (simp add: window_ge)
  with n max have "n \<notin> acc" by fastforce
  with True show ?thesis by (simp add: bm'_def)
next
  case False
  have lt: "unat m < unat ctr" using gt by (simp add: word_less_nat_alt)
  have d: "unat (ctr - m) = unat ctr - unat m" using gt by (simp add: unat_sub)
  have slot: "unat ((m + of_nat i) mod 2048) = (unat m + i) mod 2048" if "i \<in> set [1..<Suc (unat (ctr - m))]" for i
  proof -
    have "unat m + i \<le> unat ctr" using that lt d by auto
    then have "unat m + i < 2 ^ 64" using unsigned_less [of ctr, where ?'a = nat] by simp
    then have "unat (m + of_nat i) = unat m + i" by (simp add: unat_word_ariths take_bit_nat_def unat_of_nat)
    then show ?thesis by (simp only: unat_mod_window)
  qed
  have cleared: "(n mod 2048 \<in> (\<lambda>i. unat ((m + of_nat i) mod 2048)) ` set [1..<Suc (unat (ctr - m))]) = (unat m < n)"
  proof
    assume "unat m < n"
    then have "n - unat m \<in> set [1..<Suc (unat (ctr - m))]" using n d lt by auto
    then show "n mod 2048 \<in> (\<lambda>i. unat ((m + of_nat i) mod 2048)) ` set [1..<Suc (unat (ctr - m))]"
      using slot [of "n - unat m"] \<open>unat m < n\<close> by (intro image_eqI [of _ _ "n - unat m"]) (simp_all only:, simp)
  next
    assume "n mod 2048 \<in> (\<lambda>i. unat ((m + of_nat i) mod 2048)) ` set [1..<Suc (unat (ctr - m))]"
    then obtain i where i: "i \<in> set [1..<Suc (unat (ctr - m))]" "n mod 2048 = (unat m + i) mod 2048"
      using slot by auto
    show "unat m < n"
      using shifted_slot_distinct [of n "unat m + i"] i n d lt by fastforce
  qed
  have "bitmapGet bm' (n mod 2048) = (\<not> unat m < n \<and> bitmapGet bm (n mod 2048))"
    using False unfolding bm'_def cleared [symmetric]
    by (simp only: if_False) (rule bitmapGet_fold_clear [OF len], auto simp: unat_mod_window)
  then show ?thesis using bits [of n] max [of n] n lt by auto
qed

lemma recordCounter_rel:
  assumes R: "window_rel acc c" and A: "isCounterAllowed ctr c"
  shows "fst (recordCounter ctr c) \<and> window_rel (insert (unat ctr) acc) (snd (recordCounter ctr c))"
proof -
  have fresh: "window_fresh acc (unat ctr)" using isCounterAllowed_fresh [OF R] A by simp
  have len: "length (sc_replayBitmap c) = 256" using R by (simp add: window_rel_def)
  show ?thesis
  proof (cases "sc_recvStarted c")
    case False
    with R have "acc = {}" by (simp add: window_rel_def)
    moreover have "n mod 2048 = unat ctr mod 2048 \<longleftrightarrow> n = unat ctr" if "n \<le> unat ctr" "unat ctr < n + 2048" for n
      using shifted_slot_distinct [of n "unat ctr"] that by (cases "n = unat ctr") fastforce+
    ultimately show ?thesis using False
      by (simp add: recordCounter_def window_rel_def bitmapGet_set unat_mod_window)
  next
    case started: True
    let ?m = "sc_recvMaxCounter c"
    have max: "unat ?m \<in> acc" "\<And>m. m \<in> acc \<Longrightarrow> m \<le> unat ?m"
      and bits: "\<And>n. n \<le> unat ?m \<Longrightarrow> unat ?m < n + 2048 \<Longrightarrow> bitmapGet (sc_replayBitmap c) (n mod 2048) = (n \<in> acc)"
      using R started by (auto simp: window_rel_def)
    have slot: "n mod 2048 = unat ctr mod 2048 \<longleftrightarrow> n = unat ctr"
      if "n < unat ctr + 2048" "unat ctr < n + 2048" for n
      using shifted_slot_distinct [of n "unat ctr"] shifted_slot_distinct [of "unat ctr" n] that
      by (cases n "unat ctr" rule: linorder_cases) fastforce+
    show ?thesis
    proof (cases "ctr > ?m")
      case True
      then have lt: "unat ?m < unat ctr" by (simp add: word_less_nat_alt)
      note sb = slid_window_bits [OF True len bits max(2)]
      have "m \<le> unat ctr" if "m \<in> acc" for m using max(2) [OF that] lt by simp
      then show ?thesis
        using started True lt max fresh len slot sb
        by (auto simp: recordCounter_def window_rel_def Let_def bitmapGet_set unat_mod_window window_fresh_def)
    next
      case False
      then have le: "unat ctr \<le> unat ?m" "ctr \<le> ?m" by (simp_all add: word_le_nat_alt word_less_nat_alt)
      have "?m - ctr < 2048" "unat ctr \<notin> acc" "unat ?m < unat ctr + 2048"
        using A started False fresh max by (auto simp: isCounterAllowed_def window_fresh_def not_le split: if_splits)
      then show ?thesis
        using started False le max bits len slot
        by (auto simp: recordCounter_def window_rel_def Let_def bitmapGet_set unat_mod_window not_le)
    qed
  qed
qed
subsection \<open>Traces of a cipher\<close>

fun receive :: "crypto \<Rightarrow> SecureFrameCipher \<Rightarrow> (bytes \<times> bytes) list \<Rightarrow> bytes option list \<times> SecureFrameCipher" where
  "receive C c [] = ([], c)"
| "receive C c ((frame, ad) # fs) =
     (case decryptFrame C frame ad c of (r, c') \<Rightarrow>
        case receive C c' fs of (rs, c'') \<Rightarrow> (r # rs, c''))"

definition accepted :: "(bytes \<times> bytes) list \<Rightarrow> bytes option list \<Rightarrow> nat list" where
  "accepted fs rs = map (\<lambda>(f, r). unat (readU64BE (fst f))) (filter (\<lambda>(f, r). r \<noteq> None) (zip fs rs))"

datatype send_event = Encrypt bytes bytes | Reinit

fun transmit :: "crypto \<Rightarrow> bytes \<Rightarrow> bool \<Rightarrow> string \<Rightarrow> SecureFrameCipher \<Rightarrow> send_event list \<Rightarrow> bytes list" where
  "transmit C master side ctx c [] = []"
| "transmit C master side ctx c (Encrypt plain ad # es) =
     (case encryptFrame C plain ad c of (f, c') \<Rightarrow> f # transmit C master side ctx c' es)"
| "transmit C master side ctx c (Reinit # es) =
     transmit C master side ctx (initCipher C master side ctx c) es"

lemma decryptFrame_spec:
  fixes frame ad :: bytes
  assumes "window_rel acc c" "sc_initialized c"
  defines "ctr \<equiv> unat (readU64BE frame)"
  shows "fst (decryptFrame C frame ad c) =
      (if 24 \<le> length frame \<and> window_fresh acc ctr
       then cr_aead_unlock C (sc_recvKey c) (buildNonce (sc_recvNonceSeed c) (readU64BE frame)) ad
              (drop (length frame - 16) frame) (take (length frame - 24) (drop 8 frame))
       else None)" (is ?A)
    and "window_rel (if fst (decryptFrame C frame ad c) \<noteq> None then insert ctr acc else acc)
           (snd (decryptFrame C frame ad c))" (is ?B)
proof -
  show ?A
    using assms(2) isCounterAllowed_fresh [OF assms(1), of "readU64BE frame"]
    by (simp add: decryptFrame_def Let_def ctr_def add.commute split: option.split)
  show ?B
    using assms(1,2) recordCounter_rel [OF assms(1), of "readU64BE frame"]
    by (auto simp: decryptFrame_def Let_def ctr_def split: option.splits)
qed

lemma recordCounter_keeps:
  "sc_initialized (snd (recordCounter ctr c)) = sc_initialized c"
  "sc_recvKey (snd (recordCounter ctr c)) = sc_recvKey c"
  "sc_recvNonceSeed (snd (recordCounter ctr c)) = sc_recvNonceSeed c"
  by (simp_all add: recordCounter_def Let_def)

lemma decryptFrame_keeps [simp]:
  "sc_initialized (snd (decryptFrame C frame ad c)) = sc_initialized c"
  "sc_recvKey (snd (decryptFrame C frame ad c)) = sc_recvKey c"
  "sc_recvNonceSeed (snd (decryptFrame C frame ad c)) = sc_recvNonceSeed c"
  by (simp_all add: decryptFrame_def Let_def recordCounter_keeps split: option.split)

lemma accepted_Nil [simp]: "accepted [] rs = []"
  by (simp add: accepted_def)

lemma accepted_Cons [simp]:
  "accepted (f # fs) (r # rs) =
     (if r \<noteq> None then unat (readU64BE (fst f)) # accepted fs rs else accepted fs rs)"
  by (simp add: accepted_def)

lemma receive_rel:
  assumes "window_rel acc c" "sc_initialized c" "receive C c fs = (rs, c')"
  shows "window_rel (acc \<union> set (accepted fs rs)) c' \<and> sc_initialized c' \<and>
         sc_recvKey c' = sc_recvKey c \<and> sc_recvNonceSeed c' = sc_recvNonceSeed c \<and>
         distinct (accepted fs rs) \<and> set (accepted fs rs) \<inter> acc = {}"
  using assms
proof (induction fs arbitrary: acc c rs)
  case (Cons fa fs)
  obtain frame ad where fa: "fa = (frame, ad)" by fastforce
  obtain r c1 where d: "decryptFrame C frame ad c = (r, c1)" by fastforce
  obtain rs1 where r1: "receive C c1 fs = (rs1, c')" "rs = r # rs1"
    using Cons.prems(3) by (auto simp: fa d split: prod.splits)
  let ?ctr = "unat (readU64BE frame)"
  let ?acc1 = "if r \<noteq> None then insert ?ctr acc else acc"
  have w: "window_rel ?acc1 c1" "r \<noteq> None \<Longrightarrow> ?ctr \<notin> acc"
    using decryptFrame_spec [OF Cons.prems(1,2), of C frame ad] d
    by (auto simp: window_fresh_def split: if_splits)
  have "sc_initialized c1 \<and> sc_recvKey c1 = sc_recvKey c \<and> sc_recvNonceSeed c1 = sc_recvNonceSeed c"
    using decryptFrame_keeps [of C frame ad c] d Cons.prems(2) by simp
  with Cons.IH [OF w(1) _ r1(1)] w(2) r1(2) show ?case
    by (auto simp: fa)
qed simp

lemma initCipher_fresh:
  "window_rel {} (initCipher C master side ctx newCipher)"
  "sc_initialized (initCipher C master side ctx newCipher)"
  "sc_sendCounter (initCipher C master side ctx newCipher) = 0"
  by (simp_all add: initCipher_def Let_def newCipher_def window_rel_def resetCipher_def)


subsection \<open>Sending\<close>

lemma encryptFrame_cases:
  obtains "sc_sendCounter c = -1 \<or> \<not> sc_initialized c" "encryptFrame C plain ad c = ([], c)"
  | cipher where "sc_sendCounter c \<noteq> -1" "sc_initialized c"
      "encryptFrame C plain ad c =
         (be64 (sc_sendCounter c) @ cipher, c\<lparr>sc_sendCounter := sc_sendCounter c + 1\<rparr>)"
  by (cases "sc_sendCounter c = -1 \<or> \<not> sc_initialized c")
     (auto simp: encryptFrame_def Let_def writeU64BE_be64 case_prod_unfold)

lemma initCipher_idle:
  assumes "sc_initialized c"
    "sc_sendKey c = sc_sendKey (initCipher C master side ctx newCipher)"
    "sc_recvKey c = sc_recvKey (initCipher C master side ctx newCipher)"
  shows "initCipher C master side ctx c = c"
  using assms by (auto simp: initCipher_def Let_def crypto_verify32_def newCipher_def resetCipher_def)

lemma transmit_counters:
  assumes "sc_initialized c"
    "sc_sendKey c = sc_sendKey (initCipher C master side ctx newCipher)"
    "sc_recvKey c = sc_recvKey (initCipher C master side ctx newCipher)"
  defines "nonces \<equiv> \<lambda>c es. map (take 8) (filter (\<lambda>f. f \<noteq> []) (transmit C master side ctx c es))"
  shows "distinct (nonces c es) \<and> (\<forall>x \<in> set (nonces c es). \<exists>k \<ge> sc_sendCounter c. x = be64 k)"
  using assms(1-3)
proof (induction es arbitrary: c)
  case Nil
  then show ?case by (simp add: nonces_def)
next
  case (Cons e es)
  show ?case
  proof (cases e)
    case Reinit
    then show ?thesis
      using Cons.IH [OF Cons.prems] initCipher_idle [OF Cons.prems] by (simp add: nonces_def)
  next
    case (Encrypt plain ad)
    show ?thesis
    proof (cases C plain ad c rule: encryptFrame_cases)
      case 1
      then show ?thesis using Encrypt Cons.IH [OF Cons.prems] by (simp add: nonces_def)
    next
      case (2 cipher)
      let ?c' = "c\<lparr>sc_sendCounter := sc_sendCounter c + 1\<rparr>"
      have eq: "nonces c (e # es) = be64 (sc_sendCounter c) # nonces ?c' es"
        using 2 Encrypt by (simp add: nonces_def be64_def)
      have IH: "distinct (nonces ?c' es)" "\<forall>x \<in> set (nonces ?c' es). \<exists>k \<ge> sc_sendCounter c + 1. x = be64 k"
        using Cons.IH [of ?c'] Cons.prems by simp_all
      have lt: "sc_sendCounter c < sc_sendCounter c + 1"
        using unat_plus_one [OF 2(1)] by (simp add: word_less_nat_alt)
      then have "be64 (sc_sendCounter c) \<notin> set (nonces ?c' es)"
        using IH(2) by fastforce
      moreover have "\<exists>k \<ge> sc_sendCounter c. x = be64 k" if "x \<in> set (nonces ?c' es)" for x
        using IH(2) that lt by (meson order.trans less_imp_le)
      ultimately show ?thesis using IH(1) by (auto simp: eq)
    qed
  qed
qed

text \<open>Frames as the sender builds them, for the counters \<open>k, k + 1, ..\<close>.\<close>

definition sealed :: "crypto \<Rightarrow> bytes \<Rightarrow> bytes \<Rightarrow> u64 \<Rightarrow> bytes \<Rightarrow> bytes \<Rightarrow> bytes" where
  "sealed C key seed ctr plain ad =
     (case cr_aead_lock C key (buildNonce seed ctr) ad plain of (cipher, mac) \<Rightarrow> be64 ctr @ cipher @ mac)"

lemma transmit_sealed:
  assumes "sc_initialized c" "unat (sc_sendCounter c) + length ps < 2 ^ 64"
  shows "transmit C master side ctx c (map (\<lambda>(p, ad). Encrypt p ad) ps) =
     map (\<lambda>(i, p, ad). sealed C (sc_sendKey c) (sc_sendNonceSeed c) (sc_sendCounter c + of_nat i) p ad)
       (enumerate 0 ps)"
  using assms
proof (induction ps arbitrary: c)
  case (Cons q ps)
  obtain p ad where q: "q = (p, ad)" by fastforce
  have ne: "sc_sendCounter c \<noteq> -1"
    using Cons.prems(2) by (auto simp: unsigned_minus_1_eq_mask mask_eq_exp_minus_1)
  let ?c' = "c\<lparr>sc_sendCounter := sc_sendCounter c + 1\<rparr>"
  have "unat (sc_sendCounter c + 1) = Suc (unat (sc_sendCounter c))"
    using ne by (rule unat_plus_one)
  then have "transmit C master side ctx ?c' (map (\<lambda>(p, ad). Encrypt p ad) ps) =
     map (\<lambda>(i, p, ad). sealed C (sc_sendKey c) (sc_sendNonceSeed c) (sc_sendCounter c + 1 + of_nat i) p ad)
       (enumerate 0 ps)"
    using Cons.IH [of ?c'] Cons.prems by simp
  then show ?case
    using ne Cons.prems(1)
    by (simp add: q encryptFrame_def sealed_def writeU64BE_be64 enumerate_Suc_eq [of 0] add.assoc
      case_prod_unfold comp_def Let_def)
qed simp


lemma readU64BE_append: "readU64BE (be64 v @ xs) = v"
proof -
  have "readU64BE (be64 v @ xs) = fold (\<lambda>i w. push_bit 8 w OR ucast (be64 v ! i)) [0..<8] 0"
    unfolding readU64BE_def by (intro fold_cong) (auto simp: nth_append)
  then show ?thesis by (simp only: join64)
qed

lemma aead_correctD:
  "aead_correct C \<Longrightarrow> case cr_aead_lock C k n ad p of (c, m) \<Rightarrow>
     length c = length p \<and> length m = 16 \<and> cr_aead_unlock C k n ad m c = Some p"
  by (simp add: aead_correct_def)

lemma decrypt_sealed:
  assumes "aead_correct C" "window_rel acc c" "sc_initialized c" "window_fresh acc (unat ctr)"
  shows "fst (decryptFrame C (sealed C (sc_recvKey c) (sc_recvNonceSeed c) ctr p ad) ad c) = Some p"
proof -
  obtain cipher mac where l: "cr_aead_lock C (sc_recvKey c) (buildNonce (sc_recvNonceSeed c) ctr) ad p = (cipher, mac)"
    by fastforce
  have "length cipher = length p \<and> length mac = 16 \<and>
      cr_aead_unlock C (sc_recvKey c) (buildNonce (sc_recvNonceSeed c) ctr) ad mac cipher = Some p"
    using aead_correctD [OF assms(1), where p = p and ad = ad and n = "buildNonce (sc_recvNonceSeed c) ctr" and k = "sc_recvKey c"] l by simp
  then show ?thesis
    using assms(4) by (simp add: decryptFrame_spec [OF assms(2,3)] sealed_def l readU64BE_append)
qed

lemma readU64BE_sealed [simp]: "readU64BE (sealed C key seed ctr p ad) = ctr"
  by (simp add: sealed_def readU64BE_append case_prod_unfold)

lemma initCipher_dual:
  "sc_sendKey (initCipher C master side ctx newCipher) = sc_recvKey (initCipher C master (\<not> side) ctx newCipher)"
  "sc_sendNonceSeed (initCipher C master side ctx newCipher) =
     sc_recvNonceSeed (initCipher C master (\<not> side) ctx newCipher)"
  by (simp_all add: initCipher_def Let_def newCipher_def resetCipher_def)

lemma receive_sealed:
  assumes "aead_correct C" "window_rel acc c" "sc_initialized c"
    and "\<And>j. j \<in> set js \<Longrightarrow> j < 2 ^ 64 \<and> window_fresh acc j"
    and "distinct js" "sorted_wrt (\<lambda>i j. i < j + 2048) js"
  shows "fst (receive C c (map (\<lambda>j. (sealed C (sc_recvKey c) (sc_recvNonceSeed c) (of_nat j) (p j) (ad j), ad j)) js))
     = map (\<lambda>j. Some (p j)) js"
  using assms
proof (induction js arbitrary: c acc)
  case (Cons j js)
  let ?f = "sealed C (sc_recvKey c) (sc_recvNonceSeed c) (of_nat j) (p j) (ad j)"
  have u: "unat (of_nat j :: u64) = j" using Cons.prems(4) by (simp add: unat_of_nat_small)
  have d: "fst (decryptFrame C ?f (ad j) c) = Some (p j)"
    using Cons.prems u by (intro decrypt_sealed [OF _ Cons.prems(2)]) auto
  let ?c = "snd (decryptFrame C ?f (ad j) c)"
  have w: "window_rel (insert j acc) ?c"
    using decryptFrame_spec(2) [OF Cons.prems(2,3), of C ?f "ad j"] d u by simp
  have "k < 2 ^ 64 \<and> window_fresh (insert j acc) k" if "k \<in> set js" for k
    using Cons.prems(4) [of k] Cons.prems(5,6) that by (auto simp: window_fresh_def)
  with Cons.IH [OF Cons.prems(1) w] Cons.prems(3,5,6) d show ?case
    by (simp add: case_prod_unfold)
qed simp


section \<open>Properties\<close>

text \<open>
  C1. No frame counter is accepted twice: whatever sequence of frames, forged, replayed or
  reordered, reaches a freshly keyed cipher, the counters of the frames it accepts are
  pairwise different.
\<close>

theorem replay_safe:
  "distinct (accepted fs (fst (receive C (initCipher C master side ctx newCipher) fs)))"
proof -
  obtain rs c' where "receive C (initCipher C master side ctx newCipher) fs = (rs, c')" by fastforce
  with receive_rel [OF initCipher_fresh(1,2) this] show ?thesis by simp
qed

text \<open>
  C5. The 2048-bit window implements its specification: after any sequence of frames, a frame
  is accepted exactly if it has a full header, its counter was not accepted before and lies
  less than 2048 below every accepted counter, and its tag verifies; the plain text is the
  one the authenticated decryption gives.
\<close>

theorem decrypt_refines_window:
  fixes fs C master side ctx
  defines "c0 \<equiv> initCipher C master side ctx newCipher"
  defines "rs \<equiv> fst (receive C c0 fs)" and "c \<equiv> snd (receive C c0 fs)"
  shows "fst (decryptFrame C frame ad c) =
     (if 24 \<le> length frame \<and> window_fresh (set (accepted fs rs)) (unat (readU64BE frame))
      then cr_aead_unlock C (sc_recvKey c0) (buildNonce (sc_recvNonceSeed c0) (readU64BE frame)) ad
             (drop (length frame - 16) frame) (take (length frame - 24) (drop 8 frame))
      else None)"
proof -
  have "receive C c0 fs = (rs, c)" by (simp add: rs_def c_def)
  note r = receive_rel [OF initCipher_fresh(1,2) this [unfolded c0_def], folded c0_def]
  then have "window_rel (set (accepted fs rs)) c" "sc_initialized c" by simp_all
  from decryptFrame_spec(1) [OF this] r show ?thesis by simp
qed


definition demo_crypto :: crypto where
  "demo_crypto = \<lparr>
     cr_blake2b = (\<lambda>n m. take n (m @ replicate n 0)),
     cr_blake2b_keyed = (\<lambda>n k m. take n (m @ k @ replicate n 0)),
     cr_x25519 = (\<lambda>s p. take 32 (s @ p @ replicate 32 0)),
     cr_x25519_public_key = (\<lambda>s. s),
     cr_aead_lock = (\<lambda>k n ad p. (p, take 16 (n @ ad @ k @ replicate 16 0))),
     cr_aead_unlock = (\<lambda>k n ad m c. if m = take 16 (n @ ad @ k @ replicate 16 0) then Some c else None),
     cr_argon2 = (\<lambda>b p l pw s. take 32 (pw @ s @ replicate 32 0))\<rparr>"

lemma demo_crypto_correct: "aead_correct demo_crypto"
proof -
  have "length (take 16 (xs @ replicate 16 (0 :: u8))) = 16" for xs :: bytes by simp
  from this [of "n @ ad @ k" for n ad k] show ?thesis
    by (simp only: append_assoc) (simp only: aead_correct_def demo_crypto_def crypto.simps prod.case, simp)
qed


text \<open>
  C7. Nonces are never reused under a session's key: over any sequence of encryptions and
  repeated initialisations with the same session secret, the counters that open the frames
  produced are pairwise different; when the counter is exhausted no further frame is produced.
\<close>

theorem nonce_unique:
  "distinct (map (take 8) (filter (\<lambda>f. f \<noteq> [])
     (transmit C master side ctx (initCipher C master side ctx newCipher) es)))"
  using transmit_counters [OF initCipher_fresh(2) refl refl] by blast

end
