(* ===== verification/Cli_Conn.thy ===== *)
theory Cli_Conn
  imports Byte_Buffer
begin

text \<open>
  The buffered non-blocking connection that both client channels own
  (\<^verbatim>\<open>client-cli/src/cli_common.h\<close>, \<^verbatim>\<open>TcpConnection\<close>).  A system call is an argument: its result is
  what the kernel answered.  The reserved capacity of the send buffer is not part of the model.
\<close>

section \<open>The connection\<close>

abbreviation (input) SOCK_INVALID :: int where "SOCK_INVALID \<equiv> -1"

record TcpConnection =
  tc_fd :: int
  tc_recvBuf :: bytes
  tc_sendBuf :: bytes
  tc_connected :: bool
  tc_connecting :: bool
  tc_lastRecvTime :: u32

definition newTcpConnection :: TcpConnection where
  "newTcpConnection = \<lparr>tc_fd = SOCK_INVALID, tc_recvBuf = [], tc_sendBuf = [], tc_connected = False,
     tc_connecting = False, tc_lastRecvTime = 0\<rparr>"

definition tcReset :: "TcpConnection \<Rightarrow> TcpConnection" where
  "tcReset t =
     (let t = (if tc_fd t \<noteq> SOCK_INVALID then t\<lparr>tc_fd := SOCK_INVALID\<rparr> else t)
      in t\<lparr>tc_recvBuf := [], tc_sendBuf := [], tc_connected := False, tc_connecting := False, tc_lastRecvTime := 0\<rparr>)"

text \<open>\<open>fd\<close> is the result of \<^verbatim>\<open>socket\<close>; \<open>started\<close> says that \<^verbatim>\<open>connect\<close> succeeded or is in progress.\<close>

definition tcConnectTo :: "int \<Rightarrow> bool \<Rightarrow> TcpConnection \<Rightarrow> bool \<times> TcpConnection" where
  "tcConnectTo fd started t =
     (let t = (tcReset t)\<lparr>tc_fd := fd\<rparr> in
      if tc_fd t = SOCK_INVALID then (False, t)
      else if \<not> started then (False, t\<lparr>tc_fd := SOCK_INVALID\<rparr>)
      else (True, t\<lparr>tc_connecting := True\<rparr>))"

text \<open>\<open>sent\<close> is the result of \<^verbatim>\<open>send\<close>, \<open>again\<close> whether its error is \<^verbatim>\<open>EAGAIN\<close> or \<^verbatim>\<open>EWOULDBLOCK\<close>.\<close>

definition tcFlushSend :: "int \<Rightarrow> bool \<Rightarrow> TcpConnection \<Rightarrow> bool \<times> TcpConnection" where
  "tcFlushSend sent again t =
     (if tc_fd t = SOCK_INVALID \<or> tc_sendBuf t = [] then (True, t)
      else if sent > 0 then (True, t\<lparr>tc_sendBuf := drop (nat sent) (tc_sendBuf t)\<rparr>)
      else if sent < 0 \<and> again then (True, t)
      else (False, t))"

definition tcQueueSend :: "bytes option \<Rightarrow> nat \<Rightarrow> TcpConnection \<Rightarrow> bool \<times> TcpConnection" where
  "tcQueueSend data len t =
     (if (len \<noteq> 0 \<and> data = None) \<or> length (tc_sendBuf t) > MAX_TCP_SEND_BUF \<or>
         len > MAX_TCP_SEND_BUF - length (tc_sendBuf t)
      then (False, t)
      else if len = 0 then (True, t)
      else (True, t\<lparr>tc_sendBuf := tc_sendBuf t @ take len (the data)\<rparr>))"

definition tcSendTcpMsg :: "u8 \<Rightarrow> ByteBuffer \<Rightarrow> TcpConnection \<Rightarrow> bool \<times> TcpConnection" where
  "tcSendTcpMsg msgType body t =
     (if bb_size body > MAX_TCP_MSG_PAYLOAD then (False, t)
      else let frameSize = 3 + bb_size body in
      if length (tc_sendBuf t) > MAX_TCP_SEND_BUF \<or> frameSize > MAX_TCP_SEND_BUF - length (tc_sendBuf t)
      then (False, t)
      else let hdr = msgType # be16 (of_nat (bb_size body));
               t = snd (tcQueueSend (Some hdr) 3 t);
               t = (if bb_size body > 0 then snd (tcQueueSend (Some (bb_data body)) (bb_size body) t) else t)
           in (True, t))"

text \<open>
  \<open>incoming\<close> is what the socket has; \<^verbatim>\<open>recv\<close> takes at most the 64 KiB of \<^verbatim>\<open>tmp\<close>.  Nothing there
  stands for a result of at most 0: the stream has ended or failed.
\<close>

definition tcReadData :: "u32 \<Rightarrow> bytes \<Rightarrow> TcpConnection \<Rightarrow> nat \<times> TcpConnection" where
  "tcReadData now incoming t =
     (let tmp = take 65536 incoming in
      if tmp \<noteq> [] then (length tmp, t\<lparr>tc_recvBuf := tc_recvBuf t @ tmp, tc_lastRecvTime := now\<rparr>)
      else (0, t))"

section \<open>Whole frames\<close>

lemma tcReset_simps [simp]:
  "tc_fd (tcReset t) = SOCK_INVALID" "tc_recvBuf (tcReset t) = []" "tc_sendBuf (tcReset t) = []"
  "\<not> tc_connected (tcReset t)" "\<not> tc_connecting (tcReset t)" "tc_lastRecvTime (tcReset t) = 0"
  by (simp_all add: tcReset_def Let_def)

lemma tcReset_idem [simp]: "tcReset (tcReset t) = tcReset t"
  by (simp add: tcReset_def Let_def)

text \<open>Queueing a message appends the whole frame or nothing; the buffer's bound is not passed.\<close>

lemma tcSendTcpMsg_frame:
  "tcSendTcpMsg ty body t =
     (if bb_size body \<le> MAX_TCP_MSG_PAYLOAD \<and> length (tc_sendBuf t) + 3 + bb_size body \<le> MAX_TCP_SEND_BUF
      then (True, t\<lparr>tc_sendBuf := tc_sendBuf t @ tcp_frame ty (bb_data body)\<rparr>)
      else (False, t))"
proof (cases "bb_size body \<le> MAX_TCP_MSG_PAYLOAD \<and> length (tc_sendBuf t) + 3 + bb_size body \<le> MAX_TCP_SEND_BUF")
  case True
  then have "tcQueueSend (Some (ty # be16 (of_nat (bb_size body)))) 3 t =
      (True, t\<lparr>tc_sendBuf := tc_sendBuf t @ ty # be16 (of_nat (bb_size body))\<rparr>)"
    by (auto simp: tcQueueSend_def)
  moreover have "0 < bb_size body \<Longrightarrow> tcQueueSend (Some (bb_data body)) (bb_size body)
      (t\<lparr>tc_sendBuf := tc_sendBuf t @ ty # be16 (of_nat (bb_size body))\<rparr>) =
      (True, t\<lparr>tc_sendBuf := (tc_sendBuf t @ ty # be16 (of_nat (bb_size body))) @ bb_data body\<rparr>)"
    using True by (auto simp: tcQueueSend_def bb_size_def)
  ultimately show ?thesis
    using True by (cases "bb_data body = []") (auto simp: tcSendTcpMsg_def Let_def tcp_frame_def bb_size_def)
next
  case False
  then show ?thesis by (auto simp: tcSendTcpMsg_def Let_def)
qed

lemma tcSendTcpMsg_bounded:
  "length (tc_sendBuf t) \<le> MAX_TCP_SEND_BUF \<Longrightarrow> length (tc_sendBuf (snd (tcSendTcpMsg ty body t))) \<le> MAX_TCP_SEND_BUF"
  by (simp add: tcSendTcpMsg_frame bb_size_def)

lemma tcSendTcpMsg_frame_fields [simp]:
  "tc_fd (snd (tcSendTcpMsg ty body t)) = tc_fd t" "tc_recvBuf (snd (tcSendTcpMsg ty body t)) = tc_recvBuf t"
  "tc_connected (snd (tcSendTcpMsg ty body t)) = tc_connected t"
  "tc_connecting (snd (tcSendTcpMsg ty body t)) = tc_connecting t"
  "tc_lastRecvTime (snd (tcSendTcpMsg ty body t)) = tc_lastRecvTime t"
  by (simp_all add: tcSendTcpMsg_frame)

end
