(* ===== verification/Cli_Tunnel.thy ===== *)
theory Cli_Tunnel
  imports Cli_Kcp Cli_Peer Overlay Secure_Frame Cli_Conn
begin

text \<open>
  The data plane of the command line client: \<^verbatim>\<open>CliTunnelManager\<close> of
  \<^verbatim>\<open>client-cli/src/cli_tunnel.cpp\<close>, with the operations of \<^verbatim>\<open>CliPeerConnection\<close> that go through
  its tunnels.  Peers and tunnels are objects behind pointers which several tables share, so
  the state has a store from addresses to objects: \<^verbatim>\<open>new\<close> takes a fresh address, \<^verbatim>\<open>delete\<close>
  removes the object, and to follow a pointer without an object sets \<open>tm_fault\<close>.
  A tunnel keeps the pointers that its callbacks captured.  Log text is left out.
\<close>

section \<open>State\<close>

text \<open>The part of the virtual adapter that the manager uses.\<close>

record TunAdapter =
  ta_running :: bool
  ta_recvQueue :: "bytes list"

record raw_object =
  ro_tunnel :: CliRawUdpTunnel
  ro_peer :: nat
  ro_peerId :: u32
  ro_cls :: u8

record 'k kcp_object =
  ko_tunnel :: "'k CliKcpTunnel"
  ko_peer :: nat
  ko_peerId :: u32
  ko_cls :: u8

datatype drop_reason = UdpEncryptFailed | UdpSendFailed int | UdpEndpointMismatch | UdpPlaintextRejected | UdpTruncated
  | UdpSessionMismatch | UdpDecryptRejected | TunOutInvalid | PeerSendUnavailable | NoPeerRoute | TunInInvalid | TunWriteFailed

text \<open>What leaves the manager: datagrams, packets for the adapter, relayed data, reports.\<close>

datatype tunnel_io = SendTo bytes u32 u16 | TunWrite bytes | RelaySend u32 u32 u8 bytes | SecurityFailure

record 'k CliTunnelManager =
  tm_tun :: "TunAdapter option"
  tm_udpFd :: int
  tm_localUdpPort :: u16
  tm_peerById :: "(u32, nat) omap"
  tm_peerByVIP :: "(u32, nat) omap"
  tm_kcpByPeerClass :: "(u64, nat) omap"
  tm_rawByPeerClass :: "(u64, nat) omap"
  tm_pendingTransportDead :: "(u64, unit) omap"
  tm_serverIP :: u32
  tm_serverPort :: u16
  tm_myPeerId :: u32
  tm_myVirtualIP :: u32
  tm_roomMtu :: u16
  tm_dataPlaneState :: DataPlaneState
  tm_securityMode :: DataPlaneSecurityMode
  tm_secureSessionId :: u32
  tm_secureMaster :: bytes
  tm_udpCipher :: SecureFrameCipher
  tm_packetDrops :: "drop_reason \<Rightarrow> u64"
  tm_lastDropLogMs :: u32
  tm_hasDropLog :: bool
  tm_peers :: "(nat, CliPeerConnection) omap"
  tm_kcps :: "(nat, 'k kcp_object) omap"
  tm_raws :: "(nat, raw_object) omap"
  tm_nextAddr :: nat
  tm_fault :: bool
  tm_probeSeq :: u32
  tm_io :: "tunnel_io list"

text \<open>
  What the operations meet outside: the clock, the libraries, the answers of the system calls
  (\<open>te_sendto\<close>: the result of \<^verbatim>\<open>sendto\<close> and the error; \<open>te_socket\<close>: the new descriptor, whether it
  could be made non-blocking and bound, and its port), whether the adapter takes a packet, whether
  the data channel or the signalling connection is up, and the reaction to a dead tunnel.  The
  application keeps its own fields in an extension of the record.
\<close>

record ('k, 'a) tunnel_env =
  te_now :: u32
  te_crypto :: crypto
  te_cm256 :: cm256
  te_kcp :: "'k kcp_api"
  te_sendto :: "bytes \<Rightarrow> int \<times> int"
  te_socket :: "int \<times> bool \<times> bool \<times> u16"
  te_tunWrite :: "bytes \<Rightarrow> bool"
  te_channelUp :: bool
  te_onTunnelDead :: "u32 \<Rightarrow> u8 \<Rightarrow> ('k, 'a) CliTunnelManager_scheme \<Rightarrow> ('k, 'a) CliTunnelManager_scheme"

definition newTunnelManager :: "'k CliTunnelManager" where
  "newTunnelManager =
     \<lparr>tm_tun = None, tm_udpFd = SOCK_INVALID, tm_localUdpPort = 0, tm_peerById = [], tm_peerByVIP = [],
      tm_kcpByPeerClass = [], tm_rawByPeerClass = [], tm_pendingTransportDead = [], tm_serverIP = 0, tm_serverPort = 0,
      tm_myPeerId = 0, tm_myVirtualIP = 0, tm_roomMtu = of_int ROOM_MTU_DEFAULT, tm_dataPlaneState = Stopped,
      tm_securityMode = Unconfigured, tm_secureSessionId = 0, tm_secureMaster = [], tm_udpCipher = newCipher,
      tm_packetDrops = (\<lambda>_. 0), tm_lastDropLogMs = 0, tm_hasDropLog = False,
      tm_peers = [], tm_kcps = [], tm_raws = [], tm_nextAddr = 0, tm_fault = False, tm_probeSeq = 0, tm_io = []\<rparr>"

section \<open>Pointers\<close>

definition faulted :: "('k, 'a) CliTunnelManager_scheme \<Rightarrow> ('k, 'a) CliTunnelManager_scheme" where
  "faulted m = m\<lparr>tm_fault := True\<rparr>"

definition modPeer :: "nat \<Rightarrow> (CliPeerConnection \<Rightarrow> CliPeerConnection) \<Rightarrow> ('k, 'a) CliTunnelManager_scheme \<Rightarrow> ('k, 'a) CliTunnelManager_scheme" where
  "modPeer a f m =
     (case map_of (tm_peers m) a of
        None \<Rightarrow> faulted m
      | Some p \<Rightarrow> m\<lparr>tm_peers := om_upd a (f p) (tm_peers m)\<rparr>)"

definition setRawTunnel :: "nat \<Rightarrow> CliRawUdpTunnel \<Rightarrow> ('k, 'a) CliTunnelManager_scheme \<Rightarrow> ('k, 'a) CliTunnelManager_scheme" where
  "setRawTunnel a t m = m\<lparr>tm_raws := om_adj a (\<lambda>r. r\<lparr>ro_tunnel := t\<rparr>) (tm_raws m)\<rparr>"

definition setKcpTunnel :: "nat \<Rightarrow> 'k CliKcpTunnel \<Rightarrow> ('k, 'a) CliTunnelManager_scheme \<Rightarrow> ('k, 'a) CliTunnelManager_scheme" where
  "setKcpTunnel a t m = m\<lparr>tm_kcps := om_adj a (\<lambda>r. r\<lparr>ko_tunnel := t\<rparr>) (tm_kcps m)\<rparr>"

definition emit_io :: "tunnel_io \<Rightarrow> ('k, 'a) CliTunnelManager_scheme \<Rightarrow> ('k, 'a) CliTunnelManager_scheme" where
  "emit_io e m = m\<lparr>tm_io := tm_io m @ [e]\<rparr>"

section \<open>Configuration\<close>

definition initUdpSocket :: "('k, 'a) tunnel_env \<Rightarrow> ('k, 'a) CliTunnelManager_scheme \<Rightarrow> bool \<times> ('k, 'a) CliTunnelManager_scheme" where
  "initUdpSocket E m =
     (if tm_udpFd m \<noteq> SOCK_INVALID then (True, m)
      else case te_socket E of (fd, nonBlocking, bound, port) \<Rightarrow>
        if fd = SOCK_INVALID then (False, m\<lparr>tm_udpFd := SOCK_INVALID\<rparr>)
        else if \<not> nonBlocking then (False, m\<lparr>tm_udpFd := SOCK_INVALID\<rparr>)
        else if \<not> bound then (False, m\<lparr>tm_udpFd := SOCK_INVALID\<rparr>)
        else (True, m\<lparr>tm_udpFd := fd, tm_localUdpPort := port\<rparr>))"

definition setTunAdapter :: "TunAdapter option \<Rightarrow> ('k, 'a) CliTunnelManager_scheme \<Rightarrow> ('k, 'a) CliTunnelManager_scheme" where
  "setTunAdapter tun m = m\<lparr>tm_tun := tun\<rparr>"

definition setServerEndpoint :: "u32 \<Rightarrow> u16 \<Rightarrow> ('k, 'a) CliTunnelManager_scheme \<Rightarrow> ('k, 'a) CliTunnelManager_scheme" where
  "setServerEndpoint ip port m = m\<lparr>tm_serverIP := ip, tm_serverPort := port\<rparr>"

definition setMyPeerId :: "u32 \<Rightarrow> ('k, 'a) CliTunnelManager_scheme \<Rightarrow> ('k, 'a) CliTunnelManager_scheme" where
  "setMyPeerId i m = m\<lparr>tm_myPeerId := i\<rparr>"

definition setMyVirtualIP :: "u32 \<Rightarrow> ('k, 'a) CliTunnelManager_scheme \<Rightarrow> ('k, 'a) CliTunnelManager_scheme" where
  "setMyVirtualIP ip m = m\<lparr>tm_myVirtualIP := ip\<rparr>"

definition setRoomMtu :: "u16 \<Rightarrow> ('k, 'a) CliTunnelManager_scheme \<Rightarrow> ('k, 'a) CliTunnelManager_scheme" where
  "setRoomMtu mtu m = m\<lparr>tm_roomMtu := normalizeRoomMtu (uint mtu)\<rparr>"

definition clearSecurityContext :: "('k, 'a) CliTunnelManager_scheme \<Rightarrow> ('k, 'a) CliTunnelManager_scheme" where
  "clearSecurityContext m =
     (if \<not> dataPlaneCanReconfigure (tm_dataPlaneState m) then m
      else m\<lparr>tm_udpCipher := resetCipher (tm_udpCipher m), tm_secureSessionId := 0, tm_secureMaster := [], tm_securityMode := Unconfigured\<rparr>)"

definition installSecureSession :: "crypto \<Rightarrow> u32 \<Rightarrow> bytes \<Rightarrow> ('k, 'a) CliTunnelManager_scheme \<Rightarrow> bool \<times> ('k, 'a) CliTunnelManager_scheme" where
  "installSecureSession C sessionId master m =
     (if \<not> dataPlaneCanReconfigure (tm_dataPlaneState m) then (False, m)
      else let m = clearSecurityContext m in
      if sessionId = 0 \<or> length master \<noteq> SECURE_KEY_SIZE then (False, m)
      else (True, m\<lparr>tm_secureSessionId := sessionId, tm_secureMaster := master,
              tm_udpCipher := initCipher C master True ''udp'' (tm_udpCipher m), tm_securityMode := Secure\<rparr>))"

definition recordPacketDrop :: "u32 \<Rightarrow> drop_reason \<Rightarrow> ('k, 'a) CliTunnelManager_scheme \<Rightarrow> ('k, 'a) CliTunnelManager_scheme" where
  "recordPacketDrop now reason m =
     (let m = m\<lparr>tm_packetDrops := (tm_packetDrops m)(reason := tm_packetDrops m reason + 1)\<rparr> in
      if tm_hasDropLog m \<and> now - tm_lastDropLogMs m < 5000 then m
      else m\<lparr>tm_hasDropLog := True, tm_lastDropLogMs := now\<rparr>)"

definition stopDataPlane :: "('k, 'a) CliTunnelManager_scheme \<Rightarrow> ('k, 'a) CliTunnelManager_scheme" where
  "stopDataPlane m = m\<lparr>tm_dataPlaneState := Stopped, tm_tun := map_option (\<lambda>a. a\<lparr>ta_recvQueue := []\<rparr>) (tm_tun m)\<rparr>"

definition tunnelKey :: "u32 \<Rightarrow> u8 \<Rightarrow> u64" where
  "tunnelKey peerId cls = push_bit 8 (ucast peerId) OR ucast cls"

section \<open>Sending datagrams\<close>

text \<open>The peer whose statistics a datagram counts for: the destination of relay data of ours.\<close>

definition sendReportTarget :: "bytes \<Rightarrow> ('k, 'a) CliTunnelManager_scheme \<Rightarrow> (nat \<times> u8) option" where
  "sendReportTarget data m =
     (if length data < sizeof_UdpRelayHeader then None
      else let type = data ! 0; cls = data ! 1 in
      if (type = UDP_RELAY_DATA \<or> type = UDP_RAW_RELAY_DATA) \<and> (cls = TRAFFIC_TCP \<or> cls = TRAFFIC_UDP) \<and>
         readU32BE (drop 2 data) = tm_myPeerId m
      then map_option (\<lambda>a. (a, cls)) (map_of (tm_peerById m) (readU32BE (drop 6 data)))
      else None)"

definition reportSend :: "u32 \<Rightarrow> (nat \<times> u8) option \<Rightarrow> TransportType \<Rightarrow> bool \<Rightarrow> ('k, 'a) CliTunnelManager_scheme \<Rightarrow> ('k, 'a) CliTunnelManager_scheme" where
  "reportSend now target expected success m =
     (case target of
        None \<Rightarrow> m
      | Some (a, cls) \<Rightarrow> modPeer a (\<lambda>p. if pcTransport cls p \<noteq> expected then p else pcReportLocalTransportSend now cls success p) m)"

definition udpSend :: "('k, 'a) tunnel_env \<Rightarrow> bytes \<Rightarrow> u32 \<Rightarrow> u16 \<Rightarrow> ('k, 'a) CliTunnelManager_scheme \<Rightarrow> ('k, 'a) CliTunnelManager_scheme" where
  "udpSend E data dstIP dstPort m =
     (let target = sendReportTarget data m;
          expected = (if data ! 0 = UDP_RELAY_DATA then TRANSPORT_RELAY_KCP else TRANSPORT_RELAY_RAW_UDP);
          report = reportSend (te_now E) target expected;
          transmit = (\<lambda>pkt m. let m = emit_io (SendTo pkt dstIP dstPort) m; (sent, err) = te_sendto E pkt;
                                  ok = (sent = int (length pkt)); m = report ok m
                              in if ok then m else recordPacketDrop (te_now E) (UdpSendFailed err) m) in
      if \<not> dataPlaneAllowsTraffic (tm_dataPlaneState m) (tm_securityMode m) \<or> tm_udpFd m = SOCK_INVALID then report False m
      else if tm_securityMode m = Secure
      then if tm_secureSessionId m = 0 \<or> length (tm_secureMaster m) \<noteq> SECURE_KEY_SIZE then report False m
           else case encryptFrame (te_crypto E) data [] (tm_udpCipher m) of (enc, c) \<Rightarrow>
             let m = m\<lparr>tm_udpCipher := c\<rparr> in
             if enc = [] then emit_io SecurityFailure (stopDataPlane (recordPacketDrop (te_now E) UdpEncryptFailed (report False m)))
             else transmit (UDP_ENCRYPTED # writeU32BE (tm_secureSessionId m) @ enc) m
      else transmit data m)"

definition sendUdpKeepalive :: "('k, 'a) tunnel_env \<Rightarrow> ('k, 'a) CliTunnelManager_scheme \<Rightarrow> ('k, 'a) CliTunnelManager_scheme" where
  "sendUdpKeepalive E m =
     (if tm_dataPlaneState m \<noteq> Running \<or> tm_securityMode m = Unconfigured then m
      else if tm_serverIP m = 0 \<or> tm_serverPort m = 0 then m
      else udpSend E [UDP_KEEPALIVE] (tm_serverIP m) (tm_serverPort m) m)"

definition startDataPlane :: "('k, 'a) tunnel_env \<Rightarrow> bool \<Rightarrow> ('k, 'a) CliTunnelManager_scheme \<Rightarrow> bool \<times> ('k, 'a) CliTunnelManager_scheme" where
  "startDataPlane E requiresUdp m =
     (if tm_dataPlaneState m = Running then (True, m)
      else if (case tm_tun m of None \<Rightarrow> True | Some a \<Rightarrow> \<not> ta_running a) \<or> tm_securityMode m = Unconfigured \<or>
              tm_myPeerId m = 0 \<or> tm_myVirtualIP m = 0 \<or> tm_serverIP m = 0 \<or> tm_serverPort m = 0
      then (False, m)
      else case if requiresUdp then initUdpSocket E m else (True, m) of (ok, m) \<Rightarrow>
        if \<not> ok then (False, m)
        else let m = m\<lparr>tm_dataPlaneState := Running, tm_packetDrops := (\<lambda>_. 0), tm_hasDropLog := False\<rparr>
             in (True, if requiresUdp then sendUdpKeepalive E m else m))"

section \<open>Sending through a tunnel\<close>

text \<open>
  \<^verbatim>\<open>CliRawUdpTunnel::send\<close> and \<^verbatim>\<open>CliKcpTunnel::send\<close> on a pointer.  The tunnel is out of the store
  while it works; of its callbacks sending uses the first one only.
\<close>

definition rawSender :: "('k, 'a) tunnel_env \<Rightarrow> ('k, 'a) CliTunnelManager_scheme raw_callbacks" where
  "rawSender E = \<lparr>rc_udpSend = udpSend E, rc_onData = \<lambda>_ s. s, rc_onDead = \<lambda>m. m\<rparr>"

definition rawSendAt :: "('k, 'a) tunnel_env \<Rightarrow> nat \<Rightarrow> bytes \<Rightarrow> ('k, 'a) CliTunnelManager_scheme \<Rightarrow> int \<times> ('k, 'a) CliTunnelManager_scheme" where
  "rawSendAt E a data m =
     (case map_of (tm_raws m) a of
        None \<Rightarrow> (-1, faulted m)
      | Some r \<Rightarrow> (case rawSend (te_cm256 E) (rawSender E) (te_now E) data (ro_tunnel r, m) of (n, t, m) \<Rightarrow> (n, setRawTunnel a t m)))"

definition kcpSendAt :: "('k, 'a) tunnel_env \<Rightarrow> nat \<Rightarrow> bytes \<Rightarrow> ('k, 'a) CliTunnelManager_scheme \<Rightarrow> int \<times> ('k, 'a) CliTunnelManager_scheme" where
  "kcpSendAt E a data m =
     (case map_of (tm_kcps m) a of
        None \<Rightarrow> (-1, faulted m)
      | Some r \<Rightarrow> (case kcpSend (te_kcp E) data (ko_tunnel r) of (n, t) \<Rightarrow> (n, setKcpTunnel a t m)))"

text \<open>The sender and the readiness test that the application sets for the TCP relay.\<close>

definition relayReady :: "('k, 'a) tunnel_env \<Rightarrow> ('k, 'a) CliTunnelManager_scheme \<Rightarrow> bool" where
  "relayReady E m \<longleftrightarrow> tm_dataPlaneState m = Running \<and> tm_securityMode m \<noteq> Unconfigured \<and> te_channelUp E"

definition relaySend :: "('k, 'a) tunnel_env \<Rightarrow> u32 \<Rightarrow> u32 \<Rightarrow> u8 \<Rightarrow> bytes \<Rightarrow> ('k, 'a) CliTunnelManager_scheme \<Rightarrow> ('k, 'a) CliTunnelManager_scheme" where
  "relaySend E myId dstPeerId cls data m =
     (if tm_dataPlaneState m = Running \<and> tm_securityMode m \<noteq> Unconfigured
      then (if te_channelUp E then emit_io (RelaySend myId dstPeerId cls data) m else m) else m)"

definition sendControlPacket :: "('k, 'a) tunnel_env \<Rightarrow> nat \<Rightarrow> u8 \<Rightarrow> bytes \<Rightarrow> ('k, 'a) CliTunnelManager_scheme \<Rightarrow> bool \<times> ('k, 'a) CliTunnelManager_scheme" where
  "sendControlPacket E a cls data m =
     (case map_of (tm_peers m) a of
        None \<Rightarrow> (False, faulted m)
      | Some p \<Rightarrow>
          let idx = classIndex TRAFFIC_UDP cls in
          case pc_transport p ! idx of
            TRANSPORT_RELAY_TCP \<Rightarrow>
              (case pc_tcpSender p of
                 None \<Rightarrow> (False, m)
               | Some myId \<Rightarrow>
                   if pc_tcpControlReady p \<and> \<not> relayReady E m then (False, m)
                   else (True, relaySend E myId (pc_peerId p) cls data m))
          | TRANSPORT_RELAY_RAW_UDP \<Rightarrow>
              (case pc_rawUdpTunnel p ! idx of
                 None \<Rightarrow> (False, m)
               | Some r \<Rightarrow> (case rawSendAt E r data m of (n, m) \<Rightarrow> (n \<ge> 0, m)))
          | TRANSPORT_RELAY_KCP \<Rightarrow>
              (case pc_kcpTunnel p ! idx of
                 None \<Rightarrow> (False, m)
               | Some k \<Rightarrow> (case kcpSendAt E k data m of (n, m) \<Rightarrow> (n \<ge> 0, m)))
          | TRANSPORT_NONE \<Rightarrow> (False, m))"

definition sendPeerData :: "('k, 'a) tunnel_env \<Rightarrow> nat \<Rightarrow> bytes \<Rightarrow> ('k, 'a) CliTunnelManager_scheme \<Rightarrow> int \<times> ('k, 'a) CliTunnelManager_scheme" where
  "sendPeerData E a ipPacket m =
     (case map_of (tm_peers m) a of
        None \<Rightarrow> (-1, faulted m)
      | Some p \<Rightarrow>
          let cls = trafficClassFromIpPacket ipPacket; idx = classIndex TRAFFIC_UDP cls; t = pc_transport p ! idx in
          if t = TRANSPORT_NONE then (-1, m)
          else if t = TRANSPORT_RELAY_TCP
          then (case pc_tcpSender p of
                  None \<Rightarrow> (-1, m)
                | Some myId \<Rightarrow> (int (length ipPacket), relaySend E myId (pc_peerId p) cls ipPacket m))
          else if t = TRANSPORT_RELAY_RAW_UDP
          then (case pc_rawUdpTunnel p ! idx of None \<Rightarrow> (-1, m) | Some r \<Rightarrow> rawSendAt E r ipPacket m)
          else (case pc_kcpTunnel p ! idx of None \<Rightarrow> (-1, m) | Some k \<Rightarrow> kcpSendAt E k ipPacket m))"

section \<open>Latency probes\<close>

definition sendLatencyPing :: "('k, 'a) tunnel_env \<Rightarrow> nat \<Rightarrow> u8 \<Rightarrow> ('k, 'a) CliTunnelManager_scheme \<Rightarrow> ('k, 'a) CliTunnelManager_scheme" where
  "sendLatencyPing E a cls m =
     (case map_of (tm_peers m) a of
        None \<Rightarrow> faulted m
      | Some p \<Rightarrow>
          let idx = classIndex TRAFFIC_UDP cls in
          if pc_transport p ! idx = TRANSPORT_NONE then m
          else case nextProbeEchoId (tm_probeSeq m) of (token, seq) \<Rightarrow>
            let m = modPeer a (pcModQuality idx (\<lambda>q. snd (beginProbe (te_now E) token q))) (m\<lparr>tm_probeSeq := seq\<rparr>)
            in case sendControlPacket E a cls (latencyProbe CLI_LATENCY_PROBE_PING token) m of (sent, m) \<Rightarrow>
                 modPeer a (pcModQuality idx (completeSend token (te_now E) sent)) m)"

definition sendLatencyPings :: "('k, 'a) tunnel_env \<Rightarrow> nat \<Rightarrow> ('k, 'a) CliTunnelManager_scheme \<Rightarrow> ('k, 'a) CliTunnelManager_scheme" where
  "sendLatencyPings E a m = sendLatencyPing E a TRAFFIC_UDP (sendLatencyPing E a TRAFFIC_TCP m)"

definition handleLatencyProbe :: "('k, 'a) tunnel_env \<Rightarrow> nat \<Rightarrow> u8 \<Rightarrow> bytes \<Rightarrow> ('k, 'a) CliTunnelManager_scheme \<Rightarrow> bool \<times> ('k, 'a) CliTunnelManager_scheme" where
  "handleLatencyProbe E a cls data m =
     (if length data < 6 \<or> data ! 0 \<noteq> CLI_LATENCY_PROBE_MARKER then (False, m)
      else if data ! 1 = CLI_LATENCY_PROBE_PING
      then (True, snd (sendControlPacket E a cls
                    ([CLI_LATENCY_PROBE_MARKER, CLI_LATENCY_PROBE_PONG, data ! 2, data ! 3, data ! 4, data ! 5]) m))
      else if data ! 1 = CLI_LATENCY_PROBE_PONG
      then (True, modPeer a (pcModQuality (classIndex TRAFFIC_UDP cls) (\<lambda>q. snd (probeReply (probeToken data) (te_now E) q))) m)
      else (False, m))"

definition peerLatencyMs :: "('k, 'a) tunnel_env \<Rightarrow> CliPeerConnection \<Rightarrow> ('k, 'a) CliTunnelManager_scheme \<Rightarrow> int option" where
  "peerLatencyMs E p m =
     (let tcp = pcLatencyMs (te_now E) TRAFFIC_TCP p; udp = pcLatencyMs (te_now E) TRAFFIC_UDP p;
          t = (if pc_transport p ! 1 \<noteq> TRANSPORT_NONE then pc_transport p ! 1 else pc_transport p ! 2) in
      if tcp \<ge> 0 then Some tcp
      else if udp \<ge> 0 then Some udp
      else if t = TRANSPORT_RELAY_RAW_UDP
      then (case pc_rawUdpTunnel p ! 2 of None \<Rightarrow> Some (-1) | Some r \<Rightarrow> map_option (\<lambda>r. ru_rttMs (ro_tunnel r)) (map_of (tm_raws m) r))
      else (case pc_kcpTunnel p ! 2 of None \<Rightarrow> Some (-1) | Some k \<Rightarrow> map_option (\<lambda>k. kcpGetRttMs (te_kcp E) (ko_tunnel k)) (map_of (tm_kcps m) k)))"

section \<open>Between the tunnels and the adapter\<close>

definition routeToTun :: "('k, 'a) tunnel_env \<Rightarrow> u32 \<Rightarrow> bytes \<Rightarrow> ('k, 'a) CliTunnelManager_scheme \<Rightarrow> ('k, 'a) CliTunnelManager_scheme" where
  "routeToTun E peerId ipPacket m =
     (if \<not> dataPlaneAllowsTraffic (tm_dataPlaneState m) (tm_securityMode m) then m
      else case map_of (tm_peerById m) peerId of
        None \<Rightarrow> recordPacketDrop (te_now E) TunInInvalid m
      | Some a \<Rightarrow>
          (case map_of (tm_peers m) a of
             None \<Rightarrow> faulted m
           | Some p \<Rightarrow>
               if \<not> overlayIsValid (validateInboundOverlayIpv4 (Some ipPacket) (tm_roomMtu m) (pc_virtualIP p) (tm_myVirtualIP m))
               then recordPacketDrop (te_now E) TunInInvalid m
               else if tm_tun m \<noteq> None \<and> te_tunWrite E ipPacket then emit_io (TunWrite ipPacket) m
               else recordPacketDrop (te_now E) TunWriteFailed m))"

definition onPeerDataReceived :: "('k, 'a) tunnel_env \<Rightarrow> u32 \<Rightarrow> bytes \<Rightarrow> ('k, 'a) CliTunnelManager_scheme \<Rightarrow> ('k, 'a) CliTunnelManager_scheme" where
  "onPeerDataReceived E peerId ipPacket m =
     (if tm_dataPlaneState m \<noteq> Running \<or> tm_securityMode m = Unconfigured then m else routeToTun E peerId ipPacket m)"

definition onTunnelDataReceived :: "('k, 'a) tunnel_env \<Rightarrow> nat \<Rightarrow> u8 \<Rightarrow> bytes \<Rightarrow> ('k, 'a) CliTunnelManager_scheme \<Rightarrow> ('k, 'a) CliTunnelManager_scheme" where
  "onTunnelDataReceived E a cls data m =
     (case handleLatencyProbe E a cls data m of (handled, m) \<Rightarrow>
        if handled then m
        else case map_of (tm_peers m) a of
          None \<Rightarrow> faulted m
        | Some p \<Rightarrow> onPeerDataReceived E (pc_peerId p) data m)"

definition routeToPeer :: "('k, 'a) tunnel_env \<Rightarrow> nat \<Rightarrow> bytes \<Rightarrow> ('k, 'a) CliTunnelManager_scheme \<Rightarrow> ('k, 'a) CliTunnelManager_scheme" where
  "routeToPeer E a ipPacket m =
     (case sendPeerData E a ipPacket m of (n, m) \<Rightarrow> if n \<le> 0 then recordPacketDrop (te_now E) PeerSendUnavailable m else m)"

definition routeFromTun :: "('k, 'a) tunnel_env \<Rightarrow> bytes \<Rightarrow> ('k, 'a) CliTunnelManager_scheme \<Rightarrow> ('k, 'a) CliTunnelManager_scheme" where
  "routeFromTun E ipPacket m =
     (if \<not> dataPlaneAllowsTraffic (tm_dataPlaneState m) (tm_securityMode m) then m
      else if \<not> overlayIsValid (validateOutboundOverlayIpv4 (Some ipPacket) (tm_roomMtu m) (tm_myVirtualIP m))
      then recordPacketDrop (te_now E) TunOutInvalid m
      else let dstIP = extractDstIP ipPacket in
      if isBroadcast dstIP \<or> dstIP = VNET_BROADCAST
      then fold (\<lambda>a. routeToPeer E a ipPacket) (map snd (tm_peerById m)) m
      else case map_of (tm_peerByVIP m) dstIP of
        None \<Rightarrow> recordPacketDrop (te_now E) NoPeerRoute m
      | Some a \<Rightarrow> routeToPeer E a ipPacket m)"

definition processTunPackets :: "('k, 'a) tunnel_env \<Rightarrow> ('k, 'a) CliTunnelManager_scheme \<Rightarrow> ('k, 'a) CliTunnelManager_scheme" where
  "processTunPackets E m =
     (case tm_tun m of
        None \<Rightarrow> m
      | Some tun \<Rightarrow>
          let m = m\<lparr>tm_tun := Some (tun\<lparr>ta_recvQueue := []\<rparr>)\<rparr> in
          if tm_dataPlaneState m \<noteq> Running \<or> tm_securityMode m = Unconfigured then m
          else fold (routeFromTun E) (ta_recvQueue tun) m)"

section \<open>Tunnels that receive and run\<close>

definition markTransportDead :: "u32 \<Rightarrow> u8 \<Rightarrow> ('k, 'a) CliTunnelManager_scheme \<Rightarrow> ('k, 'a) CliTunnelManager_scheme" where
  "markTransportDead peerId cls m =
     (if tm_dataPlaneState m \<noteq> Running then m
      else let cls = (if unat cls > 2 then TRAFFIC_UDP else cls)
           in m\<lparr>tm_pendingTransportDead := om_upd (tunnelKey peerId cls) () (tm_pendingTransportDead m)\<rparr>)"

text \<open>
  A packet that a tunnel hands to its peer: the tunnel is back in the store, since the peer may
  answer through it, and has to be there when the call returns.
\<close>

definition rawOnData :: "('k, 'a) tunnel_env \<Rightarrow> nat \<Rightarrow> raw_object \<Rightarrow> bytes \<Rightarrow> CliRawUdpTunnel \<times> ('k, 'a) CliTunnelManager_scheme \<Rightarrow> CliRawUdpTunnel \<times> ('k, 'a) CliTunnelManager_scheme" where
  "rawOnData E a r data s =
     (case s of (t, m) \<Rightarrow>
        let m = onTunnelDataReceived E (ro_peer r) (ro_cls r) data (setRawTunnel a t m) in
        case map_of (tm_raws m) a of None \<Rightarrow> (t, faulted m) | Some r \<Rightarrow> (ro_tunnel r, m))"

definition rawCallbacks :: "('k, 'a) tunnel_env \<Rightarrow> nat \<Rightarrow> raw_object \<Rightarrow> ('k, 'a) CliTunnelManager_scheme raw_callbacks" where
  "rawCallbacks E a r = \<lparr>rc_udpSend = udpSend E, rc_onData = rawOnData E a r, rc_onDead = markTransportDead (ro_peerId r) (ro_cls r)\<rparr>"

definition kcpOnData :: "('k, 'a) tunnel_env \<Rightarrow> nat \<Rightarrow> 'k kcp_object \<Rightarrow> bytes \<Rightarrow> 'k CliKcpTunnel \<times> ('k, 'a) CliTunnelManager_scheme \<Rightarrow> 'k CliKcpTunnel \<times> ('k, 'a) CliTunnelManager_scheme" where
  "kcpOnData E a r data s =
     (case s of (t, m) \<Rightarrow>
        let m = onTunnelDataReceived E (ko_peer r) (ko_cls r) data (setKcpTunnel a t m) in
        case map_of (tm_kcps m) a of None \<Rightarrow> (t, faulted m) | Some r \<Rightarrow> (ko_tunnel r, m))"

definition kcpCallbacks :: "('k, 'a) tunnel_env \<Rightarrow> nat \<Rightarrow> 'k kcp_object \<Rightarrow> ('k, ('k, 'a) CliTunnelManager_scheme) kcp_callbacks" where
  "kcpCallbacks E a r = \<lparr>kc_udpSend = udpSend E, kc_onData = kcpOnData E a r, kc_onDead = markTransportDead (ko_peerId r) (ko_cls r)\<rparr>"

definition rawFeedAt :: "('k, 'a) tunnel_env \<Rightarrow> bytes \<Rightarrow> nat \<Rightarrow> ('k, 'a) CliTunnelManager_scheme \<Rightarrow> ('k, 'a) CliTunnelManager_scheme" where
  "rawFeedAt E data a m =
     (case map_of (tm_raws m) a of
        None \<Rightarrow> faulted m
      | Some r \<Rightarrow> (case rawFeedInput (te_cm256 E) (rawCallbacks E a r) (te_now E) data (ro_tunnel r, m) of (t, m) \<Rightarrow> setRawTunnel a t m))"

definition rawUpdateAt :: "('k, 'a) tunnel_env \<Rightarrow> nat \<Rightarrow> ('k, 'a) CliTunnelManager_scheme \<Rightarrow> ('k, 'a) CliTunnelManager_scheme" where
  "rawUpdateAt E a m =
     (case map_of (tm_raws m) a of
        None \<Rightarrow> faulted m
      | Some r \<Rightarrow> (case rawUpdate (te_cm256 E) (rawCallbacks E a r) (te_now E) (ro_tunnel r, m) of (t, m) \<Rightarrow> setRawTunnel a t m))"

definition kcpFeedAt :: "('k, 'a) tunnel_env \<Rightarrow> bytes \<Rightarrow> nat \<Rightarrow> ('k, 'a) CliTunnelManager_scheme \<Rightarrow> ('k, 'a) CliTunnelManager_scheme" where
  "kcpFeedAt E data a m =
     (case map_of (tm_kcps m) a of
        None \<Rightarrow> faulted m
      | Some r \<Rightarrow> (case kcpFeedInput (te_kcp E) (te_cm256 E) (kcpCallbacks E a r) (te_now E) data (ko_tunnel r, m) of (t, m) \<Rightarrow> setKcpTunnel a t m))"

definition kcpUpdateAt :: "('k, 'a) tunnel_env \<Rightarrow> nat \<Rightarrow> ('k, 'a) CliTunnelManager_scheme \<Rightarrow> ('k, 'a) CliTunnelManager_scheme" where
  "kcpUpdateAt E a m =
     (case map_of (tm_kcps m) a of
        None \<Rightarrow> faulted m
      | Some r \<Rightarrow> (case kcpUpdate (te_kcp E) (te_cm256 E) (kcpCallbacks E a r) (te_now E) (ko_tunnel r, m) of (t, m) \<Rightarrow> setKcpTunnel a t m))"

section \<open>Receiving datagrams\<close>

text \<open>The \<^verbatim>\<open>switch\<close> over the type of a datagram.\<close>

definition dispatchDatagram :: "('k, 'a) tunnel_env \<Rightarrow> bytes \<Rightarrow> ('k, 'a) CliTunnelManager_scheme \<Rightarrow> ('k, 'a) CliTunnelManager_scheme" where
  "dispatchDatagram E buf m =
     (let pktType = buf ! 0; cls = buf ! 1; srcPeerId = readU32BE (drop 2 buf); dstPeerId = readU32BE (drop 6 buf) in
      if pktType = UDP_RELAY_DATA
      then if length buf < sizeof_UdpRelayHeader then m
           else if dstPeerId \<noteq> tm_myPeerId m \<or> cls \<noteq> TRAFFIC_TCP \<and> cls \<noteq> TRAFFIC_UDP then m
           else (case map_of (tm_kcpByPeerClass m) (tunnelKey srcPeerId cls) of
                   None \<Rightarrow> m | Some k \<Rightarrow> kcpFeedAt E (drop sizeof_UdpRelayHeader buf) k m)
      else if pktType = UDP_RAW_RELAY_DATA
      then if length buf < sizeof_UdpRelayHeader + sizeof_FragHeader then m
           else if dstPeerId \<noteq> tm_myPeerId m \<or> cls \<noteq> TRAFFIC_TCP \<and> cls \<noteq> TRAFFIC_UDP then m
           else (case map_of (tm_rawByPeerClass m) (tunnelKey srcPeerId cls) of
                   None \<Rightarrow> m | Some r \<Rightarrow> rawFeedAt E (drop sizeof_UdpRelayHeader buf) r m)
      else m)"

text \<open>One round of the loop: a datagram that is not empty, with its sender.\<close>

definition onDatagram :: "('k, 'a) tunnel_env \<Rightarrow> bytes \<times> u32 \<times> u16 \<Rightarrow> ('k, 'a) CliTunnelManager_scheme \<Rightarrow> ('k, 'a) CliTunnelManager_scheme" where
  "onDatagram E d m =
     (case d of (buf, ip, port) \<Rightarrow>
      if \<not> dataPlaneAllowsTraffic (tm_dataPlaneState m) (tm_securityMode m) then m
      else if ip \<noteq> tm_serverIP m \<or> port \<noteq> tm_serverPort m then recordPacketDrop (te_now E) UdpEndpointMismatch m
      else if tm_securityMode m = Secure
      then if buf ! 0 \<noteq> UDP_ENCRYPTED then recordPacketDrop (te_now E) UdpPlaintextRejected m
           else if length buf < 1 + SECURE_SESSION_ID_SIZE + SECURE_FRAME_OVERHEAD then recordPacketDrop (te_now E) UdpTruncated m
           else if readU32BE (drop 1 buf) \<noteq> tm_secureSessionId m then recordPacketDrop (te_now E) UdpSessionMismatch m
           else case decryptFrame (te_crypto E) (drop (1 + SECURE_SESSION_ID_SIZE) buf) [] (tm_udpCipher m) of (plain, c) \<Rightarrow>
             let m = m\<lparr>tm_udpCipher := c\<rparr> in
             (case plain of
                None \<Rightarrow> recordPacketDrop (te_now E) UdpDecryptRejected m
              | Some plain \<Rightarrow>
                  if plain = [] then recordPacketDrop (te_now E) UdpDecryptRejected m
                  else if length plain > 65536 then m
                  else dispatchDatagram E plain m)
      else dispatchDatagram E buf m)"

text \<open>The datagrams that \<^verbatim>\<open>recvfrom\<close> would return; the loop leaves at the first empty one.\<close>

definition onUdpReadable :: "('k, 'a) tunnel_env \<Rightarrow> (bytes \<times> u32 \<times> u16) list \<Rightarrow> ('k, 'a) CliTunnelManager_scheme \<Rightarrow> ('k, 'a) CliTunnelManager_scheme" where
  "onUdpReadable E datagrams m =
     (if tm_udpFd m = SOCK_INVALID then m else fold (onDatagram E) (takeWhile (\<lambda>d. fst d \<noteq> []) datagrams) m)"

section \<open>The timer\<close>

definition flushDead1 :: "('k, 'a) tunnel_env \<Rightarrow> u64 \<Rightarrow> ('k, 'a) CliTunnelManager_scheme \<Rightarrow> ('k, 'a) CliTunnelManager_scheme" where
  "flushDead1 E key m =
     (let peerId = ucast (drop_bit 8 key); cls = ucast (key AND 0xFF) in
      if map_of (tm_peerById m) peerId = None then m else te_onTunnelDead E peerId cls m)"

definition flushPendingTransportDead :: "('k, 'a) tunnel_env \<Rightarrow> ('k, 'a) CliTunnelManager_scheme \<Rightarrow> ('k, 'a) CliTunnelManager_scheme" where
  "flushPendingTransportDead E m =
     (if tm_dataPlaneState m \<noteq> Running then m\<lparr>tm_pendingTransportDead := []\<rparr>
      else if tm_pendingTransportDead m = [] then m
      else fold (flushDead1 E) (map fst (tm_pendingTransportDead m)) (m\<lparr>tm_pendingTransportDead := []\<rparr>))"

definition kcpUpdateKey :: "('k, 'a) tunnel_env \<Rightarrow> u64 \<Rightarrow> ('k, 'a) CliTunnelManager_scheme \<Rightarrow> ('k, 'a) CliTunnelManager_scheme" where
  "kcpUpdateKey E key m = (case map_of (tm_kcpByPeerClass m) key of None \<Rightarrow> m | Some k \<Rightarrow> kcpUpdateAt E k m)"

definition rawUpdateKey :: "('k, 'a) tunnel_env \<Rightarrow> u64 \<Rightarrow> ('k, 'a) CliTunnelManager_scheme \<Rightarrow> ('k, 'a) CliTunnelManager_scheme" where
  "rawUpdateKey E key m = (case map_of (tm_rawByPeerClass m) key of None \<Rightarrow> m | Some r \<Rightarrow> rawUpdateAt E r m)"

definition updateKcp :: "('k, 'a) tunnel_env \<Rightarrow> ('k, 'a) CliTunnelManager_scheme \<Rightarrow> ('k, 'a) CliTunnelManager_scheme" where
  "updateKcp E m =
     (if tm_dataPlaneState m \<noteq> Running \<or> tm_securityMode m = Unconfigured then m
      else let m = fold (kcpUpdateKey E) (map fst (tm_kcpByPeerClass m)) m;
               m = fold (rawUpdateKey E) (map fst (tm_rawByPeerClass m)) m
           in flushPendingTransportDead E m)"

section \<open>Peers and tunnels come and go\<close>

definition addPeer :: "u32 \<Rightarrow> u32 \<Rightarrow> u32 \<Rightarrow> bytes \<Rightarrow> ('k, 'a) CliTunnelManager_scheme \<Rightarrow> nat \<times> ('k, 'a) CliTunnelManager_scheme" where
  "addPeer now peerId virtualIP name m =
     (case map_of (tm_peerById m) peerId of
        Some a \<Rightarrow> (a, m)
      | None \<Rightarrow>
          let a = tm_nextAddr m in
          (a, m\<lparr>tm_nextAddr := a + 1, tm_peers := om_upd a (newPeerConnection now peerId virtualIP name) (tm_peers m),
                tm_peerById := om_upd peerId a (tm_peerById m), tm_peerByVIP := om_upd virtualIP a (tm_peerByVIP m)\<rparr>))"

text \<open>\<^verbatim>\<open>delete\<close>, and the removal of the entry, of the tunnels with a key.\<close>

definition deleteTunnels :: "u64 \<Rightarrow> ('k, 'a) CliTunnelManager_scheme \<Rightarrow> ('k, 'a) CliTunnelManager_scheme" where
  "deleteTunnels key m =
     (let m = (case map_of (tm_kcpByPeerClass m) key of
                 None \<Rightarrow> m
               | Some k \<Rightarrow> m\<lparr>tm_kcps := om_del k (tm_kcps m), tm_kcpByPeerClass := om_del key (tm_kcpByPeerClass m)\<rparr>)
      in case map_of (tm_rawByPeerClass m) key of
           None \<Rightarrow> m
         | Some r \<Rightarrow> m\<lparr>tm_raws := om_del r (tm_raws m), tm_rawByPeerClass := om_del key (tm_rawByPeerClass m)\<rparr>)"

definition removePeer :: "u32 \<Rightarrow> ('k, 'a) CliTunnelManager_scheme \<Rightarrow> ('k, 'a) CliTunnelManager_scheme" where
  "removePeer peerId m =
     (case map_of (tm_peerById m) peerId of
        None \<Rightarrow> m
      | Some a \<Rightarrow>
          let m = m\<lparr>tm_pendingTransportDead := filter (\<lambda>(key, _). drop_bit 8 key \<noteq> ucast peerId) (tm_pendingTransportDead m)\<rparr> in
          (case map_of (tm_peers m) a of
             None \<Rightarrow> faulted m
           | Some p \<Rightarrow>
               let m = m\<lparr>tm_peerByVIP := om_del (pc_virtualIP p) (tm_peerByVIP m)\<rparr>;
                   m = deleteTunnels (tunnelKey peerId TRAFFIC_UDP) (deleteTunnels (tunnelKey peerId TRAFFIC_TCP) m)
               in m\<lparr>tm_peerById := om_del peerId (tm_peerById m), tm_peers := om_del a (tm_peers m)\<rparr>))"

definition removeTransport :: "u32 \<Rightarrow> u32 \<Rightarrow> u8 \<Rightarrow> ('k, 'a) CliTunnelManager_scheme \<Rightarrow> ('k, 'a) CliTunnelManager_scheme" where
  "removeTransport now peerId cls m =
     (case map_of (tm_peerById m) peerId of
        None \<Rightarrow> m
      | Some a \<Rightarrow>
          let cls = (if unat cls > 2 then TRAFFIC_UDP else cls); key = tunnelKey peerId cls;
              m = m\<lparr>tm_pendingTransportDead := om_del key (tm_pendingTransportDead m)\<rparr>;
              m = (case map_of (tm_kcpByPeerClass m) key of
                     None \<Rightarrow> m
                   | Some k \<Rightarrow> (modPeer a (pcClearKcpTunnel cls) m)
                       \<lparr>tm_kcps := om_del k (tm_kcps m), tm_kcpByPeerClass := om_del key (tm_kcpByPeerClass m)\<rparr>);
              m = (case map_of (tm_rawByPeerClass m) key of
                     None \<Rightarrow> m
                   | Some r \<Rightarrow> (modPeer a (pcClearRawUdpTunnel cls) m)
                       \<lparr>tm_raws := om_del r (tm_raws m), tm_rawByPeerClass := om_del key (tm_rawByPeerClass m)\<rparr>)
          in modPeer a (pcClearTransport now cls) m)"

text \<open>\<^verbatim>\<open>delete\<close> of every object that a table names.\<close>

definition removeAllPeers :: "('k, 'a) CliTunnelManager_scheme \<Rightarrow> ('k, 'a) CliTunnelManager_scheme" where
  "removeAllPeers m =
     (let m = m\<lparr>tm_pendingTransportDead := []\<rparr>;
          m = m\<lparr>tm_kcps := fold om_del (map snd (tm_kcpByPeerClass m)) (tm_kcps m),
                tm_raws := fold om_del (map snd (tm_rawByPeerClass m)) (tm_raws m),
                tm_peers := fold om_del (map snd (tm_peerById m)) (tm_peers m)\<rparr>
      in m\<lparr>tm_kcpByPeerClass := [], tm_rawByPeerClass := [], tm_peerById := [], tm_peerByVIP := []\<rparr>)"

definition destroyTunnelManager :: "('k, 'a) CliTunnelManager_scheme \<Rightarrow> ('k, 'a) CliTunnelManager_scheme" where
  "destroyTunnelManager m = (clearSecurityContext (removeAllPeers (stopDataPlane m)))\<lparr>tm_udpFd := SOCK_INVALID\<rparr>"

definition createKcpTunnel ::
  "('k, 'a) tunnel_env \<Rightarrow> nat \<Rightarrow> u32 \<Rightarrow> u16 \<Rightarrow> TransportType \<Rightarrow> FecMode \<Rightarrow> u16 \<Rightarrow> KcpProfile \<Rightarrow> u8 \<Rightarrow> ('k, 'a) CliTunnelManager_scheme \<Rightarrow> nat \<times> ('k, 'a) CliTunnelManager_scheme" where
  "createKcpTunnel E peer addr port type fecMode mtu profile trafficClass m =
     (case map_of (tm_peers m) peer of
        None \<Rightarrow> (0, faulted m)
      | Some p \<Rightarrow>
          let conv = tm_myPeerId m XOR pc_peerId p XOR push_bit 24 (ucast trafficClass); conv = (if conv = 0 then 1 else conv);
              k = tm_nextAddr m;
              tunnel = newKcpTunnel (te_kcp E) (te_now E) conv addr port fecMode mtu profile trafficClass (tm_securityMode m = Secure);
              m = m\<lparr>tm_nextAddr := k + 1,
                    tm_kcps := om_upd k \<lparr>ko_tunnel = tunnel, ko_peer = peer, ko_peerId = pc_peerId p, ko_cls = trafficClass\<rparr> (tm_kcps m)\<rparr>;
              m = modPeer peer (\<lambda>p. pcSetTransport trafficClass type (pcSetKcpTunnel trafficClass (Some k) p)) m
          in (k, m\<lparr>tm_kcpByPeerClass := om_upd (tunnelKey (pc_peerId p) trafficClass) k (tm_kcpByPeerClass m)\<rparr>))"

definition createRawUdpTunnel :: "('k, 'a) tunnel_env \<Rightarrow> nat \<Rightarrow> u32 \<Rightarrow> u16 \<Rightarrow> FecMode \<Rightarrow> u16 \<Rightarrow> u8 \<Rightarrow> ('k, 'a) CliTunnelManager_scheme \<Rightarrow> nat \<times> ('k, 'a) CliTunnelManager_scheme" where
  "createRawUdpTunnel E peer addr port fecMode mtu trafficClass m =
     (case map_of (tm_peers m) peer of
        None \<Rightarrow> (0, faulted m)
      | Some p \<Rightarrow>
          let r = tm_nextAddr m;
              tunnel = newRawUdpTunnel (te_now E) addr port fecMode mtu trafficClass (tm_securityMode m = Secure);
              m = m\<lparr>tm_nextAddr := r + 1,
                    tm_raws := om_upd r \<lparr>ro_tunnel = tunnel, ro_peer = peer, ro_peerId = pc_peerId p, ro_cls = trafficClass\<rparr> (tm_raws m)\<rparr>;
              m = modPeer peer (\<lambda>p. pcSetTransport trafficClass TRANSPORT_RELAY_RAW_UDP (pcSetRawUdpTunnel trafficClass (Some r) p)) m
          in (r, m\<lparr>tm_rawByPeerClass := om_upd (tunnelKey (pc_peerId p) trafficClass) r (tm_rawByPeerClass m)\<rparr>))"

end
