(* ===== verification/Cli_World.thy ===== *)
theory Cli_World
  imports Cli_Tunnel
begin

text \<open>
  What a tunnel does to the rest of the program: it reaches the rest through its callbacks
  only, so whatever they keep is kept by every operation of the tunnel, whatever its own state
  and however the FEC codes and KCP sessions behave.
\<close>

section \<open>Raw tunnels\<close>

locale raw_world =
  fixes cb :: "'w raw_callbacks" and P :: "'w \<Rightarrow> bool"
  assumes udpSend: "P w \<Longrightarrow> P (rc_udpSend cb d ip port w)"
    and onData: "P w \<Longrightarrow> P (snd (rc_onData cb d (t, w)))"
    and onDead: "P w \<Longrightarrow> P (rc_onDead cb w)"
begin

lemma packet: "P (snd s) \<Longrightarrow> P (snd (sendRawPacket cb now p s))"
  by (cases s) (simp add: sendRawPacket_def udpSend)

lemma packets: "P (snd s) \<Longrightarrow> P (snd (fold (sendRawPacket cb now) ps s))"
  by (induction ps arbitrary: s) (simp_all add: packet)

lemma fragment: "P (snd s) \<Longrightarrow> P (snd (sendFragment K cb now d i n msg len s))"
  by (auto simp: sendFragment_def Let_def packet packets split: prod.split option.split)

lemma fragments: "P (snd s) \<Longrightarrow> P (snd (fold (\<lambda>i. sendFragment K cb now (f i) (g i) n msg len) js s))"
  by (induction js arbitrary: s) (simp_all add: fragment)

lemma send: "P (snd s) \<Longrightarrow> P (snd (snd (rawSend K cb now p s)))"
  by (auto simp: rawSend_def Let_def fragments split: prod.split)

lemma complete: "P (snd s) \<Longrightarrow> P (snd (completeMessage cb msg s))"
  by (auto simp: completeMessage_def Let_def onData split: prod.split option.split)

lemma add: "P (snd s) \<Longrightarrow> P (snd (addFragment cb msg i payload s))"
  by (auto simp: addFragment_def Let_def complete split: prod.split option.split)

lemma collect: "P (snd s) \<Longrightarrow> P (snd (collectFragment cb now msg i n len payload s))"
  by (auto simp: collectFragment_def Let_def add split: prod.split option.split)

lemma frag: "P (snd s) \<Longrightarrow> P (snd (processFrag K cb now d s))"
  by (cases s) (simp add: processFrag_def Let_def fragment collect onData)

lemma frags: "P (snd s) \<Longrightarrow> P (snd (fold (processFrag K cb now) ds s))"
  by (induction ds arbitrary: s) (simp_all add: frag)

lemma feed: "P (snd s) \<Longrightarrow> P (snd (rawFeedInput K cb now d s))"
  by (auto simp: rawFeedInput_def Let_def frag frags split: prod.split option.split)

lemma keepalive: "P (snd s) \<Longrightarrow> P (snd (rawKeepalive K cb now s))"
  by (auto simp: rawKeepalive_def Let_def fragment split: prod.split)

lemma flush: "P (snd s) \<Longrightarrow> P (snd (rawFlushEncoder K cb now s))"
  by (auto simp: rawFlushEncoder_def Let_def packets split: prod.split option.split)

lemma timer: "P (snd s) \<Longrightarrow> P (snd (rawUpdate K cb now s))"
proof -
  assume p: "P (snd s)"
  obtain t w where s: "s = (t, w)" by fastforce
  have "P (snd (rawFlushEncoder K cb now (rawKeepalive K cb now s)))" by (intro flush keepalive p)
  then show ?thesis using p s by (auto simp: rawUpdate_def onDead split: prod.split)
qed

end

section \<open>KCP tunnels\<close>

locale kcp_world =
  fixes cb :: "('k, 'w) kcp_callbacks" and P :: "'w \<Rightarrow> bool"
  assumes udpSend: "P w \<Longrightarrow> P (kc_udpSend cb d ip port w)"
    and onData: "P w \<Longrightarrow> P (snd (kc_onData cb d (t, w)))"
    and onDead: "P w \<Longrightarrow> P (kc_onDead cb w)"
begin

lemma packet: "P (snd s) \<Longrightarrow> P (snd (sendKcpPacket cb now p s))"
  by (cases s) (simp add: sendKcpPacket_def udpSend)

lemma packets: "P (snd s) \<Longrightarrow> P (snd (fold (sendKcpPacket cb now) ps s))"
  by (induction ps arbitrary: s) (simp_all add: packet)

lemma emit: "P (snd s) \<Longrightarrow> P (snd (kcpOutput K cb now p s))"
  by (auto simp: kcpOutput_def Let_def packet packets split: prod.split option.split)

lemma outputs: "P (snd s) \<Longrightarrow> P (snd (fold (kcpOutput K cb now) ps s))"
  by (induction ps arbitrary: s) (simp_all add: emit)

lemma recvLoop: "P (snd s) \<Longrightarrow> P (snd (kcpRecvLoop A cb n s))"
proof (induction n arbitrary: s)
  case (Suc n)
  obtain t w where s: "s = (t, w)" by fastforce
  show ?case using Suc.prems unfolding s
    by (auto simp: Let_def Suc.IH onData split: prod.split option.split)
qed simp

lemma recv: "P (snd s) \<Longrightarrow> P (snd (tryRecv A cb s))"
  by (simp add: tryRecv_def recvLoop del: kcpRecvLoop.simps)

lemma input: "P (snd s) \<Longrightarrow> P (snd (kcpInput A cb d s))"
  by (auto simp: kcpInput_def recv split: prod.split)

lemma inputs: "P (snd s) \<Longrightarrow> P (snd (fold (kcpInput A cb) ds s))"
  by (induction ds arbitrary: s) (simp_all add: input)

lemma feed: "P (snd s) \<Longrightarrow> P (snd (kcpFeedInput A K cb now d s))"
  by (auto simp: kcpFeedInput_def Let_def input inputs split: prod.split option.split)

lemma flush: "P (snd s) \<Longrightarrow> P (snd (kcpFlush A K cb now s))"
  by (auto simp: kcpFlush_def outputs split: prod.split)

lemma flushEncoder: "P (snd s) \<Longrightarrow> P (snd (kcpFlushEncoder K cb now s))"
  by (auto simp: kcpFlushEncoder_def Let_def packets split: prod.split option.split)

lemma timer: "P (snd s) \<Longrightarrow> P (snd (kcpUpdate A K cb now s))"
proof -
  assume p: "P (snd s)"
  obtain t w where s: "tryRecv A cb (kcpFlush A K cb now s) = (t, w)" by fastforce
  then have w: "P w" using recv [OF flush [OF p], of A A K now] by simp
  then have "P (snd (kcpFlushEncoder K cb now (t', w)))" for t' by (intro flushEncoder) simp
  then show ?thesis using w s onDead [OF w] by (auto simp: kcpUpdate_def Let_def case_prod_beta)
qed

end

end
