(* ===== verification/Cli_Ownership.thy ===== *)
theory Cli_Ownership
  imports Cli_World
begin

text \<open>
  Who points to whom in the tunnel manager.  The shape of a manager is what its pointers are:
  the four tables, and of each object its identity and the pointers it holds.  The operations
  that create and destroy are operations on shapes; ownership is the invariant of shapes under
  which no table and no object holds a pointer to an object that is gone, and every object is in its table.
\<close>

section \<open>Keys\<close>

lemma tunnelKey_peer: "ucast (drop_bit 8 (tunnelKey i c)) = i"
  by (rule bit_word_eqI) (auto simp: tunnelKey_def bit_simps dest: bit_imp_le_length)

lemma tunnelKey_cls: "ucast (tunnelKey i c AND 0xFF) = c"
proof (rule bit_word_eqI)
  fix n assume "n < LENGTH(8)"
  moreover have m: "(0xFF :: u64) = mask 8" by (simp add: mask_eq_exp_minus_1)
  ultimately show "bit (ucast (tunnelKey i c AND 0xFF) :: u8) n = bit c n"
    unfolding m by (auto simp: tunnelKey_def bit_simps)
qed

lemma tunnelKey_inject [simp]: "tunnelKey i c = tunnelKey j d \<longleftrightarrow> i = j \<and> c = d"
  by (metis tunnelKey_peer tunnelKey_cls)

section \<open>Shapes\<close>

record peer_shape =
  ps_id :: u32
  ps_vip :: u32
  ps_kcp :: "nat option list"
  ps_raw :: "nat option list"
  ps_transport :: "TransportType list"

record tunnel_shape =
  ts_peer :: nat
  ts_id :: u32
  ts_cls :: u8

record ownership =
  ow_byId :: "u32 \<rightharpoonup> nat"
  ow_byVIP :: "u32 \<rightharpoonup> nat"
  ow_kcpTable :: "u64 \<rightharpoonup> nat"
  ow_rawTable :: "u64 \<rightharpoonup> nat"
  ow_peers :: "nat \<rightharpoonup> peer_shape"
  ow_kcps :: "nat \<rightharpoonup> tunnel_shape"
  ow_raws :: "nat \<rightharpoonup> tunnel_shape"
  ow_next :: nat
  ow_fault :: bool

definition peer_shape_of :: "CliPeerConnection \<Rightarrow> peer_shape" where
  "peer_shape_of p = \<lparr>ps_id = pc_peerId p, ps_vip = pc_virtualIP p, ps_kcp = pc_kcpTunnel p, ps_raw = pc_rawUdpTunnel p,
     ps_transport = pc_transport p\<rparr>"

definition raw_shape :: "raw_object \<Rightarrow> tunnel_shape" where
  "raw_shape r = \<lparr>ts_peer = ro_peer r, ts_id = ro_peerId r, ts_cls = ro_cls r\<rparr>"

definition kcp_shape :: "'k kcp_object \<Rightarrow> tunnel_shape" where
  "kcp_shape r = \<lparr>ts_peer = ko_peer r, ts_id = ko_peerId r, ts_cls = ko_cls r\<rparr>"

definition shape :: "('k, 'a) CliTunnelManager_scheme \<Rightarrow> ownership" where
  "shape m = \<lparr>ow_byId = map_of (tm_peerById m), ow_byVIP = map_of (tm_peerByVIP m),
     ow_kcpTable = map_of (tm_kcpByPeerClass m), ow_rawTable = map_of (tm_rawByPeerClass m),
     ow_peers = map_option peer_shape_of \<circ> map_of (tm_peers m), ow_kcps = map_option kcp_shape \<circ> map_of (tm_kcps m),
     ow_raws = map_option raw_shape \<circ> map_of (tm_raws m), ow_next = tm_nextAddr m, ow_fault = tm_fault m\<rparr>"

definition tunnel_key :: "tunnel_shape \<Rightarrow> u64" where
  "tunnel_key r = tunnelKey (ts_id r) (ts_cls r)"

subsection \<open>Operations on shapes\<close>

definition own_addPeer :: "u32 \<Rightarrow> u32 \<Rightarrow> ownership \<Rightarrow> ownership" where
  "own_addPeer i vip S =
     (if ow_byId S i \<noteq> None then S
      else S\<lparr>ow_next := ow_next S + 1, ow_byId := (ow_byId S)(i \<mapsto> ow_next S), ow_byVIP := (ow_byVIP S)(vip \<mapsto> ow_next S),
             ow_peers := (ow_peers S)(ow_next S \<mapsto> \<lparr>ps_id = i, ps_vip = vip, ps_kcp = replicate 3 None, ps_raw = replicate 3 None,
               ps_transport = replicate 3 TRANSPORT_NONE\<rparr>)\<rparr>)"

text \<open>The objects without the one that a table names.\<close>

definition without :: "nat option \<Rightarrow> (nat \<rightharpoonup> 'b) \<Rightarrow> nat \<rightharpoonup> 'b" where
  "without x objs = (case x of None \<Rightarrow> objs | Some x \<Rightarrow> objs(x := None))"

definition own_drop :: "u64 \<Rightarrow> ownership \<Rightarrow> ownership" where
  "own_drop key S =
     S\<lparr>ow_kcps := without (ow_kcpTable S key) (ow_kcps S), ow_kcpTable := (ow_kcpTable S)(key := None),
       ow_raws := without (ow_rawTable S key) (ow_raws S), ow_rawTable := (ow_rawTable S)(key := None)\<rparr>"

definition own_removePeer :: "u32 \<Rightarrow> ownership \<Rightarrow> ownership" where
  "own_removePeer i S =
     (case ow_byId S i of
        None \<Rightarrow> S
      | Some a \<Rightarrow>
          (case ow_peers S a of
             None \<Rightarrow> S\<lparr>ow_fault := True\<rparr>
           | Some p \<Rightarrow>
               let S = own_drop (tunnelKey i TRAFFIC_UDP) (own_drop (tunnelKey i TRAFFIC_TCP) (S\<lparr>ow_byVIP := (ow_byVIP S)(ps_vip p := None)\<rparr>))
               in S\<lparr>ow_byId := (ow_byId S)(i := None), ow_peers := (ow_peers S)(a := None)\<rparr>))"

definition own_removeTransport :: "u32 \<Rightarrow> u8 \<Rightarrow> ownership \<Rightarrow> ownership" where
  "own_removeTransport i cls S =
     (case ow_byId S i of
        None \<Rightarrow> S
      | Some a \<Rightarrow>
          (case ow_peers S a of
             None \<Rightarrow> (own_drop (tunnelKey i cls) S)\<lparr>ow_fault := True\<rparr>
           | Some p \<Rightarrow>
               let key = tunnelKey i cls;
                   p = p\<lparr>ps_kcp := (if ow_kcpTable S key = None then ps_kcp p else (ps_kcp p)[unat cls := None]),
                         ps_raw := (if ow_rawTable S key = None then ps_raw p else (ps_raw p)[unat cls := None]),
                         ps_transport := (ps_transport p)[unat cls := TRANSPORT_NONE]\<rparr>
               in (own_drop key S)\<lparr>ow_peers := (ow_peers S)(a \<mapsto> p)\<rparr>))"

definition own_createKcp :: "nat \<Rightarrow> TransportType \<Rightarrow> u8 \<Rightarrow> ownership \<Rightarrow> ownership" where
  "own_createKcp a type cls S =
     (case ow_peers S a of
        None \<Rightarrow> S\<lparr>ow_fault := True\<rparr>
      | Some p \<Rightarrow>
          S\<lparr>ow_next := ow_next S + 1, ow_kcps := (ow_kcps S)(ow_next S \<mapsto> \<lparr>ts_peer = a, ts_id = ps_id p, ts_cls = cls\<rparr>),
            ow_kcpTable := (ow_kcpTable S)(tunnelKey (ps_id p) cls \<mapsto> ow_next S),
            ow_peers := (ow_peers S)(a \<mapsto> p\<lparr>ps_kcp := (ps_kcp p)[unat cls := Some (ow_next S)], ps_transport := (ps_transport p)[unat cls := type]\<rparr>)\<rparr>)"

definition own_createRaw :: "nat \<Rightarrow> u8 \<Rightarrow> ownership \<Rightarrow> ownership" where
  "own_createRaw a cls S =
     (case ow_peers S a of
        None \<Rightarrow> S\<lparr>ow_fault := True\<rparr>
      | Some p \<Rightarrow>
          S\<lparr>ow_next := ow_next S + 1, ow_raws := (ow_raws S)(ow_next S \<mapsto> \<lparr>ts_peer = a, ts_id = ps_id p, ts_cls = cls\<rparr>),
            ow_rawTable := (ow_rawTable S)(tunnelKey (ps_id p) cls \<mapsto> ow_next S),
            ow_peers := (ow_peers S)(a \<mapsto> p\<lparr>ps_raw := (ps_raw p)[unat cls := Some (ow_next S)],
              ps_transport := (ps_transport p)[unat cls := TRANSPORT_RELAY_RAW_UDP]\<rparr>)\<rparr>)"

section \<open>Ownership\<close>

definition peers_owned :: "(u32 \<rightharpoonup> nat) \<Rightarrow> (u32 \<rightharpoonup> nat) \<Rightarrow> (nat \<rightharpoonup> peer_shape) \<Rightarrow> nat \<Rightarrow> bool" where
  "peers_owned byId byVIP peers n \<longleftrightarrow>
     (\<forall>i a. byId i = Some a \<longrightarrow> (\<exists>p. peers a = Some p \<and> ps_id p = i)) \<and>
     (\<forall>v a. byVIP v = Some a \<longrightarrow> (\<exists>p. peers a = Some p \<and> ps_vip p = v)) \<and>
     (\<forall>a p. peers a = Some p \<longrightarrow> a < n \<and> byId (ps_id p) = Some a \<and>
        length (ps_kcp p) = 3 \<and> length (ps_raw p) = 3 \<and> length (ps_transport p) = 3)"

definition tunnels_owned ::
  "(peer_shape \<Rightarrow> nat option list) \<Rightarrow> (u32 \<rightharpoonup> nat) \<Rightarrow> (nat \<rightharpoonup> peer_shape) \<Rightarrow> nat \<Rightarrow> (u64 \<rightharpoonup> nat) \<Rightarrow> (nat \<rightharpoonup> tunnel_shape) \<Rightarrow> bool" where
  "tunnels_owned ptr byId peers n tbl objs \<longleftrightarrow>
     (\<forall>key x. tbl key = Some x \<longrightarrow> (\<exists>r. objs x = Some r \<and> tunnel_key r = key)) \<and>
     (\<forall>x r. objs x = Some r \<longrightarrow> x < n \<and> ts_cls r \<in> {TRAFFIC_TCP, TRAFFIC_UDP} \<and> tbl (tunnel_key r) = Some x \<and>
        byId (ts_id r) = Some (ts_peer r) \<and>
        (\<exists>p. peers (ts_peer r) = Some p \<and> ps_transport p ! unat (ts_cls r) \<noteq> TRANSPORT_NONE)) \<and>
     (\<forall>a p j x. peers a = Some p \<longrightarrow> j < 3 \<longrightarrow> ptr p ! j = Some x \<longrightarrow>
        j \<noteq> 0 \<and> tbl (tunnelKey (ps_id p) (of_nat j)) = Some x)"

definition owned :: "ownership \<Rightarrow> bool" where
  "owned S \<longleftrightarrow> \<not> ow_fault S \<and> peers_owned (ow_byId S) (ow_byVIP S) (ow_peers S) (ow_next S) \<and>
     tunnels_owned ps_kcp (ow_byId S) (ow_peers S) (ow_next S) (ow_kcpTable S) (ow_kcps S) \<and>
     tunnels_owned ps_raw (ow_byId S) (ow_peers S) (ow_next S) (ow_rawTable S) (ow_raws S)"

lemma ownedD:
  assumes "owned S"
  shows "\<not> ow_fault S" "peers_owned (ow_byId S) (ow_byVIP S) (ow_peers S) (ow_next S)"
    "tunnels_owned ps_kcp (ow_byId S) (ow_peers S) (ow_next S) (ow_kcpTable S) (ow_kcps S)"
    "tunnels_owned ps_raw (ow_byId S) (ow_peers S) (ow_next S) (ow_rawTable S) (ow_raws S)"
  using assms by (simp_all add: owned_def)

lemma peers_ownedD:
  assumes "peers_owned byId byVIP peers n"
  shows "byId i = Some a \<Longrightarrow> \<exists>p. peers a = Some p \<and> ps_id p = i" "byVIP v = Some a \<Longrightarrow> \<exists>p. peers a = Some p \<and> ps_vip p = v"
    "peers a = Some p \<Longrightarrow> a < n" "peers a = Some p \<Longrightarrow> byId (ps_id p) = Some a"
    "peers a = Some p \<Longrightarrow> length (ps_kcp p) = 3 \<and> length (ps_raw p) = 3 \<and> length (ps_transport p) = 3"
  using assms by (simp_all add: peers_owned_def)

lemma tunnels_ownedD:
  assumes "tunnels_owned ptr byId peers n tbl objs"
  shows "tbl key = Some x \<Longrightarrow> \<exists>r. objs x = Some r \<and> tunnel_key r = key" "objs x = Some r \<Longrightarrow> x < n"
    "objs x = Some r \<Longrightarrow> ts_cls r \<in> {TRAFFIC_TCP, TRAFFIC_UDP}" "objs x = Some r \<Longrightarrow> tbl (tunnel_key r) = Some x"
    "objs x = Some r \<Longrightarrow> byId (ts_id r) = Some (ts_peer r)"
    "objs x = Some r \<Longrightarrow> \<exists>p. peers (ts_peer r) = Some p \<and> ps_transport p ! unat (ts_cls r) \<noteq> TRANSPORT_NONE"
    "peers a = Some p \<Longrightarrow> j < 3 \<Longrightarrow> ptr p ! j = Some x \<Longrightarrow> j \<noteq> 0 \<and> tbl (tunnelKey (ps_id p) (of_nat j)) = Some x"
  using assms unfolding tunnels_owned_def by blast+

subsection \<open>A peer is added\<close>

lemma tunnels_owned_add:
  assumes T: "tunnels_owned ptr byId peers n tbl objs" and "byId i = None" "ps_id p = i" "ptr p = replicate 3 None" "peers n = None"
  shows "tunnels_owned ptr (byId(i \<mapsto> n)) (peers(n \<mapsto> p)) (n + 1) tbl objs"
  unfolding tunnels_owned_def
proof (intro conjI allI impI)
  fix x r assume r: "objs x = Some r"
  note d = tunnels_ownedD(2-6) [OF T r]
  show "x < n + 1" "ts_cls r \<in> {TRAFFIC_TCP, TRAFFIC_UDP}" "tbl (tunnel_key r) = Some x" using d by auto
  have "ts_id r \<noteq> i" using d(4) assms(2) by auto
  then show "(byId(i \<mapsto> n)) (ts_id r) = Some (ts_peer r)" using d(4) by simp
  show "\<exists>q. (peers(n \<mapsto> p)) (ts_peer r) = Some q \<and> ps_transport q ! unat (ts_cls r) \<noteq> TRANSPORT_NONE"
    using d(5) assms(5) by (metis fun_upd_other option.distinct(1))
next
  fix a q j x assume q: "(peers(n \<mapsto> p)) a = Some q" and j: "j < 3" and x: "ptr q ! j = Some x"
  have "a \<noteq> n" using q x j assms(4) by (auto split: if_splits)
  then have "peers a = Some q" using q by simp
  then show "j \<noteq> 0" "tbl (tunnelKey (ps_id q) (of_nat j)) = Some x" using tunnels_ownedD(7) [OF T _ j x] by auto
qed (use tunnels_ownedD(1) [OF T] in blast)

lemma owned_addPeer: "owned S \<Longrightarrow> owned (own_addPeer i vip S)"
proof (cases "ow_byId S i")
  case None
  assume S: "owned S"
  note P = ownedD(2) [OF S]
  have fresh: "ow_peers S (ow_next S) = None" using peers_ownedD(3) [OF P] by fastforce
  let ?p = "\<lparr>ps_id = i, ps_vip = vip, ps_kcp = replicate 3 None, ps_raw = replicate 3 None, ps_transport = replicate 3 TRANSPORT_NONE\<rparr>"
  have "peers_owned ((ow_byId S)(i \<mapsto> ow_next S)) ((ow_byVIP S)(vip \<mapsto> ow_next S)) ((ow_peers S)(ow_next S \<mapsto> ?p)) (ow_next S + 1)"
    using P None fresh unfolding peers_owned_def by (fastforce split: if_splits)
  then show ?thesis using S None tunnels_owned_add [OF ownedD(3) [OF S] None, of ?p] tunnels_owned_add [OF ownedD(4) [OF S] None, of ?p] fresh
    by (simp add: own_addPeer_def owned_def)
qed (simp add: own_addPeer_def)

subsection \<open>A peer is removed\<close>

lemma without_Some [simp]: "without x objs y = Some r \<longleftrightarrow> objs y = Some r \<and> x \<noteq> Some y"
  by (auto simp: without_def split: option.split)

lemma kept_key:
  assumes T: "tunnels_owned ptr byId peers n tbl objs" and "tbl key = Some x" "key \<noteq> key'"
  shows "tbl key' \<noteq> Some x"
  using tunnels_ownedD(1) [OF T] assms(2,3) by (metis option.inject)

lemma tunnels_owned_remove:
  assumes T: "tunnels_owned ptr byId peers n tbl objs" and P: "peers_owned byId byVIP peers n"
    and "byId i = Some a" "k1 = tunnelKey i TRAFFIC_TCP" "k2 = tunnelKey i TRAFFIC_UDP"
  shows "tunnels_owned ptr (byId(i := None)) (peers(a := None)) n (tbl(k1 := None, k2 := None)) (without (tbl k2) (without (tbl k1) objs))"
  unfolding tunnels_owned_def
proof (intro conjI allI impI)
  fix key x assume k: "(tbl(k1 := None, k2 := None)) key = Some x"
  then have t: "tbl key = Some x" "key \<noteq> k1" "key \<noteq> k2" by (auto split: if_splits)
  then show "\<exists>r. without (tbl k2) (without (tbl k1) objs) x = Some r \<and> tunnel_key r = key"
    using tunnels_ownedD(1) [OF T t(1)] kept_key [OF T t(1,2)] kept_key [OF T t(1,3)] by simp
next
  fix x r assume "without (tbl k2) (without (tbl k1) objs) x = Some r"
  then have r: "objs x = Some r" "tbl k1 \<noteq> Some x" "tbl k2 \<noteq> Some x" by auto
  note d = tunnels_ownedD(2-6) [OF T r(1)]
  have key: "tunnel_key r \<noteq> k1" "tunnel_key r \<noteq> k2" using d(3) r(2,3) by auto
  then have i: "ts_id r \<noteq> i" using d(2) assms(4,5) by (auto simp: tunnel_key_def)
  show "x < n" "ts_cls r \<in> {TRAFFIC_TCP, TRAFFIC_UDP}" using d by auto
  show "(tbl(k1 := None, k2 := None)) (tunnel_key r) = Some x" using d(3) key by simp
  show "(byId(i := None)) (ts_id r) = Some (ts_peer r)" using d(4) i by simp
  have "ts_peer r \<noteq> a" using peers_ownedD(1) [OF P d(4)] peers_ownedD(1) [OF P assms(3)] i by auto
  then show "\<exists>p. (peers(a := None)) (ts_peer r) = Some p \<and> ps_transport p ! unat (ts_cls r) \<noteq> TRANSPORT_NONE" using d(5) by simp
next
  fix b q j x assume q: "(peers(a := None)) b = Some q" and j: "j < 3" and x: "ptr q ! j = Some x"
  have b: "b \<noteq> a" "peers b = Some q" using q by (auto split: if_splits)
  then have "ps_id q \<noteq> i" using peers_ownedD(4) [OF P b(2)] assms(3) by auto
  then show "j \<noteq> 0" "(tbl(k1 := None, k2 := None)) (tunnelKey (ps_id q) (of_nat j)) = Some x"
    using tunnels_ownedD(7) [OF T b(2) j x] assms(4,5) by auto
qed

lemma owned_removePeer: "owned S \<Longrightarrow> owned (own_removePeer i S)"
proof (cases "ow_byId S i")
  case (Some a)
  assume S: "owned S"
  note P = ownedD(2) [OF S]
  obtain p where p: "ow_peers S a = Some p" "ps_id p = i" using peers_ownedD(1) [OF P Some] by auto
  have "peers_owned ((ow_byId S)(i := None)) ((ow_byVIP S)(ps_vip p := None)) ((ow_peers S)(a := None)) (ow_next S)"
    unfolding peers_owned_def
  proof (intro conjI allI impI)
    fix j b assume "((ow_byId S)(i := None)) j = Some b"
    then show "\<exists>q. ((ow_peers S)(a := None)) b = Some q \<and> ps_id q = j"
      using peers_ownedD(1) [OF P, of j b] p by (auto split: if_splits)
  next
    fix v b assume "((ow_byVIP S)(ps_vip p := None)) v = Some b"
    then show "\<exists>q. ((ow_peers S)(a := None)) b = Some q \<and> ps_vip q = v"
      using peers_ownedD(2) [OF P, of v b] p by (auto split: if_splits)
  next
    fix b q assume "((ow_peers S)(a := None)) b = Some q"
    then have q: "b \<noteq> a" "ow_peers S b = Some q" by (auto split: if_splits)
    then show "b < ow_next S" "((ow_byId S)(i := None)) (ps_id q) = Some b" "length (ps_kcp q) = 3" "length (ps_raw q) = 3" "length (ps_transport q) = 3"
      using peers_ownedD(3-5) [OF P q(2)] Some by auto
  qed
  moreover note tunnels_owned_remove [OF ownedD(3) [OF S] P Some refl refl] tunnels_owned_remove [OF ownedD(4) [OF S] P Some refl refl]
  ultimately show ?thesis using S Some p by (simp add: own_removePeer_def own_drop_def owned_def Let_def)
qed (simp add: own_removePeer_def)

subsection \<open>A transport is removed\<close>

lemma unat_class: "cls \<in> {TRAFFIC_TCP, TRAFFIC_UDP} \<Longrightarrow> unat cls < 3 \<and> unat cls \<noteq> 0 \<and> of_nat (unat cls) = cls"
  by auto

lemma tunnels_owned_clear:
  assumes T: "tunnels_owned ptr byId peers n tbl objs" and P: "peers_owned byId byVIP peers n"
    and a: "byId i = Some a" "peers a = Some p" "ps_id p = i" and c: "unat cls \<le> 2" "key = tunnelKey i cls"
    and p': "ps_id p' = i" "ps_transport p' = (ps_transport p)[unat cls := TRANSPORT_NONE]"
      "ptr p' = (if tbl key = None then ptr p else (ptr p)[unat cls := None])" "length (ptr p) = 3"
  shows "tunnels_owned ptr byId (peers(a \<mapsto> p')) n (tbl(key := None)) (without (tbl key) objs)"
  unfolding tunnels_owned_def
proof (intro conjI allI impI)
  fix k x assume "(tbl(key := None)) k = Some x"
  then have t: "tbl k = Some x" "k \<noteq> key" by (auto split: if_splits)
  then show "\<exists>r. without (tbl key) objs x = Some r \<and> tunnel_key r = k"
    using tunnels_ownedD(1) [OF T t(1)] kept_key [OF T t] by simp
next
  fix x r assume "without (tbl key) objs x = Some r"
  then have r: "objs x = Some r" "tbl key \<noteq> Some x" by auto
  note d = tunnels_ownedD(2-6) [OF T r(1)]
  have k: "tunnel_key r \<noteq> key" using d(3) r(2) by auto
  show "x < n" "ts_cls r \<in> {TRAFFIC_TCP, TRAFFIC_UDP}" "byId (ts_id r) = Some (ts_peer r)" using d by auto
  show "(tbl(key := None)) (tunnel_key r) = Some x" using d(3) k by simp
  obtain q where q: "peers (ts_peer r) = Some q" "ps_transport q ! unat (ts_cls r) \<noteq> TRANSPORT_NONE" using d(5) by auto
  show "\<exists>q. (peers(a \<mapsto> p')) (ts_peer r) = Some q \<and> ps_transport q ! unat (ts_cls r) \<noteq> TRANSPORT_NONE"
  proof (cases "ts_peer r = a")
    case True
    then have "ts_id r = i" using peers_ownedD(1) [OF P d(4)] a(2,3) by auto
    then have "unat (ts_cls r) \<noteq> unat cls" using k c(2) by (metis tunnel_key_def word_unat_eq_iff)
    then show ?thesis using q True a(2) p'(2) by simp
  qed (use q in auto)
next
  fix b q j x assume q: "(peers(a \<mapsto> p')) b = Some q" and j: "j < 3" and x: "ptr q ! j = Some x"
  show "j \<noteq> 0" "(tbl(key := None)) (tunnelKey (ps_id q) (of_nat j)) = Some x"
  proof (atomize (full), cases "b = a")
    case True
    then have "ptr p ! j = Some x \<and> (tbl key = None \<or> j \<noteq> unat cls)"
      using q x p'(3,4) j c(1) by (auto simp: nth_list_update split: if_splits)
    moreover have "of_nat j \<noteq> cls" if "j \<noteq> unat cls" using that j by (auto simp: unat_of_nat)
    ultimately show "j \<noteq> 0 \<and> (tbl(key := None)) (tunnelKey (ps_id q) (of_nat j)) = Some x"
      using tunnels_ownedD(7) [OF T a(2) j, of x] True q p'(1) a(3) c(2) by auto
  next
    case False
    then have b: "peers b = Some q" using q by simp
    then have "ps_id q \<noteq> i" using peers_ownedD(4) [OF P b] a(1) False by auto
    then show "j \<noteq> 0 \<and> (tbl(key := None)) (tunnelKey (ps_id q) (of_nat j)) = Some x"
      using tunnels_ownedD(7) [OF T b j x] c(2) by simp
  qed
qed

lemma peers_owned_upd:
  assumes P: "peers_owned byId byVIP peers n" and "peers a = Some p" "ps_id p' = ps_id p" "ps_vip p' = ps_vip p" "n \<le> n'"
    "length (ps_kcp p') = 3" "length (ps_raw p') = 3" "length (ps_transport p') = 3"
  shows "peers_owned byId byVIP (peers(a \<mapsto> p')) n'"
  unfolding peers_owned_def
proof (intro conjI allI impI)
  fix j b assume "byId j = Some b"
  then show "\<exists>q. (peers(a \<mapsto> p')) b = Some q \<and> ps_id q = j" using peers_ownedD(1) [OF P, of j b] assms(2,3) by auto
next
  fix v b assume "byVIP v = Some b"
  then show "\<exists>q. (peers(a \<mapsto> p')) b = Some q \<and> ps_vip q = v" using peers_ownedD(2) [OF P, of v b] assms(2,4) by auto
next
  fix b q assume "(peers(a \<mapsto> p')) b = Some q"
  then show "b < n'" "byId (ps_id q) = Some b" "length (ps_kcp q) = 3" "length (ps_raw q) = 3" "length (ps_transport q) = 3"
    using peers_ownedD(3-5) [OF P, of b] peers_ownedD(3-5) [OF P assms(2)] assms(3-8) by (auto split: if_splits)
qed

lemma owned_removeTransport:
  assumes S: "owned S" and c: "unat cls \<le> 2"
  shows "owned (own_removeTransport i cls S)"
proof (cases "ow_byId S i")
  case (Some a)
  note P = ownedD(2) [OF S]
  obtain p where p: "ow_peers S a = Some p" "ps_id p = i" using peers_ownedD(1) [OF P Some] by auto
  let ?key = "tunnelKey i cls"
  let ?p = "p\<lparr>ps_kcp := (if ow_kcpTable S ?key = None then ps_kcp p else (ps_kcp p)[unat cls := None]),
      ps_raw := (if ow_rawTable S ?key = None then ps_raw p else (ps_raw p)[unat cls := None]),
      ps_transport := (ps_transport p)[unat cls := TRANSPORT_NONE]\<rparr>"
  note len = peers_ownedD(5) [OF P p(1)]
  have "peers_owned (ow_byId S) (ow_byVIP S) ((ow_peers S)(a \<mapsto> ?p)) (ow_next S)"
    by (rule peers_owned_upd [OF P p(1)]) (use len in simp_all)
  moreover have "tunnels_owned ps_kcp (ow_byId S) ((ow_peers S)(a \<mapsto> ?p)) (ow_next S) ((ow_kcpTable S)(?key := None)) (without (ow_kcpTable S ?key) (ow_kcps S))"
    by (rule tunnels_owned_clear [OF ownedD(3) [OF S] P Some p c]) (use p len in simp_all)
  moreover have "tunnels_owned ps_raw (ow_byId S) ((ow_peers S)(a \<mapsto> ?p)) (ow_next S) ((ow_rawTable S)(?key := None)) (without (ow_rawTable S ?key) (ow_raws S))"
    by (rule tunnels_owned_clear [OF ownedD(4) [OF S] P Some p c]) (use p len in simp_all)
  ultimately show ?thesis using S Some p by (simp add: own_removeTransport_def own_drop_def owned_def Let_def)
qed (simp add: own_removeTransport_def S)

subsection \<open>A tunnel is created\<close>

lemma no_tunnel:
  assumes T: "tunnels_owned ptr byId peers n tbl objs" and P: "peers_owned byId byVIP peers n" and a: "peers a = Some p"
    and "ps_transport p ! unat cls = TRANSPORT_NONE"
  shows "tbl (tunnelKey (ps_id p) cls) = None"
proof (rule ccontr)
  assume "tbl (tunnelKey (ps_id p) cls) \<noteq> None"
  then obtain x r where r: "objs x = Some r" "tunnel_key r = tunnelKey (ps_id p) cls" using tunnels_ownedD(1) [OF T] by blast
  then have i: "ts_id r = ps_id p" "ts_cls r = cls" by (simp_all add: tunnel_key_def)
  then have "ts_peer r = a" using tunnels_ownedD(5) [OF T r(1)] peers_ownedD(4) [OF P a] by simp
  then show False using tunnels_ownedD(6) [OF T r(1)] i a assms(4) by simp
qed

text \<open>The other kind of tunnel is not concerned.\<close>

lemma tunnels_owned_other:
  assumes T: "tunnels_owned ptr byId peers n tbl objs" and a: "peers a = Some p"
    and "ps_id p' = ps_id p" "ptr p' = ptr p" "ps_transport p' = (ps_transport p)[unat cls := type]" "type \<noteq> TRANSPORT_NONE" "unat cls < length (ps_transport p)" "n \<le> n'"
  shows "tunnels_owned ptr byId (peers(a \<mapsto> p')) n' tbl objs"
  unfolding tunnels_owned_def
proof (intro conjI allI impI)
  fix x r assume r: "objs x = Some r"
  note d = tunnels_ownedD(2-6) [OF T r]
  show "x < n'" "ts_cls r \<in> {TRAFFIC_TCP, TRAFFIC_UDP}" "tbl (tunnel_key r) = Some x" "byId (ts_id r) = Some (ts_peer r)" using d assms(8) by auto
  show "\<exists>q. (peers(a \<mapsto> p')) (ts_peer r) = Some q \<and> ps_transport q ! unat (ts_cls r) \<noteq> TRANSPORT_NONE"
    using d(5) a assms(5-7) by (auto simp: nth_list_update)
next
  fix b q j x assume "(peers(a \<mapsto> p')) b = Some q" "j < 3" "ptr q ! j = Some x"
  then show "j \<noteq> 0" "tbl (tunnelKey (ps_id q) (of_nat j)) = Some x"
    using tunnels_ownedD(7) [OF T, of b _ j x] a assms(3,4) by (auto split: if_splits)
qed (use tunnels_ownedD(1) [OF T] in blast)

lemma tunnels_owned_create:
  assumes T: "tunnels_owned ptr byId peers n tbl objs" and P: "peers_owned byId byVIP peers n" and a: "peers a = Some p"
    and c: "cls \<in> {TRAFFIC_TCP, TRAFFIC_UDP}" "key = tunnelKey (ps_id p) cls" and none: "ps_transport p ! unat cls = TRANSPORT_NONE"
    and p': "ps_id p' = ps_id p" "ps_transport p' = (ps_transport p)[unat cls := type]" "type \<noteq> TRANSPORT_NONE"
      "ptr p' = (ptr p)[unat cls := Some n]" "length (ptr p) = 3"
    and r': "r' = \<lparr>ts_peer = a, ts_id = ps_id p, ts_cls = cls\<rparr>"
  shows "tunnels_owned ptr byId (peers(a \<mapsto> p')) (n + 1) (tbl(key \<mapsto> n)) (objs(n \<mapsto> r'))"
  unfolding tunnels_owned_def
proof (intro conjI allI impI)
  have len: "unat cls < length (ps_transport p)" using peers_ownedD(5) [OF P a] unat_class [OF c(1)] by simp
  have key: "tbl key = None" using no_tunnel [OF T P a none] c(2) by simp
  {
    fix k x assume "(tbl(key \<mapsto> n)) k = Some x"
    then show "\<exists>r. (objs(n \<mapsto> r')) x = Some r \<and> tunnel_key r = k"
      using tunnels_ownedD(1) [OF T, of k x] tunnels_ownedD(2) [OF T, of x] r' c(2) by (fastforce simp: tunnel_key_def split: if_splits)
  next
    fix x r assume r: "(objs(n \<mapsto> r')) x = Some r"
    have "(x = n \<and> r = r') \<or> (x \<noteq> n \<and> objs x = Some r)" using r by (auto split: if_splits)
    then have "x < n + 1 \<and> ts_cls r \<in> {TRAFFIC_TCP, TRAFFIC_UDP} \<and> (tbl(key \<mapsto> n)) (tunnel_key r) = Some x \<and> byId (ts_id r) = Some (ts_peer r) \<and>
        (\<exists>q. (peers(a \<mapsto> p')) (ts_peer r) = Some q \<and> ps_transport q ! unat (ts_cls r) \<noteq> TRANSPORT_NONE)"
    proof (elim disjE conjE)
      assume x: "x \<noteq> n" "objs x = Some r"
      note d = tunnels_ownedD(2-6) [OF T x(2)]
      have "tunnel_key r \<noteq> key" using d(3) key by auto
      then show ?thesis using d a p'(2,3) len by (auto simp: nth_list_update)
    qed (use c r' p'(2,3) len peers_ownedD(4) [OF P a] in \<open>simp add: tunnel_key_def\<close>)
    then show "x < n + 1" "ts_cls r \<in> {TRAFFIC_TCP, TRAFFIC_UDP}" "(tbl(key \<mapsto> n)) (tunnel_key r) = Some x" "byId (ts_id r) = Some (ts_peer r)"
      "\<exists>q. (peers(a \<mapsto> p')) (ts_peer r) = Some q \<and> ps_transport q ! unat (ts_cls r) \<noteq> TRANSPORT_NONE" by auto
  next
    fix b q j x assume q: "(peers(a \<mapsto> p')) b = Some q" and j: "j < 3" and x: "ptr q ! j = Some x"
    have "j \<noteq> 0 \<and> (tbl(key \<mapsto> n)) (tunnelKey (ps_id q) (of_nat j)) = Some x"
    proof (cases "b = a \<and> j = unat cls")
      case True
      then show ?thesis using q x p'(1,4,5) c unat_class [OF c(1)] by auto
    next
      case False
      then obtain q' where q': "peers b = Some q'" "ps_id q' = ps_id q" "ptr q' ! j = Some x"
        using q x a p'(1,4,5) j by (auto split: if_splits)
      have "tunnelKey (ps_id q') (of_nat j) \<noteq> key" using tunnels_ownedD(7) [OF T q'(1) j q'(3)] key by auto
      then show ?thesis using tunnels_ownedD(7) [OF T q'(1) j q'(3)] q'(2) by simp
    qed
    then show "j \<noteq> 0" "(tbl(key \<mapsto> n)) (tunnelKey (ps_id q) (of_nat j)) = Some x" by auto
  }
qed

lemma owned_createKcp:
  assumes S: "owned S" and c: "cls \<in> {TRAFFIC_TCP, TRAFFIC_UDP}" and p: "ow_peers S a = Some p" "ps_transport p ! unat cls = TRANSPORT_NONE"
    and "type \<noteq> TRANSPORT_NONE"
  shows "owned (own_createKcp a type cls S)"
proof -
  note P = ownedD(2) [OF S] and len = peers_ownedD(5) [OF ownedD(2) [OF S] p(1)]
  let ?p = "p\<lparr>ps_kcp := (ps_kcp p)[unat cls := Some (ow_next S)], ps_transport := (ps_transport p)[unat cls := type]\<rparr>"
  have "peers_owned (ow_byId S) (ow_byVIP S) ((ow_peers S)(a \<mapsto> ?p)) (ow_next S + 1)"
    by (rule peers_owned_upd [OF P p(1)]) (use len in simp_all)
  moreover have "tunnels_owned ps_kcp (ow_byId S) ((ow_peers S)(a \<mapsto> ?p)) (ow_next S + 1) ((ow_kcpTable S)(tunnelKey (ps_id p) cls \<mapsto> ow_next S))
      ((ow_kcps S)(ow_next S \<mapsto> \<lparr>ts_peer = a, ts_id = ps_id p, ts_cls = cls\<rparr>))"
    by (rule tunnels_owned_create [OF ownedD(3) [OF S] P p(1) c refl p(2)]) (use len assms(5) in simp_all)
  moreover have "tunnels_owned ps_raw (ow_byId S) ((ow_peers S)(a \<mapsto> ?p)) (ow_next S + 1) (ow_rawTable S) (ow_raws S)"
    by (rule tunnels_owned_other [OF ownedD(4) [OF S] p(1), where cls = cls]) (use len assms(5) unat_class [OF c] in simp_all)
  ultimately show ?thesis using S p by (simp add: own_createKcp_def owned_def)
qed

lemma owned_createRaw:
  assumes S: "owned S" and c: "cls \<in> {TRAFFIC_TCP, TRAFFIC_UDP}" and p: "ow_peers S a = Some p" "ps_transport p ! unat cls = TRANSPORT_NONE"
  shows "owned (own_createRaw a cls S)"
proof -
  note P = ownedD(2) [OF S] and len = peers_ownedD(5) [OF ownedD(2) [OF S] p(1)]
  let ?p = "p\<lparr>ps_raw := (ps_raw p)[unat cls := Some (ow_next S)], ps_transport := (ps_transport p)[unat cls := TRANSPORT_RELAY_RAW_UDP]\<rparr>"
  have "peers_owned (ow_byId S) (ow_byVIP S) ((ow_peers S)(a \<mapsto> ?p)) (ow_next S + 1)"
    by (rule peers_owned_upd [OF P p(1)]) (use len in simp_all)
  moreover have "tunnels_owned ps_raw (ow_byId S) ((ow_peers S)(a \<mapsto> ?p)) (ow_next S + 1) ((ow_rawTable S)(tunnelKey (ps_id p) cls \<mapsto> ow_next S))
      ((ow_raws S)(ow_next S \<mapsto> \<lparr>ts_peer = a, ts_id = ps_id p, ts_cls = cls\<rparr>))"
    by (rule tunnels_owned_create [OF ownedD(4) [OF S] P p(1) c refl p(2), where type = TRANSPORT_RELAY_RAW_UDP]) (use len in auto)
  moreover have "tunnels_owned ps_kcp (ow_byId S) ((ow_peers S)(a \<mapsto> ?p)) (ow_next S + 1) (ow_kcpTable S) (ow_kcps S)"
    by (rule tunnels_owned_other [OF ownedD(3) [OF S] p(1), where cls = cls]) (use len unat_class [OF c] in auto)
  ultimately show ?thesis using S p by (simp add: own_createRaw_def owned_def)
qed

section \<open>The operations refine those on shapes\<close>

lemma shape_sel [simp]:
  "ow_byId (shape m) = map_of (tm_peerById m)" "ow_byVIP (shape m) = map_of (tm_peerByVIP m)"
  "ow_kcpTable (shape m) = map_of (tm_kcpByPeerClass m)" "ow_rawTable (shape m) = map_of (tm_rawByPeerClass m)"
  "ow_peers (shape m) a = map_option peer_shape_of (map_of (tm_peers m) a)"
  "ow_kcps (shape m) a = map_option kcp_shape (map_of (tm_kcps m) a)"
  "ow_raws (shape m) a = map_option raw_shape (map_of (tm_raws m) a)"
  "ow_next (shape m) = tm_nextAddr m" "ow_fault (shape m) = tm_fault m"
  by (simp_all add: shape_def)

lemma peer_shape_sel [simp]:
  "ps_id (peer_shape_of p) = pc_peerId p" "ps_vip (peer_shape_of p) = pc_virtualIP p"
  "ps_kcp (peer_shape_of p) = pc_kcpTunnel p" "ps_raw (peer_shape_of p) = pc_rawUdpTunnel p" "ps_transport (peer_shape_of p) = pc_transport p"
  by (simp_all add: peer_shape_of_def)

lemma shape_addPeer: "shape (snd (addPeer now i vip name m)) = own_addPeer i vip (shape m)"
proof (cases "map_of (tm_peerById m) i")
  case None
  then show ?thesis
    by (simp add: addPeer_def own_addPeer_def Let_def) (simp add: shape_def fun_upd_comp peer_shape_of_def newPeerConnection_def)
qed (simp add: addPeer_def own_addPeer_def)

lemma fun_upd_None: "f x = None \<Longrightarrow> f(x := None) = f" by (simp add: fun_upd_idem)

lemma shape_deleteTunnels: "shape (deleteTunnels key m) = own_drop key (shape m)"
  by (cases "map_of (tm_kcpByPeerClass m) key"; cases "map_of (tm_rawByPeerClass m) key")
    (simp_all add: deleteTunnels_def own_drop_def Let_def without_def fun_upd_None, simp_all add: shape_def fun_upd_comp)

lemma shape_pending [simp]: "shape (m\<lparr>tm_pendingTransportDead := d\<rparr>) = shape m"
  by (simp add: shape_def)

lemma shape_removePeer: "shape (removePeer i m) = own_removePeer i (shape m)"
proof (cases "map_of (tm_peerById m) i")
  case (Some a)
  show ?thesis
  proof (cases "map_of (tm_peers m) a")
    case None
    then show ?thesis using Some by (simp add: removePeer_def own_removePeer_def faulted_def shape_def)
  next
    case (Some p)
    define m' where "m' = m\<lparr>tm_pendingTransportDead := filter (\<lambda>(key, _). drop_bit 8 key \<noteq> ucast i) (tm_pendingTransportDead m),
        tm_peerByVIP := om_del (pc_virtualIP p) (tm_peerByVIP m)\<rparr>"
    define m'' where "m'' = deleteTunnels (tunnelKey i TRAFFIC_UDP) (deleteTunnels (tunnelKey i TRAFFIC_TCP) m')"
    have "shape m' = (shape m)\<lparr>ow_byVIP := (ow_byVIP (shape m))(pc_virtualIP p := None)\<rparr>" by (simp add: m'_def shape_def)
    then have s: "shape m'' = own_drop (tunnelKey i TRAFFIC_UDP) (own_drop (tunnelKey i TRAFFIC_TCP) ((shape m)\<lparr>ow_byVIP := (ow_byVIP (shape m))(pc_virtualIP p := None)\<rparr>))"
      by (simp add: m''_def shape_deleteTunnels)
    have "removePeer i m = m''\<lparr>tm_peerById := om_del i (tm_peerById m''), tm_peers := om_del a (tm_peers m'')\<rparr>"
      using Some \<open>map_of (tm_peerById m) i = _\<close> by (simp add: removePeer_def Let_def m''_def m'_def)
    then have "shape (removePeer i m) = (shape m'')\<lparr>ow_byId := (ow_byId (shape m''))(i := None), ow_peers := (ow_peers (shape m''))(a := None)\<rparr>"
      by (simp add: shape_def fun_upd_comp)
    then show ?thesis using s Some \<open>map_of (tm_peerById m) i = _\<close> by (simp add: own_removePeer_def Let_def)
  qed
qed (simp add: removePeer_def own_removePeer_def)

lemma classIndex_known: "cls \<in> {TRAFFIC_TCP, TRAFFIC_UDP} \<Longrightarrow> classIndex TRAFFIC_UDP cls = unat cls \<and> \<not> unat cls > 2"
  by (auto simp: classIndex_def)

lemma shape_modPeer:
  "shape (modPeer a f m) = (case map_of (tm_peers m) a of None \<Rightarrow> (shape m)\<lparr>ow_fault := True\<rparr>
     | Some p \<Rightarrow> (shape m)\<lparr>ow_peers := (ow_peers (shape m))(a \<mapsto> peer_shape_of (f p))\<rparr>)"
  by (simp add: modPeer_def faulted_def split: option.split) (simp add: shape_def fun_upd_comp)

lemma peer_shape_transport:
  "peer_shape_of (pcClearTransport now cls p) = (peer_shape_of p)\<lparr>ps_transport := (pc_transport p)[classIndex TRAFFIC_UDP cls := TRANSPORT_NONE]\<rparr>"
  "peer_shape_of (pcSetTransport cls t p) = (peer_shape_of p)\<lparr>ps_transport := (pc_transport p)[classIndex TRAFFIC_UDP cls := t]\<rparr>"
  by (simp_all add: peer_shape_of_def pcClearTransport_def pcSetTransport_def pcModQuality_def Let_def)

lemma shape_removeTransport:
  assumes c: "unat cls \<le> 2"
  shows "shape (removeTransport now i cls m) = own_removeTransport i cls (shape m)"
proof (cases "map_of (tm_peerById m) i")
  case (Some a)
  have c': "classIndex TRAFFIC_UDP cls = unat cls \<and> \<not> unat cls > 2" using c by (simp add: classIndex_def)
  show ?thesis
  proof (cases "map_of (tm_peers m) a")
    case None
    then show ?thesis using Some c'
      by (cases "map_of (tm_kcpByPeerClass m) (tunnelKey i cls)"; cases "map_of (tm_rawByPeerClass m) (tunnelKey i cls)")
        (simp_all add: removeTransport_def own_removeTransport_def own_drop_def Let_def modPeer_def faulted_def without_def fun_upd_None,
         simp_all add: shape_def fun_upd_comp)
  next
    case (Some p)
    then show ?thesis using \<open>map_of (tm_peerById m) i = _\<close> c'
      by (cases "map_of (tm_kcpByPeerClass m) (tunnelKey i cls)"; cases "map_of (tm_rawByPeerClass m) (tunnelKey i cls)")
        (simp_all add: removeTransport_def own_removeTransport_def own_drop_def Let_def modPeer_def peer_shape_transport pcClearKcpTunnel_def pcClearRawUdpTunnel_def
          without_def fun_upd_None, simp_all add: shape_def fun_upd_comp peer_shape_transport, simp_all add: peer_shape_of_def)
  qed
qed (simp add: removeTransport_def own_removeTransport_def)

lemma owned_removed: "owned (shape m) \<Longrightarrow> owned (shape (removeTransport now i cls m))"
proof (cases "unat cls > 2")
  case True
  then have "removeTransport now i cls m = removeTransport now i TRAFFIC_UDP m" by (simp add: removeTransport_def)
  then show "owned (shape m) \<Longrightarrow> ?thesis" by (simp add: shape_removeTransport owned_removeTransport)
qed (simp add: shape_removeTransport owned_removeTransport)

lemma shape_createKcp:
  assumes c: "cls \<in> {TRAFFIC_TCP, TRAFFIC_UDP}"
  shows "shape (snd (createKcpTunnel E a ip port type fec mtu profile cls m)) = own_createKcp a type cls (shape m)"
  using classIndex_known [OF c]
  by (cases "map_of (tm_peers m) a")
    (simp_all add: createKcpTunnel_def own_createKcp_def Let_def modPeer_def faulted_def,
     simp_all add: shape_def fun_upd_comp peer_shape_transport, simp add: peer_shape_of_def kcp_shape_def pcSetKcpTunnel_def)

lemma shape_createRaw:
  assumes c: "cls \<in> {TRAFFIC_TCP, TRAFFIC_UDP}"
  shows "shape (snd (createRawUdpTunnel E a ip port fec mtu cls m)) = own_createRaw a cls (shape m)"
  using classIndex_known [OF c]
  by (cases "map_of (tm_peers m) a")
    (simp_all add: createRawUdpTunnel_def own_createRaw_def Let_def modPeer_def faulted_def,
     simp_all add: shape_def fun_upd_comp peer_shape_transport, simp add: peer_shape_of_def raw_shape_def pcSetRawUdpTunnel_def)

lemma map_of_dels: "map_of (fold om_del xs m) k = (if k \<in> set xs then None else map_of m k)"
  by (induction xs arbitrary: m) simp_all

lemma all_removed:
  assumes "owned (shape m)"
  shows "map_of (tm_peers (removeAllPeers m)) = Map.empty" "map_of (tm_kcps (removeAllPeers m)) = Map.empty" "map_of (tm_raws (removeAllPeers m)) = Map.empty"
proof -
  note o = ownedD [OF assms]
  have in_table: "x \<in> set (map snd tbl)" if "map_of tbl k = Some x" for tbl k and x :: nat
    using map_of_SomeD [OF that] by force
  show "map_of (tm_peers (removeAllPeers m)) = Map.empty"
  proof
    fix a show "map_of (tm_peers (removeAllPeers m)) a = None"
      using peers_ownedD(4) [OF o(2), of a] in_table [of "tm_peerById m" _ a]
      by (cases "map_of (tm_peers m) a") (auto simp: removeAllPeers_def Let_def map_of_dels)
  qed
  show "map_of (tm_kcps (removeAllPeers m)) = Map.empty"
  proof
    fix a show "map_of (tm_kcps (removeAllPeers m)) a = None"
      using tunnels_ownedD(4) [OF o(3), of a] in_table [of "tm_kcpByPeerClass m" _ a]
      by (cases "map_of (tm_kcps m) a") (auto simp: removeAllPeers_def Let_def map_of_dels)
  qed
  show "map_of (tm_raws (removeAllPeers m)) = Map.empty"
  proof
    fix a show "map_of (tm_raws (removeAllPeers m)) a = None"
      using tunnels_ownedD(4) [OF o(4), of a] in_table [of "tm_rawByPeerClass m" _ a]
      by (cases "map_of (tm_raws m) a") (auto simp: removeAllPeers_def Let_def map_of_dels)
  qed
qed

lemma owned_empty: "\<not> ow_fault S \<Longrightarrow> ow_byId S = Map.empty \<Longrightarrow> ow_byVIP S = Map.empty \<Longrightarrow> ow_kcpTable S = Map.empty \<Longrightarrow>
    ow_rawTable S = Map.empty \<Longrightarrow> ow_peers S = Map.empty \<Longrightarrow> ow_kcps S = Map.empty \<Longrightarrow> ow_raws S = Map.empty \<Longrightarrow> owned S"
  by (simp add: owned_def peers_owned_def tunnels_owned_def)

lemma owned_removeAll: "owned (shape m) \<Longrightarrow> owned (shape (removeAllPeers m))"
  using all_removed [of m] ownedD(1) [of "shape m"]
  by (intro owned_empty) (simp_all add: fun_eq_iff, simp_all add: removeAllPeers_def Let_def)

end
