(* ===== verification/Cli_DataPlane.thy ===== *)
theory Cli_DataPlane
  imports Cli_Ownership
begin

text \<open>
  What the data plane of the tunnel manager may do.  While packets flow no object is created or
  destroyed, the configuration stays, and whatever leaves the manager is permitted: datagrams
  are frames sealed under the session's key, packets for the adapter come from a peer and pass
  the inbound check, nothing at all leaves a data plane that is not running.
\<close>

section \<open>Permitted output\<close>

definition running :: "('k, 'a) CliTunnelManager_scheme \<Rightarrow> bool" where
  "running m \<longleftrightarrow> dataPlaneAllowsTraffic (tm_dataPlaneState m) (tm_securityMode m)"

text \<open>What stays as it is while packets flow.\<close>

definition configuration :: "('k, 'a) CliTunnelManager_scheme \<Rightarrow>
    'a \<times> (u32, nat) omap \<times> bool \<times> int \<times> u32 \<times> u16 \<times> u32 \<times> u32 \<times> u16 \<times> DataPlaneSecurityMode \<times> u32 \<times> bytes \<times> bytes \<times> bytes \<times> bytes \<times> bytes \<times> bool" where
  "configuration m = (CliTunnelManager.more m, tm_peerById m, tm_tun m = None, tm_udpFd m, tm_serverIP m, tm_serverPort m, tm_myPeerId m, tm_myVirtualIP m, tm_roomMtu m,
     tm_securityMode m, tm_secureSessionId m, tm_secureMaster m, sc_sendKey (tm_udpCipher m), sc_sendNonceSeed (tm_udpCipher m),
     sc_recvKey (tm_udpCipher m), sc_recvNonceSeed (tm_udpCipher m), sc_initialized (tm_udpCipher m))"

fun permitted :: "crypto \<Rightarrow> ('k, 'a) CliTunnelManager_scheme \<Rightarrow> tunnel_io \<Rightarrow> bool" where
  "permitted C m (SendTo pkt ip port) \<longleftrightarrow> running m \<and> tm_udpFd m \<noteq> SOCK_INVALID \<and>
     (\<exists>ctr data. pkt = UDP_ENCRYPTED # writeU32BE (tm_secureSessionId m) @
        sealed C (sc_sendKey (tm_udpCipher m)) (sc_sendNonceSeed (tm_udpCipher m)) ctr data [])"
| "permitted C m (TunWrite pkt) \<longleftrightarrow> running m \<and>
     (\<exists>i a p. ow_byId (shape m) i = Some a \<and> ow_peers (shape m) a = Some p \<and>
        overlayIsValid (validateInboundOverlayIpv4 (Some pkt) (tm_roomMtu m) (ps_vip p) (tm_myVirtualIP m)))"
| "permitted C m (RelaySend src dst cls data) \<longleftrightarrow> running m \<and> ow_byId (shape m) dst \<noteq> None"
| "permitted C m SecurityFailure \<longleftrightarrow> running m"

definition flow :: "crypto \<Rightarrow> ('k, 'a) CliTunnelManager_scheme \<Rightarrow> ('k, 'a) CliTunnelManager_scheme \<Rightarrow> bool" where
  "flow C m0 m \<longleftrightarrow> shape m = shape m0 \<and> configuration m = configuration m0 \<and> (running m \<longrightarrow> running m0) \<and>
     (\<exists>out. tm_io m = tm_io m0 @ out \<and> (\<forall>e \<in> set out. permitted C m0 e))"

lemma flow_refl [simp]: "flow C m m"
  by (simp add: flow_def)

lemma permitted_flow:
  assumes "flow C m0 m" "permitted C m e"
  shows "permitted C m0 e"
  using assms by (cases e) (auto simp: flow_def configuration_def)

lemma flow_trans:
  assumes "flow C m0 m1" "flow C m1 m2"
  shows "flow C m0 m2"
proof -
  obtain o1 o2 where "tm_io m1 = tm_io m0 @ o1" "tm_io m2 = tm_io m1 @ o2" "\<forall>e \<in> set o1. permitted C m0 e" "\<forall>e \<in> set o2. permitted C m1 e"
    using assms by (auto simp: flow_def)
  then have "tm_io m2 = tm_io m0 @ (o1 @ o2)" "\<forall>e \<in> set (o1 @ o2). permitted C m0 e" using permitted_flow [OF assms(1)] by auto
  then show ?thesis using assms unfolding flow_def by metis
qed

lemma flow_shape: "flow C m0 m \<Longrightarrow> shape m = shape m0"
  by (simp add: flow_def)

text \<open>A change that touches neither pointers nor configuration nor output.\<close>

lemma flow_quiet:
  assumes "shape m = shape m0" "configuration m = configuration m0" "running m \<Longrightarrow> running m0" "tm_io m = tm_io m0"
  shows "flow C m0 m"
  using assms by (simp add: flow_def)

lemma flow_emit:
  assumes "flow C m0 m" "permitted C m0 e"
  shows "flow C m0 (emit_io e m)"
proof -
  have "shape (emit_io e m) = shape m" "configuration (emit_io e m) = configuration m" "running (emit_io e m) = running m"
    by (simp_all add: emit_io_def shape_def configuration_def running_def)
  moreover obtain out where "tm_io m = tm_io m0 @ out" "\<forall>e \<in> set out. permitted C m0 e" using assms(1) by (auto simp: flow_def)
  then have "tm_io (emit_io e m) = tm_io m0 @ (out @ [e])" "\<forall>e \<in> set (out @ [e]). permitted C m0 e" using assms(2) by (auto simp: emit_io_def)
  ultimately show ?thesis using assms(1) unfolding flow_def by metis
qed

text \<open>A manager in order: nothing dangles, and the table of peers is a table.\<close>

definition sound :: "('k, 'a) CliTunnelManager_scheme \<Rightarrow> bool" where
  "sound m \<longleftrightarrow> owned (shape m) \<and> om_ok (tm_peerById m)"

lemma soundD: "sound m \<Longrightarrow> owned (shape m)" by (simp add: sound_def)

lemma flow_sound: "flow C m0 m \<Longrightarrow> sound m = sound m0"
  by (simp add: flow_def sound_def configuration_def)

lemma flow_fold:
  assumes "\<And>x m. sound m \<Longrightarrow> flow C m (f x m)" "sound m"
  shows "flow C m (fold f xs m)"
  using assms(2)
proof (induction xs arbitrary: m)
  case (Cons x xs)
  have "flow C (f x m) (fold f xs (f x m))" using Cons flow_sound [OF assms(1) [OF Cons.prems, of x]] by simp
  then show ?case using flow_trans [OF assms(1) [OF Cons.prems, of x]] by simp
qed simp

section \<open>Small steps\<close>

lemma flow_drop [simp]: "flow C m (recordPacketDrop now reason m)"
  by (rule flow_quiet) (simp_all add: recordPacketDrop_def Let_def shape_def configuration_def running_def split: if_splits)

lemma flow_stop [simp]: "flow C m (stopDataPlane m)"
  by (rule flow_quiet) (simp_all add: stopDataPlane_def shape_def configuration_def running_def dataPlaneAllowsTraffic_def)




lemma flow_setRaw [simp]: "flow C m (setRawTunnel a t m)"
proof (rule flow_quiet)
  have "map_option raw_shape \<circ> map_of (om_adj a (\<lambda>r. r\<lparr>ro_tunnel := t\<rparr>) (tm_raws m)) = map_option raw_shape \<circ> map_of (tm_raws m)"
    by (auto simp: fun_eq_iff raw_shape_def [abs_def] option.map_comp comp_def)
  then show "shape (setRawTunnel a t m) = shape m" by (simp add: setRawTunnel_def shape_def)
qed (simp_all add: setRawTunnel_def configuration_def running_def)

lemma flow_setKcp [simp]: "flow C m (setKcpTunnel a t m)"
proof (rule flow_quiet)
  have "map_option kcp_shape \<circ> map_of (om_adj a (\<lambda>r. r\<lparr>ko_tunnel := t\<rparr>) (tm_kcps m)) = map_option kcp_shape \<circ> map_of (tm_kcps m)"
    by (auto simp: fun_eq_iff kcp_shape_def [abs_def] option.map_comp comp_def)
  then show "shape (setKcpTunnel a t m) = shape m" by (simp add: setKcpTunnel_def shape_def)
qed (simp_all add: setKcpTunnel_def configuration_def running_def)

lemma flow_modPeer:
  assumes "map_of (tm_peers m) a \<noteq> None" "\<And>p. peer_shape_of (f p) = peer_shape_of p"
  shows "flow C m (modPeer a f m)"
proof -
  obtain p where p: "map_of (tm_peers m) a = Some p" using assms(1) by auto
  have "(ow_peers (shape m))(a \<mapsto> peer_shape_of (f p)) = ow_peers (shape m)" using p assms(2) by (auto simp: fun_eq_iff)
  then have "shape (modPeer a f m) = shape m" using p by (simp add: shape_modPeer)
  then show ?thesis by (rule flow_quiet) (use p in \<open>simp_all add: modPeer_def configuration_def running_def\<close>)
qed

lemma peer_shape_quality [simp]: "peer_shape_of (pcModQuality i f p) = peer_shape_of p"
  "peer_shape_of (pcReportLocalTransportSend now cls ok p) = peer_shape_of p"
  by (simp_all add: peer_shape_of_def pcModQuality_def pcReportLocalTransportSend_def)

lemma owned_peer: "owned (shape m) \<Longrightarrow> map_of (tm_peerById m) i = Some a \<Longrightarrow> \<exists>p. map_of (tm_peers m) a = Some p \<and> pc_peerId p = i"
  using peers_ownedD(1) [OF ownedD(2), of "shape m" i a] by auto

lemma flow_report:
  assumes S: "owned (shape m)" and "target = sendReportTarget data m0" "map_of (tm_peerById m) = map_of (tm_peerById m0)"
  shows "flow C m (reportSend now target expected ok m)"
proof (cases target)
  case (Some ac)
  then obtain a cls i where a: "target = Some (a, cls)" "map_of (tm_peerById m) i = Some a"
    using assms(2,3) by (auto simp: sendReportTarget_def Let_def split: if_splits)
  show ?thesis unfolding a(1) reportSend_def by simp (rule flow_modPeer, use owned_peer [OF S a(2)] in auto)
qed (simp add: reportSend_def)

section \<open>Sending\<close>

lemma flow_cipher:
  assumes "sc_sendKey c = sc_sendKey (tm_udpCipher m)" "sc_sendNonceSeed c = sc_sendNonceSeed (tm_udpCipher m)"
    "sc_recvKey c = sc_recvKey (tm_udpCipher m)" "sc_recvNonceSeed c = sc_recvNonceSeed (tm_udpCipher m)" "sc_initialized c = sc_initialized (tm_udpCipher m)"
  shows "flow C m (m\<lparr>tm_udpCipher := c\<rparr>)"
  by (rule flow_quiet) (use assms in \<open>simp_all add: shape_def configuration_def running_def\<close>)

lemma encryptFrame_sealed:
  assumes "encryptFrame C plain ad c = (enc, c')"
  shows "enc = [] \<or> enc = sealed C (sc_sendKey c) (sc_sendNonceSeed c) (sc_sendCounter c) plain ad"
    and "sc_sendKey c' = sc_sendKey c" "sc_sendNonceSeed c' = sc_sendNonceSeed c" "sc_recvKey c' = sc_recvKey c"
      "sc_recvNonceSeed c' = sc_recvNonceSeed c" "sc_initialized c' = sc_initialized c"
  using assms by (auto simp: encryptFrame_def sealed_def Let_def writeU64BE_be64 split: if_splits prod.splits)

text \<open>One datagram that is transmitted.\<close>

lemma flow_transmit:
  assumes S: "owned (shape m)" and t: "target = sendReportTarget data m" and "permitted C m (SendTo pkt ip port)"
  shows "flow C m (let m' = emit_io (SendTo pkt ip port) m; m'' = reportSend now target expected ok m'
     in if ok then m'' else recordPacketDrop now reason m'')"
proof -
  let ?m = "emit_io (SendTo pkt ip port) m"
  have e: "flow C m ?m" by (rule flow_emit [OF flow_refl]) (rule assms(3))
  have "flow C ?m (reportSend now target expected ok ?m)"
    by (rule flow_report [OF _ t]) (use S flow_shape [OF e] in \<open>simp_all add: emit_io_def\<close>)
  note r = flow_trans [OF e this]
  show ?thesis using r flow_trans [OF r flow_drop, of now reason] by (cases ok) (simp_all add: Let_def)
qed

lemma flow_udpSend:
  assumes S: "owned (shape m)"
  shows "flow (te_crypto E) m (udpSend E data ip port m)"
proof (cases "running m \<and> tm_udpFd m \<noteq> SOCK_INVALID \<and> tm_secureSessionId m \<noteq> 0 \<and> length (tm_secureMaster m) = SECURE_KEY_SIZE")
  case False
  then show ?thesis using flow_report [OF S refl refl]
    by (auto simp: udpSend_def Let_def running_def dataPlaneAllowsTraffic_def)
next
  case on: True
  let ?C = "te_crypto E" and ?target = "sendReportTarget data m" and ?now = "te_now E"
  define expected where "expected = (if data ! 0 = UDP_RELAY_DATA then TRANSPORT_RELAY_KCP else TRANSPORT_RELAY_RAW_UDP)"
  obtain enc c where c: "encryptFrame ?C data [] (tm_udpCipher m) = (enc, c)" by fastforce
  let ?m = "m\<lparr>tm_udpCipher := c\<rparr>"
  have m: "flow ?C m ?m" by (rule flow_cipher) (use encryptFrame_sealed(2-6) [OF c] in simp_all)
  have S': "owned (shape ?m)" using S flow_shape [OF m] by simp
  have r: "running ?m" "tm_securityMode m = Secure" "\<not> (\<not> dataPlaneAllowsTraffic (tm_dataPlaneState m) (tm_securityMode m) \<or> tm_udpFd m = SOCK_INVALID)"
    using on by (simp_all add: running_def dataPlaneAllowsTraffic_def)
  show ?thesis
  proof (cases "enc = []")
    case True
    have "flow ?C ?m (recordPacketDrop ?now UdpEncryptFailed (reportSend ?now ?target expected False ?m))"
      using flow_trans [OF flow_report [OF S', of ?target data m] flow_drop] by simp
    then have "flow ?C m (stopDataPlane (recordPacketDrop ?now UdpEncryptFailed (reportSend ?now ?target expected False ?m)))"
      using flow_trans [OF m] flow_trans [OF _ flow_stop] by blast
    moreover have "udpSend E data ip port m = emit_io SecurityFailure (stopDataPlane (recordPacketDrop ?now UdpEncryptFailed (reportSend ?now ?target expected False ?m)))"
      using True r c on by (simp add: udpSend_def Let_def expected_def)
    ultimately show ?thesis using flow_emit [of ?C m _ SecurityFailure] on by simp
  next
    case False
    let ?pkt = "UDP_ENCRYPTED # writeU32BE (tm_secureSessionId m) @ enc"
    obtain sent err where s: "te_sendto E ?pkt = (sent, err)" by fastforce
    have "permitted ?C ?m (SendTo ?pkt ip port)"
      using encryptFrame_sealed [OF c] False r(1) on by auto
    moreover have "sendReportTarget data ?m = ?target" by (simp add: sendReportTarget_def Let_def)
    moreover have "udpSend E data ip port m = (let m' = emit_io (SendTo ?pkt ip port) ?m; m'' = reportSend ?now ?target expected (sent = int (length ?pkt)) m'
        in if sent = int (length ?pkt) then m'' else recordPacketDrop ?now (UdpSendFailed err) m'')"
      using False r c s on by (simp add: udpSend_def Let_def expected_def)
    ultimately show ?thesis using flow_trans [OF m flow_transmit [OF S' refl]] by metis
  qed
qed

lemma flow_keepalive: "owned (shape m) \<Longrightarrow> flow (te_crypto E) m (sendUdpKeepalive E m)"
  by (simp add: sendUdpKeepalive_def flow_udpSend)

text \<open>Sending through a tunnel keeps to the flow: the callbacks do.\<close>

definition flowing :: "('k, 'a) tunnel_env \<Rightarrow> ('k, 'a) CliTunnelManager_scheme \<Rightarrow> ('k, 'a) CliTunnelManager_scheme \<Rightarrow> bool" where
  "flowing E m0 m \<longleftrightarrow> owned (shape m0) \<and> flow (te_crypto E) m0 m"

lemma flowing_step:
  assumes "flowing E m0 m" "\<And>m. owned (shape m) \<Longrightarrow> flow (te_crypto E) m (f m)"
  shows "flowing E m0 (f m)"
  using assms flow_trans flow_shape unfolding flowing_def by metis

lemma flowing_udpSend: "flowing E m0 m \<Longrightarrow> flowing E m0 (udpSend E d ip port m)"
  by (erule flowing_step) (rule flow_udpSend)

interpretation raw_sending: raw_world "rawSender E" "flowing E m0" for E m0
proof
  show "flowing E m0 m \<Longrightarrow> flowing E m0 (rc_udpSend (rawSender E) d ip port m)" for d ip port m
    by (simp add: rawSender_def flowing_udpSend)
qed (simp_all add: rawSender_def)

lemma owned_raw: "owned (shape m) \<Longrightarrow> pc_rawUdpTunnel p ! j = Some x \<Longrightarrow> map_of (tm_peers m) a = Some p \<Longrightarrow> j < 3 \<Longrightarrow> map_of (tm_raws m) x \<noteq> None"
  using tunnels_ownedD(7) [OF ownedD(4), of "shape m" a "peer_shape_of p" j x] tunnels_ownedD(1) [OF ownedD(4), of "shape m" _ x] by fastforce

lemma owned_kcp: "owned (shape m) \<Longrightarrow> pc_kcpTunnel p ! j = Some x \<Longrightarrow> map_of (tm_peers m) a = Some p \<Longrightarrow> j < 3 \<Longrightarrow> map_of (tm_kcps m) x \<noteq> None"
  using tunnels_ownedD(7) [OF ownedD(3), of "shape m" a "peer_shape_of p" j x] tunnels_ownedD(1) [OF ownedD(3), of "shape m" _ x] by fastforce

lemma classIndex_3 [simp]: "classIndex TRAFFIC_UDP cls < 3"
  by (simp add: classIndex_def)

lemma flow_rawSendAt:
  assumes "owned (shape m)" "map_of (tm_raws m) a \<noteq> None"
  shows "flow (te_crypto E) m (snd (rawSendAt E a data m))"
proof -
  obtain r where r: "map_of (tm_raws m) a = Some r" using assms(2) by auto
  obtain n t m' where s: "rawSend (te_cm256 E) (rawSender E) (te_now E) data (ro_tunnel r, m) = (n, t, m')" by (metis prod_cases3)
  have "flowing E m m'" using raw_sending.send [of E m "(ro_tunnel r, m)" "te_cm256 E" "te_now E" data] assms(1) s by (simp add: flowing_def)
  then have "flow (te_crypto E) m (setRawTunnel a t m')" using flow_trans [OF _ flow_setRaw, of _ m m'] by (simp add: flowing_def)
  then show ?thesis using r s by (simp add: rawSendAt_def)
qed

lemma flow_kcpSendAt:
  assumes "map_of (tm_kcps m) a \<noteq> None"
  shows "flow C m (snd (kcpSendAt E a data m))"
  using assms by (auto simp: kcpSendAt_def split: prod.split)

lemma flow_relaySend:
  assumes "owned (shape m)" "map_of (tm_peerById m) dst \<noteq> None"
  shows "flow C m (relaySend E src dst cls data m)"
  using assms flow_emit [OF flow_refl, of C m "RelaySend src dst cls data"]
  by (cases "tm_securityMode m") (auto simp: relaySend_def running_def dataPlaneAllowsTraffic_def)

lemma peer_listed: "owned (shape m) \<Longrightarrow> map_of (tm_peers m) a = Some p \<Longrightarrow> map_of (tm_peerById m) (pc_peerId p) = Some a"
  using peers_ownedD(4) [OF ownedD(2), of "shape m" a "peer_shape_of p"] by simp

lemma flow_control:
  assumes S: "owned (shape m)" and a: "map_of (tm_peers m) a = Some p"
  shows "flow (te_crypto E) m (snd (sendControlPacket E a cls data m))"
  using flow_relaySend [OF S, of "pc_peerId p"] peer_listed [OF S a] flow_rawSendAt [OF S owned_raw [OF S _ a]] flow_kcpSendAt [OF owned_kcp [OF S _ a]]
  by (simp add: sendControlPacket_def a Let_def case_prod_beta split: TransportType.split option.split)

lemma flow_sendPeerData:
  assumes S: "owned (shape m)" and a: "map_of (tm_peers m) a = Some p"
  shows "flow (te_crypto E) m (snd (sendPeerData E a data m))"
  using flow_relaySend [OF S, of "pc_peerId p"] peer_listed [OF S a] flow_rawSendAt [OF S owned_raw [OF S _ a]] flow_kcpSendAt [OF owned_kcp [OF S _ a]]
  by (simp add: sendPeerData_def a Let_def split: option.split)

section \<open>Receiving\<close>

lemma same_peers: "shape m' = shape m \<Longrightarrow> map_of (tm_peers m') a = None \<longleftrightarrow> map_of (tm_peers m) a = None"
  using shape_sel(5) [of m' a] shape_sel(5) [of m a] by auto

lemma flow_ping:
  assumes S: "owned (shape m)" and a: "map_of (tm_peers m) a \<noteq> None"
  shows "flow (te_crypto E) m (sendLatencyPing E a cls m)"
proof -
  obtain p where p: "map_of (tm_peers m) a = Some p" using a by auto
  let ?idx = "classIndex TRAFFIC_UDP cls"
  obtain token seq where t: "nextProbeEchoId (tm_probeSeq m) = (token, seq)" by fastforce
  let ?m0 = "m\<lparr>tm_probeSeq := seq\<rparr>"
  let ?m1 = "modPeer a (pcModQuality ?idx (\<lambda>q. snd (beginProbe (te_now E) token q))) ?m0"
  obtain sent m2 where s: "sendControlPacket E a cls (latencyProbe CLI_LATENCY_PROBE_PING token) ?m1 = (sent, m2)" by fastforce
  have "flow (te_crypto E) m ?m0" by (rule flow_quiet) (simp_all add: shape_def configuration_def running_def)
  moreover have "flow (te_crypto E) ?m0 ?m1" by (rule flow_modPeer) (use a in simp_all)
  ultimately have m1: "flow (te_crypto E) m ?m1" by (rule flow_trans)
  then obtain p1 where p1: "map_of (tm_peers ?m1) a = Some p1" using same_peers [OF flow_shape [OF m1], of a] a by blast
  have "flow (te_crypto E) ?m1 m2" using flow_control [OF _ p1, of E cls "latencyProbe CLI_LATENCY_PROBE_PING token"] S flow_shape [OF m1] s by simp
  note m2 = flow_trans [OF m1 this]
  have "flow (te_crypto E) m2 (modPeer a (pcModQuality ?idx (completeSend token (te_now E) sent)) m2)"
    by (rule flow_modPeer) (use same_peers [OF flow_shape [OF m2]] a in simp_all)
  note m3 = flow_trans [OF m2 this]
  show ?thesis using m3 s t by (simp add: sendLatencyPing_def p Let_def)
qed

lemma flow_probe:
  assumes S: "owned (shape m)" and a: "map_of (tm_peers m) a \<noteq> None"
  shows "flow (te_crypto E) m (snd (handleLatencyProbe E a cls data m))"
proof -
  obtain p where p: "map_of (tm_peers m) a = Some p" using a by auto
  show ?thesis using flow_control [OF S p] flow_modPeer [OF a] by (simp add: handleLatencyProbe_def)
qed

lemma flow_toTun:
  assumes S: "owned (shape m)"
  shows "flow (te_crypto E) m (routeToTun E i pkt m)"
proof (cases "map_of (tm_peerById m) i")
  case (Some a)
  then obtain p where p: "map_of (tm_peers m) a = Some p" using owned_peer [OF S] by blast
  have "flow (te_crypto E) m (emit_io (TunWrite pkt) m)"
    if "running m" "overlayIsValid (validateInboundOverlayIpv4 (Some pkt) (tm_roomMtu m) (pc_virtualIP p) (tm_myVirtualIP m))"
    by (rule flow_emit [OF flow_refl]) (use that Some p in \<open>auto intro!: exI [of _ i]\<close>)
  then show ?thesis using Some p by (simp add: routeToTun_def running_def)
qed (simp add: routeToTun_def)

lemma flow_tunnelData:
  assumes S: "owned (shape m)" and a: "map_of (tm_peers m) a \<noteq> None"
  shows "flow (te_crypto E) m (onTunnelDataReceived E a cls data m)"
proof -
  obtain handled m' where h: "handleLatencyProbe E a cls data m = (handled, m')" by fastforce
  then have m': "flow (te_crypto E) m m'" using flow_probe [OF S a, of E cls data] by simp
  then obtain p where p: "map_of (tm_peers m') a = Some p" using same_peers [OF flow_shape [OF m'], of a] a by blast
  have "flow (te_crypto E) m' (onPeerDataReceived E (pc_peerId p) data m')"
    using flow_toTun [of m' E "pc_peerId p" data] S flow_shape [OF m'] by (simp add: onPeerDataReceived_def)
  then show ?thesis using flow_trans [OF m'] m' h p by (simp add: onTunnelDataReceived_def)
qed

lemma flow_dead [simp]: "flow C m (markTransportDead i cls m)"
  by (rule flow_quiet) (simp_all add: markTransportDead_def Let_def shape_def configuration_def running_def split: if_splits)

text \<open>A tunnel of the manager at work, with the objects its callbacks captured.\<close>

definition raw_at_work :: "('k, 'a) tunnel_env \<Rightarrow> nat \<Rightarrow> raw_object \<Rightarrow> ('k, 'a) CliTunnelManager_scheme \<Rightarrow> ('k, 'a) CliTunnelManager_scheme \<Rightarrow> bool" where
  "raw_at_work E a r m0 m \<longleftrightarrow> flowing E m0 m \<and> ow_raws (shape m0) a = Some (raw_shape r)"

definition kcp_at_work :: "('k, 'a) tunnel_env \<Rightarrow> nat \<Rightarrow> 'k kcp_object \<Rightarrow> ('k, 'a) CliTunnelManager_scheme \<Rightarrow> ('k, 'a) CliTunnelManager_scheme \<Rightarrow> bool" where
  "kcp_at_work E a r m0 m \<longleftrightarrow> flowing E m0 m \<and> ow_kcps (shape m0) a = Some (kcp_shape r)"

lemma owned_captured:
  assumes T: "tunnels_owned ptr (ow_byId (shape m)) (ow_peers (shape m)) n tbl objs" and "objs a = Some r"
  shows "map_of (tm_peers m) (ts_peer r) \<noteq> None"
  using tunnels_ownedD(6) [OF assms] by auto

lemma flowing_rawOnData:
  assumes w: "raw_at_work E a r m0 m"
  shows "raw_at_work E a r m0 (snd (rawOnData E a r data (t, m)))"
proof -
  have m: "owned (shape m0)" "flow (te_crypto E) m0 m" "ow_raws (shape m0) a = Some (raw_shape r)" using w by (auto simp: raw_at_work_def flowing_def)
  let ?m1 = "setRawTunnel a t m" and ?m2 = "onTunnelDataReceived E (ro_peer r) (ro_cls r) data (setRawTunnel a t m)"
  have m1: "flow (te_crypto E) m0 ?m1" using flow_trans [OF m(2) flow_setRaw] .
  have "map_of (tm_peers m0) (ro_peer r) \<noteq> None" using owned_captured [OF ownedD(4) [OF m(1)] m(3)] by (simp add: raw_shape_def)
  then have "map_of (tm_peers ?m1) (ro_peer r) \<noteq> None" using same_peers [OF flow_shape [OF m1]] by simp
  then have "flow (te_crypto E) ?m1 ?m2" using flow_tunnelData [of ?m1] m(1) flow_shape [OF m1] by simp
  note m2 = flow_trans [OF m1 this]
  then have "ow_raws (shape ?m2) a = Some (raw_shape r)" using m(3) flow_shape by metis
  then obtain r' where "map_of (tm_raws ?m2) a = Some r'" by auto
  then show ?thesis using m2 m(1,3) by (simp add: rawOnData_def Let_def raw_at_work_def flowing_def)
qed

lemma flowing_kcpOnData:
  assumes w: "kcp_at_work E a r m0 m"
  shows "kcp_at_work E a r m0 (snd (kcpOnData E a r data (t, m)))"
proof -
  have m: "owned (shape m0)" "flow (te_crypto E) m0 m" "ow_kcps (shape m0) a = Some (kcp_shape r)" using w by (auto simp: kcp_at_work_def flowing_def)
  let ?m1 = "setKcpTunnel a t m" and ?m2 = "onTunnelDataReceived E (ko_peer r) (ko_cls r) data (setKcpTunnel a t m)"
  have m1: "flow (te_crypto E) m0 ?m1" using flow_trans [OF m(2) flow_setKcp] .
  have "map_of (tm_peers m0) (ko_peer r) \<noteq> None" using owned_captured [OF ownedD(3) [OF m(1)] m(3)] by (simp add: kcp_shape_def)
  then have "map_of (tm_peers ?m1) (ko_peer r) \<noteq> None" using same_peers [OF flow_shape [OF m1]] by simp
  then have "flow (te_crypto E) ?m1 ?m2" using flow_tunnelData [of ?m1] m(1) flow_shape [OF m1] by simp
  note m2 = flow_trans [OF m1 this]
  then have "ow_kcps (shape ?m2) a = Some (kcp_shape r)" using m(3) flow_shape by metis
  then obtain r' where "map_of (tm_kcps ?m2) a = Some r'" by auto
  then show ?thesis using m2 m(1,3) by (simp add: kcpOnData_def Let_def kcp_at_work_def flowing_def)
qed

interpretation raw_working: raw_world "rawCallbacks E a r" "raw_at_work E a r m0" for E a r m0
proof
  fix m d ip port t assume w: "raw_at_work E a r m0 m"
  show "raw_at_work E a r m0 (rc_udpSend (rawCallbacks E a r) d ip port m)"
    using w by (simp add: raw_at_work_def rawCallbacks_def flowing_udpSend)
  show "raw_at_work E a r m0 (snd (rc_onData (rawCallbacks E a r) d (t, m)))"
    using flowing_rawOnData [OF w] by (simp add: rawCallbacks_def)
  show "raw_at_work E a r m0 (rc_onDead (rawCallbacks E a r) m)"
    using w by (simp add: raw_at_work_def rawCallbacks_def flowing_step)
qed

interpretation kcp_working: kcp_world "kcpCallbacks E a r" "kcp_at_work E a r m0" for E a r m0
proof
  fix m d ip port t assume w: "kcp_at_work E a r m0 m"
  show "kcp_at_work E a r m0 (kc_udpSend (kcpCallbacks E a r) d ip port m)"
    using w by (simp add: kcp_at_work_def kcpCallbacks_def flowing_udpSend)
  show "kcp_at_work E a r m0 (snd (kc_onData (kcpCallbacks E a r) d (t, m)))"
    using flowing_kcpOnData [OF w] by (simp add: kcpCallbacks_def)
  show "kcp_at_work E a r m0 (kc_onDead (kcpCallbacks E a r) m)"
    using w by (simp add: kcp_at_work_def kcpCallbacks_def flowing_step)
qed

lemma flow_rawAt:
  assumes S: "owned (shape m)" and a: "map_of (tm_raws m) a \<noteq> None"
  shows "flow (te_crypto E) m (rawFeedAt E data a m)" "flow (te_crypto E) m (rawUpdateAt E a m)"
proof -
  obtain r where r: "map_of (tm_raws m) a = Some r" using a by auto
  have w: "raw_at_work E a r m (snd (ro_tunnel r, m))" using S r by (simp add: raw_at_work_def flowing_def)
  obtain t m' where f: "rawFeedInput (te_cm256 E) (rawCallbacks E a r) (te_now E) data (ro_tunnel r, m) = (t, m')" by fastforce
  have "flow (te_crypto E) m m'" using raw_working.feed [OF w, of "te_cm256 E" "te_now E" data] f by (simp add: raw_at_work_def flowing_def)
  from flow_trans [OF this flow_setRaw] show "flow (te_crypto E) m (rawFeedAt E data a m)" using r f by (simp add: rawFeedAt_def)
  obtain t m' where u: "rawUpdate (te_cm256 E) (rawCallbacks E a r) (te_now E) (ro_tunnel r, m) = (t, m')" by fastforce
  have "flow (te_crypto E) m m'" using raw_working.timer [OF w, of "te_cm256 E" "te_now E"] u by (simp add: raw_at_work_def flowing_def)
  from flow_trans [OF this flow_setRaw] show "flow (te_crypto E) m (rawUpdateAt E a m)" using r u by (simp add: rawUpdateAt_def)
qed

lemma flow_kcpAt:
  assumes S: "owned (shape m)" and a: "map_of (tm_kcps m) a \<noteq> None"
  shows "flow (te_crypto E) m (kcpFeedAt E data a m)" "flow (te_crypto E) m (kcpUpdateAt E a m)"
proof -
  obtain r where r: "map_of (tm_kcps m) a = Some r" using a by auto
  have w: "kcp_at_work E a r m (snd (ko_tunnel r, m))" using S r by (simp add: kcp_at_work_def flowing_def)
  obtain t m' where f: "kcpFeedInput (te_kcp E) (te_cm256 E) (kcpCallbacks E a r) (te_now E) data (ko_tunnel r, m) = (t, m')" by fastforce
  have "flow (te_crypto E) m m'" using kcp_working.feed [OF w, of "te_kcp E" "te_cm256 E" "te_now E" data] f by (simp add: kcp_at_work_def flowing_def)
  from flow_trans [OF this flow_setKcp] show "flow (te_crypto E) m (kcpFeedAt E data a m)" using r f by (simp add: kcpFeedAt_def)
  obtain t m' where u: "kcpUpdate (te_kcp E) (te_cm256 E) (kcpCallbacks E a r) (te_now E) (ko_tunnel r, m) = (t, m')" by fastforce
  have "flow (te_crypto E) m m'" using kcp_working.timer [OF w, of "te_kcp E" "te_cm256 E" "te_now E"] u by (simp add: kcp_at_work_def flowing_def)
  from flow_trans [OF this flow_setKcp] show "flow (te_crypto E) m (kcpUpdateAt E a m)" using r u by (simp add: kcpUpdateAt_def)
qed

lemma listed_raw: "owned (shape m) \<Longrightarrow> map_of (tm_rawByPeerClass m) key = Some a \<Longrightarrow> map_of (tm_raws m) a \<noteq> None"
  using tunnels_ownedD(1) [OF ownedD(4), of "shape m" key a] by auto

lemma listed_kcp: "owned (shape m) \<Longrightarrow> map_of (tm_kcpByPeerClass m) key = Some a \<Longrightarrow> map_of (tm_kcps m) a \<noteq> None"
  using tunnels_ownedD(1) [OF ownedD(3), of "shape m" key a] by auto

section \<open>The operations of the data plane\<close>

lemma flow_dispatch:
  assumes S: "owned (shape m)"
  shows "flow (te_crypto E) m (dispatchDatagram E buf m)"
  using flow_rawAt(1) [OF S listed_raw [OF S]] flow_kcpAt(1) [OF S listed_kcp [OF S]]
  by (simp add: dispatchDatagram_def Let_def split: option.split)

lemma decryptFrame_keys:
  assumes "decryptFrame C frame ad c = (plain, c')"
  shows "sc_sendKey c' = sc_sendKey c" "sc_sendNonceSeed c' = sc_sendNonceSeed c" "sc_recvKey c' = sc_recvKey c"
    "sc_recvNonceSeed c' = sc_recvNonceSeed c" "sc_initialized c' = sc_initialized c"
  using assms by (auto simp: decryptFrame_def recordCounter_def Let_def split: if_splits option.splits)

lemma flow_datagram:
  assumes S: "owned (shape m)"
  shows "flow (te_crypto E) m (onDatagram E d m)"
proof -
  obtain buf ip port where d: "d = (buf, ip, port)" by (metis prod_cases3)
  obtain plain c where c: "decryptFrame (te_crypto E) (drop (1 + SECURE_SESSION_ID_SIZE) buf) [] (tm_udpCipher m) = (plain, c)" by fastforce
  let ?m = "m\<lparr>tm_udpCipher := c\<rparr>"
  have m: "flow (te_crypto E) m ?m" by (rule flow_cipher) (use decryptFrame_keys [OF c] in simp_all)
  have "owned (shape ?m)" using S flow_shape [OF m] by simp
  note step = flow_trans [OF m flow_dispatch [OF this]] flow_trans [OF m flow_drop]
  show ?thesis using c m step flow_dispatch [OF S] unfolding onDatagram_def d prod.case Let_def
    by (simp only: c prod.case split: if_split option.split) simp
qed

lemma flow_readable: "sound m \<Longrightarrow> flow (te_crypto E) m (onUdpReadable E ds m)"
  by (simp add: onUdpReadable_def flow_fold flow_datagram soundD)

lemma flow_toPeer:
  assumes S: "owned (shape m)" and a: "map_of (tm_peers m) a \<noteq> None"
  shows "flow (te_crypto E) m (routeToPeer E a pkt m)"
proof -
  obtain p where p: "map_of (tm_peers m) a = Some p" using a by auto
  obtain n m' where s: "sendPeerData E a pkt m = (n, m')" by fastforce
  then have m': "flow (te_crypto E) m m'" using flow_sendPeerData [OF S p, of E pkt] by simp
  show ?thesis using m' flow_trans [OF m' flow_drop] s by (simp add: routeToPeer_def)
qed

lemma flow_toPeers:
  assumes "owned (shape m)" "\<forall>a \<in> set as. map_of (tm_peers m) a \<noteq> None"
  shows "flow (te_crypto E) m (fold (\<lambda>a. routeToPeer E a pkt) as m)"
  using assms
proof (induction as arbitrary: m)
  case (Cons a as)
  have m1: "flow (te_crypto E) m (routeToPeer E a pkt m)" using Cons.prems by (intro flow_toPeer) auto
  have "flow (te_crypto E) (routeToPeer E a pkt m) (fold (\<lambda>a. routeToPeer E a pkt) as (routeToPeer E a pkt m))"
    using Cons.prems flow_shape [OF m1] same_peers [OF flow_shape [OF m1]] by (intro Cons.IH) auto
  with m1 show ?case by (simp add: flow_trans)
qed simp

lemma flow_fromTun:
  assumes S: "sound m"
  shows "flow (te_crypto E) m (routeFromTun E pkt m)"
proof -
  note o = soundD [OF S]
  have "map_of (tm_peers m) a \<noteq> None" if "a \<in> set (map snd (tm_peerById m))" for a
    using that S owned_peer [OF o, of _ a] om_in_set_iff [of "tm_peerById m" _ a] by (fastforce simp: sound_def)
  then have all: "flow (te_crypto E) m (fold (\<lambda>a. routeToPeer E a pkt) (map snd (tm_peerById m)) m)" by (intro flow_toPeers o) blast
  have one: "flow (te_crypto E) m (routeToPeer E a pkt m)" if "map_of (tm_peerByVIP m) v = Some a" for v a
    using that peers_ownedD(2) [OF ownedD(2) [OF o], of v a] by (intro flow_toPeer o) auto
  show ?thesis using all one by (simp add: routeFromTun_def Let_def split: option.split)
qed

lemma flow_tunPackets:
  assumes S: "sound m"
  shows "flow (te_crypto E) m (processTunPackets E m)"
proof (cases "tm_tun m")
  case (Some tun)
  let ?m = "m\<lparr>tm_tun := Some (tun\<lparr>ta_recvQueue := []\<rparr>)\<rparr>"
  have m: "flow (te_crypto E) m ?m" by (rule flow_quiet) (use Some in \<open>simp_all add: shape_def configuration_def running_def\<close>)
  have "flow (te_crypto E) ?m (fold (routeFromTun E) (ta_recvQueue tun) ?m)"
    by (rule flow_fold) (use S flow_sound [OF m] in \<open>simp_all add: flow_fromTun\<close>)
  from flow_trans [OF m this] m show ?thesis using Some by (simp add: processTunPackets_def Let_def)
qed (simp add: processTunPackets_def)

lemma flow_updateKeys:
  assumes "sound m"
  shows "flow (te_crypto E) m (fold (kcpUpdateKey E) keys m)" "flow (te_crypto E) m (fold (rawUpdateKey E) keys m)"
proof -
  have "flow (te_crypto E) m (kcpUpdateKey E key m)" "flow (te_crypto E) m (rawUpdateKey E key m)" if "sound m" for key and m :: "('a, 'b) CliTunnelManager_scheme"
    using flow_kcpAt(2) [OF soundD listed_kcp [OF soundD], OF that that] flow_rawAt(2) [OF soundD listed_raw [OF soundD], OF that that]
    by (simp_all add: kcpUpdateKey_def rawUpdateKey_def split: option.split)
  then show "flow (te_crypto E) m (fold (kcpUpdateKey E) keys m)" "flow (te_crypto E) m (fold (rawUpdateKey E) keys m)"
    using assms by (simp_all add: flow_fold)
qed

end
