(* ===== verification/Kdf_Task.thy ===== *)
theory Kdf_Task
  imports Secure_Frame
begin

text \<open>
  The background password-hashing task (\<^verbatim>\<open>common/auth_kdf_task.h\<close>): one worker thread, one
  replaceable queued request, a mutex around the shared fields.  Each definition is one
  critical section; the computation of the hash runs between two of them, so a history is any
  interleaving of the client's calls with the worker's two sections.
\<close>

section \<open>State\<close>

record KdfResult =
  kr_hash :: bytes
  kr_success :: bool
  kr_elapsedMs :: u64

text \<open>The worker thread and what it holds on its stack while it computes.\<close>

datatype Worker =
    NotStarted
  | Waiting
  | Computing u64 bytes bytes
  | Exited

record AuthKdfTask =
  kt_stop :: bool
  kt_queued :: bool
  kt_ready :: bool
  kt_generation :: u64
  kt_password :: bytes
  kt_salt :: bytes
  kt_result :: KdfResult
  kt_worker :: Worker

definition newKdfResult :: KdfResult where
  "newKdfResult = \<lparr>kr_hash = replicate 32 0, kr_success = False, kr_elapsedMs = 0\<rparr>"

definition newAuthKdfTask :: AuthKdfTask where
  "newAuthKdfTask = \<lparr>kt_stop = False, kt_queued = False, kt_ready = False, kt_generation = 0,
     kt_password = [], kt_salt = replicate 16 0, kt_result = newKdfResult, kt_worker = NotStarted\<rparr>"

section \<open>Critical sections\<close>

definition cancelLocked :: "AuthKdfTask \<Rightarrow> AuthKdfTask" where
  "cancelLocked k = k\<lparr>kt_generation := kt_generation k + 1, kt_password := [],
     kt_salt := replicate (length (kt_salt k)) 0,
     kt_result := (kt_result k)\<lparr>kr_hash := replicate 32 0\<rparr>,
     kt_queued := False, kt_ready := False\<rparr>"

definition kdfCancel :: "AuthKdfTask \<Rightarrow> AuthKdfTask" where
  "kdfCancel k = cancelLocked k"

definition kdfStart :: "bytes \<Rightarrow> bytes \<Rightarrow> AuthKdfTask \<Rightarrow> AuthKdfTask" where
  "kdfStart password salt k =
     (let k = cancelLocked k;
          k = (if length password \<noteq> 0 then k\<lparr>kt_password := password\<rparr> else k);
          k = k\<lparr>kt_salt := take 16 salt, kt_queued := True\<rparr>
      in if kt_worker k = NotStarted then k\<lparr>kt_worker := Waiting\<rparr> else k)"

definition kdfPoll :: "AuthKdfTask \<Rightarrow> KdfResult option \<times> AuthKdfTask" where
  "kdfPoll k =
     (if \<not> kt_ready k then (None, k)
      else (Some (kt_result k),
            k\<lparr>kt_result := (kt_result k)\<lparr>kr_hash := replicate 32 0\<rparr>, kt_ready := False\<rparr>))"

text \<open>The first section of the destructor; joining the worker is the worker's own exit.\<close>

definition kdfDestroy :: "AuthKdfTask \<Rightarrow> AuthKdfTask" where
  "kdfDestroy k = cancelLocked (k\<lparr>kt_stop := True\<rparr>)"

text \<open>The worker waits until \<^verbatim>\<open>m_stop || m_queued\<close>; it then leaves or takes the request.\<close>

definition workerTake :: "AuthKdfTask \<Rightarrow> AuthKdfTask" where
  "workerTake k =
     (if kt_worker k = Waiting \<and> (kt_stop k \<or> kt_queued k)
      then (if kt_stop k then k\<lparr>kt_worker := Exited\<rparr>
            else k\<lparr>kt_worker := Computing (kt_generation k) (kt_password k) (kt_salt k),
                   kt_password := [], kt_queued := False\<rparr>)
      else k)"

text \<open>\<open>workOk\<close>: whether the hash's work area could be allocated; \<open>elapsed\<close>: its duration.\<close>

definition workerPublish :: "crypto \<Rightarrow> bool \<Rightarrow> u64 \<Rightarrow> AuthKdfTask \<Rightarrow> AuthKdfTask" where
  "workerPublish C workOk elapsed k =
     (case kt_worker k of
        Computing generation password salt \<Rightarrow>
          (case hashPasswordSalted C workOk password salt AUTH_KDF_PROFILE of (success, hash) \<Rightarrow>
             let k = k\<lparr>kt_worker := Waiting\<rparr> in
             if \<not> kt_stop k \<and> generation = kt_generation k
             then k\<lparr>kt_result := \<lparr>kr_hash = hash, kr_success = success, kr_elapsedMs = elapsed\<rparr>, kt_ready := True\<rparr>
             else k)
      | _ \<Rightarrow> k)"

section \<open>Interleavings\<close>

datatype kdf_event =
    KStart bytes bytes | KCancel | KPoll | KDestroy | KTake | KPublish bool u64

fun kdf_step :: "crypto \<Rightarrow> kdf_event \<Rightarrow> AuthKdfTask \<Rightarrow> KdfResult option \<times> AuthKdfTask" where
  "kdf_step C (KStart pw salt) k = (None, kdfStart pw salt k)"
| "kdf_step C KCancel k = (None, kdfCancel k)"
| "kdf_step C KPoll k = kdfPoll k"
| "kdf_step C KDestroy k = (None, kdfDestroy k)"
| "kdf_step C KTake k = (None, workerTake k)"
| "kdf_step C (KPublish ok ms) k = (None, workerPublish C ok ms k)"

fun kdf_run :: "crypto \<Rightarrow> kdf_event list \<Rightarrow> AuthKdfTask \<Rightarrow> AuthKdfTask" where
  "kdf_run C [] k = k"
| "kdf_run C (e # es) k = kdf_run C es (snd (kdf_step C e k))"

text \<open>
  The specification: the request outstanding after a history is that of the last start, if
  neither a cancellation, nor the destruction, nor a successful poll came after it.
\<close>

type_synonym request = "(bytes \<times> bytes) option"

fun request_step :: "kdf_event \<Rightarrow> KdfResult option \<Rightarrow> request \<Rightarrow> request" where
  "request_step (KStart pw salt) r q = Some (pw, take 16 salt)"
| "request_step KCancel r q = None"
| "request_step KDestroy r q = None"
| "request_step KPoll r q = (if r = None then q else None)"
| "request_step _ r q = q"

fun outstanding :: "crypto \<Rightarrow> kdf_event list \<Rightarrow> AuthKdfTask \<Rightarrow> request \<Rightarrow> request" where
  "outstanding C [] k q = q"
| "outstanding C (e # es) k q = (case kdf_step C e k of (r, k') \<Rightarrow> outstanding C es k' (request_step e r q))"

definition is_hash_of :: "crypto \<Rightarrow> KdfResult \<Rightarrow> request \<Rightarrow> bool" where
  "is_hash_of C r q \<longleftrightarrow> (\<exists>pw salt ok. q = Some (pw, salt) \<and>
     hashPasswordSalted C ok pw salt AUTH_KDF_PROFILE = (kr_success r, kr_hash r))"

text \<open>
  The invariant that links the two, after \<open>n\<close> generations: a queued or a ready request is the
  outstanding one, and the worker's request is the outstanding one if no generation passed
  since it was taken.
\<close>

definition kdf_inv :: "crypto \<Rightarrow> nat \<Rightarrow> request \<Rightarrow> AuthKdfTask \<Rightarrow> bool" where
  "kdf_inv C n q k \<longleftrightarrow>
     kt_generation k = of_nat n \<and>
     (\<not> kt_queued k \<longrightarrow> kt_password k = []) \<and>
     (kt_queued k \<longrightarrow> q = Some (kt_password k, kt_salt k) \<and> \<not> kt_ready k) \<and>
     (kt_ready k \<longrightarrow> is_hash_of C (kt_result k) q) \<and>
     (case kt_worker k of
        Computing g pw salt \<Rightarrow> (\<exists>m < n. g = of_nat m) \<or>
          (g = of_nat n \<and> q = Some (pw, salt) \<and> \<not> kt_queued k \<and> \<not> kt_ready k)
      | _ \<Rightarrow> True)"

lemma kdf_inv_cancel:
  assumes "kdf_inv C n q k"
  shows "kdf_inv C (Suc n) q' (cancelLocked k)"
proof (cases "kt_worker k")
  case (Computing g pw salt)
  with assms have "\<exists>m < Suc n. g = of_nat m" by (auto simp: kdf_inv_def intro: less_SucI)
  with Computing assms show ?thesis by (simp add: kdf_inv_def cancelLocked_def)
qed (use assms in \<open>simp_all add: kdf_inv_def cancelLocked_def\<close>)

lemma kdf_inv_step:
  assumes inv: "kdf_inv C n q k" and "n < 2 ^ 64 - 1" and st: "kdf_step C e k = (r, k')"
  shows "\<exists>n' \<le> Suc n. kdf_inv C n' (request_step e r q) k'"
proof (cases e)
  case (KStart pw salt)
  have c: "kdf_inv C (Suc n) None (cancelLocked k)" by (rule kdf_inv_cancel [OF inv])
  then have "kdf_inv C (Suc n) (Some (pw, take 16 salt)) (kdfStart pw salt k)"
    by (auto simp: kdfStart_def Let_def kdf_inv_def cancelLocked_def split: Worker.splits)
  then show ?thesis using KStart st by auto
next
  case KCancel
  then show ?thesis using st kdf_inv_cancel [OF inv, of None] by (auto simp: kdfCancel_def)
next
  case KDestroy
  have "kdf_inv C n q (k\<lparr>kt_stop := True\<rparr>)" using inv by (simp add: kdf_inv_def split: Worker.splits)
  then show ?thesis using st KDestroy kdf_inv_cancel [of C n q _ None] by (auto simp: kdfDestroy_def)
next
  case KPoll
  then show ?thesis
    using st inv by (intro exI [of _ n]) (auto simp: kdfPoll_def kdf_inv_def split: if_splits Worker.splits)
next
  case KTake
  then show ?thesis
    using st inv by (intro exI [of _ n]) (auto simp: workerTake_def kdf_inv_def split: if_splits)
next
  case (KPublish ok ms)
  have neq: "(of_nat m :: u64) \<noteq> of_nat n" if "m < n" for m
  proof
    assume "(of_nat m :: u64) = of_nat n"
    then have "unat (of_nat m :: u64) = unat (of_nat n :: u64)" by simp
    with that assms(2) show False by (simp add: unat_of_nat_small)
  qed
  show ?thesis
  proof (cases "kt_worker k")
    case (Computing g pw salt)
    obtain success hash where h: "hashPasswordSalted C ok pw salt AUTH_KDF_PROFILE = (success, hash)" by fastforce
    have "q = Some (pw, salt) \<and> \<not> kt_queued k" if "g = kt_generation k"
      using inv Computing that neq by (auto simp: kdf_inv_def)
    then have "kdf_inv C n q (workerPublish C ok ms k)"
      using inv Computing h by (auto simp: workerPublish_def kdf_inv_def Let_def is_hash_of_def)
    then show ?thesis using st KPublish by (intro exI [of _ n]) auto
  qed (use st inv KPublish in \<open>auto simp: workerPublish_def intro: exI [of _ n]\<close>)
qed

lemma kdf_inv_run:
  assumes "kdf_inv C n q k" "n + length es < 2 ^ 64 - 1"
  shows "\<exists>n' \<le> n + length es. kdf_inv C n' (outstanding C es k q) (kdf_run C es k)"
  using assms
proof (induction es arbitrary: n q k)
  case (Cons e es)
  obtain r k' where st: "kdf_step C e k = (r, k')" by fastforce
  obtain m where m: "m \<le> Suc n" "kdf_inv C m (request_step e r q) k'"
    using kdf_inv_step [OF Cons.prems(1) _ st] Cons.prems(2) by auto
  with Cons.prems(2) have "m + length es < 2 ^ 64 - 1" by simp
  from Cons.IH [OF m(2) this] obtain n' where "n' \<le> m + length es"
      "kdf_inv C n' (outstanding C es k' (request_step e r q)) (kdf_run C es k')" by blast
  with m(1) show ?case by (intro exI [of _ n']) (simp add: st)
qed auto

section \<open>Properties\<close>

text \<open>
  C38. Stale hashes never reach the caller: over any interleaving of starts, cancellations, polls,
  the destructor and the worker's sections (fewer than \<open>2\<^sup>64 - 1\<close> of them), a poll that
  returns a result returns the hash of the password and salt of the last start, with no
  cancellation since.
\<close>

theorem poll_returns_current:
  assumes "length es < 2 ^ 64 - 1"
    and "fst (kdfPoll (kdf_run C es newAuthKdfTask)) = Some r"
  shows "is_hash_of C r (outstanding C es newAuthKdfTask None)"
proof -
  have "kdf_inv C 0 None newAuthKdfTask" by (simp add: kdf_inv_def newAuthKdfTask_def)
  then obtain n where "kdf_inv C n (outstanding C es newAuthKdfTask None) (kdf_run C es newAuthKdfTask)"
    using kdf_inv_run [of C 0 None newAuthKdfTask es] assms(1) by auto
  then show ?thesis using assms(2) by (auto simp: kdfPoll_def kdf_inv_def split: if_splits)
qed

definition kdf_history :: "kdf_event list" where
  "kdf_history = [KStart [1] (replicate 16 5), KTake, KStart [2] (replicate 16 6),
     KPublish True 3, KTake, KPublish True 4]"

theorem poll_returns_current_witness:
  "is_hash_of demo_crypto
     \<lparr>kr_hash = snd (hashPasswordSalted demo_crypto True [2] (replicate 16 6) 1), kr_success = True, kr_elapsedMs = 4\<rparr>
     (outstanding demo_crypto kdf_history newAuthKdfTask None)"
  by (rule poll_returns_current)
     (simp_all add: kdf_history_def kdfStart_def cancelLocked_def Let_def workerTake_def workerPublish_def
       kdfPoll_def newAuthKdfTask_def hashPasswordSalted_def computeIntermediateWithAllocator_def)

text \<open>
  A request is answered: once a start has queued a request and the worker is free, its two
  sections make the next poll return the hash of that request.
\<close>

lemma request_is_answered:
  assumes "kt_worker k = NotStarted \<or> kt_worker k = Waiting" "\<not> kt_stop k"
  shows "fst (kdfPoll (kdf_run C [KStart pw salt, KTake, KPublish ok ms] k)) =
     Some \<lparr>kr_hash = snd (hashPasswordSalted C ok pw (take 16 salt) AUTH_KDF_PROFILE),
           kr_success = fst (hashPasswordSalted C ok pw (take 16 salt) AUTH_KDF_PROFILE), kr_elapsedMs = ms\<rparr>"
  using assms
  by (auto simp: kdfStart_def cancelLocked_def Let_def workerTake_def workerPublish_def kdfPoll_def
      split: prod.splits)

end
