(* ===== verification/Signal_Validator.thy ===== *)
theory Signal_Validator
  imports Byte_Buffer
begin

text \<open>
  The validator a client runs on every message of the server
  (\<^verbatim>\<open>common/signal_message_validator.h\<close>).  A method of \<^verbatim>\<open>Cursor\<close> that returns \<^verbatim>\<open>bool\<close> is
  a function from a cursor to a sum: \<open>Inl c\<close> is \<^verbatim>\<open>false\<close> with the cursor that records the
  error, \<open>Inr (v, c)\<close> is \<^verbatim>\<open>true\<close> with the value read.
\<close>

section \<open>Results\<close>

datatype MessageValidationStatus = Valid | UnknownType | MalformedMsg

datatype MessageValidationError =
    ENone | Truncated | TrailingData | InvalidBoolean | InvalidCount | InvalidStringLength
  | InvalidPolicy | InvalidMtu | InvalidVersion | InvalidTrafficClass | InvalidValue
  | EncryptedFrameTooShort

record MessageValidationResult =
  mv_status :: MessageValidationStatus
  mv_error :: MessageValidationError
  mv_offset :: nat

definition mvResult :: "MessageValidationStatus \<Rightarrow> MessageValidationError \<Rightarrow> nat \<Rightarrow> MessageValidationResult" where
  "mvResult s e n = \<lparr>mv_status = s, mv_error = e, mv_offset = n\<rparr>"

definition mvValid :: MessageValidationResult where
  "mvValid = mvResult Valid ENone 0"

definition mvIsValid :: "MessageValidationResult \<Rightarrow> bool" where
  "mvIsValid r \<longleftrightarrow> mv_status r = Valid"

fun messageValidationErrorName :: "MessageValidationError \<Rightarrow> string" where
  "messageValidationErrorName ENone = ''none''"
| "messageValidationErrorName Truncated = ''truncated''"
| "messageValidationErrorName TrailingData = ''trailing-data''"
| "messageValidationErrorName InvalidBoolean = ''invalid-boolean''"
| "messageValidationErrorName InvalidCount = ''invalid-count''"
| "messageValidationErrorName InvalidStringLength = ''invalid-string-length''"
| "messageValidationErrorName InvalidPolicy = ''invalid-policy''"
| "messageValidationErrorName InvalidMtu = ''invalid-mtu''"
| "messageValidationErrorName InvalidVersion = ''invalid-version''"
| "messageValidationErrorName InvalidTrafficClass = ''invalid-traffic-class''"
| "messageValidationErrorName InvalidValue = ''invalid-value''"
| "messageValidationErrorName EncryptedFrameTooShort = ''encrypted-frame-too-short''"

section \<open>The cursor\<close>

record Cursor =
  cu_data :: bytes
  cu_len :: nat
  cu_pos :: nat
  cu_error :: MessageValidationError
  cu_errorOffset :: nat

type_synonym 'a reader = "Cursor \<Rightarrow> Cursor + 'a \<times> Cursor"

definition mkCursor :: "bytes option \<Rightarrow> nat \<Rightarrow> Cursor" where
  "mkCursor d len = \<lparr>cu_data = (case d of None \<Rightarrow> [] | Some p \<Rightarrow> take len p), cu_len = len, cu_pos = 0,
     cu_error = ENone, cu_errorOffset = 0\<rparr>"

definition cu_remaining :: "Cursor \<Rightarrow> nat" where
  "cu_remaining c = (if cu_pos c \<le> cu_len c then cu_len c - cu_pos c else 0)"

definition cu_setError :: "MessageValidationError \<Rightarrow> nat \<Rightarrow> Cursor \<Rightarrow> Cursor" where
  "cu_setError e n c = (if cu_error c = ENone then c\<lparr>cu_error := e, cu_errorOffset := n\<rparr> else c)"

text \<open>\<open>cu_fail\<close> is a \<^verbatim>\<open>setError\<close> followed by \<^verbatim>\<open>return false\<close>; \<open>cu_bind\<close> chains the reads of a
  condition \<^verbatim>\<open>!a() || !b()\<close> and the statements after it.\<close>

definition cu_fail :: "MessageValidationError \<Rightarrow> nat \<Rightarrow> 'a reader" where
  "cu_fail e n c = Inl (cu_setError e n c)"

definition cu_return :: "'a \<Rightarrow> 'a reader" where
  "cu_return v c = Inr (v, c)"

definition cu_bind :: "'a reader \<Rightarrow> ('a \<Rightarrow> 'b reader) \<Rightarrow> 'b reader" where
  "cu_bind p q c = (case p c of Inl c' \<Rightarrow> Inl c' | Inr (v, c') \<Rightarrow> q v c')"

definition cu_position :: "nat reader" where
  "cu_position c = Inr (cu_pos c, c)"

definition cu_require :: "nat \<Rightarrow> unit reader" where
  "cu_require n c = (if n > cu_remaining c then Inl (cu_setError Truncated (cu_pos c) c) else Inr ((), c))"

definition cu_take :: "nat \<Rightarrow> (bytes \<Rightarrow> 'a) \<Rightarrow> 'a reader" where
  "cu_take n f = cu_bind (cu_require n)
     (\<lambda>_ c. Inr (f (drop (cu_pos c) (cu_data c)), c\<lparr>cu_pos := cu_pos c + n\<rparr>))"

definition cu_readU8 :: "u8 reader" where
  "cu_readU8 = cu_take 1 (\<lambda>d. d ! 0)"

definition cu_readU16 :: "u16 reader" where
  "cu_readU16 = cu_take 2 (\<lambda>d. push_bit 8 (ucast (d ! 0)) OR ucast (d ! 1))"

definition cu_readU32 :: "u32 reader" where
  "cu_readU32 = cu_take 4 (\<lambda>d. push_bit 24 (ucast (d ! 0)) OR push_bit 16 (ucast (d ! 1)) OR
     push_bit 8 (ucast (d ! 2)) OR ucast (d ! 3))"

definition cu_readU64 :: "u64 reader" where
  "cu_readU64 = cu_take 8 (\<lambda>d. fold (\<lambda>i v. push_bit 8 v OR ucast (d ! i)) [0..<8] 0)"

definition cu_skip :: "nat \<Rightarrow> unit reader" where
  "cu_skip n = cu_take n (\<lambda>_. ())"

text \<open>The offset of the first byte that is not alphanumeric.\<close>

fun firstNonAlphaNum :: "bytes \<Rightarrow> nat \<Rightarrow> nat option" where
  "firstNonAlphaNum [] i = None"
| "firstNonAlphaNum (b # bs) i = (if \<not> isAsciiAlphaNum b then Some i else firstNonAlphaNum bs (Suc i))"

definition cu_readString :: "nat \<Rightarrow> nat \<Rightarrow> bool \<Rightarrow> unit reader" where
  "cu_readString minLen maxLen alphaNumeric =
     cu_bind cu_position (\<lambda>lengthOffset.
     cu_bind cu_readU16 (\<lambda>length16.
     let len = unat length16 in
     if len < minLen \<or> len > maxLen then cu_fail InvalidStringLength lengthOffset
     else cu_bind (cu_require len) (\<lambda>_ c.
       case (if alphaNumeric then firstNonAlphaNum (take len (drop (cu_pos c) (cu_data c))) 0 else None) of
         Some i \<Rightarrow> cu_fail InvalidValue (cu_pos c + i) c
       | None \<Rightarrow> Inr ((), c\<lparr>cu_pos := cu_pos c + len\<rparr>))))"

definition cu_readBoolean :: "unit reader" where
  "cu_readBoolean =
     cu_bind cu_position (\<lambda>fieldOffset.
     cu_bind cu_readU8 (\<lambda>value.
     if value > 1 then cu_fail InvalidBoolean fieldOffset else cu_return ()))"

definition cu_readPolicy :: "unit reader" where
  "cu_readPolicy =
     cu_bind cu_position (\<lambda>fieldOffset.
     cu_bind cu_readU8 (\<lambda>transport.
     cu_bind cu_readU8 (\<lambda>fec.
     cu_bind cu_readU8 (\<lambda>profile.
     if \<not> isValidTransportModeValue transport \<or> \<not> isValidFecModeValue fec \<or>
        \<not> isValidKcpProfileValue profile \<or>
        (transport = TransportMode_val MODE_RELAY_TCP \<and> fec \<noteq> FecMode_val FEC_NONE)
     then cu_fail InvalidPolicy fieldOffset else cu_return ()))))"

definition cu_readMtu :: "unit reader" where
  "cu_readMtu =
     cu_bind cu_position (\<lambda>fieldOffset.
     cu_bind cu_readU16 (\<lambda>mtu.
     if \<not> isValidRoomMtuValue (uint mtu) then cu_fail InvalidMtu fieldOffset else cu_return ()))"

definition cu_finish :: "unit reader" where
  "cu_finish c =
     (if cu_error c \<noteq> ENone then Inl c
      else if cu_pos c \<noteq> cu_len c then Inl (cu_setError TrailingData (cu_pos c) c)
      else Inr ((), c))"

section \<open>Shared validators\<close>

text \<open>\<^verbatim>\<open>return malformed(cursor)\<close> on a failed reader, \<^verbatim>\<open>return finish(cursor)\<close> at the end.\<close>

definition malformed :: "Cursor \<Rightarrow> MessageValidationResult" where
  "malformed c = mvResult MalformedMsg (cu_error c) (cu_errorOffset c)"

definition validateWith :: "unit reader \<Rightarrow> bytes option \<Rightarrow> nat \<Rightarrow> MessageValidationResult" where
  "validateWith p d len = (case p (mkCursor d len) of Inl c \<Rightarrow> malformed c | Inr _ \<Rightarrow> mvValid)"

definition fixedSize :: "nat \<Rightarrow> nat \<Rightarrow> MessageValidationResult" where
  "fixedSize actual expected =
     (if actual < expected then mvResult MalformedMsg Truncated actual
      else if actual > expected then mvResult MalformedMsg TrailingData expected
      else mvValid)"

definition validateEncryptedEnvelope :: "nat \<Rightarrow> MessageValidationResult" where
  "validateEncryptedEnvelope len =
     (let minimum = 8 + 1 + 16 in
      if len < minimum then mvResult MalformedMsg EncryptedFrameTooShort len else mvValid)"

definition peerInfoReader :: "unit reader" where
  "peerInfoReader =
     cu_bind cu_readU32 (\<lambda>peerId. cu_bind cu_readU32 (\<lambda>virtualIP.
     cu_bind (cu_readString MIN_PLAYER_NAME_LEN MAX_PLAYER_NAME_LEN True) (\<lambda>_.
     if peerId = 0 \<or> virtualIP = 0 then cu_fail InvalidValue 0 else cu_finish)))"

definition validatePeerInfo :: "bytes option \<Rightarrow> nat \<Rightarrow> MessageValidationResult" where
  "validatePeerInfo = validateWith peerInfoReader"

definition relayDataReader :: "unit reader" where
  "relayDataReader =
     cu_bind cu_readU32 (\<lambda>srcPeerId. cu_bind cu_readU32 (\<lambda>dstPeerId. cu_bind cu_readU8 (\<lambda>trafficClass.
     if srcPeerId = 0 \<or> dstPeerId = 0 then cu_fail InvalidValue 0
     else if trafficClass \<noteq> TRAFFIC_TCP \<and> trafficClass \<noteq> TRAFFIC_UDP then cu_fail InvalidTrafficClass 8
     else cu_bind (\<lambda>c. cu_skip (cu_remaining c) c) (\<lambda>_. cu_finish))))"

definition validateRelayData :: "bytes option \<Rightarrow> nat \<Rightarrow> MessageValidationResult" where
  "validateRelayData = validateWith relayDataReader"

definition readRoomListItem :: "u32 reader" where
  "readRoomListItem =
     cu_bind cu_position (\<lambda>roomOffset.
     cu_bind cu_readU32 (\<lambda>roomId.
     cu_bind (cu_readString 1 MAX_ROOM_NAME_LEN False) (\<lambda>_.
     cu_bind cu_readU8 (\<lambda>playerCount. cu_bind cu_readU8 (\<lambda>maxPlayers.
     cu_bind cu_readPolicy (\<lambda>_. cu_bind cu_readPolicy (\<lambda>_.
     cu_bind cu_readBoolean (\<lambda>_. cu_bind cu_readMtu (\<lambda>_.
     if roomId = 0 \<or> unat maxPlayers < 2 \<or> unat maxPlayers > MAX_PLAYERS \<or> playerCount > maxPlayers
     then cu_fail InvalidValue roomOffset else cu_return roomId)))))))))"

section \<open>Messages of the signalling channel\<close>

definition serverHelloReader :: "unit reader" where
  "serverHelloReader =
     cu_bind cu_readU16 (\<lambda>version. cu_bind cu_readU8 (\<lambda>authRequired.
     if version \<noteq> PROTOCOL_VERSION then cu_fail InvalidVersion 0
     else if authRequired > 1 then cu_fail InvalidBoolean 2
     else cu_bind (if authRequired \<noteq> 0 then cu_skip (1 + AUTH_SALT_SIZE + 16 + 32) else cu_return ()) (\<lambda>_.
          cu_finish)))"

definition serverAuthOkReader :: "unit reader" where
  "serverAuthOkReader =
     cu_bind cu_readU32 (\<lambda>sessionId. cu_bind (cu_skip 32) (\<lambda>_.
     if sessionId = 0 then cu_fail InvalidValue 0 else cu_finish))"

definition loginRespReader :: "unit reader" where
  "loginRespReader =
     cu_bind cu_readU32 (\<lambda>peerId. cu_bind cu_readU16 (\<lambda>version.
     if peerId = 0 then cu_fail InvalidValue 0
     else if version \<noteq> PROTOCOL_VERSION then cu_fail InvalidVersion 4
     else cu_bind cu_readBoolean (\<lambda>_. cu_finish)))"

definition roomCreatedReader :: "unit reader" where
  "roomCreatedReader =
     cu_bind cu_readU32 (\<lambda>roomId. cu_bind cu_readU32 (\<lambda>virtualIP.
     cu_bind cu_readPolicy (\<lambda>_. cu_bind cu_readPolicy (\<lambda>_.
     cu_bind cu_readBoolean (\<lambda>_. cu_bind cu_readMtu (\<lambda>_.
     cu_bind (cu_skip RECONNECT_TOKEN_SIZE) (\<lambda>_.
     if roomId = 0 \<or> virtualIP = 0 then cu_fail InvalidValue 0 else cu_finish)))))))"

fun joinMembersReader :: "nat \<Rightarrow> unit reader" where
  "joinMembersReader 0 = cu_return ()"
| "joinMembersReader (Suc n) =
     cu_bind cu_position (\<lambda>memberOffset.
     cu_bind cu_readU32 (\<lambda>peerId. cu_bind cu_readU32 (\<lambda>memberIP.
     cu_bind (cu_readString MIN_PLAYER_NAME_LEN MAX_PLAYER_NAME_LEN True) (\<lambda>_.
     if peerId = 0 \<or> memberIP = 0 then cu_fail InvalidValue memberOffset
     else joinMembersReader n))))"

definition joinRespReader :: "unit reader" where
  "joinRespReader =
     cu_bind cu_readU32 (\<lambda>roomId. cu_bind cu_readU32 (\<lambda>virtualIP.
     cu_bind cu_readPolicy (\<lambda>_. cu_bind cu_readPolicy (\<lambda>_.
     cu_bind cu_readBoolean (\<lambda>_. cu_bind cu_readMtu (\<lambda>_.
     cu_bind cu_readU8 (\<lambda>count.
     if roomId = 0 \<or> virtualIP = 0 then cu_fail InvalidValue 0
     else if count = 0 \<or> unat count > MAX_PLAYERS
     then cu_bind cu_position (\<lambda>p. cu_fail InvalidCount (p - 1))
     else cu_bind (joinMembersReader (unat count)) (\<lambda>_.
          cu_bind (cu_skip RECONNECT_TOKEN_SIZE) (\<lambda>_. cu_finish)))))))))"

definition peerIdReader :: "unit reader" where
  "peerIdReader =
     cu_bind cu_readU32 (\<lambda>peerId. if peerId = 0 then cu_fail InvalidValue 0 else cu_finish)"

abbreviation (input) MIN_ROOM_RECORD_SIZE :: nat where "MIN_ROOM_RECORD_SIZE \<equiv> 18"

fun roomListItemsReader :: "nat \<Rightarrow> u32 list \<Rightarrow> unit reader" where
  "roomListItemsReader 0 roomIds = cu_return ()"
| "roomListItemsReader (Suc n) roomIds =
     cu_bind readRoomListItem (\<lambda>roomId.
     if roomId \<in> set roomIds then cu_bind cu_position (\<lambda>p. cu_fail InvalidValue p)
     else roomListItemsReader n (roomId # roomIds))"

definition roomListReader :: "unit reader" where
  "roomListReader =
     cu_bind cu_readU64 (\<lambda>revision. cu_bind cu_readU16 (\<lambda>pageIndex.
     cu_bind cu_readU16 (\<lambda>pageCount. cu_bind cu_readU16 (\<lambda>count.
     if revision = 0 \<or> pageCount = 0 \<or> pageIndex \<ge> pageCount then cu_fail InvalidValue 0
     else (\<lambda>c. if unat count > cu_remaining c div MIN_ROOM_RECORD_SIZE then cu_fail InvalidCount 12 c
               else cu_bind (roomListItemsReader (unat count) []) (\<lambda>_. cu_finish) c)))))"

fun roomListChangesReader :: "nat \<Rightarrow> u32 list \<Rightarrow> unit reader" where
  "roomListChangesReader 0 roomIds = cu_return ()"
| "roomListChangesReader (Suc n) roomIds =
     cu_bind cu_readU8 (\<lambda>operation.
     cu_bind (if operation = ROOM_LIST_UPSERT then readRoomListItem
              else if operation = ROOM_LIST_REMOVE
              then cu_bind cu_readU32 (\<lambda>roomId.
                     if roomId = 0 then cu_bind cu_position (\<lambda>p. cu_fail InvalidValue (p - 4))
                     else cu_return roomId)
              else cu_bind cu_position (\<lambda>p. cu_fail InvalidValue (p - 1))) (\<lambda>roomId.
     if roomId \<in> set roomIds then cu_bind cu_position (\<lambda>p. cu_fail InvalidValue p)
     else roomListChangesReader n (roomId # roomIds)))"

definition roomListPushReader :: "unit reader" where
  "roomListPushReader =
     cu_bind cu_readU64 (\<lambda>baseRevision. cu_bind cu_readU64 (\<lambda>revision. cu_bind cu_readU16 (\<lambda>count.
     if revision = 0 \<or> revision \<le> baseRevision \<or> count = 0 then cu_fail InvalidValue 0
     else cu_bind (roomListChangesReader (unat count) []) (\<lambda>_. cu_finish))))"

definition errorReader :: "unit reader" where
  "errorReader =
     cu_bind (cu_skip 2) (\<lambda>_. cu_bind (cu_readString 1 (MAX_TCP_MSG_PAYLOAD - 4) False) (\<lambda>_. cu_finish))"

definition validateServerSignalPayload :: "u8 \<Rightarrow> bytes option \<Rightarrow> nat \<Rightarrow> MessageValidationResult" where
  "validateServerSignalPayload msgType data len =
     (if len > 0 \<and> data = None then mvResult MalformedMsg Truncated 0
      else if msgType = MSG_SERVER_HELLO then validateWith serverHelloReader data len
      else if msgType = MSG_SERVER_AUTH_OK then validateWith serverAuthOkReader data len
      else if msgType = MSG_ENCRYPTED then validateEncryptedEnvelope len
      else if msgType = MSG_LOGIN_RESP then validateWith loginRespReader data len
      else if msgType = MSG_ROOM_CREATED then validateWith roomCreatedReader data len
      else if msgType = MSG_JOIN_RESP then validateWith joinRespReader data len
      else if msgType = MSG_PEER_JOINED \<or> msgType = MSG_PEER_RESUMED then validatePeerInfo data len
      else if msgType = MSG_PEER_LEFT \<or> msgType = MSG_RELAY_READY then validateWith peerIdReader data len
      else if msgType = MSG_LOGOUT_ACK \<or> msgType = MSG_PONG then fixedSize len 0
      else if msgType = MSG_ROOM_LIST
      then (if len > ROOM_LIST_PAGE_PAYLOAD then mvResult MalformedMsg InvalidValue ROOM_LIST_PAGE_PAYLOAD
            else validateWith roomListReader data len)
      else if msgType = MSG_ROOM_LIST_PUSH
      then (if len > ROOM_LIST_PAGE_PAYLOAD then mvResult MalformedMsg InvalidValue ROOM_LIST_PAGE_PAYLOAD
            else validateWith roomListPushReader data len)
      else if msgType = MSG_AUTH_CHALLENGE then fixedSize len (1 + AUTH_SALT_SIZE + 32)
      else if msgType = MSG_ERROR then validateWith errorReader data len
      else if msgType = MSG_TCP_RELAY_DATA then validateRelayData data len
      else mvResult UnknownType ENone 0)"

definition validateServerDataPayload :: "u8 \<Rightarrow> bytes option \<Rightarrow> nat \<Rightarrow> MessageValidationResult" where
  "validateServerDataPayload msgType data len =
     (if len > 0 \<and> data = None then mvResult MalformedMsg Truncated 0
      else if msgType = MSG_ENCRYPTED then validateEncryptedEnvelope len
      else if msgType = MSG_DATA_CHANNEL_ACK \<or> msgType = MSG_PONG then fixedSize len 0
      else if msgType = MSG_TCP_RELAY_DATA then validateRelayData data len
      else mvResult UnknownType ENone 0)"

end
