(* ===== verification/Cli_Signal.thy ===== *)
theory Cli_Signal
  imports Cli_Conn Kdf_Task Signal_Validator
begin

text \<open>
  The signalling client of the command-line program (\<^verbatim>\<open>client-cli/src/cli_net.cpp\<close>, class
  \<^verbatim>\<open>CliSignalClient\<close>).  An operation is a function on the record \<open>CliSignalClient\<close>.

  The callbacks of the class are one argument \<open>app\<close>: what the owner of the client does when the
  event is raised, which may be any change of the client, so re-entrant calls are covered; a
  callback that is not set is the identity.  \<open>sg_app\<close> is the owner's own state.  The world outside is in
  the record too: \<open>sg_nowMs\<close> is \<^verbatim>\<open>currentTimeMs()\<close> and \<open>sg_monoMs\<close> \<^verbatim>\<open>roomMonotonicMs()\<close> while one event
  is handled, \<open>sg_randoms\<close> are the coming answers of the random generator (none left, or
  an answer of another length: it fails).  Wiping a buffer is setting it to zeros; the log is not modelled, so neither are the arguments
  that only name an error in it.
\<close>

section \<open>State\<close>

record CliRoomListItem =
  ci_roomId :: u32
  ci_roomName :: bytes
  ci_playerCount :: u8
  ci_maxPlayers :: u8
  ci_tcpPolicy :: RoomTrafficPolicy
  ci_udpPolicy :: RoomTrafficPolicy
  ci_passwordProtected :: u8
  ci_mtu :: u16

text \<open>\<^verbatim>\<open>PeerInfo\<close> as the client fills it; \<^verbatim>\<open>transport\<close> is always \<^verbatim>\<open>TRANSPORT_NONE\<close> here.\<close>

record PeerInfo =
  pi_peerId :: u32
  pi_virtualIP :: u32
  pi_name :: bytes

record RoomAnswer =
  ra_roomId :: u32
  ra_virtualIP :: u32
  ra_tcpPolicy :: RoomTrafficPolicy
  ra_udpPolicy :: RoomTrafficPolicy
  ra_mtu :: u16
  ra_passwordProtected :: bool
  ra_leaseToken :: bytes

datatype signal_event =
    OnConnected | OnDisconnected | OnConnectFailed string
  | OnLoginResponse u32 bool
  | OnRoomCreated RoomAnswer
  | OnJoinResponse RoomAnswer "PeerInfo list"
  | OnPeerJoined PeerInfo | OnPeerResumed PeerInfo | OnPeerLeft u32
  | OnRoomList "CliRoomListItem list" bool
  | OnRelayReady u32
  | OnRelayData u32 u8 bytes
  | OnLogoutAck
  | OnServerPasswordRequired
  | OnSecureSessionEstablished u32 bytes
  | OnServerError bytes
  | OnRoomOperationFailure bytes
  | OnFatalAuthError u16 bytes
  | OnServerRtt int

record 'a CliSignalClient =
  sg_conn :: TcpConnection
  sg_myPeerId :: u32
  sg_pingSentTime :: u32
  sg_connectStartTime :: u32
  sg_authStartedMs :: u32
  sg_pendingRoomPassword :: bytes
  sg_authTask :: AuthKdfTask
  sg_authOperation :: int
  sg_pendingCreate :: ByteBuffer
  sg_pendingCreateMtu :: u16
  sg_authSalt :: bytes
  sg_expectedServerProof :: bytes
  sg_roomChallenge :: bytes
  sg_hasPendingAuth :: bool
  sg_roomOperationPending :: bool
  sg_discardRoomResponses :: bool
  sg_roomRequestStarted :: u64
  sg_sendFailurePending :: bool
  sg_serverPassword :: bytes
  sg_serverAuthRequired :: bool
  sg_secureReady :: bool
  sg_disconnectNotified :: bool
  sg_secureSessionId :: u32
  sg_clientNonce :: bytes
  sg_serverNonce :: bytes
  sg_clientPrivKey :: bytes
  sg_clientPubKey :: bytes
  sg_serverPubKey :: bytes
  sg_secureMaster :: bytes
  sg_secureCipher :: SecureFrameCipher
  sg_roomListRevision :: u64
  sg_snapshotRevision :: u64
  sg_snapshotPageCount :: u16
  sg_snapshotNextPage :: u16
  sg_roomListCache :: "(u32, CliRoomListItem) omap"
  sg_snapshotRooms :: "(u32, CliRoomListItem) omap"
  sg_hasRoomFailureCb :: bool
  sg_nowMs :: u32
  sg_monoMs :: u64
  sg_randoms :: "bytes option list"
  sg_app :: 'a

type_synonym 'a app = "signal_event \<Rightarrow> 'a CliSignalClient \<Rightarrow> 'a CliSignalClient"
type_synonym 'a sig_op = "'a CliSignalClient \<Rightarrow> 'a CliSignalClient"

text \<open>The constructor; \<open>a\<close> is the owner's state, \<open>failureCb\<close> whether \<^verbatim>\<open>onRoomOperationFailure\<close> is set.\<close>

definition newCliSignalClient :: "bool \<Rightarrow> 'a \<Rightarrow> 'a CliSignalClient" where
  "newCliSignalClient failureCb a =
     \<lparr>sg_conn = newTcpConnection, sg_myPeerId = 0, sg_pingSentTime = 0, sg_connectStartTime = 0, sg_authStartedMs = 0,
      sg_pendingRoomPassword = [], sg_authTask = newAuthKdfTask, sg_authOperation = 0,
      sg_pendingCreate = emptyBuffer, sg_pendingCreateMtu = of_int ROOM_MTU_DEFAULT, sg_authSalt = replicate 16 0,
      sg_expectedServerProof = replicate 32 0, sg_roomChallenge = replicate 32 0, sg_hasPendingAuth = False,
      sg_roomOperationPending = False, sg_discardRoomResponses = False, sg_roomRequestStarted = 0,
      sg_sendFailurePending = False, sg_serverPassword = [], sg_serverAuthRequired = False, sg_secureReady = False,
      sg_disconnectNotified = False, sg_secureSessionId = 0, sg_clientNonce = replicate 16 0,
      sg_serverNonce = replicate 16 0, sg_clientPrivKey = replicate 32 0, sg_clientPubKey = replicate 32 0,
      sg_serverPubKey = replicate 32 0, sg_secureMaster = [], sg_secureCipher = newCipher, sg_roomListRevision = 0,
      sg_snapshotRevision = 0, sg_snapshotPageCount = 0, sg_snapshotNextPage = 0, sg_roomListCache = [],
      sg_snapshotRooms = [], sg_hasRoomFailureCb = failureCb, sg_nowMs = 0, sg_monoMs = 0, sg_randoms = [], sg_app = a\<rparr>"

section \<open>Resets\<close>

definition sigResetConn :: "'a sig_op" where
  "sigResetConn s = s\<lparr>sg_conn := tcReset (sg_conn s)\<rparr>"

definition sigCancelRoomOperation :: "'a sig_op" where
  "sigCancelRoomOperation s =
     (let s = (if sg_authOperation s = 2 \<or> sg_authOperation s = 3
               then s\<lparr>sg_authTask := kdfCancel (sg_authTask s), sg_authOperation := 0\<rparr> else s)
      in s\<lparr>sg_roomOperationPending := False, sg_hasPendingAuth := False, sg_pendingRoomPassword := [],
           sg_roomChallenge := replicate 32 0, sg_pendingCreate := bb_clear (sg_pendingCreate s)\<rparr>)"

definition sigResetRoomListState :: "'a sig_op" where
  "sigResetRoomListState s =
     s\<lparr>sg_roomListRevision := 0, sg_snapshotRevision := 0, sg_snapshotPageCount := 0, sg_snapshotNextPage := 0,
       sg_roomListCache := [], sg_snapshotRooms := []\<rparr>"

definition sigResetSecureState :: "'a sig_op" where
  "sigResetSecureState s =
     (let s = sigCancelRoomOperation s;
          s = s\<lparr>sg_authTask := kdfCancel (sg_authTask s), sg_authOperation := 0,
                sg_roomOperationPending := False, sg_sendFailurePending := False,
                sg_discardRoomResponses := False, sg_roomRequestStarted := 0,
                sg_authSalt := replicate 16 0, sg_expectedServerProof := replicate 32 0,
                sg_roomChallenge := replicate 32 0,
                sg_serverAuthRequired := False, sg_secureReady := False, sg_secureSessionId := 0,
                sg_secureCipher := resetCipher (sg_secureCipher s)\<rparr>;
          s = (if sg_secureMaster s \<noteq> [] then s\<lparr>sg_secureMaster := []\<rparr> else s);
          s = s\<lparr>sg_clientNonce := replicate 16 0, sg_serverNonce := replicate 16 0,
                sg_clientPrivKey := replicate 32 0, sg_clientPubKey := replicate 32 0,
                sg_serverPubKey := replicate 32 0,
                sg_pendingRoomPassword := [], sg_hasPendingAuth := False\<rparr>
      in sigResetRoomListState s)"

definition sigNotifyDisconnectedOnce :: "'a app \<Rightarrow> 'a sig_op" where
  "sigNotifyDisconnectedOnce app s =
     (if sg_disconnectNotified s then s
      else app OnDisconnected (s\<lparr>sg_disconnectNotified := True\<rparr>))"

text \<open>The three calls every failure ends with; \<^verbatim>\<open>failSignalFrame\<close> is a log entry and these.\<close>

definition sigFailSignalFrame :: "'a app \<Rightarrow> 'a sig_op" where
  "sigFailSignalFrame app s = sigNotifyDisconnectedOnce app (sigResetSecureState (sigResetConn s))"

definition sigFailAuthentication :: "'a app \<Rightarrow> u16 \<Rightarrow> bytes \<Rightarrow> 'a sig_op" where
  "sigFailAuthentication app code message s =
     (let s = app (OnFatalAuthError code message) s;
          s = app (OnServerError message) s
      in sigNotifyDisconnectedOnce app (sigResetSecureState (sigResetConn s)))"

section \<open>Sending\<close>

definition sigConnSend :: "u8 \<Rightarrow> ByteBuffer \<Rightarrow> 'a sig_op" where
  "sigConnSend msgType bb s =
     (case tcSendTcpMsg msgType bb (sg_conn s) of
        (ok, conn) \<Rightarrow> let s = s\<lparr>sg_conn := conn\<rparr> in if ok then s else s\<lparr>sg_sendFailurePending := True\<rparr>)"

definition sigSendMsg :: "crypto \<Rightarrow> 'a app \<Rightarrow> u8 \<Rightarrow> ByteBuffer \<Rightarrow> 'a sig_op" where
  "sigSendMsg C app msgType body s =
     (if bb_size body > MAX_TCP_MSG_PAYLOAD then s
      else if \<not> sg_secureReady s then s
      else case encryptFrame C (msgType # bb_data body) [] (sg_secureCipher s) of
        (enc, cipher) \<Rightarrow>
          let s = s\<lparr>sg_secureCipher := cipher\<rparr> in
          if enc = []
          then sigNotifyDisconnectedOnce app (sigResetSecureState (sigResetConn
                 (app (OnServerError (ascii ''secure counter exhausted; reconnect required'')) s)))
          else if length enc > MAX_TCP_MSG_PAYLOAD then s
          else sigConnSend MSG_ENCRYPTED (writeBytes enc emptyBuffer) s)"

definition sigSendMsg0 :: "crypto \<Rightarrow> 'a app \<Rightarrow> u8 \<Rightarrow> 'a sig_op" where
  "sigSendMsg0 C app msgType s = sigSendMsg C app msgType emptyBuffer s"

section \<open>Public operations\<close>

definition sigConnectTo :: "int \<Rightarrow> bool \<Rightarrow> 'a CliSignalClient \<Rightarrow> bool \<times> 'a CliSignalClient" where
  "sigConnectTo fd started s =
     (let s = s\<lparr>sg_myPeerId := 0\<rparr>;
          s = sigResetSecureState s;
          s = s\<lparr>sg_disconnectNotified := False, sg_connectStartTime := sg_nowMs s\<rparr>
      in case tcConnectTo fd started (sg_conn s) of (ok, conn) \<Rightarrow> (ok, s\<lparr>sg_conn := conn\<rparr>))"

definition sigDisconnect :: "'a sig_op" where
  "sigDisconnect s = (sigResetSecureState (sigResetConn s))\<lparr>sg_myPeerId := 0\<rparr>"

definition sigSetServerPassword :: "bytes \<Rightarrow> 'a sig_op" where
  "sigSetServerPassword password s =
     (let s = (if sg_authOperation s = 1
               then s\<lparr>sg_authTask := kdfCancel (sg_authTask s), sg_authOperation := 0\<rparr> else s);
          s = s\<lparr>sg_serverPassword := password\<rparr>
      in if \<not> sg_secureReady s \<and> sg_secureMaster s \<noteq> [] then sigDisconnect s else s)"

definition sigSendServerAuth :: "'a app \<Rightarrow> 'a sig_op" where
  "sigSendServerAuth app s =
     (if sg_authOperation s \<noteq> 0 \<or> sg_secureReady s \<or> sg_secureMaster s \<noteq> [] then s
      else if sg_serverPassword s = [] then app OnServerPasswordRequired s
      else s\<lparr>sg_authOperation := 1,
             sg_authTask := kdfStart (sg_serverPassword s) (sg_authSalt s) (sg_authTask s)\<rparr>)"

definition sigContinueServerAuth :: "'a app \<Rightarrow> 'a sig_op" where
  "sigContinueServerAuth app s =
     (if sg_serverAuthRequired s \<and> \<not> sg_secureReady s then sigSendServerAuth app s else s)"

text \<open>\<open>resume\<close> is the lease to resume: present when \<^verbatim>\<open>hasResume\<close> and the token pointer is not null.\<close>

definition sigLogin :: "crypto \<Rightarrow> 'a app \<Rightarrow> bytes \<Rightarrow> (u32 \<times> u32 \<times> bytes) option \<Rightarrow> 'a sig_op" where
  "sigLogin C app name resume s =
     (let bb = writeU16 PROTOCOL_VERSION (writeString name emptyBuffer);
          bb = writeU8 (if resume \<noteq> None then 1 else 0) bb;
          bb = (case resume of None \<Rightarrow> bb
                | Some (resumeRoomId, resumePeerId, resumeToken) \<Rightarrow>
                    writeBytes (take RECONNECT_TOKEN_SIZE resumeToken) (writeU32 resumePeerId (writeU32 resumeRoomId bb)))
      in sigSendMsg C app MSG_LOGIN bb s)"

text \<open>The answer of \<^verbatim>\<open>secureRandomBytes\<close> for \<open>n\<close> bytes; on failure the buffer is zeros.\<close>

definition sigRandom :: "nat \<Rightarrow> 'a CliSignalClient \<Rightarrow> (bool \<times> bytes) \<times> 'a CliSignalClient" where
  "sigRandom n s =
     (case sg_randoms s of
        [] \<Rightarrow> (secureRandomBytesWithProvider n None, s)
      | r # rs \<Rightarrow> (secureRandomBytesWithProvider n (Some (\<lambda>n. Option.bind r (\<lambda>bs. if length bs = n then Some bs else None))), s\<lparr>sg_randoms := rs\<rparr>))"

definition sigPolicyBytes :: "RoomTrafficPolicy \<Rightarrow> ByteBuffer \<Rightarrow> ByteBuffer" where
  "sigPolicyBytes p bb =
     writeU8 (KcpProfile_val (tp_kcpProfile p)) (writeU8 (FecMode_val (tp_fecMode p)) (writeU8 (TransportMode_val (tp_transportMode p)) bb))"

definition sigCreateRoom ::
  "crypto \<Rightarrow> 'a app \<Rightarrow> bytes \<Rightarrow> u8 \<Rightarrow> RoomTrafficPolicy \<Rightarrow> RoomTrafficPolicy \<Rightarrow> u16 \<Rightarrow> bool \<Rightarrow> bytes \<Rightarrow> 'a sig_op" where
  "sigCreateRoom C app roomName maxPlayers tcpPolicy udpPolicy mtu passwordProtected password s =
     (if sg_roomOperationPending s \<or> sg_authOperation s \<noteq> 0 \<or> \<not> sg_secureReady s then s
      else
        let s = s\<lparr>sg_roomOperationPending := True, sg_discardRoomResponses := False, sg_roomRequestStarted := sg_monoMs s\<rparr>;
            bb = sigPolicyBytes udpPolicy (sigPolicyBytes tcpPolicy (writeU8 maxPlayers (writeString roomName emptyBuffer)));
            bb = writeU8 (if passwordProtected then 1 else 0) bb in
        if \<not> passwordProtected
        then sigSendMsg C app MSG_CREATE_ROOM (writeU16 (normalizeRoomMtu (uint mtu)) bb) s
        else case sigRandom 16 s of
          ((ok, salt), s) \<Rightarrow>
            let s = s\<lparr>sg_authSalt := salt\<rparr> in
            if \<not> ok
            then app (OnServerError (ascii ''secure random generation failed'')) (s\<lparr>sg_roomOperationPending := False\<rparr>)
            else s\<lparr>sg_pendingCreate := bb, sg_pendingCreateMtu := normalizeRoomMtu (uint mtu), sg_authOperation := 2,
                   sg_authTask := kdfStart password (sg_authSalt s) (sg_authTask s)\<rparr>)"

definition sigJoinRoom :: "crypto \<Rightarrow> 'a app \<Rightarrow> u32 \<Rightarrow> bytes \<Rightarrow> 'a sig_op" where
  "sigJoinRoom C app roomId password s =
     (if sg_roomOperationPending s \<or> sg_authOperation s \<noteq> 0 \<or> \<not> sg_secureReady s \<or> roomId = 0 then s
      else sigSendMsg C app MSG_JOIN_ROOM (writeU32 roomId emptyBuffer)
             (s\<lparr>sg_roomOperationPending := True, sg_discardRoomResponses := False,
                sg_roomRequestStarted := sg_monoMs s, sg_pendingRoomPassword := password, sg_hasPendingAuth := True\<rparr>))"

definition sigResumeRoom :: "crypto \<Rightarrow> 'a app \<Rightarrow> u32 \<Rightarrow> u32 \<Rightarrow> bytes option \<Rightarrow> 'a sig_op" where
  "sigResumeRoom C app roomId peerId resumeToken s =
     (case resumeToken of
        None \<Rightarrow> s
      | Some token \<Rightarrow>
          if sg_roomOperationPending s \<or> \<not> sg_secureReady s then s
          else sigSendMsg C app MSG_RESUME_ROOM
                 (writeBytes (take RECONNECT_TOKEN_SIZE token) (writeU32 peerId (writeU32 roomId emptyBuffer)))
                 (s\<lparr>sg_roomOperationPending := True, sg_discardRoomResponses := False, sg_roomRequestStarted := sg_monoMs s\<rparr>))"

definition sigLeaveRoom :: "crypto \<Rightarrow> 'a app \<Rightarrow> 'a sig_op" where
  "sigLeaveRoom C app s =
     (if sg_roomOperationPending s then (sigCancelRoomOperation s)\<lparr>sg_sendFailurePending := True\<rparr>
      else sigSendMsg0 C app MSG_LEAVE_ROOM s)"

definition sigAbandonRoomOperation :: "'a sig_op" where
  "sigAbandonRoomOperation s = (sigCancelRoomOperation s)\<lparr>sg_discardRoomResponses := True\<rparr>"

definition sigLogout :: "crypto \<Rightarrow> 'a app \<Rightarrow> 'a sig_op" where
  "sigLogout C app s = sigSendMsg0 C app MSG_LOGOUT (sigAbandonRoomOperation s)"

definition sigListRooms :: "crypto \<Rightarrow> 'a app \<Rightarrow> 'a sig_op" where
  "sigListRooms C app s = sigSendMsg0 C app MSG_LIST_ROOMS s"

definition sigRequestRelay :: "crypto \<Rightarrow> 'a app \<Rightarrow> u32 \<Rightarrow> 'a sig_op" where
  "sigRequestRelay C app targetPeerId s = sigSendMsg C app MSG_REQUEST_RELAY (writeU32 targetPeerId emptyBuffer) s"

definition sigSendRelayData :: "crypto \<Rightarrow> 'a app \<Rightarrow> u32 \<Rightarrow> u32 \<Rightarrow> u8 \<Rightarrow> bytes \<Rightarrow> 'a sig_op" where
  "sigSendRelayData C app srcPeerId dstPeerId cls data s =
     (let bb = writeU8 cls (writeU32 dstPeerId (writeU32 srcPeerId emptyBuffer));
          bb = (if data \<noteq> [] then writeBytes data bb else bb)
      in sigSendMsg C app MSG_TCP_RELAY_DATA bb s)"

definition sigSendPing :: "crypto \<Rightarrow> 'a app \<Rightarrow> 'a sig_op" where
  "sigSendPing C app s = sigSendMsg0 C app MSG_PING (s\<lparr>sg_pingSentTime := sg_nowMs s\<rparr>)"

definition sigSendAuthResponse :: "crypto \<Rightarrow> 'a app \<Rightarrow> bytes \<Rightarrow> 'a sig_op" where
  "sigSendAuthResponse C app response s =
     sigSendMsg C app MSG_AUTH_RESPONSE (writeBytes (take 32 response) emptyBuffer) s"

section \<open>The handshake\<close>

definition sigSendClientHello :: "crypto \<Rightarrow> 'a app \<Rightarrow> 'a sig_op" where
  "sigSendClientHello C app s =
     (case sigRandom 16 s of ((ok1, nonce), s) \<Rightarrow>
        let s = s\<lparr>sg_clientNonce := nonce\<rparr> in
        case (if ok1 then sigRandom 32 s else ((False, sg_clientPrivKey s), s)) of ((ok2, priv), s) \<Rightarrow>
          let s = s\<lparr>sg_clientPrivKey := priv\<rparr> in
          if \<not> ok1 \<or> \<not> ok2
          then sigNotifyDisconnectedOnce app (sigResetConn
                 (app (OnServerError (ascii ''secure random generation failed'')) s))
          else
            let s = s\<lparr>sg_clientPubKey := cr_x25519_public_key C (sg_clientPrivKey s)\<rparr>;
                bb = writeBytes (sg_clientPubKey s) (writeBytes (sg_clientNonce s) (writeU16 PROTOCOL_VERSION emptyBuffer))
            in sigConnSend MSG_CLIENT_HELLO bb s)"

text \<open>The three ways \<^verbatim>\<open>pollAuthTask\<close> goes on with a finished hash.\<close>

definition sigFinishCreate :: "crypto \<Rightarrow> 'a app \<Rightarrow> bytes \<Rightarrow> 'a sig_op" where
  "sigFinishCreate C app hash s =
     (let bb = writeU16 (sg_pendingCreateMtu s) (writeBytes (take 32 hash) (writeBytes (sg_authSalt s) (sg_pendingCreate s)));
          s = sigSendMsg C app MSG_CREATE_ROOM bb (s\<lparr>sg_pendingCreate := bb\<rparr>)
      in s\<lparr>sg_pendingCreate := emptyBuffer\<rparr>)"

definition sigFinishRoomAuth :: "crypto \<Rightarrow> 'a app \<Rightarrow> bytes \<Rightarrow> 'a sig_op" where
  "sigFinishRoomAuth C app hash s =
     (let response = computeChallengeResponse C hash (sg_roomChallenge s);
          s = sigSendAuthResponse C app response s
      in s\<lparr>sg_roomChallenge := replicate 32 0\<rparr>)"

definition sigFinishServerAuth :: "crypto \<Rightarrow> 'a app \<Rightarrow> bytes \<Rightarrow> 'a sig_op" where
  "sigFinishServerAuth C app hash s =
     (let shared = cr_x25519 C (sg_clientPrivKey s) (sg_serverPubKey s);
          s = s\<lparr>sg_clientPrivKey := replicate 32 0\<rparr> in
      if \<not> validX25519Shared shared
      then sigFailAuthentication app (AuthErrorCode_val InvalidKey) (ascii ''invalid X25519 server key'') s
      else
        let master = deriveSecureMaster C shared hash (sg_clientNonce s) (sg_serverNonce s)
                       (sg_clientPubKey s) (sg_serverPubKey s) (sg_authSalt s) AUTH_KDF_PROFILE;
            proof' = computeClientAuthProof C master hash;
            s = s\<lparr>sg_expectedServerProof := computeServerAuthProof C master hash, sg_secureMaster := master\<rparr>
        in sigConnSend MSG_SERVER_AUTH (writeBytes proof' emptyBuffer) s)"

definition sigPollAuthTask :: "crypto \<Rightarrow> 'a app \<Rightarrow> 'a sig_op" where
  "sigPollAuthTask C app s =
     (case kdfPoll (sg_authTask s) of
        (None, _) \<Rightarrow> s
      | (Some result, task) \<Rightarrow>
          let s = s\<lparr>sg_authTask := task\<rparr>;
              operation = sg_authOperation s;
              s = s\<lparr>sg_authOperation := 0\<rparr> in
          if operation = 0 \<or> \<not> tc_connected (sg_conn s) then s
          else if \<not> kr_success result
          then sigFailAuthentication app (AuthErrorCode_val KdfFailed) (ascii ''authentication KDF failed'') s
          else if operation = 2 then sigFinishCreate C app (kr_hash result) s
          else if operation = 3 then sigFinishRoomAuth C app (kr_hash result) s
          else sigFinishServerAuth C app (kr_hash result) s)"

section \<open>Sockets and timers\<close>

text \<open>\<open>err\<close> is the pending socket error of a connection in progress; \<open>sent\<close> and \<open>again\<close> answer \<^verbatim>\<open>send\<close>.\<close>

definition sigOnWritable :: "crypto \<Rightarrow> 'a app \<Rightarrow> int \<Rightarrow> int \<Rightarrow> bool \<Rightarrow> 'a sig_op" where
  "sigOnWritable C app err sent again s =
     (if tc_connecting (sg_conn s)
      then (if err = 0
            then sigSendClientHello C app
                   (s\<lparr>sg_conn := (sg_conn s)\<lparr>tc_connecting := False, tc_connected := True, tc_lastRecvTime := sg_nowMs s\<rparr>,
                      sg_authStartedMs := sg_nowMs s\<rparr>)
            else app (OnConnectFailed ''connect error'') (sigResetConn s))
      else case tcFlushSend sent again (sg_conn s) of
        (ok, conn) \<Rightarrow> let s = s\<lparr>sg_conn := conn\<rparr> in
          if ok then s else sigNotifyDisconnectedOnce app (sigResetSecureState (sigResetConn s)))"

definition roomRequestLate :: "'a CliSignalClient \<Rightarrow> bool" where
  "roomRequestLate s \<longleftrightarrow> sg_roomOperationPending s \<and> sg_monoMs s - sg_roomRequestStarted s \<ge> 15000"

definition sigCheckTimeouts :: "crypto \<Rightarrow> 'a app \<Rightarrow> 'a sig_op" where
  "sigCheckTimeouts C app s =
     (if sg_sendFailurePending s then sigNotifyDisconnectedOnce app (sigResetSecureState (sigResetConn s))
      else if roomRequestLate s
      then (let s = sigAbandonRoomOperation s;
                message = ascii ''Room request timed out after 15 seconds'' in
            if sg_hasRoomFailureCb s then app (OnRoomOperationFailure message) s
            else app (OnServerError message) (s\<lparr>sg_sendFailurePending := True\<rparr>))
      else
        let s = sigPollAuthTask C app s in
        if \<not> tc_connected (sg_conn s) \<and> tc_connecting (sg_conn s)
        then (if sg_nowMs s - sg_connectStartTime s > 8000
              then app (OnConnectFailed ''connect timeout'') (sigResetConn s) else s)
        else if tc_connected (sg_conn s) \<and> \<not> sg_secureReady s
        then (if sg_nowMs s - sg_authStartedMs s > of_int (SERVER_AUTH_TIMEOUT_SEC * 1000)
              then sigFailAuthentication app (AuthErrorCode_val AuthTimeout)
                     (ascii ''server authentication timed out (120 seconds)'') s
              else s)
        else if tc_connected (sg_conn s)
        then (if sg_nowMs s - tc_lastRecvTime (sg_conn s) > 45000
              then sigNotifyDisconnectedOnce app (sigResetSecureState (sigResetConn s)) else s)
        else s)"

section \<open>Reading messages\<close>

text \<open>
  A handler answers \<open>None\<close> where a read throws; otherwise the value \<^verbatim>\<open>processMessage\<close> returns and the
  new state.  What a handler changed before a read that throws is reset by the failure that follows.
\<close>

type_synonym 'a handled = "(bool \<times> 'a CliSignalClient) option"

definition sigReadRoomListItem :: "ByteBuffer \<Rightarrow> (CliRoomListItem \<times> ByteBuffer) option" where
  "sigReadRoomListItem bb = do {
     (roomId, bb) \<leftarrow> readU32 bb;
     (roomName, bb) \<leftarrow> readString bb;
     (playerCount, bb) \<leftarrow> readU8 bb;
     (maxPlayers, bb) \<leftarrow> readU8 bb;
     (tcpPolicy, bb) \<leftarrow> readTrafficPolicy makeDefaultTcpPolicy bb;
     (udpPolicy, bb) \<leftarrow> readTrafficPolicy makeDefaultUdpPolicy bb;
     (passwordProtected, bb) \<leftarrow> readU8 bb;
     (mtu, bb) \<leftarrow> readU16 bb;
     Some (\<lparr>ci_roomId = roomId, ci_roomName = roomName, ci_playerCount = playerCount, ci_maxPlayers = maxPlayers,
            ci_tcpPolicy = tcpPolicy, ci_udpPolicy = udpPolicy, ci_passwordProtected = passwordProtected, ci_mtu = mtu\<rparr>, bb)
   }"

definition sigEmitRoomList :: "'a app \<Rightarrow> bool \<Rightarrow> 'a sig_op" where
  "sigEmitRoomList app pushed s = app (OnRoomList (map snd (sg_roomListCache s)) pushed) s"

definition versionMismatchText :: bytes where
  "versionMismatchText = ascii ''protocol version mismatch; upgrade GUI/CLI and server together''"

definition sigRejectVersion :: "'a app \<Rightarrow> 'a sig_op" where
  "sigRejectVersion app s =
     sigFailSignalFrame app
       (app (OnServerError (ascii ''protocol version mismatch''))
         (app (OnFatalAuthError (AuthErrorCode_val VersionMismatch) versionMismatchText) s))"

definition sigOnServerHello :: "crypto \<Rightarrow> 'a app \<Rightarrow> ByteBuffer \<Rightarrow> 'a CliSignalClient \<Rightarrow> 'a handled" where
  "sigOnServerHello C app bb s = do {
     (serverVersion, bb) \<leftarrow> readU16 bb;
     (auth, bb) \<leftarrow> readU8 bb;
     let authRequired = auth \<noteq> 0;
     if serverVersion \<noteq> PROTOCOL_VERSION then Some (False, sigRejectVersion app s)
     else do {
       let s = s\<lparr>sg_serverAuthRequired := authRequired\<rparr>;
       if \<not> authRequired
       then Some (False, sigNotifyDisconnectedOnce app (sigResetConn
              (app (OnServerError (ascii ''insecure server rejected: authentication is not required'')) s)))
       else do {
         (profile, bb) \<leftarrow> readU8 bb;
         if profile \<noteq> AUTH_KDF_PROFILE
         then Some (False, sigFailAuthentication app (AuthErrorCode_val UnsupportedKdf)
                (ascii ''unsupported authentication KDF profile'') s)
         else do {
           (salt, bb) \<leftarrow> readBytes AUTH_SALT_SIZE bb;
           (nonce, bb) \<leftarrow> readBytes 16 bb;
           (pub, bb) \<leftarrow> readBytes 32 bb;
           let s = s\<lparr>sg_authSalt := salt, sg_serverNonce := nonce, sg_serverPubKey := pub\<rparr>;
           Some (True, if sg_serverPassword s = [] then app OnServerPasswordRequired s else sigSendServerAuth app s)
         }
       }
     }
   }"

definition sigOnServerAuthOk :: "crypto \<Rightarrow> 'a app \<Rightarrow> ByteBuffer \<Rightarrow> 'a CliSignalClient \<Rightarrow> 'a handled" where
  "sigOnServerAuthOk C app bb s =
     (if length (sg_secureMaster s) \<noteq> SECURE_KEY_SIZE
      then Some (False, sigFailSignalFrame app (app (OnServerError (ascii ''invalid server auth response'')) s))
      else do {
        (sessionId, bb) \<leftarrow> readU32 bb;
        (serverProof, bb) \<leftarrow> readBytes 32 bb;
        let proofValid = (crypto_verify32 (sg_expectedServerProof s) serverProof = 0 \<and>
                          sessionId = deriveSessionId C (sg_secureMaster s));
        let s = s\<lparr>sg_expectedServerProof := replicate 32 0\<rparr>;
        if \<not> proofValid
        then Some (False, sigFailAuthentication app (AuthErrorCode_val InvalidServerProof)
               (ascii ''server auth proof / session id failed'') s)
        else do {
          let s = s\<lparr>sg_secureSessionId := sessionId,
                    sg_secureCipher := initCipher C (sg_secureMaster s) True ''signal'' (sg_secureCipher s),
                    sg_secureReady := True\<rparr>;
          let s = app (OnSecureSessionEstablished (sg_secureSessionId s) (sg_secureMaster s)) s;
          if \<not> tc_connected (sg_conn s) then Some (False, s)
          else Some (True, app OnConnected s)
        }
      })"

definition sigOnLoginResp :: "'a app \<Rightarrow> ByteBuffer \<Rightarrow> 'a CliSignalClient \<Rightarrow> 'a handled" where
  "sigOnLoginResp app bb s = do {
     (peerId, bb) \<leftarrow> readU32 bb;
     (serverVersion, bb) \<leftarrow> readU16 bb;
     (resume, bb) \<leftarrow> readU8 bb;
     if serverVersion \<noteq> PROTOCOL_VERSION then Some (False, sigRejectVersion app s)
     else Some (True, app (OnLoginResponse peerId (resume \<noteq> 0)) (s\<lparr>sg_myPeerId := peerId\<rparr>))
   }"

text \<open>What a room answer begins with: a request that is too old is abandoned.\<close>

definition sigDropLateRequest :: "'a app \<Rightarrow> 'a sig_op" where
  "sigDropLateRequest app s =
     (if roomRequestLate s
      then (let s = sigAbandonRoomOperation s in
            if sg_hasRoomFailureCb s
            then app (OnRoomOperationFailure (ascii ''Room response arrived after its deadline'')) s
            else s\<lparr>sg_sendFailurePending := True\<rparr>)
      else s)"

definition sigReadRoomFields :: "ByteBuffer \<Rightarrow> (RoomAnswer \<times> ByteBuffer) option" where
  "sigReadRoomFields bb = do {
     (roomId, bb) \<leftarrow> readU32 bb;
     (virtualIP, bb) \<leftarrow> readU32 bb;
     (tcpPolicy, bb) \<leftarrow> readTrafficPolicy makeDefaultTcpPolicy bb;
     (udpPolicy, bb) \<leftarrow> readTrafficPolicy makeDefaultUdpPolicy bb;
     (pw, bb) \<leftarrow> readU8 bb;
     (mtu, bb) \<leftarrow> readU16 bb;
     Some (\<lparr>ra_roomId = roomId, ra_virtualIP = virtualIP, ra_tcpPolicy = tcpPolicy, ra_udpPolicy = udpPolicy,
            ra_mtu = mtu, ra_passwordProtected = (pw \<noteq> 0), ra_leaseToken = []\<rparr>, bb)
   }"

definition sigOnRoomCreated :: "'a app \<Rightarrow> ByteBuffer \<Rightarrow> 'a CliSignalClient \<Rightarrow> 'a handled" where
  "sigOnRoomCreated app bb s =
     (let s = sigDropLateRequest app s in
      if \<not> sg_roomOperationPending s \<or> sg_discardRoomResponses s then Some (True, s)
      else do {
        let s = s\<lparr>sg_roomOperationPending := False\<rparr>;
        (answer, bb) \<leftarrow> sigReadRoomFields bb;
        (leaseToken, bb) \<leftarrow> readBytes RECONNECT_TOKEN_SIZE bb;
        Some (True, app (OnRoomCreated (answer\<lparr>ra_leaseToken := leaseToken\<rparr>)) s)
      })"

definition sigReadPeerInfo :: "ByteBuffer \<Rightarrow> (PeerInfo \<times> ByteBuffer) option" where
  "sigReadPeerInfo bb = do {
     (peerId, bb) \<leftarrow> readU32 bb;
     (virtualIP, bb) \<leftarrow> readU32 bb;
     (name, bb) \<leftarrow> readString bb;
     Some (\<lparr>pi_peerId = peerId, pi_virtualIP = virtualIP, pi_name = name\<rparr>, bb)
   }"

fun sigReadMembers :: "nat \<Rightarrow> ByteBuffer \<Rightarrow> (PeerInfo list \<times> ByteBuffer) option" where
  "sigReadMembers 0 bb = Some ([], bb)"
| "sigReadMembers (Suc n) bb = do {
     (info, bb) \<leftarrow> sigReadPeerInfo bb;
     (members, bb) \<leftarrow> sigReadMembers n bb;
     Some (info # members, bb)
   }"

definition sigOnJoinResp :: "'a app \<Rightarrow> ByteBuffer \<Rightarrow> 'a CliSignalClient \<Rightarrow> 'a handled" where
  "sigOnJoinResp app bb s =
     (let s = sigDropLateRequest app s in
      if \<not> sg_roomOperationPending s \<or> sg_discardRoomResponses s then Some (True, s)
      else do {
        let s = s\<lparr>sg_roomOperationPending := False\<rparr>;
        (answer, bb) \<leftarrow> sigReadRoomFields bb;
        (count, bb) \<leftarrow> readU8 bb;
        (members, bb) \<leftarrow> sigReadMembers (unat count) bb;
        (leaseToken, bb) \<leftarrow> readBytes RECONNECT_TOKEN_SIZE bb;
        let s = s\<lparr>sg_pendingRoomPassword := [], sg_hasPendingAuth := False\<rparr>;
        Some (True, app (OnJoinResponse (answer\<lparr>ra_leaseToken := leaseToken\<rparr>) members) s)
      })"

definition sigOnPeerInfo :: "'a app \<Rightarrow> u8 \<Rightarrow> ByteBuffer \<Rightarrow> 'a CliSignalClient \<Rightarrow> 'a handled" where
  "sigOnPeerInfo app msgType bb s = do {
     (info, bb) \<leftarrow> sigReadPeerInfo bb;
     Some (True, if msgType = MSG_PEER_JOINED then app (OnPeerJoined info) s else app (OnPeerResumed info) s)
   }"

subsection \<open>The room list\<close>

definition sigDropSnapshot :: "'a sig_op" where
  "sigDropSnapshot s =
     s\<lparr>sg_snapshotRooms := [], sg_snapshotRevision := 0, sg_snapshotPageCount := 0, sg_snapshotNextPage := 0\<rparr>"

text \<open>The loop over a page's records: the new snapshot, or \<open>None\<close> inside at a room that is already in it.\<close>

fun sigReadSnapshot :: "nat \<Rightarrow> ByteBuffer \<Rightarrow> (u32, CliRoomListItem) omap \<Rightarrow> (u32, CliRoomListItem) omap option option" where
  "sigReadSnapshot 0 bb rooms = Some (Some rooms)"
| "sigReadSnapshot (Suc n) bb rooms = do {
     (info, bb) \<leftarrow> sigReadRoomListItem bb;
     if map_of rooms (ci_roomId info) \<noteq> None then Some None
     else sigReadSnapshot n bb (om_upd (ci_roomId info) info rooms)
   }"

definition sigOnRoomList :: "crypto \<Rightarrow> 'a app \<Rightarrow> ByteBuffer \<Rightarrow> 'a CliSignalClient \<Rightarrow> 'a handled" where
  "sigOnRoomList C app bb s = do {
     (revision, bb) \<leftarrow> readU64 bb;
     (pageIndex, bb) \<leftarrow> readU16 bb;
     (pageCount, bb) \<leftarrow> readU16 bb;
     (count, bb) \<leftarrow> readU16 bb;
     let s = (if pageIndex = 0
              then s\<lparr>sg_snapshotRooms := [], sg_snapshotRevision := revision, sg_snapshotPageCount := pageCount,
                     sg_snapshotNextPage := 0\<rparr>
              else s);
     if revision \<noteq> sg_snapshotRevision s \<or> pageCount \<noteq> sg_snapshotPageCount s \<or> pageIndex \<noteq> sg_snapshotNextPage s
     then Some (True, sigListRooms C app (sigDropSnapshot s))
     else do {
       snapshot \<leftarrow> sigReadSnapshot (unat count) bb (sg_snapshotRooms s);
       case snapshot of
         None \<Rightarrow> Some (True, sigListRooms C app (sigDropSnapshot s))
       | Some rooms \<Rightarrow> do {
           let s = s\<lparr>sg_snapshotRooms := rooms, sg_snapshotNextPage := sg_snapshotNextPage s + 1\<rparr>;
           if sg_snapshotNextPage s = sg_snapshotPageCount s
           then Some (True, sigEmitRoomList app False (sigDropSnapshot
                  (s\<lparr>sg_roomListCache := sg_snapshotRooms s, sg_roomListRevision := sg_snapshotRevision s\<rparr>)))
           else Some (True, s)
         }
     }
   }"

fun sigApplyChanges :: "nat \<Rightarrow> ByteBuffer \<Rightarrow> (u32, CliRoomListItem) omap \<Rightarrow> (u32, CliRoomListItem) omap option" where
  "sigApplyChanges 0 bb updated = Some updated"
| "sigApplyChanges (Suc n) bb updated = do {
     (operation, bb) \<leftarrow> readU8 bb;
     if operation = ROOM_LIST_UPSERT
     then do {
       (info, bb) \<leftarrow> sigReadRoomListItem bb;
       sigApplyChanges n bb (om_upd (ci_roomId info) info updated)
     }
     else do {
       (roomId, bb) \<leftarrow> readU32 bb;
       sigApplyChanges n bb (om_del roomId updated)
     }
   }"

definition sigOnRoomListPush :: "crypto \<Rightarrow> 'a app \<Rightarrow> ByteBuffer \<Rightarrow> 'a CliSignalClient \<Rightarrow> 'a handled" where
  "sigOnRoomListPush C app bb s = do {
     (baseRevision, bb) \<leftarrow> readU64 bb;
     (revision, bb) \<leftarrow> readU64 bb;
     (count, bb) \<leftarrow> readU16 bb;
     if baseRevision \<noteq> sg_roomListRevision s then Some (True, sigListRooms C app (sigDropSnapshot s))
     else do {
       updated \<leftarrow> sigApplyChanges (unat count) bb (sg_roomListCache s);
       Some (True, sigEmitRoomList app True (s\<lparr>sg_roomListCache := updated, sg_roomListRevision := revision\<rparr>))
     }
   }"

subsection \<open>Relay, round trip time, room password, errors\<close>

definition sigOnRelayData :: "'a app \<Rightarrow> ByteBuffer \<Rightarrow> 'a CliSignalClient \<Rightarrow> 'a handled" where
  "sigOnRelayData app bb s = do {
     (srcPeerId, bb) \<leftarrow> readU32 bb;
     (dstPeerId, bb) \<leftarrow> readU32 bb;
     (cls, bb) \<leftarrow> readU8 bb;
     let dataLen = remaining bb;
     let data = (if dataLen > 0 then drop (length (bb_data bb) - dataLen) (bb_data bb) else []);
     Some (True, if dstPeerId = sg_myPeerId s then app (OnRelayData srcPeerId cls data) s else s)
   }"

definition sigOnPong :: "'a app \<Rightarrow> 'a CliSignalClient \<Rightarrow> 'a handled" where
  "sigOnPong app s =
     (if sg_pingSentTime s \<noteq> 0
      then (let rtt = sint (sg_nowMs s - sg_pingSentTime s)
            in Some (True, app (OnServerRtt rtt) (s\<lparr>sg_pingSentTime := 0\<rparr>)))
      else Some (True, s))"

definition sigOnAuthChallenge :: "'a app \<Rightarrow> ByteBuffer \<Rightarrow> 'a CliSignalClient \<Rightarrow> 'a handled" where
  "sigOnAuthChallenge app bb s =
     (if sg_discardRoomResponses s then Some (True, s)
      else do {
        (profile, bb) \<leftarrow> readU8 bb;
        if profile \<noteq> AUTH_KDF_PROFILE
        then Some (False, sigFailAuthentication app (AuthErrorCode_val UnsupportedKdf) (ascii ''unsupported room KDF profile'') s)
        else if \<not> sg_hasPendingAuth s then Some (False, sigFailSignalFrame app s)
        else do {
          (salt, bb) \<leftarrow> readBytes AUTH_SALT_SIZE bb;
          (challenge, bb) \<leftarrow> readBytes 32 bb;
          Some (True, s\<lparr>sg_hasPendingAuth := False, sg_authSalt := salt, sg_roomChallenge := challenge,
                 sg_authOperation := 3, sg_authTask := kdfStart (sg_pendingRoomPassword s) salt (sg_authTask s),
                 sg_pendingRoomPassword := []\<rparr>)
        }
      })"

definition sigOnError :: "'a app \<Rightarrow> ByteBuffer \<Rightarrow> 'a CliSignalClient \<Rightarrow> 'a handled" where
  "sigOnError app bb s = do {
     (code, bb) \<leftarrow> readU16 bb;
     (message, bb) \<leftarrow> readString bb;
     if isFatalAuthError code then Some (False, sigFailAuthentication app code message s)
     else if sg_discardRoomResponses s then Some (True, s)
     else do {
       let s = (if sg_roomOperationPending s \<and> code \<noteq> AuthErrorCode_val RoomPassword
                then (let s = sigAbandonRoomOperation s in
                      if sg_hasRoomFailureCb s then app (OnRoomOperationFailure message) s
                      else s\<lparr>sg_sendFailurePending := True\<rparr>)
                else sigCancelRoomOperation s);
       let s = (if code = AuthErrorCode_val RoomPassword then app (OnFatalAuthError code message) s else s);
       let s = s\<lparr>sg_pendingRoomPassword := [], sg_hasPendingAuth := False\<rparr>;
       Some (True, app (OnServerError message) s)
     }
   }"

section \<open>Dispatch\<close>

definition sigDispatch :: "crypto \<Rightarrow> 'a app \<Rightarrow> u8 \<Rightarrow> ByteBuffer \<Rightarrow> 'a CliSignalClient \<Rightarrow> 'a handled" where
  "sigDispatch C app msgType bb s =
     (if msgType = MSG_SERVER_HELLO then sigOnServerHello C app bb s
      else if msgType = MSG_SERVER_AUTH_OK then sigOnServerAuthOk C app bb s
      else if msgType = MSG_LOGIN_RESP then sigOnLoginResp app bb s
      else if msgType = MSG_ROOM_CREATED then sigOnRoomCreated app bb s
      else if msgType = MSG_JOIN_RESP then sigOnJoinResp app bb s
      else if msgType = MSG_PEER_JOINED \<or> msgType = MSG_PEER_RESUMED then sigOnPeerInfo app msgType bb s
      else if msgType = MSG_PEER_LEFT then (do { (peerId, bb) \<leftarrow> readU32 bb; Some (True, app (OnPeerLeft peerId) s) })
      else if msgType = MSG_LOGOUT_ACK then Some (True, app OnLogoutAck (s\<lparr>sg_myPeerId := 0\<rparr>))
      else if msgType = MSG_ROOM_LIST then sigOnRoomList C app bb s
      else if msgType = MSG_ROOM_LIST_PUSH then sigOnRoomListPush C app bb s
      else if msgType = MSG_RELAY_READY then (do { (peerId, bb) \<leftarrow> readU32 bb; Some (True, app (OnRelayReady peerId) s) })
      else if msgType = MSG_TCP_RELAY_DATA then sigOnRelayData app bb s
      else if msgType = MSG_PONG then sigOnPong app s
      else if msgType = MSG_AUTH_CHALLENGE then sigOnAuthChallenge app bb s
      else if msgType = MSG_ERROR then sigOnError app bb s
      else Some (True, s))"

definition handshakeOrderText :: bytes where
  "handshakeOrderText = ascii ''unexpected signaling message before authentication / handshake order violation''"

text \<open>The part of \<^verbatim>\<open>processMessage\<close> after the envelope is open: the message with its verdict.\<close>

definition sigDeliver ::
  "crypto \<Rightarrow> 'a app \<Rightarrow> u8 \<Rightarrow> bytes option \<Rightarrow> nat \<Rightarrow> MessageValidationResult \<Rightarrow> 'a CliSignalClient \<Rightarrow> bool \<times> 'a CliSignalClient" where
  "sigDeliver C app msgType payload len validation s =
     (if mv_status validation = UnknownType then (True, s)
      else case Option.bind (mkByteBuffer payload len) (\<lambda>bb. sigDispatch C app msgType bb s) of
        Some r \<Rightarrow> r
      | None \<Rightarrow> (False, sigFailSignalFrame app s))"

definition allowedPlainHandshake :: "u8 \<Rightarrow> 'a CliSignalClient \<Rightarrow> bool" where
  "allowedPlainHandshake msgType s \<longleftrightarrow>
     \<not> sg_secureReady s \<and>
     (msgType = MSG_ERROR \<or>
      (msgType = MSG_SERVER_HELLO \<and> \<not> sg_serverAuthRequired s \<and> sg_authOperation s = 0 \<and> sg_secureMaster s = []) \<or>
      (msgType = MSG_SERVER_AUTH_OK \<and> sg_serverAuthRequired s \<and> sg_authOperation s = 0 \<and>
       length (sg_secureMaster s) = SECURE_KEY_SIZE))"

definition sigProcessMessage ::
  "crypto \<Rightarrow> 'a app \<Rightarrow> u8 \<Rightarrow> bytes option \<Rightarrow> nat \<Rightarrow> 'a CliSignalClient \<Rightarrow> bool \<times> 'a CliSignalClient" where
  "sigProcessMessage C app msgType payload len s =
     (if (\<not> sg_secureReady s \<and> \<not> allowedPlainHandshake msgType s) \<or> (sg_secureReady s \<and> msgType \<noteq> MSG_ENCRYPTED)
      then (False, sigFailAuthentication app (AuthErrorCode_val InvalidServerProof) handshakeOrderText s)
      else
        let validation = validateServerSignalPayload msgType payload len in
        if mv_status validation = MalformedMsg
        then (if \<not> sg_secureReady s \<or> mv_error validation = InvalidVersion
              then (False, sigFailAuthentication app
                     (AuthErrorCode_val (if mv_error validation = InvalidVersion \<or> msgType = MSG_ERROR
                                         then VersionMismatch else InvalidServerProof))
                     (ascii ''invalid pre-auth protocol response; this client requires protocol v9; upgrade GUI/CLI and server together'') s)
              else (False, sigFailSignalFrame app s))
        else if mv_status validation = UnknownType then (True, s)
        else if msgType = MSG_ENCRYPTED
        then (if \<not> sg_secureReady s then (False, sigFailSignalFrame app s)
              else case decryptFrame C (case payload of None \<Rightarrow> [] | Some p \<Rightarrow> take len p) [] (sg_secureCipher s) of
                (None, cipher) \<Rightarrow> (False, sigFailSignalFrame app (s\<lparr>sg_secureCipher := cipher\<rparr>))
              | (Some plain, cipher) \<Rightarrow>
                  let s = s\<lparr>sg_secureCipher := cipher\<rparr> in
                  case plain of
                    [] \<Rightarrow> (False, sigFailSignalFrame app s)
                  | innerType # inner \<Rightarrow>
                      if innerType = MSG_SERVER_HELLO \<or> innerType = MSG_SERVER_AUTH_OK \<or> innerType = MSG_ENCRYPTED
                      then (False, sigFailAuthentication app (AuthErrorCode_val InvalidServerProof) handshakeOrderText s)
                      else
                        let payload = (if inner \<noteq> [] then Some inner else None);
                            validation = validateServerSignalPayload innerType payload (length inner) in
                        if mv_status validation = MalformedMsg
                        then (False, sigFailSignalFrame app
                               (if mv_error validation = InvalidVersion
                                then app (OnServerError (ascii ''protocol version mismatch'')) s else s))
                        else sigDeliver C app innerType payload (length inner) validation s)
        else if sg_secureReady s then (False, sigFailSignalFrame app s)
        else sigDeliver C app msgType payload len validation s)"

text \<open>The pointer the code passes for a payload: null when it is empty.\<close>

definition framePtr :: "bytes \<Rightarrow> bytes option" where
  "framePtr payload = (if payload = [] then None else Some payload)"

text \<open>
  The frame loop of \<^verbatim>\<open>onReadable\<close>.  A callback may do anything to the receive buffer, so the loop is a
  partial function; that it ends is a property of callbacks that do not make the buffer longer.
\<close>

partial_function (option) sigReadLoop :: "crypto \<Rightarrow> 'a app \<Rightarrow> 'a CliSignalClient \<Rightarrow> 'a CliSignalClient option" where
  "sigReadLoop C app s =
     (let buf = tc_recvBuf (sg_conn s); frame = probeTcpFrame (Some buf) (length buf) in
      if length buf < 3 then Some s
      else if fp_status frame = Malformed then Some (sigFailSignalFrame app s)
      else if fp_status frame = NeedMore then Some s
      else
        let payload = take (unat (fp_payloadLength frame)) (drop 3 buf);
            s = s\<lparr>sg_conn := (sg_conn s)\<lparr>tc_recvBuf := drop (fp_frameLength frame) buf\<rparr>\<rparr>;
            r = sigProcessMessage C app (fp_msgType frame) (framePtr payload) (length payload) s in
        if \<not> fst r then Some (snd r)
        else if \<not> tc_connected (sg_conn (snd r)) then Some (snd r)
        else sigReadLoop C app (snd r))"

definition sigOnReadable :: "crypto \<Rightarrow> 'a app \<Rightarrow> bytes \<Rightarrow> 'a CliSignalClient \<Rightarrow> 'a CliSignalClient option" where
  "sigOnReadable C app received s =
     (case tcReadData (sg_nowMs s) received (sg_conn s) of
        (n, conn) \<Rightarrow>
          let s = s\<lparr>sg_conn := conn\<rparr> in
          if n = 0 then Some (sigNotifyDisconnectedOnce app (sigResetSecureState (sigResetConn s)))
          else if length (tc_recvBuf (sg_conn s)) > 1024 * 1024 then Some (sigFailSignalFrame app s)
          else sigReadLoop C app s)"

end
