(* ===== verification/Cli_App.thy ===== *)
theory Cli_App
  imports Cli_DataPlane Cli_Signal
begin

text \<open>
  How the application of the command line client uses the tunnel manager:
  the peers and transports part of \<^verbatim>\<open>client-cli/src/cli_app.cpp\<close>.  The application's
  state extends the manager's record.  What the signalling client is asked for (\<^verbatim>\<open>requestRelay\<close>)
  is noted; console and log output, the room operation deadlines, the adapter's worker thread
  and the reconnecting are left out, their outcomes are arguments.
\<close>

section \<open>State\<close>

record 'k CliApp = "'k CliTunnelManager" +
  ca_pendingRebuild :: "(u64, unit) omap"
  ca_tcpPolicy :: RoomTrafficPolicy
  ca_udpPolicy :: RoomTrafficPolicy
  ca_roomMtu :: u16
  ca_currentRoomId :: u32
  ca_myVirtualIP :: u32
  ca_resolvedIP :: u32
  ca_port :: u16
  ca_myPeerId :: u32
  ca_signalUp :: bool
  ca_hasTun :: bool
  ca_tunSetupPending :: bool
  ca_roomReady :: bool
  ca_pendingRoomMembers :: "(u32, PeerInfo) omap"
  ca_pendingRoomRelays :: "(u32, unit) omap"
  ca_lastKcpUpdateTime :: u32
  ca_lastUdpKeepaliveTime :: u32
  ca_lastTcpRelayCheckTime :: u32
  ca_lastLatencyCheckTime :: u32
  ca_relayRequests :: "u32 list"

type_synonym 'k app_env = "('k, unit CliApp_ext) tunnel_env"

abbreviation (input) UDP_KEEPALIVE_INTERVAL_MS :: u32 where "UDP_KEEPALIVE_INTERVAL_MS \<equiv> 10000"

definition newApp :: "'k CliApp" where
  "newApp = CliTunnelManager.extend newTunnelManager
     (CliApp.fields [] makeDefaultTcpPolicy makeDefaultUdpPolicy (of_int ROOM_MTU_DEFAULT) 0 0 0 0 0 False False False False [] [] 0 0 0 0 [])"

definition requestRelay :: "u32 \<Rightarrow> 'k CliApp \<Rightarrow> 'k CliApp" where
  "requestRelay peerId m = m\<lparr>ca_relayRequests := ca_relayRequests m @ [peerId]\<rparr>"

section \<open>Rebuilding\<close>

definition transportKey :: "u32 \<Rightarrow> u8 \<Rightarrow> u64" where
  "transportKey peerId cls = push_bit 8 (ucast peerId) OR ucast cls"

definition clearPendingRebuild :: "u32 \<Rightarrow> 'k CliApp \<Rightarrow> 'k CliApp" where
  "clearPendingRebuild peerId m = m\<lparr>ca_pendingRebuild := filter (\<lambda>(key, _). drop_bit 8 key \<noteq> ucast peerId) (ca_pendingRebuild m)\<rparr>"

definition takePendingRebuild :: "u32 \<Rightarrow> u8 \<Rightarrow> 'k CliApp \<Rightarrow> bool \<times> 'k CliApp" where
  "takePendingRebuild peerId cls m =
     (let key = transportKey peerId cls in
      if map_of (ca_pendingRebuild m) key = None then (False, m)
      else (True, m\<lparr>ca_pendingRebuild := om_del key (ca_pendingRebuild m)\<rparr>))"

definition onTransportDead :: "u32 \<Rightarrow> u32 \<Rightarrow> u8 \<Rightarrow> 'k CliApp \<Rightarrow> 'k CliApp" where
  "onTransportDead now peerId cls m =
     (case map_of (tm_peerById m) peerId of
        None \<Rightarrow> m
      | Some a \<Rightarrow>
          (case map_of (tm_peers m) a of
             None \<Rightarrow> faulted m
           | Some p \<Rightarrow>
               if pcTransport cls p = TRANSPORT_NONE then m
               else let key = transportKey peerId cls in
               if map_of (ca_pendingRebuild m) key \<noteq> None then m
               else requestRelay peerId (removeTransport now peerId cls (m\<lparr>ca_pendingRebuild := om_upd key () (ca_pendingRebuild m)\<rparr>))))"

text \<open>The manager's callback is set once, to this.\<close>

definition wired :: "'k app_env \<Rightarrow> 'k app_env" where
  "wired E = E\<lparr>te_onTunnelDead := onTransportDead (te_now E)\<rparr>"

section \<open>Setting up transports\<close>

definition setupTcpRelayTunnel :: "u32 \<Rightarrow> u8 \<Rightarrow> 'k CliApp \<Rightarrow> 'k CliApp" where
  "setupTcpRelayTunnel peerId cls m =
     (case map_of (tm_peerById m) peerId of
        None \<Rightarrow> m
      | Some a \<Rightarrow>
          (case map_of (tm_peers m) a of
             None \<Rightarrow> faulted m
           | Some p \<Rightarrow>
               if pcTransport cls p \<noteq> TRANSPORT_NONE then m
               else modPeer a (\<lambda>p. pcSetTransport cls TRANSPORT_RELAY_TCP (p\<lparr>pc_tcpControlReady := True, pc_tcpSender := Some (ca_myPeerId m)\<rparr>)) m))"

definition policyOf :: "u8 \<Rightarrow> 'k CliApp \<Rightarrow> RoomTrafficPolicy" where
  "policyOf cls m = (if cls = TRAFFIC_TCP then ca_tcpPolicy m else ca_udpPolicy m)"

definition setupRawUdpRelayTunnel :: "'k app_env \<Rightarrow> u32 \<Rightarrow> u8 \<Rightarrow> 'k CliApp \<Rightarrow> 'k CliApp" where
  "setupRawUdpRelayTunnel E peerId cls m =
     (case map_of (tm_peerById m) peerId of
        None \<Rightarrow> m
      | Some a \<Rightarrow>
          (case map_of (tm_peers m) a of
             None \<Rightarrow> faulted m
           | Some p \<Rightarrow>
               if pcTransport cls p \<noteq> TRANSPORT_NONE then m
               else case createRawUdpTunnel E a (ca_resolvedIP m) (ca_port m) (tp_fecMode (policyOf cls m)) (ca_roomMtu m) cls m of (r, m) \<Rightarrow>
                 m\<lparr>tm_raws := om_adj r (\<lambda>r. r\<lparr>ro_tunnel := rawSetRelayMode (ca_myPeerId m) peerId (ro_tunnel r)\<rparr>) (tm_raws m)\<rparr>))"

definition setupRelayTunnel :: "'k app_env \<Rightarrow> u32 \<Rightarrow> u8 \<Rightarrow> 'k CliApp \<Rightarrow> 'k CliApp" where
  "setupRelayTunnel E peerId cls m =
     (case map_of (tm_peerById m) peerId of
        None \<Rightarrow> m
      | Some a \<Rightarrow>
          (case map_of (tm_peers m) a of
             None \<Rightarrow> faulted m
           | Some p \<Rightarrow>
               if pcTransport cls p \<noteq> TRANSPORT_NONE then m
               else case createKcpTunnel E a (ca_resolvedIP m) (ca_port m) TRANSPORT_RELAY_KCP (tp_fecMode (policyOf cls m)) (ca_roomMtu m)
                           (tp_kcpProfile (policyOf cls m)) cls m of (k, m) \<Rightarrow>
                 m\<lparr>tm_kcps := om_adj k (\<lambda>k. k\<lparr>ko_tunnel := kcpSetRelayMode (ca_myPeerId m) peerId (ko_tunnel k)\<rparr>) (tm_kcps m)\<rparr>))"

definition setupPolicyTunnel :: "'k app_env \<Rightarrow> u32 \<Rightarrow> u8 \<Rightarrow> 'k CliApp \<Rightarrow> 'k CliApp" where
  "setupPolicyTunnel E peerId cls m =
     (case map_of (tm_peerById m) peerId of
        None \<Rightarrow> m
      | Some a \<Rightarrow>
          (case map_of (tm_peers m) a of
             None \<Rightarrow> faulted m
           | Some p \<Rightarrow>
               if pcTransport cls p \<noteq> TRANSPORT_NONE then m
               else let policy = policyOf cls m;
                        policy = normalizeTrafficPolicy (TransportMode_val (tp_transportMode policy)) (FecMode_val (tp_fecMode policy))
                          (KcpProfile_val (tp_kcpProfile policy)) (if cls = TRAFFIC_TCP then makeDefaultTcpPolicy else makeDefaultUdpPolicy) in
               if tp_transportMode policy = MODE_RELAY_TCP then setupTcpRelayTunnel peerId cls m
               else if tp_transportMode policy = MODE_RELAY_RAW_UDP then setupRawUdpRelayTunnel E peerId cls m
               else setupRelayTunnel E peerId cls m))"

section \<open>Events of the signalling client\<close>

fun decimal :: "nat \<Rightarrow> bytes" where
  "decimal n = (if n < 10 then [of_nat (48 + n)] else decimal (n div 10) @ [of_nat (48 + n mod 10)])"

declare decimal.simps [simp del]

definition peerName :: "PeerInfo \<Rightarrow> bytes" where
  "peerName info = (if pi_name info = [] then ascii ''Peer'' @ decimal (unat (pi_peerId info)) else pi_name info)"

definition onPeerJoined :: "'k app_env \<Rightarrow> PeerInfo \<Rightarrow> 'k CliApp \<Rightarrow> 'k CliApp" where
  "onPeerJoined E info m =
     (if ca_tunSetupPending m
      then (if pi_peerId info \<noteq> ca_myPeerId m then m\<lparr>ca_pendingRoomMembers := om_upd (pi_peerId info) info (ca_pendingRoomMembers m)\<rparr> else m)
      else if \<not> ca_roomReady m then m
      else requestRelay (pi_peerId info) (snd (addPeer (te_now E) (pi_peerId info) (pi_virtualIP info) (peerName info) m)))"

text \<open>The transports of one class, if there are any, are removed.\<close>

definition dropTransport :: "'k app_env \<Rightarrow> u32 \<Rightarrow> u8 \<Rightarrow> 'k CliApp \<Rightarrow> 'k CliApp" where
  "dropTransport E peerId cls m =
     (case map_of (tm_peerById m) peerId of
        None \<Rightarrow> m
      | Some a \<Rightarrow>
          (case map_of (tm_peers m) a of
             None \<Rightarrow> faulted m
           | Some p \<Rightarrow> if pcTransport cls p = TRANSPORT_NONE then m else removeTransport (te_now E) peerId cls m))"

definition rebuildPeerTransports :: "'k app_env \<Rightarrow> u32 \<Rightarrow> 'k CliApp \<Rightarrow> 'k CliApp" where
  "rebuildPeerTransports E peerId m =
     (if map_of (tm_peerById m) peerId = None then m
      else let m = dropTransport E peerId TRAFFIC_UDP (dropTransport E peerId TRAFFIC_TCP (clearPendingRebuild peerId m))
           in if ca_signalUp m then requestRelay peerId m else m)"

definition onPeerResumed :: "'k app_env \<Rightarrow> PeerInfo \<Rightarrow> 'k CliApp \<Rightarrow> 'k CliApp" where
  "onPeerResumed E info m =
     (if ca_tunSetupPending m
      then let m = (if pi_peerId info \<noteq> ca_myPeerId m then m\<lparr>ca_pendingRoomMembers := om_upd (pi_peerId info) info (ca_pendingRoomMembers m)\<rparr> else m)
           in m\<lparr>ca_pendingRoomRelays := om_del (pi_peerId info) (ca_pendingRoomRelays m)\<rparr>
      else if \<not> ca_roomReady m then m
      else case map_of (tm_peerById m) (pi_peerId info) of
        None \<Rightarrow> onPeerJoined E info m
      | Some a \<Rightarrow> rebuildPeerTransports E (pi_peerId info) (modPeer a pcResetQuality m))"

text \<open>One class of \<^verbatim>\<open>onRelayReady\<close>.\<close>

definition readyClass :: "'k app_env \<Rightarrow> u32 \<Rightarrow> u8 \<Rightarrow> bool \<Rightarrow> 'k CliApp \<Rightarrow> 'k CliApp" where
  "readyClass E peerId cls wanted m =
     (case map_of (tm_peerById m) peerId of
        None \<Rightarrow> m
      | Some a \<Rightarrow>
          (case map_of (tm_peers m) a of
             None \<Rightarrow> faulted m
           | Some p \<Rightarrow> if wanted \<and> pcTransport cls p = TRANSPORT_NONE then setupPolicyTunnel E peerId cls m else m))"

definition onRelayReady :: "'k app_env \<Rightarrow> u32 \<Rightarrow> 'k CliApp \<Rightarrow> 'k CliApp" where
  "onRelayReady E peerId m =
     (if ca_tunSetupPending m then m\<lparr>ca_pendingRoomRelays := om_upd peerId () (ca_pendingRoomRelays m)\<rparr>
      else if \<not> ca_roomReady m then m
      else if map_of (tm_peerById m) peerId = None then m
      else case takePendingRebuild peerId TRAFFIC_TCP m of (rebuildTcp, m) \<Rightarrow>
        case takePendingRebuild peerId TRAFFIC_UDP m of (rebuildUdp, m) \<Rightarrow>
          let initialSetup = (\<not> rebuildTcp \<and> \<not> rebuildUdp)
          in readyClass E peerId TRAFFIC_UDP (initialSetup \<or> rebuildUdp) (readyClass E peerId TRAFFIC_TCP (initialSetup \<or> rebuildTcp) m))"

definition onPeerLeft :: "u32 \<Rightarrow> 'k CliApp \<Rightarrow> 'k CliApp" where
  "onPeerLeft peerId m =
     (if ca_tunSetupPending m
      then m\<lparr>ca_pendingRoomMembers := om_del peerId (ca_pendingRoomMembers m), ca_pendingRoomRelays := om_del peerId (ca_pendingRoomRelays m)\<rparr>
      else removePeer peerId (clearPendingRebuild peerId m))"

section \<open>Relayed data\<close>

definition handleTcpRelayReceived :: "'k app_env \<Rightarrow> u32 \<Rightarrow> u8 \<Rightarrow> bytes \<Rightarrow> 'k CliApp \<Rightarrow> 'k CliApp" where
  "handleTcpRelayReceived E srcPeerId cls data m =
     (if tm_dataPlaneState m \<noteq> Running \<or> tm_securityMode m = Unconfigured then m
      else case map_of (tm_peerById m) srcPeerId of
        None \<Rightarrow> m
      | Some a \<Rightarrow>
          let m = modPeer a (pcOnTcpRelayDataReceived (te_now E) cls) m in
          if data = [] then m
          else if length data \<ge> 2 \<and> data ! 0 = CLI_LATENCY_PROBE_MARKER then snd (handleLatencyProbe E a cls data m)
          else (case map_of (tm_peers m) a of
                  None \<Rightarrow> faulted m
                | Some p \<Rightarrow>
                    if \<not> overlayIsValid (validateInboundOverlayIpv4 (Some data) (ca_roomMtu m) (pc_virtualIP p) (ca_myVirtualIP m)) then m
                    else if ca_hasTun m \<and> te_tunWrite E data then emit_io (TunWrite data) m
                    else m))"

section \<open>Timers\<close>

definition sendRelayKeepalives :: "'k app_env \<Rightarrow> nat \<Rightarrow> 'k CliApp \<Rightarrow> 'k CliApp" where
  "sendRelayKeepalives E a m =
     (case map_of (tm_peers m) a of
        None \<Rightarrow> faulted m
      | Some p \<Rightarrow>
          (case pcSendTcpRelayKeepalive (te_now E) p of (sent, p') \<Rightarrow>
             fold (\<lambda>cls. relaySend E (the (pc_tcpSender p)) (pc_peerId p) cls []) sent (modPeer a (\<lambda>_. p') m)))"

text \<open>One peer of the relay check: keepalives, and the first of its classes that is dead.\<close>

definition relayCheck1 :: "'k app_env \<Rightarrow> nat \<Rightarrow> 'k CliApp \<Rightarrow> 'k CliApp" where
  "relayCheck1 E a m =
     (let m = sendRelayKeepalives E a m in
      case map_of (tm_peers m) a of
        None \<Rightarrow> faulted m
      | Some p \<Rightarrow>
          if pcIsTcpRelayDead (te_now E) TRAFFIC_TCP p then onTransportDead (te_now E) (pc_peerId p) TRAFFIC_TCP m
          else if pcIsTcpRelayDead (te_now E) TRAFFIC_UDP p then onTransportDead (te_now E) (pc_peerId p) TRAFFIC_UDP m
          else m)"

definition relayCheck :: "'k app_env \<Rightarrow> 'k CliApp \<Rightarrow> 'k CliApp" where
  "relayCheck E m =
     (if ca_currentRoomId m \<noteq> 0 \<and> te_now E - ca_lastTcpRelayCheckTime m \<ge> 5000
      then fold (relayCheck1 E) (map snd (tm_peerById m)) (m\<lparr>ca_lastTcpRelayCheckTime := te_now E\<rparr>)
      else m)"

text \<open>One peer of \<^verbatim>\<open>updatePeerQuality\<close>; what the snapshots say goes to the log.\<close>

definition updatePeerQuality1 :: "'k app_env \<Rightarrow> nat \<Rightarrow> 'k CliApp \<Rightarrow> 'k CliApp" where
  "updatePeerQuality1 E a m =
     (case map_of (tm_peers m) a of
        None \<Rightarrow> faulted m
      | Some p \<Rightarrow>
          if pc_peerId p = ca_myPeerId m then m
          else let snap = (\<lambda>cls p. snd (pcQualitySnapshot (te_now E) cls p))
               in modPeer a (\<lambda>p. snap TRAFFIC_UDP (snap TRAFFIC_TCP p)) (sendLatencyPings E a m))"

definition updatePeerQuality :: "'k app_env \<Rightarrow> 'k CliApp \<Rightarrow> 'k CliApp" where
  "updatePeerQuality E m = fold (updatePeerQuality1 E) (map snd (tm_peerById m)) m"

definition kcpTimer :: "'k app_env \<Rightarrow> 'k CliApp \<Rightarrow> 'k CliApp" where
  "kcpTimer E m =
     (if te_now E - ca_lastKcpUpdateTime m \<ge> 5 then updateKcp (wired E) (m\<lparr>ca_lastKcpUpdateTime := te_now E\<rparr>) else m)"

definition keepaliveTimer :: "'k app_env \<Rightarrow> 'k CliApp \<Rightarrow> 'k CliApp" where
  "keepaliveTimer E m =
     (if te_now E - ca_lastUdpKeepaliveTime m \<ge> UDP_KEEPALIVE_INTERVAL_MS
      then sendUdpKeepalive E (m\<lparr>ca_lastUdpKeepaliveTime := te_now E\<rparr>) else m)"

definition qualityTimer :: "'k app_env \<Rightarrow> 'k CliApp \<Rightarrow> 'k CliApp" where
  "qualityTimer E m =
     (if ca_roomReady m \<and> te_now E - ca_lastLatencyCheckTime m \<ge> 1000
      then updatePeerQuality E (m\<lparr>ca_lastLatencyCheckTime := te_now E\<rparr>) else m)"

section \<open>Entering and leaving a room\<close>

text \<open>
  \<^verbatim>\<open>onRoomCreated\<close> (no members) and \<^verbatim>\<open>onJoinResponse\<close>, up to the start of the adapter's worker;
  \<open>taken\<close> says whether the room operation takes the answer.
\<close>

definition onRoomAnswer :: "bool \<Rightarrow> u32 \<Rightarrow> u32 \<Rightarrow> RoomTrafficPolicy \<Rightarrow> RoomTrafficPolicy \<Rightarrow> u16 \<Rightarrow> PeerInfo list \<Rightarrow> 'k CliApp \<Rightarrow> 'k CliApp" where
  "onRoomAnswer taken roomId virtualIP tcpPolicy udpPolicy mtu members m =
     (if \<not> taken \<or> ca_tunSetupPending m \<or> ca_roomReady m \<or> ca_currentRoomId m \<noteq> 0 then m
      else let m = m\<lparr>ca_pendingRoomMembers :=
                       fold (\<lambda>info. if pi_peerId info \<noteq> ca_myPeerId m then om_upd (pi_peerId info) info else id) members [],
                     ca_pendingRoomRelays := [], ca_currentRoomId := roomId, ca_myVirtualIP := virtualIP,
                     ca_tcpPolicy := tcpPolicy, ca_udpPolicy := udpPolicy, ca_roomMtu := normalizeRoomMtu (uint mtu)\<rparr>;
               m = setRoomMtu (ca_roomMtu m) (setMyVirtualIP virtualIP m)
           in m\<lparr>ca_tunSetupPending := True, ca_roomReady := False\<rparr>)"

definition startTunDataPlane :: "'k app_env \<Rightarrow> TunAdapter \<Rightarrow> 'k CliApp \<Rightarrow> bool \<times> 'k CliApp" where
  "startTunDataPlane E tun m =
     (let m = setTunAdapter (Some tun) (m\<lparr>ca_hasTun := True\<rparr>);
          requiresUdp = (tp_transportMode (ca_tcpPolicy m) \<noteq> MODE_RELAY_TCP \<or> tp_transportMode (ca_udpPolicy m) \<noteq> MODE_RELAY_TCP)
      in case startDataPlane E requiresUdp m of (ok, m) \<Rightarrow>
           if ok then (True, m) else (False, (setTunAdapter None m)\<lparr>ca_hasTun := False\<rparr>))"

text \<open>The end of \<^verbatim>\<open>finishRoomSetup\<close>: the room is ready, its members become peers.\<close>

definition finishRoomSetup :: "'k app_env \<Rightarrow> 'k CliApp \<Rightarrow> 'k CliApp" where
  "finishRoomSetup E m =
     (let members = ca_pendingRoomMembers m; readyRelays = ca_pendingRoomRelays m;
          m = m\<lparr>ca_roomReady := True, ca_pendingRoomMembers := [], ca_pendingRoomRelays := []\<rparr>;
          m = fold (\<lambda>(_, info) m. snd (addPeer (te_now E) (pi_peerId info) (pi_virtualIP info) (peerName info) m)) members m
      in fold (\<lambda>(i, _) m. if map_of readyRelays i \<noteq> None then onRelayReady E i m else requestRelay i m) members m)"

definition teardownTun :: "'k CliApp \<Rightarrow> 'k CliApp" where
  "teardownTun m =
     (let m = stopDataPlane (m\<lparr>ca_tunSetupPending := False, ca_pendingRoomMembers := [], ca_pendingRoomRelays := []\<rparr>);
          m = setTunAdapter None (removeAllPeers (m\<lparr>ca_pendingRebuild := []\<rparr>))
      in m\<lparr>ca_hasTun := False\<rparr>)"

definition resetRoomRuntimeState :: "'k CliApp \<Rightarrow> 'k CliApp" where
  "resetRoomRuntimeState m =
     (let m = m\<lparr>ca_currentRoomId := 0, ca_myVirtualIP := 0, ca_roomMtu := of_int ROOM_MTU_DEFAULT,
                ca_tcpPolicy := makeDefaultTcpPolicy, ca_udpPolicy := makeDefaultUdpPolicy, ca_roomReady := False\<rparr>
      in setRoomMtu (of_int ROOM_MTU_DEFAULT) (setMyVirtualIP 0 m))"

text \<open>
  The adapter is ready (\<^verbatim>\<open>pollRoomOperation\<close>): \<open>inTime\<close> says whether the room operation's deadline
  still holds; otherwise, and if the data plane does not start, the room is given up.
\<close>

definition giveUpRoom :: "'k CliApp \<Rightarrow> 'k CliApp" where
  "giveUpRoom m = clearSecurityContext (resetRoomRuntimeState (teardownTun m))"

definition onTunReady :: "'k app_env \<Rightarrow> bool \<Rightarrow> TunAdapter \<Rightarrow> 'k CliApp \<Rightarrow> 'k CliApp" where
  "onTunReady E inTime tun m =
     (if \<not> ca_tunSetupPending m then m
      else if \<not> inTime then giveUpRoom m
      else case startTunDataPlane E tun m of (ok, m) \<Rightarrow>
        if ok then finishRoomSetup E (m\<lparr>ca_tunSetupPending := False\<rparr>) else giveUpRoom m)"

text \<open>\<open>busy\<close>: a room operation is under way.\<close>

definition doLeaveRoom :: "bool \<Rightarrow> 'k CliApp \<Rightarrow> 'k CliApp" where
  "doLeaveRoom busy m = (if busy then giveUpRoom m else if ca_currentRoomId m = 0 then m else resetRoomRuntimeState (teardownTun (stopDataPlane m)))"

end
