(* ===== verification/Cli_AppSafety.thy ===== *)
theory Cli_AppSafety
  imports Cli_App
begin

text \<open>
  The application never lets the tunnel manager follow a pointer to a deleted object, and
  never leaks one: ownership is kept by every event, also by those that arrive while tunnels
  die and by the reaction to dead tunnels.  On every reachable state the data plane keeps to
  what it may send.
\<close>

section \<open>The manager's own operations\<close>

lemma sound_by: "owned (shape m') \<Longrightarrow> om_ok (tm_peerById m') \<Longrightarrow> sound m'"
  by (simp add: sound_def)

lemma sound_add: "sound m \<Longrightarrow> sound (snd (addPeer now i vip name m))"
  by (rule sound_by) (simp_all add: sound_def shape_addPeer owned_addPeer, simp add: addPeer_def Let_def split: option.split)

lemma peerById_delete [simp]: "tm_peerById (deleteTunnels key m) = tm_peerById m"
  by (simp add: deleteTunnels_def Let_def split: option.split)

lemma sound_remove: "sound m \<Longrightarrow> sound (removePeer i m)"
  by (rule sound_by) (simp_all add: sound_def shape_removePeer owned_removePeer,
    simp add: removePeer_def Let_def faulted_def split: option.split)

lemma peerById_mod [simp]: "tm_peerById (modPeer a f m) = tm_peerById m"
  by (simp add: modPeer_def faulted_def split: option.split)

lemma sound_removeTransport: "sound m \<Longrightarrow> sound (removeTransport now i cls m)"
  by (rule sound_by) (simp_all add: sound_def owned_removed, simp add: removeTransport_def Let_def split: option.split)

lemma sound_removeAll: "sound m \<Longrightarrow> sound (removeAllPeers m)"
  by (rule sound_by) (simp_all add: sound_def owned_removeAll, simp add: removeAllPeers_def Let_def)

lemma created_listed [simp]: "tm_peerById (snd (createKcpTunnel E a ip port type fec mtu profile cls m)) = tm_peerById m"
  "tm_peerById (snd (createRawUdpTunnel E a ip port fec mtu cls m)) = tm_peerById m"
  by (simp_all add: createKcpTunnel_def createRawUdpTunnel_def Let_def faulted_def split: option.split)

lemma sound_createKcp:
  assumes "sound m" "cls \<in> {TRAFFIC_TCP, TRAFFIC_UDP}" "map_of (tm_peers m) a = Some p" "pcTransport cls p = TRANSPORT_NONE" "type \<noteq> TRANSPORT_NONE"
  shows "sound (snd (createKcpTunnel E a ip port type fec mtu profile cls m))"
proof -
  have "ow_peers (shape m) a = Some (peer_shape_of p)" "ps_transport (peer_shape_of p) ! unat cls = TRANSPORT_NONE"
    using assms(2-4) classIndex_known [OF assms(2)] by (simp_all add: pcTransport_def)
  then show ?thesis using owned_createKcp [OF soundD [OF assms(1)] assms(2) _ _ assms(5)] assms(1,2)
    by (simp add: sound_def shape_createKcp)
qed

lemma sound_createRaw:
  assumes "sound m" "cls \<in> {TRAFFIC_TCP, TRAFFIC_UDP}" "map_of (tm_peers m) a = Some p" "pcTransport cls p = TRANSPORT_NONE"
  shows "sound (snd (createRawUdpTunnel E a ip port fec mtu cls m))"
proof -
  have "ow_peers (shape m) a = Some (peer_shape_of p)" "ps_transport (peer_shape_of p) ! unat cls = TRANSPORT_NONE"
    using assms(2-4) classIndex_known [OF assms(2)] by (simp_all add: pcTransport_def)
  then show ?thesis using owned_createRaw [OF soundD [OF assms(1)] assms(2)] assms(1,2)
    by (simp add: sound_def shape_createRaw)
qed

text \<open>Operations that leave pointers alone.\<close>

lemma sound_still: "shape m' = shape m \<Longrightarrow> tm_peerById m' = tm_peerById m \<Longrightarrow> sound m' = sound m"
  by (simp add: sound_def)

lemma sound_config [simp]:
  "sound (setTunAdapter tun m) = sound m" "sound (setRoomMtu mtu m) = sound m" "sound (setMyVirtualIP ip m) = sound m"
  "sound (setMyPeerId i m) = sound m" "sound (setServerEndpoint ip port m) = sound m" "sound (stopDataPlane m) = sound m"
  "sound (clearSecurityContext m) = sound m" "sound (snd (installSecureSession C sid master m)) = sound m"
  "sound (snd (initUdpSocket E m)) = sound m" "sound (m\<lparr>tm_pendingTransportDead := d\<rparr>) = sound m"
  by (rule sound_still; simp add: setTunAdapter_def setRoomMtu_def setMyVirtualIP_def setMyPeerId_def setServerEndpoint_def stopDataPlane_def
      clearSecurityContext_def installSecureSession_def initUdpSocket_def shape_def Let_def split: prod.split)+

lemma sound_start: "sound m \<Longrightarrow> sound (snd (startDataPlane E udp m))"
proof -
  assume S: "sound m"
  have still: "sound (m'\<lparr>tm_dataPlaneState := Running, tm_packetDrops := \<lambda>_. 0, tm_hasDropLog := False\<rparr>) = sound m'" for m' :: "('a, 'b) CliTunnelManager_scheme"
    by (rule sound_still) (simp_all add: shape_def)
  have keep: "sound m' \<Longrightarrow> sound (sendUdpKeepalive E m')" for m' using flow_sound [OF flow_keepalive [OF soundD, of m' E]] by simp
  obtain ok m' where i: "initUdpSocket E m = (ok, m')" by fastforce
  then have "sound m'" using S sound_config(9) [of E m] by simp
  then show ?thesis using S i still keep by (simp add: startDataPlane_def Let_def)
qed

section \<open>Dead tunnels\<close>

text \<open>
  What the manager expects of whoever reacts to a dead tunnel: an invariant that implies
  soundness, that flowing packets keep, and that the reaction keeps.
\<close>

locale tunnel_owner =
  fixes P :: "('k, 'a) CliTunnelManager_scheme \<Rightarrow> bool"
    and react :: "u32 \<Rightarrow> u8 \<Rightarrow> ('k, 'a) CliTunnelManager_scheme \<Rightarrow> ('k, 'a) CliTunnelManager_scheme"
  assumes P_sound: "P m \<Longrightarrow> sound m"
    and P_flow: "flow C m0 m \<Longrightarrow> P m0 \<Longrightarrow> P m"
    and P_react: "P m \<Longrightarrow> P (react i cls m)"
begin

lemma P_pending: "P m \<Longrightarrow> P (m\<lparr>tm_pendingTransportDead := d\<rparr>)"
  by (rule P_flow [OF flow_quiet]) (simp_all add: configuration_def running_def)

lemma flushed: "te_onTunnelDead E = react \<Longrightarrow> P m \<Longrightarrow> P (flushPendingTransportDead E m)"
proof -
  assume E: "te_onTunnelDead E = react" and S: "P m"
  have "P (fold (flushDead1 E) keys m')" if "P m'" for keys m'
    using that by (induction keys arbitrary: m') (simp_all add: flushDead1_def Let_def E P_react)
  then show ?thesis using S by (simp add: flushPendingTransportDead_def P_pending)
qed

lemma updated: "te_onTunnelDead E = react \<Longrightarrow> P m \<Longrightarrow> P (updateKcp E m)"
proof -
  assume E: "te_onTunnelDead E = react" and S: "P m"
  let ?m1 = "fold (kcpUpdateKey E) (map fst (tm_kcpByPeerClass m)) m"
  let ?m2 = "fold (rawUpdateKey E) (map fst (tm_rawByPeerClass ?m1)) ?m1"
  have m1: "P ?m1" by (rule P_flow [OF flow_updateKeys(1) [OF P_sound [OF S]] S])
  have "P ?m2" by (rule P_flow [OF flow_updateKeys(2) [OF P_sound [OF m1]] m1])
  then show ?thesis using S flushed [OF E] by (simp add: updateKcp_def Let_def)
qed

end

section \<open>The application\<close>

text \<open>The application and the manager each keep the room's MTU and the own address: they agree.\<close>

definition agree :: "'k CliApp \<Rightarrow> bool" where
  "agree m \<longleftrightarrow> tm_roomMtu m = ca_roomMtu m \<and> tm_myVirtualIP m = ca_myVirtualIP m"

definition fit :: "'k CliApp \<Rightarrow> bool" where
  "fit m \<longleftrightarrow> sound m \<and> agree m"

definition room_frame :: "('k, 'a) CliTunnelManager_scheme \<Rightarrow> 'a \<times> u16 \<times> u32" where
  "room_frame m = (CliTunnelManager.more m, tm_roomMtu m, tm_myVirtualIP m)"

lemma agree_frame: "room_frame m' = room_frame m \<Longrightarrow> agree m' = agree m"
  by (cases m; cases m') (simp add: room_frame_def agree_def)

lemma fitI: "sound m' \<Longrightarrow> room_frame m' = room_frame m \<Longrightarrow> fit m \<Longrightarrow> fit m'"
  using agree_frame [of m' m] by (simp add: fit_def)

lemma flow_frame: "flow C m0 m \<Longrightarrow> room_frame m = room_frame m0"
  by (simp add: flow_def configuration_def room_frame_def)

lemma fit_flow: "flow C m0 m \<Longrightarrow> fit m0 \<Longrightarrow> fit m"
  by (rule fitI [OF _ flow_frame]) (simp_all add: fit_def flow_sound)

lemma frame_peel [simp]:
  "room_frame (m\<lparr>tm_kcps := x\<rparr>) = room_frame m" "room_frame (m\<lparr>tm_raws := y\<rparr>) = room_frame m" "room_frame (m\<lparr>tm_peers := z\<rparr>) = room_frame m"
  "room_frame (m\<lparr>tm_kcpByPeerClass := a\<rparr>) = room_frame m" "room_frame (m\<lparr>tm_rawByPeerClass := a\<rparr>) = room_frame m"
  "room_frame (m\<lparr>tm_peerById := b\<rparr>) = room_frame m" "room_frame (m\<lparr>tm_peerByVIP := b\<rparr>) = room_frame m"
  "room_frame (m\<lparr>tm_nextAddr := n\<rparr>) = room_frame m" "room_frame (m\<lparr>tm_fault := f\<rparr>) = room_frame m"
  "room_frame (m\<lparr>tm_pendingTransportDead := d\<rparr>) = room_frame m"
  by (simp_all add: room_frame_def)

lemma frame_mod [simp]: "room_frame (faulted m) = room_frame m" "room_frame (modPeer a f m) = room_frame m"
  by (simp_all add: modPeer_def faulted_def split: option.split)

lemma frame_delete [simp]: "room_frame (deleteTunnels key m) = room_frame m"
  by (simp add: deleteTunnels_def Let_def split: option.split)

lemma frame_structure [simp]:
  "room_frame (snd (addPeer now i vip name m)) = room_frame m" "room_frame (removeAllPeers m) = room_frame m" "room_frame (removePeer i m) = room_frame m"
  by (simp_all add: addPeer_def removeAllPeers_def removePeer_def Let_def split: option.split)

lemma frame_config [simp]:
  "room_frame (stopDataPlane m) = room_frame m" "room_frame (setTunAdapter tun m) = room_frame m" "room_frame (clearSecurityContext m) = room_frame m"
  "room_frame (setMyPeerId i m) = room_frame m" "room_frame (setServerEndpoint ip port m) = room_frame m"
  by (simp_all add: stopDataPlane_def setTunAdapter_def clearSecurityContext_def setMyPeerId_def setServerEndpoint_def room_frame_def)

lemma frame_removeTransport [simp]: "room_frame (removeTransport now i cls m) = room_frame m"
  unfolding removeTransport_def Let_def by (auto split: option.split)

lemma frame_create [simp]:
  "room_frame (snd (createKcpTunnel E a ip port type fec mtu profile cls m)) = room_frame m"
  "room_frame (snd (createRawUdpTunnel E a ip port fec mtu cls m)) = room_frame m"
  by (auto simp: createKcpTunnel_def createRawUdpTunnel_def Let_def split: option.split)

lemma fit_structure:
  assumes "fit m"
  shows "fit (snd (addPeer now i vip name m))" "fit (removePeer i m)" "fit (removeTransport now i cls m)" "fit (removeAllPeers m)"
    "fit (stopDataPlane m)" "fit (setTunAdapter tun m)" "fit (clearSecurityContext m)"
  by (rule fitI [OF _ _ assms]; simp add: assms [unfolded fit_def] sound_add sound_remove sound_removeTransport sound_removeAll)+

text \<open>Fields of the application alone.\<close>

lemma fit_ca [simp]:
  "fit (m\<lparr>ca_pendingRebuild := a\<rparr>) = fit m" "fit (m\<lparr>ca_currentRoomId := b\<rparr>) = fit m" "fit (m\<lparr>ca_hasTun := c\<rparr>) = fit m"
  "fit (m\<lparr>ca_tunSetupPending := d\<rparr>) = fit m" "fit (m\<lparr>ca_roomReady := e\<rparr>) = fit m" "fit (m\<lparr>ca_pendingRoomMembers := f\<rparr>) = fit m"
  "fit (m\<lparr>ca_pendingRoomRelays := g\<rparr>) = fit m" "fit (m\<lparr>ca_lastKcpUpdateTime := h\<rparr>) = fit m" "fit (m\<lparr>ca_lastUdpKeepaliveTime := h\<rparr>) = fit m"
  "fit (m\<lparr>ca_lastTcpRelayCheckTime := h\<rparr>) = fit m" "fit (m\<lparr>ca_lastLatencyCheckTime := h\<rparr>) = fit m" "fit (m\<lparr>ca_relayRequests := l\<rparr>) = fit m"
  "fit (m\<lparr>ca_tcpPolicy := p\<rparr>) = fit m" "fit (m\<lparr>ca_udpPolicy := p\<rparr>) = fit m"
  by (simp_all add: fit_def agree_def sound_def shape_def)

lemma fit_small [simp]: "fit (requestRelay i m) = fit m" "fit (clearPendingRebuild i m) = fit m" "fit (snd (takePendingRebuild i cls m)) = fit m"
  by (simp_all add: requestRelay_def clearPendingRebuild_def takePendingRebuild_def Let_def)

lemma sound_peer:
  assumes "sound m" "map_of (tm_peerById m) i = Some a"
  obtains p where "map_of (tm_peers m) a = Some p" "pc_peerId p = i"
  using owned_peer [OF soundD [OF assms(1)] assms(2)] by blast

lemma fit_dead: "fit m \<Longrightarrow> fit (onTransportDead now i cls m)"
proof (cases "map_of (tm_peerById m) i")
  case (Some a)
  assume F: "fit m"
  then have S: "sound m" by (simp add: fit_def)
  obtain p where "map_of (tm_peers m) a = Some p" by (rule sound_peer [OF S Some])
  then show ?thesis using F Some by (simp add: onTransportDead_def Let_def fit_structure(3))
qed (simp add: onTransportDead_def)

interpretation app: tunnel_owner fit "onTransportDead now" for now
proof
  show "fit m \<Longrightarrow> sound m" for m :: "'a CliApp" by (simp add: fit_def)
qed (rule fit_flow, assumption+, rule fit_dead)

subsection \<open>Transports are set up\<close>

lemma fit_modPeer:
  assumes "fit m" "map_of (tm_peers m) a \<noteq> None" "\<And>p. peer_shape_of (f p) = peer_shape_of p"
  shows "fit (modPeer a f m)"
  using fit_flow [OF flow_modPeer [OF assms(2,3)] assms(1)] .

text \<open>The second step of a set-up: the new tunnel is told its relay header.\<close>

lemma fit_adjRaw:
  assumes "fit m" "\<And>r. raw_shape (f r) = raw_shape r"
  shows "fit (m\<lparr>tm_raws := om_adj a f (tm_raws m)\<rparr>)"
proof (rule fitI [OF _ _ assms(1)])
  have "map_option raw_shape \<circ> map_of (om_adj a f (tm_raws m)) = map_option raw_shape \<circ> map_of (tm_raws m)"
    by (auto simp: fun_eq_iff option.map_comp comp_def assms(2))
  then show "sound (m\<lparr>tm_raws := om_adj a f (tm_raws m)\<rparr>)" using assms(1) by (simp add: fit_def sound_def shape_def)
qed simp

lemma fit_adjKcp:
  assumes "fit m" "\<And>r. kcp_shape (f r) = kcp_shape r"
  shows "fit (m\<lparr>tm_kcps := om_adj a f (tm_kcps m)\<rparr>)"
proof (rule fitI [OF _ _ assms(1)])
  have "map_option kcp_shape \<circ> map_of (om_adj a f (tm_kcps m)) = map_option kcp_shape \<circ> map_of (tm_kcps m)"
    by (auto simp: fun_eq_iff option.map_comp comp_def assms(2))
  then show "sound (m\<lparr>tm_kcps := om_adj a f (tm_kcps m)\<rparr>)" using assms(1) by (simp add: fit_def sound_def shape_def)
qed simp

lemma fit_setupRaw:
  assumes F: "fit m" and c: "cls \<in> {TRAFFIC_TCP, TRAFFIC_UDP}"
  shows "fit (setupRawUdpRelayTunnel E i cls m)"
proof (cases "map_of (tm_peerById m) i")
  case (Some a)
  have S: "sound m" using F by (simp add: fit_def)
  obtain p where p: "map_of (tm_peers m) a = Some p" by (rule sound_peer [OF S Some])
  let ?new = "createRawUdpTunnel E a (ca_resolvedIP m) (ca_port m) (tp_fecMode (policyOf cls m)) (ca_roomMtu m) cls m"
  have "fit (snd ?new)" if "pcTransport cls p = TRANSPORT_NONE" by (rule fitI [OF sound_createRaw [OF S c p that] _ F]) simp
  from fit_adjRaw [OF this] show ?thesis using F Some p by (simp add: setupRawUdpRelayTunnel_def case_prod_beta raw_shape_def)
qed (simp add: setupRawUdpRelayTunnel_def F)

lemma fit_setupKcp:
  assumes F: "fit m" and c: "cls \<in> {TRAFFIC_TCP, TRAFFIC_UDP}"
  shows "fit (setupRelayTunnel E i cls m)"
proof (cases "map_of (tm_peerById m) i")
  case (Some a)
  have S: "sound m" using F by (simp add: fit_def)
  obtain p where p: "map_of (tm_peers m) a = Some p" by (rule sound_peer [OF S Some])
  let ?new = "createKcpTunnel E a (ca_resolvedIP m) (ca_port m) TRANSPORT_RELAY_KCP (tp_fecMode (policyOf cls m)) (ca_roomMtu m) (tp_kcpProfile (policyOf cls m)) cls m"
  have "fit (snd ?new)" if "pcTransport cls p = TRANSPORT_NONE" by (rule fitI [OF sound_createKcp [OF S c p that] _ F]) simp_all
  from fit_adjKcp [OF this] show ?thesis using F Some p by (simp add: setupRelayTunnel_def case_prod_beta kcp_shape_def)
qed (simp add: setupRelayTunnel_def F)

lemma owned_setTransport:
  assumes S: "owned S" and p: "ow_peers S a = Some p" and c: "unat cls < 3" and "type \<noteq> TRANSPORT_NONE"
  shows "owned (S\<lparr>ow_peers := (ow_peers S)(a \<mapsto> p\<lparr>ps_transport := (ps_transport p)[unat cls := type]\<rparr>)\<rparr>)"
proof -
  let ?p = "p\<lparr>ps_transport := (ps_transport p)[unat cls := type]\<rparr>"
  note len = peers_ownedD(5) [OF ownedD(2) [OF S] p]
  have "peers_owned (ow_byId S) (ow_byVIP S) ((ow_peers S)(a \<mapsto> ?p)) (ow_next S)"
    by (rule peers_owned_upd [OF ownedD(2) [OF S] p]) (use len in simp_all)
  moreover have "tunnels_owned ps_kcp (ow_byId S) ((ow_peers S)(a \<mapsto> ?p)) (ow_next S) (ow_kcpTable S) (ow_kcps S)"
    by (rule tunnels_owned_other [OF ownedD(3) [OF S] p, where cls = cls]) (use len c assms(4) in simp_all)
  moreover have "tunnels_owned ps_raw (ow_byId S) ((ow_peers S)(a \<mapsto> ?p)) (ow_next S) (ow_rawTable S) (ow_raws S)"
    by (rule tunnels_owned_other [OF ownedD(4) [OF S] p, where cls = cls]) (use len c assms(4) in simp_all)
  ultimately show ?thesis using S by (simp add: owned_def)
qed

lemma fit_setupTcp:
  assumes F: "fit m" and c: "cls \<in> {TRAFFIC_TCP, TRAFFIC_UDP}"
  shows "fit (setupTcpRelayTunnel i cls m)"
proof (cases "map_of (tm_peerById m) i")
  case (Some a)
  have S: "sound m" using F by (simp add: fit_def)
  note o = soundD [OF S]
  obtain p where p: "map_of (tm_peers m) a = Some p" by (rule sound_peer [OF S Some])
  let ?f = "\<lambda>p. pcSetTransport cls TRANSPORT_RELAY_TCP (p\<lparr>pc_tcpControlReady := True, pc_tcpSender := Some (ca_myPeerId m)\<rparr>)"
  have c': "classIndex TRAFFIC_UDP cls = unat cls" "unat cls < 3" using classIndex_known [OF c] unat_class [OF c] by auto
  have shape': "peer_shape_of (?f p) = (peer_shape_of p)\<lparr>ps_transport := (pc_transport p)[unat cls := TRANSPORT_RELAY_TCP]\<rparr>"
    unfolding peer_shape_transport c'(1) by (simp add: peer_shape_of_def)
  have p': "ow_peers (shape m) a = Some (peer_shape_of p)" using p by simp
  have "owned ((shape m)\<lparr>ow_peers := (ow_peers (shape m))(a \<mapsto> peer_shape_of (?f p))\<rparr>)"
    using owned_setTransport [OF o p' c'(2), of TRANSPORT_RELAY_TCP] by (simp add: shape')
  then have "sound (modPeer a ?f m)" using S p by (simp add: sound_def shape_modPeer)
  then have "fit (modPeer a ?f m)" by (rule fitI [OF _ frame_mod(2) F])
  then show ?thesis using F Some p by (simp add: setupTcpRelayTunnel_def)
qed (simp add: setupTcpRelayTunnel_def F)

subsection \<open>Events\<close>

lemma fit_policy:
  assumes F: "fit m" and c: "cls \<in> {TRAFFIC_TCP, TRAFFIC_UDP}"
  shows "fit (setupPolicyTunnel E i cls m)"
proof (cases "map_of (tm_peerById m) i")
  case (Some a)
  have "sound m" using F by (simp add: fit_def)
  then obtain p where "map_of (tm_peers m) a = Some p" by (rule sound_peer [OF _ Some])
  then show ?thesis using F c Some by (simp add: setupPolicyTunnel_def Let_def fit_setupRaw fit_setupKcp fit_setupTcp del: insert_iff)
qed (simp add: setupPolicyTunnel_def F)

lemma fit_readyClass:
  assumes F: "fit m" and c: "cls \<in> {TRAFFIC_TCP, TRAFFIC_UDP}"
  shows "fit (readyClass E i cls wanted m)"
proof (cases "map_of (tm_peerById m) i")
  case (Some a)
  have "sound m" using F by (simp add: fit_def)
  then obtain p where "map_of (tm_peers m) a = Some p" by (rule sound_peer [OF _ Some])
  then show ?thesis using F c Some by (simp add: readyClass_def fit_policy del: insert_iff)
qed (simp add: readyClass_def F)

lemma fit_relayReady: "fit m \<Longrightarrow> fit (onRelayReady E i m)"
proof -
  assume F: "fit m"
  obtain b1 m1 where 1: "takePendingRebuild i TRAFFIC_TCP m = (b1, m1)" by fastforce
  obtain b2 m2 where 2: "takePendingRebuild i TRAFFIC_UDP m1 = (b2, m2)" by fastforce
  have "fit m2" using F fit_small(3) [of i TRAFFIC_TCP m] fit_small(3) [of i TRAFFIC_UDP m1] 1 2 by simp
  then show ?thesis using F 1 2 by (simp add: onRelayReady_def Let_def fit_readyClass)
qed

lemma fit_joined: "fit m \<Longrightarrow> fit (onPeerJoined E info m)"
  by (simp add: onPeerJoined_def fit_structure(1))

lemma fit_dropTransport:
  assumes F: "fit m"
  shows "fit (dropTransport E i cls m)"
proof (cases "map_of (tm_peerById m) i")
  case (Some a)
  have "sound m" using F by (simp add: fit_def)
  then obtain p where "map_of (tm_peers m) a = Some p" by (rule sound_peer [OF _ Some])
  then show ?thesis using F Some by (simp add: dropTransport_def fit_structure(3))
qed (simp add: dropTransport_def F)

lemma fit_rebuild: "fit m \<Longrightarrow> fit (rebuildPeerTransports E i m)"
  by (simp add: rebuildPeerTransports_def Let_def fit_dropTransport)

lemma peer_shape_reset [simp]: "peer_shape_of (pcResetQuality p) = peer_shape_of p"
  unfolding pcResetQuality_def by (rule fold_invariant [where Q = "\<lambda>_. True"]) simp_all

lemma fit_resumed:
  assumes F: "fit m"
  shows "fit (onPeerResumed E info m)"
proof (cases "map_of (tm_peerById m) (pi_peerId info)")
  case (Some a)
  have "sound m" using F by (simp add: fit_def)
  then obtain p where "map_of (tm_peers m) a = Some p" by (rule sound_peer [OF _ Some])
  then have "fit (modPeer a pcResetQuality m)" using F by (intro fit_modPeer) simp_all
  then show ?thesis using F Some by (simp add: onPeerResumed_def Let_def fit_rebuild)
qed (use F in \<open>simp add: onPeerResumed_def Let_def fit_joined\<close>)

lemma fit_left: "fit m \<Longrightarrow> fit (onPeerLeft i m)"
  by (simp add: onPeerLeft_def fit_structure(2))

lemma peer_shape_received [simp]: "peer_shape_of (pcOnTcpRelayDataReceived now cls p) = peer_shape_of p"
  by (simp add: pcOnTcpRelayDataReceived_def peer_shape_of_def)

lemma flow_relayed:
  assumes F: "fit m"
  shows "flow (te_crypto E) m (handleTcpRelayReceived E src cls data m)"
proof (cases "map_of (tm_peerById m) src")
  case (Some a)
  have S: "sound m" using F by (simp add: fit_def)
  obtain p where p: "map_of (tm_peers m) a = Some p" by (rule sound_peer [OF S Some])
  let ?m = "modPeer a (pcOnTcpRelayDataReceived (te_now E) cls) m"
  have m: "flow (te_crypto E) m ?m" by (rule flow_modPeer) (use p in simp_all)
  have S': "owned (shape ?m)" using soundD [OF S] flow_shape [OF m] by simp
  obtain q where q: "map_of (tm_peers ?m) a = Some q" "peer_shape_of q = peer_shape_of p" using p by (simp add: modPeer_def)
  have A: "agree ?m" using fit_flow [OF m F] by (simp add: fit_def)
  have "flow (te_crypto E) ?m (emit_io (TunWrite data) ?m)"
    if "running ?m" "overlayIsValid (validateInboundOverlayIpv4 (Some data) (ca_roomMtu ?m) (pc_virtualIP q) (ca_myVirtualIP ?m))"
    by (rule flow_emit [OF flow_refl]) (use that q(1) Some A in \<open>auto simp: agree_def intro!: exI [of _ src]\<close>)
  note out = flow_trans [OF m this] and probe = flow_trans [OF m flow_probe [OF S', of a E cls data]]
  have r: "running ?m" if "tm_dataPlaneState m = Running" "tm_securityMode m \<noteq> Unconfigured"
    using that p by (cases "tm_securityMode m") (simp_all add: running_def modPeer_def dataPlaneAllowsTraffic_def)
  show ?thesis using m q out probe r Some by (auto simp: handleTcpRelayReceived_def Let_def)
qed (simp add: handleTcpRelayReceived_def)

lemma fit_relayed: "fit m \<Longrightarrow> fit (handleTcpRelayReceived E src cls data m)"
  by (rule fit_flow [OF flow_relayed])

subsection \<open>Timers\<close>

lemma peer_shape_keepalive [simp]: "peer_shape_of (snd (pcSendTcpRelayKeepalive now p)) = peer_shape_of p"
  by (simp add: pcSendTcpRelayKeepalive_def pcRelayKeepalive1_def peer_shape_of_def)

lemma flow_relayKeepalives:
  assumes S: "sound m" and a: "map_of (tm_peers m) a = Some p"
  shows "flow C m (sendRelayKeepalives E a m)"
proof -
  obtain sent p' where k: "pcSendTcpRelayKeepalive (te_now E) p = (sent, p')" by fastforce
  have shape': "peer_shape_of p' = peer_shape_of p" using peer_shape_keepalive [of "te_now E" p] k by simp
  have upd: "modPeer a (\<lambda>_. p') m = m\<lparr>tm_peers := om_upd a p' (tm_peers m)\<rparr>" using a by (simp add: modPeer_def)
  have "(ow_peers (shape m))(a \<mapsto> peer_shape_of p') = ow_peers (shape m)" using a shape' by (auto simp: fun_eq_iff)
  then have m: "flow C m (modPeer a (\<lambda>_. p') m)"
    using a by (intro flow_quiet) (simp_all add: shape_modPeer, simp_all add: upd configuration_def running_def)
  have listed: "map_of (tm_peerById m) (pc_peerId p) = Some a" by (rule peer_listed [OF soundD [OF S] a])
  have "flow C m (fold (\<lambda>cls. relaySend E src (pc_peerId p) cls []) sent m')" if "flow C m m'" for src m'
    using that
  proof (induction sent arbitrary: m')
    case (Cons cls sent)
    have "owned (shape m')" "map_of (tm_peerById m') (pc_peerId p) \<noteq> None"
      using soundD [OF S] flow_shape [OF Cons.prems] listed shape_sel(1) [of m'] shape_sel(1) [of m] by auto
    then have "flow C m (relaySend E src (pc_peerId p) cls [] m')" using flow_trans [OF Cons.prems flow_relaySend] by blast
    then show ?case using Cons.IH by simp
  qed simp
  from this [OF m] show ?thesis using a k by (simp add: sendRelayKeepalives_def)
qed

lemma dead_peers: "map_of (tm_peers (onTransportDead now i cls m)) a = None \<Longrightarrow> sound m \<Longrightarrow> map_of (tm_peers m) a = None"
proof -
  assume none: "map_of (tm_peers (onTransportDead now i cls m)) a = None" and S: "sound m"
  have mod: "map_of (tm_peers (modPeer b f m')) a = None \<longleftrightarrow> map_of (tm_peers m') a = None" for b f and m' :: "'a CliApp"
    by (auto simp: modPeer_def faulted_def split: option.split)
  then have "map_of (tm_peers (removeTransport now i cls m')) a = None \<longleftrightarrow> map_of (tm_peers m') a = None" for m' :: "'a CliApp"
    unfolding removeTransport_def Let_def by (auto split: option.split)
  then show ?thesis using none by (auto simp: onTransportDead_def requestRelay_def faulted_def Let_def split: option.splits if_splits)
qed

lemma relayCheck1_keeps:
  assumes F: "fit m" and "map_of (tm_peers m) a \<noteq> None"
  shows "fit (relayCheck1 E a m)" "map_of (tm_peers (relayCheck1 E a m)) b = None \<Longrightarrow> map_of (tm_peers m) b = None"
proof -
  obtain p where p: "map_of (tm_peers m) a = Some p" using assms(2) by auto
  have S: "sound m" using F by (simp add: fit_def)
  let ?m = "sendRelayKeepalives E a m"
  have m: "flow (te_crypto E) m ?m" by (rule flow_relayKeepalives [OF S p])
  then have F': "fit ?m" by (rule fit_flow [OF _ F])
  then have S': "sound ?m" by (simp add: fit_def)
  have same: "map_of (tm_peers ?m) b = None \<longleftrightarrow> map_of (tm_peers m) b = None" for b by (rule same_peers [OF flow_shape [OF m]])
  obtain q where q: "map_of (tm_peers ?m) a = Some q" using same [of a] p by auto
  show "fit (relayCheck1 E a m)" using q F' by (simp add: relayCheck1_def Let_def fit_dead)
  show "map_of (tm_peers (relayCheck1 E a m)) b = None \<Longrightarrow> map_of (tm_peers m) b = None"
    using q same [of b] dead_peers [OF _ S'] by (auto simp: relayCheck1_def Let_def split: if_splits)
qed

lemma all_peers: "sound m \<Longrightarrow> a \<in> set (map snd (tm_peerById m)) \<Longrightarrow> map_of (tm_peers m) a \<noteq> None"
  using owned_peer [OF soundD, of m _ a] om_in_set_iff [of "tm_peerById m" _ a] by (fastforce simp: sound_def)

lemma fit_relayCheck:
  assumes F: "fit m"
  shows "fit (relayCheck E m)"
proof -
  have "fit (fold (relayCheck1 E) as m')" if "fit m'" "\<forall>a \<in> set as. map_of (tm_peers m') a \<noteq> None" for as m'
    using that
  proof (induction as arbitrary: m')
    case (Cons a as)
    have a: "map_of (tm_peers m') a \<noteq> None" using Cons.prems(2) by simp
    have "fit (relayCheck1 E a m')" by (rule relayCheck1_keeps(1) [OF Cons.prems(1) a])
    moreover have "\<forall>b \<in> set as. map_of (tm_peers (relayCheck1 E a m')) b \<noteq> None"
      using relayCheck1_keeps(2) [OF Cons.prems(1) a, of E] Cons.prems(2) by (metis list.set_intros(2))
    ultimately show ?case using Cons.IH by simp
  qed simp
  moreover have "\<forall>a \<in> set (map snd (tm_peerById m)). map_of (tm_peers m) a \<noteq> None" using all_peers [of m] F unfolding fit_def by blast
  ultimately have "fit (fold (relayCheck1 E) (map snd (tm_peerById m)) (m\<lparr>ca_lastTcpRelayCheckTime := te_now E\<rparr>))" using F by simp
  then show ?thesis using F by (simp only: relayCheck_def if_cancel split: if_split) simp
qed

lemma peer_shape_snapshot [simp]: "peer_shape_of (snd (pcQualitySnapshot now cls p)) = peer_shape_of p"
  by (simp add: pcQualitySnapshot_def Let_def split: prod.split)

lemma flow_quality1:
  assumes S: "sound m" and a: "map_of (tm_peers m) a \<noteq> None"
  shows "flow (te_crypto E) m (updatePeerQuality1 E a m)"
proof -
  obtain p where p: "map_of (tm_peers m) a = Some p" using a by auto
  let ?m1 = "sendLatencyPing E a TRAFFIC_TCP m" and ?m2 = "sendLatencyPings E a m"
  have m1: "flow (te_crypto E) m ?m1" by (rule flow_ping [OF soundD [OF S] a])
  have "flow (te_crypto E) ?m1 ?m2" unfolding sendLatencyPings_def
    by (rule flow_ping) (use soundD [OF S] flow_shape [OF m1] same_peers [OF flow_shape [OF m1]] a in simp_all)
  note m2 = flow_trans [OF m1 this]
  have "flow (te_crypto E) ?m2 (modPeer a (\<lambda>p. snd (pcQualitySnapshot (te_now E) TRAFFIC_UDP (snd (pcQualitySnapshot (te_now E) TRAFFIC_TCP p)))) ?m2)"
    by (rule flow_modPeer) (use same_peers [OF flow_shape [OF m2]] a in simp_all)
  from flow_trans [OF m2 this] show ?thesis using p by (simp add: updatePeerQuality1_def)
qed

lemma flow_quality:
  assumes S: "sound m"
  shows "flow (te_crypto E) m (updatePeerQuality E m)"
proof -
  have "flow (te_crypto E) m' (fold (updatePeerQuality1 E) as m')" if "sound m'" "\<forall>a \<in> set as. map_of (tm_peers m') a \<noteq> None" for as m'
    using that
  proof (induction as arbitrary: m')
    case (Cons a as)
    have m: "flow (te_crypto E) m' (updatePeerQuality1 E a m')" using Cons.prems by (intro flow_quality1) auto
    have "flow (te_crypto E) (updatePeerQuality1 E a m') (fold (updatePeerQuality1 E) as (updatePeerQuality1 E a m'))"
      using Cons.prems flow_sound [OF m] same_peers [OF flow_shape [OF m]] by (intro Cons.IH) auto
    with m show ?case by (simp add: flow_trans)
  qed simp
  then show ?thesis using S all_peers [OF S] by (simp add: updatePeerQuality_def)
qed

lemma fit_kcpTimer: "fit m \<Longrightarrow> fit (kcpTimer E m)"
  by (simp add: kcpTimer_def app.updated [where now = "te_now E"] wired_def)

lemma fit_timers:
  assumes "fit m"
  shows "fit (keepaliveTimer E m)" "fit (qualityTimer E m)"
proof -
  have F: "fit (m\<lparr>ca_lastUdpKeepaliveTime := te_now E\<rparr>)" "fit (m\<lparr>ca_lastLatencyCheckTime := te_now E\<rparr>)" using assms by simp_all
  then have S: "sound (m\<lparr>ca_lastUdpKeepaliveTime := te_now E\<rparr>)" "sound (m\<lparr>ca_lastLatencyCheckTime := te_now E\<rparr>)" by (simp_all add: fit_def)
  show "fit (keepaliveTimer E m)" using assms fit_flow [OF flow_keepalive [OF soundD [OF S(1)], of E] F(1)] by (simp add: keepaliveTimer_def)
  show "fit (qualityTimer E m)" using assms fit_flow [OF flow_quality [OF S(2), of E] F(2)] by (simp add: qualityTimer_def)
qed

subsection \<open>Rooms\<close>

lemma normalize_default [simp]: "normalizeRoomMtu ROOM_MTU_DEFAULT = of_int ROOM_MTU_DEFAULT"
  by (simp add: normalizeRoomMtu_def isValidRoomMtuValue_def)

lemma fit_answer: "fit m \<Longrightarrow> fit (onRoomAnswer ok roomId vip tcp udp mtu members m)"
  by (simp add: onRoomAnswer_def Let_def) (simp add: fit_def agree_def sound_def shape_def setRoomMtu_def setMyVirtualIP_def)

lemma fit_reset: "fit m \<Longrightarrow> fit (resetRoomRuntimeState m)"
  by (simp add: resetRoomRuntimeState_def Let_def) (simp add: fit_def agree_def sound_def shape_def setRoomMtu_def setMyVirtualIP_def)

lemma fit_teardown: "fit m \<Longrightarrow> fit (teardownTun m)"
  by (simp add: teardownTun_def Let_def fit_structure)

lemma fit_giveUp: "fit m \<Longrightarrow> fit (giveUpRoom m)"
  by (simp add: giveUpRoom_def fit_structure(7) fit_reset fit_teardown)

lemma fit_leave: "fit m \<Longrightarrow> fit (doLeaveRoom busy m)"
  by (simp add: doLeaveRoom_def fit_giveUp fit_reset fit_teardown fit_structure(5))

lemma fit_enter: "fit m \<Longrightarrow> fit (finishRoomSetup E m)"
proof -
  have 1: "fit (fold (\<lambda>(i, info) m. snd (addPeer (te_now E) (pi_peerId info) (pi_virtualIP info) (peerName info) m)) members m')" if "fit m'" for members m'
    using that by (induction members arbitrary: m') (simp_all add: fit_structure(1) case_prod_beta)
  have 2: "fit (fold (\<lambda>(i, info) m. if map_of relays i \<noteq> None then onRelayReady E i m else requestRelay i m) members m')" if "fit m'" for relays members m'
    using that by (induction members arbitrary: m') (simp_all add: fit_relayReady case_prod_beta)
  show "fit m \<Longrightarrow> fit (finishRoomSetup E m)" unfolding finishRoomSetup_def Let_def by (intro 2 1) simp
qed

lemma frame_start:
  assumes S: "sound m"
  shows "room_frame (snd (startDataPlane E udp m)) = room_frame m"
proof -
  have i: "room_frame (snd (initUdpSocket E m)) = room_frame m" by (simp add: initUdpSocket_def room_frame_def split: prod.split)
  let ?on = "\<lambda>m. m\<lparr>tm_dataPlaneState := Running, tm_packetDrops := \<lambda>_. 0, tm_hasDropLog := False\<rparr>"
  have on: "room_frame (?on m') = room_frame m'" "sound (?on m') = sound m'" for m' :: "('a, 'b) CliTunnelManager_scheme"
    by (simp_all add: room_frame_def sound_def shape_def)
  obtain ok m' where m': "initUdpSocket E m = (ok, m')" by fastforce
  then have "sound (?on m')" using S sound_config(9) [of E m] on(2) by simp
  from flow_frame [OF flow_keepalive [OF soundD [OF this], of E]] show ?thesis
    using i m' on(1) by (simp add: startDataPlane_def Let_def)
qed

lemma fit_tunReady:
  assumes F: "fit m"
  shows "fit (onTunReady E inTime tun m)"
proof -
  let ?m = "setTunAdapter (Some tun) (m\<lparr>ca_hasTun := True\<rparr>)"
  have 0: "fit ?m" using F by (simp add: fit_structure)
  have "fit (snd (startDataPlane E udp ?m))" for udp by (rule fitI [OF sound_start frame_start 0]) (use 0 in \<open>simp_all add: fit_def\<close>)
  then show ?thesis using F
    by (simp add: onTunReady_def startTunDataPlane_def Let_def case_prod_beta fit_giveUp fit_enter fit_structure)
qed

section \<open>Histories\<close>

datatype app_event =
    LoginDone u32
  | Endpoint u32 u16
  | SecureSession u32 bytes
  | SecurityCleared
  | SignalState bool
  | RoomAnswered bool u32 u32 RoomTrafficPolicy RoomTrafficPolicy u16 "PeerInfo list"
  | AdapterReady bool TunAdapter
  | Joined PeerInfo
  | Resumed PeerInfo
  | RelayIsReady u32
  | PeerGone u32
  | RelayArrived u32 u8 bytes
  | UdpArrived "(bytes \<times> u32 \<times> u16) list"
  | AdapterPackets "bytes list"
  | Tick
  | Leave bool

text \<open>What each event makes the application do; every event has its own surroundings.\<close>

fun app_step :: "'k app_env \<times> app_event \<Rightarrow> 'k CliApp \<Rightarrow> 'k CliApp" where
  "app_step (E, LoginDone i) m = setMyPeerId i (m\<lparr>ca_myPeerId := i\<rparr>)"
| "app_step (E, Endpoint ip port) m = setServerEndpoint ip port (m\<lparr>ca_resolvedIP := ip, ca_port := port\<rparr>)"
| "app_step (E, SecureSession sid master) m = snd (installSecureSession (te_crypto E) sid master m)"
| "app_step (E, SecurityCleared) m = clearSecurityContext m"
| "app_step (E, SignalState up) m = m\<lparr>ca_signalUp := up\<rparr>"
| "app_step (E, RoomAnswered ok roomId vip tcp udp mtu members) m = onRoomAnswer ok roomId vip tcp udp mtu members m"
| "app_step (E, AdapterReady inTime tun) m = onTunReady E inTime tun m"
| "app_step (E, Joined info) m = onPeerJoined E info m"
| "app_step (E, Resumed info) m = onPeerResumed E info m"
| "app_step (E, RelayIsReady i) m = onRelayReady E i m"
| "app_step (E, PeerGone i) m = onPeerLeft i m"
| "app_step (E, RelayArrived src cls data) m = handleTcpRelayReceived E src cls data m"
| "app_step (E, UdpArrived ds) m = onUdpReadable E ds m"
| "app_step (E, AdapterPackets ps) m = processTunPackets E (m\<lparr>tm_tun := map_option (\<lambda>t. t\<lparr>ta_recvQueue := ta_recvQueue t @ ps\<rparr>) (tm_tun m)\<rparr>)"
| "app_step (E, Tick) m = qualityTimer E (relayCheck E (keepaliveTimer E (kcpTimer E m)))"
| "app_step (E, Leave busy) m = doLeaveRoom busy m"

definition app_run :: "('k app_env \<times> app_event) list \<Rightarrow> 'k CliApp" where
  "app_run es = fold app_step es newApp"

fun data_event :: "app_event \<Rightarrow> bool" where
  "data_event (RelayArrived src cls data) = True"
| "data_event (UdpArrived ds) = True"
| "data_event (AdapterPackets ps) = True"
| "data_event _ = False"

lemma flow_queue: "flow C m (m\<lparr>tm_tun := map_option f (tm_tun m)\<rparr>)"
  by (rule flow_quiet) (simp_all add: shape_def configuration_def running_def)

lemma flow_data:
  assumes F: "fit m" and "data_event e"
  shows "flow (te_crypto E) m (app_step (E, e) m)"
proof -
  have S: "sound m" using F by (simp add: fit_def)
  show ?thesis
  proof (cases e)
    case (AdapterPackets ps)
    let ?m = "m\<lparr>tm_tun := map_option (\<lambda>t. t\<lparr>ta_recvQueue := ta_recvQueue t @ ps\<rparr>) (tm_tun m)\<rparr>"
    have m: "flow (te_crypto E) m ?m" by (rule flow_queue)
    have "flow (te_crypto E) ?m (processTunPackets E ?m)" by (rule flow_tunPackets) (use S flow_sound [OF m] in simp)
    from flow_trans [OF m this] show ?thesis using AdapterPackets by simp
  qed (use assms S in \<open>simp_all add: flow_relayed flow_readable\<close>)
qed

lemma fit_config:
  assumes "fit m"
  shows "fit (setMyPeerId i (m\<lparr>ca_myPeerId := i\<rparr>))" "fit (setServerEndpoint ip port (m\<lparr>ca_resolvedIP := ip, ca_port := port\<rparr>))"
    "fit (snd (installSecureSession C sid master m))" "fit (m\<lparr>ca_signalUp := up\<rparr>)"
  using assms by (simp_all add: fit_def) (simp_all add: sound_def shape_def agree_def setMyPeerId_def setServerEndpoint_def installSecureSession_def clearSecurityContext_def Let_def)

lemma fit_step: "fit m \<Longrightarrow> fit (app_step e m)"
proof -
  assume F: "fit m"
  obtain E v where e: "e = (E, v)" by fastforce
  show ?thesis
  proof (cases "data_event v")
    case True
    then show ?thesis using fit_flow [OF flow_data [OF F True] F] e by simp
  next
    case False
    then show ?thesis using F unfolding e
      by (cases v) (simp_all add: fit_config fit_structure fit_answer fit_tunReady fit_joined fit_resumed fit_relayReady fit_left fit_leave
          fit_timers fit_relayCheck fit_kcpTimer)
  qed
qed

lemma fit_new: "fit newApp"
proof -
  have "shape (newApp :: 'a CliApp) = shape (newTunnelManager :: 'a CliTunnelManager)"
    by (simp add: newApp_def CliTunnelManager.extend_def shape_def)
  moreover have "owned (shape (newTunnelManager :: 'a CliTunnelManager))" by (rule owned_empty) (simp_all add: newTunnelManager_def shape_def fun_eq_iff)
  ultimately show ?thesis by (simp add: fit_def sound_def agree_def newApp_def CliTunnelManager.extend_def CliApp.fields_def newTunnelManager_def)
qed

lemma fit_run: "fit (app_run es)"
  unfolding app_run_def by (rule fold_invariant [where Q = "\<lambda>_. True"]) (simp_all add: fit_new fit_step)

section \<open>Properties\<close>

lemma table_is_store:
  assumes "\<And>k x. tbl k = Some x \<Longrightarrow> objs x \<noteq> None" "\<And>x r. objs x = Some r \<Longrightarrow> \<exists>k. tbl k = Some x"
  shows "ran tbl = dom objs"
  using assms by (fastforce simp: ran_def dom_def)

lemma owned_tables:
  assumes o: "owned (shape m)"
  shows "ran (map_of (tm_peerById m)) = dom (map_of (tm_peers m))" "ran (map_of (tm_kcpByPeerClass m)) = dom (map_of (tm_kcps m))"
    "ran (map_of (tm_rawByPeerClass m)) = dom (map_of (tm_raws m))"
  using owned_peer [OF o] peer_listed [OF o] listed_kcp [OF o] listed_raw [OF o] tunnels_ownedD(4) [OF ownedD(3) [OF o]] tunnels_ownedD(4) [OF ownedD(4) [OF o]]
  by (intro table_is_store; fastforce)+

text \<open>
  C13. No pointer of the data plane dangles and none leaks, whatever happens: after any history
  of events (rooms entered and left, members joining, resuming and leaving, tunnels set up,
  dying and being rebuilt, datagrams, adapter packets, relayed data, ticks of the timers) no
  deleted object was ever used, the tables of peers and tunnels name exactly the objects that
  exist, and every tunnel's callbacks hold a peer that exists and is the one it was created for.
\<close>

theorem no_dangling_pointers:
  fixes es
  defines "m \<equiv> app_run es"
  shows "\<not> tm_fault m \<and> ran (map_of (tm_peerById m)) = dom (map_of (tm_peers m)) \<and>
     ran (map_of (tm_kcpByPeerClass m)) = dom (map_of (tm_kcps m)) \<and> ran (map_of (tm_rawByPeerClass m)) = dom (map_of (tm_raws m)) \<and>
     (\<forall>r \<in> ran (map_of (tm_raws m)). map_of (tm_peerById m) (ro_peerId r) = Some (ro_peer r)) \<and>
     (\<forall>k \<in> ran (map_of (tm_kcps m)). map_of (tm_peerById m) (ko_peerId k) = Some (ko_peer k))"
proof -
  have o: "owned (shape m)" using fit_run [of es] by (simp add: fit_def sound_def m_def)
  have "map_of (tm_peerById m) (ro_peerId r) = Some (ro_peer r)" if "map_of (tm_raws m) a = Some r" for a r
    using tunnels_ownedD(5) [OF ownedD(4) [OF o], of a "raw_shape r"] that by (simp add: raw_shape_def)
  moreover have "map_of (tm_peerById m) (ko_peerId r) = Some (ko_peer r)" if "map_of (tm_kcps m) a = Some r" for a r
    using tunnels_ownedD(5) [OF ownedD(3) [OF o], of a "kcp_shape r"] that by (simp add: kcp_shape_def)
  ultimately show ?thesis using owned_tables [OF o] ownedD(1) [OF o] by (auto simp: ran_def)
qed

text \<open>A room of two, with a KCP transport for one class and a raw one for the other.\<close>

definition demo_member :: PeerInfo where
  "demo_member = \<lparr>pi_peerId = 7, pi_virtualIP = 0x0A0A0007, pi_name = []\<rparr>"

definition demo_adapter :: TunAdapter where
  "demo_adapter = \<lparr>ta_running = True, ta_recvQueue = []\<rparr>"

definition demo_entry :: "app_event list" where
  "demo_entry = [LoginDone 5, Endpoint 0x01020304 4000, SecureSession 9 (replicate 32 1),
     RoomAnswered True 3 0x0A0A0005 makeDefaultTcpPolicy makeDefaultUdpPolicy 1400 [demo_member], AdapterReady True demo_adapter, RelayIsReady 7]"

theorem no_dangling_pointers_witness:
  "\<forall>E. ran (map_of (tm_rawByPeerClass (app_run (map (Pair E) (demo_entry @ [PeerGone 7]))))) =
     dom (map_of (tm_raws (app_run (map (Pair E) (demo_entry @ [PeerGone 7])))))"
  using no_dangling_pointers by blast

text \<open>
  C14. The data plane is confined.  From every state the application can reach, whatever
  datagrams, adapter packets or relayed data arrive: if the data plane is not running nothing
  leaves; otherwise each datagram sent is the session's frame around a text sealed under the
  session's key, each packet handed to the adapter passes the inbound check for the virtual
  address of a peer of the room, and each relayed packet goes to a peer of the room; and no
  peer, tunnel or setting of the data plane changes.
\<close>

theorem data_plane_confined:
  fixes es E e
  assumes "data_event e"
  defines "m \<equiv> app_run es"
  shows "\<exists>out. tm_io (app_step (E, e) m) = tm_io m @ out \<and> (\<forall>x \<in> set out. permitted (te_crypto E) m x) \<and>
     (\<not> running m \<longrightarrow> out = []) \<and> shape (app_step (E, e) m) = shape m \<and> configuration (app_step (E, e) m) = configuration m"
proof -
  have "flow (te_crypto E) m (app_step (E, e) m)" unfolding m_def by (rule flow_data [OF fit_run assms(1)])
  then obtain out where f: "tm_io (app_step (E, e) m) = tm_io m @ out" "\<forall>x \<in> set out. permitted (te_crypto E) m x"
      "shape (app_step (E, e) m) = shape m" "configuration (app_step (E, e) m) = configuration m" by (auto simp: flow_def)
  have "running m" if "permitted (te_crypto E) m x" for x using that by (cases x) auto
  then have "\<not> running m \<longrightarrow> out = []" using f(2) by (cases out) auto
  then show ?thesis using f by blast
qed

theorem data_plane_confined_witness:
  "\<forall>E E'. \<exists>out. tm_io (app_step (E', UdpArrived [([UDP_ENCRYPTED], 1, 2)]) (app_run (map (Pair E) demo_entry))) =
     tm_io (app_run (map (Pair E) demo_entry)) @ out \<and> (\<forall>x \<in> set out. permitted (te_crypto E') (app_run (map (Pair E) demo_entry)) x)"
  using data_plane_confined [of "UdpArrived [([UDP_ENCRYPTED], 1, 2)]"] by (meson data_event.simps(2))

end
