(* ===== verification/Fec_Recovery.thy ===== *)
theory Fec_Recovery
  imports Fec_Codec
begin

text \<open>
  The error-correcting code end to end: from as many different packets of a group as it had
  payloads, in any order and with any repetitions, the decoder hands on every payload of the
  group exactly once.
\<close>

section \<open>A group in transfer\<close>

definition transfer :: "cm256 \<Rightarrow> nat \<Rightarrow> nat \<Rightarrow> nat \<Rightarrow> bytes list \<Rightarrow> bytes \<Rightarrow> bool" where
  "transfer K N M bb ps rec \<longleftrightarrow> 0 < N \<and> N \<le> FEC_GROUP_SIZE \<and> 0 < M \<and> M \<le> 2 * N \<and> length ps = N \<and>
     (\<forall>p \<in> set ps. 0 < length p \<and> length p < 65536 \<and> 2 + length p \<le> bb) \<and>
     (N + M) * bb \<le> FEC_MAX_BUFFERED_BYTES \<and> length rec = M * bb \<and>
     (\<forall>bs. length bs = N \<longrightarrow> distinct (map fst bs) \<longrightarrow>
        (\<forall>(i, b) \<in> set bs. unat i < N + M \<and> b = coded bb (map (padBlock bb) ps) rec (unat i)) \<longrightarrow>
        (\<exists>bs'. cm_decode K N M bb bs = Some bs' \<and> set bs' = (\<lambda>i. (of_nat i, map (padBlock bb) ps ! i)) ` {..<N}))"

abbreviation (input) block_of :: "nat \<Rightarrow> bytes list \<Rightarrow> bytes \<Rightarrow> nat \<Rightarrow> bytes" where
  "block_of bb ps rec \<equiv> coded bb (map (padBlock bb) ps) rec"

lemma transfer_decode:
  assumes "transfer K N M bb ps rec" "length bs = N" "distinct (map fst bs)"
    "\<And>i b. (i, b) \<in> set bs \<Longrightarrow> unat i < N + M \<and> b = block_of bb ps rec (unat i)"
  shows "\<exists>bs'. cm_decode K N M bb bs = Some bs' \<and> set bs' = (\<lambda>i. (of_nat i, map (padBlock bb) ps ! i)) ` {..<N}"
proof -
  have "\<forall>(i, b) \<in> set bs. unat i < N + M \<and> b = block_of bb ps rec (unat i)" using assms(4) by blast
  with assms(1-3) show ?thesis unfolding transfer_def by (elim conjE) (drule spec [of _ bs], simp only: simp_thms)
qed

lemma transfer_payloads: "transfer K N M bb ps rec \<Longrightarrow> p \<in> set ps \<Longrightarrow> 0 < length p \<and> length p < 65536 \<and> 2 + length p \<le> bb"
  unfolding transfer_def by (elim conjE) (erule (1) bspec)

lemma transfer_basic:
  assumes "transfer K N M bb ps rec"
  shows "0 < N" "N \<le> 10" "0 < M" "M \<le> 2 * N" "N + M \<le> 30" "length ps = N" "3 \<le> bb" "(N + M) * bb \<le> FEC_MAX_BUFFERED_BYTES"
proof -
  show basic: "0 < N" "N \<le> 10" "0 < M" "M \<le> 2 * N" "length ps = N" "(N + M) * bb \<le> FEC_MAX_BUFFERED_BYTES"
    using assms by (simp_all add: transfer_def)
  then show "N + M \<le> 30" by linarith
  have "ps ! 0 \<in> set ps" using basic by simp
  from transfer_payloads [OF assms this] show "3 \<le> bb" by linarith
qed

lemma transfer_block:
  assumes "transfer K N M bb ps rec" "i < N + M"
  shows "length (block_of bb ps rec i) = bb"
proof (cases "i < N")
  case True
  then show ?thesis using transfer_payloads [OF assms(1), of "ps ! i"] transfer_basic(6) [OF assms(1)]
    by (simp add: coded_def length_padBlock)
next
  case False
  then have "(i - N) * bb + bb \<le> M * bb" using assms(2) by (metis add.commute mult_Suc mult_le_mono1 Suc_leI less_diff_conv2 not_less)
  then show ?thesis using assms False by (simp add: transfer_def coded_def)
qed

lemma transfer_payload:
  assumes "transfer K N M bb ps rec" "i < N"
  shows "blockPayload bb (padBlock bb (ps ! i)) = [ps ! i]" "block_of bb ps rec i = padBlock bb (ps ! i)"
    "emitOriginalBlock (padBlock bb (ps ! i)) = [ps ! i]"
proof -
  have p: "0 < length (ps ! i)" "length (ps ! i) < 65536" "2 + length (ps ! i) \<le> bb" "length ps = N"
    using transfer_payloads [OF assms(1), of "ps ! i"] transfer_basic(6) [OF assms(1)] assms(2) by simp_all
  show "blockPayload bb (padBlock bb (ps ! i)) = [ps ! i]" by (rule blockPayload_pad [OF p(1-3)])
  then show "emitOriginalBlock (padBlock bb (ps ! i)) = [ps ! i]" using p by (simp add: emitOriginalBlock_def length_padBlock)
  show "block_of bb ps rec i = padBlock bb (ps ! i)" using assms(2) p(4) by (simp add: coded_def)
qed

section \<open>Tables indexed by a set of block numbers\<close>

lemma length_om: "om_ok m \<Longrightarrow> length m = card (dom (map_of m))"
  using distinct_card [OF om_ok_distinct, of m] by (simp add: dom_map_of_conv_image_fst)

lemma card_u8:
  assumes "S \<subseteq> {..<256}"
  shows "card {k :: u8. unat k \<in> S} = card S"
proof -
  have "unat ` {k :: u8. unat k \<in> S} = S"
  proof (intro equalityI subsetI)
    show "x \<in> unat ` {k :: u8. unat k \<in> S}" if "x \<in> S" for x
      using that assms by (intro image_eqI [of _ _ "of_nat x"]) (auto simp: unat_of_nat_small subset_eq)
  qed auto
  moreover have "inj_on unat {k :: u8. unat k \<in> S}" by (rule inj_onI) (simp add: word_unat_eq_iff)
  ultimately show ?thesis by (metis card_image)
qed

definition indexed :: "nat set \<Rightarrow> (nat \<Rightarrow> 'v) \<Rightarrow> (u8, 'v) omap \<Rightarrow> bool" where
  "indexed S f m \<longleftrightarrow> om_ok m \<and> (\<forall>k. map_of m k = (if unat k \<in> S then Some (f (unat k)) else None))"

lemma indexed_length:
  assumes "indexed S f m" "S \<subseteq> {..<256}"
  shows "length m = card S"
proof -
  have "dom (map_of m) = {k. unat k \<in> S}" using assms(1) by (auto simp: indexed_def split: if_splits)
  then show ?thesis using assms length_om [of m] card_u8 [of S] by (simp add: indexed_def)
qed

lemma indexed_upd:
  assumes "indexed S f m" "i < 256" "f i = v"
  shows "indexed (insert i S) f (om_upd (of_nat i) v m)"
proof -
  have "k = of_nat i \<longleftrightarrow> unat k = i" for k :: u8 using assms(2) by (auto simp: unat_of_nat_small)
  then show ?thesis using assms by (auto simp: indexed_def)
qed

lemma indexed_entry: "indexed S f m \<Longrightarrow> (k, v) \<in> set m \<longleftrightarrow> unat k \<in> S \<and> v = f (unat k)"
  by (auto simp: indexed_def om_in_set_iff split: if_splits)

lemma mset_nth_image: "image_mset ((!) ps) (mset_set {..<length ps}) = mset ps"
proof -
  have "image_mset ((!) ps) (mset_set {..<length ps}) = mset (map ((!) ps) [0..<length ps])"
    by (simp add: atLeast0LessThan [symmetric])
  then show ?thesis by (simp add: map_nth)
qed

lemma map_of_collect:
  assumes "\<And>v v'. (k, v) \<in> set bs \<Longrightarrow> (k, v') \<in> set bs \<Longrightarrow> v = v'" "(k, v) \<in> set bs"
  shows "map_of (fold (\<lambda>b m. om_upd (fst b) (snd b) m) bs m0) k = Some v"
  using assms
proof (induction bs arbitrary: m0)
  case (Cons b bs)
  show ?case
  proof (cases "(k, v) \<in> set bs")
    case True
    then show ?thesis using Cons by (auto intro!: Cons.IH)
  next
    case False
    then have b: "b = (k, v)" and no: "(k, v') \<notin> set bs" for v' using Cons.prems by auto
    have "map_of (fold (\<lambda>b m. om_upd (fst b) (snd b) m) bs m) k = map_of m k" for m
      using no by (induction bs arbitrary: m) (auto simp: prod_eq_iff)
    then show ?thesis using b by simp
  qed
qed simp

section \<open>The decoder of one group\<close>

definition holding :: "nat \<Rightarrow> nat \<Rightarrow> nat \<Rightarrow> bytes list \<Rightarrow> bytes \<Rightarrow> nat set \<Rightarrow> FecGroup \<Rightarrow> nat \<Rightarrow> bytes list \<Rightarrow> bool" where
  "holding N M bb ps rec S g buffered out \<longleftrightarrow>
     fg_dataCount g = of_nat N \<and> fg_totalCount g = of_nat (N + M) \<and> fg_blockBytes g = bb \<and> \<not> fg_decoded g \<and>
     indexed S (block_of bb ps rec) (fg_blocks g) \<and> indexed (S \<inter> {..<N}) (\<lambda>_. ()) (fg_emittedOriginals g) \<and>
     buffered = card S * bb \<and> mset out = image_mset ((!) ps) (mset_set (S \<inter> {..<N}))"

definition group_state :: "nat \<Rightarrow> nat \<Rightarrow> nat \<Rightarrow> bytes list \<Rightarrow> bytes \<Rightarrow> nat set \<Rightarrow> CliFecDecoder \<Rightarrow> bytes list \<Rightarrow> bool" where
  "group_state N M bb ps rec S d out \<longleftrightarrow> (\<exists>g. fd_groups d = [(0, g)] \<and>
     fg_dataCount g = of_nat N \<and> fg_totalCount g = of_nat (N + M) \<and> fg_blockBytes g = bb \<and>
     (if N \<le> card S then fg_decoded g \<and> mset out = mset ps else holding N M bb ps rec S g (fd_bufferedBytes d) out))"

lemma unat_counts: "n \<le> 30 \<Longrightarrow> unat (of_nat n :: u8) = n"
  by (rule unat_of_nat_small) simp

text \<open>With as many blocks as payloads, decoding hands on exactly what is still missing.\<close>

lemma tryDecode_complete:
  assumes t: "transfer K N M bb ps rec" and h: "holding N M bb ps rec S g n out" and S: "S \<subseteq> {..<N + M}" "card S = N"
  shows "\<exists>out'. tryDecode K g = (out', g\<lparr>fg_decoded := True\<rparr>) \<and> mset (out @ out') = mset ps"
proof -
  note b = transfer_basic [OF t]
  have sub: "S \<subseteq> {..<256}" "S \<inter> {..<N} \<subseteq> {..<256}" using S(1) b(5) by auto
  have N: "unat (fg_dataCount g) = N" "unat (fg_totalCount g) - N = M" "fg_blockBytes g = bb" "\<not> fg_decoded g"
    using h b by (simp_all add: holding_def unat_counts del: of_nat_add)
  have blocks: "indexed S (block_of bb ps rec) (fg_blocks g)" "length (fg_blocks g) = N"
    using h S(2) indexed_length [OF _ sub(1)] by (auto simp: holding_def)
  have em: "indexed (S \<inter> {..<N}) (\<lambda>_. ()) (fg_emittedOriginals g)" using h by (simp add: holding_def)
  then have lem: "length (fg_emittedOriginals g) = card (S \<inter> {..<N})" by (rule indexed_length [OF _ sub(2)])
  have out: "mset out = image_mset ((!) ps) (mset_set (S \<inter> {..<N}))" using h by (simp add: holding_def)
  show ?thesis
  proof (cases "N \<le> card (S \<inter> {..<N})")
    case True
    then have "S \<inter> {..<N} = {..<N}" by (intro card_subset_eq) (auto intro: antisym card_mono [of "{..<N}", simplified])
    then have "mset out = mset ps" using out mset_nth_image [of ps] b(6) by simp
    then show ?thesis using True N lem by (simp add: tryDecode_def)
  next
    case False
    define bs where "bs = map (\<lambda>b. (fst b, snd b @ replicate (bb - length (snd b)) 0)) (take N (fg_blocks g))"
    have entry: "(k, v) \<in> set (fg_blocks g) \<Longrightarrow> unat k < N + M \<and> v = block_of bb ps rec (unat k) \<and> length v = bb" for k v
      using indexed_entry [OF blocks(1)] S(1) transfer_block [OF t] by auto
    then have bs: "bs = fg_blocks g" unfolding bs_def using blocks(2) by (auto intro!: map_idI simp: prod_eq_iff)
    have "\<exists>bs'. cm_decode K N M bb bs = Some bs' \<and> set bs' = (\<lambda>i. (of_nat i, map (padBlock bb) ps ! i)) ` {..<N}"
      unfolding bs using blocks entry by (intro transfer_decode [OF t]) (auto simp: indexed_def om_ok_distinct)
    then obtain bs' where bs': "cm_decode K N M bb bs = Some bs'" "set bs' = (\<lambda>i. (of_nat i, map (padBlock bb) ps ! i)) ` {..<N}" by blast
    have orig: "map_of (fold (\<lambda>b m. om_upd (fst b) (snd b) m) bs' []) (of_nat i) = Some (padBlock bb (ps ! i))" if "i < N" for i
    proof (rule map_of_collect)
      show "(of_nat i, padBlock bb (ps ! i)) \<in> set bs'" using that b(6) by (force simp: bs'(2))
      have "j = i" if "of_nat i = (of_nat j :: u8)" "j < N" for j
        using arg_cong [OF that(1), of unat] that(2) \<open>i < N\<close> b(2) by (simp add: unat_counts)
      then have "v = map (padBlock bb) ps ! i" if "(of_nat i, v) \<in> set bs'" for v using that unfolding bs'(2) by blast
      then show "v = v'" if "(of_nat i, v) \<in> set bs'" "(of_nat i, v') \<in> set bs'" for v v' using that by blast
    qed
    define missing where "missing = filter (\<lambda>i. i \<notin> S) [0..<N]"
    have emitted: "map_of (fg_emittedOriginals g) (of_nat i) \<noteq> None \<longleftrightarrow> i \<in> S" if "i < N" for i
      using em that b(2) by (auto simp: indexed_def unat_counts)
    have "tryDecode K g = (concat (map (\<lambda>i. if map_of (fg_emittedOriginals g) (of_nat i) \<noteq> None then []
        else case map_of (fold (\<lambda>b m. om_upd (fst b) (snd b) m) bs' []) (of_nat i) of None \<Rightarrow> [] | Some blk \<Rightarrow> blockPayload bb blk) [0..<N]),
        g\<lparr>fg_decoded := True\<rparr>)"
      using N False lem bs'(1) blocks(2) unfolding tryDecode_def Let_def N bs_def by simp
    also have "concat (map (\<lambda>i. if map_of (fg_emittedOriginals g) (of_nat i) \<noteq> None then []
        else case map_of (fold (\<lambda>b m. om_upd (fst b) (snd b) m) bs' []) (of_nat i) of None \<Rightarrow> [] | Some blk \<Rightarrow> blockPayload bb blk) [0..<N]) =
        concat (map (\<lambda>i. if i \<in> S then [] else [ps ! i]) [0..<N])"
      using emitted orig transfer_payload(1) [OF t] by (intro arg_cong [of _ _ concat] map_cong) auto
    also have "\<dots> = map ((!) ps) missing"
      unfolding missing_def by (induction N) auto
    finally have run: "tryDecode K g = (map ((!) ps) missing, g\<lparr>fg_decoded := True\<rparr>)" .
    have "{i \<in> {0..<N}. i \<notin> S} = {..<N} - S" by auto
    then have "mset missing = mset_set ({..<N} - S)" unfolding missing_def by (simp only: mset_filter mset_upt filter_mset_mset_set finite_atLeastLessThan)
    moreover have "mset_set (S \<inter> {..<N}) + mset_set ({..<N} - S) = mset_set {..<N}"
      by (subst mset_set_Union [symmetric]) (auto intro: arg_cong [of _ _ mset_set])
    ultimately have "mset (out @ map ((!) ps) missing) = mset ps"
      using out mset_nth_image [of ps] b(6) by (simp flip: image_mset_union)
    with run show ?thesis by blast
  qed
qed

section \<open>One packet\<close>

lemma fecReceive_packet:
  assumes "block \<noteq> []" "\<not> (unat n < 1 \<or> unat n > 10 \<or> tot < n \<or> unat tot > 3 * unat n \<or> idx \<ge> tot)"
  shows "fecReceive K now (fecPacket gid idx n tot block) d = (case map_of (fd_groups d) gid of
        Some g \<Rightarrow>
          if fg_dataCount g \<noteq> n \<or> fg_totalCount g \<noteq> tot \<or> fg_blockBytes g \<noteq> length block then ([], removeGroup gid d)
          else addBlock K gid idx block d
      | None \<Rightarrow> (case ensureCapacity (length block) True d of (ok, d) \<Rightarrow>
          if \<not> ok then ([], d)
          else addBlock K gid idx block (d\<lparr>fd_groups := om_upd gid \<lparr>fg_dataCount = n, fg_totalCount = tot, fg_blockBytes = length block,
                     fg_createTime = now, fg_decoded = False, fg_blocks = [], fg_emittedOriginals = []\<rparr> (fd_groups d)\<rparr>)))"
proof -
  define data where "data = fecPacket gid idx n tot block"
  have "data ! 0 = gid" "data ! 1 = idx" "data ! 2 = n" "data ! 3 = tot" "drop 4 data = block" "\<not> length data < 4"
    by (simp_all add: data_def fecPacket_def)
  then show ?thesis using assms unfolding data_def [symmetric] fecReceive_def Let_def by (simp cong: if_cong option.case_cong)
qed

lemma group_state_decoded:
  assumes "group_state N M bb ps rec S d out" "N \<le> card S" "finite S"
  shows "group_state N M bb ps rec (insert i S) d (out @ [])"
proof -
  have "N \<le> card (insert i S)" using assms(2,3) by (simp add: card_insert_if)
  then show ?thesis using assms by (simp add: group_state_def)
qed

lemma addBlock_group:
  assumes t: "transfer K N M bb ps rec" and st: "group_state N M bb ps rec S d out"
    and S: "S \<subseteq> {..<N + M}" and i: "i < N + M"
    and run: "addBlock K 0 (of_nat i) (block_of bb ps rec i) d = (out', d')"
  shows "group_state N M bb ps rec (insert i S) d' (out @ out')"
proof -
  note b = transfer_basic [OF t]
  have fin: "finite S" using S by (rule finite_subset) simp
  obtain g where g: "fd_groups d = [(0, g)]" "fg_dataCount g = of_nat N" "fg_totalCount g = of_nat (N + M)" "fg_blockBytes g = bb"
      "if N \<le> card S then fg_decoded g \<and> mset out = mset ps else holding N M bb ps rec S g (fd_bufferedBytes d) out"
    using st by (auto simp: group_state_def)
  have ui: "unat (of_nat i :: u8) = i" using i b(5) by (simp add: unat_counts)
  show ?thesis
  proof (cases "N \<le> card S")
    case True
    then have "out' = [] \<and> d' = d" using run g by (simp add: addBlock_def)
    then show ?thesis using group_state_decoded [OF st True fin] by simp
  next
    case False
    then have h: "holding N M bb ps rec S g (fd_bufferedBytes d) out" using g(5) by simp
    have blocks: "indexed S (block_of bb ps rec) (fg_blocks g)" and nd: "\<not> fg_decoded g" using h by (simp_all add: holding_def)
    have sub: "S \<subseteq> {..<256}" "insert i S \<subseteq> {..<256}" using S i b(5) by auto
    show ?thesis
    proof (cases "i \<in> S")
      case True
      then have "map_of (fg_blocks g) (of_nat i) \<noteq> None" using blocks ui by (simp add: indexed_def)
      moreover have "length (fg_blocks g) < N" using indexed_length [OF blocks sub(1)] False by simp
      ultimately have "out' = [] \<and> d' = d" using run g nd b(2) by (simp add: addBlock_def decodeIfComplete_def unat_counts)
      then show ?thesis using st True by (simp add: insert_absorb)
    next
      case new: False
      define block where "block = block_of bb ps rec i"
      define g1 where "g1 = (let g' = g\<lparr>fg_blocks := om_upd (of_nat i) block (fg_blocks g)\<rparr>
        in if i < N then g'\<lparr>fg_emittedOriginals := om_upd (of_nat i) () (fg_emittedOriginals g')\<rparr> else g')"
      define d1 where "d1 = d\<lparr>fd_groups := [(0, g1)], fd_bufferedBytes := fd_bufferedBytes d + bb\<rparr>"
      define o1 where "o1 = (if i < N then [ps ! i] else [])"
      have lb: "length block = bb" unfolding block_def by (rule transfer_block [OF t i])
      have cS: "card (insert i S) = Suc (card S)" using new fin by simp
      have "Suc (card S) * bb \<le> (N + M) * bb" using False by (intro mult_le_mono1) simp
      then have cap: "fd_bufferedBytes d + bb \<le> FEC_MAX_BUFFERED_BYTES" using h b(8) by (simp add: holding_def)
      have ens: "ensureCapacity (length block) False d = (True, d)"
        using cap fec.evict_same [of d bb False] unfolding ensureCapacity_def Let_def lb by simp
      have orig: "of_nat i < fg_dataCount g \<longleftrightarrow> i < N" using g(2) ui b(2) by (simp add: word_less_nat_alt unat_counts)
      have store: "storeBlock 0 (of_nat i) block g d = (o1, d1)"
        using g(1) orig transfer_payload [OF t, of i]
        by (simp add: storeBlock_def Let_def o1_def d1_def g1_def lb) (auto simp: block_def)
      have h1: "holding N M bb ps rec (insert i S) g1 (fd_bufferedBytes d1) (out @ o1)"
      proof -
        have "indexed (insert i S) (block_of bb ps rec) (fg_blocks g1)"
          using indexed_upd [OF blocks, of i block] sub(2) by (simp add: g1_def Let_def block_def)
        moreover have "indexed (insert i S \<inter> {..<N}) (\<lambda>_. ()) (fg_emittedOriginals g1)"
          using h indexed_upd [of "S \<inter> {..<N}" "\<lambda>_. ()" "fg_emittedOriginals g" i "()"] sub(2)
          by (auto simp: g1_def Let_def holding_def Int_insert_left)
        moreover have "mset (out @ o1) = image_mset ((!) ps) (mset_set (insert i S \<inter> {..<N}))"
          using h new fin by (simp add: o1_def holding_def Int_insert_left)
        ultimately show ?thesis using h cS by (simp add: holding_def d1_def g1_def Let_def)
      qed
      have run1: "(out', d') = (case decodeIfComplete K 0 d1 of (out2, d) \<Rightarrow> (o1 @ out2, d))"
        using run g(1) nd ens store new blocks ui unfolding block_def [symmetric]
        by (simp add: addBlock_def indexed_def)
      have len: "length (fg_blocks g1) = Suc (card S)"
        using h1 indexed_length [OF _ sub(2), of "block_of bb ps rec" "fg_blocks g1"] cS by (simp add: holding_def)
      have N1: "unat (fg_dataCount g1) = N" "fg_dataCount g1 = of_nat N" "fg_totalCount g1 = of_nat (N + M)" "fg_blockBytes g1 = bb"
        using h1 b(2) by (simp_all add: holding_def unat_counts)
      show ?thesis
      proof (cases "Suc (card S) < N")
        case True
        then have "out' = o1 \<and> d' = d1" using run1 len N1 by (simp add: decodeIfComplete_def d1_def)
        then show ?thesis using h1 N1 True cS by (simp add: group_state_def d1_def)
      next
        case full: False
        then have "card (insert i S) = N" using False cS by simp
        then obtain out2 where "tryDecode K g1 = (out2, g1\<lparr>fg_decoded := True\<rparr>)" "mset ((out @ o1) @ out2) = mset ps"
          using tryDecode_complete [OF t h1] S i by auto
        moreover from this have "out' = o1 @ out2 \<and> d' = d1\<lparr>fd_groups := [(0, g1\<lparr>fg_decoded := True\<rparr>)]\<rparr>"
          using run1 len N1 full by (simp add: decodeIfComplete_def d1_def)
        ultimately show ?thesis using N1 \<open>card (insert i S) = N\<close> by (simp add: group_state_def)
      qed
    qed
  qed
qed

lemma fecReceive_group:
  assumes t: "transfer K N M bb ps rec" and i: "i < N + M"
    and d: "S = {} \<and> d = newFecDecoder \<and> out = [] \<or> S \<noteq> {} \<and> group_state N M bb ps rec S d out" and S: "S \<subseteq> {..<N + M}"
    and run: "fecReceive K now (fecPacket 0 (of_nat i) (of_nat N) (of_nat (N + M)) (block_of bb ps rec i)) d = (out', d')"
  shows "group_state N M bb ps rec (insert i S) d' (out @ out')"
proof -
  note b = transfer_basic [OF t]
  let ?block = "block_of bb ps rec i"
  have lb: "length ?block = bb" "?block \<noteq> []" using transfer_block [OF t i] b(7) by auto
  have u: "unat (of_nat N :: u8) = N" "unat (of_nat (N + M) :: u8) = N + M" "unat (of_nat i :: u8) = i"
    using b i by (simp_all add: unat_counts del: of_nat_add)
  have guard: "\<not> (unat (of_nat N :: u8) < 1 \<or> unat (of_nat N :: u8) > 10 \<or> (of_nat (N + M) :: u8) < of_nat N \<or>
      unat (of_nat (N + M) :: u8) > 3 * unat (of_nat N :: u8) \<or> (of_nat i :: u8) \<ge> of_nat (N + M))"
    using b i unfolding word_less_nat_alt word_le_nat_alt u by simp
  note parse = fecReceive_packet [OF lb(2) guard, unfolded lb(1)]
  show ?thesis
  proof (cases "S = {}")
    case True
    then have d0: "d = newFecDecoder" "out = []" using d by auto
    let ?g = "\<lparr>fg_dataCount = of_nat N, fg_totalCount = of_nat (N + M), fg_blockBytes = bb, fg_createTime = now,
      fg_decoded = False, fg_blocks = [], fg_emittedOriginals = []\<rparr>"
    let ?d = "newFecDecoder\<lparr>fd_groups := [(0, ?g)]\<rparr>"
    have "bb \<le> (N + M) * bb" using b by simp
    then have "bb \<le> FEC_MAX_BUFFERED_BYTES" using b(8) by linarith
    then have "ensureCapacity bb True newFecDecoder = (True, newFecDecoder)"
      using fec.evict_same [of newFecDecoder bb True] by (simp add: ensureCapacity_def newFecDecoder_def)
    then have "addBlock K 0 (of_nat i) ?block ?d = (out', d')"
      using run unfolding parse d0 by (simp add: newFecDecoder_def)
    moreover have "group_state N M bb ps rec {} ?d []"
      using b by (simp add: group_state_def holding_def indexed_def newFecDecoder_def)
    ultimately show ?thesis using addBlock_group [OF t _ _ i, of "{}" ?d "[]"] True d0 by simp
  next
    case False
    then have st: "group_state N M bb ps rec S d out" using d by simp
    then have "addBlock K 0 (of_nat i) ?block d = (out', d')" using run unfolding parse by (auto simp: group_state_def)
    then show ?thesis by (rule addBlock_group [OF t st S i])
  qed
qed

lemma fecFeed_group:
  assumes t: "transfer K N M bb ps rec"
  shows "set (map snd arrivals) \<subseteq> set (group_packets N M (block_of bb ps rec)) \<Longrightarrow> S \<subseteq> {..<N + M} \<Longrightarrow>
    S = {} \<and> d = newFecDecoder \<and> out = [] \<or> S \<noteq> {} \<and> group_state N M bb ps rec S d out \<Longrightarrow>
    arrivals \<noteq> [] \<or> S \<noteq> {} \<Longrightarrow>
    \<exists>S' out' d'. fecFeed K arrivals d = (out', d') \<and> group_state N M bb ps rec S' d' (out @ out') \<and> S \<subseteq> S' \<and> S' \<subseteq> {..<N + M} \<and>
      set (map snd arrivals) \<subseteq> (\<lambda>i. fecPacket 0 (of_nat i) (of_nat N) (of_nat (N + M)) (block_of bb ps rec i)) ` S'"
proof (induction arrivals arbitrary: S d out)
  case Nil
  then show ?case by auto
next
  case (Cons a arrivals)
  obtain now pkt where a: "a = (now, pkt)" by fastforce
  obtain i where i: "i < N + M" "pkt = fecPacket 0 (of_nat i) (of_nat N) (of_nat (N + M)) (block_of bb ps rec i)"
    using Cons.prems(1) a by (auto simp: group_packets_def)
  obtain out1 d1 where r: "fecReceive K now pkt d = (out1, d1)" by fastforce
  have st: "group_state N M bb ps rec (insert i S) d1 (out @ out1)"
    by (rule fecReceive_group [OF t i(1) Cons.prems(3,2)]) (use r i(2) in simp)
  obtain S' out' d' where IH: "fecFeed K arrivals d1 = (out', d')" "group_state N M bb ps rec S' d' ((out @ out1) @ out')"
      "insert i S \<subseteq> S'" "S' \<subseteq> {..<N + M}"
      "set (map snd arrivals) \<subseteq> (\<lambda>i. fecPacket 0 (of_nat i) (of_nat N) (of_nat (N + M)) (block_of bb ps rec i)) ` S'"
    using Cons.IH [of "insert i S" d1 "out @ out1"] Cons.prems st i(1) by auto
  show ?case
    by (rule exI [of _ S'], rule exI [of _ "out1 @ out'"], rule exI [of _ d'])
      (use IH a r i in auto)
qed

text \<open>
  Losses up to the redundancy are repaired: take up to ten nonempty packets, encode them
  as one group, and let any of the packets sent for it arrive at a fresh decoder, in any
  order, at any time and any number of times.  If at least as many different ones arrive as
  there were packets, the decoder hands on exactly the original packets, each once.
\<close>

lemma fec_recovers:
  fixes ps :: "(u32 \<times> bytes) list" and mode
  defines "N \<equiv> length ps" and "bb \<equiv> 2 + fold max (map (length \<circ> snd) ps) 0"
  defines "M \<equiv> nat (fecParityCount mode (int N))"
  assumes "ps \<noteq> []" "N \<le> FEC_GROUP_SIZE" "mode \<noteq> FEC_NONE" "\<forall>(t, p) \<in> set ps. 0 < length p \<and> length p < 65536"
    and "(N + M) * bb \<le> FEC_MAX_BUFFERED_BYTES" "cm256_recovers K N M bb"
    and "set (map snd arrivals) \<subseteq> set (fec_group K mode ps)" "N \<le> card (set (map snd arrivals))"
  shows "mset (fst (fecFeed K arrivals newFecDecoder)) = mset (map snd ps)"
proof -
  let ?ps = "map snd ps"
  have N: "0 < N" using assms(4) by (simp add: N_def)
  note parity = parity_bounds [OF assms(6) N, folded M_def]
  have fits: "2 + length p \<le> bb" if "p \<in> set ?ps" for p
    using that fold_max_ge(1) [of "length p" "map (length \<circ> snd) ps" 0] by (auto simp: bb_def)
  then have len: "\<forall>x \<in> set (map (padBlock bb) ?ps). length x = bb" by (auto simp: length_padBlock)
  obtain rec where rec: "cm_encode K N M bb (map (padBlock bb) ?ps) = Some rec" "length rec = M * bb"
      "\<forall>bs. length bs = N \<longrightarrow> distinct (map fst bs) \<longrightarrow>
        (\<forall>(i, b) \<in> set bs. unat i < N + M \<and> b = coded bb (map (padBlock bb) ?ps) rec (unat i)) \<longrightarrow>
        (\<exists>bs'. cm_decode K N M bb bs = Some bs' \<and> set bs' = (\<lambda>i. (of_nat i, map (padBlock bb) ?ps ! i)) ` {..<N})"
    using assms(9) [unfolded cm256_recovers_def, rule_format, of "map (padBlock bb) ?ps"] len by (auto simp: N_def)
  have t: "transfer K N M bb ?ps rec"
    unfolding transfer_def using N assms(5,7,8) parity fits rec(2,3) by (auto simp: N_def)
  have pkts: "fec_group K mode ps = group_packets N M (block_of bb ?ps rec)"
    using fec_group_packets [of ps mode K rec] assms(4-6) rec(1) by (simp add: N_def M_def bb_def comp_def)
  obtain S' out' d' where f: "fecFeed K arrivals newFecDecoder = (out', d')" "group_state N M bb ?ps rec S' d' out'" "S' \<subseteq> {..<N + M}"
      "set (map snd arrivals) \<subseteq> (\<lambda>i. fecPacket 0 (of_nat i) (of_nat N) (of_nat (N + M)) (block_of bb ?ps rec i)) ` S'"
    using fecFeed_group [OF t, of arrivals "{}" newFecDecoder "[]"] assms(10,11) N pkts by fastforce
  have "finite S'" using f(3) by (rule finite_subset) simp
  then have "N \<le> card S'" using assms(11) card_mono [OF _ f(4)] card_image_le [of S'] by (meson finite_imageI le_trans)
  then show ?thesis using f(1,2) by (auto simp: group_state_def)
qed

text \<open>Two originals and their sum: the simplest code of this kind.\<close>

definition xor_code :: cm256 where
  "xor_code = \<lparr>
     cm_encode = (\<lambda>N M bb xs. Some (map2 (XOR) (xs ! 0) (xs ! 1))),
     cm_decode = (\<lambda>N M bb bs. case bs of
         [(i, a), (j, b)] \<Rightarrow> Some (if i = 2 then [(1 - j, map2 (XOR) a b), (j, b)]
            else if j = 2 then [(i, a), (1 - i, map2 (XOR) a b)] else bs)
       | _ \<Rightarrow> None)\<rparr>"

lemma map2_xor_cancel:
  assumes "length a = length b"
  shows "map2 (XOR) a (map2 (XOR) a b) = (b :: bytes)" "map2 (XOR) (map2 (XOR) a b) a = b"
    "map2 (XOR) b (map2 (XOR) a b) = a" "map2 (XOR) (map2 (XOR) a b) b = a"
  using assms by (induction a b rule: list_induct2) (simp_all add: xor.commute xor.left_commute xor.assoc [symmetric])

lemma u8_below3: "unat (k :: u8) < 3 \<Longrightarrow> k = 0 \<or> k = 1 \<or> k = 2"
proof -
  assume "unat k < 3"
  then have "unat k = 0 \<or> unat k = 1 \<or> unat k = 2" by linarith
  then show ?thesis by (simp add: word_unat_eq_iff)
qed

lemma xor_code_recovers: "cm256_recovers xor_code 2 1 bb"
  unfolding cm256_recovers_def
proof (intro allI impI)
  fix xs :: "bytes list" assume xs: "length xs = 2" "\<forall>x \<in> set xs. length x = bb"
  then obtain a b where ab: "xs = [a, b]" "length a = bb" "length b = bb" by (auto simp: numeral_2_eq_2 length_Suc_conv)
  have "\<exists>bs'. cm_decode xor_code 2 1 bb bs = Some bs' \<and> set bs' = (\<lambda>i. (of_nat i, xs ! i)) ` {..<2}"
    if bs: "length bs = 2" "distinct (map fst bs)" "\<forall>(i, b') \<in> set bs. unat i < 2 + 1 \<and> b' = coded bb xs (map2 (XOR) a b) (unat i)" for bs
  proof -
    obtain i x j y where q: "bs = [(i, x), (j, y)]" using bs(1) by (auto simp: numeral_2_eq_2 length_Suc_conv)
    have ij: "i \<noteq> j" "unat i < 3" "unat j < 3" "x = coded bb xs (map2 (XOR) a b) (unat i)" "y = coded bb xs (map2 (XOR) a b) (unat j)"
      using bs q by auto
    have two: "{..<2} = {0, 1 :: nat}" by auto
    have c: "coded bb xs (map2 (XOR) a b) 0 = a" "coded bb xs (map2 (XOR) a b) (Suc 0) = b" "coded bb xs (map2 (XOR) a b) 2 = map2 (XOR) a b"
      using ab by (simp_all add: coded_def)
    consider "i = 0 \<and> j = 1" | "i = 1 \<and> j = 0" | "i = 0 \<and> j = 2" | "i = 2 \<and> j = 0" | "i = 1 \<and> j = 2" | "i = 2 \<and> j = 1"
      using u8_below3 [OF ij(2)] u8_below3 [OF ij(3)] ij(1) by blast
    then show ?thesis unfolding q ij(4,5) two
      by cases (auto simp: xor_code_def c [unfolded ab(1)] map2_xor_cancel ab)
  qed
  then show "\<exists>rec. cm_encode xor_code 2 1 bb xs = Some rec \<and> length rec = 1 * bb \<and>
       (\<forall>bs. length bs = 2 \<longrightarrow> distinct (map fst bs) \<longrightarrow>
          (\<forall>(i, b) \<in> set bs. unat i < 2 + 1 \<and> b = coded bb xs rec (unat i)) \<longrightarrow>
          (\<exists>bs'. cm_decode xor_code 2 1 bb bs = Some bs' \<and> set bs' = (\<lambda>i. (of_nat i, xs ! i)) ` {..<2}))"
    by (intro exI [of _ "map2 (XOR) a b"]) (simp add: xor_code_def ab)
qed

end
