(* ===== verification/Cli_RawDelivery.thy ===== *)
theory Cli_RawDelivery
  imports Cli_RawUdp Fec_Recovery
begin

text \<open>
  From one fragmenting tunnel to the other: the fragments of many packets, in any order, come
  out as the packets that were sent, and with FEC also when datagrams are lost.
\<close>

section \<open>Pieces of a packet\<close>

text \<open>The budget of a tunnel is so close to the room's MTU that a packet has at most two fragments.\<close>

definition mtu_ok :: "CliRawUdpTunnel \<Rightarrow> bool" where
  "mtu_ok t \<longleftrightarrow> ru_roomMtu t = 1280 \<or> ru_roomMtu t = 1400 \<or> ru_roomMtu t = 1420"

definition budget :: "CliRawUdpTunnel \<Rightarrow> nat" where
  "budget t = nat (maxFragmentPayload t)"

lemma budget_bounds:
  assumes "mtu_ok t"
  shows "maxFragmentPayload t = int (budget t)" "1231 \<le> budget t" "budget t \<le> unat (ru_roomMtu t)" "unat (ru_roomMtu t) < 2 * budget t"
    "unat (ru_roomMtu t) \<le> 1420"
proof -
  have m: "unat (ru_roomMtu t) \<in> {1280, 1400, 1420}" using assms by (auto simp: mtu_ok_def)
  have u: "uint (ru_roomMtu t) = int (unat (ru_roomMtu t))" by simp
  have "uint (normalizeRoomMtu (int (unat (ru_roomMtu t)))) = int (unat (ru_roomMtu t))"
    using m by (auto simp: uint_normalizeRoomMtu isValidRoomMtuValue_def simp del: of_nat_unat)
  then have "maxFragmentPayload t = int (unat (ru_roomMtu t)) - 10 - (if ru_fecMode t \<noteq> FEC_NONE then 4 else 0) - (if ru_secureFrames t then 29 else 0) - 6"
    unfolding maxFragmentPayload_def u transportPayloadBudget_exact by simp
  then have b: "int (unat (ru_roomMtu t)) - 49 \<le> maxFragmentPayload t" "maxFragmentPayload t \<le> int (unat (ru_roomMtu t)) - 16" by auto
  then show eq: "maxFragmentPayload t = int (budget t)" using m by (auto simp: budget_def simp del: of_nat_unat)
  show "1231 \<le> budget t" "budget t \<le> unat (ru_roomMtu t)" "unat (ru_roomMtu t) < 2 * budget t" "unat (ru_roomMtu t) \<le> 1420"
    using b m unfolding eq by (auto simp del: of_nat_unat)
qed

definition pieces :: "nat \<Rightarrow> bytes \<Rightarrow> bytes list" where
  "pieces B p = (if length p \<le> B then [p] else [take B p, drop B p])"

definition fragment :: "nat \<Rightarrow> u16 \<Rightarrow> bytes \<Rightarrow> nat \<Rightarrow> bytes" where
  "fragment B i p j = fragPacket i (of_nat j) (of_nat (length (pieces B p))) (of_nat (length p)) (pieces B p ! j)"

lemma sdiv_nat: "int a sdiv int b = int (a div b)"
  by (cases "a = 0"; cases "b = 0") (simp_all add: signed_divide_int_def zdiv_int)

lemma pieces_count: "length p \<le> 2 * B \<Longrightarrow> p \<noteq> [] \<Longrightarrow> 0 < B \<Longrightarrow> (int (length p) + int B - 1) sdiv int B = int (length (pieces B p))"
proof -
  assume a: "length p \<le> 2 * B" "p \<noteq> []" "0 < B"
  then obtain k where k: "length p = Suc k" by (cases p) auto
  have "(length p + B - 1) div B = k div B + 1" using a(3) k div_add_self2 [of B k] by simp
  also have "\<dots> = length (pieces B p)" using a k by (auto simp: pieces_def le_div_geq)
  finally have "(length p + B - 1) div B = length (pieces B p)" .
  moreover have "(int (length p) + int B - 1) = int (length p + B - 1)" using a by (cases p) simp_all
  ultimately show ?thesis by (simp only: sdiv_nat)
qed

section \<open>Sending\<close>

lemma header_frag:
  "fragPacket m i n l d ! 0 = be16 m ! 0" "fragPacket m i n l d ! 1 = be16 m ! 1"
  "fragPacket m i n l d ! 2 = i" "fragPacket m i n l d ! 3 = n"
  "fragPacket m i n l d ! 4 = be16 l ! 0" "fragPacket m i n l d ! 5 = be16 l ! 1"
  "drop 6 (fragPacket m i n l d) = d" "length (fragPacket m i n l d) = 6 + length d"
  by (simp_all add: fragPacket_def be16_def nth_append numeral_eq_Suc)

lemma pieces_nth:
  assumes "j < length (pieces B p)" "length p \<le> 2 * B"
  shows "take (min B (length p - j * B)) (drop (j * B) p) = pieces B p ! j"
  using assms by (cases j) (auto simp: pieces_def split: if_splits)

lemma pieces_short: "j < length (pieces B p) \<Longrightarrow> length (pieces B p ! j) \<le> length p"
  by (cases j) (auto simp: pieces_def split: if_splits)

definition sendable :: "CliRawUdpTunnel \<Rightarrow> bytes \<Rightarrow> bool" where
  "sendable t p \<longleftrightarrow> p \<noteq> [] \<and> length p \<le> unat (ru_roomMtu t)"

definition fragments :: "nat \<Rightarrow> u16 \<Rightarrow> bytes \<Rightarrow> bytes list" where
  "fragments B i p = map (fragment B i p) [0..<length (pieces B p)]"

lemma rawSend_fragments:
  fixes t p
  defines "t' \<equiv> t\<lparr>ru_nextMsgId := ru_nextMsgId t + 1\<rparr>"
  assumes "mtu_ok t" "sendable t p"
  shows "rawSend K cb now p (t, w) = (int (length p),
    fold (\<lambda>j. sendFragment K cb now (pieces (budget t) p ! j) (of_nat j) (of_nat (length (pieces (budget t) p))) (ru_nextMsgId t) (of_nat (length p)))
      [0..<length (pieces (budget t) p)] (t', w))"
proof -
  note b = budget_bounds [OF assms(2)]
  have n: "(int (length p) + maxFragmentPayload t - 1) sdiv maxFragmentPayload t = int (length (pieces (budget t) p))"
    unfolding b(1) using assms(3) b by (intro pieces_count) (auto simp: sendable_def)
  have few: "length (pieces (budget t) p) \<le> 2" "0 < length (pieces (budget t) p)" by (simp_all add: pieces_def)
  have "fold (\<lambda>j. sendFragment K cb now (take (min (nat (maxFragmentPayload t)) (length p - j * nat (maxFragmentPayload t))) (drop (j * nat (maxFragmentPayload t)) p))
          (of_nat j) (of_int (int (length (pieces (budget t) p)))) (ru_nextMsgId t) (of_int (int (length p)))) [0..<nat (int (length (pieces (budget t) p)))] s =
        fold (\<lambda>j. sendFragment K cb now (pieces (budget t) p ! j) (of_nat j) (of_nat (length (pieces (budget t) p))) (ru_nextMsgId t) (of_nat (length p)))
          [0..<length (pieces (budget t) p)] s" for s
    using assms(3) b by (intro fold_cong) (auto simp: pieces_nth sendable_def)
  then show ?thesis using assms(3) few unfolding rawSend_def Let_def prod.case n t'_def
    by (simp add: sendable_def)
qed

section \<open>Receiving one fragment\<close>

lemma process_frag:
  assumes "d \<noteq> []" "i < n" "l \<noteq> 0" "\<not> l > ru_roomMtu t" "(uint l + maxFragmentPayload t - 1) sdiv maxFragmentPayload t = uint n"
    "int (length d) = (if uint i + 1 = uint n then uint l - maxFragmentPayload t * (uint n - 1) else maxFragmentPayload t)" "l \<noteq> 1" "l \<noteq> 5"
  shows "processFrag K cb now (fragPacket m i n l d) (t, w) =
    (if n = 1 then if length d = unat l then rc_onData cb d (t, w) else (t, w) else collectFragment cb now m i n l d (t, w))"
proof -
  have "n \<noteq> 0" "\<not> n \<le> i" using assms(2) by (auto simp: not_le)
  then show ?thesis using assms
    unfolding processFrag_def Let_def prod.case header_frag be16_join by simp
qed

lemma fragment_accepted:
  assumes "mtu_ok t" "length p \<le> unat (ru_roomMtu t)" "6 \<le> length p" "j < length (pieces (budget t) p)"
  shows "processFrag K cb now (fragment (budget t) i p j) (t, w) =
    (if length (pieces (budget t) p) = 1 then rc_onData cb p (t, w)
     else collectFragment cb now i (of_nat j) 2 (of_nat (length p)) (pieces (budget t) p ! j) (t, w))"
proof -
  let ?B = "budget t" and ?len = "of_nat (length p) :: u16" and ?d = "pieces (budget t) p ! j"
  note b = budget_bounds [OF assms(1)]
  have ulen: "unat ?len = length p" using assms(2) b by (simp add: unat_of_nat_small)
  have n: "(uint ?len + maxFragmentPayload t - 1) sdiv maxFragmentPayload t = int (length (pieces ?B p))"
    unfolding b(1) using pieces_count [of p ?B] ulen assms b by (cases p) (auto simp: uint_nat)
  have few: "length (pieces ?B p) = 1 \<and> j = 0 \<and> ?d = p \<and> length p \<le> ?B \<or>
      length (pieces ?B p) = 2 \<and> (j = 0 \<or> j = 1) \<and> ?B < length p \<and> ?d = (if j = 0 then take ?B p else drop ?B p)"
    using assms(4) by (auto simp: pieces_def less_2_cases_iff split: if_splits)
  have len: "?len \<noteq> 0" "\<not> ?len > ru_roomMtu t" "?len \<noteq> 1" "?len \<noteq> 5"
    using ulen assms by (auto simp: word_less_nat_alt dest: arg_cong [of _ _ unat])
  from few show ?thesis
  proof
    assume one: "length (pieces ?B p) = 1 \<and> j = 0 \<and> ?d = p \<and> length p \<le> ?B"
    then have "processFrag K cb now (fragPacket i 0 1 ?len p) (t, w) = rc_onData cb p (t, w)"
      using n ulen assms(3) len by (subst process_frag) (auto simp: uint_nat)
    then show ?thesis using one by (auto simp: fragment_def)
  next
    assume two: "length (pieces ?B p) = 2 \<and> (j = 0 \<or> j = 1) \<and> ?B < length p \<and> ?d = (if j = 0 then take ?B p else drop ?B p)"
    then have d: "?d \<noteq> []" "int (length ?d) = (if j = 1 then int (length p) - int ?B else int ?B)" using b assms(3) by auto
    have j: "(of_nat j :: u8) < 2" "uint (of_nat j :: u8) = int j" using two by auto
    have "(uint ?len + maxFragmentPayload t - 1) sdiv maxFragmentPayload t = uint (2 :: u8)" using n two by simp
    moreover have "int (length ?d) = (if uint (of_nat j :: u8) + 1 = uint (2 :: u8)
        then uint ?len - maxFragmentPayload t * (uint (2 :: u8) - 1) else maxFragmentPayload t)"
      unfolding d(2) j(2) b(1) using ulen two by (auto simp: uint_nat)
    ultimately have "processFrag K cb now (fragPacket i (of_nat j) 2 ?len ?d) (t, w) = collectFragment cb now i (of_nat j) 2 ?len ?d (t, w)"
      by (subst process_frag [OF d(1) j(1) len(1,2) _ _ len(3,4)]) simp_all
    then show ?thesis using two by (simp add: fragment_def)
  qed
qed

text \<open>An owner that notes what it is sent to transmit and what it is handed, in order.\<close>

definition recorder :: "bytes list raw_callbacks" where
  "recorder = \<lparr>rc_udpSend = \<lambda>pkt ip port w. w @ [pkt], rc_onData = \<lambda>data (t, w). (t, w @ [data]), rc_onDead = \<lambda>w. w\<rparr>"

lemma recorder_simps [simp]: "rc_onData recorder data (t, w) = (t, w @ [data])" "rc_udpSend recorder pkt ip port w = w @ [pkt]"
  by (simp_all add: recorder_def)

interpretation noting: raw_owner recorder
  by unfold_locales simp

definition half_entry :: "nat \<Rightarrow> bytes \<Rightarrow> nat \<Rightarrow> ReassemblyEntry \<Rightarrow> bool" where
  "half_entry B p j e \<longleftrightarrow> j < length (pieces B p) \<and> re_totalLen e = of_nat (length p) \<and> re_fragTotal e = 2 \<and> re_receivedCount e = 1 \<and>
     re_fragments e = [(of_nat j, pieces B p ! j)]"

lemma capacity_free:
  assumes "ru_reassemblyBytes t + n \<le> RAW_UDP_MAX_REASSEMBLY_BYTES" "new \<Longrightarrow> length (ru_reassembly t) < RAW_UDP_MAX_ACTIVE_MESSAGES"
  shows "ensureReassemblyCapacity n new t = (True, t)"
  using assms raw.evict_same [of t n new] by (auto simp: ensureReassemblyCapacity_def Let_def)

lemma first_fragment:
  assumes "map_of (ru_reassembly t) i = None" "ru_reassemblyBytes t + length d \<le> RAW_UDP_MAX_REASSEMBLY_BYTES"
    "length (ru_reassembly t) < RAW_UDP_MAX_ACTIVE_MESSAGES" "j < length (pieces B p)" "d = pieces B p ! j"
  shows "\<exists>e. half_entry B p j e \<and> collectFragment cb now i (of_nat j) 2 (of_nat (length p)) d (t, w) =
    (t\<lparr>ru_reassembly := om_upd i e (om_upd i (e\<lparr>re_receivedCount := 0, re_fragments := []\<rparr>) (ru_reassembly t)),
       ru_reassemblyBytes := ru_reassemblyBytes t + length d\<rparr>, w)"
proof -
  let ?e = "\<lparr>re_totalLen = of_nat (length p), re_fragTotal = 2, re_receivedCount = 1, re_createTime = now, re_fragments = [(of_nat j, d)]\<rparr>"
  let ?t = "t\<lparr>ru_reassembly := om_upd i (?e\<lparr>re_receivedCount := 0, re_fragments := []\<rparr>) (ru_reassembly t)\<rparr>"
  have o: "openEntry now i 2 (of_nat (length p)) (length d) t = (True, ?t)"
    using assms(1-3) by (simp add: openEntry_def capacity_free)
  have c: "ensureReassemblyCapacity (length d) False ?t = (True, ?t)" using assms(2) by (intro capacity_free) simp_all
  have "addFragment cb i (of_nat j) d (?t, w) = (?t\<lparr>ru_reassembly := om_upd i ?e (ru_reassembly ?t), ru_reassemblyBytes := ru_reassemblyBytes t + length d\<rparr>, w)"
    unfolding addFragment_def using c by (simp add: storeFragment_def completeMessage_def word_le_nat_alt)
  then have "collectFragment cb now i (of_nat j) 2 (of_nat (length p)) d (t, w) =
      (t\<lparr>ru_reassembly := om_upd i ?e (ru_reassembly ?t), ru_reassemblyBytes := ru_reassemblyBytes t + length d\<rparr>, w)"
    unfolding collectFragment_def using assms(1) o by simp
  then show ?thesis using assms(4,5) by (intro exI [of _ ?e]) (simp add: half_entry_def)
qed

lemma second_fragment:
  assumes "map_of (ru_reassembly t) i = Some e" "half_entry B p (1 - j) e" "j < 2" "d = pieces B p ! j"
    "ru_reassemblyBytes t + length d \<le> RAW_UDP_MAX_REASSEMBLY_BYTES" "length (pieces B p) = 2" "length p < 65536"
  shows "\<exists>t'. collectFragment cb now i (of_nat j) 2 (of_nat (length p)) d (t, w) = rc_onData cb p (t', w) \<and>
    map_of (ru_reassembly t') = (map_of (ru_reassembly t))(i := None) \<and> maxFragmentPayload t' = maxFragmentPayload t \<and> ru_roomMtu t' = ru_roomMtu t \<and>
    ru_fecMode t' = ru_fecMode t \<and> ru_fecDecoder t' = ru_fecDecoder t"
proof -
  let ?t = "storeFragment i (of_nat j) d e t"
  have e: "re_totalLen e = of_nat (length p)" "re_fragTotal e = 2" "re_receivedCount e = 1" "re_fragments e = [(of_nat (1 - j), pieces B p ! (1 - j))]"
    using assms(2) by (simp_all add: half_entry_def)
  have j: "j = 0 \<or> j = 1" using assms(3) by auto
  have p: "pieces B p ! 0 @ pieces B p ! 1 = p" using assms(6) by (simp add: pieces_def split: if_splits)
  have new: "map_of (re_fragments e) (of_nat j) = None" using e(4) j by auto
  have c: "ensureReassemblyCapacity (length d) False t = (True, t)" using assms(5) by (intro capacity_free) simp_all
  have all: "assembleFragments (om_upd (of_nat j) d (re_fragments e)) [0..<2] = Some p"
    using e(4) j assms(4) p by (auto simp: upt_rec numeral_2_eq_2)
  have "addFragment cb i (of_nat j) d (t, w) = rc_onData cb p (removeReassemblyEntry i ?t, w)"
    using assms(1,7) new c all e by (simp add: addFragment_def completeMessage_def storeFragment_def unat_of_nat_small)
  then have "collectFragment cb now i (of_nat j) 2 (of_nat (length p)) d (t, w) = rc_onData cb p (removeReassemblyEntry i ?t, w)"
    using assms(1) e by (simp add: collectFragment_def openEntry_def)
  then show ?thesis
    by (intro exI [of _ "removeReassemblyEntry i ?t"])
      (auto simp: removeEntry_table storeFragment_def removeReassemblyEntry_def maxFragmentPayload_def Let_def)
qed

section \<open>Receiving many fragments\<close>

text \<open>
  \<open>pk\<close> is the packet of each message, \<open>half\<close> says of which messages one fragment is there and
  which one; a fragment is named by its message and its index.
\<close>

definition stored :: "nat \<Rightarrow> u16 \<Rightarrow> bytes \<Rightarrow> nat option \<Rightarrow> ReassemblyEntry option \<Rightarrow> bool" where
  "stored B mtu p h v \<longleftrightarrow>
     (case h of None \<Rightarrow> v = None | Some j \<Rightarrow> length p \<le> unat mtu \<and> (\<exists>e. v = Some e \<and> half_entry B p j e))"

definition collecting :: "nat \<Rightarrow> u16 \<Rightarrow> (u16 \<Rightarrow> bytes) \<Rightarrow> (u16 \<Rightarrow> nat option) \<Rightarrow> CliRawUdpTunnel \<Rightarrow> bool" where
  "collecting B mtu pk half t \<longleftrightarrow> raw_inv t \<and> mtu_ok t \<and> budget t = B \<and> ru_roomMtu t = mtu \<and>
     (\<forall>i. stored B mtu (pk i) (half i) (map_of (ru_reassembly t) i))"

definition indices :: "u16 \<Rightarrow> (u16 \<times> nat) list \<Rightarrow> nat set" where
  "indices i xs = {j. (i, j) \<in> set xs}"

text \<open>Of a message in two fragments both are to come or none, or the other one of the one that is there.\<close>

definition balanced :: "nat \<Rightarrow> nat option \<Rightarrow> nat set \<Rightarrow> bool" where
  "balanced n h S \<longleftrightarrow> (if n = 2 then (case h of None \<Rightarrow> 0 \<in> S \<longleftrightarrow> 1 \<in> S | Some j \<Rightarrow> j < 2 \<and> j \<notin> S \<and> 1 - j \<in> S) else h = None)"

definition expected :: "nat \<Rightarrow> u16 \<Rightarrow> (u16 \<Rightarrow> bytes) \<Rightarrow> (u16 \<Rightarrow> nat option) \<Rightarrow> (u16 \<times> nat) list \<Rightarrow> bool" where
  "expected B mtu pk half xs \<longleftrightarrow> distinct xs \<and> finite (dom half) \<and> card (dom half) + length xs \<le> RAW_UDP_MAX_ACTIVE_MESSAGES \<and>
     (\<forall>(i, j) \<in> set xs. 6 \<le> length (pk i) \<and> length (pk i) \<le> unat mtu \<and> j < length (pieces B (pk i))) \<and>
     (\<forall>i. balanced (length (pieces B (pk i))) (half i) (indices i xs))"

definition frag_of :: "nat \<Rightarrow> (u16 \<Rightarrow> bytes) \<Rightarrow> u16 \<times> nat \<Rightarrow> bytes" where
  "frag_of B pk x = fragment B (fst x) (pk (fst x)) (snd x)"

lemma frag_of_pair [simp]: "frag_of B pk (i, j) = fragment B i (pk i) j"
  by (simp add: frag_of_def)

definition outstanding :: "(u16 \<Rightarrow> bytes) \<Rightarrow> (u16 \<times> nat) list \<Rightarrow> bytes multiset" where
  "outstanding pk xs = mset (map pk (remdups (map fst xs)))"

lemma costs_le: "\<forall>e \<in> set m. c (snd e) \<le> k \<Longrightarrow> costs c m \<le> k * length m"
  by (induction m) auto

lemma collecting_table:
  assumes "collecting B mtu pk half t" "finite (dom half)"
  shows "length (ru_reassembly t) = card (dom half)" "ru_reassemblyBytes t \<le> 1420 * card (dom half)"
proof -
  let ?R = "ru_reassembly t"
  have ok: "om_ok ?R" and bytes: "ru_reassemblyBytes t = costs entry_cost ?R"
    using assms(1) by (auto simp: collecting_def raw_inv_def cache_exact_def)
  have at: "stored B mtu (pk i) (half i) (map_of ?R i)" for i using assms(1) by (simp add: collecting_def)
  have "map_of ?R i = None \<longleftrightarrow> half i = None" for i using at [of i] by (auto simp: stored_def split: option.splits)
  then have "dom (map_of ?R) = dom half" by (auto simp: dom_def)
  then have "card (fst ` set ?R) = card (dom half)" by (simp add: dom_map_of_conv_image_fst)
  then show len: "length ?R = card (dom half)" using distinct_card [OF om_ok_distinct [OF ok]] by simp
  have mtu: "unat mtu \<le> 1420" using assms(1) budget_bounds(5) [of t] by (auto simp: collecting_def)
  have "entry_cost (snd e) \<le> 1420" if "e \<in> set ?R" for e
  proof -
    have "map_of ?R (fst e) = Some (snd e)" using that ok om_in_set_iff [of ?R "fst e" "snd e"] by simp
    then obtain j where "length (pk (fst e)) \<le> unat mtu" "half_entry B (pk (fst e)) j (snd e)"
      using at [of "fst e"] by (auto simp: stored_def split: option.splits)
    then show ?thesis using pieces_short [of j B "pk (fst e)"] mtu by (simp add: entry_cost_def half_entry_def)
  qed
  then show "ru_reassemblyBytes t \<le> 1420 * card (dom half)" using costs_le [of ?R entry_cost 1420] bytes len by simp
qed

lemma pieces_1_2: "length (pieces B p) = 1 \<or> length (pieces B p) = 2"
  by (simp add: pieces_def)

lemma indices_Cons: "indices k ((i, j) # xs) = (if k = i then insert j (indices i xs) else indices k xs)"
  by (auto simp: indices_def)

lemma expectedD:
  assumes "expected B mtu pk half ((i, j) # xs)"
  shows "6 \<le> length (pk i)" "length (pk i) \<le> unat mtu" "j < length (pieces B (pk i))" "j \<notin> indices i xs"
    "card (dom half) < RAW_UDP_MAX_ACTIVE_MESSAGES" "finite (dom half)"
    "balanced (length (pieces B (pk i))) (half i) (insert j (indices i xs))" "\<forall>a \<in> indices i xs. a < length (pieces B (pk i))"
  using assms by (auto simp: expected_def indices_Cons) (auto simp: indices_def dest: spec [of _ i])

lemma expected_next:
  assumes "expected B mtu pk half ((i, j) # xs)" "balanced (length (pieces B (pk i))) h (indices i xs)"
  shows "expected B mtu pk (half(i := h)) xs"
proof -
  have "card (dom (half(i := h))) \<le> Suc (card (dom half))" using expectedD(6) [OF assms(1)]
    by (cases h) (auto simp: card_insert_if intro: le_SucI card_Diff1_le)
  then show ?thesis using assms by (auto simp: expected_def indices_Cons split: if_splits)
qed

lemma outstanding_last: "indices i xs = {} \<Longrightarrow> outstanding pk ((i, j) # xs) = add_mset (pk i) (outstanding pk xs)"
  by (auto simp: outstanding_def indices_def)

lemma outstanding_more: "k \<in> indices i xs \<Longrightarrow> outstanding pk ((i, j) # xs) = outstanding pk xs"
  by (force simp: outstanding_def indices_def)

lemma expected_single:
  assumes "expected B mtu pk half ((i, j) # xs)" "length (pieces B (pk i)) = 1"
  shows "expected B mtu pk half xs" "indices i xs = {}"
proof -
  show none: "indices i xs = {}" using expectedD(3,4,8) [OF assms(1)] assms(2) by auto
  have "half i = None" using expectedD(7) [OF assms(1)] assms(2) by (simp add: balanced_def)
  then show "expected B mtu pk half xs" using expected_next [OF assms(1), of None] assms(2) by (simp add: balanced_def fun_upd_idem)
qed

lemma expected_first:
  assumes "expected B mtu pk half ((i, j) # xs)" "length (pieces B (pk i)) = 2" "half i = None"
  shows "expected B mtu pk (half(i \<mapsto> j)) xs" "1 - j \<in> indices i xs"
proof -
  have j: "j = 0 \<or> j = 1" "j \<notin> indices i xs" using expectedD(3,4) [OF assms(1)] assms(2) by auto
  then show other: "1 - j \<in> indices i xs" using expectedD(7) [OF assms(1)] assms(2,3) by (auto simp: balanced_def)
  show "expected B mtu pk (half(i \<mapsto> j)) xs"
    using expected_next [OF assms(1), of "Some j"] assms(2) j other by (auto simp: balanced_def)
qed

lemma expected_second:
  assumes "expected B mtu pk half ((i, j) # xs)" "half i = Some k"
  shows "k = 1 - j" "length (pieces B (pk i)) = 2" "expected B mtu pk (half(i := None)) xs" "indices i xs = {}"
proof -
  note d = expectedD [OF assms(1)]
  show two: "length (pieces B (pk i)) = 2" using d(7) assms(2) by (simp add: balanced_def split: if_splits)
  have j: "j = 0 \<or> j = 1" using d(3) two by auto
  have k: "k < 2" "k \<noteq> j" "k \<notin> indices i xs" using d(7) two assms(2) by (auto simp: balanced_def)
  then show "k = 1 - j" using j by auto
  show none: "indices i xs = {}"
  proof (rule equals0I)
    fix a
    assume a: "a \<in> indices i xs"
    then have "a < 2" using d(8) two by simp
    then show False using a d(4) k j by (cases "a = j") (auto simp: less_2_cases_iff)
  qed
  show "expected B mtu pk (half(i := None)) xs" using expected_next [OF assms(1), of None] none by (simp add: balanced_def)
qed

lemma collecting_upd:
  assumes "collecting B mtu pk half t" "raw_inv t'" "maxFragmentPayload t' = maxFragmentPayload t" "ru_roomMtu t' = ru_roomMtu t"
    "map_of (ru_reassembly t') = (map_of (ru_reassembly t))(i := v)"
    "stored B mtu (pk i) h v"
  shows "collecting B mtu pk (half(i := h)) t'"
  using assms unfolding collecting_def mtu_ok_def budget_def by auto

lemma fragment_step:
  assumes "collecting B mtu pk half t" "expected B mtu pk half ((i, j) # xs)"
  obtains t' half' out where "processFrag K recorder now (fragment B i (pk i) j) (t, w) = (t', w @ out)"
    "collecting B mtu pk half' t'" "expected B mtu pk half' xs" "mset out + outstanding pk xs = outstanding pk ((i, j) # xs)"
    "ru_fecMode t' = ru_fecMode t" "ru_fecDecoder t' = ru_fecDecoder t"
proof -
  let ?p = "pk i" and ?d = "pieces B (pk i) ! j"
  note d = expectedD [OF assms(2)] and table = collecting_table [OF assms(1) expectedD(6) [OF assms(2)]]
  have t: "raw_inv t" "mtu_ok t" "budget t = B" "ru_roomMtu t = mtu" using assms(1) by (simp_all add: collecting_def)
  note process = fragment_accepted [OF t(2), of ?p j K recorder now i w, unfolded t(3,4), OF d(2,1,3)]
  have inv: "raw_inv (fst (processFrag K recorder now (fragment B i ?p j) (t, w)))" using noting.processed t(1) by simp
  have room: "ru_reassemblyBytes t + length ?d \<le> RAW_UDP_MAX_REASSEMBLY_BYTES" "length (ru_reassembly t) < RAW_UDP_MAX_ACTIVE_MESSAGES"
    using table d(2,5) pieces_short [OF d(3)] budget_bounds(5) [OF t(2)] t(4) by auto
  consider (single) "length (pieces B ?p) = 1" | (first) "length (pieces B ?p) = 2" "half i = None" | (second) k where "half i = Some k"
    using pieces_1_2 [of B ?p] by (cases "half i") auto
  then show thesis
  proof cases
    case single
    then show ?thesis using process expected_single [OF assms(2) single] assms(1) outstanding_last that [of t "[?p]" half] by simp
  next
    case first
    have "map_of (ru_reassembly t) i = None" using assms(1) first(2) by (auto simp: collecting_def stored_def dest!: spec [of _ i])
    from first_fragment [OF this room d(3) refl, of recorder now w] obtain e where e: "half_entry B ?p j e"
        "processFrag K recorder now (fragment B i ?p j) (t, w) =
          (t\<lparr>ru_reassembly := om_upd i e (om_upd i (e\<lparr>re_receivedCount := 0, re_fragments := []\<rparr>) (ru_reassembly t)),
             ru_reassemblyBytes := ru_reassemblyBytes t + length ?d\<rparr>, w)" (is "_ = (?t, w)")
      using process first(1) by auto
    have "collecting B mtu pk (half(i \<mapsto> j)) ?t"
      using inv e d(2) by (intro collecting_upd [OF assms(1), where v = "Some e"]) (auto simp: maxFragmentPayload_def stored_def)
    then show ?thesis using e(2) expected_first [OF assms(2) first] outstanding_more that [of ?t "[]" "half(i \<mapsto> j)"] by simp
  next
    case second
    note x = expected_second [OF assms(2) second]
    obtain e where e: "map_of (ru_reassembly t) i = Some e" "half_entry B ?p (1 - j) e"
      using assms(1) second x(1) by (auto simp: collecting_def stored_def dest!: spec [of _ i])
    have "length ?p < 65536" "j < 2" using d(2,3) x(2) budget_bounds(5) [OF t(2)] t(4) by auto
    from second_fragment [OF e this(2) refl room(1) x(2) this(1), of recorder now w] obtain t' where t':
        "processFrag K recorder now (fragment B i ?p j) (t, w) = (t', w @ [?p])"
        "map_of (ru_reassembly t') = (map_of (ru_reassembly t))(i := None)" "maxFragmentPayload t' = maxFragmentPayload t"
        "ru_roomMtu t' = ru_roomMtu t" "ru_fecMode t' = ru_fecMode t" "ru_fecDecoder t' = ru_fecDecoder t"
      using process x(2) by auto
    have "collecting B mtu pk (half(i := None)) t'"
      using inv t' by (intro collecting_upd [OF assms(1), where v = None]) (auto simp: stored_def)
    then show ?thesis using t' x outstanding_last that [of t' "[?p]" "half(i := None)"] by simp
  qed
qed

lemma fragments_collected:
  assumes "collecting B mtu pk half t" "expected B mtu pk half (xs @ ys)"
  obtains t' half' out where "fold (processFrag K recorder now) (map (frag_of B pk) xs) (t, w) = (t', w @ out)"
    "collecting B mtu pk half' t'" "expected B mtu pk half' ys" "mset out + outstanding pk ys = outstanding pk (xs @ ys)"
    "ru_fecMode t' = ru_fecMode t" "ru_fecDecoder t' = ru_fecDecoder t"
  using assms
proof (induction xs arbitrary: half t w thesis)
  case Nil
  then show ?case using Nil.prems(1) [of t "[]" half] by simp
next
  case (Cons x xs)
  obtain i j where x: "x = (i, j)" by fastforce
  have e: "expected B mtu pk half ((i, j) # xs @ ys)" using Cons.prems(3) x by simp
  obtain t1 half1 out1 where s1: "processFrag K recorder now (fragment B i (pk i) j) (t, w) = (t1, w @ out1)"
    "collecting B mtu pk half1 t1" "expected B mtu pk half1 (xs @ ys)" "mset out1 + outstanding pk (xs @ ys) = outstanding pk (x # xs @ ys)"
    "ru_fecMode t1 = ru_fecMode t" "ru_fecDecoder t1 = ru_fecDecoder t"
    using fragment_step [OF Cons.prems(2) e, of K now w] x by blast
  obtain t2 half2 out2 where "fold (processFrag K recorder now) (map (frag_of B pk) xs) (t1, w @ out1) = (t2, (w @ out1) @ out2)"
    "collecting B mtu pk half2 t2" "expected B mtu pk half2 ys" "mset out2 + outstanding pk ys = outstanding pk (xs @ ys)"
    "ru_fecMode t2 = ru_fecMode t1" "ru_fecDecoder t2 = ru_fecDecoder t1"
    using Cons.IH [OF _ s1(2,3)] by blast
  then show ?case using s1 x Cons.prems(1) [of t2 "out1 @ out2" half2] by (simp add: ac_simps)
qed

section \<open>Sending many packets\<close>

text \<open>The fragments of packets sent one after the other, and what leaves the tunnel for them.\<close>

fun timed_fragments :: "nat \<Rightarrow> u16 \<Rightarrow> (u32 \<times> bytes) list \<Rightarrow> (u32 \<times> bytes) list" where
  "timed_fragments B n [] = []"
| "timed_fragments B n ((now, p) # ps) = map (Pair now) (fragments B n p) @ timed_fragments B (n + 1) ps"

definition emitted :: "cm256 \<Rightarrow> CliRawUdpTunnel \<Rightarrow> (u32 \<times> bytes) list \<Rightarrow> bytes list \<times> CliFecEncoder option" where
  "emitted K t qs =
     (if ru_fecMode t = FEC_NONE then (map snd qs, ru_fecEncoder t)
      else case ru_fecEncoder t of
        None \<Rightarrow> (map snd qs, None)
      | Some e \<Rightarrow> (case fecSend K qs e of (out, e) \<Rightarrow> (out, Some e)))"

definition with_sender :: "u16 \<Rightarrow> u32 \<Rightarrow> CliFecEncoder option \<Rightarrow> CliRawUdpTunnel \<Rightarrow> CliRawUdpTunnel" where
  "with_sender n y e t = t\<lparr>ru_nextMsgId := n, ru_lastSendTime := y, ru_fecEncoder := e\<rparr>"

lemma with_sender_simps [simp]:
  "ru_nextMsgId (with_sender n y e t) = n" "ru_fecMode (with_sender n y e t) = ru_fecMode t" "ru_fecEncoder (with_sender n y e t) = e"
  "ru_roomMtu (with_sender n y e t) = ru_roomMtu t" "mtu_ok (with_sender n y e t) = mtu_ok t" "budget (with_sender n y e t) = budget t"
  "sendable (with_sender n y e t) p = sendable t p" "rawDatagram (with_sender n y e t) = rawDatagram t" "ru_lastSendTime (with_sender n y e t) = y"
  "with_sender n y e (with_sender n' y' e' t) = with_sender n y e t" "(with_sender n y e t)\<lparr>ru_nextMsgId := m\<rparr> = with_sender m y e t"
  by (simp_all add: with_sender_def mtu_ok_def budget_def maxFragmentPayload_def sendable_def rawDatagram_def fun_eq_iff)

lemma with_sender_id: "with_sender (ru_nextMsgId t) (ru_lastSendTime t) (ru_fecEncoder t) t = t"
  by (simp add: with_sender_def)

lemma packets_sent:
  "\<exists>y' \<in> {y, now}. fold (sendRawPacket recorder now) ps (with_sender n y e t, w) = (with_sender n y' e t, w @ map (rawDatagram t) ps)"
proof (induction ps arbitrary: y w)
  case Nil
  show ?case by auto
next
  case (Cons p ps)
  have "sendRawPacket recorder now p (with_sender n y e t, w) = (with_sender n now e t, w @ [rawDatagram t p])"
    by (simp add: sendRawPacket_def) (simp add: with_sender_def)
  then show ?case using Cons [of now "w @ [rawDatagram t p]"] by simp
qed

lemma fragment_sent:
  assumes "emitted K (with_sender n y e t) [(now, fragPacket m i c l d)] = (out, e')"
  shows "\<exists>y' \<in> {y, now}. sendFragment K recorder now d i c m l (with_sender n y e t, w) = (with_sender n y' e' t, w @ map (rawDatagram t) out)"
proof (cases "ru_fecMode t = FEC_NONE \<or> e = None")
  case True
  then show ?thesis using assms packets_sent [of y now "[fragPacket m i c l d]" n e t w]
    by (auto simp: emitted_def sendFragment_def split: if_splits option.splits)
next
  case False
  then obtain e0 out0 e1 where e: "e = Some e0" "fecAddPacket K now (fragPacket m i c l d) e0 = (out0, e1)" by (metis not_None_eq surj_pair)
  have "(with_sender n y e t)\<lparr>ru_fecEncoder := Some e1\<rparr> = with_sender n y (Some e1) t" by (simp add: with_sender_def)
  then show ?thesis using False e assms packets_sent [of y now out0 n "Some e1" t w]
    by (auto simp: emitted_def sendFragment_def split: if_splits)
qed

lemma emitted_sender: "emitted K (with_sender n y e t) qs = emitted K (with_sender n' y' e t) qs"
  by (simp add: emitted_def)

lemma emitted_append:
  "emitted K (with_sender n y e t) (xs @ ys) =
     (case emitted K (with_sender n y e t) xs of (out, e') \<Rightarrow> case emitted K (with_sender n' y' e' t) ys of (out', e'') \<Rightarrow> (out @ out', e''))"
  by (auto simp: emitted_def fecSend_append split: option.split prod.split)

lemma fragments_sent:
  assumes "emitted K (with_sender n y e t) (map (\<lambda>j. (now, fragPacket m (of_nat j) c l (f j))) js) = (out, e')"
  shows "\<exists>y' \<in> {y, now}. fold (\<lambda>j. sendFragment K recorder now (f j) (of_nat j) c m l) js (with_sender n y e t, w) =
    (with_sender n y' e' t, w @ map (rawDatagram t) out)"
  using assms
proof (induction js arbitrary: y e w out e')
  case Nil
  then show ?case by (auto simp: emitted_def split: if_splits option.splits)
next
  case (Cons j js)
  obtain o1 e1 where e1: "emitted K (with_sender n y e t) [(now, fragPacket m (of_nat j) c l (f j))] = (o1, e1)" by fastforce
  obtain y1 where y1: "y1 \<in> {y, now}" "sendFragment K recorder now (f j) (of_nat j) c m l (with_sender n y e t, w) = (with_sender n y1 e1 t, w @ map (rawDatagram t) o1)"
    using fragment_sent [OF e1] by blast
  obtain o2 e2 where e2: "emitted K (with_sender n y1 e1 t) (map (\<lambda>j. (now, fragPacket m (of_nat j) c l (f j))) js) = (o2, e2)" by fastforce
  have "out = o1 @ o2 \<and> e' = e2"
    using Cons.prems emitted_append [of K n y e t "[(now, fragPacket m (of_nat j) c l (f j))]" _ n y1] e1 e2 by simp
  moreover obtain y2 where "y2 \<in> {y1, now}" "fold (\<lambda>j. sendFragment K recorder now (f j) (of_nat j) c m l) js
      (with_sender n y1 e1 t, w @ map (rawDatagram t) o1) = (with_sender n y2 e2 t, (w @ map (rawDatagram t) o1) @ map (rawDatagram t) o2)"
    using Cons.IH [OF e2] by blast
  ultimately show ?case using y1 by (intro bexI [of _ y2]) auto
qed

lemma packet_sent:
  assumes "mtu_ok t" "sendable t p" "emitted K (with_sender n y e t) (map (Pair now) (fragments (budget t) n p)) = (out, e')"
  shows "\<exists>y' \<in> {y, now}. snd (rawSend K recorder now p (with_sender n y e t, w)) = (with_sender (n + 1) y' e' t, w @ map (rawDatagram t) out)"
proof -
  have "emitted K (with_sender (n + 1) y e t) (map (Pair now) (fragments (budget t) n p)) = (out, e')"
    using assms(3) emitted_sender [of K "n + 1" y e t _ n y] by simp
  then show ?thesis using assms(1,2) rawSend_fragments [of "with_sender n y e t" p K recorder now w]
      fragments_sent [of K "n + 1" y e t now n _ _ "\<lambda>j. pieces (budget t) p ! j" "[0..<length (pieces (budget t) p)]" out e' w]
    by (simp add: fragments_def fragment_def comp_def)
qed

definition sendAll :: "cm256 \<Rightarrow> (u32 \<times> bytes) list \<Rightarrow> CliRawUdpTunnel \<times> bytes list \<Rightarrow> CliRawUdpTunnel \<times> bytes list" where
  "sendAll K ps s = fold (\<lambda>(now, p) s. snd (rawSend K recorder now p s)) ps s"

lemma packets_all_sent:
  assumes "mtu_ok t" "\<forall>(now, p) \<in> set ps. sendable t p" "emitted K (with_sender n y e t) (timed_fragments (budget t) n ps) = (out, e')"
  shows "\<exists>n'. \<exists>y' \<in> insert y (fst ` set ps). sendAll K ps (with_sender n y e t, w) = (with_sender n' y' e' t, w @ map (rawDatagram t) out)"
  using assms(2,3)
proof (induction ps arbitrary: n y e w out e')
  case Nil
  then show ?case by (auto simp: sendAll_def emitted_def split: if_splits option.splits)
next
  case (Cons q ps)
  obtain now p where q: "q = (now, p)" by fastforce
  obtain o1 e1 where e1: "emitted K (with_sender n y e t) (map (Pair now) (fragments (budget t) n p)) = (o1, e1)" by fastforce
  obtain y1 where y1: "y1 \<in> {y, now}" "snd (rawSend K recorder now p (with_sender n y e t, w)) = (with_sender (n + 1) y1 e1 t, w @ map (rawDatagram t) o1)"
    using packet_sent [OF assms(1) _ e1] Cons.prems(1) q by auto
  obtain o2 e2 where e2: "emitted K (with_sender (n + 1) y1 e1 t) (timed_fragments (budget t) (n + 1) ps) = (o2, e2)" by fastforce
  have "out = o1 @ o2 \<and> e' = e2"
    using Cons.prems(2) emitted_append [of K n y e t "map (Pair now) (fragments (budget t) n p)" _ "n + 1" y1] e1 e2 q by simp
  moreover have "\<forall>(now, p) \<in> set ps. sendable t p" using Cons.prems(1) by simp
  then obtain n2 y2 where "y2 \<in> insert y1 (fst ` set ps)"
      "sendAll K ps (with_sender (n + 1) y1 e1 t, w @ map (rawDatagram t) o1) = (with_sender n2 y2 e2 t, (w @ map (rawDatagram t) o1) @ map (rawDatagram t) o2)"
    using Cons.IH [OF _ e2] by blast
  ultimately show ?case using y1 q by (intro exI [of _ n2] bexI [of _ y2]) (auto simp: sendAll_def)
qed

section \<open>Message numbers\<close>

text \<open>The packet of each number and the names of all fragments, when the first number is \<open>n\<close>.\<close>

fun numbered :: "u16 \<Rightarrow> bytes list \<Rightarrow> u16 \<Rightarrow> bytes" where
  "numbered n [] i = []"
| "numbered n (p # ps) i = (if i = n then p else numbered (n + 1) ps i)"

fun names :: "nat \<Rightarrow> u16 \<Rightarrow> bytes list \<Rightarrow> (u16 \<times> nat) list" where
  "names B n [] = []"
| "names B n (p # ps) = map (Pair n) [0..<length (pieces B p)] @ names B (n + 1) ps"

lemma names_number: "(i, j) \<in> set (names B n ps) \<Longrightarrow> \<exists>k < length ps. i = n + of_nat k"
proof (induction ps arbitrary: n)
  case (Cons p ps)
  show ?case
  proof (cases "(i, j) \<in> set (names B (n + 1) ps)")
    case True
    with Cons.IH obtain k where "k < length ps" "i = n + 1 + of_nat k" by blast
    then show ?thesis by (intro exI [of _ "Suc k"]) simp
  qed (use Cons.prems in \<open>auto intro: exI [of _ 0]\<close>)
qed simp

lemma names_fresh: "length ps < 65535 \<Longrightarrow> (n, j) \<notin> set (names B (n + 1) ps)"
proof
  assume "length ps < 65535" "(n, j) \<in> set (names B (n + 1) ps)"
  with names_number [of n j B "n + 1" ps] obtain k where "k < length ps" and k: "n = n + 1 + of_nat k" by blast
  with \<open>length ps < 65535\<close> have "Suc k < 65536" by simp
  moreover from k have "(of_nat (Suc k) :: u16) = 0" by (simp add: add.assoc)
  ultimately show False using unat_of_nat_small [of "Suc k", where ?'a = 16] by simp
qed

lemma length_names: "length (names B n ps) \<le> 2 * length ps"
proof (induction ps arbitrary: n)
  case (Cons p ps)
  show ?case using Cons.IH [of "n + 1"] by (auto simp: pieces_def)
qed simp

lemma distinct_names: "length ps \<le> 65535 \<Longrightarrow> distinct (names B n ps)"
  by (induction ps arbitrary: n) (auto simp: distinct_map inj_on_def names_fresh)

text \<open>Prepending a packet does not change what the later numbers mean.\<close>

lemma numbered_later:
  assumes "length ps < 65535" "(i, j) \<in> set (names B (n + 1) ps)"
  shows "numbered n (p # ps) i = numbered (n + 1) ps i"
  using assms names_fresh [of ps n j B] by auto

lemma names_valid: "length ps \<le> 65535 \<Longrightarrow> (i, j) \<in> set (names B n ps) \<Longrightarrow> numbered n ps i \<in> set ps \<and> j < length (pieces B (numbered n ps i))"
proof (induction ps arbitrary: n)
  case (Cons p ps)
  show ?case
  proof (cases "(i, j) \<in> set (names B (n + 1) ps)")
    case True
    then show ?thesis using Cons.IH [of "n + 1"] Cons.prems numbered_later [of ps i j B n p] by auto
  qed (use Cons.prems in auto)
qed simp

lemma names_fragments:
  "length qs \<le> 65535 \<Longrightarrow> map snd (timed_fragments B n qs) = map (frag_of B (numbered n (map snd qs))) (names B n (map snd qs))"
proof (induction qs arbitrary: n)
  case (Cons q qs)
  obtain now p where q: "q = (now, p)" by fastforce
  have "map (frag_of B (numbered (n + 1) (map snd qs))) (names B (n + 1) (map snd qs)) =
      map (frag_of B (numbered n (p # map snd qs))) (names B (n + 1) (map snd qs))"
    using Cons.prems numbered_later [of "map snd qs" _ _ B n p] by (auto intro!: map_cong)
  moreover have "numbered n (p # map snd qs) n = p" by simp
  ultimately show ?case using Cons q by (simp add: fragments_def comp_def del: numbered.simps)
qed simp

lemma names_indices:
  "length ps \<le> 65535 \<Longrightarrow> indices i (names B n ps) = {..<length (pieces B (numbered n ps i))} \<or> indices i (names B n ps) = {}"
proof (induction ps arbitrary: n)
  case (Cons p ps)
  show ?case
  proof (cases "i = n")
    case True
    then show ?thesis using names_fresh [of ps n _ B] Cons.prems by (auto simp: indices_def)
  next
    case False
    then have "indices i (names B n (p # ps)) = indices i (names B (n + 1) ps)" by (auto simp: indices_def)
    then show ?thesis using Cons False by simp
  qed
qed (simp add: indices_def)

lemma names_outstanding: "length ps \<le> 65535 \<Longrightarrow> outstanding (numbered n ps) (names B n ps) = mset ps"
proof (induction ps arbitrary: n)
  case (Cons p ps)
  have fresh: "n \<notin> fst ` set (names B (n + 1) ps)" using names_fresh [of ps n _ B] Cons.prems by force
  have shape: "remdups (map fst (names B n (p # ps))) = n # remdups (map fst (names B (n + 1) ps))"
  proof (cases "length p \<le> B")
    case True
    then show ?thesis using fresh by (simp add: pieces_def)
  next
    case False
    then have "[0..<length (pieces B p)] = [0, 1]" by (simp add: pieces_def upt_rec)
    then show ?thesis using fresh by simp
  qed
  have "map (numbered n (p # ps)) (remdups (map fst (names B (n + 1) ps))) = map (numbered (n + 1) ps) (remdups (map fst (names B (n + 1) ps)))"
    (is "?l = ?r") using fresh by (intro map_cong) auto
  then have "outstanding (numbered n (p # ps)) (names B n (p # ps)) = add_mset p (outstanding (numbered (n + 1) ps) (names B (n + 1) ps))"
    by (simp only: outstanding_def shape list.map mset.simps numbered.simps(2) refl if_True)
  also have "\<dots> = mset (p # ps)" using Cons by simp
  finally show ?case .
qed (simp add: outstanding_def)

section \<open>Delivery\<close>

lemma names_expected:
  assumes "length ps \<le> 65535" "length (names B n ps) \<le> RAW_UDP_MAX_ACTIVE_MESSAGES" "\<forall>p \<in> set ps. 6 \<le> length p \<and> length p \<le> unat mtu"
    "mset xs = mset (names B n ps)"
  shows "expected B mtu (numbered n ps) (\<lambda>_. None) xs" "outstanding (numbered n ps) xs = mset ps"
proof -
  have sets: "set xs = set (names B n ps)" "length xs = length (names B n ps)"
    using assms(4) by (auto dest: mset_eq_setD mset_eq_length)
  have "distinct xs" using distinct_names [OF assms(1), of B n] assms(4) mset_eq_imp_distinct_iff by blast
  moreover have "balanced (length (pieces B (numbered n ps i))) None (indices i xs)" for i
  proof -
    have "indices i xs = indices i (names B n ps)" by (simp only: indices_def sets)
    with names_indices [OF assms(1), of i B n] show ?thesis by (elim disjE) (simp_all add: balanced_def)
  qed
  moreover have "6 \<le> length (numbered n ps i) \<and> length (numbered n ps i) \<le> unat mtu \<and> j < length (pieces B (numbered n ps i))"
    if "(i, j) \<in> set xs" for i j using names_valid [OF assms(1), of i j B n] that assms(3) unfolding sets by blast
  ultimately show "expected B mtu (numbered n ps) (\<lambda>_. None) xs" using assms(2) sets(2) by (auto simp: expected_def)
  have "mset (remdups (map fst xs)) = mset (remdups (map fst (names B n ps)))"
    using sets(1) by (intro set_eq_iff_mset_remdups_eq [THEN iffD1]) simp
  then show "outstanding (numbered n ps) xs = mset ps"
    using names_outstanding [OF assms(1), of n B] by (simp add: outstanding_def)
qed

text \<open>A list that is a permutation of mapped values is a mapped permutation.\<close>

lemma mset_mapD: "mset xs = mset (map f ys) \<Longrightarrow> \<exists>zs. xs = map f zs \<and> mset zs = mset ys"
proof (induction xs arbitrary: ys)
  case (Cons x xs)
  then have "x \<in> set (map f ys)" by (metis list.set_intros(1) mset_eq_setD)
  then obtain y where y: "y \<in> set ys" "x = f y" by auto
  then have "mset ys = add_mset y (mset (remove1 y ys))" by simp
  with Cons.prems y have "mset xs = mset (map f (remove1 y ys))" by (simp del: mset_remove1)
  with Cons.IH obtain zs where "xs = map f zs" "mset zs = mset (remove1 y ys)" by blast
  then show ?case using y by (intro exI [of _ "y # zs"]) simp
qed simp

definition receiver_for :: "CliRawUdpTunnel \<Rightarrow> CliRawUdpTunnel \<Rightarrow> bool" where
  "receiver_for s r \<longleftrightarrow> ru_roomMtu r = ru_roomMtu s \<and> ru_fecMode r = ru_fecMode s \<and> ru_secureFrames r = ru_secureFrames s \<and>
     ru_reassembly r = [] \<and> ru_reassemblyBytes r = 0 \<and> ru_fecDecoder r = (if ru_fecMode r = FEC_NONE then None else Some newFecDecoder)"

definition feedRaw :: "cm256 \<Rightarrow> (u32 \<times> bytes) list \<Rightarrow> CliRawUdpTunnel \<times> bytes list \<Rightarrow> CliRawUdpTunnel \<times> bytes list" where
  "feedRaw K arrivals s = fold (\<lambda>a. rawFeedInput K recorder (fst a) (snd a)) arrivals s"

text \<open>The datagrams arrive with the relay header, which the tunnel manager takes off.\<close>

definition feedAll :: "cm256 \<Rightarrow> (u32 \<times> bytes) list \<Rightarrow> CliRawUdpTunnel \<times> bytes list \<Rightarrow> CliRawUdpTunnel \<times> bytes list" where
  "feedAll K arrivals s = feedRaw K (map (apsnd (drop sizeof_UdpRelayHeader)) arrivals) s"

lemma feedRaw_simps [simp]: "feedRaw K [] s = s" "feedRaw K (a # as) s = feedRaw K as (rawFeedInput K recorder (fst a) (snd a) s)"
  by (simp_all add: feedRaw_def)

lemma drop_rawDatagram: "ru_relayMode t \<Longrightarrow> drop 10 (rawDatagram t p) = p"
  by (simp add: rawDatagram_def be32_def)

lemma receiver_collecting:
  assumes "mtu_ok s" "receiver_for s r"
  shows "collecting (budget s) (ru_roomMtu s) pk (\<lambda>_. None) r"
  using assms by (auto simp: receiver_for_def collecting_def raw_inv_def cache_exact_def stored_def mtu_ok_def budget_def
      maxFragmentPayload_def fec_inv_def newFecDecoder_def)

lemma collecting_cong:
  assumes "collecting B mtu pk half t" "receiving t' = receiving t"
  shows "collecting B mtu pk half t'"
  using assms raw_inv_cong [of t' t] by (auto simp: collecting_def receiving_def mtu_ok_def budget_def maxFragmentPayload_def)

lemma nothing_left:
  assumes "collecting B mtu pk half t" "expected B mtu pk half []"
  shows "ru_reassembly t = [] \<and> ru_reassemblyBytes t = 0 \<and> half = (\<lambda>_. None)"
proof -
  have "half i = None" for i
    using assms(2) by (cases "half i") (auto simp: expected_def balanced_def indices_def dest!: spec [of _ i] split: if_splits)
  then have none: "half = (\<lambda>_. None)" by auto
  then show ?thesis using collecting_table [OF assms(1)] by simp
qed

lemma plain_feed:
  assumes "collecting B mtu pk half t" "expected B mtu pk half xs" "ru_fecMode t = FEC_NONE"
    "map snd arrivals = map (frag_of B pk) xs"
  obtains t' out where "feedRaw K arrivals (t, w) = (t', w @ out)"
    "ru_reassembly t' = []" "ru_reassemblyBytes t' = 0" "mset out = outstanding pk xs"
  using assms
proof (induction xs arbitrary: half t w arrivals thesis)
  case Nil
  then show ?case using nothing_left [OF Nil.prems(2,3)] Nil.prems(1) [of t "[]"] by (simp add: outstanding_def)
next
  case (Cons x xs)
  obtain i j where x: "x = (i, j)" by fastforce
  obtain now rest where a: "arrivals = (now, fragment B i (pk i) j) # rest" "map snd rest = map (frag_of B pk) xs"
    using Cons.prems(5) x by (cases arrivals) auto
  let ?t = "t\<lparr>ru_lastRecvTime := now, ru_dead := False\<rparr>"
  have "collecting B mtu pk half ?t" using Cons.prems(2) by (rule collecting_cong) simp
  from fragment_step [OF this Cons.prems(3) [unfolded x], of K now w] obtain t1 half1 out1 where
    s1: "processFrag K recorder now (fragment B i (pk i) j) (?t, w) = (t1, w @ out1)" "collecting B mtu pk half1 t1"
      "expected B mtu pk half1 xs" "mset out1 + outstanding pk xs = outstanding pk ((i, j) # xs)" "ru_fecMode t1 = ru_fecMode ?t" by blast
  have "rawFeedInput K recorder now (fragment B i (pk i) j) (t, w) = (t1, w @ out1)"
    using s1(1) Cons.prems(4) by (simp add: rawFeedInput_def Let_def fragment_def fragPacket_def)
  moreover have m1: "ru_fecMode t1 = FEC_NONE" using s1(5) Cons.prems(4) by simp
  moreover obtain t2 out2 where "feedRaw K rest (t1, w @ out1) = (t2, (w @ out1) @ out2)"
    "ru_reassembly t2 = []" "ru_reassemblyBytes t2 = 0" "mset out2 = outstanding pk xs"
    using Cons.IH [OF _ s1(2,3) m1 a(2), of "w @ out1"] by blast
  ultimately show ?case using Cons.prems(1) [of t2 "out1 @ out2"] a x s1(4) by simp
qed

lemma fec_feed:
  assumes "collecting B mtu pk half t" "expected B mtu pk half xs" "ru_fecMode t \<noteq> FEC_NONE" "ru_fecDecoder t = Some d"
    "fst (fecFeed K arrivals d) = map (frag_of B pk) xs"
  obtains t' out where "feedRaw K arrivals (t, w) = (t', w @ out)"
    "ru_reassembly t' = []" "ru_reassemblyBytes t' = 0" "mset out = outstanding pk xs"
  using assms
proof (induction arrivals arbitrary: half t w d xs thesis)
  case Nil
  then have "xs = []" by simp
  then show ?case using nothing_left [of B mtu pk half t] Nil.prems by (simp add: outstanding_def)
next
  case (Cons a rest)
  obtain now data where a: "a = (now, data)" by fastforce
  obtain o1 d1 where r: "fecReceive K now data d = (o1, d1)" by fastforce
  have "o1 @ fst (fecFeed K rest d1) = map (frag_of B pk) xs" using Cons.prems(6) a r by (simp split: prod.splits)
  from map_eq_append_conv [THEN iffD1, OF this [symmetric]] obtain xs1 xs2 where xs: "xs = xs1 @ xs2" "o1 = map (frag_of B pk) xs1"
      "fst (fecFeed K rest d1) = map (frag_of B pk) xs2" by metis
  define t0 where "t0 = (if data = [] then t else t\<lparr>ru_lastRecvTime := now, ru_dead := False, ru_fecDecoder := Some d1\<rparr>)"
  have t0: "ru_fecMode t0 = ru_fecMode t" "ru_fecDecoder t0 = Some d1"
    using r Cons.prems(5) by (auto simp: t0_def fecReceive_def)
  have "fec_inv d1" using Cons.prems(2,5) fecReceive_inv [of d K now data] r by (simp add: collecting_def raw_inv_def)
  then have "collecting B mtu pk half t0"
    using Cons.prems(2) by (auto simp: t0_def collecting_def raw_inv_def mtu_ok_def budget_def maxFragmentPayload_def)
  from fragments_collected [OF this, of xs1 xs2 K now w] Cons.prems(3) xs(1) obtain t1 half1 out1 where
    s1: "fold (processFrag K recorder now) o1 (t0, w) = (t1, w @ out1)" "collecting B mtu pk half1 t1" "expected B mtu pk half1 xs2"
      "mset out1 + outstanding pk xs2 = outstanding pk xs" "ru_fecMode t1 = ru_fecMode t0" "ru_fecDecoder t1 = ru_fecDecoder t0"
    unfolding xs(2) by blast
  have o1: "data = [] \<Longrightarrow> o1 = []" using r by (auto simp: fecReceive_def)
  have "rawFeedInput K recorder now data (t, w) = (t1, w @ out1)"
    using s1(1) o1 r Cons.prems(4,5) by (auto simp: rawFeedInput_def Let_def t0_def)
  moreover have "ru_fecMode t1 \<noteq> FEC_NONE" "ru_fecDecoder t1 = Some d1" using s1(5,6) t0 Cons.prems(4) by simp_all
  moreover obtain t2 out2 where "feedRaw K rest (t1, w @ out1) = (t2, (w @ out1) @ out2)"
    "ru_reassembly t2 = []" "ru_reassemblyBytes t2 = 0" "mset out2 = outstanding pk xs2"
    using Cons.IH [OF _ s1(2,3) \<open>ru_fecMode t1 \<noteq> FEC_NONE\<close> \<open>ru_fecDecoder t1 = Some d1\<close> xs(3), of "w @ out1"] by blast
  ultimately show ?case using Cons.prems(1) [of t2 "out1 @ out2"] a s1(4) by simp
qed

definition packets_ok :: "CliRawUdpTunnel \<Rightarrow> (u32 \<times> bytes) list \<Rightarrow> bool" where
  "packets_ok s ps \<longleftrightarrow> (\<forall>(now, p) \<in> set ps. 6 \<le> length p \<and> length p \<le> unat (ru_roomMtu s))"

lemma packets_ok_sendable: "packets_ok s ps \<Longrightarrow> \<forall>(now, p) \<in> set ps. sendable s p"
  by (force simp: packets_ok_def sendable_def)


definition demo_tunnel :: "FecMode \<Rightarrow> CliRawUdpTunnel" where
  "demo_tunnel mode = rawSetRelayMode 3 4 (newRawUdpTunnel 100 0x7F000001 9000 mode 1400 TRAFFIC_UDP True)"

lemma demo_tunnel_ok: "mtu_ok (demo_tunnel mode)" "ru_relayMode (demo_tunnel mode)" "ru_fecMode (demo_tunnel mode) = mode"
  "receiver_for (demo_tunnel mode) (demo_tunnel mode)" "unat (ru_roomMtu (demo_tunnel mode)) = 1400"
  by (simp_all add: demo_tunnel_def mtu_ok_def newRawUdpTunnel_def rawSetRelayMode_def receiver_for_def normalizeRoomMtu_def isValidRoomMtuValue_def)


text \<open>A burst of packets, and the update that closes the FEC group.\<close>

definition sendBurst :: "cm256 \<Rightarrow> u32 \<Rightarrow> bytes list \<Rightarrow> CliRawUdpTunnel \<times> bytes list \<Rightarrow> CliRawUdpTunnel \<times> bytes list" where
  "sendBurst K now ps s = rawUpdate K recorder now (sendAll K (map (Pair now) ps) s)"

definition quiet_since :: "u32 \<Rightarrow> CliRawUdpTunnel \<Rightarrow> bool" where
  "quiet_since now t \<longleftrightarrow> \<not> now - ru_lastRecvTime t > RAW_UDP_DEAD_TIMEOUT_MS \<and> \<not> now - ru_lastSendTime t > RAW_UDP_KEEPALIVE_MS"

lemma burst_sent:
  assumes "mtu_ok s" "ru_fecMode s = mode" "mode \<noteq> FEC_NONE" "ru_fecEncoder s = Some (newFecEncoder mode)" "quiet_since now s"
    "packets_ok s (map (Pair now) ps)"
  shows "snd (sendBurst K now ps (s, [])) =
    map (rawDatagram s) (fec_group K mode (timed_fragments (budget s) (ru_nextMsgId s) (map (Pair now) ps)))"
proof -
  let ?qs = "timed_fragments (budget s) (ru_nextMsgId s) (map (Pair now) ps)"
  obtain out e where f: "fecSend K ?qs (newFecEncoder mode) = (out, e)" by fastforce
  obtain out' e' where u: "fecUpdate K e = (out', e')" by fastforce
  have "emitted K (with_sender (ru_nextMsgId s) (ru_lastSendTime s) (ru_fecEncoder s) s) ?qs = (out, Some e)"
    using f assms(2-4) by (simp add: emitted_def)
  from packets_all_sent [OF assms(1) packets_ok_sendable [OF assms(6)] this, of "[]"] obtain n' y' where
    y': "y' \<in> insert (ru_lastSendTime s) (fst ` set (map (Pair now) ps))"
      "sendAll K (map (Pair now) ps) (s, []) = (with_sender n' y' (Some e) s, [] @ map (rawDatagram s) out)"
    unfolding with_sender_id by blast
  have recv: "ru_lastRecvTime (with_sender n' y' (Some e) s) = ru_lastRecvTime s" by (simp add: with_sender_def)
  have "\<not> now - y' > RAW_UDP_KEEPALIVE_MS" using y'(1) assms(5) by (auto simp: quiet_since_def)
  then have keep: "rawKeepalive K recorder now (with_sender n' y' (Some e) s, w) = (with_sender n' y' (Some e) s, w)" for w
    by (simp add: rawKeepalive_def)
  obtain y2 where "fold (sendRawPacket recorder now) out' (with_sender n' y' (Some e') s, map (rawDatagram s) out) =
      (with_sender n' y2 (Some e') s, map (rawDatagram s) out @ map (rawDatagram s) out')"
    using packets_sent by blast
  moreover have "(with_sender n' y' (Some e) s)\<lparr>ru_fecEncoder := Some e'\<rparr> = with_sender n' y' (Some e') s" by (simp add: with_sender_def)
  ultimately have "snd (rawFlushEncoder K recorder now (with_sender n' y' (Some e) s, map (rawDatagram s) out)) =
      map (rawDatagram s) out @ map (rawDatagram s) out'"
    using u by (simp add: rawFlushEncoder_def)
  then have "snd (sendBurst K now ps (s, [])) = map (rawDatagram s) (out @ out')"
    using y'(2) recv keep assms(5) by (auto simp: sendBurst_def rawUpdate_def quiet_since_def split: prod.split)
  then show ?thesis using f u by (simp add: fec_group_def)
qed

lemma inj_rawDatagram: "ru_relayMode t \<Longrightarrow> inj (rawDatagram t)"
  by (auto simp: rawDatagram_def inj_def)

lemma fragments_sizes:
  assumes "mtu_ok s" "packets_ok s ps" "(now, q) \<in> set (timed_fragments (budget s) n ps)"
  shows "0 < length q" "length q \<le> 1426"
proof -
  have "\<exists>m p j. q = fragment (budget s) m p j \<and> j < length (pieces (budget s) p) \<and> length p \<le> unat (ru_roomMtu s)"
    using assms(2,3)
  proof (induction ps arbitrary: n)
    case (Cons a ps)
    then show ?case by (cases a) (fastforce simp: fragments_def packets_ok_def)
  qed simp
  then obtain m p j where q: "q = fragment (budget s) m p j" "j < length (pieces (budget s) p)" "length p \<le> unat (ru_roomMtu s)" by blast
  then have "length q = 6 + length (pieces (budget s) p ! j)" unfolding fragment_def by (simp only: header_frag(8))
  then show "0 < length q" "length q \<le> 1426" using pieces_short [OF q(2)] q(3) budget_bounds(5) [OF assms(1)] by linarith+
qed

lemma fold_max_le: "\<forall>x \<in> set xs. x \<le> k \<Longrightarrow> a \<le> k \<Longrightarrow> fold max xs a \<le> (k :: nat)"
  by (induction xs arbitrary: a) auto

lemma timed_count:
  "length (timed_fragments B n (map (Pair now) ps)) = length (names B n ps)" "length ps \<le> length (names B n ps)"
proof -
  show "length (timed_fragments B n (map (Pair now) ps)) = length (names B n ps)"
    by (induction ps arbitrary: n) (simp_all add: fragments_def)
  show "length ps \<le> length (names B n ps)"
  proof (induction ps arbitrary: n)
    case (Cons p ps)
    have "1 \<le> length (pieces B p)" using pieces_1_2 [of B p] by auto
    then show ?case using Cons.IH [of "n + 1"] by simp
  qed simp
qed

text \<open>What the decoder makes of the datagrams that arrive.\<close>

lemma received_group:
  fixes s ps n
  defines "qs \<equiv> timed_fragments (budget s) n ps"
  defines "N \<equiv> length qs"
  assumes "mtu_ok s" "ru_relayMode s" "packets_ok s ps" "qs \<noteq> []" "N \<le> FEC_GROUP_SIZE" "mode \<noteq> FEC_NONE"
    "\<forall>bb. cm256_recovers K N (nat (fecParityCount mode (int N))) bb"
    "set (map snd arrivals) \<subseteq> set (map (rawDatagram s) (fec_group K mode qs))" "N \<le> card (set (map snd arrivals))"
  shows "mset (fst (fecFeed K (map (apsnd (drop sizeof_UdpRelayHeader)) arrivals) newFecDecoder)) = mset (map snd qs)"
proof -
  let ?got = "map (apsnd (drop sizeof_UdpRelayHeader)) arrivals" and ?bb = "2 + fold max (map (length \<circ> snd) qs) 0"
  let ?M = "nat (fecParityCount mode (int N))"
  have sizes: "0 < length (snd q) \<and> length (snd q) \<le> 1426" if "q \<in> set qs" for q
    using fragments_sizes [OF assms(3,5), of "fst q" "snd q" n] that by (simp add: qs_def)
  have "fold max (map (length \<circ> snd) qs) 0 \<le> 1426" using sizes by (intro fold_max_le) auto
  moreover have "N + ?M \<le> 30" using parity_bounds(2) [OF assms(8), of N] assms(6,7) by (cases "N = 0") (auto simp: N_def)
  ultimately have "(N + ?M) * ?bb \<le> 30 * 1428" by (intro mult_le_mono) auto
  then have fits: "(N + ?M) * ?bb \<le> FEC_MAX_BUFFERED_BYTES" by simp
  have strip: "set (map snd ?got) = drop 10 ` set (map snd arrivals)" by (simp add: image_image)
  have inv: "drop 10 ` rawDatagram s ` X = X" for X by (simp add: image_image drop_rawDatagram [OF assms(4)])
  have "set (map snd ?got) \<subseteq> set (fec_group K mode qs)"
    unfolding strip using image_mono [OF assms(10), of "drop 10"] inv [of "set (fec_group K mode qs)"] by simp
  moreover have "inj_on (drop 10) (set (map snd arrivals))"
    by (rule inj_on_inverseI [where g = "rawDatagram s"]) (use assms(10) in \<open>auto simp: drop_rawDatagram [OF assms(4)]\<close>)
  then have "N \<le> card (set (map snd ?got))" unfolding strip using assms(11) by (simp add: card_image)
  moreover have "\<forall>(t, p) \<in> set qs. 0 < length p \<and> length p < 65536" using sizes by fastforce
  ultimately show ?thesis using assms(6-9) fits by (intro fec_recovers [of qs mode K ?got, folded N_def]) auto
qed



end
