(* ===== verification/Cli_Overlay.thy ===== *)
theory Cli_Overlay
  imports Cli_AppSafety Cli_RawDelivery
begin

text \<open>
  An overlay packet from one adapter to the other: the tunnel managers of two members of a room
  with a raw UDP transport between them, and the relay server, which opens a datagram of the
  one session and seals the same text for the other.
\<close>

section \<open>A transport between two members\<close>

definition can_send :: "('k, 'a) CliTunnelManager_scheme \<Rightarrow> bool" where
  "can_send m \<longleftrightarrow> owned (shape m) \<and> running m \<and> tm_udpFd m \<noteq> SOCK_INVALID \<and> tm_secureSessionId m \<noteq> 0 \<and>
     length (tm_secureMaster m) = SECURE_KEY_SIZE \<and> sc_initialized (tm_udpCipher m)"

definition relay_tunnel :: "u32 \<Rightarrow> u32 \<Rightarrow> u8 \<Rightarrow> u16 \<Rightarrow> CliRawUdpTunnel \<Rightarrow> bool" where
  "relay_tunnel src dst cls mtu t \<longleftrightarrow> ru_relayMode t \<and> ru_relaySrcPeerId t = src \<and> ru_relayDstPeerId t = dst \<and> ru_trafficClass t = cls \<and>
     ru_fecMode t = FEC_NONE \<and> ru_roomMtu t = mtu \<and> ru_secureFrames t \<and> mtu_ok t"

text \<open>
  \<open>linked m i vip cls a x t\<close>: the manager has, at address \<open>a\<close>, the peer \<open>i\<close> with that virtual address,
  and for the class the relay tunnel \<open>t\<close> to it, at address \<open>x\<close>.
\<close>

definition linked :: "('k, 'a) CliTunnelManager_scheme \<Rightarrow> u32 \<Rightarrow> u32 \<Rightarrow> u8 \<Rightarrow> nat \<Rightarrow> nat \<Rightarrow> CliRawUdpTunnel \<Rightarrow> bool" where
  "linked m i vip cls a x t \<longleftrightarrow> can_send m \<and> cls \<in> {TRAFFIC_TCP, TRAFFIC_UDP} \<and> tm_tun m \<noteq> None \<and>
     map_of (tm_peerById m) i = Some a \<and> map_of (tm_peerByVIP m) vip = Some a \<and>
     (\<exists>p. map_of (tm_peers m) a = Some p \<and> pc_peerId p = i \<and> pc_virtualIP p = vip \<and>
        pcTransport cls p = TRANSPORT_RELAY_RAW_UDP \<and> pc_rawUdpTunnel p ! unat cls = Some x) \<and>
     map_of (tm_rawByPeerClass m) (tunnelKey i cls) = Some x \<and>
     (\<exists>r. map_of (tm_raws m) x = Some r \<and> ro_tunnel r = t \<and> ro_peer r = a \<and> ro_cls r = cls) \<and>
     relay_tunnel (tm_myPeerId m) i cls (tm_roomMtu m) t"

section \<open>Sending\<close>

lemma report_keeps [simp]:
  "tm_io (reportSend now target tr ok m) = tm_io m" "tm_udpCipher (reportSend now target tr ok m) = tm_udpCipher m"
  "tm_dataPlaneState (reportSend now target tr ok m) = tm_dataPlaneState m"
  by (simp_all add: reportSend_def modPeer_def faulted_def split: option.split prod.split)

lemma drop_keeps [simp]:
  "tm_io (recordPacketDrop now reason m) = tm_io m" "tm_udpCipher (recordPacketDrop now reason m) = tm_udpCipher m"
  "tm_dataPlaneState (recordPacketDrop now reason m) = tm_dataPlaneState m"
  by (simp_all add: recordPacketDrop_def Let_def)

abbreviation (input) sealed_text :: "crypto \<Rightarrow> u32 \<Rightarrow> bytes \<Rightarrow> bytes \<Rightarrow> u64 \<Rightarrow> bytes \<Rightarrow> bytes" where
  "sealed_text C sid key seed ctr msg \<equiv> UDP_ENCRYPTED # writeU32BE sid @ sealed C key seed ctr msg []"

lemma udpSend_sealed:
  assumes "can_send m" "sc_sendCounter (tm_udpCipher m) \<noteq> -1"
  defines "c \<equiv> tm_udpCipher m"
  shows "tm_io (udpSend E data ip port m) =
      tm_io m @ [SendTo (sealed_text (te_crypto E) (tm_secureSessionId m) (sc_sendKey c) (sc_sendNonceSeed c) (sc_sendCounter c) data) ip port]"
    and "tm_udpCipher (udpSend E data ip port m) = c\<lparr>sc_sendCounter := sc_sendCounter c + 1\<rparr>"
    and "can_send (udpSend E data ip port m)"
proof -
  let ?C = "te_crypto E"
  have r: "tm_dataPlaneState m = Running" "tm_securityMode m = Secure" "tm_udpFd m \<noteq> SOCK_INVALID" "tm_secureSessionId m \<noteq> 0"
      "length (tm_secureMaster m) = SECURE_KEY_SIZE" "sc_initialized c"
    using assms(1) by (simp_all add: can_send_def running_def dataPlaneAllowsTraffic_def c_def)
  obtain cipher mac where l: "cr_aead_lock ?C (sc_sendKey c) (buildNonce (sc_sendNonceSeed c) (sc_sendCounter c)) [] data = (cipher, mac)" by fastforce
  have e: "encryptFrame ?C data [] c = (be64 (sc_sendCounter c) @ cipher @ mac, c\<lparr>sc_sendCounter := sc_sendCounter c + 1\<rparr>)"
    using r(6) assms(2) l by (simp add: encryptFrame_def Let_def writeU64BE_be64 c_def)
  have ne: "be64 (sc_sendCounter c) @ cipher @ mac \<noteq> []" by (simp add: be64_def)
  show io: "tm_io (udpSend E data ip port m) =
      tm_io m @ [SendTo (sealed_text ?C (tm_secureSessionId m) (sc_sendKey c) (sc_sendNonceSeed c) (sc_sendCounter c) data) ip port]"
    and ci: "tm_udpCipher (udpSend E data ip port m) = c\<lparr>sc_sendCounter := sc_sendCounter c + 1\<rparr>"
    using r ne e [unfolded c_def] by (auto simp: udpSend_def Let_def dataPlaneAllowsTraffic_def emit_io_def sealed_def l [unfolded c_def] c_def split: prod.split)
  have st: "tm_dataPlaneState (udpSend E data ip port m) = Running"
    using r ne e [unfolded c_def] by (auto simp: udpSend_def Let_def dataPlaneAllowsTraffic_def emit_io_def split: prod.split)
  have "flow ?C m (udpSend E data ip port m)" by (rule flow_udpSend) (use assms(1) in \<open>simp add: can_send_def\<close>)
  then show "can_send (udpSend E data ip port m)"
    using assms(1) st by (auto simp: can_send_def flow_def configuration_def running_def dataPlaneAllowsTraffic_def)
qed

lemma udpSends_sealed:
  assumes "can_send m" "unat (sc_sendCounter (tm_udpCipher m)) + length msgs < 2 ^ 64"
  defines "c \<equiv> tm_udpCipher m"
  shows "tm_io (fold (\<lambda>msg. udpSend E msg ip port) msgs m) =
      tm_io m @ map (\<lambda>(j, msg). SendTo (sealed_text (te_crypto E) (tm_secureSessionId m) (sc_sendKey c) (sc_sendNonceSeed c) (sc_sendCounter c + of_nat j) msg) ip port)
        (enumerate 0 msgs)"
  using assms(1,2) unfolding c_def
proof (induction msgs arbitrary: m)
  case (Cons msg msgs)
  let ?c = "tm_udpCipher m" and ?m = "udpSend E msg ip port m"
  have ne: "sc_sendCounter ?c \<noteq> -1" using Cons.prems(2) by (auto simp: unsigned_minus_1_eq_mask mask_eq_exp_minus_1)
  note s = udpSend_sealed [OF Cons.prems(1) ne, of E msg ip port]
  have n: "unat (sc_sendCounter ?c + 1) = Suc (unat (sc_sendCounter ?c))" using ne by (rule unat_plus_one)
  have "flow (te_crypto E) m ?m" by (rule flow_udpSend) (use Cons.prems(1) in \<open>simp add: can_send_def\<close>)
  then have sid: "tm_secureSessionId ?m = tm_secureSessionId m" by (simp add: flow_def configuration_def)
  show ?case using Cons.IH [OF s(3)] Cons.prems(2) s(1,2) n sid
    by (simp add: enumerate_Suc_eq [of 0] comp_def case_prod_unfold add.assoc)
qed simp

lemma rawDatagram_times [simp]: "rawDatagram (t\<lparr>ru_lastSendTime := a\<rparr>) = rawDatagram t" "rawDatagram (t\<lparr>ru_nextMsgId := i\<rparr>) = rawDatagram t"
  by (simp_all add: rawDatagram_def fun_eq_iff)

lemma fragments_sent_plain:
  assumes "ru_fecMode t = FEC_NONE"
  shows "snd (fold (\<lambda>j. sendFragment K cb now (f j) (g j) n mid l) js (t, w)) =
    fold (\<lambda>j. rc_udpSend cb (rawDatagram t (fragPacket mid (g j) n l (f j))) (ru_peerIP t) (ru_peerPort t)) js w"
  using assms
proof (induction js arbitrary: t w)
  case (Cons j js)
  let ?t = "t\<lparr>ru_lastSendTime := now\<rparr>"
  have "sendFragment K cb now (f j) (g j) n mid l (t, w) = (?t, rc_udpSend cb (rawDatagram t (fragPacket mid (g j) n l (f j))) (ru_peerIP t) (ru_peerPort t) w)"
    using Cons.prems by (simp add: sendFragment_def sendRawPacket_def)
  then show ?case using Cons.IH [of ?t] Cons.prems by simp
qed simp

lemma packet_texts:
  assumes "relay_tunnel src dst cls mtu t" "p \<noteq> []" "length p \<le> unat mtu"
  shows "fst (rawSend K cb now p (t, w)) = int (length p)"
    and "snd (snd (rawSend K cb now p (t, w))) =
      fold (\<lambda>msg. rc_udpSend cb msg (ru_peerIP t) (ru_peerPort t)) (map (\<lambda>f. rawDatagram t f) (fragments (budget t) (ru_nextMsgId t) p)) w"
proof -
  have t: "mtu_ok t" "sendable t p" "ru_fecMode t = FEC_NONE" using assms by (simp_all add: relay_tunnel_def sendable_def)
  note s = rawSend_fragments [OF t(1,2), of K cb now w]
  show "fst (rawSend K cb now p (t, w)) = int (length p)" unfolding s by simp
  show "snd (snd (rawSend K cb now p (t, w))) =
      fold (\<lambda>msg. rc_udpSend cb msg (ru_peerIP t) (ru_peerPort t)) (map (\<lambda>f. rawDatagram t f) (fragments (budget t) (ru_nextMsgId t) p)) w"
    unfolding s using t(3) by (simp add: fragments_sent_plain fragments_def fold_map comp_def fragment_def)
qed

lemma route_sealed:
  assumes L: "linked m i vip cls a x t" and v: "overlayIsValid (validateOutboundOverlayIpv4 (Some p) (tm_roomMtu m) (tm_myVirtualIP m))"
    and dst: "extractDstIP p = vip" "\<not> isBroadcast vip" "vip \<noteq> VNET_BROADCAST" "trafficClassFromIpPacket p = cls"
    and ctr: "unat (sc_sendCounter (tm_udpCipher m)) + 2 < 2 ^ 64"
  defines "c \<equiv> tm_udpCipher m" and "msgs \<equiv> map (rawDatagram t) (fragments (budget t) (ru_nextMsgId t) p)"
  shows "tm_io (routeFromTun E p m) = tm_io m @
      map (\<lambda>(j, msg). SendTo (sealed_text (te_crypto E) (tm_secureSessionId m) (sc_sendKey c) (sc_sendNonceSeed c) (sc_sendCounter c + of_nat j) msg)
         (ru_peerIP t) (ru_peerPort t)) (enumerate 0 msgs)"
proof -
  obtain q r where q: "map_of (tm_peers m) a = Some q" "pcTransport cls q = TRANSPORT_RELAY_RAW_UDP" "pc_rawUdpTunnel q ! unat cls = Some x"
    and r: "map_of (tm_raws m) x = Some r" "ro_tunnel r = t" using L by (auto simp: linked_def)
  have c: "cls \<in> {TRAFFIC_TCP, TRAFFIC_UDP}" and cs: "can_send m" and rt: "relay_tunnel (tm_myPeerId m) i cls (tm_roomMtu m) t"
    and vip: "map_of (tm_peerByVIP m) vip = Some a" using L by (simp_all add: linked_def)
  have len: "20 \<le> length p" "length p \<le> unat (tm_roomMtu m)"
  proof -
    have "tm_roomMtu m = 1280 \<or> tm_roomMtu m = 1400 \<or> tm_roomMtu m = 1420" using rt by (auto simp: relay_tunnel_def mtu_ok_def)
    then have "normalizeRoomMtu (uint (tm_roomMtu m)) = tm_roomMtu m" by (auto simp: normalizeRoomMtu_def isValidRoomMtuValue_def)
    then show "20 \<le> length p" "length p \<le> unat (tm_roomMtu m)" using v by (auto simp: validateOutbound_iff structure_none_iff)
  qed
  then have p: "p \<noteq> []" by auto
  obtain n t' m' where s: "rawSend (te_cm256 E) (rawSender E) (te_now E) p (t, m) = (n, t', m')" by (metis prod_cases3)
  have n: "n = int (length p)" and m': "m' = fold (\<lambda>msg. udpSend E msg (ru_peerIP t) (ru_peerPort t)) msgs m"
    using packet_texts [OF rt p len(2), of "te_cm256 E" "rawSender E" "te_now E" m] s by (simp_all add: rawSender_def msgs_def)
  have "length msgs \<le> 2" using pieces_1_2 [of "budget t" p] by (auto simp: msgs_def fragments_def)
  then have io: "tm_io m' = tm_io m @ map (\<lambda>(j, msg). SendTo (sealed_text (te_crypto E) (tm_secureSessionId m) (sc_sendKey c) (sc_sendNonceSeed c)
        (sc_sendCounter c + of_nat j) msg) (ru_peerIP t) (ru_peerPort t)) (enumerate 0 msgs)"
    using udpSends_sealed [OF cs, of msgs E] ctr unfolding m' c_def by simp
  have "sendPeerData E a p m = (n, setRawTunnel x t' m')"
    using q r s dst(4) classIndex_known [OF c] by (simp add: sendPeerData_def Let_def pcTransport_def rawSendAt_def)
  then have "routeToPeer E a p m = setRawTunnel x t' m'" using n p by (simp add: routeToPeer_def)
  then have "routeFromTun E p m = setRawTunnel x t' m'"
    using cs v dst vip by (simp add: routeFromTun_def can_send_def running_def Let_def)
  then show ?thesis using io by (simp add: setRawTunnel_def)
qed

section \<open>Receiving\<close>

lemma readU32BE_be32 [simp]: "readU32BE (be32 v @ ys) = v" "readU32BE (writeU32BE v @ ys) = v"
  by (simp_all add: readU32BE_def be32_def writeU32BE_def join32)

lemma sealed_size: "aead_correct C \<Longrightarrow> length (sealed C key seed ctr plain ad) = 24 + length plain"
  using aead_correctD [of C, where k = key and n = "buildNonce seed ctr" and ad = ad and p = plain] by (auto simp: sealed_def be64_def split: prod.splits)

text \<open>A datagram that the server sealed for this session is opened, and the window moves on.\<close>

lemma datagram_opened:
  assumes C: "aead_correct (te_crypto E)" and r: "running m" "sc_initialized (tm_udpCipher m)"
    and w: "window_rel acc (tm_udpCipher m)" "window_fresh acc (unat ctr)" and "plain \<noteq> []" "length plain \<le> 65536"
  defines "c \<equiv> tm_udpCipher m"
  obtains c' where "onDatagram E (sealed_text (te_crypto E) (tm_secureSessionId m) (sc_recvKey c) (sc_recvNonceSeed c) ctr plain, tm_serverIP m, tm_serverPort m) m =
      dispatchDatagram E plain (m\<lparr>tm_udpCipher := c'\<rparr>)" "window_rel (insert (unat ctr) acc) c'"
    "sc_sendKey c' = sc_sendKey c" "sc_sendNonceSeed c' = sc_sendNonceSeed c" "sc_recvKey c' = sc_recvKey c" "sc_recvNonceSeed c' = sc_recvNonceSeed c" "sc_initialized c'"
proof -
  let ?f = "sealed (te_crypto E) (sc_recvKey c) (sc_recvNonceSeed c) ctr plain []"
  obtain c' where d: "decryptFrame (te_crypto E) ?f [] c = (Some plain, c')"
    using decrypt_sealed [OF C w(1) r(2) w(2), of plain "[]"] by (metis c_def prod.collapse)
  note k = decryptFrame_keys [OF d]
  have w': "window_rel (insert (unat ctr) acc) c'" using decryptFrame_spec(2) [OF w(1) r(2), of "te_crypto E" ?f "[]"] d by (simp add: c_def)
  have h: "length (writeU32BE sid) = 4" for sid by (simp add: writeU32BE_def)
  have l: "length (writeU32BE sid @ ?f) = 28 + length plain" for sid using sealed_size [OF C] by (simp add: writeU32BE_def)
  have s: "tm_securityMode m = Secure" using r(1) by (simp add: running_def dataPlaneAllowsTraffic_def)
  have "onDatagram E (sealed_text (te_crypto E) (tm_secureSessionId m) (sc_recvKey c) (sc_recvNonceSeed c) ctr plain, tm_serverIP m, tm_serverPort m) m =
      dispatchDatagram E plain (m\<lparr>tm_udpCipher := c'\<rparr>)"
    using r(1) s d [unfolded c_def] l [of "tm_secureSessionId m", unfolded c_def] assms(6,7)
    by (simp add: onDatagram_def running_def h c_def Let_def)
  from that [OF this w' k(1-4)] k(5) r(2) show ?thesis by (simp add: c_def)
qed

text \<open>What a tunnel to this member carries reaches the tunnel from there.\<close>

lemma dispatch_relay:
  assumes L: "linked m i vip cls a x t" and s: "relay_tunnel i (tm_myPeerId m) cls mtu s" and "6 \<le> length f"
  shows "dispatchDatagram E (rawDatagram s f) m = rawFeedAt E f x m"
proof -
  have d: "rawDatagram s f = UDP_RAW_RELAY_DATA # cls # be32 i @ be32 (tm_myPeerId m) @ f"
    using s by (simp add: relay_tunnel_def rawDatagram_def)
  have h: "drop 4 (be32 v @ ys) = ys" "length (be32 v) = 4" for v ys by (simp_all add: be32_def)
  have "map_of (tm_rawByPeerClass m) (tunnelKey i cls) = Some x" "cls \<in> {TRAFFIC_TCP, TRAFFIC_UDP}" using L by (simp_all add: linked_def)
  then show ?thesis unfolding d dispatchDatagram_def Let_def using assms(3) by (auto simp: h)
qed

lemma linked_cipher:
  assumes "linked m i vip cls a x t" "sc_initialized c"
  shows "linked (m\<lparr>tm_udpCipher := c\<rparr>) i vip cls a x t"
proof -
  have "shape (m\<lparr>tm_udpCipher := c\<rparr>) = shape m" "running (m\<lparr>tm_udpCipher := c\<rparr>) = running m" by (simp_all add: shape_def running_def)
  then show ?thesis using assms by (simp add: linked_def can_send_def)
qed

lemma linked_tunnel:
  assumes L: "linked m i vip cls a x t" and t': "relay_tunnel (tm_myPeerId m) i cls (tm_roomMtu m) t'"
  shows "linked (setRawTunnel x t' m) i vip cls a x t'"
proof -
  have f: "flow demo_crypto m (setRawTunnel x t' m)" by (rule flow_setRaw)
  have "can_send (setRawTunnel x t' m)" using L flow_shape [OF f] by (simp add: linked_def can_send_def setRawTunnel_def running_def)
  then show ?thesis using L t' by (auto simp: linked_def setRawTunnel_def)
qed

text \<open>The end of the way: a packet that the tunnel hands on is written to the adapter.\<close>

definition admitted :: "('k, 'a) CliTunnelManager_scheme \<Rightarrow> u32 \<Rightarrow> bytes \<Rightarrow> bool" where
  "admitted m vip p \<longleftrightarrow> overlayIsValid (validateInboundOverlayIpv4 (Some p) (tm_roomMtu m) vip (tm_myVirtualIP m))"

lemma handed_to_adapter:
  assumes L: "linked m i vip cls a x t" and v: "admitted m vip p" and "te_tunWrite E p"
  shows "onTunnelDataReceived E a cls p (setRawTunnel x t' m) = emit_io (TunWrite p) (setRawTunnel x t' m)"
proof -
  obtain q where q: "map_of (tm_peers m) a = Some q" "pc_peerId q = i" "pc_virtualIP q = vip" using L by (auto simp: linked_def)
  have "drop_bit 4 (p ! 0) = 4" using v by (simp add: admitted_def inbound_rule structure_none_iff)
  then have "p ! 0 \<noteq> CLI_LATENCY_PROBE_MARKER" by auto
  then have "handleLatencyProbe E a cls p (setRawTunnel x t' m) = (False, setRawTunnel x t' m)" by (simp add: handleLatencyProbe_def)
  moreover have "running m" "map_of (tm_peerById m) i = Some a" "tm_tun m \<noteq> None" using L by (simp_all add: linked_def can_send_def)
  ultimately show ?thesis using q v assms(3)
    by (simp add: onTunnelDataReceived_def onPeerDataReceived_def routeToTun_def running_def dataPlaneAllowsTraffic_def setRawTunnel_def admitted_def)
qed

lemma rawOnData_adapter:
  assumes L: "linked m i vip cls a x t" and r: "map_of (tm_raws m) x = Some r" and v: "admitted m vip p" "te_tunWrite E p"
  shows "rawOnData E x r p (t', m) = (t', emit_io (TunWrite p) (setRawTunnel x t' m))"
proof -
  have "ro_peer r = a" "ro_cls r = cls" using L r by (auto simp: linked_def)
  moreover have "onTunnelDataReceived E a cls p (setRawTunnel x t' m) = emit_io (TunWrite p) (setRawTunnel x t' m)"
    by (rule handed_to_adapter [OF L v])
  ultimately show ?thesis using r by (simp add: rawOnData_def Let_def emit_io_def setRawTunnel_def)
qed

section \<open>The fragments of a packet\<close>

abbreviation (input) touched :: "u32 \<Rightarrow> CliRawUdpTunnel \<Rightarrow> CliRawUdpTunnel" where
  "touched now t \<equiv> t\<lparr>ru_lastRecvTime := now, ru_dead := False\<rparr>"

lemma relay_tunnel_budget:
  "relay_tunnel src dst cls mtu t \<Longrightarrow> relay_tunnel src' dst' cls' mtu s \<Longrightarrow> budget t = budget s"
  by (simp add: relay_tunnel_def budget_def maxFragmentPayload_def)

lemma fed_fragment:
  assumes L: "linked m i vip cls a x t" and "relay_tunnel src dst cls' (tm_roomMtu m) s" "20 \<le> length p" "length p \<le> unat (tm_roomMtu m)"
    "j < length (pieces (budget s) p)" "map_of (tm_raws m) x = Some r"
  shows "rawFeedAt E (fragment (budget s) i' p j) x m =
    (case if length (pieces (budget s) p) = 1 then rawOnData E x r p (touched (te_now E) t, m)
       else collectFragment (rawCallbacks E x r) (te_now E) i' (of_nat j) 2 (of_nat (length p)) (pieces (budget s) p ! j) (touched (te_now E) t, m)
     of (t, m) \<Rightarrow> setRawTunnel x t m)"
proof -
  let ?t = "touched (te_now E) t" and ?f = "fragment (budget s) i' p j"
  have t: "relay_tunnel (tm_myPeerId m) i cls (tm_roomMtu m) t" "ro_tunnel r = t" using L assms(6) by (auto simp: linked_def)
  have b: "budget ?t = budget s" "mtu_ok ?t" "ru_roomMtu ?t = tm_roomMtu m" "ru_fecMode ?t = FEC_NONE"
    using relay_tunnel_budget [OF t(1) assms(2)] t(1) by (auto simp: relay_tunnel_def budget_def maxFragmentPayload_def mtu_ok_def)
  have "?f \<noteq> []" using header_frag(8) [of i' "of_nat j" "of_nat (length (pieces (budget s) p))" "of_nat (length p)" "pieces (budget s) p ! j"]
    by (auto simp: fragment_def)
  then have "rawFeedInput K cb (te_now E) ?f (t, m) = processFrag K cb (te_now E) ?f (?t, m)" for K cb
    using b(4) by (simp add: rawFeedInput_def)
  then show ?thesis using assms(3-6) t(2) fragment_accepted [OF b(2), of p j "te_cm256 E" "rawCallbacks E x r" "te_now E" i' m, unfolded b(1,3)]
    by (simp add: rawFeedAt_def) (simp add: rawCallbacks_def)
qed

lemma single_fed:
  assumes L: "linked m i vip cls a x t" and "relay_tunnel src dst cls' (tm_roomMtu m) s" "20 \<le> length p" "length p \<le> unat (tm_roomMtu m)"
    and "length (pieces (budget s) p) = 1" "admitted m vip p" "te_tunWrite E p"
  shows "tm_io (rawFeedAt E (fragment (budget s) i' p 0) x m) = tm_io m @ [TunWrite p]"
proof -
  obtain r where r: "map_of (tm_raws m) x = Some r" using L by (auto simp: linked_def)
  show ?thesis using fed_fragment [OF L assms(2-4) _ r, of 0 E i'] rawOnData_adapter [OF L r assms(6,7)] assms(5)
    by (simp add: setRawTunnel_def emit_io_def)
qed

lemma first_fed:
  assumes L: "linked m i vip cls a x t" and "relay_tunnel src dst cls' (tm_roomMtu m) s" "20 \<le> length p" "length p \<le> unat (tm_roomMtu m)"
    and "length (pieces (budget s) p) = 2" "j < 2" and t: "ru_reassembly t = []" "ru_reassemblyBytes t = 0"
  obtains t' e where "rawFeedAt E (fragment (budget s) i' p j) x m = setRawTunnel x t' m" "relay_tunnel (tm_myPeerId m) i cls (tm_roomMtu m) t'"
    "half_entry (budget s) p j e" "map_of (ru_reassembly t') i' = Some e" "ru_reassemblyBytes t' \<le> length p"
proof -
  let ?t = "touched (te_now E) t" and ?d = "pieces (budget s) p ! j"
  obtain r where r: "map_of (tm_raws m) x = Some r" using L by (auto simp: linked_def)
  have j: "j < length (pieces (budget s) p)" using assms(5,6) by simp
  have "unat (tm_roomMtu m) \<le> 1420" using assms(2) budget_bounds(5) [of s] by (simp add: relay_tunnel_def)
  then have "ru_reassemblyBytes ?t + length ?d \<le> RAW_UDP_MAX_REASSEMBLY_BYTES" using t pieces_short [OF j] assms(4) by simp
  then obtain e where e: "half_entry (budget s) p j e" "collectFragment (rawCallbacks E x r) (te_now E) i' (of_nat j) 2 (of_nat (length p)) ?d (?t, m) =
      (?t\<lparr>ru_reassembly := om_upd i' e (om_upd i' (e\<lparr>re_receivedCount := 0, re_fragments := []\<rparr>) (ru_reassembly ?t)),
          ru_reassemblyBytes := ru_reassemblyBytes ?t + length ?d\<rparr>, m)" (is "_ = (?t', m)")
    using first_fragment [of ?t i' ?d j "budget s" p "rawCallbacks E x r" "te_now E" m] t j by auto
  have "rawFeedAt E (fragment (budget s) i' p j) x m = setRawTunnel x ?t' m"
    using fed_fragment [OF L assms(2-4) j r, of E i'] e(2) assms(5) by simp
  moreover have "relay_tunnel (tm_myPeerId m) i cls (tm_roomMtu m) ?t'" using L by (auto simp: linked_def relay_tunnel_def mtu_ok_def)
  ultimately show ?thesis using that [of ?t' e] e(1) t pieces_short [OF j] by simp
qed

lemma second_fed:
  assumes L: "linked m i vip cls a x t" and "relay_tunnel src dst cls' (tm_roomMtu m) s" "20 \<le> length p" "length p \<le> unat (tm_roomMtu m)"
    and "length (pieces (budget s) p) = 2" "j < 2" "admitted m vip p" "te_tunWrite E p"
    and t: "half_entry (budget s) p (1 - j) e" "map_of (ru_reassembly t) i' = Some e" "ru_reassemblyBytes t \<le> length p"
  shows "tm_io (rawFeedAt E (fragment (budget s) i' p j) x m) = tm_io m @ [TunWrite p]"
proof -
  let ?t = "touched (te_now E) t" and ?d = "pieces (budget s) p ! j"
  obtain r where r: "map_of (tm_raws m) x = Some r" using L by (auto simp: linked_def)
  have j: "j < length (pieces (budget s) p)" using assms(5,6) by simp
  have "unat (tm_roomMtu m) \<le> 1420" using assms(2) budget_bounds(5) [of s] by (simp add: relay_tunnel_def)
  then have "ru_reassemblyBytes ?t + length ?d \<le> RAW_UDP_MAX_REASSEMBLY_BYTES" "length p < 65536"
    using t(3) pieces_short [OF j] assms(4) by simp_all
  then obtain t' where "collectFragment (rawCallbacks E x r) (te_now E) i' (of_nat j) 2 (of_nat (length p)) ?d (?t, m) = rawOnData E x r p (t', m)"
    using second_fragment [of ?t i' e "budget s" p j ?d "rawCallbacks E x r" "te_now E" m] t assms(5,6) by (auto simp: rawCallbacks_def)
  then show ?thesis using fed_fragment [OF L assms(2-4) j r, of E i'] rawOnData_adapter [OF L r assms(7,8)] assms(5)
    by (simp add: setRawTunnel_def emit_io_def)
qed

text \<open>
  \<open>sealed_for m ctr msg\<close>: the datagram with that text that the server seals for the session of \<open>m\<close>.
\<close>

definition sealed_for :: "crypto \<Rightarrow> ('k, 'a) CliTunnelManager_scheme \<Rightarrow> u64 \<Rightarrow> bytes \<Rightarrow> bytes \<times> u32 \<times> u16" where
  "sealed_for C m ctr msg = (sealed_text C (tm_secureSessionId m) (sc_recvKey (tm_udpCipher m)) (sc_recvNonceSeed (tm_udpCipher m)) ctr msg,
     tm_serverIP m, tm_serverPort m)"

lemma fragment_arrives:
  assumes L: "linked m i vip cls a x t" and s: "relay_tunnel i (tm_myPeerId m) cls (tm_roomMtu m) s"
    and C: "aead_correct (te_crypto E)" and w: "window_rel acc (tm_udpCipher m)" "window_fresh acc (unat ctr)"
    and p: "length p \<le> unat (tm_roomMtu m)" "j < length (pieces (budget s) p)"
  obtains c where "onDatagram E (sealed_for (te_crypto E) m ctr (rawDatagram s (fragment (budget s) i' p j))) m =
      rawFeedAt E (fragment (budget s) i' p j) x (m\<lparr>tm_udpCipher := c\<rparr>)"
    "linked (m\<lparr>tm_udpCipher := c\<rparr>) i vip cls a x t" "window_rel (insert (unat ctr) acc) c"
    "sealed_for (te_crypto E) (m\<lparr>tm_udpCipher := c\<rparr>) = sealed_for (te_crypto E) m"
proof -
  let ?f = "fragment (budget s) i' p j" and ?k = "tm_udpCipher m"
  have r: "running m" "sc_initialized ?k" using L by (simp_all add: linked_def can_send_def)
  have "unat (tm_roomMtu m) \<le> 1420" using s budget_bounds(5) [of s] by (simp add: relay_tunnel_def)
  moreover have f: "length ?f = 6 + length (pieces (budget s) p ! j)" unfolding fragment_def by (rule header_frag(8))
  moreover have "length (rawDatagram s ?f) = 10 + length ?f" using s by (simp add: relay_tunnel_def rawDatagram_def be32_def)
  ultimately have l: "rawDatagram s ?f \<noteq> []" "length (rawDatagram s ?f) \<le> 65536" using pieces_short [OF p(2)] p(1) by auto
  obtain c where c: "onDatagram E (sealed_for (te_crypto E) m ctr (rawDatagram s ?f)) m = dispatchDatagram E (rawDatagram s ?f) (m\<lparr>tm_udpCipher := c\<rparr>)"
      "window_rel (insert (unat ctr) acc) c" "sc_recvKey c = sc_recvKey ?k" "sc_recvNonceSeed c = sc_recvNonceSeed ?k" "sc_initialized c"
    using datagram_opened [OF C r w l] unfolding sealed_for_def by metis
  have L': "linked (m\<lparr>tm_udpCipher := c\<rparr>) i vip cls a x t" by (rule linked_cipher [OF L c(5)])
  have "dispatchDatagram E (rawDatagram s ?f) (m\<lparr>tm_udpCipher := c\<rparr>) = rawFeedAt E ?f x (m\<lparr>tm_udpCipher := c\<rparr>)"
    by (rule dispatch_relay [OF L']) (use s f in simp_all)
  then show ?thesis using that [of c] c L' by (simp add: sealed_for_def fun_eq_iff)
qed

lemma packet_arrives_whole:
  assumes L: "linked m i vip cls a x t" and s: "relay_tunnel i (tm_myPeerId m) cls (tm_roomMtu m) s"
    and C: "aead_correct (te_crypto E)" and w: "window_rel acc (tm_udpCipher m)" "window_fresh acc (unat ctr)"
    and p: "20 \<le> length p" "length p \<le> unat (tm_roomMtu m)" "length (pieces (budget s) p) = 1" "admitted m vip p" "te_tunWrite E p"
  shows "tm_io (onDatagram E (sealed_for (te_crypto E) m ctr (rawDatagram s (fragment (budget s) i' p 0))) m) = tm_io m @ [TunWrite p]"
proof -
  obtain c where c: "onDatagram E (sealed_for (te_crypto E) m ctr (rawDatagram s (fragment (budget s) i' p 0))) m =
      rawFeedAt E (fragment (budget s) i' p 0) x (m\<lparr>tm_udpCipher := c\<rparr>)" "linked (m\<lparr>tm_udpCipher := c\<rparr>) i vip cls a x t"
    using fragment_arrives [OF L s C w p(2), of 0 i'] p(3) by auto
  show ?thesis unfolding c(1) using single_fed [OF c(2), of i "tm_myPeerId m" cls s p E i'] s p by (simp add: admitted_def)
qed

lemma packet_arrives_split:
  assumes L: "linked m i vip cls a x t" and s: "relay_tunnel i (tm_myPeerId m) cls (tm_roomMtu m) s"
    and C: "aead_correct (te_crypto E)" and w: "window_rel acc (tm_udpCipher m)" "window_fresh acc (unat c1)" "window_fresh (insert (unat c1) acc) (unat c2)"
    and p: "20 \<le> length p" "length p \<le> unat (tm_roomMtu m)" "length (pieces (budget s) p) = 2" "j < 2" "admitted m vip p" "te_tunWrite E p"
    and t: "ru_reassembly t = []" "ru_reassemblyBytes t = 0"
  shows "tm_io (onDatagram E (sealed_for (te_crypto E) m c2 (rawDatagram s (fragment (budget s) i' p (1 - j))))
      (onDatagram E (sealed_for (te_crypto E) m c1 (rawDatagram s (fragment (budget s) i' p j))) m)) = tm_io m @ [TunWrite p]"
proof -
  obtain c where c: "onDatagram E (sealed_for (te_crypto E) m c1 (rawDatagram s (fragment (budget s) i' p j))) m =
      rawFeedAt E (fragment (budget s) i' p j) x (m\<lparr>tm_udpCipher := c\<rparr>)" "linked (m\<lparr>tm_udpCipher := c\<rparr>) i vip cls a x t"
      "window_rel (insert (unat c1) acc) c" "sealed_for (te_crypto E) (m\<lparr>tm_udpCipher := c\<rparr>) = sealed_for (te_crypto E) m"
    using fragment_arrives [OF L s C w(1,2) p(2), of j i'] p(3,4) by auto
  let ?m = "m\<lparr>tm_udpCipher := c\<rparr>"
  obtain t' e where f: "rawFeedAt E (fragment (budget s) i' p j) x ?m = setRawTunnel x t' ?m" "relay_tunnel (tm_myPeerId ?m) i cls (tm_roomMtu ?m) t'"
      "half_entry (budget s) p j e" "map_of (ru_reassembly t') i' = Some e" "ru_reassemblyBytes t' \<le> length p"
    using first_fed [OF c(2), of i "tm_myPeerId m" cls s p j E i'] s p t by auto
  let ?n = "setRawTunnel x t' ?m"
  have n: "linked ?n i vip cls a x t'" by (rule linked_tunnel [OF c(2) f(2)])
  have same: "tm_myPeerId ?n = tm_myPeerId m" "tm_roomMtu ?n = tm_roomMtu m" "tm_io ?n = tm_io m" "tm_udpCipher ?n = c" "admitted ?n vip p = admitted m vip p"
    "sealed_for (te_crypto E) ?n = sealed_for (te_crypto E) m"
    using c(4) by (simp_all add: setRawTunnel_def admitted_def sealed_for_def fun_eq_iff)
  have other: "1 - j < length (pieces (budget s) p)" using p(3) by simp
  obtain d where d: "onDatagram E (sealed_for (te_crypto E) ?n c2 (rawDatagram s (fragment (budget s) i' p (1 - j)))) ?n =
      rawFeedAt E (fragment (budget s) i' p (1 - j)) x (?n\<lparr>tm_udpCipher := d\<rparr>)" "linked (?n\<lparr>tm_udpCipher := d\<rparr>) i vip cls a x t'"
    using fragment_arrives [OF n, of s E "insert (unat c1) acc" c2 p "1 - j" i'] s C c(3) w(3) p(2) other unfolding same by blast
  have e: "half_entry (budget s) p (1 - (1 - j)) e" using f(3) p(4) by simp
  have "tm_io (rawFeedAt E (fragment (budget s) i' p (1 - j)) x (?n\<lparr>tm_udpCipher := d\<rparr>)) = tm_io (?n\<lparr>tm_udpCipher := d\<rparr>) @ [TunWrite p]"
    by (rule second_fed [OF d(2) _ p(1) _ p(3) _ _ p(6) e f(4,5)]) (use s p same in \<open>simp_all add: admitted_def setRawTunnel_def\<close>)
  then show ?thesis using d(1) unfolding c(1) f(1) same by (simp add: setRawTunnel_def)
qed

end
