(* ===== verification/Room.thy ===== *)
theory Room
  imports Secure_Frame
begin

text \<open>
  The server's sessions and rooms (\<^verbatim>\<open>server/src/room.h\<close>): the session state machine and its
  table of allowed messages, the session indexes, rooms with their leases, virtual addresses
  and host, and the room manager with its pool of room numbers.  A pointer to a lease is the
  lease, and an update through it changes the first lease with that peer.  \<^verbatim>\<open>time(nullptr)\<close>
  is the argument \<open>now\<close>.
\<close>

section \<open>Session states\<close>

datatype SessionState =
    AwaitHello | AwaitServerAuth | AwaitLogin | LoggedIn | AwaitRoomPassword | ResumePending
  | InRoom | Closing

fun sessionStateName :: "SessionState \<Rightarrow> string" where
  "sessionStateName AwaitHello = ''AwaitHello''"
| "sessionStateName AwaitServerAuth = ''AwaitServerAuth''"
| "sessionStateName AwaitLogin = ''AwaitLogin''"
| "sessionStateName LoggedIn = ''LoggedIn''"
| "sessionStateName AwaitRoomPassword = ''AwaitRoomPassword''"
| "sessionStateName ResumePending = ''ResumePending''"
| "sessionStateName InRoom = ''InRoom''"
| "sessionStateName Closing = ''Closing''"

definition sessionHasPeerIdentity :: "SessionState \<Rightarrow> bool" where
  "sessionHasPeerIdentity state \<longleftrightarrow>
     state = LoggedIn \<or> state = AwaitRoomPassword \<or> state = ResumePending \<or> state = InRoom"

definition sessionCanBindDataChannel :: "SessionState \<Rightarrow> bool" where
  "sessionCanBindDataChannel state = sessionHasPeerIdentity state"

definition isClientHandshakeMessage :: "u8 \<Rightarrow> bool" where
  "isClientHandshakeMessage msgType \<longleftrightarrow>
     msgType = MSG_CLIENT_HELLO \<or> msgType = MSG_SERVER_AUTH \<or> msgType = MSG_LOGIN"

definition isKnownClientSignalMessage :: "u8 \<Rightarrow> bool" where
  "isKnownClientSignalMessage msgType \<longleftrightarrow>
     msgType \<in> set [MSG_CLIENT_HELLO, MSG_SERVER_AUTH, MSG_LOGIN, MSG_CREATE_ROOM, MSG_JOIN_ROOM,
       MSG_RESUME_ROOM, MSG_LEAVE_ROOM, MSG_LOGOUT, MSG_LIST_ROOMS, MSG_REQUEST_RELAY,
       MSG_AUTH_RESPONSE, MSG_PING, MSG_TCP_RELAY_DATA, MSG_ENCRYPTED]"

datatype SessionMessageAction = Dispatch | SendStateError | Close | IgnoreUnknown

fun isClientSignalMessageAllowed :: "SessionState \<Rightarrow> u8 \<Rightarrow> bool" where
  "isClientSignalMessageAllowed AwaitHello msgType \<longleftrightarrow> msgType = MSG_CLIENT_HELLO"
| "isClientSignalMessageAllowed AwaitServerAuth msgType \<longleftrightarrow> msgType = MSG_SERVER_AUTH"
| "isClientSignalMessageAllowed AwaitLogin msgType \<longleftrightarrow> msgType = MSG_LOGIN \<or> msgType = MSG_PING"
| "isClientSignalMessageAllowed LoggedIn msgType \<longleftrightarrow>
     msgType = MSG_CREATE_ROOM \<or> msgType = MSG_JOIN_ROOM \<or> msgType = MSG_LIST_ROOMS \<or>
     msgType = MSG_LOGOUT \<or> msgType = MSG_PING"
| "isClientSignalMessageAllowed AwaitRoomPassword msgType \<longleftrightarrow>
     msgType = MSG_AUTH_RESPONSE \<or> msgType = MSG_LIST_ROOMS \<or> msgType = MSG_LOGOUT \<or> msgType = MSG_PING"
| "isClientSignalMessageAllowed ResumePending msgType \<longleftrightarrow>
     msgType = MSG_RESUME_ROOM \<or> msgType = MSG_LIST_ROOMS \<or> msgType = MSG_LOGOUT \<or> msgType = MSG_PING"
| "isClientSignalMessageAllowed InRoom msgType \<longleftrightarrow>
     msgType = MSG_LEAVE_ROOM \<or> msgType = MSG_LOGOUT \<or> msgType = MSG_LIST_ROOMS \<or>
     msgType = MSG_REQUEST_RELAY \<or> msgType = MSG_PING \<or> msgType = MSG_TCP_RELAY_DATA"
| "isClientSignalMessageAllowed Closing msgType \<longleftrightarrow> False"

definition classifyClientSignalMessage :: "SessionState \<Rightarrow> u8 \<Rightarrow> SessionMessageAction" where
  "classifyClientSignalMessage state msgType =
     (if \<not> isKnownClientSignalMessage msgType then IgnoreUnknown
      else if isClientSignalMessageAllowed state msgType then Dispatch
      else if isClientHandshakeMessage msgType then Close
      else SendStateError)"

section \<open>Session indexes\<close>

definition bindUniqueSessionIndex :: "'k::linorder \<Rightarrow> int \<Rightarrow> ('k, int) omap \<Rightarrow> bool \<times> ('k, int) omap" where
  "bindUniqueSessionIndex key signalFd index =
     (case map_of index key of
        Some fd \<Rightarrow> if fd \<noteq> signalFd then (False, index) else (True, om_upd key signalFd index)
      | None \<Rightarrow> (True, om_upd key signalFd index))"

definition unbindSessionIndex :: "'k::linorder \<Rightarrow> int \<Rightarrow> ('k, int) omap \<Rightarrow> ('k, int) omap" where
  "unbindSessionIndex key signalFd index =
     (case map_of index key of
        Some fd \<Rightarrow> if fd = signalFd then om_del key index else index
      | None \<Rightarrow> index)"

section \<open>Sessions\<close>

text \<open>A \<^verbatim>\<open>sockaddr_in\<close> is its address and port.\<close>

type_synonym sockaddr = "u32 \<times> u16"

record ClientSession =
  cs_tcpFd :: int
  cs_dataFd :: int
  cs_peerId :: u32
  cs_virtualIP :: u32
  cs_roomId :: u32
  cs_remoteIpv4 :: u32
  cs_udpAddr :: sockaddr
  cs_udpAddrKnown :: bool
  cs_name :: bytes
  cs_recvBuf :: bytes
  cs_sendBuf :: bytes
  cs_dataRecvBuf :: bytes
  cs_dataSendBuf :: bytes
  cs_lastPing :: int
  cs_dataLastPing :: int
  cs_alive :: bool
  cs_state :: SessionState
  cs_serverAuthOk :: bool
  cs_secureEnabled :: bool
  cs_secureSessionId :: u32
  cs_clientNonce :: bytes
  cs_serverNonce :: bytes
  cs_clientPubKey :: bytes
  cs_serverPrivKey :: bytes
  cs_serverPubKey :: bytes
  cs_secureMaster :: bytes
  cs_secureCipher :: SecureFrameCipher
  cs_dataCipher :: SecureFrameCipher
  cs_udpCipher :: SecureFrameCipher
  cs_helloDeadline :: int
  cs_authDeadline :: int
  cs_sendBudgetFailures :: u8
  cs_pendingJoinRoomId :: u32
  cs_authChallenge :: bytes
  cs_resumeRoomId :: u32
  cs_resumePeerId :: u32
  cs_resumeToken :: bytes

definition newClientSession :: ClientSession where
  "newClientSession = \<lparr>cs_tcpFd = -1, cs_dataFd = -1, cs_peerId = 0, cs_virtualIP = 0, cs_roomId = 0,
     cs_remoteIpv4 = 0, cs_udpAddr = (0, 0), cs_udpAddrKnown = False, cs_name = [],
     cs_recvBuf = [], cs_sendBuf = [], cs_dataRecvBuf = [], cs_dataSendBuf = [],
     cs_lastPing = 0, cs_dataLastPing = 0, cs_alive = True, cs_state = AwaitHello,
     cs_serverAuthOk = False, cs_secureEnabled = False, cs_secureSessionId = 0,
     cs_clientNonce = replicate 16 0, cs_serverNonce = replicate 16 0, cs_clientPubKey = replicate 32 0,
     cs_serverPrivKey = replicate 32 0, cs_serverPubKey = replicate 32 0, cs_secureMaster = replicate 32 0,
     cs_secureCipher = newCipher, cs_dataCipher = newCipher, cs_udpCipher = newCipher,
     cs_helloDeadline = 0, cs_authDeadline = 0, cs_sendBudgetFailures = 0,
     cs_pendingJoinRoomId = 0, cs_authChallenge = replicate 32 0,
     cs_resumeRoomId = 0, cs_resumePeerId = 0, cs_resumeToken = replicate 32 0\<rparr>"

definition relayFd :: "ClientSession \<Rightarrow> int" where
  "relayFd c = (if cs_dataFd c \<ge> 0 then cs_dataFd c else cs_tcpFd c)"

section \<open>Rooms\<close>

record RoomLease =
  ls_peerId :: u32
  ls_virtualIP :: u32
  ls_name :: bytes
  ls_token :: bytes
  ls_online :: bool
  ls_offlineSince :: int
  ls_expiresAt :: int

definition newRoomLease :: RoomLease where
  "newRoomLease = \<lparr>ls_peerId = 0, ls_virtualIP = 0, ls_name = [], ls_token = replicate RECONNECT_TOKEN_SIZE 0,
     ls_online = False, ls_offlineSince = 0, ls_expiresAt = 0\<rparr>"

record Room =
  rm_id :: u32
  rm_name :: bytes
  rm_hostPeerId :: u32
  rm_leases :: "RoomLease list"
  rm_maxPlayers :: u8
  rm_tcpPolicy :: RoomTrafficPolicy
  rm_udpPolicy :: RoomTrafficPolicy
  rm_mtu :: u16
  rm_passwordProtected :: u8
  rm_passwordHash :: bytes
  rm_passwordSalt :: bytes
  rm_emptyTimestamp :: int

definition newRoom :: Room where
  "newRoom = \<lparr>rm_id = 0, rm_name = [], rm_hostPeerId = 0, rm_leases = [], rm_maxPlayers = of_nat MAX_PLAYERS,
     rm_tcpPolicy = makeDefaultTcpPolicy, rm_udpPolicy = makeDefaultUdpPolicy,
     rm_mtu = of_int ROOM_MTU_DEFAULT, rm_passwordProtected = 0,
     rm_passwordHash = replicate 32 0, rm_passwordSalt = replicate AUTH_SALT_SIZE 0, rm_emptyTimestamp = 0\<rparr>"

definition hasVirtualIP :: "u32 \<Rightarrow> Room \<Rightarrow> bool" where
  "hasVirtualIP ip r \<longleftrightarrow> (\<exists>l \<in> set (rm_leases r). ls_virtualIP l = ip)"

definition allocateVirtualIP :: "Room \<Rightarrow> u32" where
  "allocateVirtualIP r =
     (case find (\<lambda>suffix. \<not> hasVirtualIP (VNET_SUBNET OR of_nat suffix) r)
             [VNET_FIRST_HOST_SUFFIX..<Suc VNET_LAST_HOST_SUFFIX] of
        Some suffix \<Rightarrow> VNET_SUBNET OR of_nat suffix
      | None \<Rightarrow> 0)"

definition isFull :: "Room \<Rightarrow> bool" where
  "isFull r \<longleftrightarrow> length (rm_leases r) \<ge> unat (rm_maxPlayers r)"

definition leaseByPeerId :: "u32 \<Rightarrow> Room \<Rightarrow> RoomLease option" where
  "leaseByPeerId peerId r = find (\<lambda>l. ls_peerId l = peerId) (rm_leases r)"

definition hasLease :: "u32 \<Rightarrow> Room \<Rightarrow> bool" where
  "hasLease peerId r \<longleftrightarrow> leaseByPeerId peerId r \<noteq> None"

text \<open>A write through the pointer of \<^verbatim>\<open>leaseByPeerId\<close>.\<close>

fun updLease :: "u32 \<Rightarrow> (RoomLease \<Rightarrow> RoomLease) \<Rightarrow> RoomLease list \<Rightarrow> RoomLease list" where
  "updLease peerId f [] = []"
| "updLease peerId f (l # ls) = (if ls_peerId l = peerId then f l # ls else l # updLease peerId f ls)"

definition ensureHost :: "Room \<Rightarrow> Room" where
  "ensureHost r =
     (case rm_leases r of
        [] \<Rightarrow> r\<lparr>rm_hostPeerId := 0\<rparr>
      | front # _ \<Rightarrow>
        if leaseByPeerId (rm_hostPeerId r) r \<noteq> None then r
        else case find ls_online (rm_leases r) of
               Some l \<Rightarrow> r\<lparr>rm_hostPeerId := ls_peerId l\<rparr>
             | None \<Rightarrow> r\<lparr>rm_hostPeerId := ls_peerId front\<rparr>)"

definition addLease :: "u32 \<Rightarrow> bytes \<Rightarrow> bytes option \<Rightarrow> Room \<Rightarrow> RoomLease option \<times> Room" where
  "addLease peerId peerName token r =
     (if isFull r \<or> hasLease peerId r then (None, r)
      else let ip = allocateVirtualIP r in
      if ip = 0 then (None, r)
      else let lease = newRoomLease\<lparr>ls_peerId := peerId, ls_virtualIP := ip, ls_name := peerName,
                         ls_online := True, ls_offlineSince := 0, ls_expiresAt := 0\<rparr>;
               lease = (case token of Some t \<Rightarrow> lease\<lparr>ls_token := take RECONNECT_TOKEN_SIZE t\<rparr> | None \<Rightarrow> lease);
               r = r\<lparr>rm_leases := rm_leases r @ [lease], rm_emptyTimestamp := 0\<rparr>
           in (Some lease, ensureHost r))"

fun eraseLease :: "u32 \<Rightarrow> RoomLease list \<Rightarrow> RoomLease list option" where
  "eraseLease peerId [] = None"
| "eraseLease peerId (l # ls) =
     (if ls_peerId l = peerId then Some ls else map_option ((#) l) (eraseLease peerId ls))"

definition removeLease :: "int \<Rightarrow> u32 \<Rightarrow> Room \<Rightarrow> bool \<times> Room" where
  "removeLease now peerId r =
     (case eraseLease peerId (rm_leases r) of
        Some ls \<Rightarrow>
          (let r = r\<lparr>rm_leases := ls\<rparr>;
               r = (if rm_leases r = [] then r\<lparr>rm_emptyTimestamp := now\<rparr> else r)
           in (True, ensureHost r))
      | None \<Rightarrow> (False, r))"

definition markLeaseOffline :: "u32 \<Rightarrow> int \<Rightarrow> Room \<Rightarrow> bool \<times> Room" where
  "markLeaseOffline peerId now r =
     (if leaseByPeerId peerId r = None then (False, r)
      else (True, r\<lparr>rm_leases := updLease peerId (\<lambda>l. l\<lparr>ls_online := False, ls_offlineSince := now,
                       ls_expiresAt := now + RECONNECT_LEASE_TIMEOUT_SEC\<rparr>) (rm_leases r)\<rparr>))"

definition markLeaseOnline :: "u32 \<Rightarrow> Room \<Rightarrow> bool \<times> Room" where
  "markLeaseOnline peerId r =
     (if leaseByPeerId peerId r = None then (False, r)
      else (True, ensureHost (r\<lparr>rm_leases := updLease peerId (\<lambda>l. l\<lparr>ls_online := True, ls_offlineSince := 0,
                       ls_expiresAt := 0\<rparr>) (rm_leases r)\<rparr>)))"

definition peerIds :: "Room \<Rightarrow> u32 list" where
  "peerIds r = map ls_peerId (rm_leases r)"

section \<open>The room manager\<close>

record RoomManager =
  mg_rooms :: "(u32, Room) omap"
  mg_freeRoomIds :: "(u32, unit) omap"
  mg_nextRoomId :: u32

definition newRoomManager :: RoomManager where
  "newRoomManager = \<lparr>mg_rooms = [], mg_freeRoomIds = [], mg_nextRoomId = 1\<rparr>"

definition allocateRoomId :: "RoomManager \<Rightarrow> u32 \<times> RoomManager" where
  "allocateRoomId m =
     (case mg_freeRoomIds m of
        (i, _) # rest \<Rightarrow> (i, m\<lparr>mg_freeRoomIds := rest\<rparr>)
      | [] \<Rightarrow> (mg_nextRoomId m, m\<lparr>mg_nextRoomId := mg_nextRoomId m + 1\<rparr>))"

definition createRoom ::
  "bytes \<Rightarrow> u32 \<Rightarrow> u8 \<Rightarrow> RoomTrafficPolicy \<Rightarrow> RoomTrafficPolicy \<Rightarrow> u16 \<Rightarrow> u8 \<Rightarrow> bytes option \<Rightarrow> bytes option \<Rightarrow>
   RoomManager \<Rightarrow> Room \<times> RoomManager" where
  "createRoom name hostPeerId maxPlayers tcpPolicy udpPolicy mtu passwordProtected pwdHash pwdSalt m =
     (case allocateRoomId m of (rid, m) \<Rightarrow>
        let r = newRoom\<lparr>rm_id := rid, rm_name := name, rm_hostPeerId := hostPeerId, rm_maxPlayers := maxPlayers,
                   rm_tcpPolicy := tcpPolicy, rm_udpPolicy := udpPolicy, rm_mtu := normalizeRoomMtu (uint mtu),
                   rm_passwordProtected := passwordProtected\<rparr>;
            r = (case pwdHash of
                   Some h \<Rightarrow> if passwordProtected \<noteq> 0
                     then (let r = r\<lparr>rm_passwordHash := take 32 h\<rparr> in
                           case pwdSalt of Some s \<Rightarrow> r\<lparr>rm_passwordSalt := take AUTH_SALT_SIZE s\<rparr> | None \<Rightarrow> r)
                     else r
                 | None \<Rightarrow> r);
            r = r\<lparr>rm_emptyTimestamp := 0\<rparr>
        in (r, m\<lparr>mg_rooms := om_upd rid r (mg_rooms m)\<rparr>))"

definition getRoom :: "u32 \<Rightarrow> RoomManager \<Rightarrow> Room option" where
  "getRoom roomId m = map_of (mg_rooms m) roomId"

text \<open>A write through the pointer of \<^verbatim>\<open>getRoom\<close>.\<close>

definition updRoom :: "u32 \<Rightarrow> (Room \<Rightarrow> Room) \<Rightarrow> RoomManager \<Rightarrow> RoomManager" where
  "updRoom roomId f m = m\<lparr>mg_rooms := om_adj roomId f (mg_rooms m)\<rparr>"

definition managerEnsureHost :: "u32 \<Rightarrow> RoomManager \<Rightarrow> RoomManager" where
  "managerEnsureHost roomId m = (case getRoom roomId m of Some _ \<Rightarrow> updRoom roomId ensureHost m | None \<Rightarrow> m)"

fun cleanup_loop :: "(u32, Room) omap \<Rightarrow> (u32, unit) omap \<Rightarrow> bool \<Rightarrow> (u32, Room) omap \<times> (u32, unit) omap \<times> bool" where
  "cleanup_loop [] free changed = ([], free, changed)"
| "cleanup_loop ((i, r) # rs) free changed =
     (if rm_leases r = [] then cleanup_loop rs (om_upd i () free) True
      else case cleanup_loop rs free changed of (rs', f', c') \<Rightarrow> ((i, r) # rs', f', c'))"

definition cleanupEmptyRooms :: "RoomManager \<Rightarrow> bool \<times> RoomManager" where
  "cleanupEmptyRooms m =
     (case cleanup_loop (mg_rooms m) (mg_freeRoomIds m) False of (rooms, free, changed) \<Rightarrow>
        (changed, m\<lparr>mg_rooms := rooms, mg_freeRoomIds := free\<rparr>))"

definition listRooms :: "RoomManager \<Rightarrow> Room list" where
  "listRooms m = map snd (mg_rooms m)"

definition managerSize :: "RoomManager \<Rightarrow> nat" where
  "managerSize m = length (mg_rooms m)"

definition eraseRoom :: "u32 \<Rightarrow> RoomManager \<Rightarrow> RoomManager" where
  "eraseRoom roomId m =
     (if map_of (mg_rooms m) roomId = None then m
      else let m = m\<lparr>mg_rooms := om_del roomId (mg_rooms m)\<rparr> in
        if roomId \<noteq> 0 then m\<lparr>mg_freeRoomIds := om_upd roomId () (mg_freeRoomIds m)\<rparr> else m)"

end
