(* ===== verification/Room_Invariants.thy ===== *)
theory Room_Invariants
  imports Room
begin

text \<open>
  What keeps the server's rooms consistent: each member of a room has its own peer number and
  virtual address, the address lies in the subnet's host range, the member limit holds and the
  host is a member; room numbers come from a pool that never hands out a number in use.  The
  locale \<open>room_operation\<close> is the contract of an operation on one room, \<open>id_pool\<close> that of a
  pool of identifiers, \<open>session_index\<close> that of a table from keys to sessions.
\<close>

section \<open>Virtual addresses\<close>

definition host_ip :: "nat \<Rightarrow> u32" where
  "host_ip k = VNET_SUBNET OR of_nat k"

lemma unat_host_ip:
  assumes "k < 256"
  shows "unat (host_ip k) = 0x0A0A0000 + k"
proof -
  have k: "of_nat k = take_bit 8 (of_nat k :: u32)"
    using assms by (simp add: take_bit_of_nat take_bit_nat_eq_self)
  have z: "push_bit 16 x AND take_bit 8 y = (0 :: u32)" for x y
    by (rule bit_word_eqI) (auto simp: bit_simps)
  have "(VNET_SUBNET :: u32) = push_bit 16 0x0A0A" by simp
  then have "VNET_SUBNET AND of_nat k = (0 :: u32)" using z [of "0x0A0A" "of_nat k"] k by (simp only:)
  then have "host_ip k = VNET_SUBNET + of_nat k"
    unfolding host_ip_def by (rule disjunctive_add_eq_or [symmetric])
  then show ?thesis
    using assms by (simp add: unat_word_ariths unat_of_nat take_bit_nat_def)
qed

lemma host_ip_inj: "j < 256 \<Longrightarrow> k < 256 \<Longrightarrow> host_ip j = host_ip k \<longleftrightarrow> j = k"
  by (metis add_left_cancel unat_host_ip)

lemma host_ip_ne_0: "k < 256 \<Longrightarrow> host_ip k \<noteq> 0"
  by (metis add_is_0 unat_0 unat_host_ip zero_neq_numeral)

lemma find_upt_Some:
  assumes "find P [a..<b] = Some k"
  shows "a \<le> k \<and> k < b \<and> P k \<and> (\<forall>j. a \<le> j \<and> j < k \<longrightarrow> \<not> P j)"
proof -
  obtain i where i: "i < b - a" "P (a + i)" "k = a + i" "\<forall>j < i. \<not> P (a + j)"
    using assms by (auto simp: find_Some_iff)
  have "\<not> P j" if "a \<le> j" "j < k" for j
    using i(3,4) that by (metis add_less_cancel_left le_Suc_ex)
  with i show ?thesis by auto
qed

lemma find_upt_None: "find P [a..<b] = None \<Longrightarrow> a \<le> k \<Longrightarrow> k < b \<Longrightarrow> \<not> P k"
  by (auto simp: find_None_iff)

text \<open>The address handed out is the first one of the host range that is free, or 0.\<close>

lemma allocateVirtualIP_cases:
  obtains (ip) k where "allocateVirtualIP r = host_ip k" "2 \<le> k" "k \<le> 254" "\<not> hasVirtualIP (host_ip k) r"
    "\<forall>j. 2 \<le> j \<and> j < k \<longrightarrow> hasVirtualIP (host_ip j) r"
  | (none) "allocateVirtualIP r = 0" "\<forall>k. 2 \<le> k \<and> k \<le> 254 \<longrightarrow> hasVirtualIP (host_ip k) r"
proof (cases "find (\<lambda>s. \<not> hasVirtualIP (host_ip s) r) [VNET_FIRST_HOST_SUFFIX..<Suc VNET_LAST_HOST_SUFFIX]")
  case None
  then have "allocateVirtualIP r = 0" unfolding allocateVirtualIP_def host_ip_def by (simp only: option.case)
  moreover have "\<forall>k. 2 \<le> k \<and> k \<le> 254 \<longrightarrow> hasVirtualIP (host_ip k) r"
    using find_upt_None [OF None] by (simp add: less_Suc_eq_le)
  ultimately show ?thesis by (rule none)
next
  case (Some k)
  then have "allocateVirtualIP r = host_ip k" unfolding allocateVirtualIP_def host_ip_def by (simp only: option.case)
  with find_upt_Some [OF Some] show ?thesis using ip [of k] by (simp add: less_Suc_eq_le)
qed

lemma allocateVirtualIP_found:
  assumes "length (rm_leases r) < 253"
  shows "allocateVirtualIP r \<noteq> 0"
proof (cases r rule: allocateVirtualIP_cases)
  case (ip k)
  then show ?thesis using host_ip_ne_0 [of k] by simp
next
  case none
  have "inj_on host_ip {2..254}" by (rule inj_onI) (simp add: host_ip_inj)
  then have "card (host_ip ` {2..254}) = 253" by (simp add: card_image)
  moreover have "host_ip ` {2..254} \<subseteq> set (map ls_virtualIP (rm_leases r))"
    using none(2) by (force simp: hasVirtualIP_def image_iff)
  then have "card (host_ip ` {2..254}) \<le> length (rm_leases r)"
    by (metis List.finite_set card_length card_mono length_map order.trans)
  ultimately show ?thesis using assms by simp
qed

section \<open>Rooms\<close>

definition room_core :: "Room \<Rightarrow> bool" where
  "room_core r \<longleftrightarrow>
     distinct (peerIds r) \<and> distinct (map ls_virtualIP (rm_leases r)) \<and>
     (\<forall>ip \<in> set (map ls_virtualIP (rm_leases r)). \<exists>k. 2 \<le> k \<and> k \<le> 254 \<and> ip = host_ip k) \<and>
     length (rm_leases r) \<le> unat (rm_maxPlayers r) \<and> unat (rm_maxPlayers r) \<le> MAX_PLAYERS"

definition room_inv :: "Room \<Rightarrow> bool" where
  "room_inv r \<longleftrightarrow> room_core r \<and> (rm_leases r \<noteq> [] \<longrightarrow> rm_hostPeerId r \<in> set (peerIds r))"

lemma leaseByPeerId_None: "leaseByPeerId p r = None \<longleftrightarrow> p \<notin> set (peerIds r)"
  by (auto simp: leaseByPeerId_def find_None_iff peerIds_def)

lemma hasLease_iff: "hasLease p r \<longleftrightarrow> p \<in> set (peerIds r)"
  by (simp add: hasLease_def leaseByPeerId_None)

lemma ensureHost_keeps [simp]:
  "rm_leases (ensureHost r) = rm_leases r" "rm_id (ensureHost r) = rm_id r" "peerIds (ensureHost r) = peerIds r"
  "rm_maxPlayers (ensureHost r) = rm_maxPlayers r"
  by (simp_all add: ensureHost_def peerIds_def split: list.split option.split)

lemma ensureHost_member: "rm_leases r \<noteq> [] \<Longrightarrow> rm_hostPeerId (ensureHost r) \<in> set (peerIds r)"
proof (cases "rm_hostPeerId r \<in> set (peerIds r)")
  case False
  assume "rm_leases r \<noteq> []"
  then obtain front ls where f: "rm_leases r = front # ls" by (cases "rm_leases r") auto
  have "l \<in> set (rm_leases r)" if "find ls_online (rm_leases r) = Some l" for l
    using that by (metis find_Some_iff nth_mem)
  with False f show ?thesis
    by (auto simp: ensureHost_def leaseByPeerId_None peerIds_def split: option.split)
next
  case True
  then have "leaseByPeerId (rm_hostPeerId r) r \<noteq> None" by (simp add: leaseByPeerId_None)
  with True show "rm_leases r \<noteq> [] \<Longrightarrow> ?thesis" by (auto simp: ensureHost_def split: list.split)
qed

text \<open>The invariant up to the host, which \<^verbatim>\<open>ensureHost\<close> then restores.\<close>

lemma room_inv_ensureHost: "room_core r \<Longrightarrow> room_inv (ensureHost r)"
  using ensureHost_member [of r] by (simp add: room_inv_def room_core_def)

lemma room_inv_core: "room_inv r \<Longrightarrow> room_core r"
  by (simp add: room_inv_def)

lemma room_inv_ips:
  "room_inv r \<Longrightarrow> ip \<in> set (map ls_virtualIP (rm_leases r)) \<Longrightarrow> \<exists>k. 2 \<le> k \<and> k \<le> 254 \<and> ip = host_ip k"
  unfolding room_inv_def room_core_def by (drule conjunct1, drule conjunct2, drule conjunct2, drule conjunct1, erule bspec)

lemma updLease_maps:
  assumes "\<And>l. ls_peerId (f l) = ls_peerId l" "\<And>l. ls_virtualIP (f l) = ls_virtualIP l"
  shows "map ls_peerId (updLease p f ls) = map ls_peerId ls" "map ls_virtualIP (updLease p f ls) = map ls_virtualIP ls"
    "length (updLease p f ls) = length ls"
  using assms by (induction ls) auto

lemma room_core_cong:
  "room_core r \<Longrightarrow> map ls_peerId (rm_leases r') = map ls_peerId (rm_leases r) \<Longrightarrow>
   map ls_virtualIP (rm_leases r') = map ls_virtualIP (rm_leases r) \<Longrightarrow> rm_maxPlayers r' = rm_maxPlayers r \<Longrightarrow> room_core r'"
  unfolding room_core_def peerIds_def by (metis length_map)

lemma eraseLease_Some:
  "eraseLease p ls = Some ls' \<Longrightarrow> \<exists>xs l ys. ls = xs @ l # ys \<and> ls' = xs @ ys \<and> ls_peerId l = p"
proof (induction ls arbitrary: ls')
  case (Cons a ls)
  show ?case
  proof (cases "ls_peerId a = p")
    case True
    with Cons.prems show ?thesis by (intro exI [of _ "[]"] exI [of _ a] exI [of _ ls]) simp
  next
    case False
    with Cons.prems obtain l1 where "eraseLease p ls = Some l1" "ls' = a # l1" by auto
    with Cons.IH [of l1] show ?thesis by (metis append_Cons)
  qed
qed simp

lemma eraseLease_None: "eraseLease p ls = None \<longleftrightarrow> p \<notin> ls_peerId ` set ls"
  by (induction ls) auto

subsection \<open>The operations\<close>

text \<open>
  The contract of an operation on one room: it keeps the invariant and the room's number.
  What follows from it for the table of rooms is proved once.
\<close>

definition rooms_inv :: "(u32, Room) omap \<Rightarrow> bool" where
  "rooms_inv rooms \<longleftrightarrow> om_ok rooms \<and> (\<forall>(i, r) \<in> set rooms. rm_id r = i \<and> room_inv r)"

locale room_operation =
  fixes f :: "Room \<Rightarrow> Room"
  assumes keeps_inv: "room_inv r \<Longrightarrow> room_inv (f r)"
    and keeps_id: "rm_id (f r) = rm_id r"
begin

lemma rooms_inv_adj: "rooms_inv rooms \<Longrightarrow> rooms_inv (om_adj i f rooms)"
  by (auto simp: rooms_inv_def om_adj_def om_ok_adj [unfolded om_adj_def] keeps_inv keeps_id split: if_splits)

lemma keys_updRoom: "map fst (mg_rooms (updRoom i f m)) = map fst (mg_rooms m)"
  by (simp add: updRoom_def)

end

lemma addLease_cases:
  obtains (fail) "isFull r \<or> hasLease p r \<or> allocateVirtualIP r = 0" "addLease p nm tok r = (None, r)"
  | (ok) l where "\<not> isFull r" "\<not> hasLease p r" "ls_peerId l = p" "ls_virtualIP l = allocateVirtualIP r"
      "\<not> hasVirtualIP (ls_virtualIP l) r" "\<exists>k. 2 \<le> k \<and> k \<le> 254 \<and> ls_virtualIP l = host_ip k"
      "ls_name l = nm" "ls_online l"
      "addLease p nm tok r = (Some l, ensureHost (r\<lparr>rm_leases := rm_leases r @ [l], rm_emptyTimestamp := 0\<rparr>))"
proof (cases "isFull r \<or> hasLease p r \<or> allocateVirtualIP r = 0")
  case False
  then show ?thesis
  proof (cases r rule: allocateVirtualIP_cases)
    case (ip k)
    let ?l = "newRoomLease\<lparr>ls_peerId := p, ls_virtualIP := host_ip k, ls_name := nm,
         ls_online := True, ls_offlineSince := 0, ls_expiresAt := 0\<rparr>"
    let ?m = "case tok of Some t \<Rightarrow> ?l\<lparr>ls_token := take RECONNECT_TOKEN_SIZE t\<rparr> | None \<Rightarrow> ?l"
    show ?thesis
      by (rule ok [of ?m]) (use False ip in \<open>auto simp: addLease_def Let_def split: option.split\<close>)
  qed (use False in simp)
qed (use fail in \<open>auto simp: addLease_def Let_def\<close>)

interpretation op_add: room_operation "\<lambda>r. snd (addLease p nm tok r)" for p nm tok
proof
  fix r assume inv: "room_inv r"
  then have core: "room_core r" by (rule room_inv_core)
  show "room_inv (snd (addLease p nm tok r))"
  proof (cases rule: addLease_cases [of r p nm tok, case_names fail ok])
    case (ok l)
    then have "room_core (r\<lparr>rm_leases := rm_leases r @ [l], rm_emptyTimestamp := 0\<rparr>)"
      using core by (auto simp: room_core_def isFull_def hasLease_iff hasVirtualIP_def peerIds_def)
    then show ?thesis unfolding ok by (simp add: room_inv_ensureHost)
  qed (use inv in simp)
next
  show "rm_id (snd (addLease p nm tok r)) = rm_id r" for r
    by (simp add: addLease_def Let_def)
qed

interpretation op_remove: room_operation "\<lambda>r. snd (removeLease now p r)" for now p
proof
  fix r assume inv: "room_inv r"
  show "room_inv (snd (removeLease now p r))"
  proof (cases "eraseLease p (rm_leases r)")
    case (Some ls)
    then obtain xs l ys where "rm_leases r = xs @ l # ys" "ls = xs @ ys" by (blast dest: eraseLease_Some)
    then have "room_core (r\<lparr>rm_leases := ls\<rparr>)" "room_core (r\<lparr>rm_leases := ls, rm_emptyTimestamp := now\<rparr>)"
      using room_inv_core [OF inv] by (auto simp: room_core_def peerIds_def)
    with Some show ?thesis by (cases "ls = []") (simp_all add: removeLease_def Let_def room_inv_ensureHost)
  qed (use inv in \<open>simp add: removeLease_def\<close>)
next
  show "rm_id (snd (removeLease now p r)) = rm_id r" for r
    by (simp add: removeLease_def Let_def split: option.split)
qed

interpretation op_offline: room_operation "\<lambda>r. snd (markLeaseOffline p now r)" for now p
proof
  fix r assume inv: "room_inv r"
  let ?r = "r\<lparr>rm_leases := updLease p (\<lambda>l. l\<lparr>ls_online := False, ls_offlineSince := now,
                       ls_expiresAt := now + RECONNECT_LEASE_TIMEOUT_SEC\<rparr>) (rm_leases r)\<rparr>"
  have "room_core ?r" by (rule room_core_cong [OF room_inv_core [OF inv]]) (simp_all add: updLease_maps)
  moreover have "peerIds ?r = peerIds r" "rm_leases ?r = [] \<longleftrightarrow> rm_leases r = []"
    by (simp_all add: peerIds_def updLease_maps flip: length_0_conv)
  ultimately show "room_inv (snd (markLeaseOffline p now r))"
    using inv by (simp add: markLeaseOffline_def room_inv_def)
next
  show "rm_id (snd (markLeaseOffline p now r)) = rm_id r" for r by (simp add: markLeaseOffline_def)
qed

interpretation op_online: room_operation "\<lambda>r. snd (markLeaseOnline p r)" for p
proof
  fix r assume inv: "room_inv r"
  have "room_core (r\<lparr>rm_leases := updLease p (\<lambda>l. l\<lparr>ls_online := True, ls_offlineSince := 0,
                       ls_expiresAt := 0\<rparr>) (rm_leases r)\<rparr>)"
    by (rule room_core_cong [OF room_inv_core [OF inv]]) (simp_all add: updLease_maps)
  then show "room_inv (snd (markLeaseOnline p r))"
    using inv by (simp add: markLeaseOnline_def room_inv_ensureHost)
next
  show "rm_id (snd (markLeaseOnline p r)) = rm_id r" for r by (simp add: markLeaseOnline_def)
qed

interpretation op_host: room_operation ensureHost
  by unfold_locales (auto intro: room_inv_ensureHost room_inv_core)

section \<open>Pools of identifiers\<close>

text \<open>
  Numbers in use and numbers given back partition the numbers below the next fresh one.
\<close>

definition pool_inv :: "u32 set \<Rightarrow> (u32, unit) omap \<Rightarrow> u32 \<Rightarrow> bool" where
  "pool_inv used free nxt \<longleftrightarrow> om_ok free \<and> nxt \<noteq> 0 \<and> used \<inter> fst ` set free = {} \<and>
     used \<union> fst ` set free = {i. i \<noteq> 0 \<and> i < nxt}"

lemma card_below: "card {i :: u32. i \<noteq> 0 \<and> i < n} = unat n - 1"
proof -
  have "{i :: u32. i \<noteq> 0 \<and> i < n} = word_of_nat ` {1..<unat n}"
  proof (intro set_eqI iffI)
    fix i assume "i \<in> {i :: u32. i \<noteq> 0 \<and> i < n}"
    then have "unat i \<in> {1..<unat n}" by (auto simp: word_less_nat_alt unat_gt_0 Suc_le_eq)
    then show "i \<in> word_of_nat ` {1..<unat n}" by (rule image_eqI [rotated]) simp
  next
    fix i assume "i \<in> (word_of_nat :: nat \<Rightarrow> u32) ` {1..<unat n}"
    then obtain k where k: "i = word_of_nat k" "1 \<le> k" "k < unat n" by auto
    then have "unat i = k" using unsigned_less [of n, where ?'a = nat] by (simp add: unat_of_nat_small)
    with k show "i \<in> {i :: u32. i \<noteq> 0 \<and> i < n}" by (auto simp: word_less_nat_alt)
  qed
  moreover have "inj_on (word_of_nat :: nat \<Rightarrow> u32) {1..<unat n}"
  proof (rule inj_onI)
    fix x y assume "x \<in> {1..<unat n}" "y \<in> {1..<unat n}" "(word_of_nat x :: u32) = word_of_nat y"
    then show "x = y" using unsigned_less [of n, where ?'a = nat]
      by (metis (no_types, lifting) atLeastLessThan_iff less_trans unat_of_nat_small)
  qed
  ultimately show ?thesis by (simp add: card_image)
qed

locale id_pool =
  fixes alloc :: "'s \<Rightarrow> u32 \<times> 's" and frees :: "'s \<Rightarrow> (u32, unit) omap" and nxt :: "'s \<Rightarrow> u32"
  assumes alloc_free: "frees s = e # rest \<Longrightarrow>
      fst (alloc s) = fst e \<and> frees (snd (alloc s)) = rest \<and> nxt (snd (alloc s)) = nxt s"
    and alloc_fresh: "frees s = [] \<Longrightarrow>
      fst (alloc s) = nxt s \<and> frees (snd (alloc s)) = [] \<and> nxt (snd (alloc s)) = nxt s + 1"
begin

lemma alloc_inv:
  assumes inv: "pool_inv used (frees s) (nxt s)" and room: "card used < 2 ^ 32 - 2"
  shows "fst (alloc s) \<notin> used \<and> fst (alloc s) \<noteq> 0 \<and>
     pool_inv (insert (fst (alloc s)) used) (frees (snd (alloc s))) (nxt (snd (alloc s)))"
proof (cases "frees s")
  case (Cons e rest)
  obtain i u where e: "e = (i, u)" by (cases e)
  have "om_ok ((i, u) # rest)" using inv Cons e by (simp add: pool_inv_def)
  then have "om_ok rest" "fst e \<notin> fst ` set rest" using e by (auto simp: om_ok_Cons)
  with Cons alloc_free [OF Cons] inv show ?thesis by (auto simp: pool_inv_def)
next
  case Nil
  then have used: "used = {i. i \<noteq> 0 \<and> i < nxt s}" "nxt s \<noteq> 0" using inv by (auto simp: pool_inv_def)
  then have "unat (nxt s) < 2 ^ 32 - 1" using room card_below [of "nxt s"] by simp
  then have "nxt s \<noteq> -1" by (auto simp: unsigned_minus_1_eq_mask mask_eq_exp_minus_1)
  then have "unat (nxt s + 1) = Suc (unat (nxt s))" by (rule unat_plus_one)
  then have "i < nxt s + 1 \<longleftrightarrow> i < nxt s \<or> i = nxt s" for i
    by (auto simp: word_less_nat_alt less_Suc_eq word_unat_eq_iff)
  moreover have "nxt s + 1 \<noteq> 0" using \<open>unat (nxt s + 1) = Suc (unat (nxt s))\<close> by (metis nat.distinct(1) unat_0)
  ultimately show ?thesis
    using alloc_fresh [OF Nil] used by (auto simp: pool_inv_def)
qed

end

lemma pool_release:
  "pool_inv used free nxt \<Longrightarrow> i \<in> used \<Longrightarrow> pool_inv (used - {i}) (om_upd i () free) nxt"
  by (auto simp: pool_inv_def)

interpretation room_pool: id_pool allocateRoomId mg_freeRoomIds mg_nextRoomId
  by unfold_locales (auto simp: allocateRoomId_def)

section \<open>The room manager\<close>

definition mgr_inv :: "RoomManager \<Rightarrow> bool" where
  "mgr_inv m \<longleftrightarrow> rooms_inv (mg_rooms m) \<and> pool_inv (fst ` set (mg_rooms m)) (mg_freeRoomIds m) (mg_nextRoomId m)"

lemma mgr_inv_new: "mgr_inv newRoomManager"
proof -
  have "{i :: u32. i \<noteq> 0 \<and> i < 1} = {}" by (auto simp: word_less_nat_alt unat_eq_zero)
  then show ?thesis by (simp add: mgr_inv_def newRoomManager_def rooms_inv_def pool_inv_def)
qed

lemma allocateRoomId_rooms [simp]: "mg_rooms (snd (allocateRoomId m)) = mg_rooms m"
  by (simp add: allocateRoomId_def split: list.split)

lemma set_om_upd_fresh: "k \<notin> fst ` set m \<Longrightarrow> set (om_upd k v m) = insert (k, v) (set m)"
  by (induction k v m rule: om_upd.induct) auto

lemma createRoom_effect:
  fixes m
  defines "i \<equiv> fst (allocateRoomId m)"
  shows "mg_rooms (snd (createRoom nm h mp tp up mtu pp ph ps m)) =
      om_upd i (fst (createRoom nm h mp tp up mtu pp ph ps m)) (mg_rooms m)"
    and "mg_freeRoomIds (snd (createRoom nm h mp tp up mtu pp ph ps m)) = mg_freeRoomIds (snd (allocateRoomId m))"
    and "mg_nextRoomId (snd (createRoom nm h mp tp up mtu pp ph ps m)) = mg_nextRoomId (snd (allocateRoomId m))"
    and "rm_id (fst (createRoom nm h mp tp up mtu pp ph ps m)) = i"
    and "rm_leases (fst (createRoom nm h mp tp up mtu pp ph ps m)) = []"
    and "rm_maxPlayers (fst (createRoom nm h mp tp up mtu pp ph ps m)) = mp"
  using allocateRoomId_rooms [of m]
  by (auto simp: createRoom_def Let_def i_def newRoom_def case_prod_unfold split: option.split)

lemma createRoom_inv:
  assumes inv: "mgr_inv m" and "length (mg_rooms m) < 2 ^ 32 - 2" and mp: "unat mp \<le> MAX_PLAYERS"
  shows "mgr_inv (snd (createRoom nm h mp tp up mtu pp ph ps m)) \<and>
     getRoom (rm_id (fst (createRoom nm h mp tp up mtu pp ph ps m))) m = None \<and>
     rm_id (fst (createRoom nm h mp tp up mtu pp ph ps m)) \<noteq> 0 \<and>
     (\<forall>j. getRoom j (snd (createRoom nm h mp tp up mtu pp ph ps m)) =
        (if j = rm_id (fst (createRoom nm h mp tp up mtu pp ph ps m))
         then Some (fst (createRoom nm h mp tp up mtu pp ph ps m)) else getRoom j m))"
proof -
  let ?c = "createRoom nm h mp tp up mtu pp ph ps m" and ?i = "fst (allocateRoomId m)"
  have "card (fst ` set (mg_rooms m)) < 2 ^ 32 - 2"
    using assms(2) card_length [of "map fst (mg_rooms m)"] by simp
  then have p: "?i \<notin> fst ` set (mg_rooms m)" "?i \<noteq> 0"
      "pool_inv (insert ?i (fst ` set (mg_rooms m))) (mg_freeRoomIds (snd (allocateRoomId m))) (mg_nextRoomId (snd (allocateRoomId m)))"
    using room_pool.alloc_inv [of "fst ` set (mg_rooms m)" m] inv by (auto simp: mgr_inv_def)
  have "room_inv (fst ?c)"
    using mp by (simp add: room_inv_def room_core_def createRoom_effect peerIds_def)
  then have "mgr_inv (snd ?c)"
    using inv p by (auto simp: mgr_inv_def rooms_inv_def createRoom_effect set_om_upd_fresh)
  moreover have "map_of (mg_rooms m) ?i = None" using p(1) by (simp add: map_of_eq_None_iff)
  ultimately show ?thesis using p(2) by (simp add: getRoom_def createRoom_effect)
qed

lemma eraseRoom_inv:
  assumes "mgr_inv m"
  shows "mgr_inv (eraseRoom i m)"
proof (cases "map_of (mg_rooms m) i")
  case (Some r)
  then have i: "i \<in> fst ` set (mg_rooms m)" by (rule map_of_Some_in_fst)
  then have "i \<noteq> 0" using assms by (auto simp: mgr_inv_def pool_inv_def)
  have "fst ` set (om_del i (mg_rooms m)) = fst ` set (mg_rooms m) - {i}" by force
  with Some i \<open>i \<noteq> 0\<close> assms pool_release [OF _ i] show ?thesis
    by (auto simp: eraseRoom_def Let_def mgr_inv_def rooms_inv_def)
qed (use assms in \<open>simp add: eraseRoom_def\<close>)

lemma cleanup_loop_spec:
  assumes "cleanup_loop rs free changed = (rs', free', changed')" "om_ok rs"
  shows "rs' = filter (\<lambda>(i, r). rm_leases r \<noteq> []) rs \<and>
     free' = fold (\<lambda>(i, r) f. om_upd i () f) (filter (\<lambda>(i, r). rm_leases r = []) rs) free \<and>
     (changed' \<longleftrightarrow> changed \<or> (\<exists>(i, r) \<in> set rs. rm_leases r = []))"
  using assms
  by (induction rs free changed arbitrary: rs' rule: cleanup_loop.induct)
     (auto simp: om_ok_Cons split: if_splits prod.splits)

lemma pool_release_all:
  assumes "pool_inv used free nxt" "distinct (map fst es)" "fst ` set es \<subseteq> used"
  shows "pool_inv (used - fst ` set es) (fold (\<lambda>(i, r) f. om_upd i () f) es free) nxt"
  using assms
proof (induction es arbitrary: used free)
  case (Cons e es)
  obtain i r where e: "e = (i, r)" by fastforce
  have "pool_inv (used - {i}) (om_upd i () free) nxt" using Cons.prems e by (intro pool_release) auto
  from Cons.IH [OF this] Cons.prems e show ?case
    by (simp add: image_iff Diff_insert2 [symmetric] subset_Diff_insert) 
qed simp

lemma om_ok_filter: "om_ok m \<Longrightarrow> om_ok (filter P m)"
  by (simp add: om_ok_def sorted_wrt_map sorted_wrt_filter)

lemma cleanupEmptyRooms_inv:
  assumes "mgr_inv m"
  shows "mgr_inv (snd (cleanupEmptyRooms m)) \<and>
     mg_rooms (snd (cleanupEmptyRooms m)) = filter (\<lambda>(i, r). rm_leases r \<noteq> []) (mg_rooms m) \<and>
     (fst (cleanupEmptyRooms m) \<longleftrightarrow> (\<exists>(i, r) \<in> set (mg_rooms m). rm_leases r = []))"
proof -
  let ?rs = "mg_rooms m"
  have ok: "om_ok ?rs" using assms by (simp add: mgr_inv_def rooms_inv_def)
  obtain rs free ch where c: "cleanup_loop ?rs (mg_freeRoomIds m) False = (rs, free, ch)" by (metis prod_cases3)
  note s = cleanup_loop_spec [OF c ok]
  let ?del = "filter (\<lambda>(i, r). rm_leases r = []) ?rs"
  have d: "distinct (map fst ?rs)" using ok by (rule om_ok_distinct)
  have "pool_inv (fst ` set ?rs - fst ` set ?del) free (mg_nextRoomId m)"
    using pool_release_all [of "fst ` set ?rs" "mg_freeRoomIds m" "mg_nextRoomId m" ?del] assms d s
    by (auto simp: mgr_inv_def distinct_map_filter)
  moreover have "fst ` set ?rs - fst ` set ?del = fst ` set rs"
    using d s by (auto simp: image_iff distinct_map inj_on_def)
  moreover have "om_ok rs" using ok s by (simp add: om_ok_filter)
  ultimately show ?thesis
    using assms s c by (auto simp: cleanupEmptyRooms_def mgr_inv_def rooms_inv_def)
qed

subsection \<open>Reachable managers\<close>

text \<open>
  The operations the server performs on the manager, in any order.  A room is created only
  below the limit of rooms and for at most \<open>MAX_PLAYERS\<close> players; a room is changed only through
  its own operations.
\<close>

inductive mgr_step :: "RoomManager \<Rightarrow> RoomManager \<Rightarrow> bool" where
  create: "managerSize m < 2 ^ 32 - 2 \<Longrightarrow> unat mp \<le> MAX_PLAYERS \<Longrightarrow>
     mgr_step m (snd (createRoom nm h mp tp up mtu pp ph ps m))"
| add: "mgr_step m (updRoom i (\<lambda>r. snd (addLease p nm tok r)) m)"
| remove: "mgr_step m (updRoom i (\<lambda>r. snd (removeLease now p r)) m)"
| offline: "mgr_step m (updRoom i (\<lambda>r. snd (markLeaseOffline p now r)) m)"
| online: "mgr_step m (updRoom i (\<lambda>r. snd (markLeaseOnline p r)) m)"
| host: "mgr_step m (managerEnsureHost i m)"
| erase: "mgr_step m (eraseRoom i m)"
| cleanup: "mgr_step m (snd (cleanupEmptyRooms m))"

inductive mgr_reach :: "RoomManager \<Rightarrow> bool" where
  start: "mgr_reach newRoomManager"
| step: "mgr_reach m \<Longrightarrow> mgr_step m m' \<Longrightarrow> mgr_reach m'"

lemma updRoom_inv:
  assumes "mgr_inv m" "\<And>r. room_inv r \<Longrightarrow> room_inv (f r)" "\<And>r. rm_id (f r) = rm_id r"
  shows "mgr_inv (updRoom i f m)"
proof -
  have "fst ` set (om_adj i f (mg_rooms m)) = fst ` set (mg_rooms m)"
    by (metis list.set_map om_keys_adj)
  moreover have "rooms_inv (om_adj i f (mg_rooms m))"
    using assms by (auto simp: mgr_inv_def intro!: room_operation.rooms_inv_adj room_operation.intro)
  ultimately show ?thesis using assms(1) by (simp add: mgr_inv_def updRoom_def)
qed

lemma managerEnsureHost_inv: "mgr_inv m \<Longrightarrow> mgr_inv (managerEnsureHost i m)"
  by (simp add: managerEnsureHost_def updRoom_inv op_host.keeps_inv split: option.split)

lemma mgr_step_inv: "mgr_step m m' \<Longrightarrow> mgr_inv m \<Longrightarrow> mgr_inv m'"
proof (induction rule: mgr_step.induct)
  case (create m)
  then show ?case using createRoom_inv by (simp add: managerSize_def)
qed (simp_all add: updRoom_inv op_add.keeps_inv op_add.keeps_id op_remove.keeps_inv op_remove.keeps_id
       op_offline.keeps_inv op_offline.keeps_id op_online.keeps_inv op_online.keeps_id
       managerEnsureHost_inv eraseRoom_inv cleanupEmptyRooms_inv)

lemma mgr_reach_inv: "mgr_reach m \<Longrightarrow> mgr_inv m"
  by (induction rule: mgr_reach.induct) (auto simp: mgr_inv_new intro: mgr_step_inv)

text \<open>What the invariant says of one room.\<close>

lemma mgr_inv_room:
  assumes inv: "mgr_inv m" and "getRoom i m = Some r"
  shows "rm_id r = i \<and> i \<noteq> 0 \<and> i \<notin> fst ` set (mg_freeRoomIds m) \<and>
     distinct (peerIds r) \<and> distinct (map ls_virtualIP (rm_leases r)) \<and>
     (\<forall>ip \<in> set (map ls_virtualIP (rm_leases r)). 0x0A0A0002 \<le> unat ip \<and> unat ip \<le> 0x0A0A00FE) \<and>
     length (rm_leases r) \<le> unat (rm_maxPlayers r) \<and> unat (rm_maxPlayers r) \<le> MAX_PLAYERS \<and>
     (rm_leases r \<noteq> [] \<longrightarrow> hasLease (rm_hostPeerId r) r)"
proof -
  have "(i, r) \<in> set (mg_rooms m)" using assms(2) by (simp add: getRoom_def map_of_SomeD)
  with inv have "rm_id r = i" "room_inv r" "i \<in> fst ` set (mg_rooms m)"
    by (force simp: mgr_inv_def rooms_inv_def)+
  moreover have "0x0A0A0002 \<le> unat ip \<and> unat ip \<le> 0x0A0A00FE"
    if "ip \<in> set (map ls_virtualIP (rm_leases r))" for ip
    using room_inv_ips [OF \<open>room_inv r\<close> that] by (auto simp: unat_host_ip)
  moreover have "i \<noteq> 0" "i \<notin> fst ` set (mg_freeRoomIds m)"
    using inv \<open>i \<in> fst ` set (mg_rooms m)\<close> unfolding mgr_inv_def pool_inv_def by blast+
  ultimately show ?thesis by (simp only: room_inv_def room_core_def hasLease_iff) blast
qed

text \<open>
  C2. In every state the room manager can reach, a stored room carries the number it is stored
  under, its members have distinct peer numbers and distinct virtual addresses inside
  10.10.0.2 to 10.10.0.254, there are at most \<^verbatim>\<open>maxPlayers\<close> of them, and a room with members
  is hosted by one of them; the rooms' numbers and the numbers waiting for reuse are disjoint.
\<close>

theorem room_manager_invariant:
  assumes "mgr_reach m" "getRoom i m = Some r"
  shows "rm_id r = i \<and> i \<noteq> 0 \<and> i \<notin> fst ` set (mg_freeRoomIds m) \<and>
     distinct (peerIds r) \<and> distinct (map ls_virtualIP (rm_leases r)) \<and>
     (\<forall>ip \<in> set (map ls_virtualIP (rm_leases r)). 0x0A0A0002 \<le> unat ip \<and> unat ip \<le> 0x0A0A00FE) \<and>
     length (rm_leases r) \<le> unat (rm_maxPlayers r) \<and> unat (rm_maxPlayers r) \<le> MAX_PLAYERS \<and>
     (rm_leases r \<noteq> [] \<longrightarrow> hasLease (rm_hostPeerId r) r)"
  using mgr_inv_room [OF mgr_reach_inv [OF assms(1)] assms(2)] .

definition demo_manager :: RoomManager where
  "demo_manager = updRoom 1 (\<lambda>r. snd (addLease 7 [65] None r))
     (snd (createRoom [65] 7 2 makeDefaultTcpPolicy makeDefaultUdpPolicy 1280 0 None None newRoomManager))"

lemma demo_manager_reach: "mgr_reach demo_manager"
  unfolding demo_manager_def
  by (rule mgr_reach.step [OF mgr_reach.step [OF mgr_reach.start mgr_step.create] mgr_step.add])
     (simp_all add: managerSize_def newRoomManager_def)

lemma demo_manager_room:
  "getRoom 1 demo_manager = Some (snd (addLease 7 [65] None (fst (createRoom [65] 7 2
     makeDefaultTcpPolicy makeDefaultUdpPolicy 1280 0 None None newRoomManager))))"
  by (simp add: demo_manager_def getRoom_def updRoom_def createRoom_def newRoomManager_def allocateRoomId_def Let_def)

theorem room_manager_invariant_witness:
  "\<exists>r. getRoom 1 demo_manager = Some r \<and> rm_id r = 1 \<and> distinct (peerIds r)"
  using room_manager_invariant [OF demo_manager_reach demo_manager_room] demo_manager_room by simp

text \<open>
  C33. Seating a peer: in a consistent room a seat is refused exactly when the room is full or
  the peer already has one, and then nothing changes; otherwise the new member is appended,
  online, with the lowest free address of the subnet, everyone else keeps their seat, and the
  room's invariant still holds.
\<close>

theorem addLease_outcome:
  assumes inv: "room_inv r"
  shows "if isFull r \<or> hasLease p r then addLease p nm tok r = (None, r)
     else \<exists>l k. fst (addLease p nm tok r) = Some l \<and> rm_leases (snd (addLease p nm tok r)) = rm_leases r @ [l] \<and>
       ls_peerId l = p \<and> ls_name l = nm \<and> ls_online l \<and> ls_virtualIP l = VNET_SUBNET OR of_nat k \<and>
       2 \<le> k \<and> k \<le> 254 \<and> \<not> hasVirtualIP (VNET_SUBNET OR of_nat k) r \<and>
       (\<forall>j. 2 \<le> j \<and> j < k \<longrightarrow> hasVirtualIP (VNET_SUBNET OR of_nat j) r) \<and>
       room_inv (snd (addLease p nm tok r))"
proof (cases "isFull r \<or> hasLease p r")
  case False
  then have "length (rm_leases r) < 253" using inv by (simp add: isFull_def room_inv_def room_core_def)
  then have "allocateVirtualIP r \<noteq> 0" by (rule allocateVirtualIP_found)
  then obtain k where k: "allocateVirtualIP r = host_ip k" "2 \<le> k" "k \<le> 254" "\<not> hasVirtualIP (host_ip k) r"
      "\<forall>j. 2 \<le> j \<and> j < k \<longrightarrow> hasVirtualIP (host_ip j) r"
    by (metis allocateVirtualIP_cases)
  show ?thesis
  proof (cases rule: addLease_cases [of r p nm tok, case_names fail ok])
    case (ok l)
    with k False op_add.keeps_inv [OF inv, of p nm tok] show ?thesis
      by (simp add: ok(9)) (rule exI [of _ k], simp add: host_ip_def)
  qed (use False \<open>allocateVirtualIP r \<noteq> 0\<close> in simp)
qed (simp add: addLease_def)

theorem addLease_outcome_witness:
  "\<exists>l k. fst (addLease 7 [65] None newRoom) = Some l \<and> ls_virtualIP l = VNET_SUBNET OR of_nat k"
proof -
  have "room_inv newRoom" by (simp add: room_inv_def room_core_def newRoom_def peerIds_def)
  moreover have "\<not> (isFull newRoom \<or> hasLease 7 newRoom)"
    by (simp add: isFull_def newRoom_def hasLease_def leaseByPeerId_def)
  ultimately show ?thesis using addLease_outcome [of newRoom 7 "[65]" None] by auto
qed

text \<open>
  Creating a room takes a number that no stored room has, stores exactly the new room under
  it and leaves every other room as it was.
\<close>

lemma createRoom_takes_fresh_id:
  assumes "mgr_reach m" "managerSize m < 2 ^ 32 - 2" "unat mp \<le> MAX_PLAYERS"
    and "createRoom nm h mp tp up mtu pp ph ps m = (r, m')"
  shows "getRoom (rm_id r) m = None \<and> rm_id r \<noteq> 0 \<and>
     (\<forall>j. getRoom j m' = (if j = rm_id r then Some r else getRoom j m)) \<and> mgr_reach m'"
proof -
  have "mgr_reach m'" using mgr_reach.step [OF assms(1) mgr_step.create, OF assms(2,3)] assms(4) by (metis snd_conv)
  then show ?thesis
    using createRoom_inv [OF mgr_reach_inv [OF assms(1)], of mp nm h tp up mtu pp ph ps] assms(2-4)
    by (simp add: managerSize_def)
qed

section \<open>Session indexes\<close>

text \<open>
  A table from keys (peer numbers, secure session numbers, data sockets) to the sessions that
  own them.  A session may take a free key and drop its own; nothing a session does moves a
  key another session owns.
\<close>

datatype 'k index_op = Bind 'k int | Unbind 'k int

primrec op_fd :: "'k index_op \<Rightarrow> int" where
  "op_fd (Bind k fd) = fd"
| "op_fd (Unbind k fd) = fd"

locale session_index =
  fixes bindf :: "'k \<Rightarrow> int \<Rightarrow> 'm \<Rightarrow> bool \<times> 'm" and unbindf :: "'k \<Rightarrow> int \<Rightarrow> 'm \<Rightarrow> 'm"
    and owner :: "'m \<Rightarrow> 'k \<Rightarrow> int option"
  assumes bind_result: "fst (bindf k fd m) \<longleftrightarrow> owner m k = None \<or> owner m k = Some fd"
    and owner_bind: "owner (snd (bindf k fd m)) x = (if fst (bindf k fd m) \<and> x = k then Some fd else owner m x)"
    and owner_unbind: "owner (unbindf k fd m) x = (if x = k \<and> owner m k = Some fd then None else owner m x)"
begin

definition exec :: "'k index_op \<Rightarrow> 'm \<Rightarrow> 'm" where
  "exec op m = (case op of Bind k fd \<Rightarrow> snd (bindf k fd m) | Unbind k fd \<Rightarrow> unbindf k fd m)"

lemma exec_other: "owner m k = Some fd \<Longrightarrow> op_fd op \<noteq> fd \<Longrightarrow> owner (exec op m) k = Some fd"
  by (cases op) (auto simp: exec_def owner_bind owner_unbind bind_result)

lemma owner_keeps_key:
  "owner m k = Some fd \<Longrightarrow> \<forall>op \<in> set ops. op_fd op \<noteq> fd \<Longrightarrow> owner (fold exec ops m) k = Some fd"
  by (induction ops arbitrary: m) (auto simp: exec_other)

lemma taken_key_refused:
  "owner m k = Some fd \<Longrightarrow> \<forall>op \<in> set ops. op_fd op \<noteq> fd \<Longrightarrow> fd' \<noteq> fd \<Longrightarrow> \<not> fst (bindf k fd' (fold exec ops m))"
  using owner_keeps_key [of m k fd ops] by (simp add: bind_result)

end

interpretation sidx: session_index bindUniqueSessionIndex unbindSessionIndex map_of
  by unfold_locales (auto simp: bindUniqueSessionIndex_def unbindSessionIndex_def split: option.splits if_splits)

definition index_step :: "'k::linorder index_op \<Rightarrow> ('k, int) omap \<Rightarrow> ('k, int) omap" where
  "index_step op m = (case op of Bind k fd \<Rightarrow> snd (bindUniqueSessionIndex k fd m) | Unbind k fd \<Rightarrow> unbindSessionIndex k fd m)"

lemma index_step_exec: "index_step = sidx.exec"
  by (rule ext)+ (simp add: index_step_def sidx.exec_def)

text \<open>
  Ownership of an index entry: once a session owns a key, then whatever any number of other
  sessions bind and unbind afterwards, the key still leads to it and every attempt of another
  session to bind that key is refused.
\<close>

lemma index_ownership:
  assumes "fst (bindUniqueSessionIndex k fd m)" and "\<forall>op \<in> set ops. op_fd op \<noteq> fd"
  shows "map_of (fold index_step ops (snd (bindUniqueSessionIndex k fd m))) k = Some fd \<and>
     (\<forall>fd'. fd' \<noteq> fd \<longrightarrow> \<not> fst (bindUniqueSessionIndex k fd' (fold index_step ops (snd (bindUniqueSessionIndex k fd m)))))"
proof -
  have "map_of (snd (bindUniqueSessionIndex k fd m)) k = Some fd" using assms(1) by (simp add: sidx.owner_bind)
  then show ?thesis using assms(2) sidx.owner_keeps_key sidx.taken_key_refused unfolding index_step_exec by blast
qed

section \<open>The session state machine\<close>

text \<open>
  Which messages reach a handler: a handshake message only in the one state that waits for it,
  a ping from the login step on, and every other message only in a state that has a peer
  identity; a closing session dispatches nothing; a misplaced handshake message closes the
  session, any other misplaced message is answered with a state error, an unknown one ignored.
\<close>

lemma classify_dispatch:
  "(classifyClientSignalMessage st t = Dispatch \<longrightarrow>
      st \<noteq> Closing \<and> isKnownClientSignalMessage t \<and> t \<noteq> MSG_ENCRYPTED \<and>
      (t = MSG_CLIENT_HELLO \<longrightarrow> st = AwaitHello) \<and> (t = MSG_SERVER_AUTH \<longrightarrow> st = AwaitServerAuth) \<and>
      (t = MSG_LOGIN \<longrightarrow> st = AwaitLogin) \<and>
      (t = MSG_PING \<longrightarrow> st = AwaitLogin \<or> sessionHasPeerIdentity st) \<and>
      (\<not> isClientHandshakeMessage t \<and> t \<noteq> MSG_PING \<longrightarrow> sessionHasPeerIdentity st) \<and>
      (t = MSG_TCP_RELAY_DATA \<or> t = MSG_LEAVE_ROOM \<or> t = MSG_REQUEST_RELAY \<longrightarrow> st = InRoom)) \<and>
   (classifyClientSignalMessage st t = Close \<longleftrightarrow>
      isClientHandshakeMessage t \<and> \<not> isClientSignalMessageAllowed st t) \<and>
   (classifyClientSignalMessage st t = IgnoreUnknown \<longleftrightarrow> \<not> isKnownClientSignalMessage t)"
  by (cases st) (auto simp: classifyClientSignalMessage_def isKnownClientSignalMessage_def isClientHandshakeMessage_def
      sessionHasPeerIdentity_def split: if_splits)

end
