(* ===== verification/Client_Validator.thy ===== *)
theory Client_Validator
  imports Secure_Frame
begin

text \<open>
  The validator the server runs on every message of a client
  (\<^verbatim>\<open>server/src/client_message_validator.h\<close>) and the parser of its password file
  (\<^verbatim>\<open>server/src/auth_file.h\<close>).  The validator reads with \<^verbatim>\<open>ByteBuffer\<close>; a thrown
  \<^verbatim>\<open>ByteBufferReadError\<close>, \<open>None\<close> of a reader, makes it return false.
\<close>

section \<open>Definitions\<close>

definition hasNonzeroReconnectToken :: "bytes \<Rightarrow> bool" where
  "hasNonzeroReconnectToken token \<longleftrightarrow> fold (\<lambda>b value. value OR b) (take RECONNECT_TOKEN_SIZE token) 0 \<noteq> 0"

definition validateLogin :: "ByteBuffer \<Rightarrow> bool option" where
  "validateLogin bb = do {
     (name, bb) \<leftarrow> readString bb;
     if \<not> isValidPlayerName name then Some False else do {
       (_, bb) \<leftarrow> readU16 bb;
       (hasResume, bb) \<leftarrow> readU8 bb;
       if hasResume > 1 then Some False
       else if hasResume \<noteq> 0 then do {
         (roomId, bb) \<leftarrow> readU32 bb;
         (peerId, bb) \<leftarrow> readU32 bb;
         (token, bb) \<leftarrow> readBytes RECONNECT_TOKEN_SIZE bb;
         if roomId = 0 \<or> peerId = 0 \<or> \<not> hasNonzeroReconnectToken token then Some False
         else Some (atEnd bb)
       } else Some (atEnd bb)
     }
   }"

definition validateCreateRoom :: "ByteBuffer \<Rightarrow> bool option" where
  "validateCreateRoom bb = do {
     (roomName, bb) \<leftarrow> readString bb;
     (maxPlayers, bb) \<leftarrow> readU8 bb;
     (tcpMode, bb) \<leftarrow> readU8 bb;
     (tcpFec, bb) \<leftarrow> readU8 bb;
     (tcpProfile, bb) \<leftarrow> readU8 bb;
     (udpMode, bb) \<leftarrow> readU8 bb;
     (udpFec, bb) \<leftarrow> readU8 bb;
     (udpProfile, bb) \<leftarrow> readU8 bb;
     if \<not> isValidRoomName roomName \<or> unat maxPlayers < 2 \<or> unat maxPlayers > MAX_PLAYERS \<or>
        \<not> isValidTransportModeValue tcpMode \<or> \<not> isValidTransportModeValue udpMode \<or>
        \<not> isValidFecModeValue tcpFec \<or> \<not> isValidFecModeValue udpFec \<or>
        \<not> isValidKcpProfileValue tcpProfile \<or> \<not> isValidKcpProfileValue udpProfile \<or>
        (tcpMode = TransportMode_val MODE_RELAY_TCP \<and> tcpFec \<noteq> FecMode_val FEC_NONE) \<or>
        (udpMode = TransportMode_val MODE_RELAY_TCP \<and> udpFec \<noteq> FecMode_val FEC_NONE)
     then Some False
     else do {
       (passwordProtected, bb) \<leftarrow> readU8 bb;
       if passwordProtected > 1 then Some False
       else do {
         bb \<leftarrow> (if passwordProtected \<noteq> 0
                then do { (salt, bb) \<leftarrow> readBytes AUTH_SALT_SIZE bb; (hash, bb) \<leftarrow> readBytes 32 bb; Some bb }
                else Some bb);
         (mtu, bb) \<leftarrow> readU16 bb;
         Some (isValidRoomMtuValue (uint mtu) \<and> atEnd bb)
       }
     }
   }"

definition validateRoomNumber :: "ByteBuffer \<Rightarrow> bool option" where
  "validateRoomNumber bb = do {
     (v, bb) \<leftarrow> readU32 bb;
     Some (v \<noteq> 0 \<and> atEnd bb)
   }"

definition validateResumeRoom :: "ByteBuffer \<Rightarrow> bool option" where
  "validateResumeRoom bb = do {
     (roomId, bb) \<leftarrow> readU32 bb;
     (peerId, bb) \<leftarrow> readU32 bb;
     (token, bb) \<leftarrow> readBytes RECONNECT_TOKEN_SIZE bb;
     Some (roomId \<noteq> 0 \<and> peerId \<noteq> 0 \<and> hasNonzeroReconnectToken token \<and> atEnd bb)
   }"

definition validateClientRelay :: "ByteBuffer \<Rightarrow> bool option" where
  "validateClientRelay bb = do {
     (sourcePeerId, bb) \<leftarrow> readU32 bb;
     (destinationPeerId, bb) \<leftarrow> readU32 bb;
     (trafficClass, bb) \<leftarrow> readU8 bb;
     Some (sourcePeerId \<noteq> 0 \<and> destinationPeerId \<noteq> 0 \<and> (trafficClass = TRAFFIC_TCP \<or> trafficClass = TRAFFIC_UDP))
   }"

text \<open>\<^verbatim>\<open>catch (const std::exception&) { return false; }\<close>\<close>

definition parse_ok :: "bytes option \<Rightarrow> nat \<Rightarrow> (ByteBuffer \<Rightarrow> bool option) \<Rightarrow> bool" where
  "parse_ok payload len f = (Option.bind (mkByteBuffer payload len) f = Some True)"

definition validateClientSignalPayload :: "u8 \<Rightarrow> bytes option \<Rightarrow> nat \<Rightarrow> bool" where
  "validateClientSignalPayload msgType payload len =
     (if msgType = MSG_CLIENT_HELLO then len = 2 + 16 + 32
      else if msgType = MSG_SERVER_AUTH then len = 32
      else if msgType = MSG_ENCRYPTED then payload \<noteq> None \<and> len \<ge> SECURE_FRAME_OVERHEAD + 1
      else if msgType = MSG_LOGIN
      then (if payload = None \<or> len = 0 then False else parse_ok payload len validateLogin)
      else if msgType = MSG_CREATE_ROOM
      then (if payload = None \<or> len = 0 then False else parse_ok payload len validateCreateRoom)
      else if msgType = MSG_JOIN_ROOM \<or> msgType = MSG_REQUEST_RELAY
      then (if payload = None \<or> len \<noteq> 4 then False else parse_ok payload len validateRoomNumber)
      else if msgType = MSG_RESUME_ROOM
      then (if payload = None \<or> len \<noteq> 4 + 4 + RECONNECT_TOKEN_SIZE then False
            else parse_ok payload len validateResumeRoom)
      else if msgType = MSG_AUTH_RESPONSE then len = 32
      else if msgType = MSG_LEAVE_ROOM \<or> msgType = MSG_LOGOUT \<or> msgType = MSG_LIST_ROOMS \<or> msgType = MSG_PING
      then len = 0
      else if msgType = MSG_TCP_RELAY_DATA
      then (if payload = None \<or> len < 9 then False else parse_ok payload len validateClientRelay)
      else True)"

section \<open>The password file\<close>

text \<open>The result is the error text or the password.\<close>

definition is_eol :: "u8 \<Rightarrow> bool" where
  "is_eol b \<longleftrightarrow> b = 0x0D \<or> b = 0x0A"

definition is_blank :: "u8 \<Rightarrow> bool" where
  "is_blank b \<longleftrightarrow> b = 0x20 \<or> b = 0x09 \<or> b = 0x0B \<or> b = 0x0C"

definition parseAuthPasswordBytes :: "bytes \<Rightarrow> string + bytes" where
  "parseAuthPasswordBytes bs =
     (if 0 \<in> set bs then Inl ''auth file contains NUL''
      else let lineEnd = length (takeWhile (\<lambda>b. \<not> is_eol b) bs) in
      if \<exists>b \<in> set (drop lineEnd bs). \<not> is_eol b then Inl ''auth file contains an extra non-empty line''
      else let password = take lineEnd bs in
      if \<forall>b \<in> set password. is_blank b then Inl ''auth password must not be empty or all whitespace''
      else if length password < 8 \<or> length password > 256 then Inl ''auth password must be 8-256 bytes''
      else Inr password)"

text \<open>\<open>file\<close>: the bytes of the file, or \<open>None\<close> if it cannot be opened or read.\<close>

definition readAuthPasswordFile :: "string \<Rightarrow> bytes option \<Rightarrow> string + bytes" where
  "readAuthPasswordFile path file =
     (case file of None \<Rightarrow> Inl (''cannot read auth file '' @ [CHR 0x27] @ path @ [CHR 0x27])
      | Some bs \<Rightarrow> parseAuthPasswordBytes bs)"

section \<open>Exact readers\<close>

definition parses :: "(ByteBuffer \<Rightarrow> bool option) \<Rightarrow> (bytes \<Rightarrow> bool) \<Rightarrow> bool" where
  "parses f L \<longleftrightarrow> (\<forall>b. f b = Some True \<longleftrightarrow> L (unread b))"

text \<open>
  A reader is exact if what it returns is all it accepts: it returns a value exactly when the
  unread bytes start with that value's encoding.
\<close>

locale exact_codec = codec put get enc okv
  for put :: "'a \<Rightarrow> ByteBuffer \<Rightarrow> ByteBuffer" and get and enc and okv +
  assumes get_only: "get b = Some (x, b') \<Longrightarrow> okv x \<and> (\<exists>r. unread b = enc x @ r) \<and> b' = advance (length (enc x)) b"
begin

lemma parses_get:
  assumes "\<And>x. parses (g x) (M x)"
  shows "parses (\<lambda>b. Option.bind (get b) (\<lambda>(x, b). g x b)) (\<lambda>d. \<exists>x r. d = enc x @ r \<and> okv x \<and> M x r)"
  unfolding parses_def
proof (intro allI iffI)
  fix b assume "Option.bind (get b) (\<lambda>(x, b). g x b) = Some True"
  then obtain x b' where g: "get b = Some (x, b')" "g x b' = Some True" by (cases "get b") auto
  from get_only [OF g(1)] obtain r where "okv x" "unread b = enc x @ r" "b' = advance (length (enc x)) b" by blast
  with g(2) assms [of x] show "\<exists>x r. unread b = enc x @ r \<and> okv x \<and> M x r"
    unfolding parses_def by (intro exI [of _ x] exI [of _ r]) simp
next
  fix b assume "\<exists>x r. unread b = enc x @ r \<and> okv x \<and> M x r"
  then obtain x r where "unread b = enc x @ r" "okv x" "M x r" by blast
  then show "Option.bind (get b) (\<lambda>(x, b). g x b) = Some True"
    using assms [of x] by (simp add: get_enc parses_def)
qed

end

interpretation x8: exact_codec writeU8 readU8 "\<lambda>v. [v]" "\<lambda>_. True"
  by unfold_locales (auto simp: readU8_unread split: list.splits)

interpretation x16: exact_codec writeU16 readU16 be16 "\<lambda>_. True"
proof unfold_locales
  fix b x b' assume "readU16 b = Some (x, b')"
  then have g: "\<not> length (unread b) < 2" "b' = advance 2 b"
      "x = push_bit 8 (ucast (take 2 (unread b) ! 0)) OR ucast (take 2 (unread b) ! 1)"
    by (auto simp: readU16_unread split: if_splits)
  then have "be16 x = take 2 (unread b)" using split16 [of "take 2 (unread b)"] by simp
  with g show "True \<and> (\<exists>r. unread b = be16 x @ r) \<and> b' = advance (length (be16 x)) b"
    by (metis append_take_drop_id length_be(1))
qed

interpretation x32: exact_codec writeU32 readU32 be32 "\<lambda>_. True"
proof unfold_locales
  fix b x b' assume "readU32 b = Some (x, b')"
  then have g: "\<not> length (unread b) < 4" "b' = advance 4 b"
      "x = push_bit 24 (ucast (take 4 (unread b) ! 0)) OR push_bit 16 (ucast (take 4 (unread b) ! 1)) OR
       push_bit 8 (ucast (take 4 (unread b) ! 2)) OR ucast (take 4 (unread b) ! 3)"
    by (auto simp: readU32_unread split: if_splits)
  then have "be32 x = take 4 (unread b)" using split32 [of "take 4 (unread b)"] by simp
  with g show "True \<and> (\<exists>r. unread b = be32 x @ r) \<and> b' = advance (length (be32 x)) b"
    by (metis append_take_drop_id length_be(2))
qed

interpretation xraw: exact_codec writeBytes "readBytes n" "\<lambda>d. d" "\<lambda>d. length d = n" for n
  by unfold_locales (auto simp: readBytes_unread split: if_splits, metis append_take_drop_id)

interpretation xstr: exact_codec writeString readString string_enc "\<lambda>s. length s < 65536"
proof unfold_locales
  fix b s b' assume "readString b = Some (s, b')"
  then obtain n b1 where n: "readU16 b = Some (n, b1)" "readBytes (unat n) b1 = Some (s, b')"
    by (auto simp: readString_unread split: option.splits)
  obtain r where r: "unread b = be16 n @ r" "b1 = advance 2 b" using x16.get_only [OF n(1)] by auto
  obtain r' where r': "length s = unat n" "unread b1 = s @ r'" "b' = advance (length s) b1"
    using xraw.get_only [OF n(2)] by auto
  then have "n = of_nat (length s)" by simp
  then have "unread b = string_enc s @ r'" using r r' by (simp add: string_enc_def)
  then show "length s < 65536 \<and> (\<exists>r. unread b = string_enc s @ r) \<and> b' = advance (length (string_enc s)) b"
    using r r' unat_u16_lt [of n] by (auto simp: string_enc_def)
qed

lemma parses_if: "parses f L \<Longrightarrow> parses g M \<Longrightarrow> parses (\<lambda>b. if c then f b else g b) (\<lambda>d. if c then L d else M d)"
  by (simp add: parses_def)

lemma parses_False: "parses (\<lambda>b. Some False) (\<lambda>d. False)"
  by (simp add: parses_def)

lemma parses_end: "parses (\<lambda>b. Some (atEnd b)) (\<lambda>d. d = [])" "parses (\<lambda>b. Some (P \<and> atEnd b)) (\<lambda>d. P \<and> d = [])"
  "parses (\<lambda>b. Some P) (\<lambda>d. P)"
  "parses (\<lambda>b. Some (P \<and> Q \<and> R \<and> atEnd b)) (\<lambda>d. P \<and> Q \<and> R \<and> d = [])"
  by (simp_all add: parses_def atEnd_unread)

lemma parses_cong: "parses f L \<Longrightarrow> (\<And>d. L d = M d) \<Longrightarrow> parses f M"
  by (simp add: parses_def)

lemmas parses_comps = x8.parses_get x16.parses_get x32.parses_get xraw.parses_get xstr.parses_get
  parses_if parses_False parses_end

section \<open>Properties\<close>

lemma hasNonzeroReconnectToken_iff:
  "hasNonzeroReconnectToken token \<longleftrightarrow> (\<exists>b \<in> set (take RECONNECT_TOKEN_SIZE token). b \<noteq> 0)"
proof -
  have "fold (\<lambda>b value. value OR b) xs v = 0 \<longleftrightarrow> v = 0 \<and> (\<forall>b \<in> set xs. b = 0)" for xs and v :: u8
    by (induction xs arbitrary: v) (auto simp: or_eq_0_iff)
  then show ?thesis by (simp add: hasNonzeroReconnectToken_def)
qed

lemma parse_ok_iff: "d \<noteq> [] \<Longrightarrow> parse_ok (Some d) (length d) f \<longleftrightarrow> f \<lparr>bb_data = d, bb_readPos = 0\<rparr> = Some True"
  by (simp add: parse_ok_def mkByteBuffer_def)

definition login_msg :: "bytes \<Rightarrow> bool" where
  "login_msg d \<longleftrightarrow> (\<exists>name port. isValidPlayerName name \<and>
     (d = string_enc name @ be16 port @ [0] \<or>
      (\<exists>roomId peerId token. roomId \<noteq> 0 \<and> peerId \<noteq> 0 \<and> length token = RECONNECT_TOKEN_SIZE \<and> (\<exists>b \<in> set token. b \<noteq> 0) \<and>
         d = string_enc name @ be16 port @ [1] @ be32 roomId @ be32 peerId @ token)))"

definition create_room_msg :: "bytes \<Rightarrow> bool" where
  "create_room_msg d \<longleftrightarrow> (\<exists>name maxPlayers tcp udp password mtu.
     d = string_enc name @ [maxPlayers] @ policy_enc tcp @ policy_enc udp @
         (case password of None \<Rightarrow> [0] | Some (salt, hash) \<Rightarrow> [1] @ salt @ hash) @ be16 mtu \<and>
     isValidRoomName name \<and> 2 \<le> unat maxPlayers \<and> unat maxPlayers \<le> MAX_PLAYERS \<and> policy_wf tcp \<and> policy_wf udp \<and>
     (\<forall>salt hash. password = Some (salt, hash) \<longrightarrow> length salt = AUTH_SALT_SIZE \<and> length hash = 32) \<and>
     isValidRoomMtuValue (uint mtu))"

lemma le_one_u8: "(v :: u8) \<le> 1 \<longleftrightarrow> v = 0 \<or> v = 1"
  by (auto simp: word_le_nat_alt word_unat_eq_iff le_Suc_eq)

lemma string_enc_ne [simp]: "string_enc s \<noteq> []"
  by (simp add: string_enc_def be16_def)

lemma parses_login: "parses validateLogin login_msg"
proof (rule parses_cong)
  show "parses validateLogin (\<lambda>d. \<exists>name r. d = string_enc name @ r \<and> length name < 65536 \<and>
      (if \<not> isValidPlayerName name then False
       else \<exists>port r1. r = be16 port @ r1 \<and> True \<and> (\<exists>h r2. r1 = [h] @ r2 \<and> True \<and>
         (if h > 1 then False
          else if h \<noteq> 0 then (\<exists>room r3. r2 = be32 room @ r3 \<and> True \<and> (\<exists>peer r4. r3 = be32 peer @ r4 \<and> True \<and>
             (\<exists>tok r5. r4 = tok @ r5 \<and> length tok = RECONNECT_TOKEN_SIZE \<and>
               (if room = 0 \<or> peer = 0 \<or> \<not> hasNonzeroReconnectToken tok then False else r5 = []))))
          else r2 = []))))" (is "parses _ ?L")
    unfolding validateLogin_def by (intro parses_comps)
  show "?L d = login_msg d" for d
  proof
    assume "?L d"
    then obtain name r port r1 h r2 where e: "d = string_enc name @ r" "isValidPlayerName name" "r = be16 port @ r1"
        "r1 = [h] @ r2" "\<not> h > 1"
      and tail: "if h \<noteq> 0 then (\<exists>room r3. r2 = be32 room @ r3 \<and> True \<and> (\<exists>peer r4. r3 = be32 peer @ r4 \<and> True \<and>
             (\<exists>tok r5. r4 = tok @ r5 \<and> length tok = RECONNECT_TOKEN_SIZE \<and>
               \<not> (room = 0 \<or> peer = 0 \<or> \<not> hasNonzeroReconnectToken tok) \<and> r5 = []))) else r2 = []"
      unfolding if_False_eq by blast
    then have d: "d = string_enc name @ be16 port @ h # r2" "isValidPlayerName name" "h \<le> 1"
      by (simp_all add: not_less)
    show "login_msg d"
    proof (cases "h = 0")
      case True
      with d tail show ?thesis unfolding login_msg_def by auto
    next
      case False
      with d(3) have "h = 1" by (simp add: le_one_u8)
      with tail obtain room peer tok where "r2 = be32 room @ be32 peer @ tok" "length tok = 32"
          "room \<noteq> 0" "peer \<noteq> 0" "hasNonzeroReconnectToken tok" by auto
      with d \<open>h = 1\<close> show ?thesis
        unfolding login_msg_def
        by (intro exI [of _ name] exI [of _ port] conjI disjI2 exI [of _ room] exI [of _ peer] exI [of _ tok])
           (auto simp: hasNonzeroReconnectToken_iff)
    qed
  next
    assume "login_msg d"
    then obtain name port where nm1: "isValidPlayerName name"
      and d: "d = string_enc name @ be16 port @ [0] \<or> (\<exists>roomId peerId token. roomId \<noteq> 0 \<and> peerId \<noteq> 0 \<and>
         length token = RECONNECT_TOKEN_SIZE \<and> (\<exists>b \<in> set token. b \<noteq> 0) \<and>
         d = string_enc name @ be16 port @ [1] @ be32 roomId @ be32 peerId @ token)"
      unfolding login_msg_def by blast
    have nm: "isValidPlayerName name" "length name < 65536" using nm1 by (simp_all add: isValidPlayerName_def)
    from d show "?L d"
    proof (elim disjE exE conjE, goal_cases)
      case 1
      then show ?case
        using nm by (intro exI [of _ name] exI [of _ "be16 port @ [0]"] conjI) auto
    next
      case (2 room peer tok)
      then show ?case
        using nm
        by (rule_tac exI [of _ name], rule_tac exI [of _ "be16 port @ [1] @ be32 room @ be32 peer @ tok"])
           (simp add: hasNonzeroReconnectToken_iff, rule exI [of _ tok], simp)
    qed
  qed
qed

definition resume_msg :: "bytes \<Rightarrow> bool" where
  "resume_msg d \<longleftrightarrow> (\<exists>roomId peerId token. d = be32 roomId @ be32 peerId @ token \<and> roomId \<noteq> 0 \<and> peerId \<noteq> 0 \<and>
     length token = RECONNECT_TOKEN_SIZE \<and> (\<exists>b \<in> set token. b \<noteq> 0))"

lemma parses_resume: "parses validateResumeRoom resume_msg"
proof (rule parses_cong)
  show "parses validateResumeRoom (\<lambda>d. \<exists>roomId r. d = be32 roomId @ r \<and> True \<and> (\<exists>peerId r1. r = be32 peerId @ r1 \<and> True \<and>
      (\<exists>token r2. r1 = token @ r2 \<and> length token = RECONNECT_TOKEN_SIZE \<and>
        roomId \<noteq> 0 \<and> peerId \<noteq> 0 \<and> hasNonzeroReconnectToken token \<and> r2 = [])))"
    unfolding validateResumeRoom_def
    by (intro x32.parses_get xraw.parses_get parses_end(4))
qed (auto simp: resume_msg_def hasNonzeroReconnectToken_iff)

lemma parses_number: "parses validateRoomNumber (\<lambda>d. \<exists>v. v \<noteq> 0 \<and> d = be32 v)"
proof (rule parses_cong)
  show "parses validateRoomNumber (\<lambda>d. \<exists>v r. d = be32 v @ r \<and> True \<and> v \<noteq> 0 \<and> r = [])"
    unfolding validateRoomNumber_def by (intro parses_comps)
qed auto

lemma parses_password:
  assumes "\<And>x. parses (g x) (M x)"
  shows "parses (\<lambda>b. do { b \<leftarrow> (if p then do { (s, b) \<leftarrow> readBytes n b; (h, b) \<leftarrow> readBytes m b; Some b } else Some b);
            (x, b) \<leftarrow> readU16 b; g x b })
     (\<lambda>d. if p then (\<exists>s h x r. d = s @ h @ be16 x @ r \<and> length s = n \<and> length h = m \<and> M x r)
          else (\<exists>x r. d = be16 x @ r \<and> M x r))"
proof (cases p)
  case True
  have "parses (\<lambda>b. do { (s, b) \<leftarrow> readBytes n b; (h, b) \<leftarrow> readBytes m b; (x, b) \<leftarrow> readU16 b; g x b })
     (\<lambda>d. \<exists>s r. d = s @ r \<and> length s = n \<and> (\<exists>h r1. r = h @ r1 \<and> length h = m \<and> (\<exists>x r2. r1 = be16 x @ r2 \<and> True \<and> M x r2)))"
    by (intro parses_comps assms)
  moreover have "do { b \<leftarrow> do { (s, b) \<leftarrow> readBytes n b; (h, b) \<leftarrow> readBytes m b; Some b }; (x, b) \<leftarrow> readU16 b; g x b } =
      do { (s, b) \<leftarrow> readBytes n b; (h, b) \<leftarrow> readBytes m b; (x, b) \<leftarrow> readU16 b; g x b }" for b
    by (cases "readBytes n b", simp, case_tac "readBytes m (snd a)") (auto simp: case_prod_unfold)
  ultimately show ?thesis using True by (simp add: parses_def) blast
next
  case False
  have "parses (\<lambda>b. do { (x, b) \<leftarrow> readU16 b; g x b }) (\<lambda>d. \<exists>x r. d = be16 x @ r \<and> True \<and> M x r)"
    by (intro parses_comps assms)
  with False show ?thesis by simp
qed

lemma password_tail:
  "(\<exists>p r'. r = [p] @ r' \<and> True \<and> (if p > 1 then False
      else if p \<noteq> 0 then (\<exists>s h x r2. r' = s @ h @ be16 x @ r2 \<and> length s = n \<and> length h = m \<and> M x \<and> r2 = [])
      else (\<exists>x r2. r' = be16 x @ r2 \<and> M x \<and> r2 = []))) \<longleftrightarrow>
   (\<exists>password x. r = (case password of None \<Rightarrow> [0 :: u8] | Some (s, h) \<Rightarrow> [1] @ s @ h) @ be16 x \<and> M x \<and>
      (\<forall>s h. password = Some (s, h) \<longrightarrow> length s = n \<and> length h = m))" (is "?l \<longleftrightarrow> ?r")
proof
  assume ?l
  then obtain p r' where p: "r = p # r'" "p \<le> 1" and
    t: "if p \<noteq> 0 then (\<exists>s h x r2. r' = s @ h @ be16 x @ r2 \<and> length s = n \<and> length h = m \<and> M x \<and> r2 = [])
      else (\<exists>x r2. r' = be16 x @ r2 \<and> M x \<and> r2 = [])"
    unfolding if_False_eq by (auto simp: not_less)
  show ?r
  proof (cases "p = 0")
    case True
    with t obtain x where "r' = be16 x" "M x" by auto
    with p True show ?thesis by (intro exI [of _ None] exI [of _ x]) simp
  next
    case False
    with t obtain s h x where "r' = s @ h @ be16 x" "length s = n" "length h = m" "M x" by auto
    with p False show ?thesis by (intro exI [of _ "Some (s, h)"] exI [of _ x]) (simp add: le_one_u8)
  qed
next
  assume ?r
  then obtain password x where e: "r = (case password of None \<Rightarrow> [0] | Some (s, h) \<Rightarrow> [1] @ s @ h) @ be16 x" "M x"
      "\<forall>s h. password = Some (s, h) \<longrightarrow> length s = n \<and> length h = m" by blast
  show ?l
  proof (cases password)
    case None
    with e show ?thesis by auto
  next
    case (Some sh)
    obtain a b where "sh = (a, b)" by fastforce
    with Some e have "r = [1] @ a @ b @ be16 x" "length a = n" "length b = m" by auto
    with e(2) show ?thesis
      by (rule_tac exI [of _ 1], rule_tac exI [of _ "a @ b @ be16 x"]) auto
  qed
qed

lemma parses_create: "parses validateCreateRoom create_room_msg"
proof (rule parses_cong)
  let ?bad = "\<lambda>name mp t1 f1 k1 t2 f2 k2. \<not> isValidRoomName name \<or> unat mp < 2 \<or> unat mp > MAX_PLAYERS \<or>
        \<not> isValidTransportModeValue t1 \<or> \<not> isValidTransportModeValue t2 \<or>
        \<not> isValidFecModeValue f1 \<or> \<not> isValidFecModeValue f2 \<or>
        \<not> isValidKcpProfileValue k1 \<or> \<not> isValidKcpProfileValue k2 \<or>
        (t1 = TransportMode_val MODE_RELAY_TCP \<and> f1 \<noteq> FecMode_val FEC_NONE) \<or>
        (t2 = TransportMode_val MODE_RELAY_TCP \<and> f2 \<noteq> FecMode_val FEC_NONE)"
  let ?tail = "\<lambda>r. \<exists>p r'. r = [p] @ r' \<and> True \<and> (if p > 1 then False
      else if p \<noteq> 0 then (\<exists>s h x r2. r' = s @ h @ be16 x @ r2 \<and> length s = AUTH_SALT_SIZE \<and> length h = 32 \<and>
             isValidRoomMtuValue (uint x) \<and> r2 = [])
      else (\<exists>x r2. r' = be16 x @ r2 \<and> isValidRoomMtuValue (uint x) \<and> r2 = []))"
  show "parses validateCreateRoom (\<lambda>d. \<exists>name r. d = string_enc name @ r \<and> length name < 65536 \<and>
      (\<exists>mp r0. r = [mp] @ r0 \<and> True \<and>
      (\<exists>t1 r1. r0 = [t1] @ r1 \<and> True \<and> (\<exists>f1 r2. r1 = [f1] @ r2 \<and> True \<and> (\<exists>k1 r3. r2 = [k1] @ r3 \<and> True \<and>
      (\<exists>t2 r4. r3 = [t2] @ r4 \<and> True \<and> (\<exists>f2 r5. r4 = [f2] @ r5 \<and> True \<and> (\<exists>k2 r6. r5 = [k2] @ r6 \<and> True \<and>
      (if ?bad name mp t1 f1 k1 t2 f2 k2 then False else ?tail r6)))))))))" (is "parses _ ?L")
    unfolding validateCreateRoom_def
    by (intro xstr.parses_get x8.parses_get parses_if parses_False parses_password parses_end(2))
  have pol: "\<not> ?bad name mp t1 f1 k1 t2 f2 k2 \<longleftrightarrow> isValidRoomName name \<and> 2 \<le> unat mp \<and> unat mp \<le> MAX_PLAYERS \<and>
      (\<exists>p. policy_wf p \<and> [t1, f1, k1] = policy_enc p) \<and> (\<exists>p. policy_wf p \<and> [t2, f2, k2] = policy_enc p)"
    for name mp t1 f1 k1 t2 f2 k2
    unfolding policy_bytes_iff [symmetric] by (auto simp: not_less)
  show "?L d = create_room_msg d" for d
    unfolding if_False_eq [of "?bad _ _ _ _ _ _ _ _"] pol password_tail create_room_msg_def
  proof (rule iffI, goal_cases)
    case 1
    then show ?case
    proof (elim exE conjE, goal_cases)
      case (1 name _ mp _ t1 _ f1 _ k1 _ t2 _ f2 _ k2 _ p q pw x)
      then show ?case
        by (intro exI [of _ name] exI [of _ mp] exI [of _ p] exI [of _ q] exI [of _ pw] exI [of _ x])
           (simp add: policy_enc_def)
    qed
  next
    case 2
    then obtain name mp p q pw x where c:
      "d = string_enc name @ [mp] @ policy_enc p @ policy_enc q @
         (case pw of None \<Rightarrow> [0] | Some (s, h) \<Rightarrow> [1] @ s @ h) @ be16 x"
      "isValidRoomName name" "2 \<le> unat mp" "unat mp \<le> 8" "policy_wf p" "policy_wf q" "isValidRoomMtuValue (uint x)"
      "\<forall>s h. pw = Some (s, h) \<longrightarrow> length s = 16 \<and> length h = 32" by blast
    moreover from c(2) have "length name < 65536" by (simp add: isValidRoomName_def)
    ultimately show ?case
      by (rule_tac exI [of _ name], rule_tac exI [of _ "drop (length (string_enc name)) d"])
         (simp add: policy_enc_def, blast)
  qed
qed

lemma parsesD: "parses f L \<Longrightarrow> d \<noteq> [] \<Longrightarrow> parse_ok (Some d) (length d) f = L d"
  by (simp add: parse_ok_iff parses_def unread_def)


lemma takeWhile_eol:
  "\<forall>b \<in> set p. \<not> is_eol b \<Longrightarrow> \<forall>b \<in> set e. is_eol b \<Longrightarrow> takeWhile (\<lambda>b. \<not> is_eol b) (p @ e) = p"
  by (cases e) auto

text \<open>
  The password file holds one line: it is accepted with password \<open>p\<close> if and only if it is
  \<open>p\<close> followed by line ends only, and \<open>p\<close> has 8 to 256 bytes, no NUL, no line end and at least
  one byte that is not white space.
\<close>

lemma parseAuthPasswordBytes_iff:
  "parseAuthPasswordBytes bs = Inr p \<longleftrightarrow>
     8 \<le> length p \<and> length p \<le> 256 \<and> (\<exists>b \<in> set p. \<not> is_blank b) \<and> (\<forall>b \<in> set p. b \<noteq> 0 \<and> \<not> is_eol b) \<and>
     (\<exists>e. bs = p @ e \<and> (\<forall>b \<in> set e. is_eol b))" (is "?l \<longleftrightarrow> ?r")
proof
  assume ?l
  define w where "w = takeWhile (\<lambda>b. \<not> is_eol b) bs"
  have t: "take (length w) bs = w" unfolding w_def by (metis takeWhile_eq_take)
  have p: "p = w" "0 \<notin> set bs" "\<forall>b \<in> set (drop (length w) bs). is_eol b" "\<exists>b \<in> set w. \<not> is_blank b"
      "8 \<le> length w" "length w \<le> 256"
    using \<open>?l\<close> unfolding parseAuthPasswordBytes_def Let_def w_def [symmetric] t by (auto split: if_splits)
  moreover have "bs = w @ drop (length w) bs"
    using t by (metis append_take_drop_id)
  moreover have "\<forall>b \<in> set w. b \<noteq> 0 \<and> \<not> is_eol b"
    using p(2) unfolding w_def by (auto dest: set_takeWhileD)
  ultimately show ?r by blast
next
  assume ?r
  then obtain e where e: "bs = p @ e" "\<forall>b \<in> set e. is_eol b" and p: "8 \<le> length p" "length p \<le> 256"
      "\<exists>b \<in> set p. \<not> is_blank b" "\<forall>b \<in> set p. b \<noteq> 0 \<and> \<not> is_eol b" by blast
  then have "takeWhile (\<lambda>b. \<not> is_eol b) bs = p" using takeWhile_eol [of p e] by auto
  moreover have "0 \<notin> set bs" using e p by (auto simp: is_eol_def)
  ultimately show ?l using e p by (auto simp: parseAuthPasswordBytes_def Let_def)
qed

end
