(* ===== verification/Server_State.thy ===== *)
theory Server_State
  imports Complex_Main Room_Invariants Client_Validator Overlay "HOL-Library.State_Monad"
begin

text \<open>
  The state of the relay server (\<^verbatim>\<open>server/src/signal_server.h\<close>) and the helpers that look
  up, index, limit and release sessions (\<^verbatim>\<open>signal_server.cpp\<close>, first part).

  A member function of \<^verbatim>\<open>SignalServer\<close> is a computation of the state monad over the record
  \<open>SignalServer\<close>.  A reference or pointer to a session is the key it has in \<^verbatim>\<open>m_clients\<close>, a
  pointer to a room is the room's number.  The world outside is part of the state: \<open>sv_now\<close> is
  what \<^verbatim>\<open>time(nullptr)\<close> returns while one event is handled, \<open>sv_sends\<close> are the results of the
  coming \<^verbatim>\<open>send\<close> calls (none left: the socket would block), \<open>sv_randoms\<close> the answers of the
  system's random generator (none left: it fails), and \<open>sv_io\<close> records the system calls with an
  effect.  The tokens of a rate limiter, a \<^verbatim>\<open>double\<close> in the code, are a real number.
\<close>

section \<open>The record\<close>

record ServerLimits =
  lm_maxClients :: nat
  lm_maxPending :: nat
  lm_maxRooms :: nat
  lm_maxClientsPerIp :: nat
  lm_maxPendingPerIp :: nat
  lm_maxSendBufferBytes :: nat

definition newServerLimits :: ServerLimits where
  "newServerLimits = \<lparr>lm_maxClients = 256, lm_maxPending = 64, lm_maxRooms = 128,
     lm_maxClientsPerIp = 32, lm_maxPendingPerIp = 8, lm_maxSendBufferBytes = 64 * 1024 * 1024\<rparr>"

datatype DisconnectReason = Network | Takeover | LogoutComplete

record RoomListState =
  rl_roomId :: u32
  rl_roomName :: bytes
  rl_playerCount :: u8
  rl_maxPlayers :: u8
  rl_tcpPolicy :: RoomTrafficPolicy
  rl_udpPolicy :: RoomTrafficPolicy
  rl_passwordProtected :: u8
  rl_mtu :: u16

record TokenBucket =
  tb_tokens :: real
  tb_updated :: int

definition newTokenBucket :: TokenBucket where
  "newTokenBucket = \<lparr>tb_tokens = 0, tb_updated = 0\<rparr>"

record IpState =
  ip_clients :: nat
  ip_pending :: nat
  ip_accepts :: TokenBucket
  ip_authFailures :: TokenBucket
  ip_creates :: TokenBucket
  ip_roomPasswordFailures :: TokenBucket
  ip_lastActivity :: int

definition newIpState :: IpState where
  "newIpState = \<lparr>ip_clients = 0, ip_pending = 0, ip_accepts = newTokenBucket,
     ip_authFailures = newTokenBucket, ip_creates = newTokenBucket,
     ip_roomPasswordFailures = newTokenBucket, ip_lastActivity = 0\<rparr>"

record PendingConn =
  pc_fd :: int
  pc_remoteIpv4 :: u32
  pc_recvBuf :: bytes
  pc_created :: int

definition newPendingConn :: PendingConn where
  "newPendingConn = \<lparr>pc_fd = -1, pc_remoteIpv4 = 0, pc_recvBuf = [], pc_created = 0\<rparr>"

datatype send_result = Sent nat | WouldBlock | SendError

datatype io =
    EpollAdd int u32 | EpollMod int u32 | EpollDel int | CloseFd int
  | SendTcp int bytes | SendUdp int sockaddr bytes

record SignalServer =
  sv_epfd :: int
  sv_tcpListenFd :: int
  sv_udpFd :: int
  sv_running :: bool
  sv_clients :: "(int, ClientSession) omap"
  sv_pending :: "(int, PendingConn) omap"
  sv_dataFdMap :: "(int, int) omap"
  sv_peerMap :: "(u32, int) omap"
  sv_rooms :: RoomManager
  sv_nextPeerId :: u32
  sv_freePeerIds :: "(u32, unit) omap"
  sv_authReady :: bool
  sv_serverAuthHash :: bytes
  sv_serverAuthSalt :: bytes
  sv_secureSessionMap :: "(u32, int) omap"
  sv_limits :: ServerLimits
  sv_globalSendBytes :: nat
  sv_lastDataDropLog :: int
  sv_suppressedDataDrops :: nat
  sv_lastSendRejectLog :: int
  sv_suppressedSendRejects :: nat
  sv_ipStates :: "(u32, IpState) omap"
  sv_roomListRevision :: u64
  sv_publishedRooms :: "(u32, RoomListState) omap"
  sv_now :: int
  sv_sends :: "send_result list"
  sv_randoms :: "bytes option list"
  sv_io :: "io list"

type_synonym 'a server = "(SignalServer, 'a) state"

definition newSignalServer :: SignalServer where
  "newSignalServer = \<lparr>sv_epfd = -1, sv_tcpListenFd = -1, sv_udpFd = -1, sv_running = False,
     sv_clients = [], sv_pending = [], sv_dataFdMap = [], sv_peerMap = [], sv_rooms = newRoomManager,
     sv_nextPeerId = 1, sv_freePeerIds = [], sv_authReady = False,
     sv_serverAuthHash = replicate 32 0, sv_serverAuthSalt = replicate AUTH_SALT_SIZE 0,
     sv_secureSessionMap = [], sv_limits = newServerLimits, sv_globalSendBytes = 0,
     sv_lastDataDropLog = 0, sv_suppressedDataDrops = 0, sv_lastSendRejectLog = 0,
     sv_suppressedSendRejects = 0, sv_ipStates = [], sv_roomListRevision = 1, sv_publishedRooms = [],
     sv_now = 0, sv_sends = [], sv_randoms = [], sv_io = []\<rparr>"

section \<open>Reading and writing the state\<close>

abbreviation (input) ret :: "'a \<Rightarrow> 'a server" where "ret \<equiv> State_Monad.return"

definition gets :: "(SignalServer \<Rightarrow> 'a) \<Rightarrow> 'a server" where
  "gets f = State (\<lambda>s. (f s, s))"

definition modify :: "(SignalServer \<Rightarrow> SignalServer) \<Rightarrow> unit server" where
  "modify f = State (\<lambda>s. ((), f s))"

definition clientOf :: "int \<Rightarrow> SignalServer \<Rightarrow> ClientSession" where
  "clientOf fd s = (case map_of (sv_clients s) fd of Some c \<Rightarrow> c | None \<Rightarrow> newClientSession)"

definition getC :: "int \<Rightarrow> ClientSession server" where
  "getC fd = gets (clientOf fd)"

definition modC :: "int \<Rightarrow> (ClientSession \<Rightarrow> ClientSession) \<Rightarrow> unit server" where
  "modC fd f = modify (\<lambda>s. s\<lparr>sv_clients := om_adj fd f (sv_clients s)\<rparr>)"

definition modRooms :: "(RoomManager \<Rightarrow> RoomManager) \<Rightarrow> unit server" where
  "modRooms f = modify (\<lambda>s. s\<lparr>sv_rooms := f (sv_rooms s)\<rparr>)"

definition time_now :: "int server" where
  "time_now = gets sv_now"

definition syscall :: "io \<Rightarrow> unit server" where
  "syscall e = modify (\<lambda>s. s\<lparr>sv_io := sv_io s @ [e]\<rparr>)"

primrec forM :: "'a list \<Rightarrow> ('a \<Rightarrow> unit server) \<Rightarrow> unit server" where
  "forM [] f = ret ()"
| "forM (x # xs) f = do { f x; forM xs f }"

definition skip :: "unit server" where
  "skip = ret ()"

definition kill :: "int \<Rightarrow> unit server" where
  "kill fd = modC fd (\<lambda>c. c\<lparr>cs_alive := False\<rparr>)"

lemmas monad_defs = gets_def modify_def getC_def modC_def modRooms_def time_now_def syscall_def skip_def kill_def

section \<open>Small helpers\<close>

definition tokenIsZero :: "bytes \<Rightarrow> bool" where
  "tokenIsZero token \<longleftrightarrow> fold (\<lambda>b acc. acc OR b) (take RECONNECT_TOKEN_SIZE token) 0 = 0"

definition isRequiredControlResponse :: "u8 \<Rightarrow> bool" where
  "isRequiredControlResponse msgType \<longleftrightarrow>
     msgType = MSG_LOGIN_RESP \<or> msgType = MSG_ROOM_CREATED \<or> msgType = MSG_JOIN_RESP \<or>
     msgType = MSG_AUTH_CHALLENGE \<or> msgType = MSG_LOGOUT_ACK \<or> msgType = MSG_ERROR"

definition tokenEquals :: "bytes \<Rightarrow> bytes \<Rightarrow> bool" where
  "tokenEquals a b \<longleftrightarrow>
     fold (\<lambda>(x, y) diff. diff OR (x XOR y)) (take RECONNECT_TOKEN_SIZE (zip a b)) 0 = 0"

text \<open>\<^verbatim>\<open>secureRandomBytes\<close>: the buffer it fills, or the failure.\<close>

definition secureRandomBytes :: "nat \<Rightarrow> bytes option server" where
  "secureRandomBytes n = State (\<lambda>s.
     case sv_randoms s of
       Some bs # rest \<Rightarrow> (if length bs = n then Some bs else None, s\<lparr>sv_randoms := rest\<rparr>)
     | None # rest \<Rightarrow> (None, s\<lparr>sv_randoms := rest\<rparr>)
     | [] \<Rightarrow> (None, s))"

definition setAuthPassword :: "crypto \<Rightarrow> bool \<Rightarrow> bytes \<Rightarrow> bool server" where
  "setAuthPassword C workOk password = do {
     modify (\<lambda>s. s\<lparr>sv_serverAuthHash := replicate 32 0, sv_authReady := False\<rparr>);
     if length password < 8 \<or> length password > 256 then ret False
     else do {
       r \<leftarrow> secureRandomBytes AUTH_SALT_SIZE;
       case r of
         None \<Rightarrow> do { modify (\<lambda>s. s\<lparr>sv_serverAuthSalt := replicate AUTH_SALT_SIZE 0\<rparr>); ret False }
       | Some salt \<Rightarrow> do {
           modify (\<lambda>s. s\<lparr>sv_serverAuthSalt := salt\<rparr>);
           case hashPasswordSalted C workOk password salt AUTH_KDF_PROFILE of (ok, h) \<Rightarrow> do {
             modify (\<lambda>s. s\<lparr>sv_serverAuthHash := h\<rparr>);
             if \<not> ok then ret False
             else do { modify (\<lambda>s. s\<lparr>sv_authReady := True\<rparr>); ret True }
           }
         }
     }
   }"

section \<open>Rate limits and connection counts\<close>

datatype bucket = Accepts | AuthFailures | Creates | RoomPasswordFailures

primrec getBucket :: "bucket \<Rightarrow> IpState \<Rightarrow> TokenBucket" where
  "getBucket Accepts s = ip_accepts s"
| "getBucket AuthFailures s = ip_authFailures s"
| "getBucket Creates s = ip_creates s"
| "getBucket RoomPasswordFailures s = ip_roomPasswordFailures s"

primrec setBucket :: "bucket \<Rightarrow> TokenBucket \<Rightarrow> IpState \<Rightarrow> IpState" where
  "setBucket Accepts b s = s\<lparr>ip_accepts := b\<rparr>"
| "setBucket AuthFailures b s = s\<lparr>ip_authFailures := b\<rparr>"
| "setBucket Creates b s = s\<lparr>ip_creates := b\<rparr>"
| "setBucket RoomPasswordFailures b s = s\<lparr>ip_roomPasswordFailures := b\<rparr>"

text \<open>\<^verbatim>\<open>m_ipStates[ip]\<close>, which creates the entry it does not find.\<close>

definition ipStateOf :: "u32 \<Rightarrow> SignalServer \<Rightarrow> IpState" where
  "ipStateOf ip s = (case map_of (sv_ipStates s) ip of Some st \<Rightarrow> st | None \<Rightarrow> newIpState)"

definition modIp :: "u32 \<Rightarrow> (IpState \<Rightarrow> IpState) \<Rightarrow> unit server" where
  "modIp ip f = modify (\<lambda>s. s\<lparr>sv_ipStates := om_upd ip (f (ipStateOf ip s)) (sv_ipStates s)\<rparr>)"

text \<open>The update of an entry that must exist already (\<^verbatim>\<open>find\<close> succeeded).\<close>

definition adjIp :: "u32 \<Rightarrow> (IpState \<Rightarrow> IpState) \<Rightarrow> unit server" where
  "adjIp ip f = modify (\<lambda>s. s\<lparr>sv_ipStates := om_adj ip f (sv_ipStates s)\<rparr>)"

definition refillBucket :: "int \<Rightarrow> real \<Rightarrow> real \<Rightarrow> TokenBucket \<Rightarrow> TokenBucket" where
  "refillBucket now burst refillSeconds b =
     (if tb_updated b = 0 then \<lparr>tb_tokens = burst, tb_updated = now\<rparr>
      else if now > tb_updated b
      then \<lparr>tb_tokens = min burst (tb_tokens b + real_of_int (now - tb_updated b) / refillSeconds), tb_updated = now\<rparr>
      else b)"

definition takeBucket :: "int \<Rightarrow> real \<Rightarrow> real \<Rightarrow> TokenBucket \<Rightarrow> bool \<times> TokenBucket" where
  "takeBucket now burst refillSeconds b =
     (let b = refillBucket now burst refillSeconds b in
      if tb_tokens b < 1 then (False, b) else (True, b\<lparr>tb_tokens := tb_tokens b - 1\<rparr>))"

definition takeIpToken :: "u32 \<Rightarrow> bucket \<Rightarrow> real \<Rightarrow> real \<Rightarrow> bool server" where
  "takeIpToken ip member burst refillSeconds = do {
     now \<leftarrow> time_now;
     st \<leftarrow> gets (ipStateOf ip);
     case takeBucket now burst refillSeconds (getBucket member st) of (ok, b) \<Rightarrow> do {
       modIp ip (\<lambda>st. (setBucket member b st)\<lparr>ip_lastActivity := now\<rparr>);
       ret ok
     }
   }"

definition epollAdd :: "int \<Rightarrow> u32 \<Rightarrow> unit server" where
  "epollAdd fd events = syscall (EpollAdd fd events)"

definition epollDel :: "int \<Rightarrow> unit server" where
  "epollDel fd = syscall (EpollDel fd)"

definition epollMod :: "int \<Rightarrow> u32 \<Rightarrow> unit server" where
  "epollMod fd events = syscall (EpollMod fd events)"

definition close_fd :: "int \<Rightarrow> unit server" where
  "close_fd fd = syscall (CloseFd fd)"

abbreviation (input) EPOLLIN :: u32 where "EPOLLIN \<equiv> 1"
abbreviation (input) EPOLLOUT :: u32 where "EPOLLOUT \<equiv> 4"
abbreviation (input) EPOLLERR :: u32 where "EPOLLERR \<equiv> 8"
abbreviation (input) EPOLLHUP :: u32 where "EPOLLHUP \<equiv> 16"

definition decPending :: "IpState \<Rightarrow> IpState" where
  "decPending st = (if ip_pending st > 0 then st\<lparr>ip_pending := ip_pending st - 1\<rparr> else st)"

definition removePending :: "int \<Rightarrow> bool \<Rightarrow> unit server" where
  "removePending fd closeFd = do {
     pc \<leftarrow> gets (\<lambda>s. map_of (sv_pending s) fd);
     case pc of
       None \<Rightarrow> skip
     | Some pc \<Rightarrow> do {
         now \<leftarrow> time_now;
         adjIp (pc_remoteIpv4 pc) (\<lambda>st. (decPending st)\<lparr>ip_lastActivity := now\<rparr>);
         epollDel fd;
         (if closeFd then close_fd fd else skip);
         modify (\<lambda>s. s\<lparr>sv_pending := om_del fd (sv_pending s)\<rparr>)
       }
   }"

definition releaseClientIp :: "int \<Rightarrow> unit server" where
  "releaseClientIp fd = do {
     c \<leftarrow> getC fd;
     found \<leftarrow> gets (\<lambda>s. map_of (sv_ipStates s) (cs_remoteIpv4 c) \<noteq> None);
     if \<not> found then skip
     else do {
       now \<leftarrow> time_now;
       adjIp (cs_remoteIpv4 c) (\<lambda>st.
         (if ip_clients st > 0 then st\<lparr>ip_clients := ip_clients st - 1\<rparr> else st)\<lparr>ip_lastActivity := now\<rparr>);
       modC fd (\<lambda>c. c\<lparr>cs_remoteIpv4 := 0\<rparr>)
     }
   }"

definition cleanupIpStates :: "int \<Rightarrow> unit server" where
  "cleanupIpStates now = modify (\<lambda>s. s\<lparr>sv_ipStates := filter (\<lambda>(ip, st).
     \<not> (ip_clients st = 0 \<and> ip_pending st = 0 \<and> ip_lastActivity st > 0 \<and> now - ip_lastActivity st \<ge> 600))
     (sv_ipStates s)\<rparr>)"

section \<open>Finding sessions\<close>

text \<open>
  The three lookups through an index drop an entry that no longer names a session with that
  identity.
\<close>

definition findClientOwnerByPeerId :: "u32 \<Rightarrow> int option server" where
  "findClientOwnerByPeerId peerId = State (\<lambda>s.
     if peerId = 0 then (None, s)
     else case map_of (sv_peerMap s) peerId of
       None \<Rightarrow> (None, s)
     | Some fd \<Rightarrow> (case map_of (sv_clients s) fd of
           Some c \<Rightarrow> if cs_tcpFd c \<noteq> fd \<or> cs_peerId c \<noteq> peerId
             then (None, s\<lparr>sv_peerMap := om_del peerId (sv_peerMap s)\<rparr>) else (Some fd, s)
         | None \<Rightarrow> (None, s\<lparr>sv_peerMap := om_del peerId (sv_peerMap s)\<rparr>)))"

definition findClientByPeerId :: "u32 \<Rightarrow> int option server" where
  "findClientByPeerId peerId = do {
     client \<leftarrow> findClientOwnerByPeerId peerId;
     case client of
       None \<Rightarrow> ret None
     | Some fd \<Rightarrow> do {
         c \<leftarrow> getC fd;
         if \<not> cs_alive c \<or> \<not> cs_serverAuthOk c \<or> \<not> cs_secureEnabled c \<or> \<not> sessionHasPeerIdentity (cs_state c)
         then ret None else ret (Some fd)
       }
   }"

definition findClientOwnerBySecureSessionId :: "u32 \<Rightarrow> int option server" where
  "findClientOwnerBySecureSessionId sessionId = State (\<lambda>s.
     if sessionId = 0 then (None, s)
     else case map_of (sv_secureSessionMap s) sessionId of
       None \<Rightarrow> (None, s)
     | Some fd \<Rightarrow> (case map_of (sv_clients s) fd of
           Some c \<Rightarrow> if cs_tcpFd c \<noteq> fd \<or> cs_secureSessionId c \<noteq> sessionId
             then (None, s\<lparr>sv_secureSessionMap := om_del sessionId (sv_secureSessionMap s)\<rparr>) else (Some fd, s)
         | None \<Rightarrow> (None, s\<lparr>sv_secureSessionMap := om_del sessionId (sv_secureSessionMap s)\<rparr>)))"

definition findClientBySecureSessionId :: "u32 \<Rightarrow> int option server" where
  "findClientBySecureSessionId sessionId = do {
     client \<leftarrow> findClientOwnerBySecureSessionId sessionId;
     case client of
       None \<Rightarrow> ret None
     | Some fd \<Rightarrow> do {
         c \<leftarrow> getC fd;
         if \<not> cs_alive c \<or> \<not> cs_secureEnabled c \<or> \<not> cs_serverAuthOk c \<or> cs_state c = Closing
         then ret None else ret (Some fd)
       }
   }"

definition findClientOwnerByDataFd :: "int \<Rightarrow> int option server" where
  "findClientOwnerByDataFd dataFd = State (\<lambda>s.
     if dataFd < 0 then (None, s)
     else case map_of (sv_dataFdMap s) dataFd of
       None \<Rightarrow> (None, s)
     | Some fd \<Rightarrow> (case map_of (sv_clients s) fd of
           Some c \<Rightarrow> if cs_tcpFd c \<noteq> fd \<or> cs_dataFd c \<noteq> dataFd
             then (None, s\<lparr>sv_dataFdMap := om_del dataFd (sv_dataFdMap s)\<rparr>) else (Some fd, s)
         | None \<Rightarrow> (None, s\<lparr>sv_dataFdMap := om_del dataFd (sv_dataFdMap s)\<rparr>)))"

definition findClientByDataFd :: "int \<Rightarrow> int option server" where
  "findClientByDataFd dataFd = do {
     client \<leftarrow> findClientOwnerByDataFd dataFd;
     case client of
       None \<Rightarrow> ret None
     | Some fd \<Rightarrow> do {
         c \<leftarrow> getC fd;
         if \<not> cs_alive c \<or> cs_peerId c = 0 \<or> (\<not> cs_serverAuthOk c \<or> \<not> cs_secureEnabled c) \<or>
            \<not> sessionCanBindDataChannel (cs_state c)
         then ret None else ret (Some fd)
       }
   }"

definition bindPeerIndex :: "int \<Rightarrow> u32 \<Rightarrow> bool server" where
  "bindPeerIndex fd peerId = do {
     c \<leftarrow> getC fd;
     if peerId = 0 \<or> cs_tcpFd c < 0 then ret False
     else do {
       old \<leftarrow> gets (\<lambda>s. map_of (sv_peerMap s) peerId);
       taken \<leftarrow> (if old \<noteq> None \<and> old \<noteq> Some (cs_tcpFd c) then findClientOwnerByPeerId peerId else ret None);
       if taken \<noteq> None then ret False
       else State (\<lambda>s. case bindUniqueSessionIndex peerId (cs_tcpFd c) (sv_peerMap s) of
              (ok, m) \<Rightarrow> (ok, s\<lparr>sv_peerMap := m\<rparr>))
     }
   }"

definition bindSecureSessionIndex :: "int \<Rightarrow> u32 \<Rightarrow> bool server" where
  "bindSecureSessionIndex fd sessionId = do {
     c \<leftarrow> getC fd;
     if sessionId = 0 \<or> cs_tcpFd c < 0 then ret False
     else do {
       old \<leftarrow> gets (\<lambda>s. map_of (sv_secureSessionMap s) sessionId);
       taken \<leftarrow> (if old \<noteq> None \<and> old \<noteq> Some (cs_tcpFd c) then findClientOwnerBySecureSessionId sessionId else ret None);
       if taken \<noteq> None then ret False
       else State (\<lambda>s. case bindUniqueSessionIndex sessionId (cs_tcpFd c) (sv_secureSessionMap s) of
              (ok, m) \<Rightarrow> (ok, s\<lparr>sv_secureSessionMap := m\<rparr>))
     }
   }"

definition bindDataFdIndex :: "int \<Rightarrow> int \<Rightarrow> bool server" where
  "bindDataFdIndex fd dataFd = do {
     c \<leftarrow> getC fd;
     if dataFd < 0 \<or> cs_tcpFd c < 0 then ret False
     else do {
       old \<leftarrow> gets (\<lambda>s. map_of (sv_dataFdMap s) dataFd);
       taken \<leftarrow> (if old \<noteq> None \<and> old \<noteq> Some (cs_tcpFd c) then findClientOwnerByDataFd dataFd else ret None);
       if taken \<noteq> None then ret False
       else State (\<lambda>s. case bindUniqueSessionIndex dataFd (cs_tcpFd c) (sv_dataFdMap s) of
              (ok, m) \<Rightarrow> (ok, s\<lparr>sv_dataFdMap := m\<rparr>))
     }
   }"

definition unbindDataFd :: "int \<Rightarrow> int \<Rightarrow> unit server" where
  "unbindDataFd dataFd tcpFd = modify (\<lambda>s. s\<lparr>sv_dataFdMap := unbindSessionIndex dataFd tcpFd (sv_dataFdMap s)\<rparr>)"

definition unbindClientIndexes :: "int \<Rightarrow> unit server" where
  "unbindClientIndexes fd = do {
     c \<leftarrow> getC fd;
     (if cs_dataFd c \<ge> 0 then unbindDataFd (cs_dataFd c) (cs_tcpFd c) else skip);
     (if cs_peerId c \<noteq> 0
      then modify (\<lambda>s. s\<lparr>sv_peerMap := unbindSessionIndex (cs_peerId c) (cs_tcpFd c) (sv_peerMap s)\<rparr>) else skip);
     (if cs_secureSessionId c \<noteq> 0
      then modify (\<lambda>s. s\<lparr>sv_secureSessionMap := unbindSessionIndex (cs_secureSessionId c) (cs_tcpFd c) (sv_secureSessionMap s)\<rparr>)
      else skip)
   }"

section \<open>Peer numbers and lease tokens\<close>

definition allocatePeerId :: "u32 server" where
  "allocatePeerId = State (\<lambda>s.
     case sv_freePeerIds s of
       (i, _) # rest \<Rightarrow> (i, s\<lparr>sv_freePeerIds := rest\<rparr>)
     | [] \<Rightarrow> (sv_nextPeerId s, s\<lparr>sv_nextPeerId := sv_nextPeerId s + 1\<rparr>))"

definition releasePeerId :: "u32 \<Rightarrow> unit server" where
  "releasePeerId peerId =
     (if peerId = 0 then skip
      else do {
        owner \<leftarrow> findClientOwnerByPeerId peerId;
        if owner \<noteq> None then skip
        else modify (\<lambda>s. s\<lparr>sv_freePeerIds := om_upd peerId () (sv_freePeerIds s)\<rparr>)
      })"

definition generateLeaseToken :: "bytes option server" where
  "generateLeaseToken = do {
     r \<leftarrow> secureRandomBytes RECONNECT_TOKEN_SIZE;
     case r of
       None \<Rightarrow> ret None
     | Some token \<Rightarrow> if tokenIsZero token then ret None else ret (Some token)
   }"

interpretation peer_pool: id_pool "run_state allocatePeerId" sv_freePeerIds sv_nextPeerId
  by unfold_locales (auto simp: allocatePeerId_def)

end
