(* ===== verification/Server_Send.thy ===== *)
theory Server_Send
  imports Server_State
begin

text \<open>
  What the server sends (\<^verbatim>\<open>signal_server.cpp\<close>, send helpers): the two send buffers of a
  session with their budgets, flushing them to the sockets, framing and encrypting a message
  for a session or its data channel, and messages to all members of a room.
\<close>

section \<open>Send buffers\<close>

definition bufOf :: "bool \<Rightarrow> ClientSession \<Rightarrow> bytes" where
  "bufOf dataChannel c = (if dataChannel then cs_dataSendBuf c else cs_sendBuf c)"

definition setBuf :: "bool \<Rightarrow> bytes \<Rightarrow> ClientSession \<Rightarrow> ClientSession" where
  "setBuf dataChannel b c = (if dataChannel then c\<lparr>cs_dataSendBuf := b\<rparr> else c\<lparr>cs_sendBuf := b\<rparr>)"

text \<open>The test of both budgets, written the way that cannot overflow.\<close>

definition overBudget :: "nat \<Rightarrow> nat \<Rightarrow> nat \<Rightarrow> nat \<Rightarrow> bool" where
  "overBudget queued global limit added \<longleftrightarrow>
     queued > MAX_TCP_SEND_BUF - min added MAX_TCP_SEND_BUF \<or> added > MAX_TCP_SEND_BUF \<or>
     global > limit - min added limit \<or> added > limit"

text \<open>The code holds a reference to the session, so the case without one does not arise there.\<close>

definition appendSendBuffer :: "int \<Rightarrow> bool \<Rightarrow> bytes \<Rightarrow> bytes \<Rightarrow> bool server" where
  "appendSendBuffer fd dataChannel first second = do {
     found \<leftarrow> gets (\<lambda>s. map_of (sv_clients s) fd);
     global \<leftarrow> gets sv_globalSendBytes;
     limit \<leftarrow> gets (\<lambda>s. lm_maxSendBufferBytes (sv_limits s));
     case found of
       None \<Rightarrow> ret False
     | Some c \<Rightarrow> do {
         let target = bufOf dataChannel c;
         let added = length first + length second;
         if overBudget (length target) global limit added
         then do {
           (if \<not> dataChannel \<and> cs_sendBudgetFailures c < 255
            then modC fd (\<lambda>c. c\<lparr>cs_sendBudgetFailures := cs_sendBudgetFailures c + 1\<rparr>) else skip);
           ret False
         }
         else do {
           modC fd (setBuf dataChannel (target @ first @ second));
           modify (\<lambda>s. s\<lparr>sv_globalSendBytes := sv_globalSendBytes s + added\<rparr>);
           (if \<not> dataChannel then modC fd (\<lambda>c. c\<lparr>cs_sendBudgetFailures := 0\<rparr>) else skip);
           ret True
         }
       }
   }"

text \<open>\<^verbatim>\<open>m_globalSendBytes\<close> goes down by the bytes that left a buffer, never below 0.\<close>

definition releaseBytes :: "nat \<Rightarrow> unit server" where
  "releaseBytes count = modify (\<lambda>s. s\<lparr>sv_globalSendBytes :=
     (if count > sv_globalSendBytes s then 0 else sv_globalSendBytes s - count)\<rparr>)"

definition consumeSendBuffer :: "int \<Rightarrow> bool \<Rightarrow> nat \<Rightarrow> unit server" where
  "consumeSendBuffer fd dataChannel count = do {
     c \<leftarrow> getC fd;
     let target = bufOf dataChannel c;
     let count = min count (length target);
     modC fd (setBuf dataChannel (drop count target));
     releaseBytes count
   }"

definition clearSendBuffer :: "int \<Rightarrow> bool \<Rightarrow> unit server" where
  "clearSendBuffer fd dataChannel = do {
     c \<leftarrow> getC fd;
     modC fd (setBuf dataChannel []);
     releaseBytes (length (bufOf dataChannel c))
   }"

definition logSendRejectSampled :: "unit server" where
  "logSendRejectSampled = do {
     now \<leftarrow> time_now;
     modify (\<lambda>s. if sv_lastSendRejectLog s = 0 \<or> now - sv_lastSendRejectLog s \<ge> 5
       then s\<lparr>sv_lastSendRejectLog := now, sv_suppressedSendRejects := 0\<rparr>
       else s\<lparr>sv_suppressedSendRejects := sv_suppressedSendRejects s + 1\<rparr>)
   }"

definition logDataDropSampled :: "unit server" where
  "logDataDropSampled = do {
     now \<leftarrow> time_now;
     modify (\<lambda>s. if sv_lastDataDropLog s = 0 \<or> now - sv_lastDataDropLog s \<ge> 5
       then s\<lparr>sv_lastDataDropLog := now, sv_suppressedDataDrops := 0\<rparr>
       else s\<lparr>sv_suppressedDataDrops := sv_suppressedDataDrops s + 1\<rparr>)
   }"

definition closeDataChannel :: "int \<Rightarrow> unit server" where
  "closeDataChannel fd = do {
     c \<leftarrow> getC fd;
     if cs_dataFd c < 0 then do {
       clearSendBuffer fd True;
       modC fd (\<lambda>c. c\<lparr>cs_dataRecvBuf := []\<rparr>)
     }
     else do {
       unbindDataFd (cs_dataFd c) (cs_tcpFd c);
       modC fd (\<lambda>c. c\<lparr>cs_dataFd := -1\<rparr>);
       epollDel (cs_dataFd c);
       close_fd (cs_dataFd c);
       clearSendBuffer fd True;
       modC fd (\<lambda>c. c\<lparr>cs_dataRecvBuf := []\<rparr>)
     }
   }"

subsection \<open>Flushing\<close>

text \<open>
  The next answer of \<^verbatim>\<open>send\<close> for \<open>buf\<close>: how many bytes the socket took (at most all of them),
  or that it would block or failed.
\<close>

definition send_call :: "int \<Rightarrow> bytes \<Rightarrow> send_result server" where
  "send_call fd buf = State (\<lambda>s.
     case sv_sends s of
       [] \<Rightarrow> (WouldBlock, s)
     | Sent n # rest \<Rightarrow> (Sent (min n (length buf)), s\<lparr>sv_sends := rest, sv_io := sv_io s @ [SendTcp fd (take n buf)]\<rparr>)
     | r # rest \<Rightarrow> (r, s\<lparr>sv_sends := rest\<rparr>))"

text \<open>
  The loop makes one \<^verbatim>\<open>send\<close> call per round and goes on only after a call that took bytes, so
  a round for each answer that is still to come, and one more, is always enough.
\<close>

primrec flushSendBuf_loop :: "nat \<Rightarrow> int \<Rightarrow> unit server" where
  "flushSendBuf_loop 0 fd = skip"
| "flushSendBuf_loop (Suc k) fd = do {
     c \<leftarrow> getC fd;
     if cs_sendBuf c = [] then
       (if cs_state c = Closing then epollMod (cs_tcpFd c) (EPOLLERR OR EPOLLHUP)
        else epollMod (cs_tcpFd c) (EPOLLIN OR EPOLLERR OR EPOLLHUP))
     else do {
       r \<leftarrow> send_call (cs_tcpFd c) (cs_sendBuf c);
       case r of
         Sent n \<Rightarrow> if n > 0 then do { consumeSendBuffer fd False n; flushSendBuf_loop k fd } else kill fd
       | WouldBlock \<Rightarrow> epollMod (cs_tcpFd c)
           (if cs_state c \<noteq> Closing then EPOLLOUT OR EPOLLERR OR EPOLLHUP OR EPOLLIN
            else EPOLLOUT OR EPOLLERR OR EPOLLHUP)
       | SendError \<Rightarrow> kill fd
     }
   }"

definition flushSendBuf :: "int \<Rightarrow> unit server" where
  "flushSendBuf fd = do { k \<leftarrow> gets (\<lambda>s. length (sv_sends s)); flushSendBuf_loop (Suc k) fd }"

primrec flushDataSendBuf_loop :: "nat \<Rightarrow> int \<Rightarrow> int \<Rightarrow> bool server" where
  "flushDataSendBuf_loop 0 fd dataFd = ret True"
| "flushDataSendBuf_loop (Suc k) fd dataFd = do {
     c \<leftarrow> getC fd;
     if cs_dataSendBuf c = [] then do { epollMod dataFd (EPOLLIN OR EPOLLERR OR EPOLLHUP); ret True }
     else do {
       r \<leftarrow> send_call dataFd (cs_dataSendBuf c);
       case r of
         Sent n \<Rightarrow> if n > 0 then do { consumeSendBuffer fd True n; flushDataSendBuf_loop k fd dataFd }
                   else do { closeDataChannel fd; ret False }
       | WouldBlock \<Rightarrow> do { epollMod dataFd (EPOLLIN OR EPOLLOUT OR EPOLLERR OR EPOLLHUP); ret True }
       | SendError \<Rightarrow> do { closeDataChannel fd; ret False }
     }
   }"

definition flushDataSendBuf :: "int \<Rightarrow> bool server" where
  "flushDataSendBuf fd = do {
     c \<leftarrow> getC fd;
     if cs_dataFd c < 0 then ret False
     else do { k \<leftarrow> gets (\<lambda>s. length (sv_sends s)); flushDataSendBuf_loop (Suc k) fd (cs_dataFd c) }
   }"

section \<open>Messages\<close>

definition tcpHeader :: "u8 \<Rightarrow> nat \<Rightarrow> bytes" where
  "tcpHeader msgType n = (let l = of_nat n :: u16 in [msgType, ucast (drop_bit 8 l), ucast l])"

definition sendMsg :: "int \<Rightarrow> u8 \<Rightarrow> bytes \<Rightarrow> bool server" where
  "sendMsg fd msgType body = do {
     found \<leftarrow> gets (\<lambda>s. map_of (sv_clients s) fd);
     case found of
       None \<Rightarrow> ret False
     | Some c \<Rightarrow>
         if \<not> cs_alive c then ret False
         else if length body > MAX_TCP_MSG_PAYLOAD then do { logSendRejectSampled; ret False }
         else do {
           ok \<leftarrow> appendSendBuffer fd False (tcpHeader msgType (length body)) body;
           if \<not> ok then do {
             logSendRejectSampled;
             c \<leftarrow> getC fd;
             (if cs_sendBudgetFailures c \<ge> 3 then kill fd else skip);
             ret False
           }
           else do {
             flushSendBuf fd;
             c \<leftarrow> getC fd;
             (if length (cs_sendBuf c) > MAX_TCP_SEND_BUF then kill fd else skip);
             c \<leftarrow> getC fd;
             ret (cs_alive c)
           }
         }
   }"

definition failRequiredControl :: "int \<Rightarrow> unit server" where
  "failRequiredControl fd = kill fd"

definition encryptForClient :: "crypto \<Rightarrow> int \<Rightarrow> u8 \<Rightarrow> bytes \<Rightarrow> bytes server" where
  "encryptForClient C fd msgType body = do {
     c \<leftarrow> getC fd;
     case encryptFrame C (msgType # body) [] (cs_secureCipher c) of (enc, k) \<Rightarrow> do {
       modC fd (\<lambda>c. c\<lparr>cs_secureCipher := k\<rparr>);
       (if enc = [] then kill fd else skip);
       ret enc
     }
   }"

definition sendClientMsg :: "crypto \<Rightarrow> int \<Rightarrow> u8 \<Rightarrow> bytes \<Rightarrow> bool server" where
  "sendClientMsg C fd msgType body = do {
     c \<leftarrow> getC fd;
     if \<not> cs_alive c then ret False
     else do {
       sent \<leftarrow>
         (if cs_secureEnabled c \<and> cs_serverAuthOk c then do {
            wrapped \<leftarrow> encryptForClient C fd msgType body;
            c \<leftarrow> getC fd;
            if cs_alive c \<and> wrapped \<noteq> [] then sendMsg (cs_tcpFd c) MSG_ENCRYPTED wrapped else ret False
          }
          else if msgType = MSG_SERVER_HELLO \<or> msgType = MSG_SERVER_AUTH_OK \<or> msgType = MSG_ERROR
          then sendMsg (cs_tcpFd c) msgType body
          else do { kill fd; ret False });
       (if \<not> sent \<and> isRequiredControlResponse msgType then failRequiredControl fd else skip);
       ret sent
     }
   }"

definition postClientMsg :: "crypto \<Rightarrow> int \<Rightarrow> u8 \<Rightarrow> bytes \<Rightarrow> unit server" where
  "postClientMsg C fd msgType body = do { ok \<leftarrow> sendClientMsg C fd msgType body; skip }"

definition errorBody :: "AuthErrorCode \<Rightarrow> string \<Rightarrow> bytes" where
  "errorBody code msg = bb_data (writeString (ascii msg) (writeU16 (AuthErrorCode_val code) emptyBuffer))"

definition sendError :: "crypto \<Rightarrow> int \<Rightarrow> string \<Rightarrow> AuthErrorCode \<Rightarrow> unit server" where
  "sendError C fd msg code = do {
     found \<leftarrow> gets (\<lambda>s. map_of (sv_clients s) fd);
     if found \<noteq> None then postClientMsg C fd MSG_ERROR (errorBody code msg)
     else do { ok \<leftarrow> sendMsg fd MSG_ERROR (errorBody code msg); skip }
   }"

definition sendDataMsg :: "crypto \<Rightarrow> int \<Rightarrow> u8 \<Rightarrow> bytes \<Rightarrow> bool server" where
  "sendDataMsg C fd msgType body = do {
     c \<leftarrow> getC fd;
     if cs_dataFd c < 0 \<or> \<not> cs_alive c then ret False
     else if length body > MAX_TCP_MSG_PAYLOAD then do { logSendRejectSampled; ret False }
     else if \<not> cs_secureEnabled c \<or> \<not> cs_serverAuthOk c then ret False
     else case encryptFrame C (msgType # body) [] (cs_dataCipher c) of (enc, k) \<Rightarrow> do {
       modC fd (\<lambda>c. c\<lparr>cs_dataCipher := k\<rparr>);
       if enc = [] then do { kill fd; ret False }
       else if length enc > MAX_TCP_MSG_PAYLOAD then do { logSendRejectSampled; ret False }
       else do {
         ok \<leftarrow> appendSendBuffer fd True (tcpHeader MSG_ENCRYPTED (length enc)) enc;
         if \<not> ok then do { logSendRejectSampled; closeDataChannel fd; ret False }
         else do {
           c \<leftarrow> getC fd;
           if length (cs_dataSendBuf c) > MAX_TCP_SEND_BUF then do { closeDataChannel fd; ret False }
           else flushDataSendBuf fd
         }
       }
     }
   }"

definition broadcastToRoom :: "crypto \<Rightarrow> u32 \<Rightarrow> u8 \<Rightarrow> bytes \<Rightarrow> u32 \<Rightarrow> unit server" where
  "broadcastToRoom C roomId msgType body excludePeerId = do {
     room \<leftarrow> gets (\<lambda>s. getRoom roomId (sv_rooms s));
     case room of
       None \<Rightarrow> skip
     | Some room \<Rightarrow> forM (peerIds room) (\<lambda>mid.
         if mid = excludePeerId then skip
         else do {
           target \<leftarrow> findClientByPeerId mid;
           case target of Some t \<Rightarrow> postClientMsg C t msgType body | None \<Rightarrow> skip
         })
   }"

definition peerIdBody :: "u32 \<Rightarrow> bytes" where
  "peerIdBody peerId = bb_data (writeU32 peerId emptyBuffer)"

definition sendRelayReady :: "crypto \<Rightarrow> int \<Rightarrow> u32 \<Rightarrow> unit server" where
  "sendRelayReady C fd peerId = postClientMsg C fd MSG_RELAY_READY (peerIdBody peerId)"

definition notifyRelayPeers :: "crypto \<Rightarrow> int \<Rightarrow> unit server" where
  "notifyRelayPeers C fd = do {
     c \<leftarrow> getC fd;
     room \<leftarrow> gets (\<lambda>s. getRoom (cs_roomId c) (sv_rooms s));
     case room of
       None \<Rightarrow> skip
     | Some room \<Rightarrow> forM (peerIds room) (\<lambda>mid. do {
         c \<leftarrow> getC fd;
         if mid = cs_peerId c then skip
         else do {
           other \<leftarrow> findClientByPeerId mid;
           case other of
             None \<Rightarrow> skip
           | Some other \<Rightarrow> do {
               oc \<leftarrow> getC other;
               sendRelayReady C fd (cs_peerId oc);
               c \<leftarrow> getC fd;
               sendRelayReady C other (cs_peerId c)
             }
         }
       })
   }"

definition sendEncryptedUdp :: "crypto \<Rightarrow> int \<Rightarrow> int \<Rightarrow> bytes \<Rightarrow> sockaddr \<Rightarrow> unit server" where
  "sendEncryptedUdp C udpFd fd plain dstAddr = do {
     dst \<leftarrow> getC fd;
     if \<not> cs_serverAuthOk dst \<or> cs_secureSessionId dst = 0 \<or> \<not> cs_udpAddrKnown dst then skip
     else case encryptFrame C plain [] (cs_udpCipher dst) of (enc, k) \<Rightarrow> do {
       modC fd (\<lambda>c. c\<lparr>cs_udpCipher := k\<rparr>);
       if enc = [] then kill fd
       else syscall (SendUdp udpFd dstAddr (UDP_ENCRYPTED # writeU32BE (cs_secureSessionId dst) @ enc))
     }
   }"

end
