(* ===== verification/Server_Rooms.thy ===== *)
theory Server_Rooms
  imports Server_Send
begin

text \<open>
  Rooms as the server keeps them for its sessions (\<^verbatim>\<open>signal_server.cpp\<close>): the published room
  list, its pages and its incremental updates; leases of members that are offline, their
  validation on resume and their expiry; tearing down a session.
\<close>

section \<open>The room list\<close>

definition policyBytes :: "RoomTrafficPolicy \<Rightarrow> ByteBuffer \<Rightarrow> ByteBuffer" where
  "policyBytes p body = writeU8 (KcpProfile_val (tp_kcpProfile p)) (writeU8 (FecMode_val (tp_fecMode p))
     (writeU8 (TransportMode_val (tp_transportMode p)) body))"

definition roomListStateEq :: "RoomListState \<Rightarrow> RoomListState \<Rightarrow> bool" where
  "roomListStateEq a b \<longleftrightarrow>
     rl_roomId a = rl_roomId b \<and> rl_roomName a = rl_roomName b \<and> rl_playerCount a = rl_playerCount b \<and>
     rl_maxPlayers a = rl_maxPlayers b \<and>
     tp_transportMode (rl_tcpPolicy a) = tp_transportMode (rl_tcpPolicy b) \<and>
     tp_fecMode (rl_tcpPolicy a) = tp_fecMode (rl_tcpPolicy b) \<and>
     tp_kcpProfile (rl_tcpPolicy a) = tp_kcpProfile (rl_tcpPolicy b) \<and>
     tp_transportMode (rl_udpPolicy a) = tp_transportMode (rl_udpPolicy b) \<and>
     tp_fecMode (rl_udpPolicy a) = tp_fecMode (rl_udpPolicy b) \<and>
     tp_kcpProfile (rl_udpPolicy a) = tp_kcpProfile (rl_udpPolicy b) \<and>
     rl_passwordProtected a = rl_passwordProtected b \<and> rl_mtu a = rl_mtu b"

definition roomListStateOf :: "Room \<Rightarrow> RoomListState" where
  "roomListStateOf room = \<lparr>rl_roomId = rm_id room, rl_roomName = rm_name room,
     rl_playerCount = of_nat (length (rm_leases room)), rl_maxPlayers = rm_maxPlayers room,
     rl_tcpPolicy = rm_tcpPolicy room, rl_udpPolicy = rm_udpPolicy room,
     rl_passwordProtected = rm_passwordProtected room, rl_mtu = rm_mtu room\<rparr>"

definition collectRoomListState :: "RoomManager \<Rightarrow> (u32, RoomListState) omap" where
  "collectRoomListState m =
     fold (\<lambda>room result. om_upd (rl_roomId (roomListStateOf room)) (roomListStateOf room) result) (listRooms m) []"

definition writeRoomListItem :: "RoomListState \<Rightarrow> ByteBuffer \<Rightarrow> ByteBuffer" where
  "writeRoomListItem room body =
     writeU16 (rl_mtu room) (writeU8 (rl_passwordProtected room) (policyBytes (rl_udpPolicy room)
       (policyBytes (rl_tcpPolicy room) (writeU8 (rl_maxPlayers room) (writeU8 (rl_playerCount room)
         (writeString (rl_roomName room) (writeU32 (rl_roomId room) body)))))))"

fun packPages :: "RoomListState list \<Rightarrow> bytes list list \<Rightarrow> bytes list \<Rightarrow> nat \<Rightarrow> bytes list list" where
  "packPages [] full back currentSize = full @ [back]"
| "packPages (room # rooms) full back currentSize =
     (let record = bb_data (writeRoomListItem room emptyBuffer) in
      if back \<noteq> [] \<and> currentSize + length record > ROOM_LIST_PAGE_PAYLOAD
      then packPages rooms (full @ [back]) [record] (8 + 2 + 2 + 2 + length record)
      else packPages rooms full (back @ [record]) (currentSize + length record))"

definition roomListPage :: "u64 \<Rightarrow> u16 \<Rightarrow> nat \<Rightarrow> bytes list \<Rightarrow> bytes" where
  "roomListPage revision pageCount pageIndex records =
     bb_data (fold writeBytes records (writeU16 (of_nat (length records)) (writeU16 pageCount
       (writeU16 (of_nat pageIndex) (writeU64 revision emptyBuffer)))))"

definition buildRoomListPages :: "u64 \<Rightarrow> (u32, RoomListState) omap \<Rightarrow> bytes list" where
  "buildRoomListPages revision rooms =
     (let packedPages = packPages (map snd rooms) [] [] (8 + 2 + 2 + 2);
          pageCount = of_nat (length packedPages) :: u16
      in map (\<lambda>pageIndex. roomListPage revision pageCount pageIndex (packedPages ! pageIndex)) [0..<unat pageCount])"

text \<open>The changes that turn the published list into the current one.\<close>

definition roomListOperations ::
  "(u32, RoomListState) omap \<Rightarrow> (u32, RoomListState) omap \<Rightarrow> (u8 \<times> RoomListState) list" where
  "roomListOperations published current =
     map (\<lambda>e. (ROOM_LIST_UPSERT, snd e))
       (filter (\<lambda>(i, st). case map_of published i of None \<Rightarrow> True | Some old \<Rightarrow> \<not> roomListStateEq old st) current) @
     map (\<lambda>e. (ROOM_LIST_REMOVE, snd e)) (filter (\<lambda>(i, st). map_of current i = None) published)"

definition writeRoomListOperation :: "u8 \<times> RoomListState \<Rightarrow> ByteBuffer \<Rightarrow> ByteBuffer" where
  "writeRoomListOperation op resp =
     (let resp = writeU8 (fst op) resp in
      if fst op = ROOM_LIST_UPSERT then writeRoomListItem (snd op) resp else writeU32 (rl_roomId (snd op)) resp)"

definition roomListPush :: "u64 \<Rightarrow> u64 \<Rightarrow> (u8 \<times> RoomListState) list \<Rightarrow> bytes" where
  "roomListPush baseRevision revision operations =
     bb_data (fold writeRoomListOperation operations (writeU16 (of_nat (length operations))
       (writeU64 revision (writeU64 baseRevision emptyBuffer))))"

definition broadcastRoomListPush :: "crypto \<Rightarrow> unit server" where
  "broadcastRoomListPush C = do {
     current \<leftarrow> gets (\<lambda>s. collectRoomListState (sv_rooms s));
     published \<leftarrow> gets sv_publishedRooms;
     let operations = roomListOperations published current;
     if operations = [] then skip
     else do {
       baseRevision \<leftarrow> gets sv_roomListRevision;
       modify (\<lambda>s. s\<lparr>sv_roomListRevision := sv_roomListRevision s + 1\<rparr>);
       let resp = roomListPush baseRevision (baseRevision + 1) operations;
       if length resp > ROOM_LIST_PAGE_PAYLOAD then skip
       else do {
         modify (\<lambda>s. s\<lparr>sv_publishedRooms := current\<rparr>);
         fds \<leftarrow> gets (\<lambda>s. map fst (sv_clients s));
         forM fds (\<lambda>fd. do {
           client \<leftarrow> getC fd;
           if cs_peerId client = 0 \<or> \<not> cs_alive client \<or> \<not> sessionHasPeerIdentity (cs_state client) \<or>
              \<not> cs_serverAuthOk client
           then skip else postClientMsg C fd MSG_ROOM_LIST_PUSH resp
         })
       }
     }
   }"

section \<open>Leases\<close>

definition validateResumeLease :: "u32 \<Rightarrow> u32 \<Rightarrow> bytes \<Rightarrow> (Room \<times> RoomLease) option server" where
  "validateResumeLease roomId peerId token =
     (if tokenIsZero token then ret None
      else do {
        room \<leftarrow> gets (\<lambda>s. getRoom roomId (sv_rooms s));
        case room of
          None \<Rightarrow> ret None
        | Some room \<Rightarrow> (case leaseByPeerId peerId room of
              None \<Rightarrow> ret None
            | Some lease \<Rightarrow>
                if \<not> tokenEquals (ls_token lease) token then ret None
                else do {
                  now \<leftarrow> time_now;
                  if \<not> ls_online lease \<and> ls_expiresAt lease > 0 \<and> now > ls_expiresAt lease then ret None
                  else ret (Some (room, lease))
                })
      })"

definition joinResponseBody :: "Room \<Rightarrow> u32 \<Rightarrow> bytes \<Rightarrow> bytes" where
  "joinResponseBody room virtualIP token =
     bb_data (writeBytes (take RECONNECT_TOKEN_SIZE token)
       (fold (\<lambda>lease resp. writeString (ls_name lease) (writeU32 (ls_virtualIP lease) (writeU32 (ls_peerId lease) resp)))
         (rm_leases room)
         (writeU8 (of_nat (length (rm_leases room))) (writeU16 (rm_mtu room) (writeU8 (rm_passwordProtected room)
           (policyBytes (rm_udpPolicy room) (policyBytes (rm_tcpPolicy room)
             (writeU32 virtualIP (writeU32 (rm_id room) emptyBuffer)))))))))"

definition sendJoinResponse :: "crypto \<Rightarrow> int \<Rightarrow> u32 \<Rightarrow> bytes \<Rightarrow> bool server" where
  "sendJoinResponse C fd roomId token = do {
     c \<leftarrow> getC fd;
     room \<leftarrow> gets (\<lambda>s. getRoom roomId (sv_rooms s));
     case room of
       None \<Rightarrow> ret False
     | Some room \<Rightarrow> sendClientMsg C fd MSG_JOIN_RESP (joinResponseBody room (cs_virtualIP c) token)
   }"

definition removeMember :: "u32 \<Rightarrow> u32 \<Rightarrow> unit server" where
  "removeMember roomId peerId = do {
     now \<leftarrow> time_now;
     room \<leftarrow> gets (\<lambda>s. getRoom roomId (sv_rooms s));
     case room of
       None \<Rightarrow> skip
     | Some _ \<Rightarrow> do {
         modRooms (updRoom roomId (\<lambda>r. snd (removeLease now peerId r)));
         room \<leftarrow> gets (\<lambda>s. getRoom roomId (sv_rooms s));
         case room of
           Some r \<Rightarrow> if rm_leases r = [] then modRooms (eraseRoom roomId) else skip
         | None \<Rightarrow> skip
       }
   }"

definition rollbackNewMembership :: "int \<Rightarrow> u32 \<Rightarrow> unit server" where
  "rollbackNewMembership fd roomId = do {
     c \<leftarrow> getC fd;
     removeMember roomId (cs_peerId c);
     modC fd (\<lambda>c. c\<lparr>cs_roomId := 0, cs_virtualIP := 0, cs_resumeRoomId := 0, cs_resumePeerId := 0,
       cs_resumeToken := replicate RECONNECT_TOKEN_SIZE 0, cs_state := LoggedIn, cs_alive := False\<rparr>)
   }"

definition markSessionOffline :: "int \<Rightarrow> unit server" where
  "markSessionOffline fd = do {
     c \<leftarrow> getC fd;
     if cs_roomId c = 0 then skip
     else do {
       now \<leftarrow> time_now;
       modRooms (updRoom (cs_roomId c) (\<lambda>r. snd (markLeaseOffline (cs_peerId c) now r)));
       modC fd (\<lambda>c. c\<lparr>cs_roomId := 0, cs_virtualIP := 0\<rparr>)
     }
   }"

text \<open>A write to \<^verbatim>\<open>room->leases[i]\<close> and the removal of that element.\<close>

definition modLease :: "u32 \<Rightarrow> nat \<Rightarrow> (RoomLease \<Rightarrow> RoomLease) \<Rightarrow> unit server" where
  "modLease roomId i f = modRooms (updRoom roomId (\<lambda>r. r\<lparr>rm_leases := (rm_leases r)[i := f (rm_leases r ! i)]\<rparr>))"

definition dropLease :: "u32 \<Rightarrow> nat \<Rightarrow> unit server" where
  "dropLease roomId i = modRooms (updRoom roomId (\<lambda>r. r\<lparr>rm_leases := take i (rm_leases r) @ drop (Suc i) (rm_leases r)\<rparr>))"

definition refreshLease :: "int \<Rightarrow> bool \<Rightarrow> RoomLease \<Rightarrow> bool \<times> RoomLease" where
  "refreshLease now hasLiveSession lease =
     (if hasLiveSession \<and> \<not> ls_online lease
      then (True, lease\<lparr>ls_online := True, ls_offlineSince := 0, ls_expiresAt := 0\<rparr>)
      else if ls_online lease \<and> \<not> hasLiveSession
      then (True, lease\<lparr>ls_online := False, ls_offlineSince := now, ls_expiresAt := now + RECONNECT_LEASE_TIMEOUT_SEC\<rparr>)
      else if \<not> ls_online lease \<and> ls_expiresAt lease = 0
      then (True, lease\<lparr>ls_offlineSince := now, ls_expiresAt := now + RECONNECT_LEASE_TIMEOUT_SEC\<rparr>)
      else (False, lease))"

text \<open>
  The inner loop over one room's leases.  A round either moves on or removes the lease it looks
  at, so the number of leases at the start is the number of rounds.
\<close>

primrec expireLeases_loop :: "nat \<Rightarrow> crypto \<Rightarrow> int \<Rightarrow> u32 \<Rightarrow> nat \<Rightarrow> bool \<Rightarrow> bool server" where
  "expireLeases_loop 0 C now roomId i changed = ret changed"
| "expireLeases_loop (Suc k) C now roomId i changed = do {
     room \<leftarrow> gets (\<lambda>s. getRoom roomId (sv_rooms s));
     case room of
       None \<Rightarrow> ret changed
     | Some room \<Rightarrow>
         if i \<ge> length (rm_leases room) then ret changed
         else do {
           let lease = rm_leases room ! i;
           live \<leftarrow> findClientByPeerId (ls_peerId lease);
           hasLiveSession \<leftarrow> (case live of
               None \<Rightarrow> ret False
             | Some fd \<Rightarrow> do { lc \<leftarrow> getC fd; ret (cs_roomId lc = rm_id room \<and> cs_state lc = InRoom) });
           case refreshLease now hasLiveSession lease of (ch, lease) \<Rightarrow> do {
             (if ch then modLease roomId i (\<lambda>_. lease) else skip);
             if \<not> ls_online lease \<and> ls_expiresAt lease > 0 \<and> now > ls_expiresAt lease
             then do {
               broadcastToRoom C (rm_id room) MSG_PEER_LEFT (peerIdBody (ls_peerId lease)) (ls_peerId lease);
               dropLease roomId i;
               live \<leftarrow> findClientByPeerId (ls_peerId lease);
               (if live = None then releasePeerId (ls_peerId lease) else skip);
               expireLeases_loop k C now roomId i True
             }
             else expireLeases_loop k C now roomId (Suc i) (changed \<or> ch)
           }
         }
   }"

primrec expireRooms :: "u32 list \<Rightarrow> crypto \<Rightarrow> int \<Rightarrow> bool \<Rightarrow> u32 list \<Rightarrow> (bool \<times> u32 list) server" where
  "expireRooms [] C now changed emptyRooms = ret (changed, emptyRooms)"
| "expireRooms (roomId # rooms) C now changed emptyRooms = do {
     n \<leftarrow> gets (\<lambda>s. case getRoom roomId (sv_rooms s) of Some r \<Rightarrow> length (rm_leases r) | None \<Rightarrow> 0);
     changed \<leftarrow> expireLeases_loop n C now roomId 0 changed;
     modRooms (updRoom roomId ensureHost);
     isEmpty \<leftarrow> gets (\<lambda>s. case getRoom roomId (sv_rooms s) of Some r \<Rightarrow> rm_leases r = [] | None \<Rightarrow> False);
     expireRooms rooms C now changed (if isEmpty then emptyRooms @ [roomId] else emptyRooms)
   }"

definition cleanupExpiredLeases :: "crypto \<Rightarrow> int \<Rightarrow> unit server" where
  "cleanupExpiredLeases C now = do {
     rooms \<leftarrow> gets (\<lambda>s. map fst (mg_rooms (sv_rooms s)));
     r \<leftarrow> expireRooms rooms C now False [];
     case r of (changed, emptyRooms) \<Rightarrow> do {
       forM emptyRooms (\<lambda>roomId. modRooms (eraseRoom roomId));
       if changed \<or> emptyRooms \<noteq> [] then broadcastRoomListPush C else skip
     }
   }"

section \<open>Tearing down a session\<close>

definition wipeSession :: "ClientSession \<Rightarrow> ClientSession" where
  "wipeSession c = c\<lparr>cs_secureMaster := replicate 32 0, cs_clientNonce := replicate 16 0,
     cs_serverNonce := replicate 16 0, cs_clientPubKey := replicate 32 0, cs_serverPrivKey := replicate 32 0,
     cs_serverPubKey := replicate 32 0, cs_authChallenge := replicate 32 0,
     cs_resumeToken := replicate RECONNECT_TOKEN_SIZE 0, cs_secureCipher := resetCipher (cs_secureCipher c),
     cs_dataCipher := resetCipher (cs_dataCipher c), cs_udpCipher := resetCipher (cs_udpCipher c)\<rparr>"

text \<open>The end of \<^verbatim>\<open>destroyClient\<close>: buffers, keys, the connection count and the socket.\<close>

definition eraseSession :: "int \<Rightarrow> unit server" where
  "eraseSession fd = do {
     clearSendBuffer fd False;
     modC fd (\<lambda>c. c\<lparr>cs_recvBuf := []\<rparr>);
     clearSendBuffer fd True;
     modC fd (\<lambda>c. c\<lparr>cs_dataRecvBuf := []\<rparr>);
     modC fd wipeSession;
     releaseClientIp fd;
     epollDel fd;
     close_fd fd;
     modify (\<lambda>s. s\<lparr>sv_clients := om_del fd (sv_clients s)\<rparr>)
   }"

definition destroyClient :: "int \<Rightarrow> DisconnectReason \<Rightarrow> unit server" where
  "destroyClient fd reason = do {
     found \<leftarrow> gets (\<lambda>s. map_of (sv_clients s) fd);
     case found of
       None \<Rightarrow> skip
     | Some c \<Rightarrow> do {
         kill fd;
         let peerId = cs_peerId c;
         peerOwner \<leftarrow> (if peerId \<noteq> 0 then findClientOwnerByPeerId peerId else ret None);
         let peerOwnedByOther = (peerOwner \<noteq> None \<and> peerOwner \<noteq> Some fd);
         let preservePeerId = (reason = Takeover \<or> peerOwnedByOther);
         closeDataChannel fd;
         preservePeerId \<leftarrow>
           (if \<not> peerOwnedByOther \<and> reason \<noteq> LogoutComplete \<and> cs_roomId c \<noteq> 0
            then do { markSessionOffline fd; ret True }
            else if \<not> peerOwnedByOther \<and> reason \<noteq> LogoutComplete \<and> cs_state c = ResumePending \<and>
                    cs_resumeRoomId c \<noteq> 0
            then do {
              room \<leftarrow> gets (\<lambda>s. getRoom (cs_resumeRoomId c) (sv_rooms s));
              now \<leftarrow> time_now;
              if room \<noteq> None then do {
                modRooms (updRoom (cs_resumeRoomId c) (\<lambda>r. snd (markLeaseOffline peerId now r)));
                ret True
              }
              else ret preservePeerId
            }
            else ret preservePeerId);
         unbindClientIndexes fd;
         (if \<not> preservePeerId then releasePeerId peerId else skip);
         eraseSession fd
       }
   }"

definition closeClientForTakeover :: "int \<Rightarrow> unit server" where
  "closeClientForTakeover fd = do { c \<leftarrow> getC fd; destroyClient (cs_tcpFd c) Takeover }"

definition handleClientDisconnect :: "int \<Rightarrow> unit server" where
  "handleClientDisconnect fd = do {
     found \<leftarrow> gets (\<lambda>s. map_of (sv_clients s) fd);
     case found of
       None \<Rightarrow> skip
     | Some c \<Rightarrow> destroyClient fd (if cs_state c = Closing then LogoutComplete else Network)
   }"

definition handleDataChannelDisconnect :: "int \<Rightarrow> unit server" where
  "handleDataChannelDisconnect fd = do {
     client \<leftarrow> findClientOwnerByDataFd fd;
     case client of None \<Rightarrow> skip | Some c \<Rightarrow> closeDataChannel c
   }"

end
