(* ===== verification/Server_Handlers.thy ===== *)
theory Server_Handlers
  imports Server_Rooms
begin

text \<open>
  The message handlers of the server (\<^verbatim>\<open>signal_server.cpp\<close>) and the dispatch of a decrypted
  message to them.  A handler that parses a payload and reads past its end throws; the throw
  ends in the \<^verbatim>\<open>catch\<close> clause of \<^verbatim>\<open>processMessage\<close>, which only marks the session dead, so
  \<open>kill\<close> stands where the read fails.
\<close>

section \<open>Handshake\<close>

abbreviation (input) PROTOCOL_MISMATCH :: string where
  "PROTOCOL_MISMATCH \<equiv> ''Protocol mismatch: server v9; update GUI/CLI and server together.''"

definition serverHelloBody :: "bytes \<Rightarrow> bytes \<Rightarrow> bytes \<Rightarrow> bytes" where
  "serverHelloBody salt nonce pubKey =
     bb_data (writeBytes pubKey (writeBytes nonce (writeBytes salt (writeU8 AUTH_KDF_PROFILE
       (writeU8 1 (writeU16 PROTOCOL_VERSION emptyBuffer))))))"

definition onClientHello :: "crypto \<Rightarrow> int \<Rightarrow> bytes \<Rightarrow> unit server" where
  "onClientHello C fd p = do {
     c \<leftarrow> getC fd;
     if cs_state c \<noteq> AwaitHello \<or> length p \<noteq> 2 + 16 + 32 then kill fd
     else do {
       let bb = \<lparr>bb_data = p, bb_readPos = 0\<rparr>;
       case readU16 bb of
         None \<Rightarrow> kill fd
       | Some (clientVersion, bb) \<Rightarrow>
           if clientVersion \<noteq> PROTOCOL_VERSION then do {
             sendError C (cs_tcpFd c) PROTOCOL_MISMATCH VersionMismatch;
             modC fd (\<lambda>c. c\<lparr>cs_state := Closing, cs_helloDeadline := 0\<rparr>)
           }
           else do {
             allowed \<leftarrow> takeIpToken (cs_remoteIpv4 c) AuthFailures 32 1;
             if \<not> allowed then do {
               sendError C (cs_tcpFd c) ''Authentication rate limit exceeded'' RateLimited;
               modC fd (\<lambda>c. c\<lparr>cs_state := Closing, cs_helloDeadline := 0\<rparr>)
             }
             else case readBytes 16 bb of
               None \<Rightarrow> kill fd
             | Some (clientNonce, bb) \<Rightarrow> (case readBytes 32 bb of
                 None \<Rightarrow> kill fd
               | Some (clientPubKey, bb) \<Rightarrow> do {
                   modC fd (\<lambda>c. c\<lparr>cs_clientNonce := clientNonce, cs_clientPubKey := clientPubKey,
                     cs_helloDeadline := 0, cs_serverAuthOk := False\<rparr>);
                   r1 \<leftarrow> secureRandomBytes 16;
                   r2 \<leftarrow> (if r1 = None then ret None else secureRandomBytes 32);
                   case (r1, r2) of
                     (Some nonce, Some priv) \<Rightarrow> do {
                       now \<leftarrow> time_now;
                       modC fd (\<lambda>c. c\<lparr>cs_serverNonce := nonce, cs_serverPrivKey := priv,
                         cs_serverPubKey := cr_x25519_public_key C priv,
                         cs_authDeadline := now + SERVER_AUTH_TIMEOUT_SEC, cs_state := AwaitServerAuth\<rparr>);
                       salt \<leftarrow> gets sv_serverAuthSalt;
                       sent \<leftarrow> sendMsg (cs_tcpFd c) MSG_SERVER_HELLO
                         (serverHelloBody salt nonce (cr_x25519_public_key C priv));
                       if \<not> sent then failRequiredControl fd else skip
                     }
                   | _ \<Rightarrow> do {
                       modC fd (\<lambda>c. c\<lparr>cs_serverNonce := replicate 16 0, cs_serverPrivKey := replicate 32 0\<rparr>);
                       kill fd
                     }
                 })
           }
     }
   }"

definition serverAuthOkBody :: "u32 \<Rightarrow> bytes \<Rightarrow> bytes" where
  "serverAuthOkBody sessionId proof =
     bb_data (writeBytes proof (writeU32 sessionId emptyBuffer))"

text \<open>The session after a verified proof: keys, ciphers and the secure session number.\<close>

definition acceptServerAuth :: "crypto \<Rightarrow> int \<Rightarrow> bytes \<Rightarrow> unit server" where
  "acceptServerAuth C fd master = do {
     let sessionId = deriveSessionId C master;
     modC fd (\<lambda>c. c\<lparr>cs_secureMaster := master, cs_secureSessionId := sessionId,
       cs_secureCipher := initCipher C master False ''signal'' (cs_secureCipher c),
       cs_dataCipher := initCipher C master False ''data'' (cs_dataCipher c),
       cs_udpCipher := initCipher C master False ''udp'' (cs_udpCipher c),
       cs_secureEnabled := True, cs_serverAuthOk := True\<rparr>);
     bound \<leftarrow> bindSecureSessionIndex fd sessionId;
     if \<not> bound then kill fd
     else do {
       modC fd (\<lambda>c. c\<lparr>cs_state := AwaitLogin\<rparr>);
       authHash \<leftarrow> gets sv_serverAuthHash;
       c \<leftarrow> getC fd;
       responseSent \<leftarrow> sendMsg (cs_tcpFd c) MSG_SERVER_AUTH_OK
         (serverAuthOkBody sessionId (computeServerAuthProof C master authHash));
       if \<not> responseSent then failRequiredControl fd else skip
     }
   }"

definition onServerAuth :: "crypto \<Rightarrow> int \<Rightarrow> bytes \<Rightarrow> unit server" where
  "onServerAuth C fd p = do {
     c \<leftarrow> getC fd;
     now \<leftarrow> time_now;
     if cs_state c \<noteq> AwaitServerAuth \<or> cs_serverAuthOk c then kill fd
     else if now > cs_authDeadline c \<or> length p \<noteq> 32 then do {
       sendError C (cs_tcpFd c) ''Server authentication timeout'' AuthTimeout;
       kill fd
     }
     else do {
       authHash \<leftarrow> gets sv_serverAuthHash;
       authSalt \<leftarrow> gets sv_serverAuthSalt;
       let shared = cr_x25519 C (cs_serverPrivKey c) (cs_clientPubKey c);
       modC fd (\<lambda>c. c\<lparr>cs_serverPrivKey := replicate 32 0\<rparr>);
       if \<not> validX25519Shared shared then do {
         sendError C (cs_tcpFd c) ''Invalid X25519 peer key'' InvalidKey;
         modC fd (\<lambda>c. c\<lparr>cs_state := Closing\<rparr>)
       }
       else do {
         let master = deriveSecureMaster C shared authHash (cs_clientNonce c) (cs_serverNonce c)
                        (cs_clientPubKey c) (cs_serverPubKey c) authSalt AUTH_KDF_PROFILE;
         if crypto_verify32 (computeClientAuthProof C master authHash) p \<noteq> 0 then do {
           sendError C (cs_tcpFd c) ''Invalid server password'' InvalidPassword;
           modC fd (\<lambda>c. c\<lparr>cs_state := Closing\<rparr>)
         }
         else if deriveSessionId C master = 0 then do {
           sendError C (cs_tcpFd c) ''Secure session unavailable'' General;
           kill fd
         }
         else do {
           existing \<leftarrow> gets (\<lambda>s. map_of (sv_secureSessionMap s) (deriveSessionId C master));
           taken \<leftarrow> (if existing \<noteq> None \<and> existing \<noteq> Some (cs_tcpFd c)
                     then findClientOwnerBySecureSessionId (deriveSessionId C master) else ret None);
           if taken \<noteq> None then do {
             sendError C (cs_tcpFd c) ''Secure session collision'' General;
             kill fd
           }
           else acceptServerAuth C fd master
         }
       }
     }
   }"

section \<open>Login\<close>

record LoginRequest =
  lr_name :: bytes
  lr_version :: u16
  lr_hasResume :: bool
  lr_roomId :: u32
  lr_peerId :: u32
  lr_token :: bytes

definition parseLogin :: "bytes \<Rightarrow> LoginRequest option" where
  "parseLogin p = do {
     (name, bb) \<leftarrow> readString \<lparr>bb_data = p, bb_readPos = 0\<rparr>;
     (clientVersion, bb) \<leftarrow> readU16 bb;
     (resumeFlag, bb) \<leftarrow> readU8 bb;
     if resumeFlag > 1 then None
     else do {
       (roomId, peerId, token, bb) \<leftarrow>
         (if resumeFlag \<noteq> 0 then do {
            (roomId, bb) \<leftarrow> readU32 bb;
            (peerId, bb) \<leftarrow> readU32 bb;
            (token, bb) \<leftarrow> readBytes RECONNECT_TOKEN_SIZE bb;
            Some (roomId, peerId, token, bb)
          }
          else Some (0, 0, replicate RECONNECT_TOKEN_SIZE 0, bb));
       if \<not> atEnd bb then None
       else Some \<lparr>lr_name = name, lr_version = clientVersion, lr_hasResume = (resumeFlag \<noteq> 0),
                  lr_roomId = roomId, lr_peerId = peerId, lr_token = token\<rparr>
     }
   }"

definition loginRespBody :: "u32 \<Rightarrow> u8 \<Rightarrow> bytes" where
  "loginRespBody peerId resumed = bb_data (writeU8 resumed (writeU16 PROTOCOL_VERSION (writeU32 peerId emptyBuffer)))"

definition resumeLogin :: "crypto \<Rightarrow> int \<Rightarrow> LoginRequest \<Rightarrow> RoomLease \<Rightarrow> unit server" where
  "resumeLogin C fd req lease = do {
     oldClient \<leftarrow> findClientOwnerByPeerId (lr_peerId req);
     (case oldClient of
        Some old \<Rightarrow> if old \<noteq> fd then closeClientForTakeover old else skip
      | None \<Rightarrow> skip);
     modC fd (\<lambda>c. c\<lparr>cs_name := (if ls_name lease = [] then lr_name req else ls_name lease),
       cs_peerId := lr_peerId req, cs_resumeRoomId := lr_roomId req, cs_resumePeerId := lr_peerId req,
       cs_resumeToken := lr_token req, cs_state := ResumePending\<rparr>);
     now \<leftarrow> time_now;
     modRooms (updRoom (lr_roomId req) (\<lambda>r. snd (markLeaseOffline (lr_peerId req) now r)));
     bound \<leftarrow> bindPeerIndex fd (lr_peerId req);
     if \<not> bound then kill fd
     else postClientMsg C fd MSG_LOGIN_RESP (loginRespBody (lr_peerId req) 1)
   }"

definition freshLogin :: "crypto \<Rightarrow> int \<Rightarrow> LoginRequest \<Rightarrow> unit server" where
  "freshLogin C fd req = do {
     peerId \<leftarrow> allocatePeerId;
     modC fd (\<lambda>c. c\<lparr>cs_name := lr_name req, cs_peerId := peerId, cs_resumeRoomId := 0, cs_resumePeerId := 0,
       cs_resumeToken := replicate RECONNECT_TOKEN_SIZE 0, cs_state := LoggedIn\<rparr>);
     bound \<leftarrow> bindPeerIndex fd peerId;
     if \<not> bound then do {
       modC fd (\<lambda>c. c\<lparr>cs_peerId := 0\<rparr>);
       releasePeerId peerId;
       kill fd
     }
     else postClientMsg C fd MSG_LOGIN_RESP (loginRespBody peerId 0)
   }"

definition nameInUse :: "int \<Rightarrow> bytes \<Rightarrow> SignalServer \<Rightarrow> bool" where
  "nameInUse fd name s \<longleftrightarrow> (\<exists>e \<in> set (sv_clients s). cs_peerId (snd e) \<noteq> 0 \<and> cs_name (snd e) = name \<and> fst e \<noteq> fd)"

definition onLogin :: "crypto \<Rightarrow> int \<Rightarrow> bytes \<Rightarrow> unit server" where
  "onLogin C fd p = do {
     c \<leftarrow> getC fd;
     if cs_state c \<noteq> AwaitLogin then kill fd
     else case parseLogin p of
       None \<Rightarrow> kill fd
     | Some req \<Rightarrow>
         if lr_version req \<noteq> PROTOCOL_VERSION then do {
           sendError C (cs_tcpFd c) PROTOCOL_MISMATCH VersionMismatch;
           modC fd (\<lambda>c. c\<lparr>cs_state := Closing\<rparr>)
         }
         else if \<not> isValidPlayerName (lr_name req) then sendError C (cs_tcpFd c) ''Invalid player name'' General
         else do {
           resume \<leftarrow> (if lr_hasResume req then validateResumeLease (lr_roomId req) (lr_peerId req) (lr_token req) else ret None);
           case resume of
             Some (room, lease) \<Rightarrow> resumeLogin C fd req lease
           | None \<Rightarrow> do {
               used \<leftarrow> gets (nameInUse fd (lr_name req));
               if used then sendError C (cs_tcpFd c) ''Name already in use'' General
               else freshLogin C fd req
             }
         }
   }"

section \<open>Rooms\<close>

record CreateRequest =
  cq_name :: bytes
  cq_maxPlayers :: u8
  cq_tcpPolicy :: RoomTrafficPolicy
  cq_udpPolicy :: RoomTrafficPolicy
  cq_passwordProtected :: u8
  cq_salt :: bytes
  cq_hash :: bytes
  cq_mtu :: u16

text \<open>
  Parsing a request to create a room: \<open>None\<close> for a read past the end, \<open>Inl (Some e)\<close> for the
  error sent back, \<open>Inl None\<close> for an MTU that closes the session.
\<close>

definition parseCreateRoom :: "bytes \<Rightarrow> (string option + CreateRequest) option" where
  "parseCreateRoom p = do {
     (roomName, bb) \<leftarrow> readString \<lparr>bb_data = p, bb_readPos = 0\<rparr>;
     if \<not> isValidRoomName roomName then Some (Inl (Some ''Invalid room name''))
     else do {
       (maxPlayers, bb) \<leftarrow> readU8 bb;
       if maxPlayers < 2 \<or> maxPlayers > of_nat MAX_PLAYERS then Some (Inl (Some ''Invalid max players''))
       else if remaining bb < 6 then Some (Inl (Some ''Missing traffic policies''))
       else do {
         (tcpMode, bb) \<leftarrow> readU8 bb;
         (tcpFec, bb) \<leftarrow> readU8 bb;
         (tcpProfile, bb) \<leftarrow> readU8 bb;
         (udpMode, bb) \<leftarrow> readU8 bb;
         (udpFec, bb) \<leftarrow> readU8 bb;
         (udpProfile, bb) \<leftarrow> readU8 bb;
         if \<not> isValidTransportModeValue tcpMode \<or> \<not> isValidTransportModeValue udpMode \<or>
            \<not> isValidFecModeValue tcpFec \<or> \<not> isValidFecModeValue udpFec \<or>
            \<not> isValidKcpProfileValue tcpProfile \<or> \<not> isValidKcpProfileValue udpProfile \<or>
            (tcpMode = TransportMode_val MODE_RELAY_TCP \<and> tcpFec \<noteq> FecMode_val FEC_NONE) \<or>
            (udpMode = TransportMode_val MODE_RELAY_TCP \<and> udpFec \<noteq> FecMode_val FEC_NONE)
         then Some (Inl (Some ''Invalid traffic policy''))
         else do {
           (passwordProtected, bb) \<leftarrow> readU8 bb;
           (pwdSalt, pwdHash, bb) \<leftarrow>
             (if passwordProtected \<noteq> 0 then do {
                (pwdSalt, bb) \<leftarrow> readBytes AUTH_SALT_SIZE bb;
                (pwdHash, bb) \<leftarrow> readBytes 32 bb;
                Some (pwdSalt, pwdHash, bb)
              }
              else Some (replicate AUTH_SALT_SIZE 0, replicate 32 0, bb));
           (roomMtu, bb) \<leftarrow> readU16 bb;
           if \<not> isValidRoomMtuValue (uint roomMtu) then Some (Inl None)
           else Some (Inr \<lparr>cq_name = roomName, cq_maxPlayers = maxPlayers,
             cq_tcpPolicy = normalizeTrafficPolicy tcpMode tcpFec tcpProfile makeDefaultTcpPolicy,
             cq_udpPolicy = normalizeTrafficPolicy udpMode udpFec udpProfile makeDefaultUdpPolicy,
             cq_passwordProtected = passwordProtected, cq_salt = pwdSalt, cq_hash = pwdHash, cq_mtu = roomMtu\<rparr>)
         }
       }
     }
   }"

definition roomCreatedBody :: "Room \<Rightarrow> u32 \<Rightarrow> bytes \<Rightarrow> bytes" where
  "roomCreatedBody room virtualIP token =
     bb_data (writeBytes (take RECONNECT_TOKEN_SIZE token) (writeU16 (rm_mtu room) (writeU8 (rm_passwordProtected room)
       (policyBytes (rm_udpPolicy room) (policyBytes (rm_tcpPolicy room)
         (writeU32 virtualIP (writeU32 (rm_id room) emptyBuffer)))))))"

text \<open>\<^verbatim>\<open>m_rooms.createRoom\<close> and \<^verbatim>\<open>room->addLease\<close> as computations that return what the code gets.\<close>

definition serverCreateRoom :: "u32 \<Rightarrow> CreateRequest \<Rightarrow> u32 server" where
  "serverCreateRoom peerId req = State (\<lambda>s.
     case createRoom (cq_name req) peerId (cq_maxPlayers req) (cq_tcpPolicy req) (cq_udpPolicy req) (cq_mtu req)
            (cq_passwordProtected req) (Some (cq_hash req)) (Some (cq_salt req)) (sv_rooms s) of
       (room, m) \<Rightarrow> (rm_id room, s\<lparr>sv_rooms := m\<rparr>))"

definition serverAddLease :: "u32 \<Rightarrow> u32 \<Rightarrow> bytes \<Rightarrow> bytes \<Rightarrow> RoomLease option server" where
  "serverAddLease roomId peerId name token = do {
     lease \<leftarrow> gets (\<lambda>s. case getRoom roomId (sv_rooms s) of
                Some r \<Rightarrow> fst (addLease peerId name (Some token) r) | None \<Rightarrow> None);
     modRooms (updRoom roomId (\<lambda>r. snd (addLease peerId name (Some token) r)));
     ret lease
   }"

text \<open>The session becomes a member of the room.\<close>

definition enterRoom :: "int \<Rightarrow> u32 \<Rightarrow> RoomLease \<Rightarrow> bytes \<Rightarrow> unit server" where
  "enterRoom fd roomId lease token = modC fd (\<lambda>c. c\<lparr>cs_virtualIP := ls_virtualIP lease, cs_roomId := roomId,
     cs_resumeRoomId := roomId, cs_resumePeerId := cs_peerId c, cs_resumeToken := token, cs_state := InRoom\<rparr>)"

definition createAndEnter :: "crypto \<Rightarrow> int \<Rightarrow> CreateRequest \<Rightarrow> unit server" where
  "createAndEnter C fd req = do {
     token \<leftarrow> generateLeaseToken;
     c \<leftarrow> getC fd;
     case token of
       None \<Rightarrow> sendError C (cs_tcpFd c) ''Secure random generation failed'' General
     | Some leaseToken \<Rightarrow> do {
         roomId \<leftarrow> serverCreateRoom (cs_peerId c) req;
         lease \<leftarrow> serverAddLease roomId (cs_peerId c) (cs_name c) leaseToken;
         case lease of
           None \<Rightarrow> do {
             modRooms (eraseRoom roomId);
             sendError C (cs_tcpFd c) ''Cannot allocate virtual IP'' General
           }
         | Some lease \<Rightarrow> do {
             enterRoom fd roomId lease leaseToken;
             room \<leftarrow> gets (\<lambda>s. getRoom roomId (sv_rooms s));
             sent \<leftarrow> (case room of
                 Some r \<Rightarrow> sendClientMsg C fd MSG_ROOM_CREATED (roomCreatedBody r (ls_virtualIP lease) leaseToken)
               | None \<Rightarrow> ret False);
             if \<not> sent then rollbackNewMembership fd roomId
             else broadcastRoomListPush C
           }
       }
   }"

definition capacityReached :: "SignalServer \<Rightarrow> bool" where
  "capacityReached s \<longleftrightarrow> managerSize (sv_rooms s) \<ge> lm_maxRooms (sv_limits s)"

definition onCreateRoom :: "crypto \<Rightarrow> int \<Rightarrow> bytes \<Rightarrow> unit server" where
  "onCreateRoom C fd p = do {
     c \<leftarrow> getC fd;
     if cs_peerId c = 0 then sendError C (cs_tcpFd c) ''Not logged in'' General
     else if cs_roomId c \<noteq> 0 then sendError C (cs_tcpFd c) ''Already in a room'' General
     else do {
       allowed \<leftarrow> takeIpToken (cs_remoteIpv4 c) Creates 4 15;
       if \<not> allowed then sendError C (cs_tcpFd c) ''Room creation rate limit exceeded'' General
       else do {
         noRoom \<leftarrow> gets capacityReached;
         if noRoom then sendError C (cs_tcpFd c) ''Room capacity reached'' General
         else case parseCreateRoom p of
           None \<Rightarrow> kill fd
         | Some (Inl None) \<Rightarrow> kill fd
         | Some (Inl (Some e)) \<Rightarrow> sendError C (cs_tcpFd c) e General
         | Some (Inr req) \<Rightarrow> createAndEnter C fd req
       }
     }
   }"

definition peerInfoBody :: "ClientSession \<Rightarrow> bytes" where
  "peerInfoBody c = bb_data (writeString (cs_name c) (writeU32 (cs_virtualIP c) (writeU32 (cs_peerId c) emptyBuffer)))"

definition completeJoin :: "crypto \<Rightarrow> int \<Rightarrow> u32 \<Rightarrow> unit server" where
  "completeJoin C fd roomId = do {
     c \<leftarrow> getC fd;
     token \<leftarrow> generateLeaseToken;
     case token of
       None \<Rightarrow> sendError C (cs_tcpFd c) ''Secure random generation failed'' General
     | Some leaseToken \<Rightarrow> do {
         lease \<leftarrow> serverAddLease roomId (cs_peerId c) (cs_name c) leaseToken;
         case lease of
           None \<Rightarrow> sendError C (cs_tcpFd c) ''Cannot join room'' General
         | Some lease \<Rightarrow> do {
             enterRoom fd roomId lease leaseToken;
             sent \<leftarrow> sendJoinResponse C fd roomId leaseToken;
             if \<not> sent then rollbackNewMembership fd roomId
             else do {
               c \<leftarrow> getC fd;
               broadcastToRoom C roomId MSG_PEER_JOINED (peerInfoBody c) (cs_peerId c);
               broadcastRoomListPush C;
               notifyRelayPeers C fd
             }
           }
       }
   }"

definition authChallengeBody :: "bytes \<Rightarrow> bytes \<Rightarrow> bytes" where
  "authChallengeBody salt challenge =
     bb_data (writeBytes challenge (writeBytes salt (writeU8 AUTH_KDF_PROFILE emptyBuffer)))"

definition onJoinRoom :: "crypto \<Rightarrow> int \<Rightarrow> bytes \<Rightarrow> unit server" where
  "onJoinRoom C fd p = do {
     c \<leftarrow> getC fd;
     if cs_peerId c = 0 then sendError C (cs_tcpFd c) ''Not logged in'' General
     else if cs_roomId c \<noteq> 0 then sendError C (cs_tcpFd c) ''Already in a room'' General
     else do {
       now \<leftarrow> time_now;
       cleanupExpiredLeases C now;
       case readU32 \<lparr>bb_data = p, bb_readPos = 0\<rparr> of
         None \<Rightarrow> kill fd
       | Some (roomId, bb) \<Rightarrow> do {
           room \<leftarrow> gets (\<lambda>s. getRoom roomId (sv_rooms s));
           case room of
             None \<Rightarrow> sendError C (cs_tcpFd c) ''Room not found'' General
           | Some room \<Rightarrow>
               if isFull room then sendError C (cs_tcpFd c) ''Room is full'' General
               else if rm_passwordProtected room \<noteq> 0 then do {
                 allowed \<leftarrow> takeIpToken (cs_remoteIpv4 c) RoomPasswordFailures 32 2;
                 if \<not> allowed
                 then sendError C (cs_tcpFd c) ''Room authentication rate limit exceeded'' RateLimited
                 else do {
                   modC fd (\<lambda>c. c\<lparr>cs_pendingJoinRoomId := roomId, cs_state := AwaitRoomPassword\<rparr>);
                   r \<leftarrow> secureRandomBytes 32;
                   case r of
                     None \<Rightarrow> do {
                       modC fd (\<lambda>c. c\<lparr>cs_authChallenge := replicate 32 0, cs_pendingJoinRoomId := 0, cs_state := LoggedIn\<rparr>);
                       sendError C (cs_tcpFd c) ''Secure random generation failed'' General
                     }
                   | Some challenge \<Rightarrow> do {
                       modC fd (\<lambda>c. c\<lparr>cs_authChallenge := challenge\<rparr>);
                       postClientMsg C fd MSG_AUTH_CHALLENGE (authChallengeBody (rm_passwordSalt room) challenge)
                     }
                 }
               }
               else completeJoin C fd roomId
         }
     }
   }"

definition dropChallenge :: "int \<Rightarrow> unit server" where
  "dropChallenge fd = modC fd (\<lambda>c. c\<lparr>cs_authChallenge := replicate 32 0, cs_state := LoggedIn, cs_pendingJoinRoomId := 0\<rparr>)"

definition onAuthResponse :: "crypto \<Rightarrow> int \<Rightarrow> bytes \<Rightarrow> unit server" where
  "onAuthResponse C fd p = do {
     c \<leftarrow> getC fd;
     if cs_state c \<noteq> AwaitRoomPassword \<or> cs_pendingJoinRoomId c = 0
     then sendError C (cs_tcpFd c) ''Unexpected auth response'' General
     else do {
       now \<leftarrow> time_now;
       cleanupExpiredLeases C now;
       room \<leftarrow> gets (\<lambda>s. getRoom (cs_pendingJoinRoomId c) (sv_rooms s));
       case room of
         None \<Rightarrow> do { dropChallenge fd; sendError C (cs_tcpFd c) ''Room not found'' General }
       | Some room \<Rightarrow>
           if length p \<noteq> 32
           then do { dropChallenge fd; sendError C (cs_tcpFd c) ''Invalid room password'' RoomPassword }
           else if crypto_verify32 (computeChallengeResponse C (rm_passwordHash room) (cs_authChallenge c)) p \<noteq> 0
           then do { dropChallenge fd; sendError C (cs_tcpFd c) ''Invalid room password'' RoomPassword }
           else do {
             dropChallenge fd;
             if isFull room then sendError C (cs_tcpFd c) ''Room is full'' General
             else completeJoin C fd (cs_pendingJoinRoomId c)
           }
     }
   }"

definition completeResume :: "crypto \<Rightarrow> int \<Rightarrow> u32 \<Rightarrow> RoomLease \<Rightarrow> unit server" where
  "completeResume C fd roomId lease = do {
     modRooms (updRoom roomId (\<lambda>r. snd (markLeaseOnline (ls_peerId lease) r)));
     modC fd (\<lambda>c. c\<lparr>cs_roomId := roomId, cs_virtualIP := ls_virtualIP lease, cs_name := ls_name lease,
       cs_resumeRoomId := roomId, cs_resumePeerId := cs_peerId c, cs_resumeToken := ls_token lease,
       cs_state := InRoom\<rparr>);
     c \<leftarrow> getC fd;
     bound \<leftarrow> bindPeerIndex fd (cs_peerId c);
     if \<not> bound then kill fd
     else do {
       sent \<leftarrow> sendJoinResponse C fd roomId (ls_token lease);
       if \<not> sent then do {
         now \<leftarrow> time_now;
         modRooms (updRoom roomId (\<lambda>r. snd (markLeaseOffline (cs_peerId c) now r)));
         kill fd
       }
       else do {
         c \<leftarrow> getC fd;
         broadcastToRoom C roomId MSG_PEER_RESUMED (peerInfoBody c) (cs_peerId c);
         notifyRelayPeers C fd
       }
     }
   }"

definition parseResume :: "bytes \<Rightarrow> (u32 \<times> u32 \<times> bytes) option" where
  "parseResume p = do {
     (roomId, bb) \<leftarrow> readU32 \<lparr>bb_data = p, bb_readPos = 0\<rparr>;
     (peerId, bb) \<leftarrow> readU32 bb;
     (token, bb) \<leftarrow> readBytes RECONNECT_TOKEN_SIZE bb;
     Some (roomId, peerId, token)
   }"

definition expireStaleLease :: "crypto \<Rightarrow> u32 \<Rightarrow> u32 \<Rightarrow> bytes \<Rightarrow> unit server" where
  "expireStaleLease C roomId peerId token = do {
     staleLease \<leftarrow> gets (\<lambda>s. case getRoom roomId (sv_rooms s) of Some r \<Rightarrow> leaseByPeerId peerId r | None \<Rightarrow> None);
     now \<leftarrow> time_now;
     case staleLease of
       None \<Rightarrow> skip
     | Some l \<Rightarrow>
         if \<not> ls_online l \<and> ls_expiresAt l > 0 \<and> now > ls_expiresAt l \<and> tokenEquals (ls_token l) token then do {
           broadcastToRoom C roomId MSG_PEER_LEFT (peerIdBody peerId) peerId;
           removeMember roomId peerId;
           broadcastRoomListPush C
         }
         else skip
   }"

definition onResumeRoom :: "crypto \<Rightarrow> int \<Rightarrow> bytes \<Rightarrow> unit server" where
  "onResumeRoom C fd p = do {
     c \<leftarrow> getC fd;
     if cs_peerId c = 0 then sendError C (cs_tcpFd c) ''Not logged in'' General
     else case parseResume p of
       None \<Rightarrow> kill fd
     | Some (roomId, peerId, token) \<Rightarrow>
         if cs_state c \<noteq> ResumePending \<or> cs_peerId c \<noteq> peerId \<or> cs_resumeRoomId c \<noteq> roomId \<or>
            cs_resumePeerId c \<noteq> peerId \<or> \<not> tokenEquals (cs_resumeToken c) token
         then sendError C (cs_tcpFd c) ''Resume rejected'' General
         else do {
           valid \<leftarrow> validateResumeLease roomId peerId token;
           case valid of
             Some (room, lease) \<Rightarrow> completeResume C fd roomId lease
           | None \<Rightarrow> do {
               expireStaleLease C roomId peerId token;
               modC fd (\<lambda>c. c\<lparr>cs_state := LoggedIn, cs_resumeRoomId := 0, cs_resumePeerId := 0,
                 cs_resumeToken := replicate RECONNECT_TOKEN_SIZE 0\<rparr>);
               sendError C (cs_tcpFd c) ''Resume expired'' General
             }
         }
   }"

definition onLeaveRoom :: "crypto \<Rightarrow> int \<Rightarrow> unit server" where
  "onLeaveRoom C fd = do {
     c \<leftarrow> getC fd;
     if cs_roomId c = 0 then skip
     else do {
       broadcastToRoom C (cs_roomId c) MSG_PEER_LEFT (peerIdBody (cs_peerId c)) (cs_peerId c);
       removeMember (cs_roomId c) (cs_peerId c);
       modC fd (\<lambda>c. c\<lparr>cs_roomId := 0, cs_virtualIP := 0, cs_resumeRoomId := 0, cs_resumePeerId := 0,
         cs_resumeToken := replicate RECONNECT_TOKEN_SIZE 0, cs_state := LoggedIn\<rparr>);
       broadcastRoomListPush C
     }
   }"

definition leaveForLogout :: "crypto \<Rightarrow> int \<Rightarrow> bool server" where
  "leaveForLogout C fd = do {
     c \<leftarrow> getC fd;
     if cs_roomId c \<noteq> 0 \<and> cs_peerId c \<noteq> 0 then do {
       broadcastToRoom C (cs_roomId c) MSG_PEER_LEFT (peerIdBody (cs_peerId c)) (cs_peerId c);
       removeMember (cs_roomId c) (cs_peerId c);
       ret True
     }
     else if cs_state c = ResumePending \<and> cs_resumeRoomId c \<noteq> 0 \<and> cs_resumePeerId c \<noteq> 0 then do {
       lease \<leftarrow> gets (\<lambda>s. case getRoom (cs_resumeRoomId c) (sv_rooms s) of
                  Some r \<Rightarrow> leaseByPeerId (cs_resumePeerId c) r | None \<Rightarrow> None);
       case lease of
         None \<Rightarrow> ret False
       | Some l \<Rightarrow>
           if tokenEquals (ls_token l) (cs_resumeToken c) then do {
             broadcastToRoom C (cs_resumeRoomId c) MSG_PEER_LEFT (peerIdBody (cs_resumePeerId c)) (cs_resumePeerId c);
             removeMember (cs_resumeRoomId c) (cs_resumePeerId c);
             ret True
           }
           else ret False
     }
     else ret False
   }"

definition onLogout :: "crypto \<Rightarrow> int \<Rightarrow> unit server" where
  "onLogout C fd = do {
     c \<leftarrow> getC fd;
     let peerId = cs_peerId c;
     closeDataChannel fd;
     roomChanged \<leftarrow> leaveForLogout C fd;
     modC fd (\<lambda>c. c\<lparr>cs_state := Closing\<rparr>);
     unbindClientIndexes fd;
     (if peerId \<noteq> 0 then releasePeerId peerId else skip);
     postClientMsg C fd MSG_LOGOUT_ACK [];
     modC fd (\<lambda>c. c\<lparr>cs_peerId := 0, cs_roomId := 0, cs_virtualIP := 0, cs_pendingJoinRoomId := 0,
       cs_resumeRoomId := 0, cs_resumePeerId := 0, cs_authChallenge := replicate 32 0,
       cs_resumeToken := replicate RECONNECT_TOKEN_SIZE 0, cs_udpAddrKnown := False\<rparr>);
     if roomChanged then broadcastRoomListPush C else skip
   }"

definition onListRooms :: "crypto \<Rightarrow> int \<Rightarrow> unit server" where
  "onListRooms C fd = do {
     now \<leftarrow> time_now;
     cleanupExpiredLeases C now;
     rooms \<leftarrow> gets (\<lambda>s. collectRoomListState (sv_rooms s));
     revision \<leftarrow> gets sv_roomListRevision;
     forM (buildRoomListPages revision rooms) (\<lambda>page. postClientMsg C fd MSG_ROOM_LIST page)
   }"

section \<open>Relay\<close>

definition onRequestRelay :: "crypto \<Rightarrow> int \<Rightarrow> bytes \<Rightarrow> unit server" where
  "onRequestRelay C fd p =
     (case readU32 \<lparr>bb_data = p, bb_readPos = 0\<rparr> of
        None \<Rightarrow> kill fd
      | Some (targetPeerId, bb) \<Rightarrow> do {
          target \<leftarrow> findClientByPeerId targetPeerId;
          case target of
            None \<Rightarrow> skip
          | Some t \<Rightarrow> do {
              c \<leftarrow> getC fd;
              tc \<leftarrow> getC t;
              if cs_roomId c = 0 \<or> cs_roomId tc = 0 \<or> cs_roomId tc \<noteq> cs_roomId c then skip
              else do {
                postClientMsg C fd MSG_RELAY_READY (peerIdBody targetPeerId);
                postClientMsg C t MSG_RELAY_READY (peerIdBody (cs_peerId c))
              }
            }
        })"

definition onPing :: "crypto \<Rightarrow> int \<Rightarrow> unit server" where
  "onPing C fd = postClientMsg C fd MSG_PONG []"

definition relayBody :: "u32 \<Rightarrow> u32 \<Rightarrow> u8 \<Rightarrow> bytes \<Rightarrow> bytes" where
  "relayBody src dst trafficClass data =
     bb_data (writeBytes data (writeU8 trafficClass (writeU32 dst (writeU32 src emptyBuffer))))"

definition parseRelay :: "bytes \<Rightarrow> (u32 \<times> u32 \<times> u8) option" where
  "parseRelay p = do {
     (src, bb) \<leftarrow> readU32 \<lparr>bb_data = p, bb_readPos = 0\<rparr>;
     (dst, bb) \<leftarrow> readU32 bb;
     (trafficClass, bb) \<leftarrow> readU8 bb;
     Some (src, dst, trafficClass)
   }"

definition onTcpRelayData :: "crypto \<Rightarrow> int \<Rightarrow> bytes \<Rightarrow> unit server" where
  "onTcpRelayData C fd p =
     (if length p < 9 then skip
      else case parseRelay p of
        None \<Rightarrow> kill fd
      | Some (declaredSource, dstId, trafficClass) \<Rightarrow> do {
          c \<leftarrow> getC fd;
          if declaredSource \<noteq> cs_peerId c \<or> (trafficClass \<noteq> TRAFFIC_TCP \<and> trafficClass \<noteq> TRAFFIC_UDP) then skip
          else do {
            target \<leftarrow> findClientByPeerId dstId;
            case target of
              None \<Rightarrow> skip
            | Some t \<Rightarrow> do {
                dst \<leftarrow> getC t;
                if cs_roomId c = 0 \<or> cs_roomId dst = 0 \<or> cs_roomId c \<noteq> cs_roomId dst then skip
                else do {
                  let fwd = relayBody (cs_peerId c) dstId trafficClass (drop 9 p);
                  sent \<leftarrow> (if cs_dataFd dst \<ge> 0 then sendDataMsg C t MSG_TCP_RELAY_DATA fwd else ret False);
                  if sent then skip else postClientMsg C t MSG_TCP_RELAY_DATA fwd
                }
              }
          }
        })"

section \<open>Dispatch\<close>

definition decryptClientFrame :: "crypto \<Rightarrow> int \<Rightarrow> bytes \<Rightarrow> (u8 \<times> bytes) option server" where
  "decryptClientFrame C fd payload = do {
     c \<leftarrow> getC fd;
     case decryptFrame C payload [] (cs_secureCipher c) of (plain, k) \<Rightarrow> do {
       modC fd (\<lambda>c. c\<lparr>cs_secureCipher := k\<rparr>);
       case plain of
         Some (innerType # innerPayload) \<Rightarrow> ret (Some (innerType, innerPayload))
       | _ \<Rightarrow> ret None
     }
   }"

definition dispatchMessage :: "crypto \<Rightarrow> int \<Rightarrow> u8 \<Rightarrow> bytes \<Rightarrow> unit server" where
  "dispatchMessage C fd msgType payload =
     (if msgType = MSG_LOGIN then onLogin C fd payload
      else if msgType = MSG_CREATE_ROOM then onCreateRoom C fd payload
      else if msgType = MSG_JOIN_ROOM then onJoinRoom C fd payload
      else if msgType = MSG_RESUME_ROOM then onResumeRoom C fd payload
      else if msgType = MSG_LEAVE_ROOM then onLeaveRoom C fd
      else if msgType = MSG_LOGOUT then onLogout C fd
      else if msgType = MSG_LIST_ROOMS then onListRooms C fd
      else if msgType = MSG_REQUEST_RELAY then onRequestRelay C fd payload
      else if msgType = MSG_AUTH_RESPONSE then onAuthResponse C fd payload
      else if msgType = MSG_PING then onPing C fd
      else if msgType = MSG_TCP_RELAY_DATA then onTcpRelayData C fd payload
      else skip)"

text \<open>An empty decrypted payload is passed on as a null pointer.\<close>

definition payloadPtr :: "bytes \<Rightarrow> bytes option" where
  "payloadPtr p = (if p = [] then None else Some p)"

text \<open>The guard in front of a handler: what happens to a message for each verdict of the state table.\<close>

definition guardMessage :: "crypto \<Rightarrow> int \<Rightarrow> u8 \<Rightarrow> bytes option \<Rightarrow> nat \<Rightarrow> unit server \<Rightarrow> unit server" where
  "guardMessage C fd msgType ptr len handler = do {
     c \<leftarrow> getC fd;
     let action = classifyClientSignalMessage (cs_state c) msgType;
     if action = IgnoreUnknown then skip
     else if action = Close then kill fd
     else if \<not> validateClientSignalPayload msgType ptr len then kill fd
     else if action = SendStateError then sendError C (cs_tcpFd c) ''Message not allowed in current session state'' General
     else handler
   }"

definition processMessage :: "crypto \<Rightarrow> int \<Rightarrow> u8 \<Rightarrow> bytes \<Rightarrow> unit server" where
  "processMessage C fd msgType payload = do {
     now \<leftarrow> time_now;
     modC fd (\<lambda>c. c\<lparr>cs_lastPing := now\<rparr>);
     c \<leftarrow> getC fd;
     if cs_state c = Closing then skip
     else if cs_state c = AwaitHello
     then guardMessage C fd msgType (Some payload) (length payload) (onClientHello C fd payload)
     else if cs_state c = AwaitServerAuth
     then guardMessage C fd msgType (Some payload) (length payload) (onServerAuth C fd payload)
     else if \<not> cs_serverAuthOk c \<or> \<not> cs_secureEnabled c then kill fd
     else if msgType \<noteq> MSG_ENCRYPTED then kill fd
     else do {
       inner \<leftarrow> decryptClientFrame C fd payload;
       case inner of
         None \<Rightarrow> kill fd
       | Some (innerType, innerPayload) \<Rightarrow>
           guardMessage C fd innerType (payloadPtr innerPayload) (length innerPayload)
             (dispatchMessage C fd innerType innerPayload)
     }
   }"

definition dropDataChannel :: "int \<Rightarrow> unit server" where
  "dropDataChannel fd = do {
     c \<leftarrow> getC fd;
     if cs_dataFd c \<ge> 0 then handleDataChannelDisconnect (cs_dataFd c) else skip
   }"

definition processDataMessage :: "crypto \<Rightarrow> int \<Rightarrow> u8 \<Rightarrow> bytes \<Rightarrow> unit server" where
  "processDataMessage C fd msgType payload = do {
     now \<leftarrow> time_now;
     modC fd (\<lambda>c. c\<lparr>cs_dataLastPing := now\<rparr>);
     c \<leftarrow> getC fd;
     if \<not> cs_serverAuthOk c \<or> \<not> cs_secureEnabled c \<or> msgType \<noteq> MSG_ENCRYPTED then dropDataChannel fd
     else case decryptFrame C payload [] (cs_dataCipher c) of (plain, k) \<Rightarrow> do {
       modC fd (\<lambda>c. c\<lparr>cs_dataCipher := k\<rparr>);
       case plain of
         Some (innerType # body) \<Rightarrow>
           if (innerType = MSG_PING \<and> body \<noteq> []) \<or>
              (innerType = MSG_TCP_RELAY_DATA \<and>
               (\<not> validateClientSignalPayload innerType (payloadPtr body) (length body) \<or> cs_state c \<noteq> InRoom))
           then dropDataChannel fd
           else if innerType = MSG_TCP_RELAY_DATA then onTcpRelayData C fd body
           else if innerType = MSG_PING
           then (if cs_dataFd c \<ge> 0 then do { ok \<leftarrow> sendDataMsg C fd MSG_PONG []; skip } else skip)
           else skip
       | _ \<Rightarrow> dropDataChannel fd
     }
   }"

end
