(* ===== verification/Server_Events.thy ===== *)
theory Server_Events
  imports Server_Handlers
begin

text \<open>
  The events of the server's loop (\<^verbatim>\<open>signal_server.cpp\<close>): a new connection, bytes on a
  connection that is not classified yet, on a signalling connection, on a data channel or on
  the UDP socket, a socket that became writable, and the periodic check of timeouts.  What a
  system call delivered (the accepted socket, the received bytes) is an argument of the event.
\<close>

section \<open>Accepting connections\<close>

text \<open>\<open>conn\<close> is the accepted socket and the caller's address, or nothing if \<^verbatim>\<open>accept\<close> failed.\<close>

definition handleTcpAccept :: "(int \<times> u32) option \<Rightarrow> unit server" where
  "handleTcpAccept conn =
     (case conn of
        None \<Rightarrow> skip
      | Some (fd, remoteIp) \<Rightarrow> do {
          now \<leftarrow> time_now;
          modIp remoteIp (\<lambda>st. st\<lparr>ip_lastActivity := now\<rparr>);
          ipState \<leftarrow> gets (ipStateOf remoteIp);
          limits \<leftarrow> gets sv_limits;
          n \<leftarrow> gets (\<lambda>s. length (sv_pending s));
          refused \<leftarrow>
            (if n \<ge> lm_maxPending limits \<or> ip_pending ipState \<ge> lm_maxPendingPerIp limits then ret True
             else do { ok \<leftarrow> takeIpToken remoteIp Accepts 16 1; ret (\<not> ok) });
          if refused then close_fd fd
          else do {
            epollAdd fd (EPOLLIN OR EPOLLERR OR EPOLLHUP);
            modify (\<lambda>s. s\<lparr>sv_pending := om_upd fd
              (newPendingConn\<lparr>pc_fd := fd, pc_remoteIpv4 := remoteIp, pc_created := now\<rparr>) (sv_pending s)\<rparr>);
            modIp remoteIp (\<lambda>st. st\<lparr>ip_pending := ip_pending st + 1\<rparr>)
          }
        })"

section \<open>Data channels\<close>

definition refuseFd :: "int \<Rightarrow> unit server" where
  "refuseFd fd = do { epollDel fd; close_fd fd }"

definition onSecureDataChannelInit :: "crypto \<Rightarrow> int \<Rightarrow> bytes \<Rightarrow> unit server" where
  "onSecureDataChannelInit C fd p =
     (if length p \<noteq> SECURE_SESSION_ID_SIZE + SECURE_FRAME_OVERHEAD + 4 then refuseFd fd
      else do {
        client \<leftarrow> findClientBySecureSessionId (readU32BE p);
        case client of
          None \<Rightarrow> refuseFd fd
        | Some t \<Rightarrow> do {
            c \<leftarrow> getC t;
            if \<not> sessionCanBindDataChannel (cs_state c) then refuseFd fd
            else case decryptFrame C (drop SECURE_SESSION_ID_SIZE p) [] (cs_dataCipher c) of (plain, k) \<Rightarrow> do {
              modC t (\<lambda>c. c\<lparr>cs_dataCipher := k\<rparr>);
              case plain of
                None \<Rightarrow> refuseFd fd
              | Some plain \<Rightarrow>
                  if length plain \<noteq> 4 then refuseFd fd
                  else if readU32BE plain \<noteq> cs_peerId c then refuseFd fd
                  else do {
                    closeDataChannel t;
                    now \<leftarrow> time_now;
                    modC t (\<lambda>c. c\<lparr>cs_dataFd := fd, cs_dataLastPing := now\<rparr>);
                    clearSendBuffer t True;
                    modC t (\<lambda>c. c\<lparr>cs_dataRecvBuf := []\<rparr>);
                    bound \<leftarrow> bindDataFdIndex t fd;
                    if \<not> bound then do {
                      modC t (\<lambda>c. c\<lparr>cs_dataFd := -1\<rparr>);
                      refuseFd fd
                    }
                    else do { ok \<leftarrow> sendDataMsg C t MSG_DATA_CHANNEL_ACK []; skip }
                  }
            }
          }
      })"

text \<open>
  Every round of the two receive loops takes a frame of at least three bytes from the front of
  the buffer, so as many rounds as the buffer has bytes are enough.
\<close>

definition frameLength :: "bytes \<Rightarrow> nat" where
  "frameLength buf = unat (word_cat (buf ! 1) (buf ! 2) :: u16)"

primrec dataRecv_loop :: "nat \<Rightarrow> crypto \<Rightarrow> int \<Rightarrow> int \<Rightarrow> unit server" where
  "dataRecv_loop 0 C t fd = skip"
| "dataRecv_loop (Suc n) C t fd = do {
     c \<leftarrow> getC t;
     let buf = cs_dataRecvBuf c;
     if length buf < sizeof_TcpMsgHeader then skip
     else do {
       let payloadLen = frameLength buf;
       let frameLen = sizeof_TcpMsgHeader + payloadLen;
       if payloadLen > MAX_TCP_MSG_PAYLOAD then handleDataChannelDisconnect fd
       else if length buf < frameLen then skip
       else do {
         processDataMessage C t (buf ! 0) (take payloadLen (drop sizeof_TcpMsgHeader buf));
         c \<leftarrow> getC t;
         if cs_dataFd c < 0 \<or> length (cs_dataRecvBuf c) < frameLen then skip
         else do {
           modC t (\<lambda>c. c\<lparr>cs_dataRecvBuf := drop frameLen (cs_dataRecvBuf c)\<rparr>);
           dataRecv_loop n C t fd
         }
       }
     }
   }"

definition processDataRecvBuffer :: "crypto \<Rightarrow> int \<Rightarrow> unit server" where
  "processDataRecvBuffer C t = do {
     c \<leftarrow> getC t;
     if cs_dataFd c < 0 then skip else dataRecv_loop (length (cs_dataRecvBuf c)) C t (cs_dataFd c)
   }"

text \<open>\<open>received\<close> is what \<^verbatim>\<open>recv\<close> delivered: nothing for an error or the end of the stream.\<close>

definition handleDataChannelData :: "crypto \<Rightarrow> int \<Rightarrow> bytes \<Rightarrow> unit server" where
  "handleDataChannelData C fd received = do {
     owner \<leftarrow> findClientOwnerByDataFd fd;
     case owner of
       None \<Rightarrow> skip
     | Some o' \<Rightarrow> do {
         client \<leftarrow> findClientByDataFd fd;
         case client of
           None \<Rightarrow> closeDataChannel o'
         | Some t \<Rightarrow>
             if received = [] then handleDataChannelDisconnect fd
             else do {
               modC t (\<lambda>c. c\<lparr>cs_dataRecvBuf := cs_dataRecvBuf c @ received\<rparr>);
               processDataRecvBuffer C t
             }
       }
   }"

section \<open>Signalling connections\<close>

primrec clientRecv_loop :: "nat \<Rightarrow> crypto \<Rightarrow> int \<Rightarrow> unit server" where
  "clientRecv_loop 0 C fd = skip"
| "clientRecv_loop (Suc n) C fd = do {
     c \<leftarrow> getC fd;
     let buf = cs_recvBuf c;
     if length buf < sizeof_TcpMsgHeader then skip
     else do {
       let payloadLen = frameLength buf;
       let frameLen = sizeof_TcpMsgHeader + payloadLen;
       if payloadLen > MAX_TCP_MSG_PAYLOAD then handleClientDisconnect fd
       else if length buf < frameLen then skip
       else do {
         processMessage C fd (buf ! 0) (take payloadLen (drop sizeof_TcpMsgHeader buf));
         c \<leftarrow> getC fd;
         if \<not> cs_alive c then handleClientDisconnect fd
         else do {
           modC fd (\<lambda>c. c\<lparr>cs_recvBuf := drop frameLen (cs_recvBuf c)\<rparr>);
           if cs_state c = Closing then do {
             modC fd (\<lambda>c. c\<lparr>cs_recvBuf := []\<rparr>);
             if cs_sendBuf c = [] then destroyClient fd LogoutComplete else skip
           }
           else clientRecv_loop n C fd
         }
       }
     }
   }"

definition processClientRecvBuffer :: "crypto \<Rightarrow> int \<Rightarrow> unit server" where
  "processClientRecvBuffer C fd = do {
     c \<leftarrow> getC fd;
     clientRecv_loop (length (cs_recvBuf c)) C fd
   }"

definition handleClientData :: "crypto \<Rightarrow> int \<Rightarrow> bytes \<Rightarrow> unit server" where
  "handleClientData C fd received = do {
     found \<leftarrow> gets (\<lambda>s. map_of (sv_clients s) fd);
     case found of
       None \<Rightarrow> skip
     | Some c \<Rightarrow>
         if \<not> cs_alive c then handleClientDisconnect fd
         else if cs_state c = Closing
         then (if cs_sendBuf c = [] then destroyClient fd LogoutComplete else skip)
         else if received = [] then handleClientDisconnect fd
         else do {
           modC fd (\<lambda>c. c\<lparr>cs_recvBuf := cs_recvBuf c @ received\<rparr>);
           processClientRecvBuffer C fd
         }
   }"

text \<open>The first message decides what an accepted connection is for.\<close>

definition adoptDataChannel :: "crypto \<Rightarrow> int \<Rightarrow> u32 \<Rightarrow> bytes \<Rightarrow> bytes \<Rightarrow> unit server" where
  "adoptDataChannel C fd remoteIp payload trailing = do {
     onSecureDataChannelInit C fd payload;
     adjIp remoteIp decPending;
     modify (\<lambda>s. s\<lparr>sv_pending := om_del fd (sv_pending s)\<rparr>);
     dataClient \<leftarrow> findClientByDataFd fd;
     case dataClient of
       None \<Rightarrow> skip
     | Some t \<Rightarrow>
         if trailing = [] then skip
         else do {
           modC t (\<lambda>c. c\<lparr>cs_dataRecvBuf := cs_dataRecvBuf c @ trailing\<rparr>);
           processDataRecvBuffer C t
         }
   }"

definition installClient :: "int \<Rightarrow> u32 \<Rightarrow> bytes \<Rightarrow> unit server" where
  "installClient fd remoteIp buf = do {
     now \<leftarrow> time_now;
     modify (\<lambda>s. s\<lparr>sv_clients := om_upd fd ((clientOf fd s)\<lparr>cs_tcpFd := fd, cs_lastPing := now,
       cs_alive := True, cs_remoteIpv4 := remoteIp, cs_helloDeadline := now + 10, cs_recvBuf := buf,
       cs_serverAuthOk := False\<rparr>) (sv_clients s)\<rparr>);
     modIp remoteIp (\<lambda>st. (decPending st)\<lparr>ip_clients := ip_clients st + 1, ip_lastActivity := now\<rparr>);
     modify (\<lambda>s. s\<lparr>sv_pending := om_del fd (sv_pending s)\<rparr>)
   }"

definition promoteClient :: "crypto \<Rightarrow> int \<Rightarrow> u32 \<Rightarrow> bytes \<Rightarrow> unit server" where
  "promoteClient C fd remoteIp buf = do {
     installClient fd remoteIp buf;
     processClientRecvBuffer C fd
   }"

definition handlePendingData :: "crypto \<Rightarrow> int \<Rightarrow> bytes \<Rightarrow> unit server" where
  "handlePendingData C fd received = do {
     found \<leftarrow> gets (\<lambda>s. map_of (sv_pending s) fd);
     case found of
       None \<Rightarrow> skip
     | Some pc \<Rightarrow>
         if received = [] then removePending fd True
         else do {
           modify (\<lambda>s. s\<lparr>sv_pending := om_adj fd (\<lambda>pc. pc\<lparr>pc_recvBuf := pc_recvBuf pc @ received\<rparr>) (sv_pending s)\<rparr>);
           let buf = pc_recvBuf pc @ received;
           if length buf < sizeof_TcpMsgHeader then skip
           else do {
             let payloadLen = frameLength buf;
             let frameLen = sizeof_TcpMsgHeader + payloadLen;
             if payloadLen > MAX_TCP_MSG_PAYLOAD then removePending fd True
             else if length buf < frameLen then skip
             else if buf ! 0 = MSG_DATA_CHANNEL_INIT
             then adoptDataChannel C fd (pc_remoteIpv4 pc) (take payloadLen (drop sizeof_TcpMsgHeader buf)) (drop frameLen buf)
             else do {
               modIp (pc_remoteIpv4 pc) (\<lambda>st. st);
               limits \<leftarrow> gets sv_limits;
               n \<leftarrow> gets (\<lambda>s. length (sv_clients s));
               ipState \<leftarrow> gets (ipStateOf (pc_remoteIpv4 pc));
               if n \<ge> lm_maxClients limits \<or> ip_clients ipState \<ge> lm_maxClientsPerIp limits
               then removePending fd True
               else promoteClient C fd (pc_remoteIpv4 pc) buf
             }
           }
         }
   }"

section \<open>UDP\<close>

definition decryptUdpPacket :: "crypto \<Rightarrow> bytes \<Rightarrow> (int \<times> bytes) option server" where
  "decryptUdpPacket C data =
     (if length data < 1 + SECURE_SESSION_ID_SIZE + SECURE_FRAME_OVERHEAD then ret None
      else if data ! 0 \<noteq> UDP_ENCRYPTED then ret None
      else do {
        client \<leftarrow> findClientBySecureSessionId (readU32BE (drop 1 data));
        case client of
          None \<Rightarrow> ret None
        | Some t \<Rightarrow> do {
            c \<leftarrow> getC t;
            case decryptFrame C (drop (1 + SECURE_SESSION_ID_SIZE) data) [] (cs_udpCipher c) of (plain, k) \<Rightarrow> do {
              modC t (\<lambda>c. c\<lparr>cs_udpCipher := k\<rparr>);
              ret (case plain of Some p \<Rightarrow> Some (t, p) | None \<Rightarrow> None)
            }
          }
      })"

definition relayUdp :: "crypto \<Rightarrow> int \<Rightarrow> sockaddr \<Rightarrow> int \<Rightarrow> bytes \<Rightarrow> unit server" where
  "relayUdp C fd from src plain = do {
     let trafficClass = plain ! 1;
     let srcId = readU32BE (drop 2 plain);
     let dstId = readU32BE (drop 6 plain);
     sc \<leftarrow> getC src;
     if srcId \<noteq> cs_peerId sc \<or> dstId = 0 \<or> cs_roomId sc = 0 \<or> (trafficClass \<noteq> TRAFFIC_TCP \<and> trafficClass \<noteq> TRAFFIC_UDP)
     then logDataDropSampled
     else do {
       modC src (\<lambda>c. c\<lparr>cs_udpAddr := from, cs_udpAddrKnown := True\<rparr>);
       dstClient \<leftarrow> findClientByPeerId dstId;
       case dstClient of
         None \<Rightarrow> logDataDropSampled
       | Some t \<Rightarrow> do {
           dst \<leftarrow> getC t;
           if \<not> cs_udpAddrKnown dst then logDataDropSampled
           else if cs_roomId dst = 0 \<or> cs_roomId dst \<noteq> cs_roomId sc then logDataDropSampled
           else sendEncryptedUdp C fd t plain (cs_udpAddr dst)
         }
     }
   }"

definition handleUdpPacket :: "crypto \<Rightarrow> int \<Rightarrow> sockaddr \<Rightarrow> bytes \<Rightarrow> unit server" where
  "handleUdpPacket C fd from buf =
     (if buf = [] then skip
      else if buf ! 0 \<noteq> UDP_ENCRYPTED then logDataDropSampled
      else do {
        r \<leftarrow> decryptUdpPacket C buf;
        case r of
          None \<Rightarrow> logDataDropSampled
        | Some (src, plain) \<Rightarrow>
            if plain \<noteq> [] \<and> plain ! 0 = UDP_KEEPALIVE
            then modC src (\<lambda>c. c\<lparr>cs_udpAddr := from, cs_udpAddrKnown := True\<rparr>)
            else if length plain < sizeof_UdpRelayHeader then logDataDropSampled
            else if plain ! 0 \<noteq> UDP_RELAY_DATA \<and> plain ! 0 \<noteq> UDP_RAW_RELAY_DATA then logDataDropSampled
            else relayUdp C fd from src plain
      })"

section \<open>Writable sockets and timeouts\<close>

definition handleWritable :: "int \<Rightarrow> unit server" where
  "handleWritable fd = do {
     found \<leftarrow> gets (\<lambda>s. map_of (sv_clients s) fd);
     if found \<noteq> None then do {
       flushSendBuf fd;
       c \<leftarrow> getC fd;
       if \<not> cs_alive c then handleClientDisconnect fd
       else if cs_state c = Closing \<and> cs_sendBuf c = [] then destroyClient fd LogoutComplete
       else if length (cs_sendBuf c) > MAX_TCP_SEND_BUF then kill fd
       else skip
     }
     else do {
       dataOwner \<leftarrow> findClientOwnerByDataFd fd;
       case dataOwner of
         None \<Rightarrow> skip
       | Some o' \<Rightarrow> do {
           dataClient \<leftarrow> findClientByDataFd fd;
           case dataClient of
             None \<Rightarrow> closeDataChannel o'
           | Some t \<Rightarrow> do {
               ok \<leftarrow> flushDataSendBuf t;
               c \<leftarrow> getC t;
               if ok \<and> length (cs_dataSendBuf c) > MAX_TCP_SEND_BUF then closeDataChannel t else skip
             }
         }
     }
   }"

definition expireHandshake :: "int \<Rightarrow> ClientSession \<Rightarrow> ClientSession" where
  "expireHandshake now c =
     (let c = (if cs_state c = AwaitHello \<and> cs_helloDeadline c > 0 \<and> now > cs_helloDeadline c
               then c\<lparr>cs_alive := False\<rparr> else c)
      in if cs_state c = AwaitServerAuth \<and> cs_authDeadline c > 0 \<and> now > cs_authDeadline c
         then c\<lparr>cs_alive := False\<rparr> else c)"

definition checkTimeouts :: "crypto \<Rightarrow> unit server" where
  "checkTimeouts C = do {
     now \<leftarrow> time_now;
     fds \<leftarrow> gets (\<lambda>s. map fst (sv_clients s));
     forM fds (\<lambda>fd. modC fd (expireHandshake now));
     dead \<leftarrow> gets (\<lambda>s. map fst (filter (\<lambda>(fd, c).
        \<not> cs_alive c \<or> now - cs_lastPing c > HEARTBEAT_TIMEOUT_MS div 1000) (sv_clients s)));
     forM dead handleClientDisconnect;
     deadPending \<leftarrow> gets (\<lambda>s. map fst (filter (\<lambda>(fd, pc). now - pc_created pc > 10) (sv_pending s)));
     forM deadPending (\<lambda>fd. removePending fd True);
     cleanupExpiredLeases C now;
     cleanupIpStates now
   }"

section \<open>The event loop\<close>

definition server_init :: "u16 \<Rightarrow> int option \<Rightarrow> int option \<Rightarrow> int option \<Rightarrow> bool server" where
  "server_init port epfd tcpFd udpFd = do {
     ready \<leftarrow> gets sv_authReady;
     if \<not> ready then ret False
     else case epfd of
       None \<Rightarrow> do { modify (\<lambda>s. s\<lparr>sv_epfd := -1\<rparr>); ret False }
     | Some e \<Rightarrow> do {
         modify (\<lambda>s. s\<lparr>sv_epfd := e\<rparr>);
         case tcpFd of
           None \<Rightarrow> do { modify (\<lambda>s. s\<lparr>sv_tcpListenFd := -1\<rparr>); ret False }
         | Some t \<Rightarrow> do {
             modify (\<lambda>s. s\<lparr>sv_tcpListenFd := t\<rparr>);
             case udpFd of
               None \<Rightarrow> do { modify (\<lambda>s. s\<lparr>sv_udpFd := -1\<rparr>); ret False }
             | Some u \<Rightarrow> do {
                 modify (\<lambda>s. s\<lparr>sv_udpFd := u\<rparr>);
                 epollAdd t EPOLLIN;
                 epollAdd u EPOLLIN;
                 ret True
               }
           }
       }
   }"

text \<open>What \<^verbatim>\<open>epoll_wait\<close> reports for one socket, with what the system calls will deliver on it.\<close>

record epoll_event =
  ev_fd :: int
  ev_failed :: bool  \<comment> \<open>\<^verbatim>\<open>EPOLLERR\<close> or \<^verbatim>\<open>EPOLLHUP\<close>\<close>
  ev_out :: bool
  ev_in :: bool
  ev_conn :: "(int \<times> u32) option"
  ev_from :: sockaddr
  ev_bytes :: bytes

definition handleEvent :: "crypto \<Rightarrow> epoll_event \<Rightarrow> unit server" where
  "handleEvent C ev = do {
     listenFd \<leftarrow> gets sv_tcpListenFd;
     udpFd \<leftarrow> gets sv_udpFd;
     let fd = ev_fd ev;
     if fd = listenFd then handleTcpAccept (ev_conn ev)
     else if fd = udpFd then handleUdpPacket C fd (ev_from ev) (ev_bytes ev)
     else do {
       isPending \<leftarrow> gets (\<lambda>s. map_of (sv_pending s) fd \<noteq> None);
       isData \<leftarrow> gets (\<lambda>s. map_of (sv_dataFdMap s) fd \<noteq> None);
       if isPending
       then (if ev_failed ev then removePending fd True
             else if ev_in ev then handlePendingData C fd (ev_bytes ev) else skip)
       else if isData
       then (if ev_failed ev then handleDataChannelDisconnect fd
             else do {
               (if ev_out ev then handleWritable fd else skip);
               (if ev_in ev then handleDataChannelData C fd (ev_bytes ev) else skip)
             })
       else (if ev_failed ev then handleClientDisconnect fd
             else do {
               (if ev_out ev then handleWritable fd else skip);
               (if ev_in ev then handleClientData C fd (ev_bytes ev) else skip)
             })
     }
   }"

definition stop :: "unit server" where
  "stop = do {
     modify (\<lambda>s. s\<lparr>sv_running := False\<rparr>);
     l \<leftarrow> gets sv_tcpListenFd;
     (if l \<ge> 0 then do { close_fd l; modify (\<lambda>s. s\<lparr>sv_tcpListenFd := -1\<rparr>) } else skip);
     u \<leftarrow> gets sv_udpFd;
     (if u \<ge> 0 then do { close_fd u; modify (\<lambda>s. s\<lparr>sv_udpFd := -1\<rparr>) } else skip);
     clientFds \<leftarrow> gets (\<lambda>s. map fst (sv_clients s));
     forM clientFds (\<lambda>fd. destroyClient fd Network);
     pendingFds \<leftarrow> gets (\<lambda>s. map fst (sv_pending s));
     forM pendingFds close_fd;
     modify (\<lambda>s. s\<lparr>sv_pending := [], sv_dataFdMap := [], sv_peerMap := [], sv_secureSessionMap := [],
       sv_ipStates := [], sv_globalSendBytes := 0\<rparr>);
     e \<leftarrow> gets sv_epfd;
     (if e \<ge> 0 then do { close_fd e; modify (\<lambda>s. s\<lparr>sv_epfd := -1\<rparr>) } else skip)
   }"

text \<open>
  \<^verbatim>\<open>main\<close> up to the loop, once the command line and the password file are read: the limits,
  the password hash (\<open>bt_workOk\<close>: its work area could be allocated), the sockets.
\<close>

record boot =
  bt_limits :: ServerLimits
  bt_password :: bytes
  bt_workOk :: bool
  bt_randoms :: "bytes option list"
  bt_port :: u16
  bt_epfd :: "int option"
  bt_tcpFd :: "int option"
  bt_udpFd :: "int option"

definition boot_server :: "crypto \<Rightarrow> boot \<Rightarrow> bool server" where
  "boot_server C b = do {
     modify (\<lambda>s. s\<lparr>sv_limits := bt_limits b, sv_randoms := bt_randoms b\<rparr>);
     authOk \<leftarrow> setAuthPassword C (bt_workOk b) (bt_password b);
     if \<not> authOk then ret False
     else do {
       ok \<leftarrow> server_init (bt_port b) (bt_epfd b) (bt_tcpFd b) (bt_udpFd b);
       (if ok then modify (\<lambda>s. s\<lparr>sv_running := True\<rparr>) else skip);
       ret ok
     }
   }"

definition startServer :: "crypto \<Rightarrow> boot \<Rightarrow> SignalServer" where
  "startServer C b = snd (run_state (boot_server C b) newSignalServer)"

text \<open>Nothing but the listening sockets, the password hash and the limits is set up before the loop.\<close>

definition tables :: "SignalServer \<Rightarrow> SignalServer" where
  "tables s = s\<lparr>sv_epfd := 0, sv_tcpListenFd := 0, sv_udpFd := 0, sv_running := False, sv_authReady := False,
     sv_serverAuthHash := [], sv_serverAuthSalt := [], sv_randoms := [], sv_io := []\<rparr>"

lemma tables_setAuthPassword: "tables (snd (run_state (setAuthPassword C w p) s)) = tables s"
  by (simp add: setAuthPassword_def secureRandomBytes_def monad_defs tables_def case_prod_unfold split: option.split list.split)

lemma tables_init: "tables (snd (run_state (server_init port e t u) s)) = tables s"
  by (simp add: server_init_def monad_defs epollAdd_def tables_def split: option.split)

lemma tables_running: "tables (s\<lparr>sv_running := r\<rparr>) = tables s"
  by (simp add: tables_def)

lemma startServer_tables: "tables (startServer C b) = tables (newSignalServer\<lparr>sv_limits := bt_limits b\<rparr>)"
proof -
  have run: "tables (snd (run_state (State_Monad.bind m f) s)) = tables s"
    if "\<And>s. tables (snd (run_state m s)) = tables s" "\<And>x s. tables (snd (run_state (f x) s)) = tables s"
    for m :: "'a server" and f :: "'a \<Rightarrow> 'b server" and s
    using that by (simp add: case_prod_unfold)
  have "tables (snd (run_state (do {
       authOk \<leftarrow> setAuthPassword C (bt_workOk b) (bt_password b);
       if \<not> authOk then ret False
       else do {
         ok \<leftarrow> server_init (bt_port b) (bt_epfd b) (bt_tcpFd b) (bt_udpFd b);
         (if ok then modify (\<lambda>s. s\<lparr>sv_running := True\<rparr>) else skip);
         ret ok
       } }) s)) = tables s" for s
    by (rule run) (auto simp: tables_setAuthPassword tables_init tables_running case_prod_unfold modify_def skip_def)
  then show ?thesis
    unfolding startServer_def boot_server_def by (simp add: modify_def) (simp add: tables_def)
qed

lemma tables_sel:
  "sv_clients s = sv_clients (tables s)" "sv_pending s = sv_pending (tables s)" "sv_dataFdMap s = sv_dataFdMap (tables s)"
  "sv_peerMap s = sv_peerMap (tables s)" "sv_rooms s = sv_rooms (tables s)"
  "sv_secureSessionMap s = sv_secureSessionMap (tables s)" "sv_limits s = sv_limits (tables s)"
  "sv_globalSendBytes s = sv_globalSendBytes (tables s)" "sv_ipStates s = sv_ipStates (tables s)"
  "sv_freePeerIds s = sv_freePeerIds (tables s)" "sv_nextPeerId s = sv_nextPeerId (tables s)"
  "sv_roomListRevision s = sv_roomListRevision (tables s)" "sv_publishedRooms s = sv_publishedRooms (tables s)"
  by (simp_all add: tables_def)

lemma startServer_fields [simp]:
  "sv_clients (startServer C b) = []" "sv_pending (startServer C b) = []" "sv_dataFdMap (startServer C b) = []"
  "sv_peerMap (startServer C b) = []" "sv_rooms (startServer C b) = newRoomManager"
  "sv_secureSessionMap (startServer C b) = []" "sv_limits (startServer C b) = bt_limits b"
  "sv_globalSendBytes (startServer C b) = 0" "sv_ipStates (startServer C b) = []"
  "sv_freePeerIds (startServer C b) = []" "sv_nextPeerId (startServer C b) = 1"
  "sv_roomListRevision (startServer C b) = 1" "sv_publishedRooms (startServer C b) = []"
  unfolding tables_sel [of "startServer C b"] startServer_tables by (simp_all add: tables_def newSignalServer_def)

text \<open>
  One thing that happens to the running server.  Before each, the outside world may move: the
  clock, the answers of \<^verbatim>\<open>send\<close> and of the random generator.
\<close>

datatype server_event = Epoll epoll_event | Timeouts | World int "send_result list" "bytes option list"

primrec server_step :: "crypto \<Rightarrow> server_event \<Rightarrow> unit server" where
  "server_step C (Epoll ev) = handleEvent C ev"
| "server_step C Timeouts = checkTimeouts C"
| "server_step C (World now sends randoms) =
     modify (\<lambda>s. s\<lparr>sv_now := now, sv_sends := sends, sv_randoms := randoms\<rparr>)"

definition server_run :: "crypto \<Rightarrow> server_event list \<Rightarrow> SignalServer \<Rightarrow> SignalServer" where
  "server_run C evs s = fold (\<lambda>ev s. snd (run_state (server_step C ev) s)) evs s"

end
