(* ===== verification/Server_Logic.thy ===== *)
theory Server_Logic
  imports Server_Events
begin

text \<open>
  A small program logic for the server's computations: Hoare triples, the preservation of an
  invariant (\<open>keeps\<close>) with one rule per construct, and the contract of an invariant as the
  locales \<open>send_invariant\<close> and \<open>server_invariant\<close>: whatever keeps the invariant at the few
  operations that write the state is kept by every handler and every event.
\<close>

section \<open>Triples\<close>

definition triple :: "(SignalServer \<Rightarrow> bool) \<Rightarrow> 'a server \<Rightarrow> ('a \<Rightarrow> SignalServer \<Rightarrow> bool) \<Rightarrow> bool" where
  "triple P m Q \<longleftrightarrow> (\<forall>s. P s \<longrightarrow> Q (fst (run_state m s)) (snd (run_state m s)))"

definition keeps :: "(SignalServer \<Rightarrow> bool) \<Rightarrow> 'a server \<Rightarrow> bool" where
  "keeps I m \<longleftrightarrow> triple I m (\<lambda>_. I)"

lemma tripleI: "(\<And>s. P s \<Longrightarrow> Q (fst (run_state m s)) (snd (run_state m s))) \<Longrightarrow> triple P m Q"
  by (simp add: triple_def)

lemma tripleD: "triple P m Q \<Longrightarrow> P s \<Longrightarrow> Q (fst (run_state m s)) (snd (run_state m s))"
  by (simp add: triple_def)

lemma triple_bind: "triple P m Q \<Longrightarrow> (\<And>x. triple (Q x) (f x) R) \<Longrightarrow> triple P (State_Monad.bind m f) R"
  by (fastforce simp: triple_def split: prod.splits)

lemma triple_seq: "triple P m (\<lambda>_. R) \<Longrightarrow> triple R n Q \<Longrightarrow> triple P (State_Monad.bind m (\<lambda>_. n)) Q"
  by (rule triple_bind)

lemma triple_pre: "triple P m Q \<Longrightarrow> (\<And>s. P' s \<Longrightarrow> P s) \<Longrightarrow> triple P' m Q"
  by (simp add: triple_def)

lemma triple_post: "triple P m Q \<Longrightarrow> (\<And>x s. Q x s \<Longrightarrow> Q' x s) \<Longrightarrow> triple P m Q'"
  by (simp add: triple_def)

lemma triple_return: "triple (Q x) (State_Monad.return x) Q"
  by (simp add: triple_def)

lemma triple_gets: "triple (\<lambda>s. Q (f s) s) (gets f) Q"
  by (simp add: triple_def gets_def)

lemma triple_modify: "triple (\<lambda>s. Q () (f s)) (modify f) Q"
  by (simp add: triple_def modify_def)

lemma triple_if: "(b \<Longrightarrow> triple P m Q) \<Longrightarrow> (\<not> b \<Longrightarrow> triple P n Q) \<Longrightarrow> triple P (if b then m else n) Q"
  by simp

lemma keepsI: "(\<And>s. I s \<Longrightarrow> I (snd (run_state m s))) \<Longrightarrow> keeps I m"
  by (simp add: keeps_def triple_def)

lemma keepsD: "keeps I m \<Longrightarrow> I s \<Longrightarrow> I (snd (run_state m s))"
  by (simp add: keeps_def triple_def)

lemma keeps_triple: "keeps I m \<Longrightarrow> triple I m (\<lambda>_. I)"
  by (simp add: keeps_def)

section \<open>Preserving an invariant\<close>

named_theorems keeping \<open>rules that show that a computation keeps an invariant\<close>

lemma keeps_bind [keeping]: "keeps I m \<Longrightarrow> (\<And>x. keeps I (f x)) \<Longrightarrow> keeps I (State_Monad.bind m f)"
  unfolding keeps_def by (rule triple_bind)

lemma keeps_return [keeping]: "keeps I (State_Monad.return x)"
  by (rule keepsI) simp

lemma keeps_skip [keeping]: "keeps I skip"
  unfolding skip_def by (rule keeps_return)

lemma keeps_gets [keeping]: "keeps I (gets f)"
  by (rule keepsI) (simp add: gets_def)

lemma keeps_getC [keeping]: "keeps I (getC fd)"
  unfolding getC_def by (rule keeps_gets)

lemma keeps_time_now [keeping]: "keeps I time_now"
  unfolding time_now_def by (rule keeps_gets)

lemma keeps_if [keeping]: "(b \<Longrightarrow> keeps I m) \<Longrightarrow> (\<not> b \<Longrightarrow> keeps I n) \<Longrightarrow> keeps I (if b then m else n)"
  by simp

lemma keeps_Let [keeping]: "keeps I (f x) \<Longrightarrow> keeps I (Let x f)"
  by simp

lemma keeps_case_option [keeping]:
  "(x = None \<Longrightarrow> keeps I m) \<Longrightarrow> (\<And>y. x = Some y \<Longrightarrow> keeps I (f y)) \<Longrightarrow> keeps I (case x of None \<Rightarrow> m | Some y \<Rightarrow> f y)"
  by (cases x) auto

lemma keeps_case_prod [keeping]: "(\<And>a b. x = (a, b) \<Longrightarrow> keeps I (f a b)) \<Longrightarrow> keeps I (case x of (a, b) \<Rightarrow> f a b)"
  by (cases x) auto

lemma keeps_case_list [keeping]:
  "(x = [] \<Longrightarrow> keeps I m) \<Longrightarrow> (\<And>y ys. x = y # ys \<Longrightarrow> keeps I (f y ys)) \<Longrightarrow> keeps I (case x of [] \<Rightarrow> m | y # ys \<Rightarrow> f y ys)"
  by (cases x) auto

lemma keeps_case_sum [keeping]:
  "(\<And>y. x = Inl y \<Longrightarrow> keeps I (f y)) \<Longrightarrow> (\<And>y. x = Inr y \<Longrightarrow> keeps I (g y)) \<Longrightarrow> keeps I (case x of Inl y \<Rightarrow> f y | Inr y \<Rightarrow> g y)"
  by (cases x) auto

lemma keeps_case_send [keeping]:
  "(\<And>n. x = Sent n \<Longrightarrow> keeps I (f n)) \<Longrightarrow> keeps I m \<Longrightarrow> keeps I m' \<Longrightarrow>
   keeps I (case x of Sent n \<Rightarrow> f n | WouldBlock \<Rightarrow> m | SendError \<Rightarrow> m')"
  by (cases x) auto

lemma keeps_forM [keeping]: "(\<And>x. x \<in> set xs \<Longrightarrow> keeps I (f x)) \<Longrightarrow> keeps I (forM xs f)"
  by (induction xs) (auto intro: keeping)

lemma keeps_gets_bind: "(\<And>x. triple (\<lambda>s. I s \<and> f s = x) (g x) (\<lambda>_. I)) \<Longrightarrow> keeps I (State_Monad.bind (gets f) g)"
  by (rule keepsI) (auto simp: triple_def gets_def)

lemma keeps_weak: "keeps I m \<Longrightarrow> triple (\<lambda>s. I s \<and> J s) m (\<lambda>_. I)"
  by (simp add: keeps_def triple_def)

section \<open>The contract of an invariant\<close>

text \<open>
  A change of a session that leaves alone what ties it to the rest of the state: its sockets,
  its buffers towards the network, its address, its identity and whether it is a member.
\<close>

definition inert :: "(ClientSession \<Rightarrow> ClientSession) \<Rightarrow> bool" where
  "inert f \<longleftrightarrow> (\<forall>c. cs_tcpFd (f c) = cs_tcpFd c \<and> cs_dataFd (f c) = cs_dataFd c \<and> cs_peerId (f c) = cs_peerId c \<and>
     cs_secureSessionId (f c) = cs_secureSessionId c \<and> cs_remoteIpv4 (f c) = cs_remoteIpv4 c \<and>
     cs_sendBuf (f c) = cs_sendBuf c \<and> cs_dataSendBuf (f c) = cs_dataSendBuf c \<and>
     cs_roomId (f c) = cs_roomId c \<and> cs_virtualIP (f c) = cs_virtualIP c \<and> cs_name (f c) = cs_name c \<and>
     cs_state (f c) = cs_state c \<and> cs_secureEnabled (f c) = cs_secureEnabled c \<and>
     cs_serverAuthOk (f c) = cs_serverAuthOk c \<and> (cs_alive (f c) \<longrightarrow> cs_alive c))"

locale send_invariant =
  fixes I :: "SignalServer \<Rightarrow> bool"
  assumes inert_client: "inert f \<Longrightarrow> keeps I (modC fd f)"
    and outside: "I s \<Longrightarrow> I (s\<lparr>sv_sends := sends, sv_io := io\<rparr>)"
    and logging: "I s \<Longrightarrow> I (s\<lparr>sv_lastSendRejectLog := a, sv_suppressedSendRejects := b,
           sv_lastDataDropLog := d, sv_suppressedDataDrops := e\<rparr>)"
    and publishing: "I s \<Longrightarrow> I (s\<lparr>sv_roomListRevision := rv, sv_publishedRooms := pub\<rparr>)"
    and append_keeps: "keeps I (appendSendBuffer fd ch xs ys)"
    and consume_keeps: "keeps I (consumeSendBuffer fd ch n)"
    and close_data_keeps: "keeps I (closeDataChannel fd)"
    and owner_peer_keeps: "keeps I (findClientOwnerByPeerId p)"
    and owner_session_keeps: "keeps I (findClientOwnerBySecureSessionId p)"
    and owner_data_keeps: "keeps I (findClientOwnerByDataFd dfd)"
begin

lemma kill_keeps [keeping]: "keeps I (kill fd)"
  unfolding kill_def by (rule inert_client) (simp add: inert_def)

lemma syscall_keeps [keeping]: "keeps I (syscall e)"
proof (rule keepsI)
  fix s assume "I s"
  then have "I (s\<lparr>sv_sends := sv_sends s, sv_io := sv_io s @ [e]\<rparr>)" by (rule outside)
  then show "I (snd (run_state (syscall e) s))" by (simp add: monad_defs)
qed

lemma epollMod_keeps [keeping]: "keeps I (epollMod fd ev)"
  unfolding epollMod_def by (rule syscall_keeps)

lemma epollDel_keeps [keeping]: "keeps I (epollDel fd)"
  unfolding epollDel_def by (rule syscall_keeps)

lemma epollAdd_keeps [keeping]: "keeps I (epollAdd fd ev)"
  unfolding epollAdd_def by (rule syscall_keeps)

lemma close_fd_keeps [keeping]: "keeps I (close_fd fd)"
  unfolding close_fd_def by (rule syscall_keeps)

lemma send_call_keeps [keeping]: "keeps I (send_call fd buf)"
proof (rule keepsI)
  fix s assume s: "I s"
  have "I (s\<lparr>sv_sends := x\<rparr>)" for x using outside [OF s, where sends = x and io = "sv_io s"] by simp
  with s outside [OF s] show "I (snd (run_state (send_call fd buf) s))"
    by (auto simp: send_call_def split: list.split send_result.split)
qed

lemma reject_keeps [keeping]: "keeps I logSendRejectSampled"
proof (rule keepsI)
  fix s assume s: "I s"
  have "I (s\<lparr>sv_lastSendRejectLog := a, sv_suppressedSendRejects := b\<rparr>)" for a b
    using logging [OF s, where a = a and b = b and d = "sv_lastDataDropLog s" and e = "sv_suppressedDataDrops s"] by simp
  from this this [where a = "sv_lastSendRejectLog s"] show "I (snd (run_state logSendRejectSampled s))"
    by (simp add: logSendRejectSampled_def monad_defs)
qed

lemma drop_log_keeps [keeping]: "keeps I logDataDropSampled"
proof (rule keepsI)
  fix s assume s: "I s"
  have "I (s\<lparr>sv_lastDataDropLog := a, sv_suppressedDataDrops := b\<rparr>)" for a b
    using logging [OF s, where a = "sv_lastSendRejectLog s" and b = "sv_suppressedSendRejects s" and d = a and e = b] by simp
  from this this [where a = "sv_lastDataDropLog s"] show "I (snd (run_state logDataDropSampled s))"
    by (simp add: logDataDropSampled_def monad_defs)
qed

lemmas send_prims = append_keeps consume_keeps close_data_keeps owner_peer_keeps owner_session_keeps owner_data_keeps

lemma flush_loop_keeps: "keeps I (flushSendBuf_loop k fd)"
  by (induction k) (auto intro!: keeping send_prims)

lemma flush_keeps [keeping]: "keeps I (flushSendBuf fd)"
  unfolding flushSendBuf_def by (intro keeping flush_loop_keeps)

lemma flush_data_loop_keeps: "keeps I (flushDataSendBuf_loop k fd dfd)"
  by (induction k) (auto intro!: keeping send_prims)

lemma flush_data_keeps [keeping]: "keeps I (flushDataSendBuf fd)"
  unfolding flushDataSendBuf_def by (intro keeping flush_data_loop_keeps)

lemma sendMsg_keeps [keeping]: "keeps I (sendMsg fd t body)"
  unfolding sendMsg_def by (intro keeping send_prims)

lemma inert_ciphers:
  "inert (\<lambda>c. c\<lparr>cs_secureCipher := k\<rparr>)" "inert (\<lambda>c. c\<lparr>cs_dataCipher := k\<rparr>)" "inert (\<lambda>c. c\<lparr>cs_udpCipher := k\<rparr>)"
  by (simp_all add: inert_def)

lemma failRequired_keeps [keeping]: "keeps I (failRequiredControl fd)"
  unfolding failRequiredControl_def by (rule kill_keeps)

lemma encrypt_keeps [keeping]: "keeps I (encryptForClient C fd t body)"
  unfolding encryptForClient_def by (intro keeping inert_client inert_ciphers)

lemma sendClientMsg_keeps [keeping]: "keeps I (sendClientMsg C fd t body)"
  unfolding sendClientMsg_def by (intro keeping)

lemma post_keeps [keeping]: "keeps I (postClientMsg C fd t body)"
  unfolding postClientMsg_def by (intro keeping)

lemma sendError_keeps [keeping]: "keeps I (sendError C fd msg code)"
  unfolding sendError_def by (intro keeping)

lemma sendDataMsg_keeps [keeping]: "keeps I (sendDataMsg C fd t body)"
  unfolding sendDataMsg_def by (intro keeping send_prims inert_client inert_ciphers)

lemma find_peer_keeps [keeping]: "keeps I (findClientByPeerId p)"
  unfolding findClientByPeerId_def by (intro keeping send_prims)

lemma find_session_keeps [keeping]: "keeps I (findClientBySecureSessionId p)"
  unfolding findClientBySecureSessionId_def by (intro keeping send_prims)

lemma find_data_keeps [keeping]: "keeps I (findClientByDataFd p)"
  unfolding findClientByDataFd_def by (intro keeping send_prims)

lemma broadcast_keeps [keeping]: "keeps I (broadcastToRoom C r t body x)"
  unfolding broadcastToRoom_def by (intro keeping)

lemma relay_ready_keeps [keeping]: "keeps I (sendRelayReady C fd p)"
  unfolding sendRelayReady_def by (intro keeping)

lemma notify_keeps [keeping]: "keeps I (notifyRelayPeers C fd)"
  unfolding notifyRelayPeers_def by (intro keeping)

lemma udp_keeps [keeping]: "keeps I (sendEncryptedUdp C u fd plain addr)"
  unfolding sendEncryptedUdp_def by (intro keeping inert_client inert_ciphers)

lemma revision_keeps: "keeps I (modify (\<lambda>s. s\<lparr>sv_roomListRevision := f s\<rparr>))"
proof (rule keepsI)
  fix s assume "I s"
  then have "I (s\<lparr>sv_roomListRevision := f s, sv_publishedRooms := sv_publishedRooms s\<rparr>)" by (rule publishing)
  then show "I (snd (run_state (modify (\<lambda>s. s\<lparr>sv_roomListRevision := f s\<rparr>)) s))" by (simp add: monad_defs)
qed

lemma publish_keeps: "keeps I (modify (\<lambda>s. s\<lparr>sv_publishedRooms := pub\<rparr>))"
proof (rule keepsI)
  fix s assume "I s"
  then have "I (s\<lparr>sv_roomListRevision := sv_roomListRevision s, sv_publishedRooms := pub\<rparr>)" by (rule publishing)
  then show "I (snd (run_state (modify (\<lambda>s. s\<lparr>sv_publishedRooms := pub\<rparr>)) s))" by (simp add: monad_defs)
qed

lemma push_keeps [keeping]: "keeps I (broadcastRoomListPush C)"
  unfolding broadcastRoomListPush_def by (intro keeping revision_keeps publish_keeps)

lemma drop_data_keeps [keeping]: "keeps I (handleDataChannelDisconnect fd)"
  unfolding handleDataChannelDisconnect_def by (intro keeping send_prims)

end

end
