(* ===== verification/Server_Frame.thy ===== *)
theory Server_Frame
  imports Server_Logic
begin

text \<open>
  What a message of one session can touch.  \<open>away fd s\<close> is the server without session \<open>fd\<close> and
  without the counters and sockets that sending to it moves; the locale \<open>session_frame\<close> carries a
  fact about the session itself through every operation that only sends to it.  From this:
  a client that has not authenticated changes nothing but its own session, nobody is
  authenticated without the proof, and relayed data reaches nobody but a member of the room.
\<close>

section \<open>The server without one session\<close>

definition away :: "int \<Rightarrow> SignalServer \<Rightarrow> SignalServer" where
  "away fd s = s\<lparr>sv_clients := om_del fd (sv_clients s), sv_globalSendBytes := 0, sv_sends := [], sv_io := [],
     sv_lastSendRejectLog := 0, sv_suppressedSendRejects := 0\<rparr>"

definition held :: "(SignalServer \<Rightarrow> 'b) \<Rightarrow> int \<Rightarrow> (ClientSession \<Rightarrow> bool) \<Rightarrow> 'b \<Rightarrow> SignalServer \<Rightarrow> bool" where
  "held h fd Q v s \<longleftrightarrow> h (away fd s) = v \<and> (\<exists>c. map_of (sv_clients s) fd = Some c \<and> cs_tcpFd c = fd \<and> Q c)"

lemma heldD:
  assumes "held h fd Q v s"
  shows "h (away fd s) = v" "cs_tcpFd (clientOf fd s) = fd" "Q (clientOf fd s)" "map_of (sv_clients s) fd \<noteq> None"
  using assms by (auto simp: held_def clientOf_def)

lemma keeps_held_getC:
  assumes "\<And>c. cs_tcpFd c = fd \<Longrightarrow> Q c \<Longrightarrow> keeps (held h fd Q v) (f c)"
  shows "keeps (held h fd Q v) (State_Monad.bind (getC fd) f)"
proof (rule keepsI)
  fix s assume s: "held h fd Q v s"
  from keepsD [OF assms [OF heldD(2,3) [OF s]] s] show "held h fd Q v (snd (run_state (State_Monad.bind (getC fd) f) s))"
    by (simp add: getC_def gets_def)
qed

lemma held_modC:
  assumes "\<And>c. Q c \<Longrightarrow> Q (f c) \<and> cs_tcpFd (f c) = cs_tcpFd c"
  shows "keeps (held h fd Q v) (modC fd f)"
proof (rule keepsI)
  fix s assume "held h fd Q v s"
  moreover have "away fd (s\<lparr>sv_clients := om_adj fd f (sv_clients s)\<rparr>) = away fd s" by (simp add: away_def)
  ultimately show "held h fd Q v (snd (run_state (modC fd f) s))"
    using assms by (auto simp: held_def modC_def modify_def)
qed

lemma held_modify:
  assumes "\<And>s. sv_clients (f s) = sv_clients s" "\<And>s. h (away fd (f s)) = h (away fd s)"
  shows "keeps (held h fd Q v) (modify f)"
  using assms by (intro keepsI) (simp add: held_def modify_def)

lemma held_quiet:
  "keeps (held h fd Q v) (releaseBytes n)" "keeps (held h fd Q v) (syscall e)" "keeps (held h fd Q v) logSendRejectSampled"
  "keeps (held h fd Q v) (modify (\<lambda>s. s\<lparr>sv_globalSendBytes := sv_globalSendBytes s + n\<rparr>))"
  unfolding releaseBytes_def syscall_def logSendRejectSampled_def
  by (intro keeping held_modify; simp add: away_def)+

lemma held_send_call: "keeps (held h fd Q v) (send_call f buf)"
  by (rule keepsI) (auto simp: held_def send_call_def away_def split: list.split send_result.split)

text \<open>A change of a session that leaves its identity alone and does not authenticate it.\<close>

definition modest :: "(ClientSession \<Rightarrow> ClientSession) \<Rightarrow> bool" where
  "modest f \<longleftrightarrow> (\<forall>c. cs_tcpFd (f c) = cs_tcpFd c \<and> cs_peerId (f c) = cs_peerId c \<and> cs_roomId (f c) = cs_roomId c \<and>
     cs_virtualIP (f c) = cs_virtualIP c \<and> cs_name (f c) = cs_name c \<and> (cs_serverAuthOk (f c) \<longrightarrow> cs_serverAuthOk c))"

locale session_frame =
  fixes h :: "SignalServer \<Rightarrow> 'b" and fd :: int and Q :: "ClientSession \<Rightarrow> bool" and v :: 'b
  assumes modest_ok: "modest f \<Longrightarrow> Q c \<Longrightarrow> Q (f c)"
begin

lemma modest_held: "modest f \<Longrightarrow> keeps (held h fd Q v) (modC fd f)"
  using modest_ok by (auto intro!: held_modC simp: modest_def)

lemma session_steps [keeping]:
  "keeps (held h fd Q v) (kill fd)" "keeps (held h fd Q v) (modC fd (\<lambda>c. c\<lparr>cs_secureCipher := k\<rparr>))"
  "keeps (held h fd Q v) (modC fd (setBuf ch bs))"
  "keeps (held h fd Q v) (modC fd (\<lambda>c. c\<lparr>cs_sendBudgetFailures := cs_sendBudgetFailures c + 1\<rparr>))"
  "keeps (held h fd Q v) (modC fd (\<lambda>c. c\<lparr>cs_sendBudgetFailures := 0\<rparr>))"
  unfolding kill_def by (intro modest_held; simp add: modest_def setBuf_def)+

lemma append_held [keeping]: "keeps (held h fd Q v) (appendSendBuffer fd ch xs ys)"
  unfolding appendSendBuffer_def by (intro keeping held_quiet)

lemma consume_held [keeping]: "keeps (held h fd Q v) (consumeSendBuffer fd ch n)"
  unfolding consumeSendBuffer_def by (intro keeping held_quiet)

lemma flush_loop_held: "keeps (held h fd Q v) (flushSendBuf_loop k fd)"
  by (induction k) (auto intro!: keeping held_quiet held_send_call simp: epollMod_def)

lemma sendMsg_held [keeping]: "keeps (held h fd Q v) (sendMsg fd t body)"
  unfolding sendMsg_def flushSendBuf_def by (intro keeping held_quiet flush_loop_held)

lemma sendMsg_to: "f = fd \<Longrightarrow> keeps (held h fd Q v) (sendMsg f t body)"
  by (simp add: sendMsg_held)

lemma encrypt_held [keeping]: "keeps (held h fd Q v) (encryptForClient C fd t body)"
  unfolding encryptForClient_def by (intro keeping)

lemma sendClientMsg_held [keeping]: "keeps (held h fd Q v) (sendClientMsg C fd t body)"
  unfolding sendClientMsg_def failRequiredControl_def
  by (intro keeps_held_getC keeps_if keeps_return keeps_bind session_steps encrypt_held keeps_skip) (simp_all add: sendMsg_held)

lemma post_held [keeping]: "keeps (held h fd Q v) (postClientMsg C fd t body)"
  unfolding postClientMsg_def by (intro keeping)

lemma sendError_held [keeping]: "keeps (held h fd Q v) (sendError C fd msg code)"
  unfolding sendError_def by (intro keeping)

lemma sendError_to: "f = fd \<Longrightarrow> keeps (held h fd Q v) (sendError C f msg code)"
  by (simp add: sendError_held)

end

section \<open>The handshake\<close>

text \<open>What else the handshake moves: random bytes, rate limits and the index of secure sessions.\<close>

definition settled :: "SignalServer \<Rightarrow> SignalServer" where
  "settled s = s\<lparr>sv_randoms := [], sv_ipStates := [], sv_secureSessionMap := []\<rparr>"

lemma held_handshake:
  "keeps (held settled fd Q v) (secureRandomBytes n)" "keeps (held settled fd Q v) (takeIpToken ip b x y)"
  "keeps (held settled fd Q v) (findClientOwnerBySecureSessionId sid)"
proof -
  show "keeps (held settled fd Q v) (secureRandomBytes n)"
    by (rule keepsI) (auto simp: held_def secureRandomBytes_def settled_def away_def split: list.split option.split)
  show "keeps (held settled fd Q v) (takeIpToken ip b x y)"
    unfolding takeIpToken_def modIp_def by (intro keeping held_modify) (simp_all add: settled_def away_def)
  show "keeps (held settled fd Q v) (findClientOwnerBySecureSessionId sid)"
    by (rule keepsI) (auto simp: held_def findClientOwnerBySecureSessionId_def settled_def away_def split: option.split)
qed

lemma held_bindSecure: "keeps (held settled fd Q v) (bindSecureSessionIndex fd sid)"
proof -
  have "keeps (held settled fd Q v) (State (\<lambda>s. case g s of (ok, m) \<Rightarrow> (ok, s\<lparr>sv_secureSessionMap := m\<rparr>)))" for g
    by (rule keepsI) (simp add: held_def settled_def away_def split: prod.split)
  then show ?thesis unfolding bindSecureSessionIndex_def by (intro keeping held_handshake)
qed

locale handshake_frame = session_frame settled fd Q v for fd Q v
begin

lemma onClientHello_held: "keeps (held settled fd Q v) (onClientHello C fd p)"
  unfolding onClientHello_def failRequiredControl_def
  by (rule keeps_held_getC, intro keeping held_handshake modest_held sendMsg_to sendError_to) (simp_all add: modest_def)

end

text \<open>What has to hold for a proof to be accepted: the session waits for it, it is in time, and it is the proof of this password.\<close>

definition auth_master :: "crypto \<Rightarrow> SignalServer \<Rightarrow> ClientSession \<Rightarrow> bytes" where
  "auth_master C s c = deriveSecureMaster C (cr_x25519 C (cs_serverPrivKey c) (cs_clientPubKey c)) (sv_serverAuthHash s)
     (cs_clientNonce c) (cs_serverNonce c) (cs_clientPubKey c) (cs_serverPubKey c) (sv_serverAuthSalt s) AUTH_KDF_PROFILE"

definition authentic :: "crypto \<Rightarrow> SignalServer \<Rightarrow> ClientSession \<Rightarrow> bytes \<Rightarrow> bool" where
  "authentic C s c p \<longleftrightarrow> cs_state c = AwaitServerAuth \<and> sv_now s \<le> cs_authDeadline c \<and>
     validX25519Shared (cr_x25519 C (cs_serverPrivKey c) (cs_clientPubKey c)) \<and>
     p = computeClientAuthProof C (auth_master C s c) (sv_serverAuthHash s)"

lemma run_gets: "run_state (State_Monad.bind (gets f) g) s = run_state (g (f s)) s"
  by (simp add: gets_def)

context handshake_frame
begin

text \<open>A proof that is not accepted leaves the session's fact alone, an accepted one does if acceptance does.\<close>

lemma onServerAuth_held:
  assumes s: "held settled fd Q v s"
    and accept: "authentic C s (clientOf fd s) p \<Longrightarrow> keeps (held settled fd Q v) (acceptServerAuth C fd (auth_master C s (clientOf fd s)))"
  shows "held settled fd Q v (snd (run_state (onServerAuth C fd p) s))"
proof -
  define c where "c = clientOf fd s"
  define shared where "shared = cr_x25519 C (cs_serverPrivKey c) (cs_clientPubKey c)"
  define master where "master = auth_master C s c"
  have fd: "cs_tcpFd c = fd" using heldD(2) [OF s] by (simp add: c_def)
  have m: "deriveSecureMaster C shared (sv_serverAuthHash s) (cs_clientNonce c) (cs_serverNonce c) (cs_clientPubKey c)
      (cs_serverPubKey c) (sv_serverAuthSalt s) AUTH_KDF_PROFILE = master"
    by (simp add: master_def auth_master_def shared_def)
  have closing: "keeps (held settled fd Q v) (modC fd (\<lambda>c. c\<lparr>cs_state := Closing\<rparr>))"
    by (rule modest_held) (simp add: modest_def)
  have wipe: "keeps (held settled fd Q v) (modC fd (\<lambda>c. c\<lparr>cs_serverPrivKey := replicate 32 0\<rparr>))"
    by (rule modest_held) (simp add: modest_def)
  consider (early) "cs_state c \<noteq> AwaitServerAuth \<or> cs_serverAuthOk c" | (late) "cs_state c = AwaitServerAuth" "\<not> cs_serverAuthOk c"
      "sv_now s > cs_authDeadline c \<or> length p \<noteq> 32" | (timely) "cs_state c = AwaitServerAuth" "\<not> cs_serverAuthOk c"
      "sv_now s \<le> cs_authDeadline c" "length p = 32" by linarith
  then show ?thesis
  proof cases
    case early
    then show ?thesis
      unfolding onServerAuth_def getC_def time_now_def run_gets c_def [symmetric] using keepsD [OF session_steps(1) s] by simp
  next
    case late
    then show ?thesis
      unfolding onServerAuth_def getC_def time_now_def run_gets c_def [symmetric] fd
      using keepsD [OF keeps_bind [OF sendError_held session_steps(1)] s] by auto
  next
    case timely
    have body: "keeps (held settled fd Q v) (do {
       modC fd (\<lambda>c. c\<lparr>cs_serverPrivKey := replicate 32 0\<rparr>);
       if \<not> validX25519Shared shared then do {
         sendError C fd ''Invalid X25519 peer key'' InvalidKey;
         modC fd (\<lambda>c. c\<lparr>cs_state := Closing\<rparr>)
       }
       else if crypto_verify32 (computeClientAuthProof C master (sv_serverAuthHash s)) p \<noteq> 0 then do {
           sendError C fd ''Invalid server password'' InvalidPassword;
           modC fd (\<lambda>c. c\<lparr>cs_state := Closing\<rparr>)
         }
       else if deriveSessionId C master = 0 then do {
           sendError C fd ''Secure session unavailable'' General;
           kill fd
         }
       else do {
           existing \<leftarrow> gets (\<lambda>s. map_of (sv_secureSessionMap s) (deriveSessionId C master));
           taken \<leftarrow> (if existing \<noteq> None \<and> existing \<noteq> Some fd
                     then findClientOwnerBySecureSessionId (deriveSessionId C master) else ret None);
           if taken \<noteq> None then do {
             sendError C fd ''Secure session collision'' General;
             kill fd
           }
           else acceptServerAuth C fd master
         } })"
    proof (intro keeps_bind wipe keeps_if sendError_held session_steps(1) closing keeps_gets held_handshake keeps_return)
      assume "\<not> \<not> validX25519Shared shared" "\<not> crypto_verify32 (computeClientAuthProof C master (sv_serverAuthHash s)) p \<noteq> 0"
      then have "authentic C s c p" using timely by (auto simp: authentic_def shared_def master_def crypto_verify32_def split: if_splits)
      then show "keeps (held settled fd Q v) (acceptServerAuth C fd master)" using accept by (simp add: c_def master_def)
    qed
    have "\<not> (cs_state c \<noteq> AwaitServerAuth \<or> cs_serverAuthOk c)" "\<not> (sv_now s > cs_authDeadline c \<or> length p \<noteq> 32)"
      using timely by auto
    note guards = this [THEN if_not_P]
    from keepsD [OF body s] show ?thesis
      unfolding onServerAuth_def getC_def time_now_def run_gets c_def [symmetric] guards Let_def fd shared_def [symmetric] m .
  qed
qed

end

section \<open>Messages before authentication\<close>

definition identity :: "ClientSession \<Rightarrow> u32 \<times> u32 \<times> u32 \<times> bytes" where
  "identity c = (cs_peerId c, cs_roomId c, cs_virtualIP c, cs_name c)"

interpretation ident: handshake_frame fd "\<lambda>c. identity c = x" v for fd x v
  by unfold_locales (auto simp: modest_def identity_def)

interpretation unauth: handshake_frame fd "\<lambda>c. \<not> cs_serverAuthOk c" v for fd v
  by unfold_locales (auto simp: modest_def)

lemma accept_ident: "keeps (held settled fd (\<lambda>c. identity c = x) v) (acceptServerAuth C fd master)"
  unfolding acceptServerAuth_def Let_def failRequiredControl_def
  by (intro keeps_held_getC keeps_bind keeps_if keeps_gets keeps_skip held_bindSecure ident.session_steps(1) ident.sendMsg_to held_modC)
     (auto simp: identity_def)

text \<open>The guard changes nothing itself: it ends in one of these ways.\<close>

lemma guard_cases:
  assumes "P s" "P (snd (run_state (kill fd) s))"
    "P (snd (run_state (sendError C (cs_tcpFd (clientOf fd s)) ''Message not allowed in current session state'' General) s))"
    "classifyClientSignalMessage (cs_state (clientOf fd s)) t = Dispatch \<Longrightarrow> P (snd (run_state handler s))"
  shows "P (snd (run_state (guardMessage C fd t ptr len handler) s))"
proof -
  have "classifyClientSignalMessage (cs_state (clientOf fd s)) t \<in> {IgnoreUnknown, Close, SendStateError, Dispatch}"
    by (cases "classifyClientSignalMessage (cs_state (clientOf fd s)) t") auto
  with assms show ?thesis
    unfolding guardMessage_def getC_def run_gets Let_def by (auto simp: skip_def)
qed

lemma processMessage_run:
  fixes s fd
  defines "s1 \<equiv> s\<lparr>sv_clients := om_adj fd (\<lambda>c. c\<lparr>cs_lastPing := sv_now s\<rparr>) (sv_clients s)\<rparr>"
  shows "run_state (processMessage C fd t p) s =
    (let c = clientOf fd s1 in
     run_state (if cs_state c = Closing then skip
     else if cs_state c = AwaitHello then guardMessage C fd t (Some p) (length p) (onClientHello C fd p)
     else if cs_state c = AwaitServerAuth then guardMessage C fd t (Some p) (length p) (onServerAuth C fd p)
     else if \<not> cs_serverAuthOk c \<or> \<not> cs_secureEnabled c then kill fd
     else if t \<noteq> MSG_ENCRYPTED then kill fd
     else do {
       inner \<leftarrow> decryptClientFrame C fd p;
       case inner of
         None \<Rightarrow> kill fd
       | Some (innerType, innerPayload) \<Rightarrow>
           guardMessage C fd innerType (payloadPtr innerPayload) (length innerPayload)
             (dispatchMessage C fd innerType innerPayload)
     }) s1)"
  unfolding processMessage_def time_now_def run_gets getC_def s1_def
  by (simp add: modC_def modify_def run_gets del: run_state_bind) (simp add: gets_def)

lemma held_ping: "keeps (held h fd Q v) (modC fd (\<lambda>c. c\<lparr>cs_lastPing := n\<rparr>))" if "\<And>c. Q c \<Longrightarrow> Q (c\<lparr>cs_lastPing := n\<rparr>)"
  using that by (intro held_modC) simp

context handshake_frame
begin

lemma guarded_held:
  assumes "held settled fd Q v s"
    "classifyClientSignalMessage (cs_state (clientOf fd s)) t = Dispatch \<Longrightarrow> held settled fd Q v (snd (run_state handler s))"
  shows "held settled fd Q v (snd (run_state (guardMessage C fd t ptr len handler) s))"
proof (rule guard_cases [OF assms(1) keepsD [OF session_steps(1) assms(1)] _ assms(2)])
  show "held settled fd Q v (snd (run_state (sendError C (cs_tcpFd (clientOf fd s)) e General) s))" for e
    unfolding heldD(2) [OF assms(1)] by (rule keepsD [OF sendError_held assms(1)])
qed

text \<open>A message to a session that is still in the handshake.\<close>

lemma preauth_held:
  assumes s: "held settled fd Q v s"
    and st: "cs_state (clientOf fd s) = AwaitHello \<or> cs_state (clientOf fd s) = AwaitServerAuth"
    and accept: "authentic C s (clientOf fd s) p \<Longrightarrow>
      classifyClientSignalMessage AwaitServerAuth t = Dispatch \<Longrightarrow>
      keeps (held settled fd Q v) (acceptServerAuth C fd (auth_master C s (clientOf fd s)))"
  shows "held settled fd Q v (snd (run_state (processMessage C fd t p) s))"
proof -
  define s1 where "s1 = s\<lparr>sv_clients := om_adj fd (\<lambda>c. c\<lparr>cs_lastPing := sv_now s\<rparr>) (sv_clients s)\<rparr>"
  have c1: "clientOf fd s1 = (clientOf fd s)\<lparr>cs_lastPing := sv_now s\<rparr>"
    using heldD(4) [OF s] by (auto simp: s1_def clientOf_def)
  have "held settled fd Q v (snd (run_state (modC fd (\<lambda>c. c\<lparr>cs_lastPing := sv_now s\<rparr>)) s))"
    by (rule keepsD [OF modest_held s]) (simp add: modest_def)
  then have s1: "held settled fd Q v s1" by (simp add: s1_def modC_def modify_def)
  have hello: "held settled fd Q v (snd (run_state (onClientHello C fd p) s1))" by (rule keepsD [OF onClientHello_held s1])
  have "authentic C s1 (clientOf fd s1) p = authentic C s (clientOf fd s) p"
    "auth_master C s1 (clientOf fd s1) = auth_master C s (clientOf fd s)"
    unfolding c1 by (simp_all add: authentic_def auth_master_def s1_def)
  then have auth: "held settled fd Q v (snd (run_state (onServerAuth C fd p) s1))"
    if "classifyClientSignalMessage AwaitServerAuth t = Dispatch"
    using accept that by (intro onServerAuth_held [OF s1]) simp
  from st show ?thesis
    unfolding processMessage_run s1_def [symmetric] c1 Let_def
    using guarded_held [OF s1, of t "onClientHello C fd p"] guarded_held [OF s1, of t "onServerAuth C fd p"] hello auth c1 by auto
qed

end

lemma settled_sel:
  "sv_rooms (settled (away fd s)) = sv_rooms s" "sv_publishedRooms (settled (away fd s)) = sv_publishedRooms s"
  "sv_roomListRevision (settled (away fd s)) = sv_roomListRevision s" "sv_nextPeerId (settled (away fd s)) = sv_nextPeerId s"
  "sv_freePeerIds (settled (away fd s)) = sv_freePeerIds s" "sv_peerMap (settled (away fd s)) = sv_peerMap s"
  "sv_dataFdMap (settled (away fd s)) = sv_dataFdMap s" "sv_pending (settled (away fd s)) = sv_pending s"
  "sv_clients (settled (away fd s)) = om_del fd (sv_clients s)"
  by (simp_all add: settled_def away_def)

lemma settled_eq:
  assumes "settled (away fd s') = settled (away fd s)"
  shows "sv_rooms s' = sv_rooms s" "sv_publishedRooms s' = sv_publishedRooms s" "sv_roomListRevision s' = sv_roomListRevision s"
    "sv_nextPeerId s' = sv_nextPeerId s" "sv_freePeerIds s' = sv_freePeerIds s" "sv_peerMap s' = sv_peerMap s"
    "sv_dataFdMap s' = sv_dataFdMap s" "sv_pending s' = sv_pending s" "om_del fd (sv_clients s') = om_del fd (sv_clients s)"
  using settled_sel [of fd s'] settled_sel [of fd s] unfolding assms by simp_all

text \<open>
  C24. A client that has not authenticated is confined to its own session: whatever message it
  sends while the handshake is open, the rooms, the published room list, the numbers of peers,
  the indexes of peers and data channels, the pending connections and every other session are
  exactly as before, and it gains no peer number, room, address or name itself.
\<close>

theorem unauthenticated_confined:
  fixes C fd t p s
  defines "s' \<equiv> snd (run_state (processMessage C fd t p) s)"
  assumes "map_of (sv_clients s) fd = Some c" "cs_tcpFd c = fd" "cs_state c = AwaitHello \<or> cs_state c = AwaitServerAuth"
  shows "sv_rooms s' = sv_rooms s \<and> sv_publishedRooms s' = sv_publishedRooms s \<and> sv_roomListRevision s' = sv_roomListRevision s \<and>
     sv_nextPeerId s' = sv_nextPeerId s \<and> sv_freePeerIds s' = sv_freePeerIds s \<and> sv_peerMap s' = sv_peerMap s \<and>
     sv_dataFdMap s' = sv_dataFdMap s \<and> sv_pending s' = sv_pending s \<and>
     om_del fd (sv_clients s') = om_del fd (sv_clients s) \<and>
     (\<exists>c'. map_of (sv_clients s') fd = Some c' \<and> identity c' = identity c)"
proof -
  have c: "clientOf fd s = c" using assms(2) by (simp add: clientOf_def)
  have "held settled fd (\<lambda>c'. identity c' = identity c) (settled (away fd s)) s" using assms by (simp add: held_def)
  then have "held settled fd (\<lambda>c'. identity c' = identity c) (settled (away fd s)) s'"
    unfolding s'_def using assms(4) c by (intro ident.preauth_held accept_ident) simp_all
  then have "settled (away fd s') = settled (away fd s)" "\<exists>c'. map_of (sv_clients s') fd = Some c' \<and> identity c' = identity c"
    by (auto simp: held_def)
  then show ?thesis using settled_eq [of fd s' s] by blast
qed

definition demo_new :: SignalServer where
  "demo_new = newSignalServer\<lparr>sv_clients := [(7, newClientSession\<lparr>cs_tcpFd := 7, cs_alive := True\<rparr>)]\<rparr>"

theorem unauthenticated_confined_witness:
  "sv_rooms (snd (run_state (processMessage demo_crypto 7 MSG_CLIENT_HELLO [0, 9]) demo_new)) = newRoomManager"
  using unauthenticated_confined [of demo_new 7 "newClientSession\<lparr>cs_tcpFd := 7, cs_alive := True\<rparr>" demo_crypto MSG_CLIENT_HELLO "[0, 9]"]
  by (simp add: demo_new_def newSignalServer_def newClientSession_def)

text \<open>
  C16. Nobody is authenticated without the proof: a message leaves a session unauthenticated
  unless it is the authentication message, the session waits for it and is in time, the key
  agreement is valid, and the payload is the proof computed from the shared secret, the
  server's password hash and both nonces and keys of this session.
\<close>

theorem authenticated_only_by_proof:
  fixes C fd t p s
  defines "s' \<equiv> snd (run_state (processMessage C fd t p) s)"
  assumes "map_of (sv_clients s) fd = Some c" "cs_tcpFd c = fd" "\<not> cs_serverAuthOk c"
    "\<not> (t = MSG_SERVER_AUTH \<and> authentic C s c p)"
  shows "\<exists>c'. map_of (sv_clients s') fd = Some c' \<and> \<not> cs_serverAuthOk c'"
proof -
  let ?I = "held settled fd (\<lambda>c. \<not> cs_serverAuthOk c) (settled (away fd s))"
  have c: "clientOf fd s = c" using assms(2) by (simp add: clientOf_def)
  have s: "?I s" using assms by (simp add: held_def)
  have "?I s'"
  proof (cases "cs_state c = AwaitHello \<or> cs_state c = AwaitServerAuth")
    case True
    have "t = MSG_SERVER_AUTH" if "classifyClientSignalMessage AwaitServerAuth t = Dispatch"
      using that by (auto simp: classifyClientSignalMessage_def split: if_splits)
    with True assms(5) c s show ?thesis unfolding s'_def by (intro unauth.preauth_held) auto
  next
    case False
    define s1 where "s1 = s\<lparr>sv_clients := om_adj fd (\<lambda>c. c\<lparr>cs_lastPing := sv_now s\<rparr>) (sv_clients s)\<rparr>"
    have c1: "clientOf fd s1 = c\<lparr>cs_lastPing := sv_now s\<rparr>" using assms(2) by (simp add: s1_def clientOf_def)
    have "?I (snd (run_state (modC fd (\<lambda>c. c\<lparr>cs_lastPing := sv_now s\<rparr>)) s))"
      by (rule keepsD [OF unauth.modest_held s]) (simp add: modest_def)
    then have s1: "?I s1" by (simp add: s1_def modC_def modify_def)
    show ?thesis
      unfolding s'_def processMessage_run s1_def [symmetric] c1 Let_def
      using s1 keepsD [OF unauth.session_steps(1) s1] False assms(4) by (simp add: skip_def)
  qed
  then show ?thesis by (auto simp: held_def)
qed

theorem authenticated_only_by_proof_witness:
  "\<exists>c'. map_of (sv_clients (snd (run_state (processMessage demo_crypto 7 MSG_SERVER_AUTH (replicate 32 0)) demo_new))) 7 = Some c' \<and>
     \<not> cs_serverAuthOk c'"
  using authenticated_only_by_proof [of demo_new 7 "newClientSession\<lparr>cs_tcpFd := 7, cs_alive := True\<rparr>" MSG_SERVER_AUTH demo_crypto "replicate 32 0"]
  by (simp add: demo_new_def newClientSession_def authentic_def)

end
