(* ===== verification/Server_Relay.thy ===== *)
theory Server_Relay
  imports Server_Frame
begin

text \<open>
  Relaying between members (\<^verbatim>\<open>onTcpRelayData\<close>, \<^verbatim>\<open>handleUdpPacket\<close>): data is accepted only under
  the sender's own number and reaches only the addressed member of the sender's room.
\<close>

section \<open>Finding the destination\<close>

definition routed :: "SignalServer \<Rightarrow> SignalServer" where
  "routed s = s\<lparr>sv_dataFdMap := [], sv_peerMap := []\<rparr>"

lemma findOwner_peer_cases:
  "run_state (findClientOwnerByPeerId d) s = (Some t, s) \<and> d \<noteq> 0 \<and> (\<exists>c. map_of (sv_clients s) t = Some c \<and> cs_tcpFd c = t \<and> cs_peerId c = d) \<or>
   (\<exists>m. run_state (findClientOwnerByPeerId d) s = (None, s\<lparr>sv_peerMap := m\<rparr>))"
  if "t = the (fst (run_state (findClientOwnerByPeerId d) s))"
proof -
  have "\<exists>m. s = s\<lparr>sv_peerMap := m\<rparr>" by (rule exI [of _ "sv_peerMap s"]) simp
  then show ?thesis using that by (auto simp: findClientOwnerByPeerId_def split: option.split if_splits)
qed

lemma findClient_peer_cases:
  obtains t c where "run_state (findClientByPeerId d) s = (Some t, s)" "map_of (sv_clients s) t = Some c" "cs_tcpFd c = t"
      "cs_peerId c = d" "d \<noteq> 0" "cs_alive c" "cs_serverAuthOk c" "sessionHasPeerIdentity (cs_state c)"
    | m where "run_state (findClientByPeerId d) s = (None, s\<lparr>sv_peerMap := m\<rparr>)"
proof -
  consider t where "run_state (findClientOwnerByPeerId d) s = (Some t, s)" "d \<noteq> 0"
        "\<exists>c. map_of (sv_clients s) t = Some c \<and> cs_tcpFd c = t \<and> cs_peerId c = d"
    | m where "run_state (findClientOwnerByPeerId d) s = (None, s\<lparr>sv_peerMap := m\<rparr>)"
    using findOwner_peer_cases [OF refl, of d s] by blast
  then show thesis
  proof cases
    case (1 t)
    then obtain c where c: "map_of (sv_clients s) t = Some c" "cs_tcpFd c = t" "cs_peerId c = d" by blast
    show thesis
    proof (cases "\<not> cs_alive c \<or> \<not> cs_serverAuthOk c \<or> \<not> cs_secureEnabled c \<or> \<not> sessionHasPeerIdentity (cs_state c)")
      case True
      then have "run_state (findClientByPeerId d) s = (None, s\<lparr>sv_peerMap := sv_peerMap s\<rparr>)"
        using 1 c by (auto simp: findClientByPeerId_def getC_def gets_def clientOf_def)
      then show thesis by (rule that(2))
    next
      case False
      then have "run_state (findClientByPeerId d) s = (Some t, s)"
        using 1 c by (simp add: findClientByPeerId_def getC_def gets_def clientOf_def)
      then show thesis using that(1) c 1(2) False by blast
    qed
  next
    case (2 m)
    then have "run_state (findClientByPeerId d) s = (None, s\<lparr>sv_peerMap := m\<rparr>)" by (simp add: findClientByPeerId_def)
    then show thesis by (rule that(2))
  qed
qed

section \<open>Sending on the data channel\<close>

locale relay_frame = session_frame routed fd Q v for fd Q v
begin

lemma held_unbind: "keeps (held routed fd Q v) (unbindDataFd d t)"
  unfolding unbindDataFd_def by (rule held_modify) (simp_all add: routed_def away_def)

lemma clear_held [keeping]: "keeps (held routed fd Q v) (clearSendBuffer fd ch)"
  unfolding clearSendBuffer_def by (intro keeping held_quiet)

lemma close_held [keeping]: "keeps (held routed fd Q v) (closeDataChannel fd)"
  unfolding closeDataChannel_def epollDel_def close_fd_def
  by (intro keeping held_quiet held_unbind modest_held) (simp_all add: modest_def)

lemma flush_data_loop_held: "keeps (held routed fd Q v) (flushDataSendBuf_loop k fd dfd)"
  by (induction k) (auto intro!: keeping held_quiet held_send_call simp: epollMod_def)

lemma sendData_held [keeping]: "keeps (held routed fd Q v) (sendDataMsg C fd t body)"
  unfolding sendDataMsg_def flushDataSendBuf_def
  by (intro keeping held_quiet flush_data_loop_held modest_held) (simp_all add: modest_def)

end

interpretation dest: relay_frame fd "\<lambda>c. identity c = x" v for fd x v
  by unfold_locales (auto simp: modest_def identity_def)

section \<open>Relayed data\<close>

lemma deliver_held:
  "keeps (held routed t (\<lambda>c. identity c = x) v) (do {
     sent \<leftarrow> (if b then sendDataMsg C t MSG_TCP_RELAY_DATA fwd else ret False);
     if sent then skip else postClientMsg C t MSG_TCP_RELAY_DATA fwd })"
  by (intro keeping)

lemma routed_away [simp]: "routed (away t (s\<lparr>sv_peerMap := m\<rparr>)) = routed (away t s)"
  by (simp add: routed_def away_def)

lemma readU32_some: "9 \<le> length p \<Longrightarrow> parseRelay p \<noteq> None"
  by (auto simp: parseRelay_def readU32_unread readU8_unread unread_def advance_def split: list.split)



section \<open>UDP\<close>

lemma findClient_session_cases:
  obtains t c where "run_state (findClientBySecureSessionId d) s = (Some t, s)" "map_of (sv_clients s) t = Some c" "cs_tcpFd c = t"
      "cs_secureSessionId c = d" "cs_alive c" "cs_serverAuthOk c"
    | m where "run_state (findClientBySecureSessionId d) s = (None, s\<lparr>sv_secureSessionMap := m\<rparr>)"
proof -
  have nop: "\<exists>m. s = s\<lparr>sv_secureSessionMap := m\<rparr>" by (rule exI [of _ "sv_secureSessionMap s"]) simp
  show thesis
  proof (cases "\<exists>t c. d \<noteq> 0 \<and> map_of (sv_secureSessionMap s) d = Some t \<and> map_of (sv_clients s) t = Some c \<and> cs_tcpFd c = t \<and>
      cs_secureSessionId c = d")
    case True
    then obtain t c where c: "d \<noteq> 0" "map_of (sv_secureSessionMap s) d = Some t" "map_of (sv_clients s) t = Some c" "cs_tcpFd c = t"
        "cs_secureSessionId c = d" by blast
    then have o: "run_state (findClientOwnerBySecureSessionId d) s = (Some t, s)" by (simp add: findClientOwnerBySecureSessionId_def)
    show thesis
    proof (cases "\<not> cs_alive c \<or> \<not> cs_secureEnabled c \<or> \<not> cs_serverAuthOk c \<or> cs_state c = Closing")
      case True
      with o c show thesis by (intro that(2) [of "sv_secureSessionMap s"]) (auto simp: findClientBySecureSessionId_def getC_def gets_def clientOf_def)
    next
      case False
      with o c show thesis by (intro that(1)) (auto simp: findClientBySecureSessionId_def getC_def gets_def clientOf_def)
    qed
  next
    case False
    then have "\<exists>m. run_state (findClientOwnerBySecureSessionId d) s = (None, s\<lparr>sv_secureSessionMap := m\<rparr>)"
      using nop by (auto simp: findClientOwnerBySecureSessionId_def split: option.split)
    then obtain m where "run_state (findClientOwnerBySecureSessionId d) s = (None, s\<lparr>sv_secureSessionMap := m\<rparr>)" ..
    then show thesis by (intro that(2)) (simp add: findClientBySecureSessionId_def)
  qed
qed

lemma drop_log_io [simp]:
  "sv_io (snd (run_state logDataDropSampled s)) = sv_io s" "sv_clients (snd (run_state logDataDropSampled s)) = sv_clients s"
  by (simp_all add: logDataDropSampled_def monad_defs)

text \<open>The source of a UDP packet: the session whose number it carries and whose key opens it.\<close>

definition udp_source :: "crypto \<Rightarrow> SignalServer \<Rightarrow> bytes \<Rightarrow> int \<Rightarrow> ClientSession \<Rightarrow> bytes \<Rightarrow> bool" where
  "udp_source C s buf src c plain \<longleftrightarrow> map_of (sv_clients s) src = Some c \<and> cs_alive c \<and> cs_serverAuthOk c \<and>
     cs_secureSessionId c = readU32BE (drop 1 buf) \<and>
     fst (decryptFrame C (drop (1 + SECURE_SESSION_ID_SIZE) buf) [] (cs_udpCipher c)) = Some plain"

lemma decryptUdp_cases:
  obtains src c plain k where "udp_source C s buf src c plain"
      "run_state (decryptUdpPacket C buf) s = (Some (src, plain), s\<lparr>sv_clients := om_adj src (\<lambda>c. c\<lparr>cs_udpCipher := k\<rparr>) (sv_clients s)\<rparr>)"
      "k = snd (decryptFrame C (drop (1 + SECURE_SESSION_ID_SIZE) buf) [] (cs_udpCipher c))"
    | s1 where "run_state (decryptUdpPacket C buf) s = (None, s1)" "sv_io s1 = sv_io s"
proof -
  consider "length buf < 1 + SECURE_SESSION_ID_SIZE + SECURE_FRAME_OVERHEAD \<or> buf ! 0 \<noteq> UDP_ENCRYPTED"
    | "\<not> (length buf < 1 + SECURE_SESSION_ID_SIZE + SECURE_FRAME_OVERHEAD \<or> buf ! 0 \<noteq> UDP_ENCRYPTED)" by blast
  then show thesis
  proof cases
    case 1
    then show thesis by (intro that(2) [of s]) (auto simp: decryptUdpPacket_def)
  next
    case 2
    show thesis
    proof (cases rule: findClient_session_cases [of "readU32BE (drop 1 buf)" s])
      case (1 t c)
      obtain plain k where d: "decryptFrame C (drop (1 + SECURE_SESSION_ID_SIZE) buf) [] (cs_udpCipher c) = (plain, k)" by fastforce
      have run: "run_state (decryptUdpPacket C buf) s = (case plain of Some p \<Rightarrow> Some (t, p) | None \<Rightarrow> None,
          s\<lparr>sv_clients := om_adj t (\<lambda>c. c\<lparr>cs_udpCipher := k\<rparr>) (sv_clients s)\<rparr>)"
        using 2 1 d by (simp add: decryptUdpPacket_def getC_def gets_def clientOf_def modC_def modify_def)
      show thesis
      proof (cases plain)
        case None
        with run show thesis by (intro that(2) [OF run [unfolded None option.case]]) simp
      next
        case (Some p)
        with run d 1 show thesis by (intro that(1) [of t c p k]) (auto simp: udp_source_def)
      qed
    next
      case (2 m)
      then show thesis using \<open>\<not> (length buf < 1 + SECURE_SESSION_ID_SIZE + SECURE_FRAME_OVERHEAD \<or> buf ! 0 \<noteq> UDP_ENCRYPTED)\<close>
        by (intro that(2) [of "s\<lparr>sv_secureSessionMap := m\<rparr>"]) (auto simp: decryptUdpPacket_def)
    qed
  qed
qed

text \<open>The packet a destination gets: sealed under its own key and carrying its own session number.\<close>

definition udp_packet :: "crypto \<Rightarrow> ClientSession \<Rightarrow> bytes \<Rightarrow> bytes" where
  "udp_packet C dst plain =
     UDP_ENCRYPTED # writeU32BE (cs_secureSessionId dst) @ fst (encryptFrame C plain [] (cs_udpCipher dst))"

lemma sendUdp_io:
  assumes "map_of (sv_clients s) t = Some dst"
  shows "sv_io (snd (run_state (sendEncryptedUdp C fd t plain a) s)) \<in> {sv_io s, sv_io s @ [SendUdp fd a (udp_packet C dst plain)]}"
  using assms by (auto simp: sendEncryptedUdp_def monad_defs clientOf_def udp_packet_def kill_def syscall_def split: prod.split)

text \<open>A session that may get what \<open>c\<close> (on socket \<open>src\<close>) sends: the addressee, in the same room, at a known address.\<close>

definition udp_dest :: "SignalServer \<Rightarrow> ClientSession \<Rightarrow> bytes \<Rightarrow> int \<Rightarrow> ClientSession \<Rightarrow> bool" where
  "udp_dest s c plain t dst \<longleftrightarrow> map_of (sv_clients s) t = Some dst \<and> cs_alive dst \<and> cs_serverAuthOk dst \<and>
     cs_peerId dst = readU32BE (drop 6 plain) \<and> cs_roomId dst = cs_roomId c \<and> cs_roomId c \<noteq> 0 \<and> cs_udpAddrKnown dst \<and>
     cs_peerId c = readU32BE (drop 2 plain)"

lemma run_getC: "run_state (getC t \<bind> f) s = run_state (f (clientOf t s)) s"
  by (simp add: getC_def gets_def)

lemma relayUdp_io:
  fixes src addr
  assumes c: "map_of (sv_clients s) src = Some c"
  defines "s1 \<equiv> s\<lparr>sv_clients := om_adj src (\<lambda>c. c\<lparr>cs_udpAddr := addr, cs_udpAddrKnown := True\<rparr>) (sv_clients s)\<rparr>"
  shows "sv_io (snd (run_state (relayUdp C fd addr src plain) s)) = sv_io s \<or>
    (\<exists>t dst. udp_dest s1 c plain t dst \<and>
       sv_io (snd (run_state (relayUdp C fd addr src plain) s)) = sv_io s @ [SendUdp fd (cs_udpAddr dst) (udp_packet C dst plain)])"
proof (cases "readU32BE (drop 2 plain) \<noteq> cs_peerId c \<or> readU32BE (drop 6 plain) = 0 \<or> cs_roomId c = 0 \<or>
    (plain ! 1 \<noteq> TRAFFIC_TCP \<and> plain ! 1 \<noteq> TRAFFIC_UDP)")
  case True
  then have "run_state (relayUdp C fd addr src plain) s = run_state logDataDropSampled s"
    using c by (auto simp: relayUdp_def getC_def gets_def clientOf_def Let_def)
  then show ?thesis by simp
next
  case ok: False
  have cc: "clientOf src s = c" using c by (simp add: clientOf_def)
  define rest where "rest = (\<lambda>dstClient. case dstClient of
      None \<Rightarrow> logDataDropSampled
    | Some t \<Rightarrow> do {
        dst \<leftarrow> getC t;
        if \<not> cs_udpAddrKnown dst then logDataDropSampled
        else if cs_roomId dst = 0 \<or> cs_roomId dst \<noteq> cs_roomId c then logDataDropSampled
        else sendEncryptedUdp C fd t plain (cs_udpAddr dst)
      })"
  have run: "run_state (relayUdp C fd addr src plain) s =
      run_state (do { d \<leftarrow> findClientByPeerId (readU32BE (drop 6 plain)); rest d }) s1"
    unfolding rest_def s1_def relayUdp_def Let_def run_getC cc using ok by (auto simp: modC_def modify_def)
  have io: "sv_io s1 = sv_io s" by (simp add: s1_def)
  show ?thesis
  proof (cases rule: findClient_peer_cases [of "readU32BE (drop 6 plain)" s1])
    case (1 t dst)
    then have r: "run_state (relayUdp C fd addr src plain) s = run_state (rest (Some t)) s1" unfolding run by simp
    show ?thesis
    proof (cases "\<not> cs_udpAddrKnown dst \<or> cs_roomId dst = 0 \<or> cs_roomId dst \<noteq> cs_roomId c")
      case True
      then show ?thesis unfolding r rest_def using 1(2) io by (auto simp: getC_def gets_def clientOf_def)
    next
      case False
      then have "run_state (rest (Some t)) s1 = run_state (sendEncryptedUdp C fd t plain (cs_udpAddr dst)) s1"
        unfolding rest_def using 1(2) by (auto simp: getC_def gets_def clientOf_def)
      moreover have "udp_dest s1 c plain t dst" using 1 False ok by (auto simp: udp_dest_def)
      ultimately show ?thesis unfolding r using sendUdp_io [OF 1(2), of C fd plain "cs_udpAddr dst"] io by auto
    qed
  next
    case (2 m)
    then show ?thesis unfolding run rest_def using io by simp
  qed
qed

text \<open>The tables once a datagram from \<open>addr\<close> has been opened as one of session \<open>src\<close>.\<close>

definition udp_opened :: "crypto \<Rightarrow> bytes \<Rightarrow> sockaddr \<Rightarrow> int \<Rightarrow> SignalServer \<Rightarrow> SignalServer" where
  "udp_opened C buf addr src s = s\<lparr>sv_clients := om_adj src (\<lambda>c. c\<lparr>
     cs_udpCipher := snd (decryptFrame C (drop (1 + SECURE_SESSION_ID_SIZE) buf) [] (cs_udpCipher c)),
     cs_udpAddr := addr, cs_udpAddrKnown := True\<rparr>) (sv_clients s)\<rparr>"

text \<open>
  C26. UDP packets stay inside the room: handling a datagram either sends nothing, or sends
  exactly one packet. Then the datagram opened under the key of the live, authenticated
  session whose number it carries, its header names that session's own peer number as the
  source, and the one packet sent carries the same plaintext, sealed for the addressed peer,
  which is live, authenticated and in the sender's room, and goes to that peer's last known
  address (the address of the datagram when a peer writes to itself).
\<close>

theorem udp_relay_in_room:
  fixes C fd addr buf s
  defines "s' \<equiv> snd (run_state (handleUdpPacket C fd addr buf) s)"
  shows "sv_io s' = sv_io s \<or>
    (\<exists>src c plain t dst. udp_source C s buf src c plain \<and>
       udp_dest (udp_opened C buf addr src s) c plain t dst \<and>
       sv_io s' = sv_io s @ [SendUdp fd (cs_udpAddr dst) (udp_packet C dst plain)])"
proof (cases "buf = [] \<or> buf ! 0 \<noteq> UDP_ENCRYPTED")
  case True
  then show ?thesis by (auto simp: s'_def handleUdpPacket_def skip_def)
next
  case enc: False
  show ?thesis
  proof (cases rule: decryptUdp_cases [of C s buf])
    case (1 src c plain k)
    let ?s1 = "s\<lparr>sv_clients := om_adj src (\<lambda>c. c\<lparr>cs_udpCipher := k\<rparr>) (sv_clients s)\<rparr>"
    have k: "k = snd (decryptFrame C (drop (1 + SECURE_SESSION_ID_SIZE) buf) [] (cs_udpCipher c))" using 1(3) .
    have c: "map_of (sv_clients s) src = Some c" using 1(1) by (simp add: udp_source_def)
    have same: "udp_dest (?s1\<lparr>sv_clients := om_adj src (\<lambda>c. c\<lparr>cs_udpAddr := addr, cs_udpAddrKnown := True\<rparr>) (sv_clients ?s1)\<rparr>)
        (c\<lparr>cs_udpCipher := k\<rparr>) plain t dst = udp_dest (udp_opened C buf addr src s) c plain t dst" for t dst
      using c k by (simp add: udp_dest_def udp_opened_def)
    have "s' = snd (run_state (if plain \<noteq> [] \<and> plain ! 0 = UDP_KEEPALIVE
            then modC src (\<lambda>c. c\<lparr>cs_udpAddr := addr, cs_udpAddrKnown := True\<rparr>)
            else if length plain < sizeof_UdpRelayHeader then logDataDropSampled
            else if plain ! 0 \<noteq> UDP_RELAY_DATA \<and> plain ! 0 \<noteq> UDP_RAW_RELAY_DATA then logDataDropSampled
            else relayUdp C fd addr src plain) ?s1)"
      using enc 1(2) by (simp add: s'_def handleUdpPacket_def)
    then consider "sv_io s' = sv_io s" | "s' = snd (run_state (relayUdp C fd addr src plain) ?s1)"
      by (auto simp: modC_def modify_def split: if_splits)
    then show ?thesis
    proof cases
      case 2
      have "map_of (sv_clients ?s1) src = Some (c\<lparr>cs_udpCipher := k\<rparr>)" using c by simp
      from relayUdp_io [OF this, of C fd addr plain] have "sv_io s' = sv_io s \<or>
          (\<exists>t dst. udp_dest (udp_opened C buf addr src s) c plain t dst \<and>
             sv_io s' = sv_io s @ [SendUdp fd (cs_udpAddr dst) (udp_packet C dst plain)])"
        unfolding same 2 by simp
      then show ?thesis using 1(1) by blast
    qed simp
  next
    case (2 s1)
    then show ?thesis using enc by (simp add: s'_def handleUdpPacket_def)
  qed
qed

end
