(* ===== verification/Overlay_Path.thy ===== *)
theory Overlay_Path
  imports Cli_Overlay Server_Relay
begin

text \<open>
  The whole way of an overlay packet: from the adapter of one member through its tunnel manager,
  the relay server and the tunnel manager of another member to that member's adapter.
\<close>

section \<open>The relay server\<close>

definition serves :: "SignalServer \<Rightarrow> int \<Rightarrow> ClientSession \<Rightarrow> bool" where
  "serves s t c \<longleftrightarrow> map_of (sv_clients s) t = Some c \<and> cs_tcpFd c = t \<and> cs_alive c \<and> cs_secureEnabled c \<and> cs_serverAuthOk c \<and>
     cs_state c = InRoom \<and> cs_secureSessionId c \<noteq> 0 \<and> map_of (sv_secureSessionMap s) (cs_secureSessionId c) = Some t \<and>
     cs_peerId c \<noteq> 0 \<and> map_of (sv_peerMap s) (cs_peerId c) = Some t \<and> cs_roomId c \<noteq> 0 \<and> sc_initialized (cs_udpCipher c)"

lemma serves_found:
  assumes "serves s t c"
  shows "run_state (findClientBySecureSessionId (cs_secureSessionId c)) s = (Some t, s)"
    and "run_state (findClientByPeerId (cs_peerId c)) s = (Some t, s)"
  using assms by (simp_all add: serves_def findClientBySecureSessionId_def findClientOwnerBySecureSessionId_def
      findClientByPeerId_def findClientOwnerByPeerId_def getC_def gets_def clientOf_def sessionHasPeerIdentity_def)

text \<open>Only the ciphers and the addresses of the sessions move.\<close>

lemma serves_adj:
  assumes "serves s t c" "sc_initialized k"
  shows "serves (s\<lparr>sv_clients := om_adj t (\<lambda>c. c\<lparr>cs_udpCipher := k, cs_udpAddr := a, cs_udpAddrKnown := b\<rparr>) (sv_clients s)\<rparr>) t
    (c\<lparr>cs_udpCipher := k, cs_udpAddr := a, cs_udpAddrKnown := b\<rparr>)"
  using assms by (simp add: serves_def)

lemma serves_other:
  assumes "serves s t c" "t \<noteq> u"
  shows "serves (s\<lparr>sv_clients := om_adj u f (sv_clients s)\<rparr>) t c"
  using assms by (simp add: serves_def)

lemma sendUdp_sealed:
  assumes "serves s t c" "cs_udpAddrKnown c" "sc_sendCounter (cs_udpCipher c) \<noteq> -1"
  defines "k \<equiv> cs_udpCipher c"
  shows "run_state (sendEncryptedUdp C fd t plain a) s = ((),
    s\<lparr>sv_clients := om_adj t (\<lambda>c. c\<lparr>cs_udpCipher := k\<lparr>sc_sendCounter := sc_sendCounter k + 1\<rparr>\<rparr>) (sv_clients s),
      sv_io := sv_io s @ [SendUdp fd a (sealed_text C (cs_secureSessionId c) (sc_sendKey k) (sc_sendNonceSeed k) (sc_sendCounter k) plain)]\<rparr>)"
proof -
  obtain cipher mac where l: "cr_aead_lock C (sc_sendKey k) (buildNonce (sc_sendNonceSeed k) (sc_sendCounter k)) [] plain = (cipher, mac)" by fastforce
  have "encryptFrame C plain [] k = (be64 (sc_sendCounter k) @ cipher @ mac, k\<lparr>sc_sendCounter := sc_sendCounter k + 1\<rparr>)"
    using assms(1,3) l by (simp add: encryptFrame_def Let_def writeU64BE_be64 k_def serves_def)
  moreover have "be64 (sc_sendCounter k) @ cipher @ mac \<noteq> []" by (simp add: be64_def)
  moreover have "sealed C (sc_sendKey k) (sc_sendNonceSeed k) (sc_sendCounter k) plain [] = be64 (sc_sendCounter k) @ cipher @ mac"
    using l by (simp add: sealed_def)
  ultimately show ?thesis using assms(1,2)
    by (simp add: sendEncryptedUdp_def monad_defs clientOf_def syscall_def serves_def flip: k_def)
qed

text \<open>\<open>sealed_by C c ctr msg\<close>: the datagram with that text that the client of the session seals.\<close>

definition sealed_by :: "crypto \<Rightarrow> ClientSession \<Rightarrow> u64 \<Rightarrow> bytes \<Rightarrow> bytes" where
  "sealed_by C c ctr msg = sealed_text C (cs_secureSessionId c) (sc_recvKey (cs_udpCipher c)) (sc_recvNonceSeed (cs_udpCipher c)) ctr msg"

lemma session_opens:
  assumes S: "serves s t c" and C: "aead_correct C" and w: "window_rel acc (cs_udpCipher c)" "window_fresh acc (unat ctr)"
  obtains k where "run_state (decryptUdpPacket C (sealed_by C c ctr msg)) s =
      (Some (t, msg), s\<lparr>sv_clients := om_adj t (\<lambda>c. c\<lparr>cs_udpCipher := k\<rparr>) (sv_clients s)\<rparr>)"
    "window_rel (insert (unat ctr) acc) k" "sc_recvKey k = sc_recvKey (cs_udpCipher c)" "sc_recvNonceSeed k = sc_recvNonceSeed (cs_udpCipher c)" "sc_initialized k"
proof -
  let ?k = "cs_udpCipher c"
  let ?f = "sealed C (sc_recvKey ?k) (sc_recvNonceSeed ?k) ctr msg []"
  have i: "sc_initialized ?k" using S by (simp add: serves_def)
  obtain k where d: "decryptFrame C ?f [] ?k = (Some msg, k)" using decrypt_sealed [OF C w(1) i w(2), of msg "[]"] by (metis prod.collapse)
  have "window_rel (insert (unat ctr) acc) k" using decryptFrame_spec(2) [OF w(1) i, of C ?f "[]"] d by simp
  moreover have "length (writeU32BE sid) = 4" for sid by (simp add: writeU32BE_def)
  then have "run_state (decryptUdpPacket C (sealed_by C c ctr msg)) s =
      (Some (t, msg), s\<lparr>sv_clients := om_adj t (\<lambda>c. c\<lparr>cs_udpCipher := k\<rparr>) (sv_clients s)\<rparr>)"
    using sealed_size [OF C, of "sc_recvKey ?k" "sc_recvNonceSeed ?k" ctr msg "[]"] d serves_found(1) [OF S] S
    by (simp add: sealed_by_def decryptUdpPacket_def getC_def gets_def clientOf_def modC_def modify_def serves_def)
  ultimately show ?thesis using that [of k] decryptFrame_keys [OF d] i by simp
qed

text \<open>What a relay tunnel from one member to another sends.\<close>

definition relay_text :: "u32 \<Rightarrow> u32 \<Rightarrow> bytes \<Rightarrow> bool" where
  "relay_text src dst msg \<longleftrightarrow> sizeof_UdpRelayHeader \<le> length msg \<and> msg ! 0 = UDP_RAW_RELAY_DATA \<and> msg ! 1 \<in> {TRAFFIC_TCP, TRAFFIC_UDP} \<and>
     readU32BE (drop 2 msg) = src \<and> readU32BE (drop 6 msg) = dst"

lemma tunnel_text:
  assumes "relay_tunnel src dst cls mtu t" "cls \<in> {TRAFFIC_TCP, TRAFFIC_UDP}"
  shows "relay_text src dst (rawDatagram t f)"
proof -
  have "length (be32 v) = 4" for v by (simp add: be32_def)
  then show ?thesis using assms by (auto simp: relay_text_def relay_tunnel_def rawDatagram_def)
qed

lemma datagram_relayed:
  fixes s addr fd
  assumes A: "serves s ta ca" and B: "serves s tb cb" and "ta \<noteq> tb" and room: "cs_roomId ca = cs_roomId cb" "cs_udpAddrKnown cb"
    and C: "aead_correct C" and w: "window_rel acc (cs_udpCipher ca)" "window_fresh acc (unat ctr)" and ctr: "sc_sendCounter (cs_udpCipher cb) \<noteq> -1"
    and msg: "relay_text (cs_peerId ca) (cs_peerId cb) msg"
  defines "s' \<equiv> snd (run_state (handleUdpPacket C fd addr (sealed_by C ca ctr msg)) s)" and "kb \<equiv> cs_udpCipher cb"
  obtains ka where "serves s' ta (ca\<lparr>cs_udpCipher := ka, cs_udpAddr := addr, cs_udpAddrKnown := True\<rparr>)"
    "serves s' tb (cb\<lparr>cs_udpCipher := kb\<lparr>sc_sendCounter := sc_sendCounter kb + 1\<rparr>\<rparr>)"
    "window_rel (insert (unat ctr) acc) ka" "sc_recvKey ka = sc_recvKey (cs_udpCipher ca)" "sc_recvNonceSeed ka = sc_recvNonceSeed (cs_udpCipher ca)"
    "sv_io s' = sv_io s @ [SendUdp fd (cs_udpAddr cb)
       (sealed_text C (cs_secureSessionId cb) (sc_sendKey kb) (sc_sendNonceSeed kb) (sc_sendCounter kb) msg)]"
proof -
  obtain ka where d: "run_state (decryptUdpPacket C (sealed_by C ca ctr msg)) s =
      (Some (ta, msg), s\<lparr>sv_clients := om_adj ta (\<lambda>c. c\<lparr>cs_udpCipher := ka\<rparr>) (sv_clients s)\<rparr>)"
      "window_rel (insert (unat ctr) acc) ka" "sc_recvKey ka = sc_recvKey (cs_udpCipher ca)" "sc_recvNonceSeed ka = sc_recvNonceSeed (cs_udpCipher ca)" "sc_initialized ka"
    by (rule session_opens [OF A C w])
  let ?s = "s\<lparr>sv_clients := om_adj ta (\<lambda>c. c\<lparr>cs_udpCipher := ka\<rparr>) (sv_clients s)\<rparr>"
  let ?s2 = "?s\<lparr>sv_clients := om_adj ta (\<lambda>c. c\<lparr>cs_udpAddr := addr, cs_udpAddrKnown := True\<rparr>) (sv_clients ?s)\<rparr>"
  let ?ca = "ca\<lparr>cs_udpCipher := ka, cs_udpAddr := addr, cs_udpAddrKnown := True\<rparr>"
  have ca: "clientOf ta ?s = ca\<lparr>cs_udpCipher := ka\<rparr>" using A by (simp add: serves_def clientOf_def)
  have A2: "serves ?s2 ta ?ca" using A d(5) by (simp add: serves_def)
  have B2: "serves ?s2 tb cb" using B assms(3) by (simp add: serves_def)
  have cb: "clientOf tb ?s2 = cb" using B2 by (simp add: serves_def clientOf_def)
  have nz: "cs_peerId cb \<noteq> 0" "cs_roomId ca \<noteq> 0" "cs_roomId cb \<noteq> 0" using A B by (simp_all add: serves_def)
  have "s' = snd (run_state (relayUdp C fd addr ta msg) ?s)"
    using msg d(1) unfolding s'_def by (auto simp: handleUdpPacket_def sealed_by_def relay_text_def)
  also have "run_state (relayUdp C fd addr ta msg) ?s = run_state (sendEncryptedUdp C fd tb msg (cs_udpAddr cb)) ?s2"
    unfolding relayUdp_def Let_def run_getC ca using serves_found(2) [OF B2] msg nz room
    by (auto simp: relay_text_def modC_def modify_def getC_def gets_def cb [simplified])
  finally have s': "s' = ?s2\<lparr>sv_clients := om_adj tb (\<lambda>c. c\<lparr>cs_udpCipher := kb\<lparr>sc_sendCounter := sc_sendCounter kb + 1\<rparr>\<rparr>) (sv_clients ?s2),
      sv_io := sv_io ?s2 @ [SendUdp fd (cs_udpAddr cb) (sealed_text C (cs_secureSessionId cb) (sc_sendKey kb) (sc_sendNonceSeed kb) (sc_sendCounter kb) msg)]\<rparr>"
    using sendUdp_sealed [OF B2 room(2) ctr] by (simp add: kb_def)
  have "serves s' ta ?ca" using A2 assms(3) unfolding s' by (simp add: serves_def)
  moreover have "serves s' tb (cb\<lparr>cs_udpCipher := kb\<lparr>sc_sendCounter := sc_sendCounter kb + 1\<rparr>\<rparr>)" using B2 unfolding s' by (simp add: serves_def kb_def)
  ultimately show ?thesis using that [of ka] d(2-4) by (simp add: s')
qed

text \<open>The server handles datagrams one after the other.\<close>

definition relay_all :: "crypto \<Rightarrow> int \<Rightarrow> sockaddr \<Rightarrow> bytes list \<Rightarrow> SignalServer \<Rightarrow> SignalServer" where
  "relay_all C fd addr = fold (\<lambda>d s. snd (run_state (handleUdpPacket C fd addr d) s))"

lemma enumerate_shift: "enumerate (Suc n) xs = map (apfst Suc) (enumerate n xs)"
  by (simp add: enumerate_Suc_eq apfst_def map_prod_def)

lemma datagrams_relayed:
  assumes "serves s ta ca" "serves s tb cb" "ta \<noteq> tb" "cs_roomId ca = cs_roomId cb" "cs_udpAddrKnown cb" "aead_correct C"
    and "window_rel acc (cs_udpCipher ca)" "\<forall>n \<in> acc. n < k + 2048" "distinct (map fst xs)"
    and "\<forall>(ctr, msg) \<in> set xs. k \<le> unat ctr \<and> unat ctr < k + 2048 \<and> unat ctr \<notin> acc \<and> relay_text (cs_peerId ca) (cs_peerId cb) msg"
    and "unat (sc_sendCounter (cs_udpCipher cb)) + length xs < 2 ^ 64"
  shows "sv_io (relay_all C fd addr (map (\<lambda>(ctr, msg). sealed_by C ca ctr msg) xs) s) = sv_io s @
    map (\<lambda>(j, msg). SendUdp fd (cs_udpAddr cb) (sealed_text C (cs_secureSessionId cb) (sc_sendKey (cs_udpCipher cb)) (sc_sendNonceSeed (cs_udpCipher cb))
      (sc_sendCounter (cs_udpCipher cb) + of_nat j) msg)) (enumerate 0 (map snd xs))"
  using assms
proof (induction xs arbitrary: s ca cb acc)
  case Nil
  then show ?case by (simp add: relay_all_def)
next
  case (Cons x xs)
  obtain ctr msg where x: "x = (ctr, msg)" by fastforce
  let ?kb = "cs_udpCipher cb" and ?s = "snd (run_state (handleUdpPacket C fd addr (sealed_by C ca ctr msg)) s)"
  have fresh: "window_fresh acc (unat ctr)" using Cons.prems(8,10) x by (auto simp: window_fresh_def)
  have ne: "sc_sendCounter ?kb \<noteq> -1" using Cons.prems(11) by (auto simp: unsigned_minus_1_eq_mask mask_eq_exp_minus_1)
  then have n: "unat (sc_sendCounter ?kb + 1) = Suc (unat (sc_sendCounter ?kb))" by (rule unat_plus_one)
  obtain ka where ka: "serves ?s ta (ca\<lparr>cs_udpCipher := ka, cs_udpAddr := addr, cs_udpAddrKnown := True\<rparr>)" (is "serves _ _ ?ca")
      "serves ?s tb (cb\<lparr>cs_udpCipher := ?kb\<lparr>sc_sendCounter := sc_sendCounter ?kb + 1\<rparr>\<rparr>)" (is "serves _ _ ?cb")
      "window_rel (insert (unat ctr) acc) ka" "sc_recvKey ka = sc_recvKey (cs_udpCipher ca)" "sc_recvNonceSeed ka = sc_recvNonceSeed (cs_udpCipher ca)"
      "sv_io ?s = sv_io s @ [SendUdp fd (cs_udpAddr cb) (sealed_text C (cs_secureSessionId cb) (sc_sendKey ?kb) (sc_sendNonceSeed ?kb) (sc_sendCounter ?kb) msg)]"
    by (rule datagram_relayed [OF Cons.prems(1-7) fresh ne, of msg fd addr]) (use Cons.prems(10) x in auto)
  have "sealed_by C ?ca = sealed_by C ca" using ka(4,5) by (simp add: sealed_by_def fun_eq_iff)
  moreover have "\<forall>n \<in> insert (unat ctr) acc. n < k + 2048" using Cons.prems(8,10) x by auto
  moreover have "\<forall>(c, msg) \<in> set xs. k \<le> unat c \<and> unat c < k + 2048 \<and> unat c \<notin> insert (unat ctr) acc \<and> relay_text (cs_peerId ?ca) (cs_peerId ?cb) msg"
  proof (clarify, intro conjI)
    fix c m
    assume in_xs: "(c, m) \<in> set xs"
    then have "c \<noteq> ctr" using Cons.prems(9) x by force
    then show "unat c \<notin> insert (unat ctr) acc" using Cons.prems(10) in_xs by (auto simp: word_unat_eq_iff)
  qed (use Cons.prems(10) in auto)
  ultimately have "sv_io (relay_all C fd addr (map (\<lambda>(ctr, msg). sealed_by C ca ctr msg) xs) ?s) = sv_io ?s @
      map (\<lambda>(j, msg). SendUdp fd (cs_udpAddr cb) (sealed_text C (cs_secureSessionId cb) (sc_sendKey ?kb) (sc_sendNonceSeed ?kb)
        (sc_sendCounter ?kb + 1 + of_nat j) msg)) (enumerate 0 (map snd xs))"
    using Cons.IH [OF ka(1,2), of "insert (unat ctr) acc"] ka(3) Cons.prems(3-6,9,11) n by simp
  then show ?case using ka(6) x by (simp add: relay_all_def enumerate_shift comp_def case_prod_unfold add.assoc)
qed

section \<open>From adapter to adapter\<close>

lemma perm_two:
  assumes "mset ys = mset [f 0, f 1]"
  obtains j :: nat where "j < 2" "ys = [f j, f (1 - j)]"
proof -
  obtain c d where "ys = [c, d]" using mset_eq_length [OF assms] by (auto simp: length_Suc_conv)
  then have "ys = [f 0, f 1] \<or> ys = [f 1, f 0]" using assms by (auto simp: add_eq_conv_ex)
  then show thesis using that [of 0] that [of 1] by auto
qed

lemma window_next:
  assumes "\<forall>n \<in> acc. n < unat (k :: u64)" "unat k + 2 < 2 ^ 64" "u < 2"
  shows "window_fresh acc (unat (k + of_nat u))" "window_fresh (insert (unat (k + of_nat u)) acc) (unat (k + of_nat (1 - u)))"
proof -
  have "unat (k + of_nat v) = unat k + v" if "v < 2" for v using that assms(2) by (subst unat_add_lem [THEN iffD1]) (auto simp: unat_of_nat_small)
  then show "window_fresh acc (unat (k + of_nat u))" "window_fresh (insert (unat (k + of_nat u)) acc) (unat (k + of_nat (1 - u)))"
    using assms(1,3) by (fastforce simp: window_fresh_def less_2_cases_iff)+
qed

lemma shuffled_arrival:
  assumes L: "linked m i vip cls a x t" and s: "relay_tunnel i (tm_myPeerId m) cls (tm_roomMtu m) s" and C: "aead_correct (te_crypto E)"
    and w: "window_rel acc (tm_udpCipher m)" "\<forall>n \<in> acc. n < unat k" "unat k + 2 < 2 ^ 64"
    and p: "20 \<le> length p" "length p \<le> unat (tm_roomMtu m)" "admitted m vip p" "te_tunWrite E p"
    and t: "ru_reassembly t = []" "ru_reassemblyBytes t = 0"
    and ms: "mset ms = mset (map (rawDatagram s) (fragments (budget s) i' p))" and ys: "mset ys = mset (enumerate 0 ms)"
  shows "tm_io (fold (onDatagram E) (map (\<lambda>(u, msg). sealed_for (te_crypto E) m (k + of_nat u) msg) ys) m) = tm_io m @ [TunWrite p]"
proof -
  let ?d = "\<lambda>j. rawDatagram s (fragment (budget s) i' p j)"
  note fr = window_next [OF w(2,3)]
  consider (one) "length (pieces (budget s) p) = 1" | (two) "length (pieces (budget s) p) = 2" using pieces_1_2 by blast
  then show ?thesis
  proof cases
    case one
    then have "ms = [?d 0]" using ms by (simp add: fragments_def)
    then have "ys = [(0, ?d 0)]" using ys by simp
    then show ?thesis using packet_arrives_whole [OF L s C w(1) fr(1) p(1,2) one p(3,4), of 0 i'] by simp
  next
    case two
    obtain j where j: "j < 2" "ms = [?d j, ?d (1 - j)]"
      by (rule perm_two [of ms ?d]) (use ms two in \<open>auto simp: fragments_def numeral_2_eq_2\<close>)
    define h where "h u = (if u = 0 then j else 1 - j)" for u :: nat
    obtain u where u: "u < 2" "ys = [(u, ?d (h u)), (1 - u, ?d (h (1 - u)))]"
      by (rule perm_two [of ys "\<lambda>u. (u, ?d (h u))"]) (use ys j in \<open>auto simp: h_def\<close>)
    have h: "h u < 2" "h (1 - u) = 1 - h u" using j(1) u(1) by (auto simp: h_def)
    show ?thesis using packet_arrives_split [OF L s C w(1) fr(1) [OF u(1)] fr(2) [OF u(1)] p(1,2) two h(1) p(3,4) t, of i'] unfolding u(2) h(2) by simp
  qed
qed

text \<open>
  \<open>joined m s t c\<close>: the session \<open>c\<close> of the server, on socket \<open>t\<close>, is that of the manager \<open>m\<close>.
  Each end has the keys of the other, and the counter of each is ahead of what the other has
  accepted and not near its end.
\<close>

definition ahead :: "SecureFrameCipher \<Rightarrow> SecureFrameCipher \<Rightarrow> bool" where
  "ahead k k' \<longleftrightarrow> sc_sendKey k = sc_recvKey k' \<and> sc_sendNonceSeed k = sc_recvNonceSeed k' \<and> unat (sc_sendCounter k) + 2 < 2 ^ 64 \<and>
     (\<exists>acc. window_rel acc k' \<and> (\<forall>n \<in> acc. n < unat (sc_sendCounter k)))"

definition joined :: "('k, 'a) CliTunnelManager_scheme \<Rightarrow> SignalServer \<Rightarrow> int \<Rightarrow> ClientSession \<Rightarrow> bool" where
  "joined m s t c \<longleftrightarrow> serves s t c \<and> cs_secureSessionId c = tm_secureSessionId m \<and> cs_peerId c = tm_myPeerId m \<and> cs_udpAddrKnown c \<and>
     ahead (tm_udpCipher m) (cs_udpCipher c) \<and> ahead (cs_udpCipher c) (tm_udpCipher m)"

text \<open>A packet from the member with the one manager to the member with the other.\<close>

definition packet_between :: "('k, 'a) CliTunnelManager_scheme \<Rightarrow> ('l, 'b) CliTunnelManager_scheme \<Rightarrow> u8 \<Rightarrow> bytes \<Rightarrow> bool" where
  "packet_between mA mB cls p \<longleftrightarrow> overlayIsValid (validateOutboundOverlayIpv4 (Some p) (tm_roomMtu mA) (tm_myVirtualIP mA)) \<and>
     extractDstIP p = tm_myVirtualIP mB \<and> trafficClassFromIpPacket p = cls \<and>
     tm_myVirtualIP mB \<noteq> 0 \<and> \<not> isBroadcast (tm_myVirtualIP mB) \<and> tm_myVirtualIP mB \<noteq> VNET_BROADCAST"

lemma packet_between_size:
  assumes "packet_between mA mB cls p" "relay_tunnel src dst cls' (tm_roomMtu mA) t" "tm_roomMtu mB = tm_roomMtu mA"
  shows "20 \<le> length p" "length p \<le> unat (tm_roomMtu mA)" "admitted mB (tm_myVirtualIP mA) p"
proof -
  note v = assms(1) [unfolded packet_between_def validateOutbound_iff]
  have "tm_roomMtu mA = 1280 \<or> tm_roomMtu mA = 1400 \<or> tm_roomMtu mA = 1420" using assms(2) by (auto simp: relay_tunnel_def mtu_ok_def)
  then have "normalizeRoomMtu (uint (tm_roomMtu mA)) = tm_roomMtu mA" by (auto simp: normalizeRoomMtu_def isValidRoomMtuValue_def)
  then show "20 \<le> length p" "length p \<le> unat (tm_roomMtu mA)" using v by (auto simp: structure_none_iff)
  show "admitted mB (tm_myVirtualIP mA) p" using v assms(3) by (simp add: admitted_def inbound_rule)
qed

text \<open>The way from the sender to the server, in any order, and on towards the receiver.\<close>

lemma relay_leg:
  assumes "ahead k (cs_udpCipher ca)" "serves s ta ca" "serves s tb cb" "ta \<noteq> tb" "cs_roomId ca = cs_roomId cb" "cs_udpAddrKnown cb" "aead_correct C"
    and "\<forall>msg \<in> set msgs. relay_text (cs_peerId ca) (cs_peerId cb) msg" "length msgs \<le> 2" "unat (sc_sendCounter (cs_udpCipher cb)) + 2 < 2 ^ 64"
    and ds: "mset ds = mset (map (\<lambda>(j, msg). sealed_by C ca (sc_sendCounter k + of_nat j) msg) (enumerate 0 msgs))"
  obtains ms where "mset ms = mset msgs"
    "sv_io (relay_all C fd addr ds s) = sv_io s @ map (\<lambda>(j, msg). SendUdp fd (cs_udpAddr cb)
       (sealed_text C (cs_secureSessionId cb) (sc_sendKey (cs_udpCipher cb)) (sc_sendNonceSeed (cs_udpCipher cb)) (sc_sendCounter (cs_udpCipher cb) + of_nat j) msg))
       (enumerate 0 ms)"
proof -
  let ?ctr = "sc_sendCounter k"
  obtain acc where acc: "window_rel acc (cs_udpCipher ca)" "\<forall>n \<in> acc. n < unat ?ctr" and end': "unat ?ctr + 2 < 2 ^ 64"
    using assms(1) by (auto simp: ahead_def)
  obtain xs where xs: "ds = map (\<lambda>(j, msg). sealed_by C ca (?ctr + of_nat j) msg) xs" "mset xs = mset (enumerate 0 msgs)"
    using mset_mapD [OF ds] by blast
  let ?xs = "map (\<lambda>(j, msg). (?ctr + of_nat j, msg)) xs"
  have "mset (map snd xs) = mset (map snd (enumerate 0 msgs))" "mset (map fst xs) = mset (map fst (enumerate 0 msgs))"
    by (simp_all only: mset_map xs(2))
  then have perm: "mset (map snd xs) = mset msgs" "mset (map fst xs) = mset [0..<length msgs]" by simp_all
  have ctr: "unat (?ctr + of_nat j) = unat ?ctr + j" if "j < 2" for j
    using that end' by (subst unat_add_lem [THEN iffD1]) (auto simp: unat_of_nat_small)
  have "set (map fst xs) = {0..<length msgs}" "set (map snd xs) = set msgs" using perm [THEN mset_eq_setD] by simp_all
  then have in_xs: "j < 2 \<and> msg \<in> set msgs" if "(j, msg) \<in> set xs" for j msg
    using that assms(9) imageI [OF that, of fst] imageI [OF that, of snd] by simp
  then have ctrs: "unat (?ctr + of_nat j) = unat ?ctr + j" if "j \<in> fst ` set xs" for j using that ctr by auto
  have "distinct (map fst xs)" using perm(2) mset_eq_imp_distinct_iff by (metis distinct_upt)
  moreover have "inj_on (\<lambda>j. ?ctr + of_nat j) (fst ` set xs)" by (rule inj_onI) (use ctrs in \<open>metis add_left_cancel\<close>)
  ultimately have "distinct (map fst ?xs)" by (simp add: distinct_map comp_def case_prod_unfold) (auto simp: inj_on_def)
  moreover have "\<forall>(c, msg) \<in> set ?xs. unat ?ctr \<le> unat c \<and> unat c < unat ?ctr + 2048 \<and> unat c \<notin> acc \<and> relay_text (cs_peerId ca) (cs_peerId cb) msg"
  proof clarify
    fix c msg
    assume "(c, msg) \<in> set ?xs"
    then obtain j where "c = ?ctr + of_nat j" "(j, msg) \<in> set xs" by auto
    with in_xs ctr have "unat c = unat ?ctr + j" "j < 2" "msg \<in> set msgs" by blast+
    then show "unat ?ctr \<le> unat c \<and> unat c < unat ?ctr + 2048 \<and> unat c \<notin> acc \<and> relay_text (cs_peerId ca) (cs_peerId cb) msg"
      using acc(2) assms(8) by auto
  qed
  moreover have "length ?xs \<le> 2" using mset_eq_length [OF perm(1)] assms(9) by simp
  ultimately have "sv_io (relay_all C fd addr (map (\<lambda>(ctr, msg). sealed_by C ca ctr msg) ?xs) s) = sv_io s @ map (\<lambda>(j, msg). SendUdp fd (cs_udpAddr cb)
      (sealed_text C (cs_secureSessionId cb) (sc_sendKey (cs_udpCipher cb)) (sc_sendNonceSeed (cs_udpCipher cb)) (sc_sendCounter (cs_udpCipher cb) + of_nat j) msg))
      (enumerate 0 (map snd ?xs))"
    using acc(2) assms(10) by (intro datagrams_relayed [OF assms(2-7) acc(1), of "unat ?ctr"]) auto
  then show thesis using that [of "map snd xs"] perm(1) unfolding xs(1) by (simp add: comp_def case_prod_unfold)
qed

lemma received_leg:
  assumes L: "linked m i vip cls a x t" and s: "relay_tunnel i (tm_myPeerId m) cls (tm_roomMtu m) u" and C: "aead_correct (te_crypto E)"
    and k: "ahead k (tm_udpCipher m)"
    and p: "20 \<le> length p" "length p \<le> unat (tm_roomMtu m)" "admitted m vip p" "te_tunWrite E p" and t: "ru_reassembly t = []" "ru_reassemblyBytes t = 0"
    and ms: "mset ms = mset (map (rawDatagram u) (fragments (budget u) i' p))"
    and es: "mset es = mset (map (\<lambda>(j, msg). sealed_text (te_crypto E) (tm_secureSessionId m) (sc_sendKey k) (sc_sendNonceSeed k) (sc_sendCounter k + of_nat j) msg)
      (enumerate 0 ms))"
  shows "tm_io (onUdpReadable E (map (\<lambda>d. (d, tm_serverIP m, tm_serverPort m)) es) m) = tm_io m @ [TunWrite p]"
proof -
  let ?f = "\<lambda>(j, msg). sealed_text (te_crypto E) (tm_secureSessionId m) (sc_sendKey k) (sc_sendNonceSeed k) (sc_sendCounter k + of_nat j) msg"
  obtain acc where acc: "window_rel acc (tm_udpCipher m)" "\<forall>n \<in> acc. n < unat (sc_sendCounter k)" "unat (sc_sendCounter k) + 2 < 2 ^ 64"
    and keys: "sc_sendKey k = sc_recvKey (tm_udpCipher m)" "sc_sendNonceSeed k = sc_recvNonceSeed (tm_udpCipher m)" using k by (auto simp: ahead_def)
  obtain ys where ys: "es = map ?f ys" "mset ys = mset (enumerate 0 ms)" using mset_mapD [OF es] by blast
  have fd: "tm_udpFd m \<noteq> SOCK_INVALID" using L by (simp add: linked_def can_send_def)
  let ?es = "map (\<lambda>d. (d, tm_serverIP m, tm_serverPort m)) es"
  have "takeWhile (\<lambda>d. fst d \<noteq> []) ?es = ?es" unfolding takeWhile_eq_all_conv ys(1) by auto
  moreover have "?es = map (\<lambda>(u, msg). sealed_for (te_crypto E) m (sc_sendCounter k + of_nat u) msg) ys"
    unfolding ys(1) by (simp add: sealed_for_def keys case_prod_unfold)
  ultimately have "onUdpReadable E ?es m = fold (onDatagram E) (map (\<lambda>(u, msg). sealed_for (te_crypto E) m (sc_sendCounter k + of_nat u) msg) ys) m"
    using fd by (simp only: onUdpReadable_def if_False)
  then show ?thesis using shuffled_arrival [OF L s C acc p t ms ys(2)] by simp
qed


text \<open>Two clients that have entered a room with raw UDP transports, and the server they share.\<close>

definition demo_env :: "bytes list app_env" where
  "demo_env = \<lparr>te_now = 100, te_crypto = demo_crypto, te_cm256 = xor_code, te_kcp = demo_kcp, te_sendto = \<lambda>d. (int (length d), 0),
     te_socket = (3, True, True, 5000), te_tunWrite = \<lambda>_. True, te_channelUp = True, te_onTunnelDead = \<lambda>_ _ m. m\<rparr>"

definition raw_policy :: RoomTrafficPolicy where
  "raw_policy = \<lparr>tp_transportMode = MODE_RELAY_RAW_UDP, tp_fecMode = FEC_NONE, tp_kcpProfile = KCP_PROFILE_REALTIME\<rparr>"

definition demo_end :: "u32 \<Rightarrow> u32 \<Rightarrow> bytes list CliApp" where
  "demo_end i j = app_run (map (Pair demo_env) [LoginDone i, Endpoint 0x01020304 4000, SecureSession (i + 20) (replicate 32 (ucast i)),
     RoomAnswered True 3 (0x0A0A0000 + i) raw_policy raw_policy 1400 [\<lparr>pi_peerId = j, pi_virtualIP = 0x0A0A0000 + j, pi_name = []\<rparr>],
     AdapterReady True demo_adapter, RelayIsReady j])"

definition demo_session :: "u32 \<Rightarrow> ClientSession" where
  "demo_session i = newClientSession\<lparr>cs_tcpFd := uint i + 10, cs_peerId := i, cs_roomId := 3, cs_udpAddr := (i, 6000), cs_udpAddrKnown := True,
     cs_state := InRoom, cs_serverAuthOk := True, cs_secureEnabled := True, cs_secureSessionId := i + 20,
     cs_udpCipher := initCipher demo_crypto (replicate 32 (ucast i)) False ''udp'' newCipher\<rparr>"

definition demo_relay :: SignalServer where
  "demo_relay = newSignalServer\<lparr>sv_clients := [(12, demo_session 2), (13, demo_session 3)],
     sv_secureSessionMap := [(22, 12), (23, 13)], sv_peerMap := [(2, 12), (3, 13)]\<rparr>"

definition links :: "('k, 'a) CliTunnelManager_scheme \<Rightarrow> u32 \<Rightarrow> u32 \<Rightarrow> u8 \<Rightarrow> nat \<Rightarrow> nat \<Rightarrow> bool" where
  "links m i vip cls a x \<longleftrightarrow> running m \<and> tm_udpFd m \<noteq> SOCK_INVALID \<and> tm_secureSessionId m \<noteq> 0 \<and>
     length (tm_secureMaster m) = SECURE_KEY_SIZE \<and> sc_initialized (tm_udpCipher m) \<and> (cls = TRAFFIC_TCP \<or> cls = TRAFFIC_UDP) \<and> tm_tun m \<noteq> None \<and>
     map_of (tm_peerById m) i = Some a \<and> map_of (tm_peerByVIP m) vip = Some a \<and>
     (case map_of (tm_peers m) a of None \<Rightarrow> False | Some p \<Rightarrow> pc_peerId p = i \<and> pc_virtualIP p = vip \<and>
        pcTransport cls p = TRANSPORT_RELAY_RAW_UDP \<and> pc_rawUdpTunnel p ! unat cls = Some x) \<and>
     map_of (tm_rawByPeerClass m) (tunnelKey i cls) = Some x \<and>
     (case map_of (tm_raws m) x of None \<Rightarrow> False | Some r \<Rightarrow> ro_peer r = a \<and> ro_cls r = cls \<and>
        relay_tunnel (tm_myPeerId m) i cls (tm_roomMtu m) (ro_tunnel r) \<and> ru_reassembly (ro_tunnel r) = [] \<and> ru_reassemblyBytes (ro_tunnel r) = 0)"

lemma links_linked:
  assumes "owned (shape m)" "links m i vip cls a x"
  obtains t where "linked m i vip cls a x t" "ru_reassembly t = []" "ru_reassemblyBytes t = 0"
  using assms by (auto simp: links_def linked_def can_send_def split: option.splits)

lemma demo_ends:
  "links (demo_end 2 3) 3 0x0A0A0003 TRAFFIC_UDP 0 2" "links (demo_end 3 2) 2 0x0A0A0002 TRAFFIC_UDP 0 2"
  by code_simp+

lemma demo_settings:
  "(tm_myPeerId (demo_end 2 3), tm_myVirtualIP (demo_end 2 3), tm_roomMtu (demo_end 2 3), tm_secureSessionId (demo_end 2 3)) = (2, 0x0A0A0002, 1400, 22)"
  "(tm_myPeerId (demo_end 3 2), tm_myVirtualIP (demo_end 3 2), tm_roomMtu (demo_end 3 2), tm_secureSessionId (demo_end 3 2)) = (3, 0x0A0A0003, 1400, 23)"
  by code_simp+

lemma demo_ciphers:
  "tm_udpCipher (demo_end 2 3) = initCipher demo_crypto (replicate 32 2) True ''udp'' newCipher\<lparr>sc_sendCounter := 1\<rparr>"
  "tm_udpCipher (demo_end 3 2) = initCipher demo_crypto (replicate 32 3) True ''udp'' newCipher\<lparr>sc_sendCounter := 1\<rparr>"
  by code_simp+

lemma demo_serves: "serves demo_relay 12 (demo_session 2)" "serves demo_relay 13 (demo_session 3)"
  by (simp_all add: serves_def demo_relay_def demo_session_def newSignalServer_def newClientSession_def initCipher_fresh)

lemma demo_packet: "packet_between (demo_end 2 3) (demo_end 3 2) TRAFFIC_UDP sample_packet"
  by code_simp

lemma window_counter [simp]: "window_rel acc (k\<lparr>sc_sendCounter := n\<rparr>) = window_rel acc k"
  by (simp add: window_rel_def)

lemma ahead_init:
  "ahead (initCipher C master side ctx newCipher\<lparr>sc_sendCounter := 1\<rparr>) (initCipher C master (\<not> side) ctx newCipher)"
  "ahead (initCipher C master side ctx newCipher) (initCipher C master (\<not> side) ctx newCipher\<lparr>sc_sendCounter := 1\<rparr>)"
  using initCipher_dual [of C master side ctx] initCipher_fresh [of C master] by (auto simp: ahead_def intro!: exI [of _ "{}"])

lemma demo_joined: "joined (demo_end 2 3) demo_relay 12 (demo_session 2)" "joined (demo_end 3 2) demo_relay 13 (demo_session 3)"
  using demo_serves demo_settings ahead_init [of demo_crypto _ True "''udp''"] ahead_init [of demo_crypto _ False "''udp''"]
  by (simp_all add: joined_def demo_ciphers) (simp_all add: demo_session_def)


end
