(* ===== verification/Signal_Language.thy ===== *)
theory Signal_Language
  imports Signal_Validator
begin

text \<open>
  What the client's message validator accepts.  The locale \<open>token\<close> states the contract of a
  reader: the language of byte strings it consumes, and that each failure records an error
  inside the message.  The locale \<open>sentence\<close> is the contract of a validator's body.  Every
  reader of \<^verbatim>\<open>Cursor\<close> and every message of \<^verbatim>\<open>signal_message_validator.h\<close> is an instance, and
  the languages compose along the code.
\<close>

section \<open>Languages of readers\<close>

definition cu_wf :: "Cursor \<Rightarrow> bool" where
  "cu_wf c \<longleftrightarrow> cu_len c = length (cu_data c) \<and> cu_pos c \<le> cu_len c \<and> cu_error c = ENone"

definition cu_rest :: "Cursor \<Rightarrow> bytes" where
  "cu_rest c = drop (cu_pos c) (cu_data c)"

definition cu_adv :: "nat \<Rightarrow> Cursor \<Rightarrow> Cursor" where
  "cu_adv n c = c\<lparr>cu_pos := cu_pos c + n\<rparr>"

definition cu_failed :: "Cursor \<Rightarrow> Cursor \<Rightarrow> bool" where
  "cu_failed c c' \<longleftrightarrow> cu_error c' \<noteq> ENone \<and> cu_errorOffset c' \<le> cu_len c"

text \<open>
  A token: the reader succeeds exactly if the rest of the message starts with a string of its
  language, which it consumes, and every failure records an error inside the message.
  \<open>base\<close> is a number of bytes known to have been consumed before.
\<close>

locale token =
  fixes read :: "'a reader" and lang :: "'a \<Rightarrow> bytes \<Rightarrow> bool" and base :: nat
  assumes read_iff: "cu_wf c \<Longrightarrow> base \<le> cu_pos c \<Longrightarrow>
      read c = Inr (v, c') \<longleftrightarrow> (\<exists>bs r. lang v bs \<and> cu_rest c = bs @ r \<and> c' = cu_adv (length bs) c)"
    and read_fail: "cu_wf c \<Longrightarrow> base \<le> cu_pos c \<Longrightarrow> read c = Inl c' \<Longrightarrow> cu_failed c c'"
begin

lemma read_cases:
  assumes "cu_wf c" "base \<le> cu_pos c"
  obtains (ok) v bs r where "read c = Inr (v, cu_adv (length bs) c)" "lang v bs" "cu_rest c = bs @ r"
  | (fail) c' where "read c = Inl c'" "cu_failed c c'" "\<And>v bs r. cu_rest c = bs @ r \<Longrightarrow> \<not> lang v bs"
proof (cases "read c")
  case (Inl c')
  then show ?thesis using assms read_iff [of c] read_fail [of c c'] fail by fastforce
next
  case (Inr x)
  then show ?thesis using assms read_iff [of c] ok by (cases x) blast
qed

end

text \<open>A sentence: a validator's body up to its end; it accepts the whole rest or fails.\<close>

locale sentence =
  fixes read :: "unit reader" and lang :: "bytes \<Rightarrow> bool" and base :: nat
  assumes accept_iff: "cu_wf c \<Longrightarrow> base \<le> cu_pos c \<Longrightarrow> (\<exists>c'. read c = Inr ((), c')) \<longleftrightarrow> lang (cu_rest c)"
    and reject: "cu_wf c \<Longrightarrow> base \<le> cu_pos c \<Longrightarrow> read c = Inl c' \<Longrightarrow> cu_failed c c'"
begin

lemma start:
  assumes "base = 0"
  shows "cu_wf (mkCursor (Some d) (length d))" "base \<le> cu_pos (mkCursor (Some d) (length d))"
    "cu_rest (mkCursor (Some d) (length d)) = d" "cu_len (mkCursor (Some d) (length d)) = length d"
  using assms by (simp_all add: cu_wf_def cu_rest_def mkCursor_def)

lemma valid_iff: "base = 0 \<Longrightarrow> mvIsValid (validateWith read (Some d) (length d)) \<longleftrightarrow> lang d"
  using accept_iff [OF start(1,2), of d] start(3) [of d]
  by (auto simp: validateWith_def mvIsValid_def malformed_def mvResult_def mvValid_def split: sum.split)

lemma outcome:
  assumes "base = 0"
  shows "mv_status (validateWith read (Some d) (length d)) = Valid \<or>
     mv_status (validateWith read (Some d) (length d)) = MalformedMsg \<and>
     mv_error (validateWith read (Some d) (length d)) \<noteq> ENone \<and>
     mv_offset (validateWith read (Some d) (length d)) \<le> length d"
  using reject [OF start(1,2) [OF assms], of d] start(4) [OF assms, of d]
  by (auto simp: validateWith_def malformed_def mvResult_def mvValid_def cu_failed_def split: sum.split)

end

lemma cu_wf_adv [simp]: "cu_wf c \<Longrightarrow> cu_rest c = bs @ r \<Longrightarrow> cu_wf (cu_adv (length bs) c)"
proof -
  assume c: "cu_wf c" "cu_rest c = bs @ r"
  then have "length (cu_data c) - cu_pos c = length bs + length r" by (metis cu_rest_def length_append length_drop)
  with c show ?thesis by (auto simp: cu_wf_def cu_adv_def)
qed

lemma cu_rest_adv: "cu_rest (cu_adv n c) = drop n (cu_rest c)"
  by (simp add: cu_rest_def cu_adv_def add.commute)

lemma cu_adv_simps [simp]:
  "cu_pos (cu_adv n c) = cu_pos c + n" "cu_len (cu_adv n c) = cu_len c" "cu_error (cu_adv n c) = cu_error c"
  by (simp_all add: cu_adv_def)

lemma cu_adv_inject: "cu_adv m c = cu_adv n c \<longleftrightarrow> m = n"
  by (metis add_left_cancel cu_adv_simps(1))

lemma cu_failed_adv [simp]: "cu_failed (cu_adv n c) c' = cu_failed c c'"
  by (simp add: cu_failed_def)

lemma cu_adv_adv: "cu_adv m (cu_adv n c) = cu_adv (n + m) c"
  by (simp add: cu_adv_def add.assoc)

definition seqT :: "('a \<Rightarrow> bytes \<Rightarrow> bool) \<Rightarrow> ('a \<Rightarrow> 'b \<Rightarrow> bytes \<Rightarrow> bool) \<Rightarrow> 'b \<Rightarrow> bytes \<Rightarrow> bool" where
  "seqT L M w d \<longleftrightarrow> (\<exists>v b r. L v b \<and> M v w r \<and> d = b @ r)"

definition seqS :: "('a \<Rightarrow> bytes \<Rightarrow> bool) \<Rightarrow> ('a \<Rightarrow> bytes \<Rightarrow> bool) \<Rightarrow> bytes \<Rightarrow> bool" where
  "seqS L M d \<longleftrightarrow> (\<exists>v b r. L v b \<and> M v r \<and> d = b @ r)"

lemma sentence_bind:
  assumes p: "token p L n" and k: "\<And>v b. L v b \<Longrightarrow> k \<le> length b"
    and q: "\<And>v. sentence (q v) (M v) (n + k)"
  shows "sentence (cu_bind p q) (seqS L M) n"
proof (unfold_locales)
  fix c assume c: "cu_wf c" "n \<le> cu_pos c"
  show "(\<exists>c'. cu_bind p q c = Inr ((), c')) \<longleftrightarrow> seqS L M (cu_rest c)"
  proof (cases rule: token.read_cases [OF p c, case_names ok fail])
    case (ok v bs r)
    let ?c = "cu_adv (length bs) c"
    have c': "cu_wf ?c" "n + k \<le> cu_pos ?c" using ok c k [of v bs] by auto
    have uniq: "v' = v \<and> bs' = bs" if "L v' bs'" "cu_rest c = bs' @ r'" for v' bs' r'
    proof -
      have "p c = Inr (v', cu_adv (length bs') c)"
        using token.read_iff [OF p c, of v' "cu_adv (length bs') c"] that by blast
      with ok show ?thesis using that(2) by (auto simp: cu_adv_inject append_eq_append_conv)
    qed
    have "(\<exists>c'. cu_bind p q c = Inr ((), c')) \<longleftrightarrow> M v (cu_rest ?c)"
      using sentence.accept_iff [OF q c', of v] ok by (simp add: cu_bind_def)
    also have "cu_rest ?c = r" using ok(3) by (simp add: cu_rest_adv)
    also have "M v r \<longleftrightarrow> seqS L M (cu_rest c)"
    proof
      assume "seqS L M (cu_rest c)"
      then obtain v' b r' where s: "L v' b" "M v' r'" "cu_rest c = b @ r'" unfolding seqS_def by blast
      from uniq [OF s(1,3)] s ok(3) show "M v r" by simp
    qed (use ok(2,3) in \<open>auto simp: seqS_def\<close>)
    finally show ?thesis .
  next
    case (fail c')
    then show ?thesis by (auto simp: cu_bind_def seqS_def)
  qed
  fix c' assume r: "cu_bind p q c = Inl c'"
  show "cu_failed c c'"
  proof (cases rule: token.read_cases [OF p c, case_names ok fail])
    case (ok v bs rr)
    then show ?thesis
      using sentence.reject [OF q, of "cu_adv (length bs) c" v c'] r c k [of v bs] by (simp add: cu_bind_def)
  next
    case (fail c'')
    then show ?thesis using r by (simp add: cu_bind_def)
  qed
qed

lemma token_bind:
  assumes p: "token p L n" and k: "\<And>v b. L v b \<Longrightarrow> k \<le> length b"
    and q: "\<And>v. token (q v) (M v) (n + k)"
  shows "token (cu_bind p q) (seqT L M) n"
proof (unfold_locales)
  fix c assume c: "cu_wf c" "n \<le> cu_pos c"
  show "cu_bind p q c = Inr (w, c') \<longleftrightarrow>
      (\<exists>bs r. seqT L M w bs \<and> cu_rest c = bs @ r \<and> c' = cu_adv (length bs) c)" (is "?l \<longleftrightarrow> ?r") for w c'
  proof
    assume l: ?l
    show ?r
    proof (cases rule: token.read_cases [OF p c, case_names ok fail])
      case (ok v bs r)
      then have "q v (cu_adv (length bs) c) = Inr (w, c')" using l by (simp add: cu_bind_def)
      with token.read_iff [OF q, of "cu_adv (length bs) c" v w c'] ok c k [of v bs]
      obtain b2 r2 where "M v w b2" "r = b2 @ r2" "c' = cu_adv (length b2) (cu_adv (length bs) c)"
        by (auto simp: cu_rest_adv)
      with ok show ?thesis
        by (intro exI [of _ "bs @ b2"] exI [of _ r2]) (auto simp: seqT_def cu_adv_adv)
    qed (use l in \<open>simp add: cu_bind_def\<close>)
  next
    assume ?r
    then obtain v b1 b2 r where b: "L v b1" "M v w b2" "cu_rest c = b1 @ b2 @ r"
        "c' = cu_adv (length b2) (cu_adv (length b1) c)"
      by (auto simp: seqT_def cu_adv_adv)
    then have "p c = Inr (v, cu_adv (length b1) c)" using token.read_iff [OF p c] by blast
    moreover have "q v (cu_adv (length b1) c) = Inr (w, c')"
      using token.read_iff [OF q, of "cu_adv (length b1) c" v w c'] b c k [of v b1]
      by (auto simp: cu_rest_adv)
    ultimately show ?l by (simp add: cu_bind_def)
  qed
  fix c' assume r: "cu_bind p q c = Inl c'"
  show "cu_failed c c'"
  proof (cases rule: token.read_cases [OF p c, case_names ok fail])
    case (ok v bs rr)
    then show ?thesis
      using token.read_fail [OF q, of "cu_adv (length bs) c" v c'] r c k [of v bs] by (simp add: cu_bind_def)
  next
    case (fail c'')
    then show ?thesis using r by (simp add: cu_bind_def)
  qed
qed

lemma token_mono:
  assumes "token p L m" "m \<le> n"
  shows "token p L n"
proof (rule token.intro)
  fix c v c' assume c: "cu_wf c" "n \<le> cu_pos c"
  then have m: "m \<le> cu_pos c" using assms(2) by simp
  show "(p c = Inr (v, c')) = (\<exists>bs r. L v bs \<and> cu_rest c = bs @ r \<and> c' = cu_adv (length bs) c)"
    by (rule token.read_iff [OF assms(1) c(1) m])
  show "p c = Inl c' \<Longrightarrow> cu_failed c c'" by (rule token.read_fail [OF assms(1) c(1) m])
qed

lemma sentence_mono:
  assumes "sentence p L m" "m \<le> n"
  shows "sentence p L n"
proof (rule sentence.intro)
  fix c c' assume c: "cu_wf c" "n \<le> cu_pos c"
  then have m: "m \<le> cu_pos c" using assms(2) by simp
  show "(\<exists>c'. p c = Inr ((), c')) = L (cu_rest c)" by (rule sentence.accept_iff [OF assms(1) c(1) m])
  show "p c = Inl c' \<Longrightarrow> cu_failed c c'" by (rule sentence.reject [OF assms(1) c(1) m])
qed

lemma token_lang_cong: "token p L n \<Longrightarrow> (\<And>v d. L v d = M v d) \<Longrightarrow> token p M n"
  by (simp add: token_def)

lemma sentence_lang_cong: "sentence p L n \<Longrightarrow> (\<And>d. L d = M d) \<Longrightarrow> sentence p M n"
  by (simp add: sentence_def)

lemma cu_bind_position: "cu_bind cu_position q c = q (cu_pos c) c"
  by (simp add: cu_bind_def cu_position_def)

lemma token_position:
  assumes q: "\<And>m. token (q m) L (max m n)"
  shows "token (cu_bind cu_position q) L n"
proof (rule token.intro)
  fix c v c' assume c: "cu_wf c" "n \<le> cu_pos c"
  then have m: "max (cu_pos c) n \<le> cu_pos c" by simp
  show "(cu_bind cu_position q c = Inr (v, c')) =
      (\<exists>bs r. L v bs \<and> cu_rest c = bs @ r \<and> c' = cu_adv (length bs) c)"
    unfolding cu_bind_position by (rule token.read_iff [OF q c(1) m])
  show "cu_bind cu_position q c = Inl c' \<Longrightarrow> cu_failed c c'"
    unfolding cu_bind_position by (rule token.read_fail [OF q c(1) m])
qed

lemma sentence_position:
  assumes q: "\<And>m. sentence (q m) L (max m n)"
  shows "sentence (cu_bind cu_position q) L n"
proof (rule sentence.intro)
  fix c c' assume c: "cu_wf c" "n \<le> cu_pos c"
  then have m: "max (cu_pos c) n \<le> cu_pos c" by simp
  show "(\<exists>c'. cu_bind cu_position q c = Inr ((), c')) = L (cu_rest c)"
    unfolding cu_bind_position by (rule sentence.accept_iff [OF q c(1) m])
  show "cu_bind cu_position q c = Inl c' \<Longrightarrow> cu_failed c c'"
    unfolding cu_bind_position by (rule sentence.reject [OF q c(1) m])
qed

lemma cu_failed_setError: "cu_wf c \<Longrightarrow> e \<noteq> ENone \<Longrightarrow> n \<le> cu_pos c \<Longrightarrow> cu_failed c (cu_setError e n c)"
  by (auto simp: cu_failed_def cu_setError_def cu_wf_def)

lemma token_fail: "e \<noteq> ENone \<Longrightarrow> m \<le> n \<Longrightarrow> token (cu_fail e m) (\<lambda>_ _. False) n"
  by unfold_locales (auto simp: cu_fail_def cu_failed_setError)

lemma sentence_fail: "e \<noteq> ENone \<Longrightarrow> m \<le> n \<Longrightarrow> sentence (cu_fail e m) (\<lambda>_. False) n"
  by unfold_locales (auto simp: cu_fail_def cu_failed_setError)

lemma token_return: "token (cu_return x) (\<lambda>v d. v = x \<and> d = []) n"
  by unfold_locales (auto simp: cu_return_def cu_adv_def)

lemma token_if: "token p L n \<Longrightarrow> token q M n \<Longrightarrow>
    token (if b then p else q) (\<lambda>v d. if b then L v d else M v d) n"
  by simp

lemma sentence_if: "sentence p L n \<Longrightarrow> sentence q M n \<Longrightarrow>
    sentence (if b then p else q) (\<lambda>d. if b then L d else M d) n"
  by simp

lemma sentence_finish: "sentence cu_finish (\<lambda>d. d = []) n"
  by unfold_locales
     (auto simp: cu_finish_def cu_wf_def cu_rest_def cu_failed_def cu_setError_def split: if_splits)

section \<open>The readers of the cursor\<close>

lemma cu_take_run:
  assumes "cu_wf c"
  shows "cu_take n f c = (if n \<le> length (cu_rest c) then Inr (f (cu_rest c), cu_adv n c)
     else Inl (cu_setError Truncated (cu_pos c) c))"
  using assms
  by (auto simp: cu_take_def cu_bind_def cu_require_def cu_remaining_def cu_wf_def cu_rest_def cu_adv_def)

lemma token_take:
  assumes "\<And>d r. length d = n \<Longrightarrow> f (d @ r) = f d"
  shows "token (cu_take n f) (\<lambda>v d. length d = n \<and> v = f d) b"
proof (unfold_locales)
  fix c v c' assume c: "cu_wf c"
  show "cu_take n f c = Inr (v, c') \<longleftrightarrow>
      (\<exists>bs r. (length bs = n \<and> v = f bs) \<and> cu_rest c = bs @ r \<and> c' = cu_adv (length bs) c)" (is "?l \<longleftrightarrow> ?r")
  proof
    assume ?l
    then have n: "n \<le> length (cu_rest c)" "v = f (cu_rest c)" "c' = cu_adv n c"
      using c by (auto simp: cu_take_run split: if_splits)
    moreover have "f (cu_rest c) = f (take n (cu_rest c))"
      using assms [of "take n (cu_rest c)" "drop n (cu_rest c)"] n(1) by simp
    ultimately show ?r
      by (intro exI [of _ "take n (cu_rest c)"] exI [of _ "drop n (cu_rest c)"]) simp
  next
    assume ?r
    then show ?l using c assms by (auto simp: cu_take_run)
  qed
  show "cu_take n f c = Inl c' \<Longrightarrow> cu_failed c c'"
    using c by (auto simp: cu_take_run cu_failed_setError split: if_splits)
qed

interpretation tu8: token cu_readU8 "\<lambda>v d. d = [v]" 0
  unfolding cu_readU8_def
  by (rule token_lang_cong [OF token_take]) (auto simp: nth_append length_Suc_conv)

interpretation tu16: token cu_readU16 "\<lambda>v d. d = be16 v" 0
  unfolding cu_readU16_def
proof (rule token_lang_cong [OF token_take])
  show "(length d = 2 \<and> v = push_bit 8 (ucast (d ! 0)) OR ucast (d ! 1)) = (d = be16 v)" for v d
    using split16 [of d] by (metis be16_join length_be(1))
qed (simp add: nth_append)

interpretation tu32: token cu_readU32 "\<lambda>v d. d = be32 v" 0
  unfolding cu_readU32_def
proof (rule token_lang_cong [OF token_take])
  show "(length d = 4 \<and> v = push_bit 24 (ucast (d ! 0)) OR push_bit 16 (ucast (d ! 1)) OR
      push_bit 8 (ucast (d ! 2)) OR ucast (d ! 3)) = (d = be32 v)" for v d
    using split32 [of d] by (metis be32_join length_be(2))
qed (simp add: nth_append)

interpretation tu64: token cu_readU64 "\<lambda>v d. d = be64 v" 0
  unfolding cu_readU64_def
proof (rule token_lang_cong [OF token_take])
  show "fold (\<lambda>i v. push_bit 8 v OR ucast ((d @ r) ! i)) [0..<8] (0 :: u64) =
      fold (\<lambda>i v. push_bit 8 v OR ucast (d ! i)) [0..<8] 0" if "length d = 8" for d r :: bytes
    using that by (intro fold_cong) (auto simp: nth_append)
  show "(length d = 8 \<and> v = fold (\<lambda>i v. push_bit 8 v OR ucast (d ! i)) [0..<8] 0) = (d = be64 v)" for v d
    using split64 [of d] by (metis join64 length_be(3))
qed

interpretation tskip: token "cu_skip n" "\<lambda>_ d. length d = n" 0 for n
  unfolding cu_skip_def
  by (rule token_lang_cong [OF token_take]) auto

definition bounded_string :: "nat \<Rightarrow> nat \<Rightarrow> bool \<Rightarrow> bytes \<Rightarrow> bool" where
  "bounded_string lo hi alnum d \<longleftrightarrow> (\<exists>s. d = string_enc s \<and> lo \<le> length s \<and> length s \<le> hi \<and> length s < 65536 \<and>
     (alnum \<longrightarrow> isAsciiAlphaNumString s))"

lemma firstNonAlphaNum_None: "firstNonAlphaNum s i = None \<longleftrightarrow> isAsciiAlphaNumString s"
  by (induction s arbitrary: i) auto

lemma firstNonAlphaNum_Some: "firstNonAlphaNum s i = Some j \<Longrightarrow> j < i + length s"
  by (induction s arbitrary: i) (fastforce split: if_splits)+

text \<open>The characters of a string, once its length is known to be acceptable.\<close>

lemma token_chars:
  "token (cu_bind (cu_require n) (\<lambda>_ c.
       case (if al then firstNonAlphaNum (take n (drop (cu_pos c) (cu_data c))) 0 else None) of
         Some i \<Rightarrow> cu_fail InvalidValue (cu_pos c + i) c
       | None \<Rightarrow> Inr ((), c\<lparr>cu_pos := cu_pos c + n\<rparr>)))
     (\<lambda>_ d. length d = n \<and> (al \<longrightarrow> isAsciiAlphaNumString d)) b" (is "token ?p ?L b")
proof (rule token.intro)
  fix c and v :: unit and c' assume c: "cu_wf c"
  have run: "?p c = (if n > length (cu_rest c) then Inl (cu_setError Truncated (cu_pos c) c)
     else case (if al then firstNonAlphaNum (take n (cu_rest c)) 0 else None) of
         Some i \<Rightarrow> Inl (cu_setError InvalidValue (cu_pos c + i) c)
       | None \<Rightarrow> Inr ((), cu_adv n c))"
    using c by (auto simp: cu_bind_def cu_require_def cu_remaining_def cu_wf_def cu_rest_def cu_fail_def cu_adv_def
        split: option.splits)
  show "(?p c = Inr (v, c')) \<longleftrightarrow> (\<exists>bs r. ?L v bs \<and> cu_rest c = bs @ r \<and> c' = cu_adv (length bs) c)" (is "?l \<longleftrightarrow> ?r")
  proof
    assume ?l
    then have "n \<le> length (cu_rest c)" "al \<longrightarrow> isAsciiAlphaNumString (take n (cu_rest c))" "c' = cu_adv n c"
      unfolding run by (auto simp: firstNonAlphaNum_None split: if_splits option.splits)
    then show ?r by (intro exI [of _ "take n (cu_rest c)"] exI [of _ "drop n (cu_rest c)"]) simp
  next
    assume ?r
    then show ?l
      unfolding run using firstNonAlphaNum_None [of "take n (cu_rest c)" 0] by (auto split: option.splits)
  qed
  assume "?p c = Inl c'"
  moreover have "cu_failed c (cu_setError InvalidValue (cu_pos c + i) c)"
    if "firstNonAlphaNum (take n (cu_rest c)) 0 = Some i" for i
    using firstNonAlphaNum_Some [OF that] c
    by (auto simp: cu_failed_def cu_setError_def cu_wf_def cu_rest_def)
  ultimately show "cu_failed c c'"
    unfolding run using c by (auto simp: cu_failed_setError split: if_splits option.splits)
qed

definition string_body :: "nat \<Rightarrow> nat \<Rightarrow> bool \<Rightarrow> u16 \<Rightarrow> unit \<Rightarrow> bytes \<Rightarrow> bool" where
  "string_body lo hi al v u d \<longleftrightarrow> (if unat v < lo \<or> unat v > hi then False
     else length d = unat v \<and> (al \<longrightarrow> isAsciiAlphaNumString d))"

lemma token_string: "token (cu_readString lo hi al) (\<lambda>_. bounded_string lo hi al) 0"
proof (rule token_lang_cong)
  let ?K = "string_body lo hi al"
  have body: "token (if unat v < lo \<or> unat v > hi then cu_fail InvalidStringLength m
     else cu_bind (cu_require (unat v)) (\<lambda>_ c.
       case (if al then firstNonAlphaNum (take (unat v) (drop (cu_pos c) (cu_data c))) 0 else None) of
         Some i \<Rightarrow> cu_fail InvalidValue (cu_pos c + i) c
       | None \<Rightarrow> Inr ((), c\<lparr>cu_pos := cu_pos c + unat v\<rparr>))) (?K v) (max m 0 + 0)" for v :: u16 and m
    unfolding string_body_def
    using token_chars [of "unat v" al "max m 0 + 0"] token_fail [of InvalidStringLength m "max m 0 + 0"]
    by (intro token_if) auto
  show "token (cu_readString lo hi al) (seqT (\<lambda>v d. d = be16 v) ?K) 0"
    unfolding cu_readString_def Let_def
    by (rule token_position, rule token_bind [OF token_mono [OF tu16.token_axioms] _ body]) simp_all
  show "seqT (\<lambda>v d. d = be16 v) ?K u d = bounded_string lo hi al d" for u d
  proof
    assume "seqT (\<lambda>v d. d = be16 v) ?K u d"
    then obtain v s where s: "d = be16 v @ s" "?K v u s" by (auto simp: seqT_def)
    then have k: "length s = unat v" "lo \<le> unat v" "unat v \<le> hi" "al \<longrightarrow> isAsciiAlphaNumString s"
      by (simp_all add: string_body_def split: if_splits)
    then have "d = string_enc s" using s(1) by (simp add: string_enc_def)
    then show "bounded_string lo hi al d"
      using k unat_u16_lt [of v] unfolding bounded_string_def by (intro exI [of _ s]) simp
  next
    assume "bounded_string lo hi al d"
    then obtain s where "d = string_enc s" "lo \<le> length s" "length s \<le> hi" "length s < 65536"
        "al \<longrightarrow> isAsciiAlphaNumString s" unfolding bounded_string_def by blast
    then show "seqT (\<lambda>v d. d = be16 v) ?K u d"
      unfolding seqT_def string_enc_def
      by (intro exI [of _ "of_nat (length s)"] exI [of _ "be16 (of_nat (length s))"] exI [of _ s])
         (auto simp: unat_length_u16 string_body_def)
  qed
qed

text \<open>One composition rule per reader, so that a validator's language is read off its code.\<close>

lemma token_u8: "(\<And>v. token (q v) (M v) (n + 1)) \<Longrightarrow> token (cu_bind cu_readU8 q) (seqT (\<lambda>v d. d = [v]) M) n"
  by (rule token_bind [where k = 1, OF token_mono [OF tu8.token_axioms]]) auto

lemma token_u16: "(\<And>v. token (q v) (M v) (n + 2)) \<Longrightarrow> token (cu_bind cu_readU16 q) (seqT (\<lambda>v d. d = be16 v) M) n"
  by (rule token_bind [where k = 2, OF token_mono [OF tu16.token_axioms]]) auto

lemma token_u32: "(\<And>v. token (q v) (M v) (n + 4)) \<Longrightarrow> token (cu_bind cu_readU32 q) (seqT (\<lambda>v d. d = be32 v) M) n"
  by (rule token_bind [where k = 4, OF token_mono [OF tu32.token_axioms]]) auto

lemma token_u64: "(\<And>v. token (q v) (M v) (n + 8)) \<Longrightarrow> token (cu_bind cu_readU64 q) (seqT (\<lambda>v d. d = be64 v) M) n"
  by (rule token_bind [where k = 8, OF token_mono [OF tu64.token_axioms]]) auto

lemma sentence_u8: "(\<And>v. sentence (q v) (M v) (n + 1)) \<Longrightarrow> sentence (cu_bind cu_readU8 q) (seqS (\<lambda>v d. d = [v]) M) n"
  by (rule sentence_bind [where k = 1, OF token_mono [OF tu8.token_axioms]]) auto

lemma sentence_u16: "(\<And>v. sentence (q v) (M v) (n + 2)) \<Longrightarrow> sentence (cu_bind cu_readU16 q) (seqS (\<lambda>v d. d = be16 v) M) n"
  by (rule sentence_bind [where k = 2, OF token_mono [OF tu16.token_axioms]]) auto

lemma sentence_u32: "(\<And>v. sentence (q v) (M v) (n + 4)) \<Longrightarrow> sentence (cu_bind cu_readU32 q) (seqS (\<lambda>v d. d = be32 v) M) n"
  by (rule sentence_bind [where k = 4, OF token_mono [OF tu32.token_axioms]]) auto

lemma sentence_u64: "(\<And>v. sentence (q v) (M v) (n + 8)) \<Longrightarrow> sentence (cu_bind cu_readU64 q) (seqS (\<lambda>v d. d = be64 v) M) n"
  by (rule sentence_bind [where k = 8, OF token_mono [OF tu64.token_axioms]]) auto

lemmas token_comp = token_position token_u8 token_u16 token_u32 token_u64 token_if token_fail token_return
lemmas sentence_comp = sentence_position sentence_u8 sentence_u16 sentence_u32 sentence_u64 sentence_if
  sentence_fail sentence_finish

interpretation tbool: token cu_readBoolean "\<lambda>_ d. d = [0] \<or> d = [1]" 0
  unfolding cu_readBoolean_def
proof (rule token_lang_cong)
  show "token (cu_bind cu_position (\<lambda>f. cu_bind cu_readU8 (\<lambda>v.
      if 1 < v then cu_fail InvalidBoolean f else cu_return ())))
    (seqT (\<lambda>v d. d = [v]) (\<lambda>v u d. if 1 < v then False else u = () \<and> d = [])) 0"
    by (intro token_comp) simp_all
  show "seqT (\<lambda>v d. d = [v]) (\<lambda>v u d. if 1 < v then False else u = () \<and> d = []) w d = (d = [0] \<or> d = [1])" for w d
  proof -
    have "\<not> 1 < v \<longleftrightarrow> v = 0 \<or> v = 1" for v :: u8 by (auto simp: not_less word_le_nat_alt word_unat_eq_iff le_Suc_eq)
    then show ?thesis by (auto simp: seqT_def)
  qed
qed

interpretation tpolicy: token cu_readPolicy "\<lambda>_ d. \<exists>p. policy_wf p \<and> d = policy_enc p" 0
  unfolding cu_readPolicy_def
proof (rule token_lang_cong)
  let ?bad = "\<lambda>t f k. \<not> isValidTransportModeValue t \<or> \<not> isValidFecModeValue f \<or>
        \<not> isValidKcpProfileValue k \<or> (t = TransportMode_val MODE_RELAY_TCP \<and> f \<noteq> FecMode_val FEC_NONE)"
  let ?L = "seqT (\<lambda>v d. d = [v]) (\<lambda>t. seqT (\<lambda>v d. d = [v]) (\<lambda>f. seqT (\<lambda>v d. d = [v])
        (\<lambda>k u d. if ?bad t f k then False else u = () \<and> d = [])))"
  show "token (cu_bind cu_position (\<lambda>off. cu_bind cu_readU8 (\<lambda>t. cu_bind cu_readU8 (\<lambda>f. cu_bind cu_readU8 (\<lambda>k.
      if ?bad t f k then cu_fail InvalidPolicy off else cu_return ()))))) ?L 0"
    by (intro token_comp) simp_all
  have "?L u d \<longleftrightarrow> (\<exists>t f k. d = [t, f, k] \<and> (\<exists>p. policy_wf p \<and> [t, f, k] = policy_enc p))" for u d
    unfolding policy_bytes_iff [symmetric] seqT_def by auto
  then show "?L u d = (\<exists>p. policy_wf p \<and> d = policy_enc p)" for u d
    by (auto simp: policy_enc_def)
qed

interpretation tmtu: token cu_readMtu "\<lambda>_ d. \<exists>m. isValidRoomMtuValue (uint m) \<and> d = be16 m" 0
  unfolding cu_readMtu_def
proof (rule token_lang_cong)
  show "token (cu_bind cu_position (\<lambda>f. cu_bind cu_readU16 (\<lambda>m.
      if \<not> isValidRoomMtuValue (uint m) then cu_fail InvalidMtu f else cu_return ())))
    (seqT (\<lambda>v d. d = be16 v) (\<lambda>m u d. if \<not> isValidRoomMtuValue (uint m) then False else u = () \<and> d = [])) 0"
    by (intro token_comp) simp_all
qed (auto simp: seqT_def)

definition room_item_enc :: "u32 \<Rightarrow> bytes \<Rightarrow> u8 \<Rightarrow> u8 \<Rightarrow> RoomTrafficPolicy \<Rightarrow> RoomTrafficPolicy \<Rightarrow> bool \<Rightarrow> u16 \<Rightarrow> bytes" where
  "room_item_enc roomId name players maxPlayers tcp udp locked mtu =
     be32 roomId @ string_enc name @ [players, maxPlayers] @ policy_enc tcp @ policy_enc udp @
     [if locked then 1 else 0] @ be16 mtu"

definition room_item :: "u32 \<Rightarrow> bytes \<Rightarrow> bool" where
  "room_item roomId d \<longleftrightarrow> (\<exists>name players maxPlayers tcp udp locked mtu.
     d = room_item_enc roomId name players maxPlayers tcp udp locked mtu \<and>
     roomId \<noteq> 0 \<and> isValidRoomName name \<and> 2 \<le> unat maxPlayers \<and> unat maxPlayers \<le> MAX_PLAYERS \<and>
     players \<le> maxPlayers \<and> policy_wf tcp \<and> policy_wf udp \<and> isValidRoomMtuValue (uint mtu))"

lemma string_room: "bounded_string 1 MAX_ROOM_NAME_LEN False d \<longleftrightarrow> (\<exists>s. isValidRoomName s \<and> d = string_enc s)"
  by (auto simp: bounded_string_def isValidRoomName_def Suc_le_eq)

lemma string_player:
  "bounded_string MIN_PLAYER_NAME_LEN MAX_PLAYER_NAME_LEN True d \<longleftrightarrow> (\<exists>s. isValidPlayerName s \<and> d = string_enc s)"
  by (auto simp: bounded_string_def isValidPlayerName_def)

abbreviation (input) Lbool :: "unit \<Rightarrow> bytes \<Rightarrow> bool" where "Lbool \<equiv> \<lambda>_ d. d = [0] \<or> d = [1]"
abbreviation (input) Lpolicy :: "unit \<Rightarrow> bytes \<Rightarrow> bool" where "Lpolicy \<equiv> \<lambda>_ d. \<exists>p. policy_wf p \<and> d = policy_enc p"
abbreviation (input) Lmtu :: "unit \<Rightarrow> bytes \<Rightarrow> bool" where "Lmtu \<equiv> \<lambda>_ d. \<exists>m. isValidRoomMtuValue (uint m) \<and> d = be16 m"
abbreviation (input) Lstring :: "nat \<Rightarrow> nat \<Rightarrow> bool \<Rightarrow> unit \<Rightarrow> bytes \<Rightarrow> bool" where
  "Lstring lo hi al \<equiv> \<lambda>_. bounded_string lo hi al"
abbreviation (input) Lskip :: "nat \<Rightarrow> unit \<Rightarrow> bytes \<Rightarrow> bool" where "Lskip n \<equiv> \<lambda>_ d. length d = n"
abbreviation (input) Lu8 :: "u8 \<Rightarrow> bytes \<Rightarrow> bool" where "Lu8 \<equiv> \<lambda>v d. d = [v]"
abbreviation (input) Lu16 :: "u16 \<Rightarrow> bytes \<Rightarrow> bool" where "Lu16 \<equiv> \<lambda>v d. d = be16 v"
abbreviation (input) Lu32 :: "u32 \<Rightarrow> bytes \<Rightarrow> bool" where "Lu32 \<equiv> \<lambda>v d. d = be32 v"
abbreviation (input) Lu64 :: "u64 \<Rightarrow> bytes \<Rightarrow> bool" where "Lu64 \<equiv> \<lambda>v d. d = be64 v"

lemma token_string_bind: "(\<And>v. token (q v) (M v) n) \<Longrightarrow>
    token (cu_bind (cu_readString lo hi al) q) (seqT (\<lambda>_. bounded_string lo hi al) M) n"
  by (rule token_bind [where k = 0, OF token_mono [OF token_string]]) auto

lemma token_bool_bind: "(\<And>v. token (q v) (M v) n) \<Longrightarrow>
    token (cu_bind cu_readBoolean q) (seqT (\<lambda>_ d. d = [0] \<or> d = [1]) M) n"
  by (rule token_bind [where k = 0, OF token_mono [OF tbool.token_axioms]]) auto

lemma token_policy_bind: "(\<And>v. token (q v) (M v) n) \<Longrightarrow>
    token (cu_bind cu_readPolicy q) (seqT (\<lambda>_ d. \<exists>p. policy_wf p \<and> d = policy_enc p) M) n"
  by (rule token_bind [where k = 0, OF token_mono [OF tpolicy.token_axioms]]) auto

lemma token_mtu_bind: "(\<And>v. token (q v) (M v) n) \<Longrightarrow>
    token (cu_bind cu_readMtu q) (seqT (\<lambda>_ d. \<exists>m. isValidRoomMtuValue (uint m) \<and> d = be16 m) M) n"
  by (rule token_bind [where k = 0, OF token_mono [OF tmtu.token_axioms]]) auto

lemma sentence_string_bind: "(\<And>v. sentence (q v) (M v) n) \<Longrightarrow>
    sentence (cu_bind (cu_readString lo hi al) q) (seqS (\<lambda>_. bounded_string lo hi al) M) n"
  by (rule sentence_bind [where k = 0, OF token_mono [OF token_string]]) auto

lemma sentence_bool_bind: "(\<And>v. sentence (q v) (M v) n) \<Longrightarrow>
    sentence (cu_bind cu_readBoolean q) (seqS (\<lambda>_ d. d = [0] \<or> d = [1]) M) n"
  by (rule sentence_bind [where k = 0, OF token_mono [OF tbool.token_axioms]]) auto

lemma sentence_policy_bind: "(\<And>v. sentence (q v) (M v) n) \<Longrightarrow>
    sentence (cu_bind cu_readPolicy q) (seqS (\<lambda>_ d. \<exists>p. policy_wf p \<and> d = policy_enc p) M) n"
  by (rule sentence_bind [where k = 0, OF token_mono [OF tpolicy.token_axioms]]) auto

lemma sentence_mtu_bind: "(\<And>v. sentence (q v) (M v) n) \<Longrightarrow>
    sentence (cu_bind cu_readMtu q) (seqS (\<lambda>_ d. \<exists>m. isValidRoomMtuValue (uint m) \<and> d = be16 m) M) n"
  by (rule sentence_bind [where k = 0, OF token_mono [OF tmtu.token_axioms]]) auto

lemma sentence_skip_bind: "(\<And>v. sentence (q v) (M v) n) \<Longrightarrow>
    sentence (cu_bind (cu_skip k) q) (seqS (\<lambda>_ d. length d = k) M) n"
  by (rule sentence_bind [where k = 0, OF token_mono [OF tskip.token_axioms]]) auto

lemmas token_comps = token_comp token_string_bind token_bool_bind token_policy_bind token_mtu_bind
lemmas sentence_comps = sentence_comp sentence_string_bind sentence_bool_bind sentence_policy_bind
  sentence_mtu_bind sentence_skip_bind

lemma bool_enc: "d = [0] \<or> d = [1] \<longleftrightarrow> (\<exists>b. d = [if b then 1 else 0 :: u8])"
  by (metis (full_types))

text \<open>Sequences, one field at a time.\<close>

lemma seqT_eq: "seqT (\<lambda>v d. d = f v) M w d \<longleftrightarrow> (\<exists>v r. d = f v @ r \<and> M v w r)"
  unfolding seqT_def by blast

lemma seqT_ex: "seqT (\<lambda>(_ :: unit) d. \<exists>x. P x \<and> d = f x) M w d \<longleftrightarrow> (\<exists>x r. d = f x @ r \<and> P x \<and> M () w r)"
  unfolding seqT_def by auto

lemma seqS_eq: "seqS (\<lambda>v d. d = f v) M d \<longleftrightarrow> (\<exists>v r. d = f v @ r \<and> M v r)"
  unfolding seqS_def by blast

lemma seqS_ex: "seqS (\<lambda>(_ :: unit) d. \<exists>x. P x \<and> d = f x) M d \<longleftrightarrow> (\<exists>x r. d = f x @ r \<and> P x \<and> M () r)"
  unfolding seqS_def by auto

lemma Lbool_ex: "Lbool = (\<lambda>_ d. \<exists>b. True \<and> d = [if b then 1 else 0])"
  by (intro ext) (simp add: bool_enc)

lemma seqT_bool: "seqT Lbool M w d \<longleftrightarrow> (\<exists>b r. d = (if b then 1 else 0) # r \<and> M () w r)"
  unfolding Lbool_ex seqT_ex by simp

lemma seqS_bool: "seqS Lbool M d \<longleftrightarrow> (\<exists>b r. d = (if b then 1 else 0) # r \<and> M () r)"
  unfolding Lbool_ex seqS_ex by simp

lemma seqS_skip: "seqS (Lskip n) M d \<longleftrightarrow> (\<exists>x r. d = x @ r \<and> length x = n \<and> M () r)"
  unfolding seqS_def by auto

lemma Lstring_ex:
  "Lstring 1 MAX_ROOM_NAME_LEN False = (\<lambda>_ d. \<exists>s. isValidRoomName s \<and> d = string_enc s)"
  "Lstring MIN_PLAYER_NAME_LEN MAX_PLAYER_NAME_LEN True = (\<lambda>_ d. \<exists>s. isValidPlayerName s \<and> d = string_enc s)"
  by (intro ext, rule string_room, intro ext, rule string_player)

lemmas seqT_fields = seqT_bool Lstring_ex seqT_ex seqT_eq
lemmas seqS_fields = seqS_bool seqS_skip Lstring_ex seqS_ex seqS_eq

interpretation titem: token readRoomListItem room_item 0
proof (rule token_lang_cong)
  show "token readRoomListItem (seqT Lu32 (\<lambda>roomId. seqT (Lstring 1 MAX_ROOM_NAME_LEN False) (\<lambda>_.
      seqT Lu8 (\<lambda>playerCount. seqT Lu8 (\<lambda>maxPlayers. seqT Lpolicy (\<lambda>_. seqT Lpolicy (\<lambda>_.
      seqT Lbool (\<lambda>_. seqT Lmtu (\<lambda>_ w d.
      if roomId = 0 \<or> unat maxPlayers < 2 \<or> unat maxPlayers > MAX_PLAYERS \<or> playerCount > maxPlayers
      then False else w = roomId \<and> d = []))))))))) 0" (is "token _ ?L 0")
    unfolding readRoomListItem_def by (intro token_comps) simp_all
  show "?L v d = room_item v d" for v d
  proof
    assume "?L v d"
    then show "room_item v d"
      unfolding seqT_fields room_item_def room_item_enc_def
    proof (elim exE conjE, goal_cases)
      case (1 v' _ s _ a _ b _ p _ q _ l _ m _)
      then show ?case
        by (intro exI [of _ s] exI [of _ a] exI [of _ b] exI [of _ p] exI [of _ q] exI [of _ l] exI [of _ m])
           (simp add: not_less split: if_splits)
    qed
  next
    assume "room_item v d"
    then show "?L v d"
      unfolding seqT_fields room_item_def room_item_enc_def append_Cons append_Nil
      by (elim exE conjE, hypsubst) (rule exI conjI refl append_Nil2 [symmetric] | assumption | simp add: not_less)+
  qed
qed

section \<open>Repeated parts\<close>

type_synonym member = "u32 \<times> u32 \<times> bytes"

definition member_enc :: "member \<Rightarrow> bytes" where
  "member_enc m = (case m of (peerId, ip, name) \<Rightarrow> be32 peerId @ be32 ip @ string_enc name)"

definition member_ok :: "member \<Rightarrow> bool" where
  "member_ok m \<longleftrightarrow> (case m of (peerId, ip, name) \<Rightarrow> peerId \<noteq> 0 \<and> ip \<noteq> 0 \<and> isValidPlayerName name)"

definition membersL :: "nat \<Rightarrow> unit \<Rightarrow> bytes \<Rightarrow> bool" where
  "membersL n u d \<longleftrightarrow> (\<exists>ms. length ms = n \<and> list_all member_ok ms \<and> d = concat (map member_enc ms))"

lemma membersL_Suc:
  "membersL (Suc n) u d \<longleftrightarrow>
     seqT Lu32 (\<lambda>p. seqT Lu32 (\<lambda>ip. seqT (Lstring MIN_PLAYER_NAME_LEN MAX_PLAYER_NAME_LEN True) (\<lambda>_ u d.
       if p = 0 \<or> ip = 0 then False else membersL n u d))) u d"
  unfolding seqT_fields
proof
  assume "membersL (Suc n) u d"
  then obtain p ip nm ms where "length ms = n" "list_all member_ok ms" "member_ok (p, ip, nm)"
      "d = be32 p @ be32 ip @ string_enc nm @ concat (map member_enc ms)"
    by (auto simp: membersL_def length_Suc_conv member_enc_def)
  then show "\<exists>v r. d = be32 v @ r \<and> (\<exists>va ra. r = be32 va @ ra \<and> (\<exists>x r. ra = string_enc x @ r \<and>
      isValidPlayerName x \<and> (if v = 0 \<or> va = 0 then False else membersL n u r)))"
    by (intro exI [of _ p] exI [of _ ip] exI [of _ nm] exI [of _ "concat (map member_enc ms)"] exI conjI)
       (auto simp: member_ok_def membersL_def)
next
  assume "\<exists>v r. d = be32 v @ r \<and> (\<exists>va ra. r = be32 va @ ra \<and> (\<exists>x r. ra = string_enc x @ r \<and>
      isValidPlayerName x \<and> (if v = 0 \<or> va = 0 then False else membersL n u r)))"
  then obtain p ip nm ms where "d = be32 p @ be32 ip @ string_enc nm @ concat (map member_enc ms)"
      "isValidPlayerName nm" "p \<noteq> 0" "ip \<noteq> 0" "length ms = n" "list_all member_ok ms"
    by (auto simp: membersL_def split: if_splits)
  then show "membersL (Suc n) u d"
    unfolding membersL_def by (intro exI [of _ "(p, ip, nm) # ms"]) (simp add: member_enc_def member_ok_def)
qed

lemma token_members: "token (joinMembersReader n) (membersL n) b"
proof (induction n arbitrary: b)
  case 0
  show ?case unfolding joinMembersReader.simps
    by (rule token_lang_cong [OF token_return]) (simp add: membersL_def)
next
  case (Suc n)
  show ?case unfolding joinMembersReader.simps
    by (rule token_lang_cong [OF _ membersL_Suc [symmetric]])
       (intro token_comps Suc.IH; simp)
qed

definition itemsL :: "nat \<Rightarrow> u32 list \<Rightarrow> unit \<Rightarrow> bytes \<Rightarrow> bool" where
  "itemsL n seen u d \<longleftrightarrow> (\<exists>items. length items = n \<and> (\<forall>(i, e) \<in> set items. room_item i e) \<and>
     distinct (map fst items) \<and> set (map fst items) \<inter> set seen = {} \<and> d = concat (map snd items))"

lemma itemsL_Suc:
  "itemsL (Suc n) seen u d \<longleftrightarrow>
     seqT room_item (\<lambda>i u d. if i \<in> set seen then False else itemsL n (i # seen) u d) u d"
proof
  assume "itemsL (Suc n) seen u d"
  then obtain i e items where i: "length items = n" "room_item i e" "\<forall>(i, e) \<in> set items. room_item i e"
      "distinct (i # map fst items)" "set (i # map fst items) \<inter> set seen = {}" "d = e @ concat (map snd items)"
    by (auto simp: itemsL_def length_Suc_conv)
  then have "itemsL n (i # seen) u (concat (map snd items))"
    unfolding itemsL_def by (intro exI [of _ items]) auto
  with i show "seqT room_item (\<lambda>i u d. if i \<in> set seen then False else itemsL n (i # seen) u d) u d"
    unfolding seqT_def by (intro exI [of _ i] exI [of _ e] exI [of _ "concat (map snd items)"]) simp
next
  assume "seqT room_item (\<lambda>i u d. if i \<in> set seen then False else itemsL n (i # seen) u d) u d"
  then obtain i e items where i: "room_item i e" "i \<notin> set seen" "length items = n"
      "\<forall>(i, e) \<in> set items. room_item i e" "distinct (map fst items)" "set (map fst items) \<inter> set (i # seen) = {}"
      "d = e @ concat (map snd items)"
    by (auto simp: seqT_def itemsL_def split: if_splits)
  then show "itemsL (Suc n) seen u d"
    unfolding itemsL_def by (intro exI [of _ "(i, e) # items"]) auto
qed

lemma token_seen: "token (q v) (M v) n \<Longrightarrow> token (if i \<in> set seen then cu_bind cu_position (\<lambda>p. cu_fail InvalidValue p) else q v)
    (\<lambda>u d. if i \<in> set seen then False else M v u d) n"
  by (intro token_if token_position token_fail) simp_all

lemma token_items: "token (roomListItemsReader n seen) (itemsL n seen) b"
proof (induction n arbitrary: b seen)
  case 0
  show ?case unfolding roomListItemsReader.simps
    by (rule token_lang_cong [OF token_return]) (simp add: itemsL_def)
next
  case (Suc n)
  show ?case unfolding roomListItemsReader.simps
    by (rule token_lang_cong [OF _ itemsL_Suc [symmetric]],
        rule token_bind [where k = 0, OF token_mono [OF titem.token_axioms]], simp, simp,
        rule token_seen [where q = "\<lambda>i. roomListItemsReader n (i # seen)" and M = "\<lambda>i. itemsL n (i # seen)" for seen], rule Suc.IH)
qed

text \<open>One entry of a change push: an upsert carries a room, a removal its number.\<close>

definition room_change :: "u32 \<Rightarrow> bytes \<Rightarrow> bool" where
  "room_change i d \<longleftrightarrow> (\<exists>e. d = ROOM_LIST_UPSERT # e \<and> room_item i e) \<or> (i \<noteq> 0 \<and> d = ROOM_LIST_REMOVE # be32 i)"

definition changesL :: "nat \<Rightarrow> u32 list \<Rightarrow> unit \<Rightarrow> bytes \<Rightarrow> bool" where
  "changesL n seen u d \<longleftrightarrow> (\<exists>cs. length cs = n \<and> (\<forall>(i, e) \<in> set cs. room_change i e) \<and>
     distinct (map fst cs) \<and> set (map fst cs) \<inter> set seen = {} \<and> d = concat (map snd cs))"

abbreviation (input) changeBody :: "u8 \<Rightarrow> u32 \<Rightarrow> bytes \<Rightarrow> bool" where
  "changeBody op \<equiv> \<lambda>i d. if op = ROOM_LIST_UPSERT then room_item i d
     else if op = ROOM_LIST_REMOVE then seqT Lu32 (\<lambda>v w d. if v = 0 then False else w = v \<and> d = []) i d
     else False"

lemma changeBody_iff: "changeBody op i d \<longleftrightarrow> room_change i (op # d)"
  by (auto simp: room_change_def seqT_def split: if_splits)

lemma changesL_Suc:
  "changesL (Suc n) seen u d \<longleftrightarrow>
     seqT Lu8 (\<lambda>op. seqT (changeBody op) (\<lambda>i u d. if i \<in> set seen then False else changesL n (i # seen) u d)) u d"
  unfolding changeBody_iff
proof
  assume "changesL (Suc n) seen u d"
  then obtain i e cs where i: "length cs = n" "room_change i e" "\<forall>(i, e) \<in> set cs. room_change i e"
      "distinct (i # map fst cs)" "set (i # map fst cs) \<inter> set seen = {}" "d = e @ concat (map snd cs)"
    by (auto simp: changesL_def length_Suc_conv)
  then obtain op e' where e: "e = op # e'" by (auto simp: room_change_def)
  have "changesL n (i # seen) u (concat (map snd cs))"
    unfolding changesL_def using i by (intro exI [of _ cs]) auto
  with i e show "seqT Lu8 (\<lambda>op. seqT (\<lambda>i d. room_change i (op # d))
      (\<lambda>i u d. if i \<in> set seen then False else changesL n (i # seen) u d)) u d"
    unfolding seqT_eq seqT_def
    by (intro exI [of _ op] exI [of _ "e' @ concat (map snd cs)"] exI [of _ i] exI [of _ e']
        exI [of _ "concat (map snd cs)"] conjI) simp_all
next
  assume "seqT Lu8 (\<lambda>op. seqT (\<lambda>i d. room_change i (op # d))
      (\<lambda>i u d. if i \<in> set seen then False else changesL n (i # seen) u d)) u d"
  then obtain i e op cs where i: "room_change i (op # e)" "i \<notin> set seen" "length cs = n"
      "\<forall>(i, e) \<in> set cs. room_change i e" "distinct (map fst cs)" "set (map fst cs) \<inter> set (i # seen) = {}"
      "d = op # e @ concat (map snd cs)"
    by (auto simp: seqT_def changesL_def split: if_splits)
  then show "changesL (Suc n) seen u d"
    unfolding changesL_def by (intro exI [of _ "(i, op # e) # cs"]) auto
qed

lemma token_changeBody:
  "token (if op = ROOM_LIST_UPSERT then readRoomListItem
          else if op = ROOM_LIST_REMOVE
          then cu_bind cu_readU32 (\<lambda>roomId.
                 if roomId = 0 then cu_bind cu_position (\<lambda>p. cu_fail InvalidValue (p - 4)) else cu_return roomId)
          else cu_bind cu_position (\<lambda>p. cu_fail InvalidValue (p - 1))) (changeBody op) b"
  by (intro token_if token_mono [OF titem.token_axioms] token_comps) simp_all

lemma token_changes: "token (roomListChangesReader n seen) (changesL n seen) b"
proof (induction n arbitrary: b seen)
  case 0
  show ?case unfolding roomListChangesReader.simps
    by (rule token_lang_cong [OF token_return]) (simp add: changesL_def)
next
  case (Suc n)
  show ?case unfolding roomListChangesReader.simps
    by (rule token_lang_cong [OF _ changesL_Suc [symmetric]], rule token_u8,
        rule token_bind [where k = 0, OF token_changeBody], simp,
        rule token_seen [where q = "\<lambda>i. roomListChangesReader n (i # seen)" and M = "\<lambda>i. changesL n (i # seen)" for seen],
        rule Suc.IH)
qed

section \<open>The messages\<close>

lemma sentence_remaining:
  assumes "sentence p L n" "sentence q M n"
  shows "sentence (\<lambda>c. if P (cu_remaining c) then p c else q c) (\<lambda>d. if P (length d) then L d else M d) n"
proof (rule sentence.intro)
  fix c c' assume c: "cu_wf c" "n \<le> cu_pos c"
  then have r: "cu_remaining c = length (cu_rest c)" by (simp add: cu_remaining_def cu_wf_def cu_rest_def)
  show "(\<exists>c'. (if P (cu_remaining c) then p c else q c) = Inr ((), c')) =
      (if P (length (cu_rest c)) then L (cu_rest c) else M (cu_rest c))"
    using sentence.accept_iff [OF assms(1) c] sentence.accept_iff [OF assms(2) c] r by simp
  show "(if P (cu_remaining c) then p c else q c) = Inl c' \<Longrightarrow> cu_failed c c'"
    using sentence.reject [OF assms(1) c] sentence.reject [OF assms(2) c] by (simp split: if_splits)
qed

lemma sentence_all: "sentence (cu_bind (\<lambda>c. cu_skip (cu_remaining c) c) (\<lambda>_. cu_finish)) (\<lambda>_. True) n"
  by unfold_locales
     (auto simp: cu_bind_def cu_skip_def cu_take_run cu_remaining_def cu_wf_def cu_rest_def cu_finish_def)

lemma sentence_rep:
  assumes "\<And>b. token p L b" "\<And>v. sentence (q v) (M v) n"
  shows "sentence (cu_bind p q) (seqS L M) n"
  by (rule sentence_bind [where k = 0]) (use assms in auto)

definition room_created_msg :: "bytes \<Rightarrow> bool" where
  "room_created_msg d \<longleftrightarrow> (\<exists>roomId ip tcp udp locked mtu tok.
     d = be32 roomId @ be32 ip @ policy_enc tcp @ policy_enc udp @ [if locked then 1 else 0] @ be16 mtu @ tok \<and>
     roomId \<noteq> 0 \<and> ip \<noteq> 0 \<and> policy_wf tcp \<and> policy_wf udp \<and> isValidRoomMtuValue (uint mtu) \<and>
     length tok = RECONNECT_TOKEN_SIZE)"

definition join_resp_msg :: "bytes \<Rightarrow> bool" where
  "join_resp_msg d \<longleftrightarrow> (\<exists>roomId ip tcp udp locked mtu ms tok.
     d = be32 roomId @ be32 ip @ policy_enc tcp @ policy_enc udp @ [if locked then 1 else 0] @ be16 mtu @
         [of_nat (length ms)] @ concat (map member_enc ms) @ tok \<and>
     roomId \<noteq> 0 \<and> ip \<noteq> 0 \<and> policy_wf tcp \<and> policy_wf udp \<and> isValidRoomMtuValue (uint mtu) \<and>
     1 \<le> length ms \<and> length ms \<le> MAX_PLAYERS \<and> list_all member_ok ms \<and> length tok = RECONNECT_TOKEN_SIZE)"

definition room_list_msg :: "bytes \<Rightarrow> bool" where
  "room_list_msg d \<longleftrightarrow> (\<exists>revision pageIndex pageCount items.
     d = be64 revision @ be16 pageIndex @ be16 pageCount @ be16 (of_nat (length items)) @ concat (map snd items) \<and>
     revision \<noteq> 0 \<and> pageIndex < pageCount \<and> length items < 65536 \<and>
     (\<forall>(i, e) \<in> set items. room_item i e) \<and> distinct (map fst items))"

definition room_list_push_msg :: "bytes \<Rightarrow> bool" where
  "room_list_push_msg d \<longleftrightarrow> (\<exists>base revision cs.
     d = be64 base @ be64 revision @ be16 (of_nat (length cs)) @ concat (map snd cs) \<and>
     base < revision \<and> cs \<noteq> [] \<and> length cs < 65536 \<and>
     (\<forall>(i, e) \<in> set cs. room_change i e) \<and> distinct (map fst cs))"

interpretation sHello: sentence serverHelloReader
  "seqS Lu16 (\<lambda>v. seqS Lu8 (\<lambda>a d. if v \<noteq> PROTOCOL_VERSION then False else if a > 1 then False
     else seqS (\<lambda>u d. if a \<noteq> 0 then Lskip (1 + AUTH_SALT_SIZE + 16 + 32) u d else u = () \<and> d = []) (\<lambda>_ d. d = []) d))" 0
  unfolding serverHelloReader_def
  by (intro sentence_comps sentence_rep token_if token_mono [OF tskip.token_axioms] token_return) simp_all

interpretation sAuthOk: sentence serverAuthOkReader "seqS Lu32 (\<lambda>i. seqS (Lskip 32) (\<lambda>_ d. if i = 0 then False else d = []))" 0
  unfolding serverAuthOkReader_def by (intro sentence_comps) simp_all

interpretation sLogin: sentence loginRespReader
  "seqS Lu32 (\<lambda>p. seqS Lu16 (\<lambda>v d. if p = 0 then False else if v \<noteq> PROTOCOL_VERSION then False
     else seqS Lbool (\<lambda>_ d. d = []) d))" 0
  unfolding loginRespReader_def by (intro sentence_comps) simp_all

interpretation sPeerInfo: sentence peerInfoReader
  "seqS Lu32 (\<lambda>p. seqS Lu32 (\<lambda>ip. seqS (Lstring MIN_PLAYER_NAME_LEN MAX_PLAYER_NAME_LEN True)
     (\<lambda>_ d. if p = 0 \<or> ip = 0 then False else d = [])))" 0
  unfolding peerInfoReader_def by (intro sentence_comps) simp_all

interpretation sPeerId: sentence peerIdReader "seqS Lu32 (\<lambda>p d. if p = 0 then False else d = [])" 0
  unfolding peerIdReader_def by (intro sentence_comps) simp_all

interpretation sRelay: sentence relayDataReader
  "seqS Lu32 (\<lambda>s. seqS Lu32 (\<lambda>t. seqS Lu8 (\<lambda>c d. if s = 0 \<or> t = 0 then False
     else if c \<noteq> TRAFFIC_TCP \<and> c \<noteq> TRAFFIC_UDP then False else True)))" 0
  unfolding relayDataReader_def by (intro sentence_all sentence_comps) simp_all

interpretation sError: sentence errorReader
  "seqS (Lskip 2) (\<lambda>_. seqS (Lstring 1 (MAX_TCP_MSG_PAYLOAD - 4) False) (\<lambda>_ d. d = []))" 0
  unfolding errorReader_def by (intro sentence_comps)

interpretation sRoomCreated: sentence roomCreatedReader room_created_msg 0
proof (rule sentence_lang_cong)
  show "sentence roomCreatedReader (seqS Lu32 (\<lambda>r. seqS Lu32 (\<lambda>ip. seqS Lpolicy (\<lambda>_. seqS Lpolicy (\<lambda>_.
      seqS Lbool (\<lambda>_. seqS Lmtu (\<lambda>_. seqS (Lskip RECONNECT_TOKEN_SIZE) (\<lambda>_ d.
      if r = 0 \<or> ip = 0 then False else d = [])))))))) 0" (is "sentence _ ?L 0")
    unfolding roomCreatedReader_def by (intro sentence_comps) simp_all
  show "?L d = room_created_msg d" for d
    unfolding seqS_fields room_created_msg_def append_Cons append_Nil
  proof ((intro iffI; elim exE conjE), goal_cases)
    case (1 r _ ip _ p _ q _ l _ m _ x _)
    then show ?case
      by (intro exI [of _ r] exI [of _ ip] exI [of _ p] exI [of _ q] exI [of _ l] exI [of _ m] exI [of _ x])
         (simp split: if_splits)
  next
    case 2
    then show ?case
      by hypsubst (rule exI conjI refl append_Nil2 [symmetric] | assumption | simp)+
  qed
qed

interpretation sJoinResp: sentence joinRespReader join_resp_msg 0
proof (rule sentence_lang_cong)
  show "sentence joinRespReader (seqS Lu32 (\<lambda>r. seqS Lu32 (\<lambda>ip. seqS Lpolicy (\<lambda>_. seqS Lpolicy (\<lambda>_.
      seqS Lbool (\<lambda>_. seqS Lmtu (\<lambda>_. seqS Lu8 (\<lambda>count d. if r = 0 \<or> ip = 0 then False
        else if count = 0 \<or> unat count > MAX_PLAYERS then False
        else seqS (membersL (unat count)) (\<lambda>_. seqS (Lskip RECONNECT_TOKEN_SIZE) (\<lambda>_ d. d = [])) d)))))))) 0"
    (is "sentence _ ?L 0")
    unfolding joinRespReader_def by (intro sentence_comps sentence_rep token_members) simp_all
  have body: "seqS (membersL n) (\<lambda>_. seqS (Lskip 32) (\<lambda>_ d. d = [])) d \<longleftrightarrow>
      (\<exists>ms tok. length ms = n \<and> list_all member_ok ms \<and> length tok = 32 \<and> d = concat (map member_enc ms) @ tok)" for n d
    unfolding seqS_def membersL_def by auto
  show "?L d = join_resp_msg d" for d
    unfolding seqS_fields body join_resp_msg_def append_Cons append_Nil
  proof ((intro iffI; elim exE conjE), goal_cases)
    case (1 r _ ip _ p _ q _ l _ m _ count rest)
    then obtain ms tok where ms: "length ms = unat count" "list_all member_ok ms" "length tok = 32"
        "rest = concat (map member_enc ms) @ tok" "r \<noteq> 0" "ip \<noteq> 0" "count \<noteq> 0" "unat count \<le> 8"
      by (auto split: if_splits)
    then have "of_nat (length ms) = count" "1 \<le> length ms" by (simp_all add: unat_gt_0 Suc_le_eq)
    with 1 ms show ?case
      by (intro exI [of _ r] exI [of _ ip] exI [of _ p] exI [of _ q] exI [of _ l] exI [of _ m] exI [of _ ms]
          exI [of _ tok]) simp
  next
    case (2 r ip p q l m ms tok)
    then have "unat (of_nat (length ms) :: u8) = length ms" by (simp add: unat_of_nat_small)
    moreover from this 2 have "(of_nat (length ms) :: u8) \<noteq> 0" by (metis not_one_le_zero unat_0)
    moreover have "\<exists>ms' tok'. length ms' = length ms \<and> list_all member_ok ms' \<and> length tok' = 32 \<and>
        concat (map member_enc ms) @ tok = concat (map member_enc ms') @ tok'"
      using 2 by blast
    ultimately have body': "if r = 0 \<or> ip = 0 then False else if (of_nat (length ms) :: u8) = 0 \<or> 8 < unat (of_nat (length ms) :: u8) then False
        else \<exists>ms' tok'. length ms' = unat (of_nat (length ms) :: u8) \<and> list_all member_ok ms' \<and> length tok' = 32 \<and>
          concat (map member_enc ms) @ tok = concat (map member_enc ms') @ tok'"
      using 2 by (simp del: of_nat_eq_0_iff)
    show ?case
      unfolding 2 by (rule exI conjI refl 2 body')+
  qed
qed

lemma room_item_length: "room_item i e \<Longrightarrow> MIN_ROOM_RECORD_SIZE \<le> length e"
  by (auto simp: room_item_def room_item_enc_def string_enc_def policy_enc_def isValidRoomName_def Suc_le_eq)

lemma items_length:
  "\<forall>(i, e) \<in> set items. room_item i e \<Longrightarrow> length items \<le> length (concat (map snd items)) div MIN_ROOM_RECORD_SIZE"
proof -
  assume a: "\<forall>(i, e) \<in> set items. room_item i e"
  have "18 * length items \<le> length (concat (map snd items))"
    using a by (induction items) (auto dest!: room_item_length)
  then show ?thesis by (simp add: less_eq_div_iff_mult_less_eq mult.commute)
qed

lemma items_body:
  "(if unat (count :: u16) > length d div MIN_ROOM_RECORD_SIZE then False
    else seqS (itemsL (unat count) []) (\<lambda>_ d. d = []) d) \<longleftrightarrow>
   (\<exists>items. length items = unat count \<and> (\<forall>(i, e) \<in> set items. room_item i e) \<and> distinct (map fst items) \<and>
      d = concat (map snd items))"
proof -
  have "seqS (itemsL (unat count) []) (\<lambda>_ d. d = []) d \<longleftrightarrow> itemsL (unat count) [] () d"
    by (simp add: seqS_def)
  moreover have "unat count \<le> length d div MIN_ROOM_RECORD_SIZE" if "itemsL (unat count) [] () d"
  proof -
    from that obtain items where "length items = unat count" "\<forall>(i, e) \<in> set items. room_item i e"
        "d = concat (map snd items)" by (auto simp: itemsL_def)
    with items_length [of items] show ?thesis by simp
  qed
  ultimately have "(if unat count > length d div MIN_ROOM_RECORD_SIZE then False
    else seqS (itemsL (unat count) []) (\<lambda>_ d. d = []) d) \<longleftrightarrow> itemsL (unat count) [] () d"
    by (meson not_less)
  then show ?thesis by (simp only: itemsL_def list.set(1) Int_empty_right simp_thms)
qed

interpretation sRoomList: sentence roomListReader room_list_msg 0
proof (rule sentence_lang_cong)
  show "sentence roomListReader (seqS Lu64 (\<lambda>rev. seqS Lu16 (\<lambda>i. seqS Lu16 (\<lambda>n. seqS Lu16 (\<lambda>count d.
      if rev = 0 \<or> n = 0 \<or> i \<ge> n then False
      else if unat count > length d div MIN_ROOM_RECORD_SIZE then False
      else seqS (itemsL (unat count) []) (\<lambda>_ d. d = []) d))))) 0" (is "sentence _ ?L 0")
    unfolding roomListReader_def
    by (intro sentence_comps sentence_remaining sentence_rep token_items) simp_all
  show "?L d = room_list_msg d" for d
    unfolding seqS_fields items_body room_list_msg_def
  proof ((intro iffI; elim exE conjE), goal_cases)
    case (1 rev _ i _ n _ count rest)
    then obtain items where it: "length items = unat count" "\<forall>(i, e) \<in> set items. room_item i e"
        "distinct (map fst items)" "rest = concat (map snd items)" "rev \<noteq> 0" "i < n"
      by (auto split: if_splits)
    moreover from it(1) have "of_nat (length items) = count" by simp
    ultimately show ?case
      using 1 unat_u16_lt [of count]
      by (intro exI [of _ rev] exI [of _ i] exI [of _ n] exI [of _ items]) simp
  next
    case (2 rev i n items)
    have "\<exists>items'. length items' = length items \<and> (\<forall>(i, e) \<in> set items'. room_item i e) \<and>
        distinct (map fst items') \<and> concat (map snd items) = concat (map snd items')"
      using 2 by blast
    moreover have "n \<noteq> 0" "\<not> n \<le> i" using 2 by (auto simp: word_less_nat_alt word_le_nat_alt)
    ultimately have body': "if rev = 0 \<or> n = 0 \<or> n \<le> i then False
        else \<exists>items'. length items' = unat (of_nat (length items) :: u16) \<and> (\<forall>(i, e) \<in> set items'. room_item i e) \<and>
          distinct (map fst items') \<and> concat (map snd items) = concat (map snd items')"
      using 2 by (simp add: unat_of_nat_small)
    show ?case unfolding 2 by (rule exI conjI refl body')+
  qed
qed

lemma changes_body:
  "seqS (changesL n []) (\<lambda>_ d. d = []) d \<longleftrightarrow>
   (\<exists>cs. length cs = n \<and> (\<forall>(i, e) \<in> set cs. room_change i e) \<and> distinct (map fst cs) \<and> d = concat (map snd cs))"
  by (simp add: seqS_def changesL_def)

interpretation sRoomListPush: sentence roomListPushReader room_list_push_msg 0
proof (rule sentence_lang_cong)
  show "sentence roomListPushReader (seqS Lu64 (\<lambda>base. seqS Lu64 (\<lambda>rev. seqS Lu16 (\<lambda>count d.
      if rev = 0 \<or> rev \<le> base \<or> count = 0 then False
      else seqS (changesL (unat count) []) (\<lambda>_ d. d = []) d)))) 0" (is "sentence _ ?L 0")
    unfolding roomListPushReader_def
    by (intro sentence_comps sentence_rep token_changes) simp_all
  show "?L d = room_list_push_msg d" for d
    unfolding seqS_fields changes_body room_list_push_msg_def
  proof ((intro iffI; elim exE conjE), goal_cases)
    case (1 base _ rev _ count rest)
    then obtain cs where cs: "length cs = unat count" "\<forall>(i, e) \<in> set cs. room_change i e"
        "distinct (map fst cs)" "rest = concat (map snd cs)" "base < rev" "count \<noteq> 0"
      by (auto split: if_splits)
    moreover from cs(1) have "of_nat (length cs) = count" by simp
    moreover from cs(1,6) have "cs \<noteq> []" by (auto simp: unat_eq_zero)
    ultimately show ?case
      using 1 unat_u16_lt [of count] by (intro exI [of _ base] exI [of _ rev] exI [of _ cs]) simp
  next
    case (2 base rev cs)
    have "\<exists>cs'. length cs' = length cs \<and> (\<forall>(i, e) \<in> set cs'. room_change i e) \<and>
        distinct (map fst cs') \<and> concat (map snd cs) = concat (map snd cs')"
      using 2 by blast
    moreover have u: "unat (of_nat (length cs) :: u16) = length cs" using 2 by (simp add: unat_of_nat_small)
    moreover have "(of_nat (length cs) :: u16) \<noteq> 0" using 2 u by (metis length_0_conv unat_0)
    moreover have "rev \<noteq> 0" "\<not> rev \<le> base" using 2 by (auto simp: word_less_nat_alt word_le_nat_alt)
    ultimately have body': "if rev = 0 \<or> rev \<le> base \<or> (of_nat (length cs) :: u16) = 0 then False
        else \<exists>cs'. length cs' = unat (of_nat (length cs) :: u16) \<and> (\<forall>(i, e) \<in> set cs'. room_change i e) \<and>
          distinct (map fst cs') \<and> concat (map snd cs) = concat (map snd cs')"
      by simp
    show ?case unfolding 2 by (rule exI conjI refl body')+
  qed
qed

section \<open>Properties\<close>


definition verdict_ok :: "nat \<Rightarrow> MessageValidationResult \<Rightarrow> bool" where
  "verdict_ok n r \<longleftrightarrow> mv_status r = Valid \<or> (mv_status r = UnknownType \<and> mv_error r = ENone) \<or>
     (mv_status r = MalformedMsg \<and> mv_error r \<noteq> ENone \<and> mv_offset r \<le> n)"

lemma verdict_ok_simps:
  "verdict_ok n (fixedSize n k)" "verdict_ok n (validateEncryptedEnvelope n)"
  "verdict_ok n (mvResult UnknownType ENone 0)" "e \<noteq> ENone \<Longrightarrow> k \<le> n \<Longrightarrow> verdict_ok n (mvResult MalformedMsg e k)"
  by (auto simp: verdict_ok_def fixedSize_def validateEncryptedEnvelope_def mvResult_def mvValid_def)

lemma verdict_ok_readers:
  "verdict_ok (length d) (validateWith serverHelloReader (Some d) (length d))"
  "verdict_ok (length d) (validateWith serverAuthOkReader (Some d) (length d))"
  "verdict_ok (length d) (validateWith loginRespReader (Some d) (length d))"
  "verdict_ok (length d) (validateWith roomCreatedReader (Some d) (length d))"
  "verdict_ok (length d) (validateWith joinRespReader (Some d) (length d))"
  "verdict_ok (length d) (validateWith peerInfoReader (Some d) (length d))"
  "verdict_ok (length d) (validateWith peerIdReader (Some d) (length d))"
  "verdict_ok (length d) (validateWith roomListReader (Some d) (length d))"
  "verdict_ok (length d) (validateWith roomListPushReader (Some d) (length d))"
  "verdict_ok (length d) (validateWith errorReader (Some d) (length d))"
  "verdict_ok (length d) (validateWith relayDataReader (Some d) (length d))"
  unfolding verdict_ok_def
  using sHello.outcome [of d] sAuthOk.outcome [of d] sLogin.outcome [of d] sRoomCreated.outcome [of d]
    sJoinResp.outcome [of d] sPeerInfo.outcome [of d] sPeerId.outcome [of d] sRoomList.outcome [of d]
    sRoomListPush.outcome [of d] sError.outcome [of d] sRelay.outcome [of d]
  by blast+


end
