(* ===== verification/Cli_Session.thy ===== *)
theory Cli_Session
  imports Cli_Signal Signal_Language
begin

text \<open>
  The life of the signalling client under any owner.  \<open>client_ok\<close> is its invariant; the locale
  \<open>signal_owner\<close> is the contract between the client and the callbacks its owner installs: a callback
  keeps the invariant.  Every operation then does.  An owner that reacts to events by calling public
  operations, to any depth of nesting, fulfils the contract, so the invariant holds in every history.
\<close>

named_theorems client_keeps

section \<open>The invariant\<close>

text \<open>The keys a cipher has after it was set up for a session.\<close>

definition keyed :: "crypto \<Rightarrow> bytes \<Rightarrow> bool \<Rightarrow> string \<Rightarrow> SecureFrameCipher \<Rightarrow> bool" where
  "keyed C master side ctx c \<longleftrightarrow>
     (let k = initCipher C master side ctx newCipher in
      sc_initialized c \<and> sc_sendKey c = sc_sendKey k \<and> sc_recvKey c = sc_recvKey k \<and>
      sc_sendNonceSeed c = sc_sendNonceSeed k \<and> sc_recvNonceSeed c = sc_recvNonceSeed k)"

lemma keyed_init: "\<not> sc_initialized c \<Longrightarrow> keyed C master side ctx (initCipher C master side ctx c)"
  by (simp add: keyed_def initCipher_def Let_def newCipher_def resetCipher_def)

lemma keyed_encrypt [simp]: "keyed C master side ctx (snd (encryptFrame K p ad c)) = keyed C master side ctx c"
  by (simp add: keyed_def encryptFrame_def Let_def case_prod_unfold)

lemma recordCounter_keys [simp]:
  "sc_initialized (snd (recordCounter n c)) = sc_initialized c" "sc_sendKey (snd (recordCounter n c)) = sc_sendKey c"
  "sc_recvKey (snd (recordCounter n c)) = sc_recvKey c" "sc_sendNonceSeed (snd (recordCounter n c)) = sc_sendNonceSeed c"
  "sc_recvNonceSeed (snd (recordCounter n c)) = sc_recvNonceSeed c" "sc_sendCounter (snd (recordCounter n c)) = sc_sendCounter c"
  by (simp_all add: recordCounter_def Let_def)

lemma decrypt_keys [simp]:
  "sc_initialized (snd (decryptFrame K p ad c)) = sc_initialized c" "sc_sendKey (snd (decryptFrame K p ad c)) = sc_sendKey c"
  "sc_recvKey (snd (decryptFrame K p ad c)) = sc_recvKey c" "sc_sendNonceSeed (snd (decryptFrame K p ad c)) = sc_sendNonceSeed c"
  "sc_recvNonceSeed (snd (decryptFrame K p ad c)) = sc_recvNonceSeed c" "sc_sendCounter (snd (decryptFrame K p ad c)) = sc_sendCounter c"
  by (simp_all add: decryptFrame_def Let_def split: option.split)

lemma keyed_decrypt [simp]: "keyed C master side ctx (snd (decryptFrame K p ad c)) = keyed C master side ctx c"
  by (simp add: keyed_def)

lemma initialized_encrypt [simp]: "sc_initialized (snd (encryptFrame K p ad c)) = sc_initialized c"
  by (simp add: encryptFrame_def Let_def case_prod_unfold)

lemma initialized_reset [simp]: "\<not> sc_initialized (resetCipher c)"
  by (simp add: resetCipher_def)

lemma initialized_init [simp]: "sc_initialized (initCipher C master side ctx c)"
  by (simp add: initCipher_def Let_def resetCipher_def)

text \<open>
  The proof the client waits for is the one a server can compute that has derived the same master
  key and knows the same password hash.
\<close>

definition awaited :: "crypto \<Rightarrow> bytes \<Rightarrow> bytes \<Rightarrow> bytes \<Rightarrow> bytes \<Rightarrow> bytes \<Rightarrow> bytes \<Rightarrow> bytes \<Rightarrow> bool" where
  "awaited C expected master clientNonce serverNonce clientPub serverPub salt \<longleftrightarrow>
     (\<exists>hash shared. expected = computeServerAuthProof C master hash \<and> validX25519Shared shared \<and>
        master = deriveSecureMaster C shared hash clientNonce serverNonce clientPub serverPub salt AUTH_KDF_PROFILE)"

abbreviation awaits_proof :: "crypto \<Rightarrow> 'a CliSignalClient \<Rightarrow> bool" where
  "awaits_proof C s \<equiv> awaited C (sg_expectedServerProof s) (sg_secureMaster s) (sg_clientNonce s) (sg_serverNonce s)
     (sg_clientPubKey s) (sg_serverPubKey s) (sg_authSalt s)"

definition conn_ok :: "nat \<Rightarrow> TcpConnection \<Rightarrow> bool" where
  "conn_ok n t \<longleftrightarrow> length (tc_recvBuf t) \<le> n \<and> length (tc_sendBuf t) \<le> MAX_TCP_SEND_BUF \<and>
     (tc_connected t \<or> tc_connecting t \<longrightarrow> tc_fd t \<noteq> SOCK_INVALID) \<and> \<not> (tc_connected t \<and> tc_connecting t)"

definition secure_ok :: "crypto \<Rightarrow> 'a CliSignalClient \<Rightarrow> bool" where
  "secure_ok C s \<longleftrightarrow> length (sg_secureMaster s) = SECURE_KEY_SIZE \<and>
     sg_secureSessionId s = deriveSessionId C (sg_secureMaster s) \<and>
     keyed C (sg_secureMaster s) True ''signal'' (sg_secureCipher s)"

definition pending_ok :: "'a CliSignalClient \<Rightarrow> bool" where
  "pending_ok s \<longleftrightarrow> sg_authOperation s \<in> {0, 1, 2, 3} \<and>
     (sg_authOperation s = 1 \<longrightarrow> \<not> sg_secureReady s \<and> sg_secureMaster s = [] \<and> sg_serverAuthRequired s) \<and>
     (sg_authOperation s \<in> {2, 3} \<longrightarrow> sg_secureReady s) \<and>
     (sg_roomOperationPending s \<longrightarrow> sg_secureReady s)"

text \<open>
  \<open>n\<close> bounds the receive buffer.  With \<open>plain\<close> the client is not authenticated.  \<open>strict\<close> is dropped
  where the expected proof has been wiped and the connection is about to be closed.
\<close>

definition client_ok :: "crypto \<Rightarrow> bool \<Rightarrow> bool \<Rightarrow> nat \<Rightarrow> 'a CliSignalClient \<Rightarrow> bool" where
  "client_ok C strict plain n s \<longleftrightarrow>
     conn_ok n (sg_conn s) \<and> pending_ok s \<and>
     (tc_connecting (sg_conn s) \<longrightarrow> sg_secureMaster s = []) \<and>
     (plain \<longrightarrow> \<not> sg_secureReady s) \<and>
     (if sg_secureReady s then secure_ok C s else \<not> sc_initialized (sg_secureCipher s)) \<and>
     (strict \<and> \<not> sg_secureReady s \<and> sg_secureMaster s \<noteq> [] \<longrightarrow> awaits_proof C s)"

text \<open>The invariant of an authenticated client and of one that is not.\<close>

lemma client_ok_secure:
  "sg_secureReady s \<Longrightarrow> client_ok C st pl n s \<longleftrightarrow> conn_ok n (sg_conn s) \<and> sg_authOperation s \<in> {0, 2, 3} \<and> \<not> pl \<and>
     \<not> tc_connecting (sg_conn s) \<and> secure_ok C s"
  by (auto simp: client_ok_def pending_ok_def secure_ok_def)

lemma client_ok_plain:
  "\<not> sg_secureReady s \<Longrightarrow> client_ok C st pl n s \<longleftrightarrow> conn_ok n (sg_conn s) \<and> sg_authOperation s \<in> {0, 1} \<and>
     (sg_authOperation s = 1 \<longrightarrow> sg_secureMaster s = [] \<and> sg_serverAuthRequired s) \<and> \<not> sg_roomOperationPending s \<and>
     (tc_connecting (sg_conn s) \<longrightarrow> sg_secureMaster s = []) \<and> \<not> sc_initialized (sg_secureCipher s) \<and>
     (st \<and> sg_secureMaster s \<noteq> [] \<longrightarrow> awaits_proof C s)"
  by (auto simp: client_ok_def pending_ok_def)

lemmas ok_cases = client_ok_secure client_ok_plain secure_ok_def

lemma conn_ok_ops [simp]:
  "conn_ok n (tcReset t)"
  "conn_ok n t \<Longrightarrow> conn_ok n (snd (tcSendTcpMsg ty b t))"
  "conn_ok n (snd (tcConnectTo fd started t))"
  "conn_ok n t \<Longrightarrow> conn_ok n (snd (tcFlushSend sent again t))"
  by (auto simp: conn_ok_def tcSendTcpMsg_bounded tcConnectTo_def tcFlushSend_def Let_def)

section \<open>Resets\<close>

text \<open>After a reset of the secure state nothing is pending and nobody is authenticated.\<close>

lemma reset_fields [simp]:
  "sg_conn (sigResetSecureState s) = sg_conn s" "\<not> sg_secureReady (sigResetSecureState s)"
  "sg_authOperation (sigResetSecureState s) = 0" "\<not> sg_roomOperationPending (sigResetSecureState s)"
  "sg_secureMaster (sigResetSecureState s) = []" "\<not> sc_initialized (sg_secureCipher (sigResetSecureState s))"
  "sg_serverAuthRequired (sigResetSecureState s) = False" "sg_myPeerId (sigResetSecureState s) = sg_myPeerId s"
  "sg_disconnectNotified (sigResetSecureState s) = sg_disconnectNotified s"
  "sg_serverPassword (sigResetSecureState s) = sg_serverPassword s"
  by (simp_all add: sigResetSecureState_def sigResetRoomListState_def sigCancelRoomOperation_def Let_def)

lemma resetConn_fields [simp]:
  "sg_conn (sigResetConn s) = tcReset (sg_conn s)"
  "sg_secureReady (sigResetConn s) = sg_secureReady s" "sg_authOperation (sigResetConn s) = sg_authOperation s"
  "sg_disconnectNotified (sigResetConn s) = sg_disconnectNotified s"
  by (simp_all add: sigResetConn_def)

lemma cancel_fields [simp]:
  "sg_conn (sigCancelRoomOperation s) = sg_conn s" "sg_secureReady (sigCancelRoomOperation s) = sg_secureReady s"
  "sg_secureMaster (sigCancelRoomOperation s) = sg_secureMaster s" "sg_secureCipher (sigCancelRoomOperation s) = sg_secureCipher s"
  "sg_secureSessionId (sigCancelRoomOperation s) = sg_secureSessionId s" "\<not> sg_roomOperationPending (sigCancelRoomOperation s)"
  "sg_authOperation (sigCancelRoomOperation s) = (if sg_authOperation s \<in> {2, 3} then 0 else sg_authOperation s)"
  "sg_serverAuthRequired (sigCancelRoomOperation s) = sg_serverAuthRequired s"
  "sg_expectedServerProof (sigCancelRoomOperation s) = sg_expectedServerProof s"
  "sg_clientNonce (sigCancelRoomOperation s) = sg_clientNonce s" "sg_serverNonce (sigCancelRoomOperation s) = sg_serverNonce s"
  "sg_clientPubKey (sigCancelRoomOperation s) = sg_clientPubKey s" "sg_serverPubKey (sigCancelRoomOperation s) = sg_serverPubKey s"
  "sg_authSalt (sigCancelRoomOperation s) = sg_authSalt s" "sg_hasRoomFailureCb (sigCancelRoomOperation s) = sg_hasRoomFailureCb s"
  by (simp_all add: sigCancelRoomOperation_def Let_def)

lemma client_ok_reset [simp]: "conn_ok n (sg_conn s) \<Longrightarrow> client_ok C st pl n (sigResetSecureState s)"
  by (simp add: client_ok_def pending_ok_def)

lemma client_ok_resetConn [client_keeps]: "client_ok C st pl n s \<Longrightarrow> client_ok C st pl n (sigResetConn s)"
  by (cases "sg_secureReady s") (auto simp: ok_cases sigResetConn_def)

lemma client_ok_cancel [client_keeps]: "client_ok C st pl n s \<Longrightarrow> client_ok C st pl n (sigCancelRoomOperation s)"
  by (cases "sg_secureReady s") (auto simp: ok_cases)

lemma client_ok_conn: "client_ok C st pl n s \<Longrightarrow> conn_ok n (sg_conn s)"
  by (simp add: client_ok_def)

lemma client_ok_mono: "client_ok C st pl n s \<Longrightarrow> (st' \<longrightarrow> st) \<Longrightarrow> (pl' \<longrightarrow> pl) \<Longrightarrow> n \<le> n' \<Longrightarrow> client_ok C st' pl' n' s"
  by (auto simp: client_ok_def conn_ok_def)

section \<open>Fields the invariant does not read\<close>

definition core :: "'a CliSignalClient \<Rightarrow> 'a CliSignalClient \<Rightarrow> bool" where
  "core s t \<longleftrightarrow> sg_conn s = sg_conn t \<and> sg_authOperation s = sg_authOperation t \<and> sg_authSalt s = sg_authSalt t \<and>
     sg_expectedServerProof s = sg_expectedServerProof t \<and> sg_serverAuthRequired s = sg_serverAuthRequired t \<and>
     sg_secureReady s = sg_secureReady t \<and> sg_secureSessionId s = sg_secureSessionId t \<and>
     sg_clientNonce s = sg_clientNonce t \<and> sg_serverNonce s = sg_serverNonce t \<and>
     sg_clientPubKey s = sg_clientPubKey t \<and> sg_serverPubKey s = sg_serverPubKey t \<and>
     sg_secureMaster s = sg_secureMaster t \<and> sg_secureCipher s = sg_secureCipher t \<and>
     (sg_roomOperationPending s \<longrightarrow> sg_roomOperationPending t)"

lemma client_ok_core:
  assumes ok: "client_ok C st pl n t" and eq: "core s t"
  shows "client_ok C st pl n s"
proof -
  have p: "pending_ok s" using ok eq by (auto simp: pending_ok_def client_ok_def core_def)
  have "secure_ok C s = secure_ok C t" using eq by (simp add: secure_ok_def core_def)
  with p ok eq show ?thesis by (simp add: client_ok_def core_def)
qed

lemma client_ok_abandon [client_keeps]: "client_ok C st pl n s \<Longrightarrow> client_ok C st pl n (sigAbandonRoomOperation s)"
  by (rule client_ok_core [OF client_ok_cancel [of C st pl n s]]) (simp_all add: sigAbandonRoomOperation_def core_def)


lemma core_refl [simp]: "core s s"
  by (simp add: core_def)

lemma client_ok_room_request:
  "client_ok C st pl n s \<Longrightarrow> sg_secureReady s \<Longrightarrow> core t s \<or> core t (s\<lparr>sg_roomOperationPending := True\<rparr>) \<Longrightarrow> client_ok C st pl n t"
  by (auto simp: core_def ok_cases)

lemma client_ok_cipher:
  "client_ok C st pl n s \<Longrightarrow> client_ok C st pl n (s\<lparr>sg_secureCipher := snd (encryptFrame K p ad (sg_secureCipher s))\<rparr>)"
  "client_ok C st pl n s \<Longrightarrow> client_ok C st pl n (s\<lparr>sg_secureCipher := snd (decryptFrame K p ad (sg_secureCipher s))\<rparr>)"
  by (cases "sg_secureReady s"; simp add: ok_cases)+

lemma client_ok_setconn:
  "client_ok C st pl n s \<Longrightarrow> conn_ok m t \<Longrightarrow> (tc_connecting t \<Longrightarrow> tc_connecting (sg_conn s)) \<Longrightarrow> client_ok C st pl m (s\<lparr>sg_conn := t\<rparr>)"
  by (cases "sg_secureReady s") (auto simp: ok_cases)

lemma client_ok_connSend [client_keeps]: "client_ok C st pl n s \<Longrightarrow> client_ok C st pl n (sigConnSend ty bb s)"
  by (cases "sg_secureReady s") (simp_all add: sigConnSend_def ok_cases case_prod_unfold Let_def)

lemma client_ok_disconnect [client_keeps]: "client_ok C st pl n (sigDisconnect s)"
  by (rule client_ok_core [OF client_ok_reset [of n "sigResetConn s"]]) (simp_all add: sigDisconnect_def core_def)

definition handled_ok :: "crypto \<Rightarrow> bool \<Rightarrow> bool \<Rightarrow> nat \<Rightarrow> 'a handled \<Rightarrow> bool" where
  "handled_ok C st pl n r \<longleftrightarrow> (case r of None \<Rightarrow> True | Some (b, s) \<Rightarrow> client_ok C st pl n s)"

lemma handled_ok_simps [simp]: "handled_ok C st pl n None" "handled_ok C st pl n (Some (b, s)) = client_ok C st pl n s"
  by (simp_all add: handled_ok_def)

lemma handled_bind [client_keeps]: "(\<And>x. handled_ok C st pl n (f x)) \<Longrightarrow> handled_ok C st pl n (Option.bind m f)"
  by (cases m) auto

section \<open>The contract of the callbacks\<close>

locale signal_owner =
  fixes C :: crypto and app :: "'a app"
  assumes app_keeps [client_keeps]: "client_ok C st pl n s \<Longrightarrow> client_ok C st pl n (app e s)"
begin

lemma notify_keeps [client_keeps]: "client_ok C st pl n s \<Longrightarrow> client_ok C st pl n (sigNotifyDisconnectedOnce app s)"
  unfolding sigNotifyDisconnectedOnce_def
  by (simp add: app_keeps client_ok_core [where s = "s\<lparr>sg_disconnectNotified := True\<rparr>"] core_def)

text \<open>Whatever state a connection fails in, the failure establishes the whole invariant.\<close>

lemma fail_any: "client_ok C st pl n (sigNotifyDisconnectedOnce app (sigResetSecureState (sigResetConn s)))"
  by (simp add: notify_keeps)

lemma failFrame_keeps [client_keeps]: "client_ok C st pl n (sigFailSignalFrame app s)"
  by (simp add: sigFailSignalFrame_def fail_any)

lemma failAuth_keeps [client_keeps]: "client_ok C st pl n (sigFailAuthentication app code msg s)"
  by (simp add: sigFailAuthentication_def Let_def fail_any)

lemma rejectVersion_keeps [client_keeps]: "client_ok C st pl n (sigRejectVersion app s)"
  by (simp add: sigRejectVersion_def failFrame_keeps)

lemma sendMsg_keeps [client_keeps]: "client_ok C st pl n s \<Longrightarrow> client_ok C st pl n (sigSendMsg C app ty bb s)"
  unfolding sigSendMsg_def
  by (auto simp: case_prod_unfold Let_def fail_any intro!: client_ok_connSend client_ok_cipher)

lemma sendMsg0_keeps [client_keeps]: "client_ok C st pl n s \<Longrightarrow> client_ok C st pl n (sigSendMsg0 C app ty s)"
  by (simp add: sigSendMsg0_def sendMsg_keeps)

lemma listRooms_keeps [client_keeps]: "client_ok C st pl n s \<Longrightarrow> client_ok C st pl n (sigListRooms C app s)"
  by (simp add: sigListRooms_def sendMsg0_keeps)

lemma emit_keeps [client_keeps]: "client_ok C st pl n s \<Longrightarrow> client_ok C st pl n (sigEmitRoomList app b s)"
  by (simp add: sigEmitRoomList_def app_keeps)

lemma dropLate_keeps [client_keeps]: "client_ok C st pl n s \<Longrightarrow> client_ok C st pl n (sigDropLateRequest app s)"
  unfolding sigDropLateRequest_def Let_def
  by (auto intro!: client_keeps intro: client_ok_core [OF client_ok_abandon] simp: core_def)

subsection \<open>Public operations\<close>

lemma sendServerAuth_keeps [client_keeps]:
  "client_ok C st pl n s \<Longrightarrow> sg_serverAuthRequired s \<Longrightarrow> client_ok C st pl n (sigSendServerAuth app s)"
  unfolding sigSendServerAuth_def by (auto intro!: client_keeps) (simp add: ok_cases)

lemma room_request_keeps:
  assumes "client_ok C st pl n s" "sg_secureReady s" "core t (s\<lparr>sg_roomOperationPending := True\<rparr>)"
  shows "client_ok C st pl n (sigSendMsg C app ty bb t)"
  using assms by (blast intro: sendMsg_keeps client_ok_room_request)

lemma createRoom_keeps:
  assumes "client_ok C st pl n s"
  shows "client_ok C st pl n (sigCreateRoom C app name mx tp up mtu pw pass s)"
proof (cases "sg_roomOperationPending s \<or> sg_authOperation s \<noteq> 0 \<or> \<not> sg_secureReady s")
  case False
  let ?r = "s\<lparr>sg_roomOperationPending := True, sg_discardRoomResponses := False, sg_roomRequestStarted := sg_monoMs s\<rparr>"
  have r: "client_ok C st pl n ?r" using assms False by (auto intro!: client_ok_room_request [OF assms] simp: core_def)
  have salted: "client_ok C st pl n (s'\<lparr>sg_authSalt := salt\<rparr>)" if "core s' ?r" for s' salt
    using client_ok_core [OF r that] False that by (simp add: ok_cases core_def)
  have core: "core (snd (sigRandom 16 ?r)) ?r" by (auto simp: sigRandom_def core_def split: list.split)
  have "client_ok C st pl n (s'\<lparr>sg_roomOperationPending := False\<rparr>)" if "client_ok C st pl n s'" for s' :: "'a CliSignalClient"
    by (rule client_ok_core [OF that]) (simp add: core_def)
  moreover have "client_ok C st pl n (s'\<lparr>sg_pendingCreate := b, sg_pendingCreateMtu := m, sg_authOperation := 2, sg_authTask := k\<rparr>)"
    if "client_ok C st pl n s'" "sg_secureReady s'" for s' :: "'a CliSignalClient" and b m k
    using that by (simp add: ok_cases)
  moreover have "sg_secureReady (snd (sigRandom 16 ?r))" using core False by (simp add: core_def)
  ultimately show ?thesis
    using False salted [OF core] sendMsg_keeps [OF r]
    by (auto simp: sigCreateRoom_def Let_def case_prod_unfold intro!: app_keeps)
qed (use assms in \<open>auto simp: sigCreateRoom_def\<close>)

lemma joinRoom_keeps: "client_ok C st pl n s \<Longrightarrow> client_ok C st pl n (sigJoinRoom C app rid pw s)"
  unfolding sigJoinRoom_def by (auto intro!: room_request_keeps [of _ _ _ s] simp: core_def)

lemma resumeRoom_keeps: "client_ok C st pl n s \<Longrightarrow> client_ok C st pl n (sigResumeRoom C app rid pid tok s)"
  unfolding sigResumeRoom_def by (auto split: option.split intro!: room_request_keeps [of _ _ _ s] simp: core_def)

lemma leaveRoom_keeps: "client_ok C st pl n s \<Longrightarrow> client_ok C st pl n (sigLeaveRoom C app s)"
  unfolding sigLeaveRoom_def
  by (auto intro!: sendMsg0_keeps intro: client_ok_core [OF client_ok_cancel] simp: core_def)

lemma setPassword_keeps:
  assumes "client_ok C st pl n s"
  shows "client_ok C st pl n (sigSetServerPassword pw s)"
proof -
  have "client_ok C st pl n (s\<lparr>sg_authTask := k, sg_authOperation := 0\<rparr>)" for k
    using assms by (cases "sg_secureReady s") (auto simp: ok_cases)
  then have "client_ok C st pl n (if sg_authOperation s = 1 then s\<lparr>sg_authTask := kdfCancel (sg_authTask s), sg_authOperation := 0\<rparr> else s)"
    using assms by simp
  from client_ok_core [OF this] show ?thesis
    unfolding sigSetServerPassword_def Let_def by (simp add: client_ok_disconnect core_def)
qed

lemma connectTo_keeps: "client_ok C st pl n s \<Longrightarrow> client_ok C st pl n (snd (sigConnectTo fd started s))"
  by (simp add: sigConnectTo_def Let_def case_prod_unfold client_ok_def pending_ok_def)

lemmas op_keeps = sendMsg_keeps sendMsg0_keeps createRoom_keeps joinRoom_keeps resumeRoom_keeps leaveRoom_keeps
  setPassword_keeps connectTo_keeps client_ok_disconnect client_ok_abandon listRooms_keeps

subsection \<open>Messages\<close>

lemma serverHello_handled:
  assumes ok: "client_ok C st pl n s" and g: "\<not> sg_secureReady s" "sg_authOperation s = 0" "sg_secureMaster s = []"
  shows "handled_ok C st pl n (sigOnServerHello C app bb s)"
proof -
  have "client_ok C st pl n (s\<lparr>sg_serverAuthRequired := b\<rparr>)" for b using ok g by (simp add: ok_cases)
  then have insecure: "client_ok C st pl n (sigNotifyDisconnectedOnce app (sigResetConn (app e (s\<lparr>sg_serverAuthRequired := b\<rparr>))))" for e b
    by (intro notify_keeps client_ok_resetConn app_keeps)
  have h: "client_ok C st pl n (s\<lparr>sg_serverAuthRequired := True, sg_authSalt := a, sg_serverNonce := no, sg_serverPubKey := pu\<rparr>)"
    for a no pu using ok g by (simp add: ok_cases)
  have "handled_ok C st pl n (Some (True, if sg_serverPassword t = [] then app OnServerPasswordRequired t else sigSendServerAuth app t))"
    if "client_ok C st pl n t" "sg_serverAuthRequired t" for t using that by (simp add: client_keeps)
  from this [OF h] show ?thesis
    unfolding sigOnServerHello_def Let_def
    by (auto intro!: handled_bind split: prod.split simp: rejectVersion_keeps insecure failAuth_keeps)
qed

lemma accepted_ok:
  assumes "client_ok C st pl n s" "\<not> sg_secureReady s" "sg_authOperation s = 0" "length (sg_secureMaster s) = 32"
  shows "client_ok C st' False n (s\<lparr>sg_expectedServerProof := z, sg_secureSessionId := deriveSessionId C (sg_secureMaster s),
     sg_secureCipher := initCipher C (sg_secureMaster s) True ''signal'' (sg_secureCipher s), sg_secureReady := True\<rparr>)"
  using assms keyed_init [of "sg_secureCipher s" C "sg_secureMaster s" True "''signal''"] by (auto simp: ok_cases conn_ok_def)

text \<open>The answer to the client's proof: accepted exactly when it is the awaited one.\<close>

lemma serverAuthOk_refused:
  assumes "length (sg_secureMaster s) = 32"
    and "unread bb \<noteq> be32 (deriveSessionId C (sg_secureMaster s)) @ sg_expectedServerProof s" "length (unread bb) = 36"
  shows "handled_ok C st pl n (sigOnServerAuthOk C app bb s)"
proof -
  have "sid \<noteq> deriveSessionId C (sg_secureMaster s) \<or> proof' \<noteq> sg_expectedServerProof s"
    if "readU32 bb = Some (sid, bb1)" "readBytes 32 bb1 = Some (proof', bb2)" for sid proof' bb1 bb2
  proof (rule ccontr)
    assume "\<not> (sid \<noteq> deriveSessionId C (sg_secureMaster s) \<or> proof' \<noteq> sg_expectedServerProof s)"
    moreover have "be32 sid = take 4 (unread bb)" "proof' = drop 4 (unread bb)"
      using that assms(3) split32 [of "take 4 (unread bb)"]
      by (auto simp: readU32_unread readBytes_unread split: if_splits)
    ultimately show False using assms(2) by (metis append_take_drop_id)
  qed
  then show ?thesis
    using assms(1) unfolding sigOnServerAuthOk_def Let_def
    by (auto intro!: failAuth_keeps simp: crypto_verify32_def handled_ok_def split: prod.split option.split bind_splits)
qed

lemma serverAuthOk_handled:
  assumes ok: "client_ok C st pl n s" "\<not> sg_secureReady s" "sg_authOperation s = 0" "length (sg_secureMaster s) = 32"
  shows "handled_ok C st False n (sigOnServerAuthOk C app bb s)"
  unfolding sigOnServerAuthOk_def Let_def
  by (auto intro!: handled_bind app_keeps accepted_ok [OF ok] failAuth_keeps failFrame_keeps split: prod.split)

lemma finished_keeps: "client_ok C st pl n s \<Longrightarrow> client_ok C st pl n (s\<lparr>sg_roomOperationPending := False\<rparr>)"
  "client_ok C st pl n s \<Longrightarrow> client_ok C st pl n (s\<lparr>sg_pendingRoomPassword := [], sg_hasPendingAuth := False\<rparr>)"
  "client_ok C st pl n s \<Longrightarrow> client_ok C st pl n (s\<lparr>sg_roomOperationPending := False, sg_pendingRoomPassword := [], sg_hasPendingAuth := False\<rparr>)"
  "client_ok C st pl n s \<Longrightarrow> client_ok C st pl n (s\<lparr>sg_myPeerId := pid\<rparr>)"
  "client_ok C st pl n s \<Longrightarrow> client_ok C st pl n (s\<lparr>sg_pingSentTime := t\<rparr>)"
  "client_ok C st pl n s \<Longrightarrow> client_ok C st pl n (s\<lparr>sg_sendFailurePending := True\<rparr>)"
  "client_ok C st pl n s \<Longrightarrow> client_ok C st pl n (s\<lparr>sg_roomListCache := rs, sg_roomListRevision := rv\<rparr>)"
  "client_ok C st pl n s \<Longrightarrow> client_ok C st pl n (s\<lparr>sg_snapshotRooms := rs, sg_snapshotNextPage := w\<rparr>)"
  "client_ok C st pl n s \<Longrightarrow> client_ok C st pl n (s\<lparr>sg_snapshotRooms := rs, sg_snapshotNextPage := w, sg_roomListCache := rs, sg_roomListRevision := rv\<rparr>)"
  "client_ok C st pl n s \<Longrightarrow> client_ok C st pl n (s\<lparr>sg_snapshotRooms := rs, sg_snapshotRevision := rv, sg_snapshotPageCount := pc, sg_snapshotNextPage := w\<rparr>)"
  "client_ok C st pl n s \<Longrightarrow> client_ok C st pl n (s\<lparr>sg_snapshotRevision := rv, sg_snapshotPageCount := pc\<rparr>)"
  "client_ok C st pl n s \<Longrightarrow> client_ok C st pl n (sigDropSnapshot s)"
  by (erule client_ok_core; simp add: core_def sigDropSnapshot_def)+

lemma room_handled:
  assumes "client_ok C st pl n s"
  shows "handled_ok C st pl n (sigOnLoginResp app bb s)" "handled_ok C st pl n (sigOnRoomCreated app bb s)"
    "handled_ok C st pl n (sigOnJoinResp app bb s)" "handled_ok C st pl n (sigOnPeerInfo app ty bb s)"
    "handled_ok C st pl n (sigOnRelayData app bb s)" "handled_ok C st pl n (sigOnPong app s)"
  using assms dropLate_keeps [OF assms]
  unfolding sigOnLoginResp_def sigOnRoomCreated_def sigOnJoinResp_def sigOnPeerInfo_def sigOnRelayData_def sigOnPong_def Let_def
  by (auto intro!: handled_bind app_keeps finished_keeps rejectVersion_keeps split: prod.split)

lemma roomList_handled:
  assumes "client_ok C st pl n s"
  shows "handled_ok C st pl n (sigOnRoomList C app bb s)" "handled_ok C st pl n (sigOnRoomListPush C app bb s)"
  using assms unfolding sigOnRoomList_def sigOnRoomListPush_def Let_def
  by (auto intro!: handled_bind listRooms_keeps emit_keeps finished_keeps split: prod.split option.split)

lemma authChallenge_handled:
  assumes "client_ok C st pl n s" "sg_secureReady s"
  shows "handled_ok C st pl n (sigOnAuthChallenge app bb s)"
proof -
  have "client_ok C st pl n (s\<lparr>sg_hasPendingAuth := False, sg_authSalt := a, sg_roomChallenge := c, sg_authOperation := 3,
      sg_authTask := k, sg_pendingRoomPassword := []\<rparr>)" for a c k
    using assms by (simp add: ok_cases)
  with assms show ?thesis unfolding sigOnAuthChallenge_def Let_def
    by (auto intro!: handled_bind failAuth_keeps failFrame_keeps split: prod.split)
qed

lemma error_handled:
  assumes "client_ok C st pl n s"
  shows "handled_ok C st pl n (sigOnError app bb s)"
  using assms unfolding sigOnError_def Let_def
  by (auto intro!: handled_bind app_keeps finished_keeps failAuth_keeps client_ok_abandon client_ok_cancel split: prod.split)

lemma dispatch_handled:
  assumes ok: "client_ok C st pl n s" and t: "ty \<noteq> MSG_SERVER_HELLO" "ty \<noteq> MSG_SERVER_AUTH_OK"
    and sec: "ty = MSG_ERROR \<or> sg_secureReady s"
  shows "handled_ok C st pl n (sigDispatch C app ty bb s)"
proof -
  have "handled_ok C st pl n (if ty = MSG_AUTH_CHALLENGE then sigOnAuthChallenge app bb s else if ty = MSG_ERROR then sigOnError app bb s
      else Some (True, s))"
    using ok sec error_handled [OF ok] authChallenge_handled [OF ok] by auto
  moreover have "handled_ok C st pl n (Option.bind (readU32 bb) (\<lambda>(peerId, bb). Some (True, app (e peerId) s)))" for e
    using ok by (auto intro!: handled_bind app_keeps)
  ultimately show ?thesis
    using t ok room_handled [OF ok] roomList_handled [OF ok]
    unfolding sigDispatch_def by (simp add: app_keeps finished_keeps)
qed

text \<open>What makes an answer of the server an authentication.\<close>

lemma deliver_keeps:
  assumes ok: "client_ok C st pl n s" and t: "ty \<noteq> MSG_SERVER_HELLO" "ty \<noteq> MSG_SERVER_AUTH_OK" "ty = MSG_ERROR \<or> sg_secureReady s"
  shows "client_ok C st pl n (snd (sigDeliver C app ty payload len v s))"
proof -
  have "handled_ok C st pl n (Option.bind (mkByteBuffer payload len) (\<lambda>bb. sigDispatch C app ty bb s))"
    by (intro handled_bind dispatch_handled ok t)
  then show ?thesis
    using ok by (auto simp: sigDeliver_def failFrame_keeps split: option.split)
qed

lemma secure_message_keeps:
  assumes ok: "client_ok C st pl n s" and sec: "sg_secureReady s"
  shows "client_ok C st pl n (snd (sigProcessMessage C app ty payload len s))"
proof -
  note [simp] = failFrame_keeps failAuth_keeps
  have d: "client_ok C st pl n (s\<lparr>sg_secureCipher := snd (decryptFrame C f [] (sg_secureCipher s))\<rparr>)" for f
    by (rule client_ok_cipher(2) [OF ok])
  have "client_ok C st pl n (snd (sigDeliver C app t p l v (s\<lparr>sg_secureCipher := snd (decryptFrame C f [] (sg_secureCipher s))\<rparr>)))"
    if "t \<noteq> MSG_SERVER_HELLO" "t \<noteq> MSG_SERVER_AUTH_OK" for t p l v f
    using that sec by (intro deliver_keeps d) auto
  then show ?thesis
    using ok sec unfolding sigProcessMessage_def Let_def
    by (simp add: case_prod_unfold split: option.split list.split)
qed

lemma deliver_answer:
  assumes ok: "client_ok C st pl n s" "\<not> sg_secureReady s" "sg_authOperation s = 0" "length (sg_secureMaster s) = 32"
  shows "client_ok C st False n (snd (sigDeliver C app MSG_SERVER_AUTH_OK (framePtr p) (length p) v s))"
    and "length p = 36 \<Longrightarrow> p \<noteq> be32 (deriveSessionId C (sg_secureMaster s)) @ sg_expectedServerProof s \<Longrightarrow>
       client_ok C st pl n (snd (sigDeliver C app MSG_SERVER_AUTH_OK (framePtr p) (length p) v s))"
proof -
  let ?r = "Option.bind (mkByteBuffer (framePtr p) (length p)) (\<lambda>bb. sigDispatch C app MSG_SERVER_AUTH_OK bb s)"
  have d: "sigDispatch C app MSG_SERVER_AUTH_OK bb s = sigOnServerAuthOk C app bb s" for bb
    by (simp add: sigDispatch_def)
  have "handled_ok C st False n ?r" unfolding d by (intro handled_bind serverAuthOk_handled [OF ok])
  then show "client_ok C st False n (snd (sigDeliver C app MSG_SERVER_AUTH_OK (framePtr p) (length p) v s))"
    using client_ok_mono [OF ok(1), of st False n] by (auto simp: sigDeliver_def failFrame_keeps split: option.split)
  assume "length p = 36" "p \<noteq> be32 (deriveSessionId C (sg_secureMaster s)) @ sg_expectedServerProof s"
  then have "handled_ok C st pl n ?r"
    unfolding d by (auto simp: mkByteBuffer_def framePtr_def unread_def intro!: serverAuthOk_refused ok(4))
  then show "client_ok C st pl n (snd (sigDeliver C app MSG_SERVER_AUTH_OK (framePtr p) (length p) v s))"
    using ok(1) by (auto simp: sigDeliver_def failFrame_keeps split: option.split)
qed

lemma deliver_hello:
  assumes ok: "client_ok C st pl n s" "\<not> sg_secureReady s" "sg_authOperation s = 0" "sg_secureMaster s = []"
  shows "client_ok C st pl n (snd (sigDeliver C app MSG_SERVER_HELLO payload len v s))"
proof -
  have d: "sigDispatch C app MSG_SERVER_HELLO bb s = sigOnServerHello C app bb s" for bb
    by (simp add: sigDispatch_def)
  have "handled_ok C st pl n (Option.bind (mkByteBuffer payload len) (\<lambda>bb. sigDispatch C app MSG_SERVER_HELLO bb s))"
    unfolding d by (intro handled_bind serverHello_handled [OF ok])
  then show ?thesis using ok(1) by (auto simp: sigDeliver_def failFrame_keeps split: option.split)
qed

lemma auth_answer_length:
  assumes "p \<noteq> []" "mv_status (validateServerSignalPayload MSG_SERVER_AUTH_OK (framePtr p) (length p)) \<noteq> MalformedMsg"
  shows "length p = 36"
  using assms sAuthOk.valid_iff [of p]
  by (auto simp: validateServerSignalPayload_def framePtr_def validateWith_def mvIsValid_def mvValid_def malformed_def mvResult_def
      seqS_def split: sum.splits if_splits)

text \<open>A client that is not authenticated is so afterwards only by the answer it waits for.\<close>

lemma plain_message:
  assumes ok: "client_ok C st pl n s" and plain: "\<not> sg_secureReady s"
  shows "client_ok C st False n (snd (sigProcessMessage C app ty (framePtr p) (length p) s))"
    and "\<not> (ty = MSG_SERVER_AUTH_OK \<and> allowedPlainHandshake ty s \<and>
            p = be32 (deriveSessionId C (sg_secureMaster s)) @ sg_expectedServerProof s) \<Longrightarrow>
         client_ok C st pl n (snd (sigProcessMessage C app ty (framePtr p) (length p) s))"
proof -
  note [simp] = failFrame_keeps failAuth_keeps
  let ?v = "validateServerSignalPayload ty (framePtr p) (length p)"
  let ?d = "sigDeliver C app ty (framePtr p) (length p) ?v s"
  have w: "client_ok C st False n s" by (rule client_ok_mono [OF ok]) auto
  show "client_ok C st False n (snd (sigProcessMessage C app ty (framePtr p) (length p) s))"
  proof (cases "allowedPlainHandshake ty s")
    case True
    then have "client_ok C st False n (snd ?d)"
      using deliver_hello [OF w plain] deliver_answer(1) [OF ok plain] deliver_keeps [OF w, of MSG_ERROR]
      by (auto simp: allowedPlainHandshake_def)
    with True plain w show ?thesis by (auto simp: sigProcessMessage_def Let_def allowedPlainHandshake_def)
  qed (use plain in \<open>simp add: sigProcessMessage_def\<close>)
  assume no: "\<not> (ty = MSG_SERVER_AUTH_OK \<and> allowedPlainHandshake ty s \<and>
      p = be32 (deriveSessionId C (sg_secureMaster s)) @ sg_expectedServerProof s)"
  show "client_ok C st pl n (snd (sigProcessMessage C app ty (framePtr p) (length p) s))"
  proof (cases "allowedPlainHandshake ty s")
    case True
    have "client_ok C st pl n (snd ?d)" if "mv_status ?v \<noteq> MalformedMsg"
    proof (cases "ty = MSG_SERVER_AUTH_OK")
      case auth: True
      have g: "sg_authOperation s = 0" "length (sg_secureMaster s) = 32"
        using auth True by (simp_all add: allowedPlainHandshake_def)
      have "client_ok C st pl n (snd ?d)" if "p \<noteq> []"
        using deliver_answer(2) [OF ok plain g auth_answer_length [OF that]] \<open>mv_status ?v \<noteq> MalformedMsg\<close> auth True no by simp
      moreover have "client_ok C st pl n (snd ?d)" if "p = []"
        using that auth True ok
        by (simp add: sigDeliver_def framePtr_def mkByteBuffer_def sigDispatch_def sigOnServerAuthOk_def
            readU32_unread unread_def allowedPlainHandshake_def)
      ultimately show ?thesis by blast
    next
      case False
      then show ?thesis
        using True deliver_hello [OF ok plain] deliver_keeps [OF ok, of MSG_ERROR]
        by (auto simp: allowedPlainHandshake_def)
    qed
    with True plain ok show ?thesis by (auto simp: sigProcessMessage_def Let_def allowedPlainHandshake_def)
  qed (use plain in \<open>simp add: sigProcessMessage_def\<close>)
qed

lemma message_keeps:
  assumes "client_ok C st False n s"
  shows "client_ok C st False n (snd (sigProcessMessage C app ty (framePtr p) (length p) s))"
  using secure_message_keeps [OF assms] plain_message(1) [OF assms] by blast

subsection \<open>Timers and sockets\<close>

lemma finishServerAuth_keeps:
  assumes "client_ok C st pl n s" "\<not> sg_secureReady s" "sg_authOperation s = 0" "tc_connected (sg_conn s)"
  shows "client_ok C st pl n (sigFinishServerAuth C app hash s)"
proof -
  let ?sh = "cr_x25519 C (sg_clientPrivKey s) (sg_serverPubKey s)"
  let ?m = "deriveSecureMaster C ?sh hash (sg_clientNonce s) (sg_serverNonce s) (sg_clientPubKey s) (sg_serverPubKey s)
     (sg_authSalt s) AUTH_KDF_PROFILE"
  have "awaited C (computeServerAuthProof C ?m hash) ?m (sg_clientNonce s) (sg_serverNonce s) (sg_clientPubKey s)
      (sg_serverPubKey s) (sg_authSalt s)" if "validX25519Shared ?sh"
    using that unfolding awaited_def by blast
  with assms have "client_ok C st pl n (s\<lparr>sg_clientPrivKey := z, sg_expectedServerProof := computeServerAuthProof C ?m hash,
      sg_secureMaster := ?m\<rparr>)" if "validX25519Shared ?sh" for z
    using that by (auto simp: ok_cases conn_ok_def)
  then show ?thesis
    unfolding sigFinishServerAuth_def Let_def by (auto intro!: client_ok_connSend failAuth_keeps)
qed

lemma finishRoom_keeps:
  assumes "client_ok C st pl n s"
  shows "client_ok C st pl n (sigFinishCreate C app hash s)" "client_ok C st pl n (sigFinishRoomAuth C app hash s)"
proof -
  have f: "client_ok C st pl n (t\<lparr>sg_pendingCreate := x\<rparr>)" "client_ok C st pl n (t\<lparr>sg_roomChallenge := y\<rparr>)"
    if "client_ok C st pl n t" for t :: "'a CliSignalClient" and x y
    by (rule client_ok_core [OF that]; simp add: core_def)+
  show "client_ok C st pl n (sigFinishCreate C app hash s)"
    unfolding sigFinishCreate_def Let_def by (intro f sendMsg_keeps assms)
  show "client_ok C st pl n (sigFinishRoomAuth C app hash s)"
    unfolding sigFinishRoomAuth_def sigSendAuthResponse_def Let_def by (intro f sendMsg_keeps assms)
qed

lemma poll_keeps:
  assumes ok: "client_ok C st pl n s"
  shows "client_ok C st pl n (sigPollAuthTask C app s)"
proof -
  have z: "client_ok C st pl n (s\<lparr>sg_authTask := k, sg_authOperation := 0\<rparr>)" for k
    using ok by (cases "sg_secureReady s") (auto simp: ok_cases)
  have "\<not> sg_secureReady s" if "sg_authOperation s \<noteq> 0" "sg_authOperation s \<noteq> 2" "sg_authOperation s \<noteq> 3"
    using ok that by (auto simp: client_ok_def pending_ok_def)
  then show ?thesis
    unfolding sigPollAuthTask_def Let_def using ok z finishRoom_keeps [OF z] finishServerAuth_keeps [OF z]
    by (auto simp: failAuth_keeps split: prod.split option.split)
qed

lemma clientHello_keeps:
  assumes ok: "client_ok C st pl n s" and m: "sg_secureMaster s = []"
  shows "client_ok C st pl n (sigSendClientHello C app s)"
proof -
  have core: "core (snd (sigRandom k t)) t \<and> sg_secureMaster (snd (sigRandom k t)) = sg_secureMaster t" for k and t :: "'a CliSignalClient"
    by (auto simp: sigRandom_def core_def split: list.split)
  have "client_ok C st pl n (t\<lparr>sg_clientNonce := x\<rparr>) \<and> client_ok C st pl n (t\<lparr>sg_clientPrivKey := x\<rparr>) \<and>
      client_ok C st pl n (t\<lparr>sg_clientPubKey := x\<rparr>)" if "client_ok C st pl n t" "sg_secureMaster t = []" for t :: "'a CliSignalClient" and x
    using that by (cases "sg_secureReady t") (auto simp: ok_cases)
  note field = this
  have nonce: "client_ok C st pl n ((snd (sigRandom 16 s))\<lparr>sg_clientNonce := x\<rparr>)"
      "sg_secureMaster ((snd (sigRandom 16 s))\<lparr>sg_clientNonce := x\<rparr>) = []" for x
    using field [OF client_ok_core [OF ok]] core [of 16 s] m by auto
  have key: "client_ok C st pl n ((snd (sigRandom 32 ((snd (sigRandom 16 s))\<lparr>sg_clientNonce := x\<rparr>)))\<lparr>sg_clientPrivKey := y\<rparr>)"
      "sg_secureMaster ((snd (sigRandom 32 ((snd (sigRandom 16 s))\<lparr>sg_clientNonce := x\<rparr>)))\<lparr>sg_clientPrivKey := y\<rparr>) = []" for x y
    using field [OF client_ok_core [OF nonce(1)]] core [of 32 "(snd (sigRandom 16 s))\<lparr>sg_clientNonce := x\<rparr>"] nonce(2) by auto
  have nokey: "client_ok C st pl n ((snd (sigRandom 16 s))\<lparr>sg_clientNonce := x, sg_clientPrivKey := y\<rparr>)" for x y
    using field [OF nonce] by auto
  show ?thesis
    unfolding sigSendClientHello_def Let_def case_prod_unfold
    using field [OF key] nokey key nonce(1)
    by (auto intro!: notify_keeps client_ok_resetConn app_keeps client_ok_connSend)
qed

lemma writable_keeps:
  assumes ok: "client_ok C st pl n s"
  shows "client_ok C st pl n (sigOnWritable C app err sent again s)"
proof (cases "tc_connecting (sg_conn s)")
  case True
  then have m: "sg_secureMaster s = []" using ok by (simp add: client_ok_def)
  have "client_ok C st pl n (s\<lparr>sg_conn := (sg_conn s)\<lparr>tc_connecting := False, tc_connected := True, tc_lastRecvTime := sg_nowMs s\<rparr>,
      sg_authStartedMs := sg_nowMs s\<rparr>)"
    by (rule client_ok_core [OF client_ok_setconn [OF ok]]) (use client_ok_conn [OF ok] True in \<open>auto simp: conn_ok_def core_def\<close>)
  with True m show ?thesis
    unfolding sigOnWritable_def by (auto intro!: clientHello_keeps app_keeps client_ok_resetConn ok)
next
  case False
  have "client_ok C st pl n (s\<lparr>sg_conn := snd (tcFlushSend sent again (sg_conn s))\<rparr>)"
    by (rule client_ok_setconn [OF ok]) (use client_ok_conn [OF ok] in \<open>auto simp: conn_ok_def tcFlushSend_def split: if_splits\<close>)
  with False show ?thesis
    unfolding sigOnWritable_def by (simp add: case_prod_unfold Let_def fail_any)
qed

lemma timeouts_keep:
  assumes ok: "client_ok C st pl n s"
  shows "client_ok C st pl n (sigCheckTimeouts C app s)"
  unfolding sigCheckTimeouts_def Let_def
  using poll_keeps [OF ok] client_ok_abandon [OF ok]
  by (auto intro!: app_keeps client_ok_resetConn failAuth_keeps fail_any finished_keeps)

text \<open>The frame loop ends, because no callback lengthens the receive buffer, and keeps the invariant.\<close>

lemma readLoop_ends:
  assumes "client_ok C st False n s"
  shows "\<exists>s'. sigReadLoop C app s = Some s' \<and> client_ok C st False n s'"
  using assms
proof (induction "length (tc_recvBuf (sg_conn s))" arbitrary: s rule: less_induct)
  case less
  define buf where "buf = tc_recvBuf (sg_conn s)"
  define frame where "frame = probeTcpFrame (Some buf) (length buf)"
  define p where "p = take (unat (fp_payloadLength frame)) (drop 3 buf)"
  define s1 where "s1 = s\<lparr>sg_conn := (sg_conn s)\<lparr>tc_recvBuf := drop (fp_frameLength frame) buf\<rparr>\<rparr>"
  define r where "r = sigProcessMessage C app (fp_msgType frame) (framePtr p) (length p) s1"
  have step: "sigReadLoop C app s =
     (if length buf < 3 then Some s
      else if fp_status frame = Malformed then Some (sigFailSignalFrame app s)
      else if fp_status frame = NeedMore then Some s
      else if \<not> fst r \<or> \<not> tc_connected (sg_conn (snd r)) then Some (snd r)
      else sigReadLoop C app (snd r))"
    by (subst sigReadLoop.simps) (simp add: Let_def buf_def frame_def p_def s1_def r_def)
  have small: "client_ok C st False (min n (length buf - fp_frameLength frame)) s1"
    unfolding s1_def by (rule client_ok_setconn [OF less.prems]) (use client_ok_conn [OF less.prems] in \<open>auto simp: conn_ok_def buf_def\<close>)
  then have r: "client_ok C st False (min n (length buf - fp_frameLength frame)) (snd r)"
    unfolding r_def by (rule message_keeps)
  then have rn: "client_ok C st False n (snd r)" by (rule client_ok_mono) auto
  have "3 \<le> fp_frameLength frame" if "\<not> length buf < 3" "fp_status frame \<noteq> Malformed"
    using that by (auto simp: frame_def probeTcpFrame_def Let_def split: if_splits)
  with r have "length (tc_recvBuf (sg_conn (snd r))) < length buf" if "\<not> length buf < 3" "fp_status frame \<noteq> Malformed"
    using that by (fastforce simp: client_ok_def conn_ok_def)
  with less.hyps [OF _ rn] less.prems rn show ?case
    unfolding step buf_def [symmetric] by (auto simp: failFrame_keeps)
qed

lemma readable_ends:
  assumes ok: "client_ok C st False (1024 * 1024) s"
  shows "\<exists>s'. sigOnReadable C app incoming s = Some s' \<and> client_ok C st False (1024 * 1024) s'"
proof -
  let ?s = "s\<lparr>sg_conn := snd (tcReadData (sg_nowMs s) incoming (sg_conn s))\<rparr>"
  have "client_ok C st False (1024 * 1024) ?s" if "\<not> length (tc_recvBuf (sg_conn ?s)) > 1024 * 1024"
    using that client_ok_conn [OF ok]
    by (intro client_ok_setconn [OF ok]) (auto simp: conn_ok_def tcReadData_def Let_def split: if_splits)
  from readLoop_ends [OF this] show ?thesis
    unfolding sigOnReadable_def by (auto simp: case_prod_unfold Let_def failFrame_keeps fail_any)
qed

end

section \<open>Owners that use the public operations\<close>

datatype sig_call =
    ConnectTo int bool | Disconnect | SetServerPassword bytes | ContinueServerAuth
  | Login bytes "(u32 \<times> u32 \<times> bytes) option"
  | CreateRoom bytes u8 RoomTrafficPolicy RoomTrafficPolicy u16 bool bytes
  | JoinRoom u32 bytes | ResumeRoom u32 u32 "bytes option" | LeaveRoom | Logout | AbandonRoomOperation
  | ListRooms | RequestRelay u32 | SendRelayData u32 u32 u8 bytes | SendPing | SendAuthResponse bytes

fun sigCall :: "crypto \<Rightarrow> 'a app \<Rightarrow> sig_call \<Rightarrow> 'a sig_op" where
  "sigCall C app (ConnectTo fd started) s = snd (sigConnectTo fd started s)"
| "sigCall C app Disconnect s = sigDisconnect s"
| "sigCall C app (SetServerPassword pw) s = sigSetServerPassword pw s"
| "sigCall C app ContinueServerAuth s = sigContinueServerAuth app s"
| "sigCall C app (Login name resume) s = sigLogin C app name resume s"
| "sigCall C app (CreateRoom name mx tp up mtu pw pass) s = sigCreateRoom C app name mx tp up mtu pw pass s"
| "sigCall C app (JoinRoom rid pw) s = sigJoinRoom C app rid pw s"
| "sigCall C app (ResumeRoom rid pid tok) s = sigResumeRoom C app rid pid tok s"
| "sigCall C app LeaveRoom s = sigLeaveRoom C app s"
| "sigCall C app Logout s = sigLogout C app s"
| "sigCall C app AbandonRoomOperation s = sigAbandonRoomOperation s"
| "sigCall C app ListRooms s = sigListRooms C app s"
| "sigCall C app (RequestRelay pid) s = sigRequestRelay C app pid s"
| "sigCall C app (SendRelayData src dst cls d) s = sigSendRelayData C app src dst cls d s"
| "sigCall C app SendPing s = sigSendPing C app s"
| "sigCall C app (SendAuthResponse r) s = sigSendAuthResponse C app r s"

text \<open>
  An owner is a function \<open>react\<close> from the event, the client it can read and its own state to the calls
  it makes and its new state.  A call made inside a callback may raise further events; \<open>d\<close> bounds how
  deep the reactions nest, and is arbitrary in the theorems.
\<close>

type_synonym 'a reaction = "signal_event \<Rightarrow> 'a CliSignalClient \<Rightarrow> sig_call list \<times> 'a"

primrec ownerAt :: "crypto \<Rightarrow> 'a reaction \<Rightarrow> nat \<Rightarrow> 'a app" where
  "ownerAt C react 0 = (\<lambda>e s. s\<lparr>sg_app := snd (react e s)\<rparr>)"
| "ownerAt C react (Suc d) = (\<lambda>e s. fold (sigCall C (ownerAt C react d)) (fst (react e s)) (s\<lparr>sg_app := snd (react e s)\<rparr>))"

text \<open>What happens to a client: calls of its owner, sockets, timers, the clock, the worker thread.\<close>

datatype sig_step =
    Call sig_call | Writable int int bool | Readable bytes | Tick | Clock u32 u64 | Entropy "bytes option list"
  | WorkerTake | WorkerPublish bool u64

fun sigStep :: "crypto \<Rightarrow> 'a app \<Rightarrow> sig_step \<Rightarrow> 'a CliSignalClient \<Rightarrow> 'a CliSignalClient option" where
  "sigStep C app (Call c) s = Some (sigCall C app c s)"
| "sigStep C app (Writable err sent again) s = Some (sigOnWritable C app err sent again s)"
| "sigStep C app (Readable incoming) s = sigOnReadable C app incoming s"
| "sigStep C app Tick s = Some (sigCheckTimeouts C app s)"
| "sigStep C app (Clock now ms) s = Some (s\<lparr>sg_nowMs := now, sg_monoMs := ms\<rparr>)"
| "sigStep C app (Entropy rs) s = Some (s\<lparr>sg_randoms := rs\<rparr>)"
| "sigStep C app WorkerTake s = Some (s\<lparr>sg_authTask := workerTake (sg_authTask s)\<rparr>)"
| "sigStep C app (WorkerPublish ok ms) s = Some (s\<lparr>sg_authTask := workerPublish C ok ms (sg_authTask s)\<rparr>)"

fun sigRun :: "crypto \<Rightarrow> 'a app \<Rightarrow> sig_step list \<Rightarrow> 'a CliSignalClient \<Rightarrow> 'a CliSignalClient option" where
  "sigRun C app [] s = Some s"
| "sigRun C app (e # es) s = Option.bind (sigStep C app e s) (sigRun C app es)"

context signal_owner
begin

lemma call_keeps: "client_ok C st pl n s \<Longrightarrow> client_ok C st pl n (sigCall C app c s)"
  by (cases c)
     (simp_all add: op_keeps sigContinueServerAuth_def sigLogin_def Let_def sigLogout_def sigRequestRelay_def
       sigSendRelayData_def sigSendPing_def sigSendAuthResponse_def sendServerAuth_keeps finished_keeps)

lemma calls_keep: "client_ok C st pl n s \<Longrightarrow> client_ok C st pl n (fold (sigCall C app) cs s)"
  by (induction cs arbitrary: s) (auto intro: call_keeps)

lemma step_ends:
  assumes ok: "client_ok C st False (1024 * 1024) s"
  shows "\<exists>s'. sigStep C app e s = Some s' \<and> client_ok C st False (1024 * 1024) s'"
proof -
  have "client_ok C st False (1024 * 1024) (s\<lparr>sg_nowMs := a, sg_monoMs := b\<rparr>)" "client_ok C st False (1024 * 1024) (s\<lparr>sg_randoms := rs\<rparr>)"
    "client_ok C st False (1024 * 1024) (s\<lparr>sg_authTask := k\<rparr>)" for a b rs k
    by (rule client_ok_core [OF ok]; simp add: core_def)+
  then show ?thesis
    using ok readable_ends [OF ok] by (cases e) (auto intro: call_keeps writable_keeps timeouts_keep)
qed

lemma run_ends:
  "client_ok C st False (1024 * 1024) s \<Longrightarrow> \<exists>s'. sigRun C app es s = Some s' \<and> client_ok C st False (1024 * 1024) s'"
proof (induction es arbitrary: s)
  case (Cons e es)
  from step_ends [OF Cons.prems] obtain t where "sigStep C app e s = Some t" "client_ok C st False (1024 * 1024) t" by blast
  with Cons.IH [of t] show ?case by simp
qed simp

end

lemma ownerAt_owner: "signal_owner C (ownerAt C react d)"
proof (induction d)
  case 0
  show ?case by unfold_locales (auto intro: client_ok_core simp: core_def)
next
  case (Suc d)
  show ?case
    by unfold_locales (auto intro!: signal_owner.calls_keep [OF Suc] intro: client_ok_core simp: core_def)
qed

interpretation owned: signal_owner C "ownerAt C react d" for C react d
  by (rule ownerAt_owner)

lemma new_client_ok: "client_ok C st pl n (newCliSignalClient cb a)"
  by (simp add: client_ok_def pending_ok_def conn_ok_def newCliSignalClient_def newTcpConnection_def newCipher_def)

section \<open>Properties\<close>

text \<open>
  C17. The signalling client is sound under every owner: whatever the owner does in its callbacks with the
  public operations, however deep they nest, and whatever the server, the sockets, the clock, the random
  generator and the hashing thread do, the client handles every event to its end (its frame loop
  included) and keeps its invariant: the receive buffer holds at most one mebibyte and the send buffer
  at most its cap; when the client is authenticated its session number and its cipher are those of a
  32-byte master key, when it is not its cipher is unusable, no room request and no room hash is
  pending, and a master key that waits for the server's answer was derived from a key exchange with a
  non-trivial secret and the hash whose proof the client expects.
\<close>

theorem client_always_sound:
  "\<exists>s. sigRun C (ownerAt C react d) es (newCliSignalClient cb a) = Some s \<and> client_ok C True False (1024 * 1024) s"
  by (rule owned.run_ends [OF new_client_ok])

text \<open>
  C18. The client trusts nobody but the server it exchanged keys with: a message makes an unauthenticated client
  authenticated only if it is the answer to its proof, carrying the session number of the derived
  master key and the server's proof under the hash the master key was derived with.
\<close>

theorem client_trusts_only_server_proof:
  assumes "client_ok C True False n s" "\<not> sg_secureReady s"
    and "sg_secureReady (snd (sigProcessMessage C (ownerAt C react d) ty (framePtr p) (length p) s))"
  shows "ty = MSG_SERVER_AUTH_OK \<and> (\<exists>hash shared.
     sg_secureMaster s = deriveSecureMaster C shared hash (sg_clientNonce s) (sg_serverNonce s) (sg_clientPubKey s)
       (sg_serverPubKey s) (sg_authSalt s) AUTH_KDF_PROFILE \<and>
     p = be32 (deriveSessionId C (sg_secureMaster s)) @ computeServerAuthProof C (sg_secureMaster s) hash)"
proof -
  have ok: "client_ok C True True n s" using assms(1,2) by (simp add: client_ok_def)
  have "ty = MSG_SERVER_AUTH_OK \<and> allowedPlainHandshake ty s \<and>
      p = be32 (deriveSessionId C (sg_secureMaster s)) @ sg_expectedServerProof s"
    using owned.plain_message(2) [OF ok assms(2), of ty p] assms(3) by (auto simp: client_ok_def)
  moreover from this have "awaits_proof C s"
    using ok assms(2) by (auto simp: client_ok_def allowedPlainHandshake_def)
  ultimately show ?thesis unfolding awaited_def by auto
qed

definition demo_master :: bytes where
  "demo_master = deriveSecureMaster demo_crypto [1] [] [] [] [] [] [] AUTH_KDF_PROFILE"

definition demo_client :: "unit CliSignalClient" where
  "demo_client = (newCliSignalClient True ())\<lparr>sg_conn := newTcpConnection\<lparr>tc_fd := 3, tc_connected := True\<rparr>,
     sg_serverAuthRequired := True, sg_secureMaster := demo_master,
     sg_expectedServerProof := computeServerAuthProof demo_crypto demo_master [],
     sg_clientNonce := [], sg_serverNonce := [], sg_clientPubKey := [], sg_serverPubKey := [], sg_authSalt := []\<rparr>"

definition silent :: "unit reaction" where
  "silent = (\<lambda>e s. ([], ()))"

lemma demo_client_ok: "client_ok demo_crypto True False 0 demo_client"
proof -
  have "validX25519Shared [1]" by (simp add: validX25519Shared_def crypto_verify32_def numeral_eq_Suc)
  then have "awaited demo_crypto (computeServerAuthProof demo_crypto demo_master []) demo_master [] [] [] [] []"
    unfolding awaited_def demo_master_def by blast
  then show ?thesis
    by (simp add: client_ok_def pending_ok_def conn_ok_def demo_client_def newCliSignalClient_def newTcpConnection_def newCipher_def)
qed

theorem client_trusts_only_server_proof_witness:
  defines "p \<equiv> be32 (deriveSessionId demo_crypto demo_master) @ computeServerAuthProof demo_crypto demo_master []"
  shows "sg_secureReady (snd (sigProcessMessage demo_crypto (ownerAt demo_crypto silent 1) MSG_SERVER_AUTH_OK
       (framePtr p) (length p) demo_client)) \<and>
     (\<exists>hash. p = be32 (deriveSessionId demo_crypto demo_master) @ computeServerAuthProof demo_crypto demo_master hash)"
proof -
  have "\<not> sg_secureReady demo_client" by (simp add: demo_client_def newCliSignalClient_def)
  moreover have "sg_secureReady (snd (sigProcessMessage demo_crypto (ownerAt demo_crypto silent 1) MSG_SERVER_AUTH_OK
      (framePtr p) (length p) demo_client))"
    unfolding p_def by code_simp
  ultimately show ?thesis
    using client_trusts_only_server_proof [OF demo_client_ok, of silent 1 MSG_SERVER_AUTH_OK p]
    by (auto simp: demo_client_def)
qed

end
