(* ===== verification/Cli_Handshake.thy ===== *)
theory Cli_Handshake
  imports Cli_Session Server_Frame
begin

text \<open>
  The signalling client of the command-line program and the relay server together: the handshake ends
  with both sides holding the same master key, and what the client sends afterwards is what the
  server reads.
\<close>

section \<open>What the key exchange and the hash functions promise\<close>

text \<open>
  The documented behaviour of the library: digests have the length asked for, and the two sides of a key
  exchange compute the same secret.
\<close>

definition digests_sized :: "crypto \<Rightarrow> bool" where
  "digests_sized C \<longleftrightarrow> (\<forall>n m. length (cr_blake2b C n m) = n) \<and> (\<forall>n k m. length (cr_blake2b_keyed C n k m) = n)"

definition exchange_agrees :: "crypto \<Rightarrow> bool" where
  "exchange_agrees C \<longleftrightarrow> (\<forall>a b. cr_x25519 C a (cr_x25519_public_key C b) = cr_x25519 C b (cr_x25519_public_key C a))"

section \<open>The client's half\<close>

text \<open>An owner that makes no calls and only notes the events.\<close>

definition recorder :: "signal_event list reaction" where
  "recorder = (\<lambda>e s. ([], sg_app s @ [e]))"

abbreviation recording :: "crypto \<Rightarrow> signal_event list app" where
  "recording C \<equiv> ownerAt C recorder 0"

lemma serverHelloBody_bytes: "serverHelloBody salt nonce pub = be16 9 @ [1, 1] @ salt @ nonce @ pub"
  by (simp add: serverHelloBody_def)

lemma serverAuthOkBody_bytes: "serverAuthOkBody sid pf = be32 sid @ pf"
  by (simp add: serverAuthOkBody_def)

lemma validateWith_status: "mv_status (validateWith r d n) = (if mvIsValid (validateWith r d n) then Valid else MalformedMsg)"
  by (auto simp: validateWith_def mvIsValid_def mvValid_def malformed_def mvResult_def split: sum.split)

lemma hello_valid:
  assumes "length salt = 16" "length nonce = 16" "length pub = 32"
  defines "p \<equiv> be16 9 @ [1, 1] @ salt @ nonce @ pub"
  shows "mv_status (validateServerSignalPayload MSG_SERVER_HELLO (framePtr p) (length p)) = Valid"
proof -
  have "mvIsValid (validateWith serverHelloReader (Some p) (length p))"
    using assms unfolding sHello.valid_iff [OF refl] seqS_def p_def
    by (intro exI [of _ 9] exI [of _ "be16 9"] conjI exI [of _ 1] exI [of _ "[1]"] exI [of _ "[1] @ salt @ nonce @ pub"] exI) simp_all
  then show ?thesis by (simp add: validateServerSignalPayload_def framePtr_def p_def validateWith_status)
qed

lemma answer_valid:
  assumes "length pf = 32" "sid \<noteq> 0"
  defines "p \<equiv> be32 sid @ pf"
  shows "mv_status (validateServerSignalPayload MSG_SERVER_AUTH_OK (framePtr p) (length p)) = Valid"
proof -
  have "mvIsValid (validateWith serverAuthOkReader (Some p) (length p))"
    using assms unfolding sAuthOk.valid_iff [OF refl] seqS_def p_def
    by (intro exI [of _ sid] exI [of _ "be32 sid"] exI [of _ pf] conjI exI [of _ "[]"]) simp_all
  then show ?thesis by (simp add: validateServerSignalPayload_def framePtr_def p_def validateWith_status)
qed

text \<open>A connected client with a password that has sent its hello and waits for the server's.\<close>

definition awaits_hello :: "bytes \<Rightarrow> 'a CliSignalClient \<Rightarrow> bool" where
  "awaits_hello pw s \<longleftrightarrow> \<not> sg_secureReady s \<and> \<not> sg_serverAuthRequired s \<and> sg_authOperation s = 0 \<and>
     sg_secureMaster s = [] \<and> tc_connected (sg_conn s) \<and> sg_serverPassword s = pw \<and> pw \<noteq> [] \<and>
     \<not> sc_initialized (sg_secureCipher s) \<and>
     (kt_worker (sg_authTask s) = NotStarted \<or> kt_worker (sg_authTask s) = Waiting) \<and> \<not> kt_stop (sg_authTask s) \<and>
     length (tc_sendBuf (sg_conn s)) + 35 \<le> MAX_TCP_SEND_BUF \<and> tc_recvBuf (sg_conn s) = [] \<and>
     \<not> sg_sendFailurePending s \<and> \<not> sg_roomOperationPending s \<and> sg_nowMs s - sg_authStartedMs s \<le> 120000"

lemma hello_processed:
  assumes s: "awaits_hello pw s" and len: "length salt = 16" "length nonce = 16" "length pub = 32"
  defines "p \<equiv> serverHelloBody salt nonce pub"
  shows "sigProcessMessage C app MSG_SERVER_HELLO (framePtr p) (length p) s =
     (True, s\<lparr>sg_serverAuthRequired := True, sg_authSalt := salt, sg_serverNonce := nonce, sg_serverPubKey := pub,
        sg_authOperation := 1, sg_authTask := kdfStart pw salt (sg_authTask s)\<rparr>)"
proof -
  have p: "p = be16 9 @ [1, 1] @ salt @ nonce @ pub" by (simp add: p_def serverHelloBody_bytes)
  have v: "mv_status (validateServerSignalPayload MSG_SERVER_HELLO (framePtr p) (length p)) = Valid"
    unfolding p by (rule hello_valid [OF len])
  have d: "mkByteBuffer (framePtr p) (length p) = Some \<lparr>bb_data = p, bb_readPos = 0\<rparr>"
    by (simp add: mkByteBuffer_def framePtr_def p)
  have "unread \<lparr>bb_data = p, bb_readPos = 0\<rparr> = be16 9 @ 1 # 1 # salt @ nonce @ pub" by (simp add: unread_def p)
  then have "sigOnServerHello C app \<lparr>bb_data = p, bb_readPos = 0\<rparr> s = Some (True, sigSendServerAuth app
      (s\<lparr>sg_serverAuthRequired := True, sg_authSalt := salt, sg_serverNonce := nonce, sg_serverPubKey := pub\<rparr>))"
    using len s by (simp add: sigOnServerHello_def u16c.get_enc readU8_unread readBytes_unread awaits_hello_def)
  then show ?thesis
    using s v by (simp add: sigProcessMessage_def awaits_hello_def allowedPlainHandshake_def Let_def sigDeliver_def d
        sigDispatch_def sigSendServerAuth_def)
qed

lemma hash_ready:
  assumes "kt_worker k = NotStarted \<or> kt_worker k = Waiting" "\<not> kt_stop k" "length salt = 16"
    and "hashPasswordSalted C True pw salt AUTH_KDF_PROFILE = (True, hash)"
  shows "\<exists>k'. kdfPoll (workerPublish C True ms (workerTake (kdfStart pw salt k))) =
     (Some \<lparr>kr_hash = hash, kr_success = True, kr_elapsedMs = ms\<rparr>, k')"
  using assms by (auto simp: kdfStart_def cancelLocked_def Let_def workerTake_def workerPublish_def kdfPoll_def)

text \<open>One whole frame in an empty receive buffer is one message.\<close>

lemma read_one_frame:
  assumes r: "tc_recvBuf (sg_conn s) = []" and p: "p \<noteq> []" "length p \<le> 65000"
    and m: "sigProcessMessage C app ty (framePtr p) (length p) (s\<lparr>sg_conn := (sg_conn s)\<lparr>tc_lastRecvTime := sg_nowMs s\<rparr>\<rparr>) = (True, s')"
    and s': "tc_recvBuf (sg_conn s') = []"
  shows "sigOnReadable C app (tcp_frame ty p) s = Some s'"
proof -
  let ?b = "tcp_frame ty p"
  let ?s = "s\<lparr>sg_conn := (sg_conn s)\<lparr>tc_recvBuf := ?b, tc_lastRecvTime := sg_nowMs s\<rparr>\<rparr>"
  have l: "length ?b \<le> 65536" "?b \<noteq> []" using p by (auto simp: tcp_frame_def)
  have probe: "probeTcpFrame (Some ?b) (length ?b) = \<lparr>fp_status = Ready, fp_msgType = ty, fp_payloadLength = of_nat (length p),
      fp_frameLength = 3 + length p\<rparr>"
    using p(2) probe_header [of p "length ?b" ty "[]"] unat_length_u16 [of p]
    by (simp add: probeTcpFrame_def Let_def)
  have z: "((sg_conn s)\<lparr>tc_lastRecvTime := t, tc_recvBuf := []\<rparr>) = (sg_conn s)\<lparr>tc_lastRecvTime := t\<rparr>" for t
    using r by (cases "sg_conn s") simp
  have "sigReadLoop C app ?s = (if tc_connected (sg_conn s') then sigReadLoop C app s' else Some s')"
    using p(2) m z unat_length_u16 [of p] probe
    by (subst sigReadLoop.simps) (simp add: Let_def tcp_frame_def)
  moreover have "sigReadLoop C app s' = Some s'"
    by (subst sigReadLoop.simps) (simp add: s' Let_def)
  ultimately show ?thesis
    using r l by (simp add: sigOnReadable_def tcReadData_def Let_def)
qed

section \<open>Both halves\<close>

text \<open>A session of the server that has sent its hello to this client, for the same password.\<close>

definition paired :: "crypto \<Rightarrow> SignalServer \<Rightarrow> ClientSession \<Rightarrow> bytes \<Rightarrow> 'a CliSignalClient \<Rightarrow> bool" where
  "paired C sv c pw s \<longleftrightarrow>
     cs_state c = AwaitServerAuth \<and> sv_now sv \<le> cs_authDeadline c \<and>
     cs_clientNonce c = sg_clientNonce s \<and> cs_clientPubKey c = sg_clientPubKey s \<and>
     sg_clientPubKey s = cr_x25519_public_key C (sg_clientPrivKey s) \<and>
     cs_serverPubKey c = cr_x25519_public_key C (cs_serverPrivKey c) \<and>
     length (sv_serverAuthSalt sv) = 16 \<and> length (cs_serverNonce c) = 16 \<and> length (cs_serverPubKey c) = 32 \<and>
     hashPasswordSalted C True pw (sv_serverAuthSalt sv) AUTH_KDF_PROFILE = (True, sv_serverAuthHash sv) \<and>
     validX25519Shared (cr_x25519 C (cs_serverPrivKey c) (cs_clientPubKey c))"

lemma deriveSessionId_ne [simp]: "deriveSessionId C m \<noteq> 0"
  by (simp add: deriveSessionId_def Let_def)

lemma master_length: "digests_sized C \<Longrightarrow> length (deriveSecureMaster C a b c d e f g h) = 32"
  by (simp add: digests_sized_def deriveSecureMaster_def)

lemma answer_accepted:
  fixes s :: "signal_event list CliSignalClient"
  assumes C: "digests_sized C" and s: "\<not> sg_secureReady s" "sg_serverAuthRequired s" "sg_authOperation s = 0"
    "sg_secureMaster s = m" "length m = 32" "sg_expectedServerProof s = computeServerAuthProof C m hash"
    "\<not> sc_initialized (sg_secureCipher s)" "tc_connected (sg_conn s)" "tc_recvBuf (sg_conn s) = []"
  shows "\<exists>s'. sigRun C (recording C) [Readable (tcp_frame MSG_SERVER_AUTH_OK
         (serverAuthOkBody (deriveSessionId C m) (computeServerAuthProof C m hash)))] s = Some s' \<and>
     sg_secureReady s' \<and> sg_secureMaster s' = m \<and> sg_secureSessionId s' = deriveSessionId C m \<and>
     keyed C m True ''signal'' (sg_secureCipher s') \<and>
     sg_app s' = sg_app s @ [OnSecureSessionEstablished (deriveSessionId C m) m, OnConnected]"
proof -
  let ?pf = "computeServerAuthProof C m hash"
  let ?p = "be32 (deriveSessionId C m) @ ?pf"
  define s0 where "s0 = s\<lparr>sg_conn := (sg_conn s)\<lparr>tc_lastRecvTime := sg_nowMs s\<rparr>\<rparr>"
  define s' where "s' = s0\<lparr>sg_expectedServerProof := replicate 32 0, sg_secureSessionId := deriveSessionId C m,
     sg_secureCipher := initCipher C m True ''signal'' (sg_secureCipher s), sg_secureReady := True,
     sg_app := sg_app s @ [OnSecureSessionEstablished (deriveSessionId C m) m, OnConnected]\<rparr>"
  have len: "length ?pf = 32" using C by (simp add: digests_sized_def computeServerAuthProof_def)
  have v: "mv_status (validateServerSignalPayload MSG_SERVER_AUTH_OK (framePtr ?p) (length ?p)) = Valid"
    by (rule answer_valid [OF len]) simp
  have "unread \<lparr>bb_data = ?p, bb_readPos = 0\<rparr> = ?p" by (simp add: unread_def)
  then have "sigOnServerAuthOk C (recording C) \<lparr>bb_data = ?p, bb_readPos = 0\<rparr> s0 = Some (True, s')"
    using s len by (simp add: sigOnServerAuthOk_def u32c.get_enc readBytes_unread crypto_verify32_def recorder_def s'_def s0_def Let_def)
  moreover have "mkByteBuffer (framePtr ?p) (length ?p) = Some \<lparr>bb_data = ?p, bb_readPos = 0\<rparr>"
    by (simp add: mkByteBuffer_def framePtr_def)
  ultimately have "sigProcessMessage C (recording C) MSG_SERVER_AUTH_OK (framePtr ?p) (length ?p) s0 = (True, s')"
    using s v by (simp add: sigProcessMessage_def allowedPlainHandshake_def Let_def sigDeliver_def sigDispatch_def s0_def)
  then have "sigOnReadable C (recording C) (tcp_frame MSG_SERVER_AUTH_OK ?p) s = Some s'"
    using s len by (intro read_one_frame) (auto simp: s0_def s'_def)
  moreover have "keyed C m True ''signal'' (sg_secureCipher s')"
    using keyed_init [OF s(7)] by (simp add: s'_def)
  ultimately show ?thesis
    using s(4) by (simp add: serverAuthOkBody_bytes) (simp add: s'_def s0_def)
qed


text \<open>A key exchange that agrees, for the witnesses: the secret is the exclusive or of the keys.\<close>

definition demo_exchange :: crypto where
  "demo_exchange = demo_crypto\<lparr>cr_x25519 := (\<lambda>a b. map2 (XOR) a b)\<rparr>"

lemma demo_exchange_ok: "digests_sized demo_exchange" "exchange_agrees demo_exchange" "aead_correct demo_exchange"
proof -
  have "map2 (XOR) a b = map2 (XOR) b (a :: bytes)" for a b
    by (induction a b rule: list_induct2') (simp_all add: xor.commute)
  then show "exchange_agrees demo_exchange" by (simp add: exchange_agrees_def demo_exchange_def demo_crypto_def)
  show "digests_sized demo_exchange" by (auto simp: digests_sized_def demo_exchange_def demo_crypto_def min_def)
  show "aead_correct demo_exchange" using demo_crypto_correct by (simp add: aead_correct_def demo_exchange_def)
qed

definition demo_waiting :: "signal_event list CliSignalClient" where
  "demo_waiting = (newCliSignalClient True [])\<lparr>sg_conn := newTcpConnection\<lparr>tc_fd := 3, tc_connected := True\<rparr>,
     sg_serverPassword := [112], sg_clientPrivKey := replicate 32 1, sg_clientPubKey := replicate 32 1\<rparr>"

definition demo_peer :: ClientSession where
  "demo_peer = newClientSession\<lparr>cs_state := AwaitServerAuth, cs_clientPubKey := replicate 32 1,
     cs_serverPrivKey := replicate 32 2, cs_serverPubKey := replicate 32 2\<rparr>"

definition demo_side :: SignalServer where
  "demo_side = newSignalServer\<lparr>sv_serverAuthSalt := replicate 16 0,
     sv_serverAuthHash := snd (hashPasswordSalted demo_exchange True [112] (replicate 16 0) AUTH_KDF_PROFILE)\<rparr>"

lemma demo_handshake:
  "awaits_hello [112] demo_waiting" "paired demo_exchange demo_side demo_peer [112] demo_waiting"
proof -
  show "awaits_hello [112] demo_waiting"
    by (simp add: awaits_hello_def demo_waiting_def newCliSignalClient_def newTcpConnection_def newCipher_def newAuthKdfTask_def)
  have "validX25519Shared (map2 (XOR) (replicate 32 2) (replicate 32 (1 :: u8)))"
    by (simp add: validX25519Shared_def crypto_verify32_def zip_replicate)
  then show "paired demo_exchange demo_side demo_peer [112] demo_waiting"
    by (simp add: paired_def demo_waiting_def demo_peer_def demo_side_def newCliSignalClient_def newClientSession_def
        newSignalServer_def demo_exchange_def demo_crypto_def hashPasswordSalted_def computeIntermediateWithAllocator_def)
qed


section \<open>After the handshake\<close>

lemma encrypt_sealed:
  "sc_initialized c \<Longrightarrow> sc_sendCounter c \<noteq> -1 \<Longrightarrow>
   encryptFrame C p ad c = (sealed C (sc_sendKey c) (sc_sendNonceSeed c) (sc_sendCounter c) p ad, c\<lparr>sc_sendCounter := sc_sendCounter c + 1\<rparr>)"
  by (simp add: encryptFrame_def sealed_def Let_def writeU64BE_be64 split: prod.split)

lemma sealed_length:
  assumes "aead_correct C"
  shows "length (sealed C key seed ctr p ad) = 24 + length p" "sealed C key seed ctr p ad \<noteq> []"
  using aead_correctD [OF assms, where k = key and n = "buildNonce seed ctr" and ad = ad and p = p]
  by (auto simp: sealed_def split: prod.split)

lemma keyed_dual:
  assumes "keyed C m True ctx c" "keyed C m False ctx d"
  shows "sc_sendKey c = sc_recvKey d" "sc_sendNonceSeed c = sc_recvNonceSeed d"
    "sc_sendKey d = sc_recvKey c" "sc_sendNonceSeed d = sc_recvNonceSeed c"
  using assms initCipher_dual [of C m True ctx] initCipher_dual [of C m False ctx] by (simp_all add: keyed_def Let_def)

text \<open>What the client hands to \<^verbatim>\<open>sendMsg\<close> is queued as one sealed frame.\<close>

lemma sendMsg_sealed:
  assumes C: "aead_correct C" and ok: "client_ok C st False n s" "sg_secureReady s" and ctr: "sc_sendCounter (sg_secureCipher s) \<noteq> -1"
    and size: "bb_size body + 25 \<le> MAX_TCP_MSG_PAYLOAD" "length (tc_sendBuf (sg_conn s)) + bb_size body + 28 \<le> MAX_TCP_SEND_BUF"
  defines "k \<equiv> sg_secureCipher s"
  shows "tc_sendBuf (sg_conn (sigSendMsg C app ty body s)) =
     tc_sendBuf (sg_conn s) @ tcp_frame MSG_ENCRYPTED (sealed C (sc_sendKey k) (sc_sendNonceSeed k) (sc_sendCounter k) (ty # bb_data body) [])"
proof -
  have "sc_initialized k" using ok by (simp add: client_ok_secure secure_ok_def keyed_def Let_def k_def)
  with ctr have "encryptFrame C (ty # bb_data body) [] k =
      (sealed C (sc_sendKey k) (sc_sendNonceSeed k) (sc_sendCounter k) (ty # bb_data body) [], k\<lparr>sc_sendCounter := sc_sendCounter k + 1\<rparr>)"
    by (intro encrypt_sealed) (simp_all add: k_def)
  then show ?thesis
    using ok(2) size sealed_length [OF C]
    by (simp add: sigSendMsg_def k_def [symmetric] Let_def sigConnSend_def tcSendTcpMsg_frame bb_size_def)
qed

text \<open>
  C20. Messages arrive as they were sent: for a client and a server session keyed with the same master
  key, a message the client sends (one that fits a frame and its send buffer) is queued as one whole
  encrypted frame and nothing else, and the server, which has not seen this frame's counter, decrypts that
  frame to the type and the body the client was given.
\<close>

theorem client_message_reaches_server:
  assumes C: "aead_correct C" and ok: "client_ok C st False n s" "sg_secureReady s" and ctr: "sc_sendCounter (sg_secureCipher s) \<noteq> -1"
    and size: "bb_size body + 25 \<le> MAX_TCP_MSG_PAYLOAD" "length (tc_sendBuf (sg_conn s)) + bb_size body + 28 \<le> MAX_TCP_SEND_BUF"
    and sv: "map_of (sv_clients sv) fd = Some c" "keyed C (sg_secureMaster s) False ''signal'' (cs_secureCipher c)"
      "window_rel acc (cs_secureCipher c)" "window_fresh acc (unat (sc_sendCounter (sg_secureCipher s)))"
  shows "\<exists>f. tc_sendBuf (sg_conn (sigSendMsg C app ty body s)) = tc_sendBuf (sg_conn s) @ tcp_frame MSG_ENCRYPTED f \<and>
     fst (run_state (decryptClientFrame C fd f) sv) = Some (ty, bb_data body)"
proof (intro exI conjI)
  let ?k = "sg_secureCipher s"
  let ?f = "sealed C (sc_sendKey ?k) (sc_sendNonceSeed ?k) (sc_sendCounter ?k) (ty # bb_data body) []"
  show "tc_sendBuf (sg_conn (sigSendMsg C app ty body s)) = tc_sendBuf (sg_conn s) @ tcp_frame MSG_ENCRYPTED ?f"
    by (rule sendMsg_sealed [OF C ok ctr size])
  have "keyed C (sg_secureMaster s) True ''signal'' ?k" using ok by (simp add: client_ok_secure secure_ok_def)
  note dual = keyed_dual [OF this sv(2)]
  have "sc_initialized (cs_secureCipher c)" using sv(2) by (simp add: keyed_def Let_def)
  from decrypt_sealed [OF C sv(3) this sv(4)]
  have "fst (decryptFrame C ?f [] (cs_secureCipher c)) = Some (ty # bb_data body)" by (simp add: dual)
  then show "fst (run_state (decryptClientFrame C fd ?f) sv) = Some (ty, bb_data body)"
    using sv(1) by (simp add: decryptClientFrame_def getC_def gets_def clientOf_def case_prod_unfold)
qed

definition demo_secure :: "signal_event list CliSignalClient" where
  "demo_secure = (newCliSignalClient True [])\<lparr>sg_conn := newTcpConnection\<lparr>tc_fd := 3, tc_connected := True\<rparr>,
     sg_secureReady := True, sg_secureMaster := replicate 32 7, sg_secureSessionId := deriveSessionId demo_exchange (replicate 32 7),
     sg_secureCipher := initCipher demo_exchange (replicate 32 7) True ''signal'' newCipher\<rparr>"

definition demo_partner :: SignalServer where
  "demo_partner = newSignalServer\<lparr>sv_clients := [(7, newClientSession\<lparr>cs_secureCipher :=
     initCipher demo_exchange (replicate 32 7) False ''signal'' newCipher\<rparr>)]\<rparr>"

lemma demo_secure_ok: "client_ok demo_exchange True False 0 demo_secure"
  using keyed_init [of newCipher demo_exchange "replicate 32 7" True "''signal''"]
  by (simp add: demo_secure_def client_ok_secure secure_ok_def newCliSignalClient_def conn_ok_def newTcpConnection_def)
    (simp add: newCipher_def)

theorem client_message_reaches_server_witness:
  "\<exists>f. tc_sendBuf (sg_conn (sigSendMsg demo_exchange (recording demo_exchange) MSG_JOIN_ROOM (writeU32 5 emptyBuffer) demo_secure)) =
       tc_sendBuf (sg_conn demo_secure) @ tcp_frame MSG_ENCRYPTED f \<and>
     fst (run_state (decryptClientFrame demo_exchange 7 f) demo_partner) = Some (MSG_JOIN_ROOM, bb_data (writeU32 5 emptyBuffer))"
proof (rule client_message_reaches_server [OF demo_exchange_ok(3) demo_secure_ok])
  show "keyed demo_exchange (sg_secureMaster demo_secure) False ''signal''
      (cs_secureCipher (newClientSession\<lparr>cs_secureCipher := initCipher demo_exchange (replicate 32 7) False ''signal'' newCipher\<rparr>))"
    using keyed_init [of newCipher demo_exchange "replicate 32 7" False "''signal''"] by (simp add: demo_secure_def newCipher_def)
  show "window_rel {} (cs_secureCipher (newClientSession\<lparr>cs_secureCipher := initCipher demo_exchange (replicate 32 7) False ''signal'' newCipher\<rparr>))"
    by (simp add: initCipher_fresh)
qed (simp_all add: demo_secure_def demo_partner_def newCliSignalClient_def newTcpConnection_def initCipher_fresh window_fresh_def bb_size_def)

end
