(* ===== verification/Server_Payloads.thy ===== *)
theory Server_Payloads
  imports Server_Handlers Signal_Language
begin

text \<open>
  The two ends of the protocol agree.  What the server writes about a room (\<^verbatim>\<open>sendJoinResponse\<close>,
  \<^verbatim>\<open>onCreateRoom\<close>, \<^verbatim>\<open>buildRoomListPages\<close>, \<^verbatim>\<open>broadcastRoomListPush\<close>) passes the client's
  validator, a room list split over pages lists every room once, and the changes of a push turn
  the list a client has into the current one.
\<close>

section \<open>What the server writes about a room\<close>

lemma policyBytes_enc: "bb_data (policyBytes p b) = bb_data b @ policy_enc p"
  by (simp add: policyBytes_def policy_enc_def)

definition record_of :: "RoomListState \<Rightarrow> bytes" where
  "record_of st = bb_data (writeRoomListItem st emptyBuffer)"

lemma writeRoomListItem_data: "bb_data (writeRoomListItem st b) = bb_data b @ record_of st"
  by (simp add: record_of_def writeRoomListItem_def policyBytes_enc)

text \<open>A room as the server can announce it.\<close>

definition listing_ok :: "RoomListState \<Rightarrow> bool" where
  "listing_ok st \<longleftrightarrow> rl_roomId st \<noteq> 0 \<and> isValidRoomName (rl_roomName st) \<and>
     2 \<le> unat (rl_maxPlayers st) \<and> unat (rl_maxPlayers st) \<le> MAX_PLAYERS \<and> rl_playerCount st \<le> rl_maxPlayers st \<and>
     policy_wf (rl_tcpPolicy st) \<and> policy_wf (rl_udpPolicy st) \<and> rl_passwordProtected st \<le> 1 \<and>
     isValidRoomMtuValue (uint (rl_mtu st))"

definition room_good :: "Room \<Rightarrow> bool" where
  "room_good r \<longleftrightarrow> listing_ok (roomListStateOf r) \<and> length (rm_leases r) \<le> MAX_PLAYERS \<and>
     (\<forall>l \<in> set (rm_leases r). ls_peerId l \<noteq> 0 \<and> ls_virtualIP l \<noteq> 0 \<and> isValidPlayerName (ls_name l))"

lemma flag_bit: "(w :: u8) \<le> 1 \<Longrightarrow> w = (if w = 1 then 1 else 0)"
  by (auto simp: word_le_nat_alt le_Suc_eq word_unat_eq_iff)

lemma record_of_item: "listing_ok st \<Longrightarrow> room_item (rl_roomId st) (record_of st)"
proof -
  assume ok: "listing_ok st"
  have "record_of st = room_item_enc (rl_roomId st) (rl_roomName st) (rl_playerCount st) (rl_maxPlayers st)
      (rl_tcpPolicy st) (rl_udpPolicy st) (rl_passwordProtected st = 1) (rl_mtu st)"
    using ok flag_bit [of "rl_passwordProtected st"]
    by (simp add: listing_ok_def record_of_def writeRoomListItem_def policyBytes_enc room_item_enc_def)
  with ok show ?thesis unfolding room_item_def listing_ok_def by blast
qed

lemma length_record: "length (record_of st) = 17 + length (rl_roomName st)"
  by (simp add: record_of_def writeRoomListItem_def policyBytes_enc policy_enc_def string_enc_def)

lemma length_record_le: "listing_ok st \<Longrightarrow> length (record_of st) \<le> 80"
  by (simp add: length_record listing_ok_def isValidRoomName_def)

definition member_of :: "RoomLease \<Rightarrow> member" where
  "member_of l = (ls_peerId l, ls_virtualIP l, ls_name l)"

lemma members_data:
  "bb_data (fold (\<lambda>lease resp. writeString (ls_name lease) (writeU32 (ls_virtualIP lease) (writeU32 (ls_peerId lease) resp))) ls b) =
     bb_data b @ concat (map (member_enc \<circ> member_of) ls)"
  by (induction ls arbitrary: b) (simp_all add: member_enc_def member_of_def)

lemma room_fields:
  assumes "room_good r"
  shows "rm_id r \<noteq> 0" "policy_wf (rm_tcpPolicy r)" "policy_wf (rm_udpPolicy r)" "isValidRoomMtuValue (uint (rm_mtu r))"
    "rm_passwordProtected r = (if rm_passwordProtected r = 1 then 1 else 0)"
    "length (map member_of (rm_leases r)) \<le> MAX_PLAYERS" "list_all member_ok (map member_of (rm_leases r))"
  using assms flag_bit [of "rm_passwordProtected r"]
  by (simp_all add: room_good_def listing_ok_def roomListStateOf_def list_all_iff member_ok_def member_of_def)

lemma joinResponseBody_data:
  assumes "room_good r"
  shows "joinResponseBody r ip tok = be32 (rm_id r) @ be32 ip @ policy_enc (rm_tcpPolicy r) @ policy_enc (rm_udpPolicy r) @
     [if rm_passwordProtected r = 1 then 1 else 0] @ be16 (rm_mtu r) @ [of_nat (length (map member_of (rm_leases r)))] @
     concat (map member_enc (map member_of (rm_leases r))) @ take RECONNECT_TOKEN_SIZE tok"
  using room_fields(5) [OF assms] by (simp add: joinResponseBody_def members_data policyBytes_enc)

lemma roomCreatedBody_data:
  assumes "room_good r"
  shows "roomCreatedBody r ip tok = be32 (rm_id r) @ be32 ip @ policy_enc (rm_tcpPolicy r) @ policy_enc (rm_udpPolicy r) @
     [if rm_passwordProtected r = 1 then 1 else 0] @ be16 (rm_mtu r) @ take RECONNECT_TOKEN_SIZE tok"
  using room_fields(5) [OF assms] by (simp add: roomCreatedBody_def policyBytes_enc)

lemmas validator_rules = validateServerSignalPayload_def sRoomCreated.valid_iff sJoinResp.valid_iff
  sRoomList.valid_iff sRoomListPush.valid_iff


definition demo_room :: Room where
  "demo_room = newRoom\<lparr>rm_id := 3, rm_name := [65], rm_maxPlayers := 4, rm_mtu := 1280,
     rm_tcpPolicy := makeDefaultTcpPolicy, rm_udpPolicy := makeDefaultUdpPolicy, rm_passwordProtected := 0,
     rm_leases := [newRoomLease\<lparr>ls_peerId := 1, ls_virtualIP := 0x0A0A0002, ls_name := [65, 66, 67, 68, 69]\<rparr>]\<rparr>"

lemma demo_room_good: "room_good demo_room"
  by (simp add: room_good_def listing_ok_def roomListStateOf_def demo_room_def newRoom_def newRoomLease_def isValidRoomName_def
      isValidPlayerName_def isAsciiAlphaNum_def makeDefaultTcpPolicy_def makeDefaultUdpPolicy_def
      policy_wf_def isValidRoomMtuValue_def)


section \<open>The room list\<close>

text \<open>The list the server collects is its rooms in order, each under its own number.\<close>

definition listing_map :: "(u32, RoomListState) omap \<Rightarrow> bool" where
  "listing_map m \<longleftrightarrow> om_ok m \<and> (\<forall>(i, st) \<in> set m. rl_roomId st = i \<and> listing_ok st)"

lemma listing_ids: "listing_map m \<Longrightarrow> distinct (map (rl_roomId \<circ> snd) m)"
proof -
  assume "listing_map m"
  then have "map (rl_roomId \<circ> snd) m = map fst m" "distinct (map fst m)"
    by (auto simp: listing_map_def om_ok_distinct)
  then show ?thesis by metis
qed

lemma om_upd_last: "om_ok (m @ [(k, v)]) \<Longrightarrow> om_upd k v m = m @ [(k, v)]"
proof (induction m)
  case (Cons e m)
  then show ?case by (cases e) (auto simp: om_ok_def)
qed simp

lemma collect_fold:
  assumes "om_ok (acc @ map (\<lambda>r. (rm_id r, roomListStateOf r)) rs)"
  shows "fold (\<lambda>room result. om_upd (rl_roomId (roomListStateOf room)) (roomListStateOf room) result) rs acc =
     acc @ map (\<lambda>r. (rm_id r, roomListStateOf r)) rs"
  using assms
proof (induction rs arbitrary: acc)
  case (Cons r rs)
  have "om_ok (acc @ [(rm_id r, roomListStateOf r)])" using Cons.prems by (simp add: om_ok_def sorted_wrt_append)
  then have "om_upd (rm_id r) (roomListStateOf r) acc = acc @ [(rm_id r, roomListStateOf r)]" by (rule om_upd_last)
  with Cons.IH [of "acc @ [(rm_id r, roomListStateOf r)]"] Cons.prems show ?case by (simp add: roomListStateOf_def)
qed simp

lemma collect_rooms:
  assumes "mgr_inv m"
  shows "collectRoomListState m = map (\<lambda>(i, r). (i, roomListStateOf r)) (mg_rooms m)"
proof -
  have e: "map (\<lambda>r. (rm_id r, roomListStateOf r)) (listRooms m) = map (\<lambda>(i, r). (i, roomListStateOf r)) (mg_rooms m)"
    using assms by (auto simp: mgr_inv_def rooms_inv_def listRooms_def)
  have "om_ok (map (\<lambda>(i, r). (i, roomListStateOf r)) (mg_rooms m))"
    using assms by (simp add: mgr_inv_def rooms_inv_def om_ok_def comp_def case_prod_unfold)
  with collect_fold [of "[]" "listRooms m"] e show ?thesis by (simp add: collectRoomListState_def)
qed

lemma listing_map_collect:
  assumes "mgr_inv m" "\<forall>(i, r) \<in> set (mg_rooms m). room_good r"
  shows "listing_map (collectRoomListState m)" "length (collectRoomListState m) = managerSize m"
  using assms unfolding listing_map_def collect_rooms [OF assms(1)]
  by (auto simp: mgr_inv_def rooms_inv_def om_ok_def comp_def case_prod_unfold room_good_def roomListStateOf_def managerSize_def)

subsection \<open>Pages\<close>

definition page_size :: "RoomListState list \<Rightarrow> nat" where
  "page_size sts = 14 + sum_list (map (length \<circ> record_of) sts)"

lemma packPages_chunks:
  assumes "n = page_size b" "list_all listing_ok (b @ rooms)" "b = [] \<or> n \<le> ROOM_LIST_PAGE_PAYLOAD"
  shows "\<exists>cs. packPages rooms (map (map record_of) fs) (map record_of b) n = map (map record_of) (fs @ cs) \<and>
     concat cs = b @ rooms \<and> length cs \<le> Suc (length rooms) \<and> cs \<noteq> [] \<and> list_all (\<lambda>c. page_size c \<le> ROOM_LIST_PAGE_PAYLOAD) cs"
  using assms
proof (induction rooms arbitrary: fs b n)
  case Nil
  then show ?case by (intro exI [of _ "[b]"]) (auto simp: page_size_def)
next
  case (Cons st rooms)
  have len: "length (record_of st) \<le> 80" using Cons.prems(2) length_record_le by simp
  have rec: "bb_data (writeRoomListItem st emptyBuffer) = record_of st" by (simp add: record_of_def)
  show ?case
  proof (cases "b \<noteq> [] \<and> n + length (record_of st) > ROOM_LIST_PAGE_PAYLOAD")
    case True
    from Cons.IH [of "page_size [st]" "[st]" "fs @ [b]"] Cons.prems(2) len obtain cs where cs:
        "packPages rooms (map (map record_of) (fs @ [b])) (map record_of [st]) (page_size [st]) = map (map record_of) ((fs @ [b]) @ cs)"
        "concat cs = [st] @ rooms" "length cs \<le> Suc (length rooms)" "cs \<noteq> []" "list_all (\<lambda>c. page_size c \<le> ROOM_LIST_PAGE_PAYLOAD) cs"
      by (auto simp: page_size_def)
    with True Cons.prems show ?thesis
      by (intro exI [of _ "b # cs"]) (auto simp: rec page_size_def Let_def)
  next
    case False
    from Cons.IH [of "page_size (b @ [st])" "b @ [st]" fs] Cons.prems False len obtain cs where cs:
        "packPages rooms (map (map record_of) fs) (map record_of (b @ [st])) (page_size (b @ [st])) = map (map record_of) (fs @ cs)"
        "concat cs = (b @ [st]) @ rooms" "length cs \<le> Suc (length rooms)" "cs \<noteq> []" "list_all (\<lambda>c. page_size c \<le> ROOM_LIST_PAGE_PAYLOAD) cs"
      by (auto simp: page_size_def)
    have sz: "page_size (b @ [st]) = n + length (record_of st)" using Cons.prems(1) by (simp add: page_size_def)
    have "packPages (st # rooms) (map (map record_of) fs) (map record_of b) n =
        packPages rooms (map (map record_of) fs) (map record_of (b @ [st])) (page_size (b @ [st]))"
      using False by (auto simp: rec sz Let_def)
    with cs show ?thesis by (intro exI [of _ cs]) simp
  qed
qed

definition page_of :: "u64 \<Rightarrow> nat \<Rightarrow> nat \<Rightarrow> RoomListState list \<Rightarrow> bytes" where
  "page_of revision n k sts = be64 revision @ be16 (of_nat k) @ be16 (of_nat n) @ be16 (of_nat (length sts)) @ concat (map record_of sts)"

lemma fold_writeBytes: "bb_data (fold writeBytes rs b) = bb_data b @ concat rs"
  by (induction rs arbitrary: b) simp_all

lemma buildRoomListPages_chunks:
  assumes "listing_map rooms" "length rooms < 65535"
  shows "\<exists>cs. buildRoomListPages revision rooms = map (\<lambda>k. page_of revision (length cs) k (cs ! k)) [0..<length cs] \<and>
     concat cs = map snd rooms \<and> length cs < 65536 \<and> cs \<noteq> [] \<and> list_all (\<lambda>c. page_size c \<le> ROOM_LIST_PAGE_PAYLOAD) cs"
proof -
  have "list_all listing_ok (map snd rooms)" using assms(1) by (auto simp: listing_map_def list_all_iff)
  then obtain cs where cs: "packPages (map snd rooms) [] [] 14 = map (map record_of) cs" "concat cs = map snd rooms"
      "length cs \<le> Suc (length rooms)" "cs \<noteq> []" "list_all (\<lambda>c. page_size c \<le> ROOM_LIST_PAGE_PAYLOAD) cs"
    using packPages_chunks [of 14 "[]" "map snd rooms" "[]"] by (auto simp: page_size_def)
  then have "unat (of_nat (length cs) :: u16) = length cs" using assms(2) by (intro unat_of_nat_small) simp
  then have "buildRoomListPages revision rooms = map (\<lambda>k. page_of revision (length cs) k (cs ! k)) [0..<length cs]"
    by (simp add: buildRoomListPages_def cs(1) page_of_def roomListPage_def fold_writeBytes Let_def)
  with cs assms(2) show ?thesis by (intro exI [of _ cs]) simp
qed

lemma page_valid:
  assumes "list_all listing_ok sts" "distinct (map rl_roomId sts)" "page_size sts \<le> ROOM_LIST_PAGE_PAYLOAD"
    "revision \<noteq> 0" "k < n" "n < 65536"
  shows "mvIsValid (validateServerSignalPayload MSG_ROOM_LIST (Some (page_of revision n k sts)) (length (page_of revision n k sts)))"
proof -
  have len: "length (page_of revision n k sts) = page_size sts"
    by (simp add: page_of_def page_size_def length_concat comp_def)
  have "17 * length sts \<le> sum_list (map (length \<circ> record_of) sts)"
    by (induction sts) (auto simp: length_record)
  then have "length sts < 65536" using assms(3) by (simp add: page_size_def)
  moreover have "(of_nat k :: u16) < of_nat n" using assms(5,6) by (simp add: word_less_nat_alt unat_of_nat_small)
  ultimately have "room_list_msg (page_of revision n k sts)"
    unfolding room_list_msg_def page_of_def using assms record_of_item
    by (intro exI [of _ revision] exI [of _ "of_nat k"] exI [of _ "of_nat n"] exI [of _ "map (\<lambda>st. (rl_roomId st, record_of st)) sts"])
       (auto simp: comp_def list_all_iff)
  moreover have "length (page_of revision n k sts) \<le> ROOM_LIST_PAGE_PAYLOAD" using len assms(3) by simp
  ultimately show ?thesis by (simp add: validator_rules)
qed

text \<open>
  The room list a client asks for: every page passes the client's validator, and the pages
  together list every room once, in order of its number, with its current data.
\<close>

lemma room_list_pages_complete:
  assumes "mgr_inv m" "\<forall>(i, r) \<in> set (mg_rooms m). room_good r" "managerSize m < 65535" "revision \<noteq> 0"
  shows "\<exists>cs. buildRoomListPages revision (collectRoomListState m) = map (\<lambda>k. page_of revision (length cs) k (cs ! k)) [0..<length cs] \<and>
     concat cs = map (roomListStateOf \<circ> snd) (mg_rooms m) \<and>
     list_all (\<lambda>p. mvIsValid (validateServerSignalPayload MSG_ROOM_LIST (Some p) (length p)))
       (buildRoomListPages revision (collectRoomListState m))"
proof -
  note lm = listing_map_collect [OF assms(1,2)]
  obtain cs where cs: "buildRoomListPages revision (collectRoomListState m) = map (\<lambda>k. page_of revision (length cs) k (cs ! k)) [0..<length cs]"
      "concat cs = map snd (collectRoomListState m)" "length cs < 65536" "list_all (\<lambda>c. page_size c \<le> ROOM_LIST_PAGE_PAYLOAD) cs"
    using buildRoomListPages_chunks [OF lm(1), of revision] lm(2) assms(3) by auto
  have d: "distinct (map rl_roomId (concat cs))" using listing_ids [OF lm(1)] by (simp add: cs(2))
  have g: "list_all listing_ok (concat cs)" using lm(1) by (auto simp: cs(2) listing_map_def list_all_iff)
  have "mvIsValid (validateServerSignalPayload MSG_ROOM_LIST (Some (page_of revision (length cs) k (cs ! k))) (length (page_of revision (length cs) k (cs ! k))))"
    if k: "k < length cs" for k
  proof (rule page_valid [OF _ _ _ assms(4) k cs(3)])
    have "cs = take k cs @ cs ! k # drop (Suc k) cs" using k by (rule id_take_nth_drop)
    then have c: "concat cs = concat (take k cs) @ cs ! k @ concat (drop (Suc k) cs)" by (metis concat.simps(2) concat_append)
    show "distinct (map rl_roomId (cs ! k))" using d unfolding c by (simp only: map_append distinct_append)
    show "list_all listing_ok (cs ! k)" using g unfolding c by simp
    show "page_size (cs ! k) \<le> ROOM_LIST_PAGE_PAYLOAD" using cs(4) k by (simp add: list_all_length)
  qed
  then have "list_all (\<lambda>p. mvIsValid (validateServerSignalPayload MSG_ROOM_LIST (Some p) (length p)))
       (buildRoomListPages revision (collectRoomListState m))"
    unfolding cs(1) by (simp add: list_all_iff)
  moreover have "concat cs = map (roomListStateOf \<circ> snd) (mg_rooms m)"
    by (simp add: cs(2) collect_rooms [OF assms(1)] comp_def case_prod_unfold)
  ultimately show ?thesis using cs(1) by blast
qed

definition demo_rooms :: RoomManager where
  "demo_rooms = newRoomManager\<lparr>mg_rooms := [(3, demo_room\<lparr>rm_leases := []\<rparr>)], mg_nextRoomId := 4,
     mg_freeRoomIds := [(1, ()), (2, ())]\<rparr>"

lemma demo_rooms_inv: "mgr_inv demo_rooms"
proof -
  have "{i :: u32. i \<noteq> 0 \<and> i < 4} = {1, 2, 3}"
  proof (intro set_eqI iffI)
    fix i :: u32 assume "i \<in> {i. i \<noteq> 0 \<and> i < 4}"
    then have "unat i \<noteq> 0" "unat i < 4" by (auto simp: word_less_nat_alt unat_eq_zero)
    then have "unat i = 1 \<or> unat i = 2 \<or> unat i = 3" by linarith
    then show "i \<in> {1, 2, 3}" by (auto simp: word_unat_eq_iff)
  qed auto
  then show ?thesis
    by (auto simp: mgr_inv_def rooms_inv_def pool_inv_def demo_rooms_def demo_room_def newRoomManager_def newRoom_def om_ok_def
        room_inv_def room_core_def peerIds_def)
qed

lemma roomListStateEq_iff: "roomListStateEq a b \<longleftrightarrow> a = b"
  by (cases a; cases b) (auto simp: roomListStateEq_def intro!: RoomTrafficPolicy.equality)

text \<open>What a client does with one change of a push.\<close>

definition apply_change :: "u8 \<times> RoomListState \<Rightarrow> (u32 \<rightharpoonup> RoomListState) \<Rightarrow> (u32 \<rightharpoonup> RoomListState)" where
  "apply_change op m = (if fst op = ROOM_LIST_UPSERT then m(rl_roomId (snd op) \<mapsto> snd op) else m(rl_roomId (snd op) := None))"

lemma apply_upserts:
  assumes "\<forall>(i, st) \<in> set xs. rl_roomId st = i" "distinct (map fst xs)"
  shows "fold apply_change (map (\<lambda>e. (ROOM_LIST_UPSERT, snd e)) xs) m = (\<lambda>i. case map_of xs i of Some st \<Rightarrow> Some st | None \<Rightarrow> m i)"
  using assms
proof (induction xs arbitrary: m)
  case (Cons e xs)
  obtain i st where e: "e = (i, st)" by fastforce
  with Cons.prems have "rl_roomId st = i" "map_of xs i = None" by (auto simp: map_of_eq_None_iff)
  with Cons e show ?case by (auto simp: apply_change_def fun_eq_iff split: option.split)
qed (simp add: fun_eq_iff)

lemma apply_removes:
  assumes "\<forall>(i, st) \<in> set xs. rl_roomId st = i"
  shows "fold apply_change (map (\<lambda>e. (ROOM_LIST_REMOVE, snd e)) xs) m = (\<lambda>i. if i \<in> fst ` set xs then None else m i)"
  using assms by (induction xs arbitrary: m) (auto simp: apply_change_def fun_eq_iff)

lemma map_of_filter_ok: "om_ok m \<Longrightarrow> map_of (filter P m) i = (case map_of m i of Some v \<Rightarrow> if P (i, v) then Some v else None | None \<Rightarrow> None)"
proof (induction m)
  case (Cons e m)
  then have "fst e \<notin> fst ` set m" "om_ok m" by (auto simp: om_ok_def)
  with Cons.IH show ?case
    by (cases e) (auto simp: map_of_eq_None_iff image_iff split: option.split)
qed simp

lemma published_removed:
  assumes "om_ok m"
  shows "i \<in> fst ` set (filter (\<lambda>(i, st). P i) m) \<longleftrightarrow> map_of m i \<noteq> None \<and> P i"
  by (force simp: map_of_eq_None_iff)

lemma operations_apply:
  assumes "listing_map published" "listing_map current"
  shows "fold apply_change (roomListOperations published current) (map_of published) = map_of current"
proof -
  let ?up = "filter (\<lambda>(i, st). case map_of published i of None \<Rightarrow> True | Some old \<Rightarrow> \<not> roomListStateEq old st) current"
  let ?del = "filter (\<lambda>(i, st). map_of current i = None) published"
  have ok: "om_ok published" "om_ok current" using assms by (auto simp: listing_map_def)
  have "distinct (map fst ?up)" using om_ok_filter [OF ok(2)] by (rule om_ok_distinct)
  then have up: "fold apply_change (map (\<lambda>e. (ROOM_LIST_UPSERT, snd e)) ?up) m = (\<lambda>i. case map_of ?up i of Some st \<Rightarrow> Some st | None \<Rightarrow> m i)" for m
    using assms(2) by (intro apply_upserts) (auto simp: listing_map_def)
  have del: "fold apply_change (map (\<lambda>e. (ROOM_LIST_REMOVE, snd e)) ?del) m = (\<lambda>i. if i \<in> fst ` set ?del then None else m i)" for m
    using assms(1) by (intro apply_removes) (auto simp: listing_map_def)
  show ?thesis
    unfolding roomListOperations_def fold_append comp_def up del published_removed [OF ok(1)] map_of_filter_ok [OF ok(2)]
    by (auto simp: fun_eq_iff roomListStateEq_iff split: option.split)
qed

definition change_bytes :: "u8 \<times> RoomListState \<Rightarrow> bytes" where
  "change_bytes op = fst op # (if fst op = ROOM_LIST_UPSERT then record_of (snd op) else be32 (rl_roomId (snd op)))"

lemma roomListPush_data:
  "roomListPush base revision ops =
     be64 base @ be64 revision @ be16 (of_nat (length ops)) @ concat (map change_bytes ops)"
proof -
  have "bb_data (fold writeRoomListOperation ops b) = bb_data b @ concat (map change_bytes ops)" for b
    by (induction ops arbitrary: b) (simp_all add: writeRoomListOperation_def Let_def writeRoomListItem_data change_bytes_def)
  then show ?thesis by (simp add: roomListPush_def)
qed

lemma operations_ok:
  assumes "listing_map published" "listing_map current" "op \<in> set (roomListOperations published current)"
  shows "listing_ok (snd op)" "fst op = ROOM_LIST_UPSERT \<or> fst op = ROOM_LIST_REMOVE"
  using assms by (auto simp: roomListOperations_def listing_map_def)

lemma operations_distinct:
  assumes "listing_map published" "listing_map current"
  shows "distinct (map (rl_roomId \<circ> snd) (roomListOperations published current))"
proof -
  let ?up = "filter (\<lambda>(i, st). case map_of published i of None \<Rightarrow> True | Some old \<Rightarrow> \<not> roomListStateEq old st) current"
  let ?del = "filter (\<lambda>(i, st). map_of current i = None) published"
  have ids: "map (rl_roomId \<circ> snd) ?up = map fst ?up" "map (rl_roomId \<circ> snd) ?del = map fst ?del"
    using assms by (auto simp: listing_map_def)
  have "distinct (map fst ?up)" "distinct (map fst ?del)"
    using assms om_ok_filter om_ok_distinct by (auto simp: listing_map_def)
  moreover have "set (map fst ?up) \<inter> set (map fst ?del) = {}" by (auto simp: map_of_eq_None_iff) (metis fst_conv imageI)
  moreover have "map (rl_roomId \<circ> snd) (roomListOperations published current) = map (rl_roomId \<circ> snd) ?up @ map (rl_roomId \<circ> snd) ?del"
    by (simp add: roomListOperations_def comp_def)
  ultimately show ?thesis unfolding ids by simp
qed

lemma length_operations: "length (roomListOperations published current) \<le> length current + length published"
  unfolding roomListOperations_def by (simp add: add_mono length_filter_le)

lemma push_length:
  assumes "listing_map published" "listing_map current"
  shows "length (roomListPush base revision (roomListOperations published current)) \<le> 18 + 81 * (length current + length published)"
proof -
  have "length (change_bytes op) \<le> 81" if "op \<in> set (roomListOperations published current)" for op
    using operations_ok(1) [OF assms that] length_record_le by (simp add: change_bytes_def)
  then have "sum_list (map (length \<circ> change_bytes) (roomListOperations published current)) \<le> length (roomListOperations published current) * 81"
    using sum_list_mono [of "roomListOperations published current" "length \<circ> change_bytes" "\<lambda>_. 81"] by (simp add: sum_list_triv comp_def)
  then show ?thesis using length_operations [of published current] by (simp add: roomListPush_data length_concat comp_def)
qed

lemma push_valid:
  assumes "listing_map published" "listing_map current" "roomListOperations published current \<noteq> []" "base < revision"
    "length current + length published \<le> 700"
  shows "mvIsValid (validateServerSignalPayload MSG_ROOM_LIST_PUSH (Some (roomListPush base revision (roomListOperations published current)))
     (length (roomListPush base revision (roomListOperations published current))))"
proof -
  let ?ops = "roomListOperations published current"
  let ?cs = "map (\<lambda>op. (rl_roomId (snd op), change_bytes op)) ?ops"
  have change: "room_change (rl_roomId (snd op)) (change_bytes op)" if "op \<in> set ?ops" for op
    using operations_ok [OF assms(1,2) that] record_of_item by (auto simp: room_change_def change_bytes_def listing_ok_def)
  have "length ?ops < 65536" using length_operations [of published current] assms(5) by linarith
  then have "room_list_push_msg (roomListPush base revision ?ops)"
    unfolding room_list_push_msg_def roomListPush_data using assms(3,4) change operations_distinct [OF assms(1,2)]
    by (intro exI [of _ base] exI [of _ revision] exI [of _ ?cs]) (simp add: comp_def)
  moreover have "length (roomListPush base revision ?ops) \<le> ROOM_LIST_PAGE_PAYLOAD"
    using push_length [OF assms(1,2), of base revision] mult_le_mono2 [OF assms(5), of 81] by linarith
  ultimately show ?thesis by (simp add: validator_rules)
qed

text \<open>
  A push brings a client that has the published list up to date: applying its changes
  to that list gives exactly the current rooms, whatever changed in between; when there is a
  change to send, the push fits the payload limit (so it is never dropped for its size) and
  passes the client's validator.
\<close>

lemma room_list_push_correct:
  fixes published m base
  defines "current \<equiv> collectRoomListState m"
  defines "ops \<equiv> roomListOperations published current"
  assumes "listing_map published" "mgr_inv m" "\<forall>(i, r) \<in> set (mg_rooms m). room_good r"
    "managerSize m + length published \<le> 700" "unat base < 2 ^ 64 - 1"
  shows "fold apply_change ops (map_of published) = map_of current \<and>
     (ops \<noteq> [] \<longrightarrow> length (roomListPush base (base + 1) ops) \<le> ROOM_LIST_PAGE_PAYLOAD \<and>
        mvIsValid (validateServerSignalPayload MSG_ROOM_LIST_PUSH (Some (roomListPush base (base + 1) ops))
          (length (roomListPush base (base + 1) ops))))"
proof -
  note lm = listing_map_collect [OF assms(4,5)]
  have "base < base + 1" using assms(7) by (simp add: word_less_nat_alt unat_word_ariths)
  moreover have "length (roomListPush base (base + 1) ops) \<le> ROOM_LIST_PAGE_PAYLOAD"
    using push_length [OF assms(3) lm(1), of base "base + 1"] mult_le_mono2 [OF assms(6), of 81] lm(2) unfolding ops_def current_def by simp
  ultimately show ?thesis
    using operations_apply [OF assms(3) lm(1)] push_valid [OF assms(3) lm(1), of base "base + 1"] assms(6) lm(2)
    unfolding ops_def current_def by auto
qed

end
