(* ===== verification/Cli_RoomList.thy ===== *)
theory Cli_RoomList
  imports Cli_Handshake Server_Payloads
begin

text \<open>
  The client's copy of the room list against the server's: the pages of a snapshot and the changes of a
  push, built by the server and read by the client, keep the two equal.
\<close>

section \<open>One record\<close>

definition item_of :: "RoomListState \<Rightarrow> CliRoomListItem" where
  "item_of st = \<lparr>ci_roomId = rl_roomId st, ci_roomName = rl_roomName st, ci_playerCount = rl_playerCount st,
     ci_maxPlayers = rl_maxPlayers st, ci_tcpPolicy = rl_tcpPolicy st, ci_udpPolicy = rl_udpPolicy st,
     ci_passwordProtected = rl_passwordProtected st, ci_mtu = rl_mtu st\<rparr>"

lemma item_of_id [simp]: "ci_roomId (item_of st) = rl_roomId st"
  by (simp add: item_of_def)

definition mirror :: "(u32, RoomListState) omap \<Rightarrow> (u32, CliRoomListItem) omap" where
  "mirror m = map (\<lambda>(i, st). (i, item_of st)) m"

lemma mirror_simps [simp]: "mirror [] = []" "mirror (x @ y) = mirror x @ mirror y" "map fst (mirror m) = map fst m"
  "mirror ((i, st) # m) = (i, item_of st) # mirror m" "length (mirror m) = length m"
  by (auto simp: mirror_def)

lemma om_ok_mirror [simp]: "om_ok (mirror m) = om_ok m"
  by (simp add: om_ok_def)

lemma map_of_mirror: "map_of (mirror m) i = map_option item_of (map_of m i)"
  by (induction m) auto

lemma read_item:
  assumes ok: "listing_ok st" and b: "unread b = record_of st @ r"
  shows "sigReadRoomListItem b = Some (item_of st, advance (length (record_of st)) b)"
proof -
  have wf: "policy_wf (rl_tcpPolicy st)" "policy_wf (rl_udpPolicy st)" and name: "length (rl_roomName st) < 65536"
    using ok by (auto simp: listing_ok_def isValidRoomName_def)
  note policy = readTrafficPolicy_roundtrip [THEN conjunct1]
  have rec: "record_of st = be32 (rl_roomId st) @ string_enc (rl_roomName st) @ [rl_playerCount st, rl_maxPlayers st] @
      policy_enc (rl_tcpPolicy st) @ policy_enc (rl_udpPolicy st) @ [rl_passwordProtected st] @ be16 (rl_mtu st)"
    by (simp add: record_of_def writeRoomListItem_def policyBytes_enc)
  define b1 where "b1 = advance 4 b"
  define b2 where "b2 = advance (length (string_enc (rl_roomName st))) b1"
  define b3 where "b3 = advance 2 b2"
  define b4 where "b4 = advance 3 b3"
  define b5 where "b5 = advance 3 b4"
  have 1: "readU32 b = Some (rl_roomId st, b1)" using b rec by (simp add: u32c.get_enc b1_def)
  have u1: "unread b1 = string_enc (rl_roomName st) @ [rl_playerCount st, rl_maxPlayers st] @
      policy_enc (rl_tcpPolicy st) @ policy_enc (rl_udpPolicy st) @ [rl_passwordProtected st] @ be16 (rl_mtu st) @ r"
    using b rec by (simp add: b1_def)
  have 2: "readString b1 = Some (rl_roomName st, b2)" using readString_enc [OF name u1] by (simp add: b2_def)
  have u2: "unread b2 = [rl_playerCount st, rl_maxPlayers st] @
      policy_enc (rl_tcpPolicy st) @ policy_enc (rl_udpPolicy st) @ [rl_passwordProtected st] @ be16 (rl_mtu st) @ r"
    using u1 by (simp add: b2_def)
  have u3: "unread b3 = policy_enc (rl_tcpPolicy st) @ policy_enc (rl_udpPolicy st) @ [rl_passwordProtected st] @ be16 (rl_mtu st) @ r"
    using u2 by (simp add: b3_def)
  have 4: "readTrafficPolicy makeDefaultTcpPolicy b3 = Some (rl_tcpPolicy st, b4)"
    using policy [OF wf(1)] u3 by (simp add: policy_enc_def b4_def)
  have u4: "unread b4 = policy_enc (rl_udpPolicy st) @ [rl_passwordProtected st] @ be16 (rl_mtu st) @ r"
    using u3 by (simp add: b4_def policy_enc_def)
  have 5: "readTrafficPolicy makeDefaultUdpPolicy b4 = Some (rl_udpPolicy st, b5)"
    using policy [OF wf(2)] u4 by (simp add: policy_enc_def b5_def)
  have u5: "unread b5 = [rl_passwordProtected st] @ be16 (rl_mtu st) @ r" using u4 by (simp add: b5_def policy_enc_def)
  have 3: "readU8 b2 = Some (rl_playerCount st, advance 1 b2)" "readU8 (advance 1 b2) = Some (rl_maxPlayers st, b3)"
    using u2 by (simp_all add: readU8_unread b3_def numeral_2_eq_2)
  have 6: "readU8 b5 = Some (rl_passwordProtected st, advance 1 b5)" "readU16 (advance 1 b5) = Some (rl_mtu st, advance 3 b5)"
    using u5 by (simp_all add: readU8_unread u16c.get_enc [where r = r] numeral_3_eq_3)
  have "advance 3 b5 = advance (length (record_of st)) b"
    by (simp add: rec b1_def b2_def b3_def b4_def b5_def string_enc_def policy_enc_def)
  then show ?thesis
    by (simp add: sigReadRoomListItem_def 1 2 3 4 5 6 item_of_def del: One_nat_def)
qed

section \<open>Snapshots\<close>

lemma read_snapshot:
  assumes "list_all listing_ok (map snd m)" "\<forall>(i, st) \<in> set m. rl_roomId st = i" "om_ok (acc @ m)"
    and "unread b = concat (map (record_of \<circ> snd) m) @ r"
  shows "sigReadSnapshot (length m) b (mirror acc) = Some (Some (mirror (acc @ m)))"
  using assms
proof (induction m arbitrary: acc b)
  case (Cons e m)
  obtain i st where e: "e = (i, st)" by fastforce
  have ok: "listing_ok st" "rl_roomId st = i" using Cons.prems(1,2) by (simp_all add: e)
  let ?b = "advance (length (record_of st)) b"
  have read: "sigReadRoomListItem b = Some (item_of st, ?b)"
    using Cons.prems(4) by (intro read_item [OF ok(1)]) (simp add: e)
  have sorted: "om_ok (acc @ [(i, st)])" using Cons.prems(3) by (simp add: e om_ok_def sorted_wrt_append)
  then have new: "map_of (mirror acc) i = None"
    by (auto simp: map_of_mirror map_of_eq_None_iff om_ok_def sorted_wrt_append)
  have "om_upd i (item_of st) (mirror acc) = mirror (acc @ [(i, st)])"
    using om_upd_last [of "mirror acc" i "item_of st"] sorted om_ok_mirror [of "acc @ [(i, st)]"] by simp
  then show ?case
    using Cons.IH [of "acc @ [(i, st)]" ?b] Cons.prems ok read new by (simp add: e)
qed simp

text \<open>How the client takes one payload of a decrypted frame.\<close>

definition sigTake :: "crypto \<Rightarrow> 'a app \<Rightarrow> u8 \<Rightarrow> bytes \<Rightarrow> 'a sig_op" where
  "sigTake C app ty p s = snd (sigDeliver C app ty (framePtr p) (length p) (validateServerSignalPayload ty (framePtr p) (length p)) s)"

lemma take_valid:
  assumes "mvIsValid (validateServerSignalPayload ty (Some p) (length p))" "p \<noteq> []"
    and "sigDispatch C app ty \<lparr>bb_data = p, bb_readPos = 0\<rparr> s = Some (True, s')"
  shows "sigTake C app ty p s = s'"
  using assms by (simp add: sigTake_def sigDeliver_def framePtr_def mkByteBuffer_def mvIsValid_def)

definition page_start :: "u64 \<Rightarrow> nat \<Rightarrow> nat \<Rightarrow> (u32, RoomListState) omap \<Rightarrow> 'a CliSignalClient \<Rightarrow> bool" where
  "page_start revision n k m s \<longleftrightarrow> k = 0 \<or> (sg_snapshotRevision s = revision \<and> sg_snapshotPageCount s = of_nat n \<and>
     sg_snapshotNextPage s = of_nat k \<and> sg_snapshotRooms s = mirror m)"

text \<open>One page: the snapshot grows by its rooms; the last page makes it the client's list.\<close>

lemma page_taken:
  fixes s :: "signal_event list CliSignalClient" and C :: crypto
  assumes page: "mvIsValid (validateServerSignalPayload MSG_ROOM_LIST (Some (page_of revision n k (map snd m2))) (length (page_of revision n k (map snd m2))))"
    and st: "page_start revision n k m1 s" "k = 0 \<Longrightarrow> m1 = []" and k: "k < n" "n < 65536"
    and m: "om_ok (m1 @ m2)" "\<forall>(i, st) \<in> set m2. rl_roomId st = i \<and> listing_ok st" "length m2 < 65536"
  defines "s' \<equiv> sigTake C (recording C) MSG_ROOM_LIST (page_of revision n k (map snd m2)) s"
  shows "sg_conn s' = sg_conn s \<and>
    (if Suc k = n then sg_roomListCache s' = mirror (m1 @ m2) \<and> sg_roomListRevision s' = revision \<and>
        sg_app s' = sg_app s @ [OnRoomList (map snd (mirror (m1 @ m2))) False]
     else page_start revision n (Suc k) (m1 @ m2) s' \<and> sg_app s' = sg_app s \<and> sg_roomListCache s' = sg_roomListCache s)"
proof -
  let ?p = "page_of revision n k (map snd m2)"
  let ?b = "\<lparr>bb_data = ?p, bb_readPos = 0\<rparr>"
  have u: "unread ?b = be64 revision @ be16 (of_nat k) @ be16 (of_nat n) @ be16 (of_nat (length m2)) @ concat (map (record_of \<circ> snd) m2)"
    by (simp add: unread_def page_of_def)
  have w: "unat (of_nat (length m2) :: u16) = length m2" using m(3) by (simp add: unat_of_nat_small)
  have kz: "((of_nat k :: u16) = 0) = (k = 0)"
    using k unat_of_nat_small [where ?'a = 16, of k] by (auto simp: word_unat_eq_iff)
  have last: "((of_nat k :: u16) + 1 = of_nat n) = (Suc k = n)"
  proof -
    have "(of_nat (Suc k) :: u16) = of_nat n \<longleftrightarrow> Suc k = n"
      using k unat_of_nat_small [where ?'a = 16, of "Suc k"] unat_of_nat_small [where ?'a = 16, of n] by (auto simp: word_unat_eq_iff)
    then show ?thesis by (simp add: add.commute)
  qed
  have items: "sigReadSnapshot (length m2) (advance 14 ?b) (mirror m1) = Some (Some (mirror (m1 @ m2)))"
    using m u by (intro read_snapshot [where r = "[]"]) (auto simp: list_all_iff)
  have reads: "readU64 ?b = Some (revision, advance 8 ?b)" "readU16 (advance 8 ?b) = Some (of_nat k, advance 10 ?b)"
    "readU16 (advance 10 ?b) = Some (of_nat n, advance 12 ?b)" "readU16 (advance 12 ?b) = Some (of_nat (length m2), advance 14 ?b)"
    using u by (simp_all add: u64c.get_enc u16c.get_enc)
  define s0 where "s0 = (if k = 0 then s\<lparr>sg_snapshotRooms := [], sg_snapshotRevision := revision, sg_snapshotPageCount := of_nat n,
     sg_snapshotNextPage := 0\<rparr> else s)"
  have s0: "sg_snapshotRevision s0 = revision" "sg_snapshotPageCount s0 = of_nat n" "sg_snapshotNextPage s0 = of_nat k"
    "sg_snapshotRooms s0 = mirror m1" "sg_conn s0 = sg_conn s" "sg_app s0 = sg_app s" "sg_roomListCache s0 = sg_roomListCache s"
    using st by (auto simp: s0_def page_start_def)
  let ?t = "s0\<lparr>sg_snapshotRooms := mirror (m1 @ m2), sg_snapshotNextPage := of_nat k + 1\<rparr>"
  let ?done = "sigEmitRoomList (recording C) False (sigDropSnapshot (?t\<lparr>sg_roomListCache := mirror (m1 @ m2), sg_roomListRevision := revision\<rparr>))"
  have "sigOnRoomList C (recording C) ?b s = Some (True, if Suc k = n then ?done else ?t)"
    unfolding sigOnRoomList_def
    by (simp add: reads kz w items s0 s0_def [symmetric] last del: mirror_simps)
  then have "s' = (if Suc k = n then ?done else ?t)"
    unfolding s'_def by (intro take_valid [OF page]) (simp_all add: sigDispatch_def page_of_def)
  then show ?thesis
    using s0 by (simp add: sigEmitRoomList_def sigDropSnapshot_def recorder_def page_start_def add.commute)
qed

definition numbered :: "RoomListState list \<Rightarrow> (u32, RoomListState) omap" where
  "numbered sts = map (\<lambda>st. (rl_roomId st, st)) sts"

lemma numbered_simps [simp]: "numbered (a @ b) = numbered a @ numbered b" "map snd (numbered a) = a" "length (numbered a) = length a"
  "numbered [] = []" "(i, st) \<in> set (numbered a) \<longleftrightarrow> st \<in> set a \<and> i = rl_roomId st"
  by (auto simp: numbered_def comp_def)

lemma pages_taken:
  fixes s :: "signal_event list CliSignalClient" and C :: crypto
  assumes cs: "om_ok (numbered (concat cs))" "list_all listing_ok (concat cs)" "length cs < 65536"
      "list_all (\<lambda>c. page_size c \<le> ROOM_LIST_PAGE_PAYLOAD) cs" "revision \<noteq> 0"
    and k: "k < length cs" and st: "page_start revision (length cs) k (numbered (concat (take k cs))) s"
  defines "s' \<equiv> fold (sigTake C (recording C) MSG_ROOM_LIST) (map (\<lambda>k. page_of revision (length cs) k (cs ! k)) [k..<length cs]) s"
  shows "sg_conn s' = sg_conn s \<and> sg_roomListCache s' = mirror (numbered (concat cs)) \<and> sg_roomListRevision s' = revision \<and>
     sg_app s' = sg_app s @ [OnRoomList (map item_of (concat cs)) False]"
  using k st unfolding s'_def
proof (induction "length cs - k" arbitrary: k s)
  case (Suc d)
  let ?n = "length cs"
  let ?p = "page_of revision ?n k (map snd (numbered (cs ! k)))"
  let ?t = "sigTake C (recording C) MSG_ROOM_LIST ?p s"
  have split: "concat (take (Suc k) cs) = concat (take k cs) @ cs ! k" using Suc.prems(1) by (simp add: take_Suc_conv_app_nth)
  have whole: "concat cs = concat (take k cs) @ cs ! k @ concat (drop (Suc k) cs)"
    using id_take_nth_drop [OF Suc.prems(1)] by (metis concat.simps(2) concat_append)
  have ok: "om_ok (numbered (concat (take k cs)) @ numbered (cs ! k))"
    using cs(1) unfolding whole by (simp add: om_ok_def sorted_wrt_append)
  have lo: "list_all listing_ok (cs ! k)" using cs(2) unfolding whole by simp
  have size: "page_size (cs ! k) \<le> ROOM_LIST_PAGE_PAYLOAD" using cs(4) Suc.prems(1) by (simp add: list_all_length)
  have "17 * length sts \<le> sum_list (map (length \<circ> record_of) sts)" for sts by (induction sts) (auto simp: length_record)
  from this [of "cs ! k"] have len: "length (cs ! k) < 65536" using size by (simp add: page_size_def)
  have "distinct (map rl_roomId (cs ! k))"
    using om_ok_distinct [OF ok] by (simp add: numbered_def comp_def)
  then have v: "mvIsValid (validateServerSignalPayload MSG_ROOM_LIST (Some ?p) (length ?p))"
    using page_valid [OF lo _ size cs(5) Suc.prems(1) cs(3)] by simp
  have page: "sg_conn ?t = sg_conn s \<and>
    (if Suc k = ?n then sg_roomListCache ?t = mirror (numbered (concat (take k cs)) @ numbered (cs ! k)) \<and> sg_roomListRevision ?t = revision \<and>
        sg_app ?t = sg_app s @ [OnRoomList (map snd (mirror (numbered (concat (take k cs)) @ numbered (cs ! k)))) False]
     else page_start revision ?n (Suc k) (numbered (concat (take k cs)) @ numbered (cs ! k)) ?t \<and> sg_app ?t = sg_app s \<and>
        sg_roomListCache ?t = sg_roomListCache s)"
    using lo len by (intro page_taken [OF v Suc.prems(2) _ Suc.prems(1) cs(3) ok]) (auto simp: list_all_iff)
  have items: "map snd (mirror (numbered sts)) = map item_of sts" for sts by (simp add: mirror_def numbered_def comp_def)
  have run: "fold (sigTake C (recording C) MSG_ROOM_LIST) (map (\<lambda>k. page_of revision ?n k (cs ! k)) [k..<?n]) s =
      fold (sigTake C (recording C) MSG_ROOM_LIST) (map (\<lambda>k. page_of revision ?n k (cs ! k)) [Suc k..<?n]) ?t"
    using Suc.prems(1) by (simp add: upt_conv_Cons)
  show ?case
  proof (cases "Suc k = ?n")
    case True
    then have "concat cs = concat (take k cs) @ cs ! k" using whole by simp
    with True page show ?thesis
      unfolding run using items [of "concat (take k cs) @ cs ! k"] by simp
  next
    case False
    have d: "d = ?n - Suc k" and lt: "Suc k < ?n" using Suc.hyps(2) False Suc.prems(1) by linarith+
    have follow: "page_start revision ?n (Suc k) (numbered (concat (take (Suc k) cs))) ?t" using page False by (simp add: split)
    show ?thesis unfolding run using Suc.hyps(1) [OF d lt follow] page False by simp
  qed
qed simp

section \<open>Pushes\<close>

lemma om_rebuild: "om_ok a \<Longrightarrow> map (\<lambda>k. (k, the (map_of a k))) (map fst a) = a"
  by (auto simp: comp_def om_ok_distinct intro!: map_idI)

lemma om_ext:
  assumes "om_ok a" "om_ok b" "map_of a = map_of b"
  shows "a = b"
proof -
  have "fst ` set a = fst ` set b" using assms(3) by (metis dom_map_of_conv_image_fst)
  then have "map fst a = map fst b" using assms(1,2) unfolding om_ok_def by (intro strict_sorted_equal) auto
  then show ?thesis using om_rebuild [OF assms(1)] om_rebuild [OF assms(2)] assms(3) by metis
qed

lemma apply_changes:
  assumes "\<forall>op \<in> set ops. listing_ok (snd op) \<and> (fst op = ROOM_LIST_UPSERT \<or> fst op = ROOM_LIST_REMOVE)"
    and "unread b = concat (map change_bytes ops) @ r" "om_ok rooms" "map_of rooms = (\<lambda>i. map_option item_of (m i))"
  shows "\<exists>rooms'. sigApplyChanges (length ops) b rooms = Some rooms' \<and> om_ok rooms' \<and>
     map_of rooms' = (\<lambda>i. map_option item_of (fold apply_change ops m i))"
  using assms
proof (induction ops arbitrary: b rooms m)
  case (Cons op ops)
  obtain ty st where op: "op = (ty, st)" by fastforce
  have ok: "listing_ok st" "ty = ROOM_LIST_UPSERT \<or> ty = ROOM_LIST_REMOVE" using Cons.prems(1) by (simp_all add: op)
  have u: "unread b = ty # (if ty = ROOM_LIST_UPSERT then record_of st else be32 (rl_roomId st)) @ concat (map change_bytes ops) @ r"
    using Cons.prems(2) change_bytes_def [of op] by (simp add: op)
  have t: "readU8 b = Some (ty, advance 1 b)" using u by (simp add: readU8_unread)
  have rest: "\<forall>op \<in> set ops. listing_ok (snd op) \<and> (fst op = ROOM_LIST_UPSERT \<or> fst op = ROOM_LIST_REMOVE)"
    using Cons.prems(1) by simp
  show ?case
  proof (cases "ty = ROOM_LIST_UPSERT")
    case True
    let ?b = "advance (length (record_of st)) (advance 1 b)"
    have "sigReadRoomListItem (advance 1 b) = Some (item_of st, ?b)"
      by (rule read_item [OF ok(1), where r = "concat (map change_bytes ops) @ r"]) (use u True in simp)
    then have step: "sigApplyChanges (length (op # ops)) b rooms =
        sigApplyChanges (length ops) ?b (om_upd (rl_roomId st) (item_of st) rooms)"
      using t True by (simp del: advance_advance)
    have "unread ?b = concat (map change_bytes ops) @ r" using u True by (simp add: drop_Cons')
    moreover have "map_of (om_upd (rl_roomId st) (item_of st) rooms) = (\<lambda>i. map_option item_of (apply_change op m i))"
      using Cons.prems(4) True by (auto simp: op apply_change_def fun_eq_iff)
    ultimately show ?thesis unfolding step using Cons.IH [OF rest] Cons.prems(3) by simp
  next
    case False
    let ?b = "advance 4 (advance 1 b)"
    have "readU32 (advance 1 b) = Some (rl_roomId st, ?b)" using u False by (simp add: u32c.get_enc)
    then have step: "sigApplyChanges (length (op # ops)) b rooms = sigApplyChanges (length ops) ?b (om_del (rl_roomId st) rooms)"
      using t False by (simp del: advance_advance)
    have "unread ?b = concat (map change_bytes ops) @ r" using u False by simp
    moreover have "map_of (om_del (rl_roomId st) rooms) = (\<lambda>i. map_option item_of (apply_change op m i))"
      using Cons.prems(4) False by (auto simp: op apply_change_def fun_eq_iff)
    ultimately show ?thesis unfolding step using Cons.IH [OF rest] Cons.prems(3) by simp
  qed
qed auto

lemma push_taken:
  fixes s :: "signal_event list CliSignalClient" and C :: crypto
  assumes m: "listing_map published" "listing_map current" and ne: "roomListOperations published current \<noteq> []" "base < revision"
      "length current + length published \<le> 700"
    and s: "sg_roomListCache s = mirror published" "sg_roomListRevision s = base"
  defines "s' \<equiv> sigTake C (recording C) MSG_ROOM_LIST_PUSH (roomListPush base revision (roomListOperations published current)) s"
  shows "sg_conn s' = sg_conn s \<and> sg_roomListCache s' = mirror current \<and> sg_roomListRevision s' = revision \<and>
     sg_app s' = sg_app s @ [OnRoomList (map snd (mirror current)) True]"
proof -
  let ?ops = "roomListOperations published current"
  let ?p = "roomListPush base revision ?ops"
  let ?b = "\<lparr>bb_data = ?p, bb_readPos = 0\<rparr>"
  have u: "unread ?b = be64 base @ be64 revision @ be16 (of_nat (length ?ops)) @ concat (map change_bytes ?ops)"
    by (simp add: unread_def roomListPush_data)
  have reads: "readU64 ?b = Some (base, advance 8 ?b)" "readU64 (advance 8 ?b) = Some (revision, advance 16 ?b)"
    "readU16 (advance 16 ?b) = Some (of_nat (length ?ops), advance 18 ?b)"
    using u by (simp_all add: u64c.get_enc u16c.get_enc)
  have "length ?ops < 65536" using length_operations [of published current] ne(3) by linarith
  then have w: "unat (of_nat (length ?ops) :: u16) = length ?ops" by (simp add: unat_of_nat_small)
  have "\<exists>rooms'. sigApplyChanges (length ?ops) (advance 18 ?b) (mirror published) = Some rooms' \<and> om_ok rooms' \<and>
     map_of rooms' = (\<lambda>i. map_option item_of (fold apply_change ?ops (map_of published) i))"
    using m u operations_ok [OF m]
    by (intro apply_changes [where r = "[]"]) (auto simp: listing_map_def map_of_mirror fun_eq_iff)
  then obtain rooms' where r: "sigApplyChanges (length ?ops) (advance 18 ?b) (mirror published) = Some rooms'" "om_ok rooms'"
      "map_of rooms' = map_of (mirror current)"
    by (auto simp: operations_apply [OF m] map_of_mirror fun_eq_iff)
  then have "rooms' = mirror current" using m(2) by (intro om_ext) (simp_all add: listing_map_def)
  then have "sigOnRoomListPush C (recording C) ?b s = Some (True, sigEmitRoomList (recording C) True
      (s\<lparr>sg_roomListCache := mirror current, sg_roomListRevision := revision\<rparr>))"
    using r(1) s by (simp add: sigOnRoomListPush_def reads w)
  then have "s' = sigEmitRoomList (recording C) True (s\<lparr>sg_roomListCache := mirror current, sg_roomListRevision := revision\<rparr>)"
    unfolding s'_def by (intro take_valid [OF push_valid [OF m ne]]) (simp_all add: sigDispatch_def roomListPush_data)
  then show ?thesis by (simp add: sigEmitRoomList_def recorder_def)
qed

section \<open>The client's list is the server's\<close>

text \<open>
  C21. The client's room list is the server's: whatever list and half-read snapshot a client has, after the pages
  the server builds for its rooms the client's list is exactly those rooms, with their current data, in the
  order of their numbers, under the server's revision; the owner is told once.  A push of what changed
  until a later state of the server takes the list to exactly the rooms of that state.  No page and no push
  makes the client ask for the list again.
\<close>

theorem room_list_mirrored:
  fixes s :: "signal_event list CliSignalClient" and C :: crypto and m m' :: RoomManager and revision :: u64
  defines "cur \<equiv> collectRoomListState"
  defines "s1 \<equiv> fold (sigTake C (recording C) MSG_ROOM_LIST) (buildRoomListPages revision (cur m)) s"
  defines "s2 \<equiv> sigTake C (recording C) MSG_ROOM_LIST_PUSH (roomListPush revision (revision + 1) (roomListOperations (cur m) (cur m'))) s1"
  assumes m: "mgr_inv m" "\<forall>(i, r) \<in> set (mg_rooms m). room_good r"
    and m': "mgr_inv m'" "\<forall>(i, r) \<in> set (mg_rooms m'). room_good r"
    and small: "managerSize m + managerSize m' \<le> 700" "revision \<noteq> 0" "unat revision < 2 ^ 64 - 1"
  shows "sg_roomListCache s1 = mirror (cur m) \<and> sg_roomListRevision s1 = revision \<and> sg_conn s1 = sg_conn s \<and>
     sg_app s1 = sg_app s @ [OnRoomList (map (item_of \<circ> roomListStateOf \<circ> snd) (mg_rooms m)) False] \<and>
     (roomListOperations (cur m) (cur m') \<noteq> [] \<longrightarrow>
        sg_roomListCache s2 = mirror (cur m') \<and> sg_roomListRevision s2 = revision + 1 \<and> sg_conn s2 = sg_conn s \<and>
        sg_app s2 = sg_app s1 @ [OnRoomList (map (item_of \<circ> roomListStateOf \<circ> snd) (mg_rooms m')) True])"
proof -
  note lm = listing_map_collect [OF m] and lm' = listing_map_collect [OF m']
  have len: "length (cur m) < 65535" using lm(2) small(1) by (simp add: cur_def)
  obtain cs where cs: "buildRoomListPages revision (cur m) = map (\<lambda>k. page_of revision (length cs) k (cs ! k)) [0..<length cs]"
      "concat cs = map snd (cur m)" "length cs < 65536" "cs \<noteq> []" "list_all (\<lambda>c. page_size c \<le> ROOM_LIST_PAGE_PAYLOAD) cs"
    using buildRoomListPages_chunks [of "cur m" revision] lm(1) len unfolding cur_def by blast
  have num: "numbered (concat cs) = cur m"
    using lm(1) unfolding cs(2) numbered_def cur_def by (auto simp: listing_map_def intro!: map_idI)
  have sorted: "om_ok (numbered (concat cs))" unfolding num using lm(1) by (simp add: cur_def listing_map_def)
  have "list_all listing_ok (concat cs)" using lm(1) by (auto simp: cs(2) cur_def listing_map_def list_all_iff)
  from pages_taken [OF sorted this cs(3,5) small(2), of 0 s C] cs(4)
  have pages: "sg_conn s1 = sg_conn s" "sg_roomListCache s1 = mirror (cur m)" "sg_roomListRevision s1 = revision"
      "sg_app s1 = sg_app s @ [OnRoomList (map item_of (concat cs)) False]"
    by (auto simp: s1_def cs(1) page_start_def num)
  have items: "map snd (mirror (cur x)) = map (item_of \<circ> roomListStateOf \<circ> snd) (mg_rooms x)" if "mgr_inv x" for x
    by (simp add: cur_def collect_rooms [OF that] mirror_def comp_def case_prod_unfold)
  have up: "revision < revision + 1" using small(3) by (simp add: word_less_nat_alt unat_word_ariths)
  have size: "length (cur m') + length (cur m) \<le> 700" using lm(2) lm'(2) small(1) by (simp add: cur_def)
  have push: "sg_conn s2 = sg_conn s1 \<and> sg_roomListCache s2 = mirror (cur m') \<and> sg_roomListRevision s2 = revision + 1 \<and>
     sg_app s2 = sg_app s1 @ [OnRoomList (map snd (mirror (cur m'))) True]" if "roomListOperations (cur m) (cur m') \<noteq> []"
    unfolding s2_def using lm(1) lm'(1) that size up pages(2,3)
    by (intro push_taken) (simp_all add: cur_def)
  have "map item_of (concat cs) = map (item_of \<circ> roomListStateOf \<circ> snd) (mg_rooms m)"
    using items [OF m(1)] by (simp add: cs(2) mirror_def comp_def case_prod_unfold)
  then show ?thesis using pages push items [OF m'(1)] by simp
qed

theorem room_list_mirrored_witness:
  "sg_roomListCache (fold (sigTake demo_exchange (recording demo_exchange) MSG_ROOM_LIST)
      (buildRoomListPages 1 (collectRoomListState demo_rooms)) demo_secure) = mirror (collectRoomListState demo_rooms)"
proof -
  have "\<forall>(i, r) \<in> set (mg_rooms demo_rooms). room_good r" "managerSize demo_rooms + managerSize demo_rooms \<le> 700"
    using demo_room_good by (simp_all add: demo_rooms_def room_good_def managerSize_def roomListStateOf_def listing_ok_def demo_room_def)
  then show ?thesis
    using room_list_mirrored [of demo_rooms demo_rooms 1 demo_exchange demo_secure] demo_rooms_inv by simp
qed

end
