(* ===== verification/Cli_Data.thy ===== *)
theory Cli_Data
  imports Cli_Handshake
begin

text \<open>
  The data channel of the command-line client (\<^verbatim>\<open>client-cli/src/cli_net.cpp\<close>, class
  \<^verbatim>\<open>CliDataChannel\<close>), modelled as the signalling client is: callbacks are the argument \<open>app\<close>, and
  \<open>dc_sockets\<close> holds the coming results of \<^verbatim>\<open>socket\<close> and \<^verbatim>\<open>connect\<close> (none left: \<^verbatim>\<open>socket\<close> fails), because
  the channel reconnects by itself.
\<close>

section \<open>State\<close>

datatype data_event = DcConnected | DcDisconnected | DcSecurityFailure string | DcRelayData u32 u8 bytes

record 'a CliDataChannel =
  dc_conn :: TcpConnection
  dc_host :: bytes
  dc_port :: u16
  dc_peerId :: u32
  dc_established :: bool
  dc_needReconnect :: bool
  dc_sendFailurePending :: bool
  dc_reconnectTime :: u32
  dc_securityMode :: DataPlaneSecurityMode
  dc_secureSessionId :: u32
  dc_secureMaster :: bytes
  dc_cipher :: SecureFrameCipher
  dc_nowMs :: u32
  dc_sockets :: "(int \<times> bool) list"
  dc_app :: 'a

type_synonym 'a dc_owner = "data_event \<Rightarrow> 'a CliDataChannel \<Rightarrow> 'a CliDataChannel"
type_synonym 'a dc_op = "'a CliDataChannel \<Rightarrow> 'a CliDataChannel"

definition newCliDataChannel :: "'a \<Rightarrow> 'a CliDataChannel" where
  "newCliDataChannel a =
     \<lparr>dc_conn = newTcpConnection, dc_host = [], dc_port = 0, dc_peerId = 0, dc_established = False,
      dc_needReconnect = False, dc_sendFailurePending = False, dc_reconnectTime = 0, dc_securityMode = Unconfigured,
      dc_secureSessionId = 0, dc_secureMaster = [], dc_cipher = newCipher, dc_nowMs = 0, dc_sockets = [], dc_app = a\<rparr>"

section \<open>Operations\<close>

definition dcResetConn :: "'a dc_op" where
  "dcResetConn s = s\<lparr>dc_conn := tcReset (dc_conn s)\<rparr>"

definition dcScheduleReconnect :: "'a dc_op" where
  "dcScheduleReconnect s = s\<lparr>dc_needReconnect := True, dc_reconnectTime := dc_nowMs s + 3000\<rparr>"

definition dcConnectTo :: "bytes \<Rightarrow> u16 \<Rightarrow> u32 \<Rightarrow> 'a CliDataChannel \<Rightarrow> bool \<times> 'a CliDataChannel" where
  "dcConnectTo ip port peerId s =
     (if dc_securityMode s = Unconfigured then (False, s)
      else
        let s = s\<lparr>dc_host := ip, dc_port := port, dc_peerId := peerId, dc_established := False, dc_needReconnect := False\<rparr>;
            (fd, started) = (case dc_sockets s of [] \<Rightarrow> (SOCK_INVALID, False) | r # _ \<Rightarrow> r);
            (ok, conn) = tcConnectTo fd started (dc_conn s)
        in (ok, s\<lparr>dc_conn := conn, dc_sockets := tl (dc_sockets s)\<rparr>))"

definition dcDisconnect :: "'a dc_op" where
  "dcDisconnect s = (dcResetConn s)\<lparr>dc_established := False, dc_needReconnect := False, dc_sendFailurePending := False,
     dc_peerId := 0, dc_port := 0\<rparr>"

definition dcClearSecurityContext :: "'a dc_op" where
  "dcClearSecurityContext s =
     (if tc_fd (dc_conn s) \<noteq> SOCK_INVALID then s
      else s\<lparr>dc_secureMaster := [], dc_secureSessionId := 0, dc_cipher := resetCipher (dc_cipher s),
             dc_securityMode := Unconfigured\<rparr>)"

definition dcInstallSecureSession :: "crypto \<Rightarrow> u32 \<Rightarrow> bytes \<Rightarrow> 'a CliDataChannel \<Rightarrow> bool \<times> 'a CliDataChannel" where
  "dcInstallSecureSession C sessionId master s =
     (if dc_secureSessionId s = sessionId \<and> length master = SECURE_KEY_SIZE \<and>
         length (dc_secureMaster s) = SECURE_KEY_SIZE \<and> crypto_verify32 master (dc_secureMaster s) = 0
      then (True, s)
      else if tc_fd (dc_conn s) \<noteq> SOCK_INVALID then (False, s)
      else if sessionId = 0 \<or> length master \<noteq> SECURE_KEY_SIZE then (False, dcClearSecurityContext s)
      else (True, s\<lparr>dc_secureSessionId := sessionId, dc_secureMaster := master,
                    dc_cipher := initCipher C master True ''data'' (dc_cipher s), dc_securityMode := Secure\<rparr>))"

definition dcConnSend :: "u8 \<Rightarrow> ByteBuffer \<Rightarrow> 'a dc_op" where
  "dcConnSend msgType bb s =
     (case tcSendTcpMsg msgType bb (dc_conn s) of
        (ok, conn) \<Rightarrow> let s = s\<lparr>dc_conn := conn\<rparr> in if ok then s else s\<lparr>dc_sendFailurePending := True\<rparr>)"

definition dcCounterExhausted :: "'a dc_owner \<Rightarrow> 'a dc_op" where
  "dcCounterExhausted app s =
     app (DcSecurityFailure ''data channel secure counter exhausted; new authentication required'')
       (dcClearSecurityContext (dcResetConn s))"

definition dcSendMsg :: "crypto \<Rightarrow> 'a dc_owner \<Rightarrow> u8 \<Rightarrow> ByteBuffer \<Rightarrow> 'a dc_op" where
  "dcSendMsg C app msgType body s =
     (if \<not> tc_connected (dc_conn s) \<or> dc_securityMode s \<noteq> Secure then s
      else if bb_size body > MAX_TCP_MSG_PAYLOAD then s
      else if dc_securityMode s = Secure \<and> msgType \<noteq> MSG_DATA_CHANNEL_INIT
      then (case encryptFrame C (msgType # bb_data body) [] (dc_cipher s) of
              (enc, cipher) \<Rightarrow>
                let s = s\<lparr>dc_cipher := cipher\<rparr> in
                if enc = [] then dcCounterExhausted app s
                else if length enc > MAX_TCP_MSG_PAYLOAD then s
                else dcConnSend MSG_ENCRYPTED (writeBytes enc emptyBuffer) s)
      else dcConnSend msgType body s)"

definition dcSendRelayData :: "crypto \<Rightarrow> 'a dc_owner \<Rightarrow> u32 \<Rightarrow> u32 \<Rightarrow> u8 \<Rightarrow> bytes \<Rightarrow> 'a dc_op" where
  "dcSendRelayData C app srcPeerId dstPeerId cls data s =
     (if \<not> dc_established s \<or> dc_securityMode s = Unconfigured then s
      else
        let bb = writeU8 cls (writeU32 dstPeerId (writeU32 srcPeerId emptyBuffer));
            bb = (if data \<noteq> [] then writeBytes data bb else bb)
        in dcSendMsg C app MSG_TCP_RELAY_DATA bb s)"

definition dcSendPing :: "crypto \<Rightarrow> 'a dc_owner \<Rightarrow> 'a dc_op" where
  "dcSendPing C app s = (if \<not> dc_established s then s else dcSendMsg C app MSG_PING emptyBuffer s)"

section \<open>Sockets and timers\<close>

definition dcOnWritable :: "crypto \<Rightarrow> 'a dc_owner \<Rightarrow> int \<Rightarrow> int \<Rightarrow> bool \<Rightarrow> 'a dc_op" where
  "dcOnWritable C app err sent again s =
     (if tc_connecting (dc_conn s)
      then (if err = 0
            then
              let s = s\<lparr>dc_conn := (dc_conn s)\<lparr>tc_connecting := False, tc_connected := True, tc_lastRecvTime := dc_nowMs s\<rparr>\<rparr> in
              if dc_securityMode s \<noteq> Secure then dcResetConn s
              else case encryptFrame C (bb_data (writeU32 (dc_peerId s) emptyBuffer)) [] (dc_cipher s) of
                (enc, cipher) \<Rightarrow>
                  let s = s\<lparr>dc_cipher := cipher\<rparr> in
                  if enc = [] then dcCounterExhausted app s
                  else dcConnSend MSG_DATA_CHANNEL_INIT
                         (writeBytes enc (writeBytes (writeU32BE (dc_secureSessionId s)) emptyBuffer)) s
            else dcScheduleReconnect (dcResetConn s))
      else case tcFlushSend sent again (dc_conn s) of
        (ok, conn) \<Rightarrow>
          let s = s\<lparr>dc_conn := conn\<rparr> in
          if ok then s
          else app DcDisconnected (dcScheduleReconnect ((dcResetConn s)\<lparr>dc_established := False\<rparr>)))"

text \<open>The end of a connection, by the peer or for a bad frame.\<close>

definition dcFailFrame :: "'a dc_owner \<Rightarrow> 'a dc_op" where
  "dcFailFrame app s =
     (let wasEstablished = dc_established s;
          s = (dcResetConn s)\<lparr>dc_established := False\<rparr>;
          s = (if wasEstablished then app DcDisconnected s else s)
      in if dc_peerId s \<noteq> 0 then dcScheduleReconnect s else s)"

definition dcCheckTimeouts :: "crypto \<Rightarrow> 'a dc_owner \<Rightarrow> 'a dc_op" where
  "dcCheckTimeouts C app s =
     (if dc_sendFailurePending s
      then app DcDisconnected (dcScheduleReconnect
             ((dcResetConn (s\<lparr>dc_sendFailurePending := False\<rparr>))\<lparr>dc_established := False\<rparr>))
      else
        let s = (if dc_needReconnect s \<and> dc_nowMs s \<ge> dc_reconnectTime s
                 then (let s = s\<lparr>dc_needReconnect := False\<rparr> in
                       if dc_peerId s \<noteq> 0 \<and> tc_fd (dc_conn s) = SOCK_INVALID
                       then snd (dcConnectTo (dc_host s) (dc_port s) (dc_peerId s) s) else s)
                 else s) in
        if dc_established s \<and> dc_nowMs s - tc_lastRecvTime (dc_conn s) > 30000
        then dcScheduleReconnect (app DcDisconnected ((dcResetConn s)\<lparr>dc_established := False\<rparr>))
        else s)"

section \<open>Messages\<close>

definition dcOnRelayData :: "'a dc_owner \<Rightarrow> ByteBuffer \<Rightarrow> 'a CliDataChannel \<Rightarrow> (bool \<times> 'a CliDataChannel) option" where
  "dcOnRelayData app bb s = do {
     (srcId, bb) \<leftarrow> readU32 bb;
     (dstId, bb) \<leftarrow> readU32 bb;
     (trafficClass, bb) \<leftarrow> readU8 bb;
     let dataLen = remaining bb;
     let data = drop (length (bb_data bb) - dataLen) (bb_data bb);
     Some (True, if dstId = dc_peerId s then app (DcRelayData srcId trafficClass data) s else s)
   }"

definition dcDeliver ::
  "'a dc_owner \<Rightarrow> u8 \<Rightarrow> bytes option \<Rightarrow> nat \<Rightarrow> MessageValidationResult \<Rightarrow> 'a CliDataChannel \<Rightarrow> bool \<times> 'a CliDataChannel" where
  "dcDeliver app msgType payload len validation s =
     (if mv_status validation = UnknownType then (True, s)
      else if msgType = MSG_DATA_CHANNEL_ACK
      then (True, app DcConnected (s\<lparr>dc_established := True, dc_conn := (dc_conn s)\<lparr>tc_lastRecvTime := dc_nowMs s\<rparr>\<rparr>))
      else if msgType = MSG_TCP_RELAY_DATA
      then (case Option.bind (mkByteBuffer payload len) (\<lambda>bb. dcOnRelayData app bb s) of
              Some r \<Rightarrow> r
            | None \<Rightarrow> (False, dcFailFrame app s))
      else (True, s))"

definition dcProcessMessage ::
  "crypto \<Rightarrow> 'a dc_owner \<Rightarrow> u8 \<Rightarrow> bytes option \<Rightarrow> nat \<Rightarrow> 'a CliDataChannel \<Rightarrow> bool \<times> 'a CliDataChannel" where
  "dcProcessMessage C app msgType payload len s =
     (let validation = validateServerDataPayload msgType payload len in
      if mv_status validation = MalformedMsg then (False, dcFailFrame app s)
      else if mv_status validation = UnknownType then (True, s)
      else if msgType = MSG_ENCRYPTED
      then (if dc_securityMode s \<noteq> Secure then (False, dcFailFrame app s)
            else case decryptFrame C (case payload of None \<Rightarrow> [] | Some p \<Rightarrow> take len p) [] (dc_cipher s) of
              (None, cipher) \<Rightarrow> (False, dcFailFrame app (s\<lparr>dc_cipher := cipher\<rparr>))
            | (Some plain, cipher) \<Rightarrow>
                let s = s\<lparr>dc_cipher := cipher\<rparr> in
                case plain of
                  [] \<Rightarrow> (False, dcFailFrame app s)
                | innerType # inner \<Rightarrow>
                    let validation = validateServerDataPayload innerType (framePtr inner) (length inner) in
                    if mv_status validation = MalformedMsg then (False, dcFailFrame app s)
                    else dcDeliver app innerType (framePtr inner) (length inner) validation s)
      else (False, dcFailFrame app s))"

text \<open>The frame loop; as for the signalling client its end is a property of the callbacks.\<close>

partial_function (option) dcReadLoop :: "crypto \<Rightarrow> 'a dc_owner \<Rightarrow> 'a CliDataChannel \<Rightarrow> 'a CliDataChannel option" where
  "dcReadLoop C app s =
     (let buf = tc_recvBuf (dc_conn s); frame = probeTcpFrame (Some buf) (length buf) in
      if length buf < 3 then Some s
      else if fp_status frame = Malformed then Some (dcFailFrame app s)
      else if fp_status frame = NeedMore then Some s
      else
        let payload = take (unat (fp_payloadLength frame)) (drop 3 buf);
            s = s\<lparr>dc_conn := (dc_conn s)\<lparr>tc_recvBuf := drop (fp_frameLength frame) buf\<rparr>\<rparr>;
            r = dcProcessMessage C app (fp_msgType frame) (framePtr payload) (length payload) s in
        if \<not> fst r then Some (snd r)
        else if \<not> tc_connected (dc_conn (snd r)) then Some (snd r)
        else dcReadLoop C app (snd r))"

definition dcOnReadable :: "crypto \<Rightarrow> 'a dc_owner \<Rightarrow> bytes \<Rightarrow> 'a CliDataChannel \<Rightarrow> 'a CliDataChannel option" where
  "dcOnReadable C app incoming s =
     (case tcReadData (dc_nowMs s) incoming (dc_conn s) of
        (n, conn) \<Rightarrow>
          let s = s\<lparr>dc_conn := conn\<rparr> in
          if n = 0 then Some (dcFailFrame app s) else dcReadLoop C app s)"

section \<open>The invariant\<close>

text \<open>
  The socket is open only in secure mode; in secure mode the cipher has the keys of the installed session, and
  otherwise nothing is left of one.
\<close>

definition data_keys :: "crypto \<Rightarrow> bytes \<Rightarrow> SecureFrameCipher \<Rightarrow> bool" where
  "data_keys C master c \<longleftrightarrow> sc_initialized c \<and>
     sc_sendKey c = deriveSecureKey C master (ascii ''VLan-data-c2s-key'') \<and>
     sc_recvKey c = deriveSecureKey C master (ascii ''VLan-data-s2c-key'')"

definition data_ok :: "crypto \<Rightarrow> nat \<Rightarrow> 'a CliDataChannel \<Rightarrow> bool" where
  "data_ok C n s \<longleftrightarrow> conn_ok n (dc_conn s) \<and>
     (if dc_securityMode s = Secure
      then length (dc_secureMaster s) = SECURE_KEY_SIZE \<and> dc_secureSessionId s \<noteq> 0 \<and> data_keys C (dc_secureMaster s) (dc_cipher s)
      else dc_secureMaster s = [] \<and> dc_secureSessionId s = 0 \<and> \<not> sc_initialized (dc_cipher s) \<and> tc_fd (dc_conn s) = SOCK_INVALID)"

lemma data_keys_ops [simp]:
  "data_keys C m (snd (encryptFrame K p ad c)) = data_keys C m c" "data_keys C m (snd (decryptFrame K p ad c)) = data_keys C m c"
  "data_keys C m (initCipher C m True ''data'' c)"
  by (simp_all add: data_keys_def encryptFrame_def initCipher_def resetCipher_def crypto_verify32_def ascii_def Let_def case_prod_unfold)

lemma mode_cases: "(m :: DataPlaneSecurityMode) \<noteq> Secure \<longleftrightarrow> m = Unconfigured"
  by (cases m) auto

lemma data_ok_setconn:
  "data_ok C n s \<Longrightarrow> conn_ok k t \<Longrightarrow> dc_securityMode s = Secure \<or> tc_fd t = SOCK_INVALID \<Longrightarrow> data_ok C k (s\<lparr>dc_conn := t\<rparr>)"
  by (auto simp: data_ok_def)

lemma data_ok_reset: "data_ok C n s \<Longrightarrow> data_ok C k (dcResetConn s)"
  unfolding dcResetConn_def by (rule data_ok_setconn) auto

lemma data_ok_quiet:
  assumes "data_ok C n s"
  shows "data_ok C n (s\<lparr>dc_established := a\<rparr>)" "data_ok C n (s\<lparr>dc_needReconnect := a\<rparr>)" "data_ok C n (s\<lparr>dc_sendFailurePending := a\<rparr>)"
    "data_ok C n (s\<lparr>dc_reconnectTime := t\<rparr>)" "data_ok C n (dcScheduleReconnect s)" "data_ok C n (s\<lparr>dc_app := x\<rparr>)"
    "data_ok C n (s\<lparr>dc_nowMs := t\<rparr>)" "data_ok C n (s\<lparr>dc_sockets := l\<rparr>)"
    "data_ok C n (s\<lparr>dc_cipher := snd (encryptFrame K p ad (dc_cipher s))\<rparr>)"
    "data_ok C n (s\<lparr>dc_cipher := snd (decryptFrame K p ad (dc_cipher s))\<rparr>)"
  using assms by (auto simp: data_ok_def dcScheduleReconnect_def)

lemma data_ok_clear: "data_ok C n s \<Longrightarrow> data_ok C n (dcClearSecurityContext s)"
  by (auto simp: data_ok_def dcClearSecurityContext_def)

lemma data_ok_public:
  assumes "data_ok C n s"
  shows "data_ok C n (dcDisconnect s)" "data_ok C n (snd (dcInstallSecureSession C sid m s))" "data_ok C n (snd (dcConnectTo ip port pid s))"
proof -
  show "data_ok C n (dcDisconnect s)" using data_ok_reset [OF assms, of n] by (auto simp: data_ok_def dcDisconnect_def)
  show "data_ok C n (snd (dcInstallSecureSession C sid m s))"
    using assms data_ok_clear [OF assms] by (auto simp: dcInstallSecureSession_def) (simp_all add: data_ok_def)
  show "data_ok C n (snd (dcConnectTo ip port pid s))"
    using assms by (auto simp: dcConnectTo_def data_ok_def Let_def case_prod_unfold mode_cases)
qed

lemma data_ok_connSend: "data_ok C n s \<Longrightarrow> data_ok C n (dcConnSend ty bb s)"
  by (auto simp: dcConnSend_def data_ok_def case_prod_unfold Let_def)

section \<open>The contract of the callbacks\<close>

locale data_owner =
  fixes C :: crypto and app :: "'a dc_owner"
  assumes app_keeps: "data_ok C n s \<Longrightarrow> data_ok C n (app e s)"
begin

lemma exhausted_keeps: "data_ok C n s \<Longrightarrow> data_ok C n (dcCounterExhausted app s)"
  unfolding dcCounterExhausted_def by (intro app_keeps data_ok_clear data_ok_reset)

lemma sendMsg_keeps: "data_ok C n s \<Longrightarrow> data_ok C n (dcSendMsg C app ty bb s)"
  unfolding dcSendMsg_def
  by (auto simp: case_prod_unfold Let_def intro!: data_ok_connSend exhausted_keeps data_ok_quiet)

lemma failFrame_keeps: "data_ok C n s \<Longrightarrow> data_ok C k (dcFailFrame app s)"
  unfolding dcFailFrame_def Let_def
  by (auto intro!: data_ok_quiet app_keeps data_ok_reset)

lemma writable_keeps:
  assumes ok: "data_ok C n s"
  shows "data_ok C n (dcOnWritable C app err sent again s)"
proof (cases "tc_connecting (dc_conn s)")
  case True
  let ?s = "s\<lparr>dc_conn := (dc_conn s)\<lparr>tc_connecting := False, tc_connected := True, tc_lastRecvTime := dc_nowMs s\<rparr>\<rparr>"
  have "data_ok C n ?s" using ok True by (auto simp: data_ok_def conn_ok_def)
  from data_ok_quiet(9) [OF this] data_ok_reset [OF this] True show ?thesis
    unfolding dcOnWritable_def
    by (auto simp: Let_def case_prod_unfold intro!: data_ok_connSend exhausted_keeps data_ok_quiet data_ok_reset [OF ok])
next
  case False
  have "data_ok C n (s\<lparr>dc_conn := snd (tcFlushSend sent again (dc_conn s))\<rparr>)"
    using ok by (intro data_ok_setconn [OF ok]) (auto simp: data_ok_def tcFlushSend_def conn_ok_def mode_cases split: if_splits)
  from this data_ok_reset [OF this] False show ?thesis
    unfolding dcOnWritable_def
    by (auto simp: Let_def case_prod_unfold intro!: app_keeps data_ok_quiet)
qed

lemma timeouts_keep: "data_ok C n s \<Longrightarrow> data_ok C n (dcCheckTimeouts C app s)"
  unfolding dcCheckTimeouts_def Let_def
  by (auto intro!: app_keeps data_ok_quiet data_ok_reset data_ok_public)

lemma deliver_keeps: "data_ok C n s \<Longrightarrow> data_ok C n (snd (dcDeliver app ty p l v s))"
proof -
  assume ok: "data_ok C n s"
  have "data_ok C n (s\<lparr>dc_established := True, dc_conn := (dc_conn s)\<lparr>tc_lastRecvTime := t\<rparr>\<rparr>)" for t
    using ok by (auto simp: data_ok_def conn_ok_def)
  then show ?thesis
    using ok unfolding dcDeliver_def dcOnRelayData_def
    by (auto simp: app_keeps failFrame_keeps split: option.split bind_splits)
qed

lemma message_keeps:
  assumes ok: "data_ok C n s"
  shows "data_ok C n (snd (dcProcessMessage C app ty p l s))"
proof -
  have d: "data_ok C n (s\<lparr>dc_cipher := snd (decryptFrame C f [] (dc_cipher s))\<rparr>)" for f by (rule data_ok_quiet(10) [OF ok])
  show ?thesis
    unfolding dcProcessMessage_def Let_def case_prod_unfold
    using ok failFrame_keeps [OF ok] failFrame_keeps [OF d] deliver_keeps [OF d]
    by (simp split: option.split list.split)
qed

lemma readLoop_ends: "data_ok C n s \<Longrightarrow> \<exists>s'. dcReadLoop C app s = Some s' \<and> data_ok C n s'"
proof (induction "length (tc_recvBuf (dc_conn s))" arbitrary: s rule: less_induct)
  case less
  define buf where "buf = tc_recvBuf (dc_conn s)"
  define frame where "frame = probeTcpFrame (Some buf) (length buf)"
  define p where "p = take (unat (fp_payloadLength frame)) (drop 3 buf)"
  define s1 where "s1 = s\<lparr>dc_conn := (dc_conn s)\<lparr>tc_recvBuf := drop (fp_frameLength frame) buf\<rparr>\<rparr>"
  define r where "r = dcProcessMessage C app (fp_msgType frame) (framePtr p) (length p) s1"
  have step: "dcReadLoop C app s =
     (if length buf < 3 then Some s
      else if fp_status frame = Malformed then Some (dcFailFrame app s)
      else if fp_status frame = NeedMore then Some s
      else if \<not> fst r \<or> \<not> tc_connected (dc_conn (snd r)) then Some (snd r)
      else dcReadLoop C app (snd r))"
    by (subst dcReadLoop.simps) (simp add: Let_def buf_def frame_def p_def s1_def r_def)
  have "data_ok C (min n (length buf - fp_frameLength frame)) s1"
    using less.prems unfolding s1_def
    by (intro data_ok_setconn [OF less.prems]) (auto simp: data_ok_def conn_ok_def buf_def mode_cases split: if_splits)
  then have r: "data_ok C (min n (length buf - fp_frameLength frame)) (snd r)" unfolding r_def by (rule message_keeps)
  then have rn: "data_ok C n (snd r)" by (auto simp: data_ok_def conn_ok_def)
  have "3 \<le> fp_frameLength frame" if "\<not> length buf < 3" "fp_status frame \<noteq> Malformed"
    using that by (auto simp: frame_def probeTcpFrame_def Let_def split: if_splits)
  with r have "length (tc_recvBuf (dc_conn (snd r))) < length buf" if "\<not> length buf < 3" "fp_status frame \<noteq> Malformed"
    using that by (fastforce simp: data_ok_def conn_ok_def)
  with less.hyps [OF _ rn] less.prems rn show ?case
    unfolding step buf_def [symmetric] by (auto simp: failFrame_keeps)
qed

lemma readable_ends: "data_ok C n s \<Longrightarrow> \<exists>s' k. dcOnReadable C app incoming s = Some s' \<and> data_ok C k s'"
proof -
  assume ok: "data_ok C n s"
  let ?s = "s\<lparr>dc_conn := snd (tcReadData (dc_nowMs s) incoming (dc_conn s))\<rparr>"
  have "data_ok C (n + 65536) ?s"
    using ok by (intro data_ok_setconn [OF ok]) (auto simp: data_ok_def conn_ok_def tcReadData_def Let_def mode_cases split: if_splits)
  from readLoop_ends [OF this] failFrame_keeps [OF this] show ?thesis
    unfolding dcOnReadable_def by (auto simp: case_prod_unfold Let_def)
qed

end

section \<open>Owners that use the public operations\<close>

datatype dc_call =
    DcConnectTo bytes u16 u32 | DcDisconnect | DcInstall u32 bytes | DcClear | DcSendRelayData u32 u32 u8 bytes | DcSendPing

fun dcCall :: "crypto \<Rightarrow> 'a dc_owner \<Rightarrow> dc_call \<Rightarrow> 'a dc_op" where
  "dcCall C app (DcConnectTo ip port pid) s = snd (dcConnectTo ip port pid s)"
| "dcCall C app DcDisconnect s = dcDisconnect s"
| "dcCall C app (DcInstall sid m) s = snd (dcInstallSecureSession C sid m s)"
| "dcCall C app DcClear s = dcClearSecurityContext s"
| "dcCall C app (DcSendRelayData src dst cls d) s = dcSendRelayData C app src dst cls d s"
| "dcCall C app DcSendPing s = dcSendPing C app s"

primrec dcOwnerAt :: "crypto \<Rightarrow> (data_event \<Rightarrow> 'a CliDataChannel \<Rightarrow> dc_call list \<times> 'a) \<Rightarrow> nat \<Rightarrow> 'a dc_owner" where
  "dcOwnerAt C react 0 = (\<lambda>e s. s\<lparr>dc_app := snd (react e s)\<rparr>)"
| "dcOwnerAt C react (Suc d) = (\<lambda>e s. fold (dcCall C (dcOwnerAt C react d)) (fst (react e s)) (s\<lparr>dc_app := snd (react e s)\<rparr>))"

datatype dc_step = DcDo dc_call | DcWritable int int bool | DcReadable bytes | DcTick | DcClock u32 | DcSockets "(int \<times> bool) list"

fun dcStep :: "crypto \<Rightarrow> 'a dc_owner \<Rightarrow> dc_step \<Rightarrow> 'a CliDataChannel \<Rightarrow> 'a CliDataChannel option" where
  "dcStep C app (DcDo c) s = Some (dcCall C app c s)"
| "dcStep C app (DcWritable err sent again) s = Some (dcOnWritable C app err sent again s)"
| "dcStep C app (DcReadable incoming) s = dcOnReadable C app incoming s"
| "dcStep C app DcTick s = Some (dcCheckTimeouts C app s)"
| "dcStep C app (DcClock now) s = Some (s\<lparr>dc_nowMs := now\<rparr>)"
| "dcStep C app (DcSockets l) s = Some (s\<lparr>dc_sockets := l\<rparr>)"

fun dcRun :: "crypto \<Rightarrow> 'a dc_owner \<Rightarrow> dc_step list \<Rightarrow> 'a CliDataChannel \<Rightarrow> 'a CliDataChannel option" where
  "dcRun C app [] s = Some s"
| "dcRun C app (e # es) s = Option.bind (dcStep C app e s) (dcRun C app es)"

context data_owner
begin

lemma call_keeps: "data_ok C n s \<Longrightarrow> data_ok C n (dcCall C app c s)"
  by (cases c) (simp_all add: data_ok_public data_ok_clear dcSendRelayData_def dcSendPing_def Let_def sendMsg_keeps)

lemma calls_keep: "data_ok C n s \<Longrightarrow> data_ok C n (fold (dcCall C app) cs s)"
  by (induction cs arbitrary: s) (auto intro: call_keeps)

lemma run_ends: "data_ok C n s \<Longrightarrow> \<exists>s' k. dcRun C app es s = Some s' \<and> data_ok C k s'"
proof (induction es arbitrary: s n)
  case (Cons e es)
  have "\<exists>s' k. dcStep C app e s = Some s' \<and> data_ok C k s'"
    using Cons.prems readable_ends [OF Cons.prems]
    by (cases e) (auto intro: call_keeps writable_keeps timeouts_keep data_ok_quiet)
  with Cons.IH show ?case by fastforce
qed auto

end

lemma dcOwnerAt_owner: "data_owner C (dcOwnerAt C react d)"
proof (induction d)
  case 0
  show ?case by unfold_locales (simp add: data_ok_quiet)
next
  case (Suc d)
  show ?case by unfold_locales (auto intro!: data_owner.calls_keep [OF Suc] data_ok_quiet)
qed

interpretation dcOwned: data_owner C "dcOwnerAt C react d" for C react d
  by (rule dcOwnerAt_owner)

section \<open>Properties\<close>

text \<open>
  C22. The data channel speaks only under a session's keys: whatever its owner does with the public operations, in
  callbacks nested to any depth, and whatever the network and the clock do, the channel handles every
  event to its end, and its socket is open only in secure mode, where the session number is not zero, the
  master key has 32 bytes and the cipher has the two keys derived from it; out of secure mode no key material
  is left.
\<close>

theorem data_channel_always_secure:
  "\<exists>s n. dcRun C (dcOwnerAt C react d) es (newCliDataChannel a) = Some s \<and> data_ok C n s"
proof (rule dcOwned.run_ends)
  show "data_ok C 0 (newCliDataChannel a)"
    by (simp add: data_ok_def newCliDataChannel_def newTcpConnection_def newCipher_def conn_ok_def)
qed

lemma seqSI: "L v b \<Longrightarrow> M v r \<Longrightarrow> seqS L M (b @ r)"
  unfolding seqS_def by blast

lemma relay_valid:
  fixes src dst :: u32 and cls :: u8 and d :: bytes
  assumes "src \<noteq> 0" "dst \<noteq> 0" "cls = TRAFFIC_TCP \<or> cls = TRAFFIC_UDP"
  defines "p \<equiv> be32 src @ be32 dst @ [cls] @ d"
  shows "mv_status (validateServerDataPayload MSG_TCP_RELAY_DATA (framePtr p) (length p)) = Valid"
proof -
  have "mvIsValid (validateWith relayDataReader (Some p) (length p))"
    unfolding sRelay.valid_iff [OF refl] p_def
    by (rule seqSI, rule refl, rule seqSI, rule refl, rule seqSI [where v = cls]) (use assms in auto)
  then show ?thesis
    by (simp add: validateServerDataPayload_def framePtr_def p_def validateRelayData_def validateWith_status)
qed

text \<open>
  C23. Relayed data arrives: a relay message that the server encrypts for a session is taken by that
  session's data channel whenever it has not seen the frame before, and handed to the owner with the source, the
  traffic class and the bytes the sender gave, exactly when it is addressed to this peer.
\<close>

theorem relay_data_delivered:
  fixes s :: "'a CliDataChannel" and src dst :: u32 and cls :: u8 and d :: bytes and C :: crypto
  assumes C: "aead_correct C" and s: "dc_securityMode s = Secure" "keyed C m True ''data'' (dc_cipher s)" "window_rel acc (dc_cipher s)"
    and k: "keyed C m False ''data'' k" "sc_sendCounter k \<noteq> -1" "window_fresh acc (unat (sc_sendCounter k))"
    and msg: "src \<noteq> 0" "dst \<noteq> 0" "cls = TRAFFIC_TCP \<or> cls = TRAFFIC_UDP"
  defines "f \<equiv> fst (encryptFrame C (MSG_TCP_RELAY_DATA # be32 src @ be32 dst @ [cls] @ d) [] k)"
  defines "s' \<equiv> s\<lparr>dc_cipher := snd (decryptFrame C f [] (dc_cipher s))\<rparr>"
  shows "dcProcessMessage C app MSG_ENCRYPTED (framePtr f) (length f) s =
     (True, if dst = dc_peerId s then app (DcRelayData src cls d) s' else s')"
proof -
  let ?p = "be32 src @ be32 dst @ [cls] @ d"
  have i: "sc_initialized k" "sc_initialized (dc_cipher s)" using k(1) s(2) by (simp_all add: keyed_def Let_def)
  have f: "f = sealed C (sc_sendKey k) (sc_sendNonceSeed k) (sc_sendCounter k) (MSG_TCP_RELAY_DATA # ?p) []"
    using i(1) k(2) by (simp add: f_def encrypt_sealed)
  have len: "length f = 34 + length d" "f \<noteq> []" using sealed_length [OF C] by (simp_all add: f)
  have "fst (decryptFrame C f [] (dc_cipher s)) = Some (MSG_TCP_RELAY_DATA # ?p)"
    unfolding f keyed_dual(3,4) [OF s(2) k(1)] by (rule decrypt_sealed [OF C s(3) i(2) k(3)])
  then obtain k' where dec: "decryptFrame C f [] (dc_cipher s) = (Some (MSG_TCP_RELAY_DATA # ?p), k')"
    by (metis prod.collapse)
  have env: "mv_status (validateServerDataPayload MSG_ENCRYPTED (framePtr f) (length f)) = Valid"
    using len by (simp add: validateServerDataPayload_def framePtr_def validateEncryptedEnvelope_def mvValid_def mvResult_def)
  have bb: "mkByteBuffer (framePtr ?p) (length ?p) = Some \<lparr>bb_data = ?p, bb_readPos = 0\<rparr>"
    by (simp add: mkByteBuffer_def framePtr_def)
  have u: "unread \<lparr>bb_data = ?p, bb_readPos = 0\<rparr> = ?p" by (simp add: unread_def)
  have "dcOnRelayData app \<lparr>bb_data = ?p, bb_readPos = 0\<rparr> s' =
      Some (True, if dst = dc_peerId s then app (DcRelayData src cls d) s' else s')"
  proof -
    define b where "b = \<lparr>bb_data = ?p, bb_readPos = 0\<rparr>"
    have b: "unread b = ?p" "bb_data b = ?p" using u by (simp_all add: b_def)
    have "readU32 b = Some (src, advance 4 b)" "readU32 (advance 4 b) = Some (dst, advance 8 b)"
      "readU8 (advance 8 b) = Some (cls, advance 9 b)" "remaining (advance 9 b) = length d"
      using b(1) by (simp_all add: u32c.get_enc readU8_unread remaining_unread)
    then show ?thesis unfolding b_def [symmetric] by (simp add: dcOnRelayData_def b(2) s'_def)
  qed
  then have "dcDeliver app MSG_TCP_RELAY_DATA (framePtr ?p) (length ?p)
      (validateServerDataPayload MSG_TCP_RELAY_DATA (framePtr ?p) (length ?p)) s' =
      (True, if dst = dc_peerId s then app (DcRelayData src cls d) s' else s')"
    using relay_valid [OF msg, of d] bb by (simp add: dcDeliver_def)
  then show ?thesis
    using env relay_valid [OF msg, of d] s(1) len(2) unfolding dcProcessMessage_def Let_def
    by (simp add: framePtr_def dec s'_def)
qed

definition demo_channel :: "data_event list CliDataChannel" where
  "demo_channel = (newCliDataChannel [])\<lparr>dc_securityMode := Secure, dc_peerId := 9,
     dc_cipher := initCipher demo_exchange (replicate 32 7) True ''data'' newCipher\<rparr>"

theorem relay_data_delivered_witness:
  defines "k \<equiv> initCipher demo_exchange (replicate 32 7) False ''data'' newCipher"
  defines "f \<equiv> fst (encryptFrame demo_exchange (MSG_TCP_RELAY_DATA # be32 4 @ be32 9 @ [TRAFFIC_UDP] @ [1, 2]) [] k)"
  shows "dc_app (snd (dcProcessMessage demo_exchange (\<lambda>e s. s\<lparr>dc_app := dc_app s @ [e]\<rparr>) MSG_ENCRYPTED (framePtr f) (length f) demo_channel)) =
     [DcRelayData 4 TRAFFIC_UDP [1, 2]]"
proof -
  have init: "\<not> sc_initialized newCipher" by (simp add: newCipher_def)
  have "keyed demo_exchange (replicate 32 7) True ''data'' (dc_cipher demo_channel)" "keyed demo_exchange (replicate 32 7) False ''data'' k"
    using keyed_init [OF init] by (simp_all add: demo_channel_def k_def)
  moreover have "window_rel {} (dc_cipher demo_channel)" "sc_sendCounter k \<noteq> -1" "dc_securityMode demo_channel = Secure"
      "window_fresh {} (unat (sc_sendCounter k))"
    by (simp_all add: demo_channel_def k_def initCipher_fresh window_fresh_def)
  ultimately show ?thesis
    unfolding f_def using relay_data_delivered [OF demo_exchange_ok(3), where s = demo_channel and m = "replicate 32 7" and acc = "{}"
        and k = k and src = 4 and dst = 9 and cls = TRAFFIC_UDP and d = "[1, 2]" and app = "\<lambda>e s. s\<lparr>dc_app := dc_app s @ [e]\<rparr>"]
    by (simp add: demo_channel_def newCliDataChannel_def)
qed

end
