(* ===== verification/Room_Operation.thy ===== *)
theory Room_Operation
  imports Prelude_VLan
begin

text \<open>
  The client's room-operation tracker and the control block of its worker
  (\<^verbatim>\<open>common/room_operation.h\<close>).  Times are \<^verbatim>\<open>uint64_t\<close> milliseconds of the steady clock.
  The tracker's life is a step relation over its operations and a clock that does not run
  backwards; the deadline properties are invariants of the reachable states.
\<close>

section \<open>The tracker\<close>

datatype RoomOperationPhase =
  Idle | WaitingServer | PreparingAdapter | WaitingReadiness | InRoom | Cancelling | CleaningUp

fun roomOperationPhaseName :: "RoomOperationPhase \<Rightarrow> string" where
  "roomOperationPhaseName WaitingServer = ''waiting-server''"
| "roomOperationPhaseName PreparingAdapter = ''preparing-adapter''"
| "roomOperationPhaseName WaitingReadiness = ''waiting-readiness''"
| "roomOperationPhaseName InRoom = ''in-room''"
| "roomOperationPhaseName Cancelling = ''cancelling''"
| "roomOperationPhaseName CleaningUp = ''cleaning-up''"
| "roomOperationPhaseName Idle = ''idle''"

record RoomOperationTracker =
  op_phase :: RoomOperationPhase
  op_id :: u64
  op_connection :: u64
  op_started :: u64
  op_phaseStarted :: u64
  op_deadline :: u64
  op_totalDeadline :: u64
  op_localDeadline :: u64

definition newRoomOperationTracker :: RoomOperationTracker where
  "newRoomOperationTracker = \<lparr>op_phase = Idle, op_id = 0, op_connection = 0, op_started = 0,
     op_phaseStarted = 0, op_deadline = 0, op_totalDeadline = 0, op_localDeadline = 0\<rparr>"

definition expired :: "u64 \<Rightarrow> RoomOperationTracker \<Rightarrow> bool" where
  "expired now t \<longleftrightarrow> op_deadline t \<noteq> 0 \<and> now \<ge> op_deadline t"

definition beginOperation :: "u64 \<Rightarrow> u64 \<Rightarrow> RoomOperationTracker \<Rightarrow> bool \<times> RoomOperationTracker" where
  "beginOperation now connectionGeneration t =
     (if op_phase t \<noteq> Idle then (False, t)
      else (True, t\<lparr>op_id := op_id t + 1, op_connection := connectionGeneration,
                    op_started := now, op_phaseStarted := now,
                    op_totalDeadline := now + 45000, op_deadline := now + 15000,
                    op_localDeadline := 0, op_phase := WaitingServer\<rparr>))"

definition beginPreparation :: "u64 \<Rightarrow> RoomOperationTracker \<Rightarrow> bool \<times> RoomOperationTracker" where
  "beginPreparation now t =
     (if op_phase t \<noteq> WaitingServer \<or> expired now t then (False, t)
      else let t = t\<lparr>op_localDeadline := min (now + 30000) (op_totalDeadline t)\<rparr>;
               t = t\<lparr>op_deadline := op_localDeadline t\<rparr>
           in (True, t\<lparr>op_phaseStarted := now, op_phase := PreparingAdapter\<rparr>))"

definition beginReadiness :: "u64 \<Rightarrow> RoomOperationTracker \<Rightarrow> bool \<times> RoomOperationTracker" where
  "beginReadiness now t =
     (if op_phase t \<noteq> PreparingAdapter \<or> expired now t then (False, t)
      else (True, t\<lparr>op_deadline := min (now + 10000) (op_localDeadline t),
                    op_phaseStarted := now, op_phase := WaitingReadiness\<rparr>))"

definition markInRoom :: "u64 \<Rightarrow> RoomOperationTracker \<Rightarrow> bool \<times> RoomOperationTracker" where
  "markInRoom now t =
     (if (op_phase t \<noteq> PreparingAdapter \<and> op_phase t \<noteq> WaitingReadiness) \<or> expired now t then (False, t)
      else (True, t\<lparr>op_phase := InRoom, op_phaseStarted := now, op_deadline := 0\<rparr>))"

definition beginCancel :: "u64 \<Rightarrow> RoomOperationTracker \<Rightarrow> bool \<times> RoomOperationTracker" where
  "beginCancel now t =
     (if op_phase t = Idle \<or> op_phase t = Cancelling \<or> op_phase t = CleaningUp then (False, t)
      else (True, t\<lparr>op_phase := Cancelling, op_phaseStarted := now, op_deadline := 0\<rparr>))"

definition beginCleanup :: "u64 \<Rightarrow> RoomOperationTracker \<Rightarrow> RoomOperationTracker" where
  "beginCleanup now t =
     (if op_phase t = CleaningUp then t
      else t\<lparr>op_phase := CleaningUp, op_phaseStarted := now, op_deadline := 0\<rparr>)"

definition finishCleanup :: "RoomOperationTracker \<Rightarrow> RoomOperationTracker" where
  "finishCleanup t = t\<lparr>op_phase := Idle, op_deadline := 0\<rparr>"

definition cleanupSlow :: "u64 \<Rightarrow> RoomOperationTracker \<Rightarrow> bool" where
  "cleanupSlow now t \<longleftrightarrow> op_phase t = CleaningUp \<and> now - op_phaseStarted t \<ge> 10000"

definition pending :: "RoomOperationTracker \<Rightarrow> bool" where
  "pending t \<longleftrightarrow> op_phase t \<noteq> Idle \<and> op_phase t \<noteq> InRoom"

definition canStart :: "RoomOperationTracker \<Rightarrow> bool" where
  "canStart t \<longleftrightarrow> op_phase t = Idle"

definition elapsedMs :: "u64 \<Rightarrow> RoomOperationTracker \<Rightarrow> u64" where
  "elapsedMs now t = now - op_started t"

definition operationMatches :: "u64 \<Rightarrow> u64 \<Rightarrow> RoomOperationTracker \<Rightarrow> bool" where
  "operationMatches i connection t \<longleftrightarrow> op_id t = i \<and> op_connection t = connection"

section \<open>The worker's control block\<close>

record RoomTaskControl =
  tc_cancelRequested :: bool
  tc_deadlineMs :: u64
  tc_operationId :: u64
  tc_connectionGeneration :: u64

definition newRoomTaskControl :: "u64 \<Rightarrow> u64 \<Rightarrow> u64 \<Rightarrow> RoomTaskControl" where
  "newRoomTaskControl i connection deadline = \<lparr>tc_cancelRequested = False, tc_deadlineMs = deadline,
     tc_operationId = i, tc_connectionGeneration = connection\<rparr>"

definition taskExpired :: "u64 \<Rightarrow> RoomTaskControl \<Rightarrow> bool" where
  "taskExpired now c \<longleftrightarrow> (let end = tc_deadlineMs c in end \<noteq> 0 \<and> now \<ge> end)"

definition taskAllowed :: "u64 \<Rightarrow> RoomTaskControl \<Rightarrow> bool" where
  "taskAllowed now c \<longleftrightarrow> \<not> tc_cancelRequested c \<and> \<not> taskExpired now c"

definition remainingMs :: "u64 \<Rightarrow> u64 \<Rightarrow> RoomTaskControl \<Rightarrow> u64" where
  "remainingMs now cap c =
     (if tc_cancelRequested c then 0
      else let end = tc_deadlineMs c in
        if end = 0 then cap
        else if now \<ge> end then 0 else min cap (end - now))"

section \<open>The life of a tracker\<close>

datatype op_event =
    OpBegin u64 | OpPrepare | OpAwaitReadiness | OpEnterRoom | OpCancel | OpCleanup | OpFinish

fun op_apply :: "u64 \<Rightarrow> op_event \<Rightarrow> RoomOperationTracker \<Rightarrow> bool \<times> RoomOperationTracker" where
  "op_apply now (OpBegin conn) t = beginOperation now conn t"
| "op_apply now OpPrepare t = beginPreparation now t"
| "op_apply now OpAwaitReadiness t = beginReadiness now t"
| "op_apply now OpEnterRoom t = markInRoom now t"
| "op_apply now OpCancel t = beginCancel now t"
| "op_apply now OpCleanup t = (True, beginCleanup now t)"
| "op_apply now OpFinish t = (True, finishCleanup t)"

text \<open>
  States reachable with clock readings that never decrease and stay 45 s below the end of the
  64-bit range, so that no deadline wraps.
\<close>

inductive op_reachable :: "u64 \<Rightarrow> RoomOperationTracker \<Rightarrow> bool" where
  start: "op_reachable now newRoomOperationTracker"
| step: "op_reachable now t \<Longrightarrow> now \<le> now' \<Longrightarrow> now' < -45000 \<Longrightarrow>
     op_reachable now' (snd (op_apply now' e t))"

definition op_inv :: "u64 \<Rightarrow> RoomOperationTracker \<Rightarrow> bool" where
  "op_inv now t \<longleftrightarrow>
     (if op_phase t \<in> {WaitingServer, PreparingAdapter, WaitingReadiness}
      then unat (op_started t) \<le> unat (op_phaseStarted t) \<and> op_phaseStarted t \<le> now \<and>
           unat (op_totalDeadline t) = unat (op_started t) + 45000 \<and>
           op_deadline t \<noteq> 0 \<and> op_deadline t \<le> op_totalDeadline t \<and>
           (op_phase t = WaitingServer \<longrightarrow> unat (op_deadline t) = unat (op_started t) + 15000) \<and>
           (op_phase t \<noteq> WaitingServer \<longrightarrow> op_localDeadline t \<le> op_totalDeadline t \<and> op_localDeadline t \<noteq> 0 \<and>
              op_deadline t \<le> op_localDeadline t \<and> unat (op_deadline t) \<le> unat (op_phaseStarted t) + 30000) \<and>
           (op_phase t = WaitingReadiness \<longrightarrow> unat (op_deadline t) \<le> unat (op_phaseStarted t) + 10000)
      else op_deadline t = 0)"

lemma clock_plus:
  assumes "now < (-45000 :: u64)" and "n \<le> 45000"
  shows "unat (now + of_nat n) = unat now + n"
proof -
  have "unat (-45000 :: u64) = 18446744073709506616" by simp
  with assms have "unat now + n < 2 ^ 64" by (simp add: word_less_nat_alt)
  then show ?thesis
    using assms(2) by (simp add: unat_word_ariths take_bit_nat_def unat_of_nat)
qed

lemma unat_min: "unat (min a b :: u64) = min (unat a) (unat b)"
  by (simp add: min_def word_le_nat_alt)

lemma op_inv_step:
  assumes inv: "op_inv now t" and mono: "now \<le> now'" and fits: "now' < -45000"
  shows "op_inv now' (snd (op_apply now' e t))"
proof -
  note plus = clock_plus [OF fits, of 15000] clock_plus [OF fits, of 45000]
    clock_plus [OF fits, of 30000] clock_plus [OF fits, of 10000]
  have nz: "(x = 0) = (unat x = 0)" for x :: u64 by (simp add: unat_eq_zero)
  note conv = op_inv_def word_le_nat_alt nz
  have keep: "op_inv now' t" using inv mono by (auto simp: conv)
  show ?thesis
  proof (cases e)
    case (OpBegin conn)
    then show ?thesis using keep plus by (auto simp: beginOperation_def conv)
  next
    case OpPrepare
    then show ?thesis
      using keep inv mono plus
      by (auto simp: beginPreparation_def Let_def conv unat_min expired_def)
  next
    case OpAwaitReadiness
    then show ?thesis
      using keep inv mono plus
      by (auto simp: beginReadiness_def Let_def conv unat_min expired_def)
  qed (use keep in \<open>auto simp: markInRoom_def beginCancel_def beginCleanup_def finishCleanup_def op_inv_def\<close>)
qed

lemma op_reachable_inv: "op_reachable now t \<Longrightarrow> op_inv now t"
proof (induction rule: op_reachable.induct)
  case (start now)
  then show ?case by (simp add: op_inv_def newRoomOperationTracker_def)
qed (rule op_inv_step)

section \<open>Properties\<close>

text \<open>
  C39. A room is entered in time or not at all: in every reachable state, entering succeeds only
  from the two local phases, strictly before 45 s after the operation began and strictly
  before 30 s (10 s when waiting for readiness) after the current phase began.
\<close>

theorem enter_room_in_time:
  assumes "op_reachable now t" "now \<le> now'" "fst (markInRoom now' t)"
  shows "(op_phase t = PreparingAdapter \<or> op_phase t = WaitingReadiness) \<and>
    unat now' < unat (op_started t) + 45000 \<and> unat now' < unat (op_phaseStarted t) + 30000 \<and>
    (op_phase t = WaitingReadiness \<longrightarrow> unat now' < unat (op_phaseStarted t) + 10000)"
  using op_reachable_inv [OF assms(1)] assms(2,3)
  by (auto simp: markInRoom_def expired_def op_inv_def word_le_nat_alt split: if_splits)

definition op_example :: RoomOperationTracker where
  "op_example = snd (op_apply 300 OpAwaitReadiness (snd (op_apply 200 OpPrepare
     (snd (op_apply 100 (OpBegin 7) newRoomOperationTracker)))))"

lemma op_example_reachable: "op_reachable 300 op_example"
  unfolding op_example_def
  by (rule op_reachable.step [where now = 200] op_reachable.step [where now = 100] op_reachable.start | simp)+

theorem enter_room_in_time_witness:
  "unat (10299 :: u64) < unat (op_started op_example) + 45000"
  using enter_room_in_time [OF op_example_reachable, of 10299]
  by (simp add: op_example_def markInRoom_def expired_def beginReadiness_def beginPreparation_def
      beginOperation_def newRoomOperationTracker_def)

fun op_run :: "(u64 \<times> op_event) list \<Rightarrow> RoomOperationTracker \<Rightarrow> RoomOperationTracker" where
  "op_run [] t = t"
| "op_run ((now, e) # es) t = op_run es (snd (op_apply now e t))"

fun op_begun :: "(u64 \<times> op_event) list \<Rightarrow> RoomOperationTracker \<Rightarrow> nat" where
  "op_begun [] t = 0"
| "op_begun ((now, e) # es) t =
     (case e of OpBegin conn \<Rightarrow> (if fst (beginOperation now conn t) then 1 else 0) | _ \<Rightarrow> 0) +
     op_begun es (snd (op_apply now e t))"

definition op_finished :: "(u64 \<times> op_event) list \<Rightarrow> nat" where
  "op_finished es = length (filter (\<lambda>(now, e). e = OpFinish) es)"

text \<open>Whether an operation is under way counts as one unfinished begin.\<close>

lemma op_begun_bound:
  "op_begun es t + (if op_phase t = Idle then 0 else 1) \<le> Suc (op_finished es)"
proof (induction es arbitrary: t)
  case (Cons ne es)
  obtain now e where ne: "ne = (now, e)" by fastforce
  have "(case e of OpBegin conn \<Rightarrow> (if fst (beginOperation now conn t) then 1 else 0) | _ \<Rightarrow> 0) +
      (if op_phase t = Idle then 0 else 1 :: nat)
      \<le> (if op_phase (snd (op_apply now e t)) = Idle then 0 else 1) + (if e = OpFinish then 1 else 0)"
    by (cases e) (auto simp: beginOperation_def beginPreparation_def beginReadiness_def markInRoom_def
        beginCancel_def beginCleanup_def finishCleanup_def Let_def)
  moreover have "op_finished (ne # es) = (if e = OpFinish then 1 else 0) + op_finished es"
    by (simp add: ne op_finished_def)
  ultimately show ?case
    using Cons.IH [of "snd (op_apply now e t)"] unfolding ne op_begun.simps by linarith
qed (simp add: op_finished_def)

lemma op_run_id: "op_id (op_run es t) = op_id t + of_nat (op_begun es t)"
proof (induction es arbitrary: t)
  case (Cons ne es)
  obtain now e where ne: "ne = (now, e)" by fastforce
  have "op_id (snd (op_apply now e t)) = op_id t +
      of_nat (case e of OpBegin conn \<Rightarrow> (if fst (beginOperation now conn t) then 1 else 0) | _ \<Rightarrow> 0)"
    by (cases e) (auto simp: beginOperation_def beginPreparation_def beginReadiness_def markInRoom_def
        beginCancel_def beginCleanup_def finishCleanup_def Let_def)
  with Cons.IH [of "snd (op_apply now e t)"] show ?case by (simp add: ne add.assoc)
qed simp

text \<open>
  Operations do not overlap: over any sequence of calls with any clock readings, at most one
  more operation has begun than cleanups have finished, and as long as fewer than \<open>2\<^sup>64\<close>
  began the tracker's id is their number, so a callback that holds the id of an earlier
  operation does not match.
\<close>

lemma operations_do_not_overlap:
  "op_begun es newRoomOperationTracker \<le> Suc (op_finished es) \<and>
   op_id (op_run es newRoomOperationTracker) = of_nat (op_begun es newRoomOperationTracker)"
  using op_begun_bound [of es newRoomOperationTracker] op_run_id [of es newRoomOperationTracker]
  by (simp add: newRoomOperationTracker_def)

text \<open>
  The time a worker may still wait never exceeds the caller's cap nor the deadline, and is
  zero exactly when the worker must stop, that is when the task is cancelled or expired.
\<close>

lemma remainingMs_allowed:
  assumes "0 < cap"
  shows "(0 < remainingMs now cap c) = taskAllowed now c \<and> remainingMs now cap c \<le> cap \<and>
     (tc_deadlineMs c \<noteq> 0 \<and> 0 < remainingMs now cap c \<longrightarrow> remainingMs now cap c \<le> tc_deadlineMs c - now)"
  using assms
  by (auto simp: remainingMs_def taskAllowed_def taskExpired_def Let_def min_def word_le_nat_alt word_less_nat_alt
      unat_sub_if')

end
