(* ===== verification/Server_Buckets.thy ===== *)
theory Server_Buckets
  imports Server_State
begin

text \<open>
  What the rate limiter of \<^verbatim>\<open>takeIpToken\<close> guarantees: the number of requests it lets through
  in any window of time, and that forgetting an address that has been quiet for ten minutes
  gives nothing away.
\<close>

section \<open>The number of grants\<close>

text \<open>The requests an address makes at the given times and how many of them are granted.\<close>

fun grants :: "real \<Rightarrow> real \<Rightarrow> TokenBucket \<Rightarrow> int list \<Rightarrow> nat" where
  "grants burst refill b [] = 0"
| "grants burst refill b (t # ts) =
     (case takeBucket t burst refill b of (ok, b') \<Rightarrow> of_bool ok + grants burst refill b' ts)"

definition bucket_ok :: "real \<Rightarrow> TokenBucket \<Rightarrow> bool" where
  "bucket_ok burst b \<longleftrightarrow> 0 \<le> tb_tokens b \<and> tb_tokens b \<le> burst"

lemma bucket_ok_refill: "bucket_ok burst b \<Longrightarrow> 0 < refill \<Longrightarrow> 0 \<le> burst \<Longrightarrow> bucket_ok burst (refillBucket t burst refill b)"
  by (auto simp: bucket_ok_def refillBucket_def)

lemma takeBucket_ok: "takeBucket t burst refill b = (ok, b') \<Longrightarrow> bucket_ok burst b \<Longrightarrow> 0 < refill \<Longrightarrow> 0 \<le> burst \<Longrightarrow> bucket_ok burst b'"
  using bucket_ok_refill [of burst b refill t] by (auto simp: takeBucket_def Let_def bucket_ok_def split: if_splits)

lemma takeBucket_spent:
  "takeBucket t burst refill b = (ok, b') \<Longrightarrow>
   tb_tokens b' = tb_tokens (refillBucket t burst refill b) - of_bool ok \<and> tb_updated b' = tb_updated (refillBucket t burst refill b)"
  by (auto simp: takeBucket_def Let_def split: if_splits)

text \<open>What a bucket can still give until \<open>t1\<close>.\<close>

definition credit :: "real \<Rightarrow> int \<Rightarrow> TokenBucket \<Rightarrow> real" where
  "credit refill t1 b = tb_tokens b + max 0 (real_of_int (t1 - tb_updated b)) / refill"

lemma credit_refill:
  assumes "0 < refill" "0 < tb_updated b" "t \<le> t1"
  shows "credit refill t1 (refillBucket t burst refill b) \<le> credit refill t1 b"
proof (cases "t > tb_updated b")
  case True
  with assms have "credit refill t1 b = tb_tokens b + real_of_int (t - tb_updated b) / refill + real_of_int (t1 - t) / refill"
    by (simp add: credit_def max_def add_divide_distrib [symmetric])
  with True assms show ?thesis by (auto simp: refillBucket_def credit_def max_def)
qed (use assms in \<open>simp add: refillBucket_def\<close>)

lemma updated_grows: "0 < tb_updated b \<Longrightarrow> tb_updated b \<le> tb_updated (refillBucket t burst refill b)"
  by (simp add: refillBucket_def)

lemma grants_credit:
  assumes "\<forall>t \<in> set ts. t \<le> t1" "bucket_ok burst b" "0 < tb_updated b" "0 < refill" "0 \<le> burst"
  shows "real (grants burst refill b ts) \<le> credit refill t1 b"
  using assms
proof (induction ts arbitrary: b)
  case (Cons t ts)
  obtain ok b' where b': "takeBucket t burst refill b = (ok, b')" by fastforce
  have up: "0 < tb_updated b'" using takeBucket_spent [OF b'] updated_grows [OF Cons.prems(3), of t burst refill] Cons.prems(3) by linarith
  have "real (grants burst refill b' ts) \<le> credit refill t1 b'"
    using Cons.prems takeBucket_ok [OF b'] up by (intro Cons.IH) auto
  also have "\<dots> = credit refill t1 (refillBucket t burst refill b) - of_bool ok"
    using takeBucket_spent [OF b'] by (simp add: credit_def)
  also have "\<dots> \<le> credit refill t1 b - of_bool ok"
    using credit_refill [of refill b t t1 burst] Cons.prems by simp
  finally show ?case by (simp add: b')
qed (simp add: credit_def bucket_ok_def)

text \<open>
  C30. A rate limit holds in every window of time, however the requests fall in it and even if
  the clock jumps back: among requests made between two moments, a bucket grants at most its
  burst and one more for each refill period between them.
\<close>

theorem rate_limit_window:
  assumes "bucket_ok burst b" "0 < refill" "0 < t0" "t0 \<le> t1" "\<forall>t \<in> set ts. t0 \<le> t \<and> t \<le> t1"
  shows "real (grants burst refill b ts) \<le> burst + real_of_int (t1 - t0) / refill"
proof (cases ts)
  case (Cons t us)
  obtain ok b' where b': "takeBucket t burst refill b = (ok, b')" by fastforce
  have pos: "0 \<le> burst" using assms(1) by (simp add: bucket_ok_def)
  have t: "t0 \<le> t" "t \<le> t1" using assms(5) Cons by simp_all
  have r: "t0 \<le> tb_updated (refillBucket t burst refill b)" using t assms(3) by (simp add: refillBucket_def)
  have ok: "bucket_ok burst (refillBucket t burst refill b)" by (rule bucket_ok_refill [OF assms(1,2) pos])
  have "real (grants burst refill b' us) \<le> credit refill t1 b'"
    using assms(5) Cons takeBucket_ok [OF b' assms(1,2) pos] takeBucket_spent [OF b'] r assms(2,3) pos by (intro grants_credit) auto
  also have "\<dots> = credit refill t1 (refillBucket t burst refill b) - of_bool ok"
    using takeBucket_spent [OF b'] by (simp add: credit_def)
  also have "credit refill t1 (refillBucket t burst refill b) \<le> burst + real_of_int (t1 - t0) / refill"
    using ok r assms(2,4) unfolding credit_def bucket_ok_def by (intro add_mono divide_right_mono) auto
  finally show ?thesis by (simp add: Cons b')
qed (use assms in \<open>simp add: bucket_ok_def\<close>)

theorem rate_limit_window_witness:
  "real (grants 2 10 newTokenBucket [100, 100, 100, 105, 110]) \<le> 2 + real_of_int (110 - 100) / 10"
  using rate_limit_window [of 2 newTokenBucket 10 100 110 "[100, 100, 100, 105, 110]"]
  by (simp add: bucket_ok_def newTokenBucket_def)

text \<open>
  Forgetting an address after 600 seconds gives nothing away: by then every bucket the server
  uses would be full, as a new one is.
\<close>

lemma forgetting_is_harmless:
  assumes "bucket_ok burst b" "0 < tb_updated b" "600 \<le> now - tb_updated b" "burst * refill \<le> 600" "0 < refill"
  shows "takeBucket now burst refill b = takeBucket now burst refill newTokenBucket"
proof -
  have "burst \<le> 600 / refill" using assms(4,5) by (simp add: pos_le_divide_eq)
  also have "\<dots> \<le> real_of_int (now - tb_updated b) / refill" using assms(3,5) by (intro divide_right_mono) linarith+
  finally have "min burst (tb_tokens b + real_of_int (now - tb_updated b) / refill) = burst"
    using assms(1) by (simp add: bucket_ok_def)
  then show ?thesis using assms(2,3) by (simp add: takeBucket_def refillBucket_def newTokenBucket_def)
qed

end
