(* ===== verification/Server_Invariants.thy ===== *)
theory Server_Invariants
  imports Server_Logic
begin

text \<open>
  Invariants of the whole server.  The locale \<open>server_invariant\<close> asks for the preservation of
  an invariant by the few operations that write the state and proves once that every handler
  and every event of the loop keeps it.
\<close>

section \<open>From the writing operations to the event loop\<close>

text \<open>A change of a session that leaves its key, its address and its send buffers alone.\<close>

definition session_change :: "(ClientSession \<Rightarrow> ClientSession) \<Rightarrow> bool" where
  "session_change f \<longleftrightarrow> (\<forall>c. cs_tcpFd (f c) = cs_tcpFd c \<and> cs_remoteIpv4 (f c) = cs_remoteIpv4 c \<and>
     cs_sendBuf (f c) = cs_sendBuf c \<and> cs_dataSendBuf (f c) = cs_dataSendBuf c)"

lemma inert_session_change: "inert f \<Longrightarrow> session_change f"
  by (simp add: inert_def session_change_def)

definition rooms_change :: "(RoomManager \<Rightarrow> RoomManager) \<Rightarrow> bool" where
  "rooms_change g \<longleftrightarrow> (\<forall>m. mgr_inv m \<longrightarrow> mgr_inv (g m) \<and> managerSize (g m) \<le> managerSize m)"

lemma managerSize_upd [simp]: "managerSize (updRoom i f m) = managerSize m"
  by (simp add: managerSize_def updRoom_def om_adj_def)

lemma managerSize_erase: "managerSize (eraseRoom i m) \<le> managerSize m"
  by (simp add: managerSize_def eraseRoom_def Let_def length_om_del_le)

lemma rooms_changes:
  "rooms_change (updRoom i (\<lambda>r. snd (addLease p nm tok r)))"
  "rooms_change (updRoom i (\<lambda>r. snd (removeLease now p r)))"
  "rooms_change (updRoom i (\<lambda>r. snd (markLeaseOffline p now r)))"
  "rooms_change (updRoom i (\<lambda>r. snd (markLeaseOnline p r)))"
  "rooms_change (eraseRoom i)"
  by (simp_all add: rooms_change_def managerSize_erase updRoom_inv eraseRoom_inv
      op_add.keeps_inv op_add.keeps_id op_remove.keeps_inv op_remove.keeps_id
      op_offline.keeps_inv op_offline.keeps_id op_online.keeps_inv op_online.keeps_id)

lemma parseCreateRoom_players: "parseCreateRoom p = Some (Inr req) \<Longrightarrow> unat (cq_maxPlayers req) \<le> MAX_PLAYERS"
  by (auto simp: parseCreateRoom_def word_less_nat_alt not_less bind_eq_Some_conv split: if_splits)

locale server_base =
  fixes I :: "SignalServer \<Rightarrow> bool"
  assumes change_client: "session_change f \<Longrightarrow> keeps I (modC fd f)"
    and world: "I s \<Longrightarrow> I (s\<lparr>sv_now := now, sv_sends := sends, sv_randoms := randoms, sv_io := io\<rparr>)"
    and logs: "I s \<Longrightarrow> I (s\<lparr>sv_lastSendRejectLog := a, sv_suppressedSendRejects := b,
           sv_lastDataDropLog := d, sv_suppressedDataDrops := e, sv_roomListRevision := rv, sv_publishedRooms := pub\<rparr>)"
    and indexes: "I s \<Longrightarrow> I (s\<lparr>sv_peerMap := pm, sv_secureSessionMap := sm, sv_dataFdMap := dm,
           sv_freePeerIds := fr, sv_nextPeerId := nx\<rparr>)"
    and addresses: "I s \<Longrightarrow> I (s\<lparr>sv_ipStates := ips, sv_pending := pend\<rparr>)"
    and append_ok: "keeps I (appendSendBuffer fd ch xs ys)"
    and consume_ok: "keeps I (consumeSendBuffer fd ch n)"
    and clear_ok: "keeps I (clearSendBuffer fd ch)"
    and erase_ok: "keeps I (eraseSession fd)"
    and install_ok: "triple (\<lambda>s. I s \<and> length (sv_clients s) < lm_maxClients (sv_limits s)) (installClient fd ip buf) (\<lambda>_. I)"
    and rooms_ok: "rooms_change g \<Longrightarrow> keeps I (modRooms g)"
    and create_ok: "unat (cq_maxPlayers req) \<le> MAX_PLAYERS \<Longrightarrow>
         triple (\<lambda>s. I s \<and> managerSize (sv_rooms s) < lm_maxRooms (sv_limits s)) (serverCreateRoom p req) (\<lambda>_. I)"
begin

lemma index_steps:
  "I s \<Longrightarrow> I (s\<lparr>sv_peerMap := pm\<rparr>)" "I s \<Longrightarrow> I (s\<lparr>sv_secureSessionMap := sm\<rparr>)" "I s \<Longrightarrow> I (s\<lparr>sv_dataFdMap := dm\<rparr>)"
  "I s \<Longrightarrow> I (s\<lparr>sv_freePeerIds := fr\<rparr>)" "I s \<Longrightarrow> I (s\<lparr>sv_nextPeerId := nx\<rparr>)"
  using indexes [of s nx "sv_freePeerIds s" "sv_dataFdMap s" "sv_secureSessionMap s" "sv_peerMap s"]
    indexes [of s "sv_nextPeerId s" fr "sv_dataFdMap s" "sv_secureSessionMap s" "sv_peerMap s"]
    indexes [of s "sv_nextPeerId s" "sv_freePeerIds s" dm "sv_secureSessionMap s" "sv_peerMap s"]
    indexes [of s "sv_nextPeerId s" "sv_freePeerIds s" "sv_dataFdMap s" sm "sv_peerMap s"]
    indexes [of s "sv_nextPeerId s" "sv_freePeerIds s" "sv_dataFdMap s" "sv_secureSessionMap s" pm]
  by simp_all

lemma owner_keeps: "keeps I (findClientOwnerByPeerId p)" "keeps I (findClientOwnerBySecureSessionId p)"
    "keeps I (findClientOwnerByDataFd d)"
  by (rule keepsI, simp add: findClientOwnerByPeerId_def findClientOwnerBySecureSessionId_def
      findClientOwnerByDataFd_def index_steps split: option.split)+

lemma unbindData_keeps: "keeps I (unbindDataFd d t)"
  by (rule keepsI) (simp add: unbindDataFd_def modify_def index_steps)

lemma io_step: "I s \<Longrightarrow> I (s\<lparr>sv_sends := sends, sv_io := io\<rparr>)"
  using world [of s io "sv_randoms s" sends "sv_now s"] by simp

lemma syscall_ok: "keeps I (syscall e)"
proof (rule keepsI)
  fix s assume "I s"
  then have "I (s\<lparr>sv_sends := sv_sends s, sv_io := sv_io s @ [e]\<rparr>)" by (rule io_step)
  then show "I (snd (run_state (syscall e) s))" by (simp add: monad_defs)
qed

lemma close_data_ok: "keeps I (closeDataChannel fd)"
  unfolding closeDataChannel_def epollDel_def close_fd_def
  by (intro keeping unbindData_keeps clear_ok syscall_ok change_client) (simp_all add: session_change_def)

lemma log_steps:
  "I s \<Longrightarrow> I (s\<lparr>sv_lastSendRejectLog := a, sv_suppressedSendRejects := b, sv_lastDataDropLog := d, sv_suppressedDataDrops := e\<rparr>)"
  "I s \<Longrightarrow> I (s\<lparr>sv_roomListRevision := rv, sv_publishedRooms := pub\<rparr>)"
  using logs [of s "sv_publishedRooms s" "sv_roomListRevision s" e d b a]
    logs [of s pub rv "sv_suppressedDataDrops s" "sv_lastDataDropLog s" "sv_suppressedSendRejects s" "sv_lastSendRejectLog s"]
  by simp_all

end

sublocale server_base \<subseteq> send_invariant I
proof
  show "keeps I (modC fd f)" if "inert f" for fd f using that inert_session_change change_client by blast
qed (fact io_step log_steps append_ok consume_ok close_data_ok owner_keeps)+

context server_base
begin

lemma random_keeps [keeping]: "keeps I (secureRandomBytes n)"
proof (rule keepsI)
  fix s assume s: "I s"
  have "I (s\<lparr>sv_randoms := r\<rparr>)" for r using world [OF s, of "sv_io s" r "sv_sends s" "sv_now s"] by simp
  with s show "I (snd (run_state (secureRandomBytes n) s))"
    by (auto simp: secureRandomBytes_def split: list.split option.split)
qed

lemma address_steps: "I s \<Longrightarrow> I (s\<lparr>sv_ipStates := x\<rparr>)" "I s \<Longrightarrow> I (s\<lparr>sv_pending := y\<rparr>)"
  using addresses [of s "sv_pending s" x] addresses [of s y "sv_ipStates s"] by simp_all

lemma modIp_keeps [keeping]: "keeps I (modIp ip f)" "keeps I (adjIp ip f)"
    "keeps I (modify (\<lambda>s. s\<lparr>sv_pending := g s\<rparr>))" "keeps I (cleanupIpStates now)"
  by (auto intro!: keepsI address_steps simp: modIp_def adjIp_def cleanupIpStates_def modify_def)

lemma takeIpToken_keeps [keeping]: "keeps I (takeIpToken ip b x y)"
  unfolding takeIpToken_def by (intro keeping)

lemma index_keeps [keeping]:
  "keeps I (bindPeerIndex fd p)" "keeps I (bindSecureSessionIndex fd p)" "keeps I (bindDataFdIndex fd d)"
  "keeps I (unbindClientIndexes fd)"
proof -
  have m: "keeps I (State (\<lambda>s. case g s of (ok, m) \<Rightarrow> (ok, s\<lparr>sv_peerMap := m\<rparr>)))"
       "keeps I (State (\<lambda>s. case h s of (ok, m) \<Rightarrow> (ok, s\<lparr>sv_secureSessionMap := m\<rparr>)))"
       "keeps I (State (\<lambda>s. case k s of (ok, m) \<Rightarrow> (ok, s\<lparr>sv_dataFdMap := m\<rparr>)))"
       "keeps I (modify (\<lambda>s. s\<lparr>sv_peerMap := g' s\<rparr>))" "keeps I (modify (\<lambda>s. s\<lparr>sv_secureSessionMap := h' s\<rparr>))"
    for g h k g' h'
    by (auto intro!: keepsI index_steps simp: modify_def split: prod.splits)
  show "keeps I (bindPeerIndex fd p)" "keeps I (bindSecureSessionIndex fd p)" "keeps I (bindDataFdIndex fd d)"
    "keeps I (unbindClientIndexes fd)"
    unfolding bindPeerIndex_def bindSecureSessionIndex_def bindDataFdIndex_def unbindClientIndexes_def
    by (intro keeping m owner_keeps unbindData_keeps)+
qed

lemma peer_pool_keeps [keeping]: "keeps I allocatePeerId" "keeps I (releasePeerId p)"
proof -
  have "keeps I (modify (\<lambda>s. s\<lparr>sv_freePeerIds := f s\<rparr>))" for f
    by (auto intro!: keepsI index_steps simp: modify_def)
  then show "keeps I (releasePeerId p)" unfolding releasePeerId_def by (intro keeping owner_keeps)
  show "keeps I allocatePeerId" by (auto intro!: keepsI index_steps simp: allocatePeerId_def split: list.split)
qed

lemma token_keeps [keeping]: "keeps I generateLeaseToken"
  unfolding generateLeaseToken_def by (intro keeping)

lemmas room_steps = rooms_changes [THEN rooms_ok]

lemma removeMember_keeps [keeping]: "keeps I (removeMember r p)"
  unfolding removeMember_def by (intro keeping room_steps)

lemma rollback_keeps [keeping]: "keeps I (rollbackNewMembership fd r)"
  unfolding rollbackNewMembership_def by (intro keeping change_client) (simp add: session_change_def)

lemma offline_keeps [keeping]: "keeps I (markSessionOffline fd)"
  unfolding markSessionOffline_def by (intro keeping room_steps change_client) (simp add: session_change_def)

text \<open>The expiry loop changes leases in place, which an invariant that ignores rooms does not see.\<close>

lemma expire_loop_any:
  assumes "\<And>g. keeps I (modRooms g)"
  shows "keeps I (expireLeases_loop n C now r i ch)"
  by (induction n arbitrary: i ch) (auto intro!: keeping assms simp: modLease_def dropLease_def)

lemma expire_any:
  assumes "\<And>g. keeps I (modRooms g)"
  shows "keeps I (expireRooms rooms C now ch em)"
  by (induction rooms arbitrary: ch em) (auto intro!: keeping expire_loop_any assms)

end

locale server_invariant = server_base +
  assumes expire_ok: "keeps I (expireRooms rooms C now changed em)"
begin

lemma cleanup_keeps [keeping]: "keeps I (cleanupExpiredLeases C now)"
  unfolding cleanupExpiredLeases_def by (intro keeping expire_ok room_steps)

lemma destroy_keeps [keeping]: "keeps I (destroyClient fd reason)"
  unfolding destroyClient_def by (intro keeping owner_keeps close_data_ok room_steps erase_ok)

lemma takeover_keeps [keeping]: "keeps I (closeClientForTakeover fd)"
  unfolding closeClientForTakeover_def by (intro keeping)

lemma disconnect_keeps [keeping]: "keeps I (handleClientDisconnect fd)"
  unfolding handleClientDisconnect_def by (intro keeping)

subsection \<open>The handlers\<close>

lemma onClientHello_keeps [keeping]: "keeps I (onClientHello C fd p)"
  unfolding onClientHello_def by (intro keeping change_client) (simp_all add: session_change_def)

lemma acceptServerAuth_keeps [keeping]: "keeps I (acceptServerAuth C fd master)"
  unfolding acceptServerAuth_def by (intro keeping change_client) (simp_all add: session_change_def)

lemma onServerAuth_keeps [keeping]: "keeps I (onServerAuth C fd p)"
  unfolding onServerAuth_def by (intro keeping owner_keeps change_client) (simp_all add: session_change_def)

lemma validateResume_keeps [keeping]: "keeps I (validateResumeLease r p t)"
  unfolding validateResumeLease_def by (intro keeping)

lemma resumeLogin_keeps [keeping]: "keeps I (resumeLogin C fd req l)"
  unfolding resumeLogin_def by (intro keeping owner_keeps room_steps change_client) (simp_all add: session_change_def)

lemma freshLogin_keeps [keeping]: "keeps I (freshLogin C fd req)"
  unfolding freshLogin_def by (intro keeping change_client) (simp_all add: session_change_def)

lemma onLogin_keeps [keeping]: "keeps I (onLogin C fd p)"
  unfolding onLogin_def by (intro keeping change_client) (simp_all add: session_change_def)

lemma addLease_keeps [keeping]: "keeps I (serverAddLease r p nm t)"
  unfolding serverAddLease_def by (intro keeping room_steps)

lemma enterRoom_keeps [keeping]: "keeps I (enterRoom fd r l t)"
  unfolding enterRoom_def by (intro change_client) (simp add: session_change_def)

lemma joinResponse_keeps [keeping]: "keeps I (sendJoinResponse C fd r t)"
  unfolding sendJoinResponse_def by (intro keeping)

lemma completeJoin_keeps [keeping]: "keeps I (completeJoin C fd r)"
  unfolding completeJoin_def by (intro keeping)

lemma onJoinRoom_keeps [keeping]: "keeps I (onJoinRoom C fd p)"
  unfolding onJoinRoom_def by (intro keeping change_client) (simp_all add: session_change_def)

lemma dropChallenge_keeps [keeping]: "keeps I (dropChallenge fd)"
  unfolding dropChallenge_def by (intro change_client) (simp add: session_change_def)

lemma onAuthResponse_keeps [keeping]: "keeps I (onAuthResponse C fd p)"
  unfolding onAuthResponse_def by (intro keeping)

lemma completeResume_keeps [keeping]: "keeps I (completeResume C fd r l)"
  unfolding completeResume_def by (intro keeping room_steps change_client) (simp add: session_change_def)

lemma expireStale_keeps [keeping]: "keeps I (expireStaleLease C r p t)"
  unfolding expireStaleLease_def by (intro keeping)

lemma onResumeRoom_keeps [keeping]: "keeps I (onResumeRoom C fd p)"
  unfolding onResumeRoom_def by (intro keeping change_client) (simp_all add: session_change_def)

lemma onLeaveRoom_keeps [keeping]: "keeps I (onLeaveRoom C fd)"
  unfolding onLeaveRoom_def by (intro keeping change_client) (simp add: session_change_def)

lemma leaveForLogout_keeps [keeping]: "keeps I (leaveForLogout C fd)"
  unfolding leaveForLogout_def by (intro keeping)

lemma onLogout_keeps [keeping]: "keeps I (onLogout C fd)"
  unfolding onLogout_def by (intro keeping close_data_ok change_client) (simp_all add: session_change_def)

lemma onListRooms_keeps [keeping]: "keeps I (onListRooms C fd)"
  unfolding onListRooms_def by (intro keeping)

lemma relay_keeps [keeping]: "keeps I (onRequestRelay C fd p)" "keeps I (onPing C fd)" "keeps I (onTcpRelayData C fd p)"
  unfolding onRequestRelay_def onPing_def onTcpRelayData_def by (intro keeping)+

lemma token_capacity:
  "triple (\<lambda>s. I s \<and> \<not> capacityReached s) generateLeaseToken (\<lambda>_ s. I s \<and> \<not> capacityReached s)"
proof (rule tripleI, elim conjE)
  fix s assume "I s" "\<not> capacityReached s"
  moreover have "sv_rooms (snd (run_state generateLeaseToken s)) = sv_rooms s \<and>
      sv_limits (snd (run_state generateLeaseToken s)) = sv_limits s"
    by (simp add: generateLeaseToken_def secureRandomBytes_def split: list.split option.split prod.split)
  ultimately show "I (snd (run_state generateLeaseToken s)) \<and> \<not> capacityReached (snd (run_state generateLeaseToken s))"
    using keepsD [OF token_keeps] by (simp add: capacityReached_def)
qed

lemma createAndEnter_triple:
  assumes "unat (cq_maxPlayers req) \<le> MAX_PLAYERS"
  shows "triple (\<lambda>s. I s \<and> \<not> capacityReached s) (createAndEnter C fd req) (\<lambda>_. I)"
proof -
  have rest: "keeps I (State_Monad.bind (serverAddLease r p n t) k)" if "\<And>x. keeps I (k x)" for r p n t and k :: "RoomLease option \<Rightarrow> unit server"
    using that by (intro keeping)
  have create: "triple (\<lambda>s. I s \<and> \<not> capacityReached s) (serverCreateRoom p req) (\<lambda>_. I)" for p
    using create_ok [OF assms] by (simp add: capacityReached_def not_le)
  show ?thesis
    unfolding createAndEnter_def
    apply (rule triple_bind [OF token_capacity])
    apply (rule triple_bind [where Q = "\<lambda>_ s. I s \<and> \<not> capacityReached s"])
     apply (simp add: triple_def monad_defs)
    apply (split option.split, intro conjI impI allI)
     apply (rule keeps_weak, intro keeping)
    apply (rule triple_bind [OF create])
    apply (rule keeps_triple, intro keeping room_steps)
    done
qed

lemma onCreateRoom_keeps [keeping]: "keeps I (onCreateRoom C fd p)"
proof -
  have "triple (\<lambda>s. I s \<and> capacityReached s = x)
     (if x then sendError C t ''Room capacity reached'' General
      else case parseCreateRoom p of
           None \<Rightarrow> kill fd
         | Some (Inl None) \<Rightarrow> kill fd
         | Some (Inl (Some e)) \<Rightarrow> sendError C t e General
         | Some (Inr req) \<Rightarrow> createAndEnter C fd req) (\<lambda>_. I)" for x t
    using parseCreateRoom_players createAndEnter_triple
    by (auto intro!: keeps_weak keeping split: option.split sum.split)
  then show ?thesis
    unfolding onCreateRoom_def by (intro keeping keeps_gets_bind)
qed

subsection \<open>Dispatch and events\<close>

lemma decrypt_keeps [keeping]: "keeps I (decryptClientFrame C fd p)"
  unfolding decryptClientFrame_def by (intro keeping inert_client inert_ciphers)

lemma dispatch_keeps [keeping]: "keeps I (dispatchMessage C fd t p)"
  unfolding dispatchMessage_def by (intro keeping)

lemma guard_keeps [keeping]: "keeps I h \<Longrightarrow> keeps I (guardMessage C fd t ptr n h)"
  unfolding guardMessage_def by (intro keeping)

lemma processMessage_keeps [keeping]: "keeps I (processMessage C fd t p)"
  unfolding processMessage_def by (intro keeping change_client) (simp_all add: session_change_def)

lemma dropData_keeps [keeping]: "keeps I (dropDataChannel fd)"
  unfolding dropDataChannel_def by (intro keeping)

lemma processData_keeps [keeping]: "keeps I (processDataMessage C fd t p)"
  unfolding processDataMessage_def
  by (intro keeping change_client) (simp_all add: session_change_def)

lemma removePending_keeps [keeping]: "keeps I (removePending fd b)"
  unfolding removePending_def by (intro keeping)

lemma accept_keeps [keeping]: "keeps I (handleTcpAccept conn)"
  unfolding handleTcpAccept_def by (intro keeping)

lemma dataInit_keeps [keeping]: "keeps I (onSecureDataChannelInit C fd p)"
  unfolding onSecureDataChannelInit_def refuseFd_def
  by (intro keeping close_data_ok clear_ok change_client) (simp_all add: session_change_def)

lemma dataRecv_keeps: "keeps I (dataRecv_loop n C t fd)"
  by (induction n) (auto intro!: keeping change_client simp: session_change_def)

lemma processDataBuf_keeps [keeping]: "keeps I (processDataRecvBuffer C t)"
  unfolding processDataRecvBuffer_def by (intro keeping dataRecv_keeps)

lemma dataData_keeps [keeping]: "keeps I (handleDataChannelData C fd bs)"
  unfolding handleDataChannelData_def
  by (intro keeping owner_keeps close_data_ok change_client) (simp add: session_change_def)

lemma clientRecv_keeps: "keeps I (clientRecv_loop n C fd)"
  by (induction n) (auto intro!: keeping change_client simp: session_change_def)

lemma processClientBuf_keeps [keeping]: "keeps I (processClientRecvBuffer C fd)"
  unfolding processClientRecvBuffer_def by (intro keeping clientRecv_keeps)

lemma clientData_keeps [keeping]: "keeps I (handleClientData C fd bs)"
  unfolding handleClientData_def by (intro keeping change_client) (simp add: session_change_def)

lemma adopt_keeps [keeping]: "keeps I (adoptDataChannel C fd ip p tr)"
  unfolding adoptDataChannel_def by (intro keeping change_client) (simp add: session_change_def)

lemma promote_triple:
  "triple (\<lambda>s. I s \<and> length (sv_clients s) < lm_maxClients (sv_limits s)) (promoteClient C fd ip buf) (\<lambda>_. I)"
  unfolding promoteClient_def by (rule triple_seq [OF install_ok keeps_triple [OF processClientBuf_keeps]])

lemma admit_keeps [keeping]:
  "keeps I (do {
     limits \<leftarrow> gets sv_limits;
     n \<leftarrow> gets (\<lambda>s. length (sv_clients s));
     ipState \<leftarrow> gets (ipStateOf ip);
     if n \<ge> lm_maxClients limits \<or> ip_clients ipState \<ge> lm_maxClientsPerIp limits
     then removePending fd True
     else promoteClient C fd ip buf })"
proof (rule keepsI)
  fix s assume s: "I s"
  show "I (snd (run_state (do {
     limits \<leftarrow> gets sv_limits;
     n \<leftarrow> gets (\<lambda>s. length (sv_clients s));
     ipState \<leftarrow> gets (ipStateOf ip);
     if n \<ge> lm_maxClients limits \<or> ip_clients ipState \<ge> lm_maxClientsPerIp limits
     then removePending fd True
     else promoteClient C fd ip buf }) s))"
    using keepsD [OF removePending_keeps s] tripleD [OF promote_triple, of s] s by (simp add: gets_def)
qed

lemma pendingData_keeps [keeping]: "keeps I (handlePendingData C fd bs)"
  unfolding handlePendingData_def Let_def
  by (intro admit_keeps keeping)

lemma udpPacket_keeps [keeping]: "keeps I (handleUdpPacket C fd from buf)"
  unfolding handleUdpPacket_def decryptUdpPacket_def relayUdp_def
  by (intro keeping change_client) (simp_all add: session_change_def)

lemma writable_keeps [keeping]: "keeps I (handleWritable fd)"
  unfolding handleWritable_def by (intro keeping owner_keeps close_data_ok)

lemma timeouts_keeps [keeping]: "keeps I (checkTimeouts C)"
  unfolding checkTimeouts_def
  by (intro keeping change_client) (simp add: session_change_def expireHandshake_def Let_def)

lemma event_keeps [keeping]: "keeps I (handleEvent C ev)"
  unfolding handleEvent_def by (intro keeping)

lemma step_keeps: "keeps I (server_step C ev)"
proof (cases ev)
  case (World now sends randoms)
  show ?thesis
  proof (rule keepsI)
    fix s assume "I s"
    from world [OF this, of "sv_io s" randoms sends now] show "I (snd (run_state (server_step C ev) s))"
      by (simp add: World modify_def)
  qed
qed (simp_all add: keeping)

lemma run_keeps: "I s \<Longrightarrow> I (server_run C evs s)"
  unfolding server_run_def by (induction evs arbitrary: s) (auto dest: keepsD [OF step_keeps])

end

section \<open>The limits never change\<close>

lemma limits_prims:
  "keeps (\<lambda>s. sv_limits s = l) (modC fd f)" "keeps (\<lambda>s. sv_limits s = l) (modRooms g)"
  "keeps (\<lambda>s. sv_limits s = l) (releaseBytes n)" "keeps (\<lambda>s. sv_limits s = l) (syscall e)"
  "keeps (\<lambda>s. sv_limits s = l) (modIp ip h)" "keeps (\<lambda>s. sv_limits s = l) (adjIp ip h)"
  by (auto intro!: keepsI simp: monad_defs releaseBytes_def modIp_def adjIp_def)

lemma limits_modify: "(\<And>s. sv_limits (f s) = sv_limits s) \<Longrightarrow> keeps (\<lambda>s. sv_limits s = l) (modify f)"
  by (auto intro!: keepsI simp: modify_def)

interpretation limits_base: server_base "\<lambda>s. sv_limits s = l" for l
proof
  show "triple (\<lambda>s. sv_limits s = l \<and> managerSize (sv_rooms s) < lm_maxRooms (sv_limits s)) (serverCreateRoom p req)
     (\<lambda>_ s. sv_limits s = l)" for p req
    by (rule tripleI) (auto simp: serverCreateRoom_def split: prod.split)
  show "triple (\<lambda>s. sv_limits s = l \<and> length (sv_clients s) < lm_maxClients (sv_limits s)) (installClient fd ip buf) (\<lambda>_ s. sv_limits s = l)"
    for fd ip buf
    by (rule keeps_weak) (simp add: installClient_def limits_prims limits_modify keeping)
qed (simp_all add: appendSendBuffer_def consumeSendBuffer_def clearSendBuffer_def eraseSession_def installClient_def
      releaseClientIp_def epollDel_def close_fd_def limits_prims limits_modify keeping)

interpretation limits: server_invariant "\<lambda>s. sv_limits s = l" for l
  by unfold_locales (rule limits_base.expire_any [OF limits_prims(2)])

section \<open>The number of sessions\<close>

definition clients_within :: "SignalServer \<Rightarrow> bool" where
  "clients_within s \<longleftrightarrow> om_ok (sv_clients s) \<and> length (sv_clients s) \<le> lm_maxClients (sv_limits s)"

lemma within_modify:
  "(\<And>s. map fst (sv_clients (f s)) = map fst (sv_clients s) \<and> sv_limits (f s) = sv_limits s) \<Longrightarrow> keeps clients_within (modify f)"
proof (rule keepsI)
  fix s assume f: "\<And>s. map fst (sv_clients (f s)) = map fst (sv_clients s) \<and> sv_limits (f s) = sv_limits s" and s: "clients_within s"
  have "length (sv_clients (f s)) = length (sv_clients s)" using f [of s] by (metis length_map)
  with f [of s] s show "clients_within (snd (run_state (modify f) s))" by (simp add: clients_within_def modify_def om_ok_def)
qed

lemma within_prims:
  "keeps clients_within (modC fd g)" "keeps clients_within (modRooms h)" "keeps clients_within (releaseBytes n)"
  "keeps clients_within (syscall e)" "keeps clients_within (modIp ip k)" "keeps clients_within (adjIp ip k)"
  unfolding modC_def modRooms_def releaseBytes_def syscall_def modIp_def adjIp_def by (rule within_modify, simp)+

lemma within_erase: "keeps clients_within (modify (\<lambda>s. s\<lparr>sv_clients := om_del fd (sv_clients s)\<rparr>))"
  by (rule keepsI) (auto simp: clients_within_def modify_def intro: le_trans [OF length_om_del_le])

interpretation within_base: server_base clients_within
proof
  show "triple (\<lambda>s. clients_within s \<and> managerSize (sv_rooms s) < lm_maxRooms (sv_limits s)) (serverCreateRoom p req) (\<lambda>_. clients_within)"
    for p req by (rule tripleI) (auto simp: serverCreateRoom_def clients_within_def split: prod.split)
  show "triple (\<lambda>s. clients_within s \<and> length (sv_clients s) < lm_maxClients (sv_limits s)) (installClient fd ip buf) (\<lambda>_. clients_within)"
    for fd ip buf
    by (rule tripleI) (auto simp: installClient_def monad_defs modIp_def clients_within_def length_om_upd)
qed (simp_all add: appendSendBuffer_def consumeSendBuffer_def clearSendBuffer_def eraseSession_def
      releaseClientIp_def epollDel_def close_fd_def within_prims within_modify within_erase keeping, simp_all add: clients_within_def)

interpretation within: server_invariant clients_within
  by unfold_locales (rule within_base.expire_any [OF within_prims(2)])

section \<open>A concrete start and history\<close>

definition demo_boot :: boot where
  "demo_boot = \<lparr>bt_limits = newServerLimits, bt_password = replicate 8 65, bt_workOk = True,
     bt_randoms = [Some (replicate AUTH_SALT_SIZE 1)], bt_port = 1, bt_epfd = Some 3, bt_tcpFd = Some 4, bt_udpFd = Some 5\<rparr>"

definition demo_events :: "server_event list" where
  "demo_events = [World 100 [Sent 10] [], Epoll \<lparr>ev_fd = 4, ev_failed = False, ev_out = False,
     ev_in = True, ev_conn = Some (7, 1), ev_from = (0, 0), ev_bytes = []\<rparr>, Timeouts]"

text \<open>
  C27. There are never more signalling sessions than the configured limit, whatever
  connections arrive.
\<close>

theorem client_limit_always:
  "length (sv_clients (server_run C evs (startServer C b))) \<le> lm_maxClients (bt_limits b)"
proof -
  let ?s = "server_run C evs (startServer C b)"
  have "clients_within ?s" by (rule within.run_keeps) (simp add: clients_within_def)
  moreover have "sv_limits ?s = bt_limits b" by (rule limits.run_keeps) simp
  ultimately show ?thesis by (simp add: clients_within_def)
qed

end
