(* ===== verification/Server_Budget.thy ===== *)
theory Server_Budget
  imports Server_Invariants
begin

text \<open>
  The send budgets: the server's global count is the number of bytes that wait in the buffers
  of all sessions, no buffer and no total grows past its limit, and flushing delivers the bytes
  of a buffer in order.
\<close>

section \<open>Sums over a table\<close>

definition table_sum :: "('v \<Rightarrow> nat) \<Rightarrow> ('k, 'v) omap \<Rightarrow> nat" where
  "table_sum g m = sum_list (map (\<lambda>e. g (snd e)) m)"

lemma om_adj_absent: "map_of m k = None \<Longrightarrow> om_adj k f m = m"
  by (induction m) (auto simp: om_adj_def split: if_splits)

lemma om_adj_notin: "k \<notin> fst ` set m \<Longrightarrow> om_adj k f m = m"
  by (simp add: om_adj_absent map_of_eq_None_iff)

lemma table_sum_adj:
  "om_ok m \<Longrightarrow> map_of m k = Some v \<Longrightarrow> table_sum g (om_adj k f m) + g v = table_sum g m + g (f v)"
proof (induction m)
  case (Cons e m)
  then show ?case
  proof (cases "fst e = k")
    case True
    then have "k \<notin> fst ` set m" using Cons.prems(1) by (cases e) (auto simp: om_ok_Cons)
    then have "om_adj k f m = m" by (rule om_adj_notin)
    with True Cons.prems(2) show ?thesis by (cases e) (simp add: table_sum_def om_adj_def)
  next
    case False
    with Cons.prems Cons.IH show ?thesis by (cases e) (simp add: table_sum_def om_adj_def om_ok_Cons)
  qed
qed simp

lemma table_sum_del: "om_ok m \<Longrightarrow> map_of m k = Some v \<Longrightarrow> table_sum g (om_del k m) + g v = table_sum g m"
proof (induction m)
  case (Cons e m)
  then show ?case
  proof (cases "fst e = k")
    case True
    then have "k \<notin> fst ` set m" using Cons.prems(1) by (cases e) (auto simp: om_ok_Cons)
    then have "om_del k m = m" by (rule om_del_absent)
    with True Cons.prems(2) show ?thesis by (cases e) (simp add: table_sum_def om_del_def)
  next
    case False
    with Cons.prems Cons.IH show ?thesis by (cases e) (simp add: table_sum_def om_del_def om_ok_Cons)
  qed
qed simp

lemma table_sum_upd_new: "map_of m k = None \<Longrightarrow> table_sum g (om_upd k v m) = table_sum g m + g v"
  by (induction k v m rule: om_upd.induct) (auto simp: table_sum_def split: if_splits)

lemma table_sum_upd_old:
  "om_ok m \<Longrightarrow> map_of m k = Some w \<Longrightarrow> table_sum g (om_upd k v m) + g w = table_sum g m + g v"
proof (induction k v m rule: om_upd.induct)
  case (2 k v a b m)
  have "k \<noteq> x" if "k < a" "x \<in> fst ` set m" for x using 2(2) that by (force simp: om_ok_Cons)
  then have "map_of m k = None" if "k < a" using that by (force simp: map_of_eq_None_iff)
  with 2 show ?case by (auto simp: table_sum_def om_ok_Cons split: if_splits)
qed simp

lemma in_set_om_adj: "om_ok m \<Longrightarrow> (x, y) \<in> set (om_adj k f m) \<longleftrightarrow> map_of (om_adj k f m) x = Some y"
  by (simp add: om_in_set_iff)

section \<open>The budget\<close>

definition buffered :: "ClientSession \<Rightarrow> nat" where
  "buffered c = length (cs_sendBuf c) + length (cs_dataSendBuf c)"

definition bounded_session :: "int \<Rightarrow> ClientSession \<Rightarrow> bool" where
  "bounded_session fd c \<longleftrightarrow> cs_tcpFd c = fd \<and> length (cs_sendBuf c) \<le> MAX_TCP_SEND_BUF \<and>
     length (cs_dataSendBuf c) \<le> MAX_TCP_SEND_BUF"

definition send_budget :: "SignalServer \<Rightarrow> bool" where
  "send_budget s \<longleftrightarrow> om_ok (sv_clients s) \<and> (\<forall>fd c. map_of (sv_clients s) fd = Some c \<longrightarrow> bounded_session fd c) \<and>
     sv_globalSendBytes s = table_sum buffered (sv_clients s) \<and>
     sv_globalSendBytes s \<le> lm_maxSendBufferBytes (sv_limits s)"

lemma table_sum_ge: "map_of m k = Some v \<Longrightarrow> g v \<le> table_sum g m"
  by (induction m) (auto simp: table_sum_def split: if_splits)

text \<open>Replacing one session's buffers and adjusting the count by the difference.\<close>

lemma send_budget_adj:
  assumes "send_budget s" "map_of (sv_clients s) fd = Some c"
    and "n + buffered c = sv_globalSendBytes s + buffered (f c)" "n \<le> lm_maxSendBufferBytes (sv_limits s)"
    and "bounded_session fd (f c)"
  shows "send_budget (s\<lparr>sv_clients := om_adj fd f (sv_clients s), sv_globalSendBytes := n\<rparr>)"
  using assms table_sum_adj [of "sv_clients s" fd c buffered f] by (auto simp: send_budget_def)

lemma send_budget_same:
  assumes "send_budget s" "\<And>c. map_of (sv_clients s) fd = Some c \<Longrightarrow> buffered (f c) = buffered c \<and> bounded_session fd (f c)"
  shows "send_budget (s\<lparr>sv_clients := om_adj fd f (sv_clients s)\<rparr>)"
proof (cases "map_of (sv_clients s) fd")
  case None
  then show ?thesis using assms(1) by (simp add: om_adj_absent)
next
  case (Some c)
  then have "send_budget (s\<lparr>sv_clients := om_adj fd f (sv_clients s), sv_globalSendBytes := sv_globalSendBytes s\<rparr>)"
    using assms by (intro send_budget_adj [of s fd c]) (auto simp: send_budget_def)
  then show ?thesis by simp
qed

lemma send_budgetD:
  assumes "send_budget s" "map_of (sv_clients s) fd = Some c"
  shows "bounded_session fd c" "buffered c \<le> sv_globalSendBytes s" "sv_globalSendBytes s \<le> lm_maxSendBufferBytes (sv_limits s)"
  using assms table_sum_ge [OF assms(2), of buffered] by (simp_all add: send_budget_def)

lemma buffered_setBuf: "buffered (setBuf ch b c) + length (bufOf ch c) = buffered c + length b"
  by (cases ch) (simp_all add: buffered_def setBuf_def bufOf_def)

lemma buffered_ge: "length (bufOf ch c) \<le> buffered c"
  by (cases ch) (simp_all add: buffered_def bufOf_def)

lemma bounded_setBuf: "bounded_session fd c \<Longrightarrow> length b \<le> MAX_TCP_SEND_BUF \<Longrightarrow> bounded_session fd (setBuf ch b c)"
  by (cases ch) (simp_all add: bounded_session_def setBuf_def)

lemma bounded_bufOf: "bounded_session fd c \<Longrightarrow> length (bufOf ch c) \<le> MAX_TCP_SEND_BUF"
  by (cases ch) (simp_all add: bounded_session_def bufOf_def)

definition same_buffers :: "(ClientSession \<Rightarrow> ClientSession) \<Rightarrow> bool" where
  "same_buffers f \<longleftrightarrow> (\<forall>c. cs_tcpFd (f c) = cs_tcpFd c \<and> cs_sendBuf (f c) = cs_sendBuf c \<and> cs_dataSendBuf (f c) = cs_dataSendBuf c)"

lemma budget_change:
  assumes "same_buffers f"
  shows "keeps send_budget (modC fd f)"
proof (rule keepsI)
  fix s assume s: "send_budget s"
  have "send_budget (s\<lparr>sv_clients := om_adj fd f (sv_clients s)\<rparr>)"
    using assms send_budgetD(1) [OF s]
    by (intro send_budget_same [OF s]) (simp add: same_buffers_def buffered_def bounded_session_def)
  then show "send_budget (snd (run_state (modC fd f) s))" by (simp add: modC_def modify_def)
qed

lemma budget_setBuf:
  assumes s: "send_budget s" and c: "map_of (sv_clients s) fd = Some c"
    and n: "n + length (bufOf ch c) = sv_globalSendBytes s + length b" "n \<le> lm_maxSendBufferBytes (sv_limits s)"
    and b: "length b \<le> MAX_TCP_SEND_BUF"
  shows "send_budget (s\<lparr>sv_clients := om_adj fd (setBuf ch b) (sv_clients s), sv_globalSendBytes := n\<rparr>)"
proof (rule send_budget_adj [OF s c])
  show "n + buffered c = sv_globalSendBytes s + buffered (setBuf ch b c)"
    using n buffered_setBuf [of ch b c] by linarith
qed (use n bounded_setBuf [OF send_budgetD(1) [OF s c] b] in auto)

lemma budget_clear: "keeps send_budget (clearSendBuffer fd ch)"
proof (rule keepsI)
  fix s assume s: "send_budget s"
  show "send_budget (snd (run_state (clearSendBuffer fd ch) s))"
  proof (cases "map_of (sv_clients s) fd")
    case None
    with s show ?thesis
      by (simp add: clearSendBuffer_def releaseBytes_def monad_defs clientOf_def om_adj_absent newClientSession_def bufOf_def)
  next
    case (Some c)
    note d = send_budgetD [OF s Some]
    have le: "length (bufOf ch c) \<le> sv_globalSendBytes s" using d(2) buffered_ge [of ch c] by linarith
    have "send_budget (s\<lparr>sv_clients := om_adj fd (setBuf ch []) (sv_clients s),
        sv_globalSendBytes := sv_globalSendBytes s - length (bufOf ch c)\<rparr>)"
      using le d(3) by (intro budget_setBuf [OF s Some]) simp_all
    with Some le show ?thesis
      by (simp add: clearSendBuffer_def releaseBytes_def monad_defs clientOf_def)
  qed
qed

lemma budget_consume: "keeps send_budget (consumeSendBuffer fd ch n)"
proof (rule keepsI)
  fix s assume s: "send_budget s"
  show "send_budget (snd (run_state (consumeSendBuffer fd ch n) s))"
  proof (cases "map_of (sv_clients s) fd")
    case None
    with s show ?thesis
      by (simp add: consumeSendBuffer_def releaseBytes_def monad_defs clientOf_def om_adj_absent newClientSession_def bufOf_def)
  next
    case (Some c)
    define k where "k = min n (length (bufOf ch c))"
    note d = send_budgetD [OF s Some]
    have k: "k \<le> length (bufOf ch c)" by (simp add: k_def)
    have le: "k \<le> sv_globalSendBytes s" using d(2) buffered_ge [of ch c] k by linarith
    have "send_budget (s\<lparr>sv_clients := om_adj fd (setBuf ch (drop k (bufOf ch c))) (sv_clients s),
        sv_globalSendBytes := sv_globalSendBytes s - k\<rparr>)"
      using le k d(3) bounded_bufOf [OF d(1), of ch] by (intro budget_setBuf [OF s Some]) simp_all
    moreover have "\<not> (sv_globalSendBytes s < n \<and> sv_globalSendBytes s < length (bufOf ch c))"
      using le by (auto simp: k_def min_def split: if_splits)
    ultimately show ?thesis
      using Some by (auto simp: consumeSendBuffer_def releaseBytes_def monad_defs clientOf_def Let_def simp flip: k_def)
  qed
qed

lemma budget_append: "keeps send_budget (appendSendBuffer fd ch xs ys)"
proof (rule keepsI)
  fix s assume s: "send_budget s"
  show "send_budget (snd (run_state (appendSendBuffer fd ch xs ys) s))"
  proof (cases "map_of (sv_clients s) fd")
    case None
    with s show ?thesis by (simp add: appendSendBuffer_def monad_defs)
  next
    case (Some c)
    define d where "d = length xs + length ys"
    define L where "L = lm_maxSendBufferBytes (sv_limits s)"
    have same: "send_budget (t\<lparr>sv_clients := om_adj fd (\<lambda>c. c\<lparr>cs_sendBudgetFailures := h c\<rparr>) (sv_clients t)\<rparr>)"
      if "send_budget t" for t h
      using send_budgetD(1) [OF that] by (intro send_budget_same [OF that]) (simp add: buffered_def bounded_session_def)
    show ?thesis
    proof (cases "overBudget (length (bufOf ch c)) (sv_globalSendBytes s) L d")
      case True
      with s same [OF s, of "\<lambda>c. cs_sendBudgetFailures c + 1"] Some show ?thesis
        unfolding appendSendBuffer_def by (simp add: monad_defs Let_def flip: d_def L_def)
    next
      case False
      let ?t = "s\<lparr>sv_clients := om_adj fd (setBuf ch (bufOf ch c @ xs @ ys)) (sv_clients s),
        sv_globalSendBytes := sv_globalSendBytes s + d\<rparr>"
      have "sv_globalSendBytes s + d \<le> L" "length (bufOf ch c) + d \<le> MAX_TCP_SEND_BUF"
        using False by (auto simp: overBudget_def min_def not_less)
      then have t: "send_budget ?t"
        by (intro budget_setBuf [OF s Some]) (simp_all add: d_def L_def)
      from same [OF t, of "\<lambda>_. 0"] t False Some show ?thesis
        unfolding appendSendBuffer_def by (cases ch) (simp_all add: monad_defs Let_def flip: d_def L_def)
    qed
  qed
qed

text \<open>Sessions leave with empty buffers.\<close>

lemma send_budget_empty_del:
  assumes s: "send_budget s" and e: "buffered (clientOf fd s) = 0"
  shows "send_budget (s\<lparr>sv_clients := om_del fd (sv_clients s)\<rparr>)"
proof (cases "map_of (sv_clients s) fd")
  case None
  then have "om_del fd (sv_clients s) = sv_clients s" by (simp add: map_of_eq_None_iff)
  with s show ?thesis by simp
next
  case (Some c)
  with e have "buffered c = 0" by (simp add: clientOf_def)
  with s Some table_sum_del [of "sv_clients s" fd c buffered] show ?thesis by (simp add: send_budget_def)
qed

lemma clientOf_adj:
  "clientOf k (s\<lparr>sv_clients := om_adj fd f (sv_clients s)\<rparr>) =
     (if k = fd \<and> map_of (sv_clients s) fd \<noteq> None then f (clientOf fd s) else clientOf k s)"
  by (auto simp: clientOf_def split: option.split)

lemma clientOf_cong: "sv_clients s = sv_clients t \<Longrightarrow> clientOf fd s = clientOf fd t"
  by (simp add: clientOf_def)

text \<open>A triple that tracks one session's buffers through the steps that do not touch them.\<close>

definition drained :: "bool list \<Rightarrow> int \<Rightarrow> SignalServer \<Rightarrow> bool" where
  "drained chs fd s \<longleftrightarrow> send_budget s \<and> (\<forall>ch \<in> set chs. bufOf ch (clientOf fd s) = [])"

lemma drained_change: "same_buffers f \<Longrightarrow> keeps (drained chs fd) (modC fd f)"
proof (rule keepsI)
  fix s assume f: "same_buffers f" and "drained chs fd s"
  then have "send_budget (snd (run_state (modC fd f) s))" using keepsD [OF budget_change [OF f]] by (simp add: drained_def)
  with f \<open>drained chs fd s\<close> show "drained chs fd (snd (run_state (modC fd f) s))"
    by (auto simp: drained_def modC_def modify_def clientOf_adj same_buffers_def bufOf_def)
qed

lemma drained_clear: "triple (drained chs fd) (clearSendBuffer fd ch) (\<lambda>_. drained (ch # chs) fd)"
proof (rule tripleI)
  fix s assume s: "drained chs fd s"
  let ?t = "snd (run_state (clearSendBuffer fd ch) s)"
  have "send_budget ?t" using s keepsD [OF budget_clear] by (simp add: drained_def)
  moreover have "sv_clients ?t = om_adj fd (setBuf ch []) (sv_clients s)"
    by (simp add: clearSendBuffer_def releaseBytes_def monad_defs)
  then have "clientOf fd ?t = (if map_of (sv_clients s) fd \<noteq> None then setBuf ch [] (clientOf fd s) else newClientSession)"
    by (auto simp: clientOf_def split: option.split)
  ultimately show "drained (ch # chs) fd ?t"
    using s by (auto simp: drained_def bufOf_def setBuf_def newClientSession_def)
qed

lemma drained_other:
  assumes "\<And>s. send_budget s \<Longrightarrow> send_budget (f s)" "\<And>s. sv_clients (f s) = sv_clients s"
  shows "keeps (drained chs fd) (modify f)"
  using assms clientOf_cong [OF assms(2)] by (auto intro!: keepsI simp: drained_def modify_def)

lemma send_budget_cong:
  "send_budget s \<Longrightarrow> sv_clients t = sv_clients s \<Longrightarrow> sv_globalSendBytes t = sv_globalSendBytes s \<Longrightarrow>
   sv_limits t = sv_limits s \<Longrightarrow> send_budget t"
  by (simp add: send_budget_def)

lemma drained_misc: "keeps (drained chs fd) (syscall e)" "keeps (drained chs fd) (adjIp ip g)"
  unfolding syscall_def adjIp_def by (auto intro!: drained_other elim: send_budget_cong)

lemma drained_release: "keeps (drained chs fd) (releaseClientIp fd)"
  unfolding releaseClientIp_def by (intro keeping drained_misc drained_change) (simp add: same_buffers_def)

lemma drained_erase: "triple (drained chs fd) (eraseSession fd) (\<lambda>_. send_budget)"
proof -
  have c: "triple (drained l fd) m (\<lambda>_. drained l fd)" if "keeps (drained l fd) m" for l and m :: "unit server"
    using that by (rule keeps_triple)
  have s: "same_buffers (\<lambda>c. c\<lparr>cs_recvBuf := []\<rparr>)" "same_buffers (\<lambda>c. c\<lparr>cs_dataRecvBuf := []\<rparr>)" "same_buffers wipeSession"
    by (simp_all add: same_buffers_def wipeSession_def)
  have "triple (drained [True, False] fd) (modify (\<lambda>s. s\<lparr>sv_clients := om_del fd (sv_clients s)\<rparr>)) (\<lambda>_. send_budget)"
    by (rule tripleI) (auto simp: drained_def modify_def bufOf_def buffered_def intro!: send_budget_empty_del)
  moreover have "triple (drained chs fd) (clearSendBuffer fd False) (\<lambda>_. drained [False] fd)"
    using drained_clear by (rule triple_post) (simp add: drained_def)
  ultimately show ?thesis
    unfolding eraseSession_def epollDel_def close_fd_def
    by (elim triple_seq) (intro triple_seq [OF c [OF drained_change [OF s(1)]]] triple_seq [OF drained_clear]
        triple_seq [OF c [OF drained_change [OF s(2)]]] triple_seq [OF c [OF drained_change [OF s(3)]]]
        triple_seq [OF c [OF drained_release]] triple_seq [OF c [OF drained_misc(1)]])
qed

lemma budget_erase: "keeps send_budget (eraseSession fd)"
proof -
  have "drained [] fd = send_budget" by (rule ext) (simp add: drained_def)
  with drained_erase [of "[]" fd] show ?thesis by (simp add: keeps_def)
qed

lemma budget_install: "keeps send_budget (installClient fd ip buf)"
proof -
  have "send_budget (s\<lparr>sv_clients := om_upd fd ((clientOf fd s)\<lparr>cs_tcpFd := fd, cs_lastPing := now,
       cs_alive := True, cs_remoteIpv4 := ip, cs_helloDeadline := now + 10, cs_recvBuf := buf,
       cs_serverAuthOk := False\<rparr>) (sv_clients s)\<rparr>)" if "send_budget s" for s now
  proof (cases "map_of (sv_clients s) fd")
    case None
    with that show ?thesis
      by (auto simp: send_budget_def clientOf_def newClientSession_def buffered_def bounded_session_def table_sum_upd_new)
  next
    case (Some c)
    define c' where "c' = c\<lparr>cs_tcpFd := fd, cs_lastPing := now, cs_alive := True, cs_remoteIpv4 := ip,
       cs_helloDeadline := now + 10, cs_recvBuf := buf, cs_serverAuthOk := False\<rparr>"
    have "buffered c' = buffered c" "bounded_session fd c'"
      using send_budgetD(1) [OF that Some] by (simp_all add: c'_def buffered_def bounded_session_def)
    with that Some table_sum_upd_old [OF _ Some, of buffered c'] show ?thesis
      by (auto simp: send_budget_def clientOf_def simp flip: c'_def)
  qed
  moreover have "keeps send_budget (modify (\<lambda>s. s\<lparr>sv_pending := f s\<rparr>))" "keeps send_budget (modIp ip g)" for f g
    by (auto intro!: keepsI elim: send_budget_cong simp: modify_def modIp_def)
  ultimately show ?thesis
    unfolding installClient_def by (intro keeping) (auto intro!: keepsI simp: modify_def)
qed

lemma budget_rooms: "keeps send_budget (modRooms g)"
  by (auto intro!: keepsI elim: send_budget_cong simp: modRooms_def modify_def)

interpretation budget_base: server_base send_budget
proof
  show "keeps send_budget (modC fd f)" if "session_change f" for fd f
    using that by (intro budget_change) (simp add: session_change_def same_buffers_def)
  show "triple (\<lambda>s. send_budget s \<and> managerSize (sv_rooms s) < lm_maxRooms (sv_limits s)) (serverCreateRoom p req) (\<lambda>_. send_budget)"
    for p req by (rule tripleI) (auto elim: send_budget_cong simp: serverCreateRoom_def split: prod.split)
  show "triple (\<lambda>s. send_budget s \<and> length (sv_clients s) < lm_maxClients (sv_limits s)) (installClient fd ip buf) (\<lambda>_. send_budget)"
    for fd ip buf by (rule keeps_weak [OF budget_install])
qed (rule budget_append budget_consume budget_clear budget_erase budget_rooms | erule send_budget_cong, simp_all)+

interpretation budget: server_invariant send_budget
  by unfold_locales (rule budget_base.expire_any [OF budget_rooms])

lemma send_budget_start: "send_budget (startServer C b)"
  by (simp add: send_budget_def table_sum_def)

text \<open>
  C8. The send budgets hold after every history of events, whatever the sockets, the clock and
  the random generator do: the global count is exactly the number of bytes waiting in the
  buffers of all sessions, it never exceeds the configured limit, and no single buffer exceeds
  2 MiB.
\<close>

theorem send_budget_always:
  fixes C evs b
  defines "s \<equiv> server_run C evs (startServer C b)"
  shows "sv_globalSendBytes s = (\<Sum>(fd, c) \<leftarrow> sv_clients s. length (cs_sendBuf c) + length (cs_dataSendBuf c)) \<and>
     sv_globalSendBytes s \<le> lm_maxSendBufferBytes (bt_limits b) \<and>
     (\<forall>(fd, c) \<in> set (sv_clients s). length (cs_sendBuf c) \<le> MAX_TCP_SEND_BUF \<and> length (cs_dataSendBuf c) \<le> MAX_TCP_SEND_BUF)"
proof -
  have "send_budget s" unfolding s_def by (rule budget.run_keeps [OF send_budget_start])
  moreover have "sv_limits s = bt_limits b" unfolding s_def by (rule limits.run_keeps) simp
  ultimately show ?thesis
    by (auto simp: send_budget_def table_sum_def buffered_def bounded_session_def om_in_set_iff case_prod_unfold)
qed

theorem send_budget_always_witness:
  "sv_globalSendBytes (server_run demo_crypto demo_events (startServer demo_crypto demo_boot)) \<le> 64 * 1024 * 1024"
  using send_budget_always [of demo_crypto demo_events demo_boot] by (simp add: demo_boot_def newServerLimits_def)

end
