(* ===== verification/Server_Stream.thy ===== *)
theory Server_Stream
  imports Server_Send
begin

text \<open>
  The byte stream to a client (\<^verbatim>\<open>flushSendBuf\<close>, \<^verbatim>\<open>sendMsg\<close>): what the socket takes and what
  stays in the buffer is always the stream of whole frames that were accepted, in their order,
  whatever the socket does with each \<^verbatim>\<open>send\<close>; a flush always ends with the buffer empty, with
  the server waiting for the socket, or with the session given up.
\<close>

section \<open>What went to a socket\<close>

primrec tcp_bytes :: "int \<Rightarrow> io \<Rightarrow> bytes" where
  "tcp_bytes fd (SendTcp f bs) = (if f = fd then bs else [])"
| "tcp_bytes fd (EpollAdd f e) = []"
| "tcp_bytes fd (EpollMod f e) = []"
| "tcp_bytes fd (EpollDel f) = []"
| "tcp_bytes fd (CloseFd f) = []"
| "tcp_bytes fd (SendUdp f a bs) = []"

definition stream_to :: "int \<Rightarrow> io list \<Rightarrow> bytes" where
  "stream_to fd ios = concat (map (tcp_bytes fd) ios)"

lemma stream_to_simps [simp]:
  "stream_to fd [] = []" "stream_to fd (xs @ ys) = stream_to fd xs @ stream_to fd ys"
  "stream_to fd (e # xs) = tcp_bytes fd e @ stream_to fd xs"
  by (simp_all add: stream_to_def)

section \<open>Flushing\<close>

definition session_at :: "int \<Rightarrow> ClientSession \<Rightarrow> SignalServer \<Rightarrow> bool" where
  "session_at fd c s \<longleftrightarrow> map_of (sv_clients s) fd = Some c"

lemma clientOf_at [simp]: "session_at fd c s \<Longrightarrow> clientOf fd s = c"
  by (simp add: session_at_def clientOf_def)

lemma session_at_adj: "session_at fd c s \<Longrightarrow> session_at fd (f c) (s\<lparr>sv_clients := om_adj fd f (sv_clients s)\<rparr>)"
  by (simp add: session_at_def)

text \<open>How a flush can end.\<close>

definition flush_end :: "int \<Rightarrow> ClientSession \<Rightarrow> io list \<Rightarrow> bool" where
  "flush_end fd c ios \<longleftrightarrow> cs_sendBuf c = [] \<or> \<not> cs_alive c \<or>
     EpollMod fd (EPOLLOUT OR EPOLLERR OR EPOLLHUP OR EPOLLIN) \<in> set ios \<or>
     EpollMod fd (EPOLLOUT OR EPOLLERR OR EPOLLHUP) \<in> set ios"

definition flushed :: "int \<Rightarrow> ClientSession \<Rightarrow> SignalServer \<Rightarrow> SignalServer \<Rightarrow> bool" where
  "flushed fd c s s' \<longleftrightarrow> (\<exists>c' ios. session_at fd c' s' \<and> sv_io s' = sv_io s @ ios \<and>
     stream_to fd ios @ cs_sendBuf c' = cs_sendBuf c \<and> flush_end fd c' ios \<and>
     (cs_alive c' \<longrightarrow> cs_alive c) \<and> cs_tcpFd c' = cs_tcpFd c)"

lemma flush_end_more: "flush_end fd c ios \<Longrightarrow> flush_end fd c (xs @ ios)"
  by (auto simp: flush_end_def)

lemma flushed_step:
  assumes "flushed fd c1 s1 s'" "sv_io s1 = sv_io s @ xs" "stream_to fd xs @ cs_sendBuf c1 = cs_sendBuf c"
    "cs_alive c1 = cs_alive c" "cs_tcpFd c1 = cs_tcpFd c"
  shows "flushed fd c s s'"
proof -
  from assms(1) obtain c' ios where *: "session_at fd c' s'" "sv_io s' = sv_io s1 @ ios"
      "stream_to fd ios @ cs_sendBuf c' = cs_sendBuf c1" "flush_end fd c' ios" "cs_alive c' \<longrightarrow> cs_alive c1" "cs_tcpFd c' = cs_tcpFd c1"
    unfolding flushed_def by blast
  have "stream_to fd (xs @ ios) @ cs_sendBuf c' = cs_sendBuf c" using * assms(3) by simp
  then show ?thesis
    unfolding flushed_def using * assms(2,4,5) flush_end_more
    by (intro exI [of _ c'] exI [of _ "xs @ ios"]) simp
qed

lemma flushed_now:
  assumes "session_at fd c' s'" "sv_io s' = sv_io s @ ios" "stream_to fd ios = []" "cs_sendBuf c' = cs_sendBuf c"
    "flush_end fd c' ios" "cs_alive c' \<longrightarrow> cs_alive c" "cs_tcpFd c' = cs_tcpFd c"
  shows "flushed fd c s s'"
  using assms unfolding flushed_def by (intro exI [of _ c'] exI [of _ ios]) simp

lemma flush_loop_flushed:
  assumes "session_at fd c s" "cs_tcpFd c = fd" "length (sv_sends s) < k"
  shows "flushed fd c s (snd (run_state (flushSendBuf_loop k fd) s))"
  using assms
proof (induction k arbitrary: s c)
  case (Suc k)
  show ?case
  proof (cases "cs_sendBuf c = []")
    case True
    with Suc.prems show ?thesis
      by (auto intro!: flushed_now [where c' = c] simp: getC_def gets_def epollMod_def syscall_def modify_def session_at_def flush_end_def)
  next
    case False
    note run = getC_def gets_def send_call_def clientOf_at [OF Suc.prems(1)] Suc.prems False
    show ?thesis
    proof (cases "sv_sends s")
      case Nil
      then show ?thesis
        using Suc.prems False
        by (auto intro!: flushed_now [where c' = c] simp: run epollMod_def syscall_def modify_def session_at_def flush_end_def)
    next
      case (Cons r rest)
      show ?thesis
      proof (cases r)
        case (Sent n)
        define s1 where "s1 = s\<lparr>sv_sends := rest, sv_io := sv_io s @ [SendTcp fd (take n (cs_sendBuf c))]\<rparr>"
        have at1: "session_at fd c s1" using Suc.prems(1) by (simp add: s1_def session_at_def)
        show ?thesis
        proof (cases "0 < min n (length (cs_sendBuf c))")
          case True
          define c1 where "c1 = setBuf False (drop n (cs_sendBuf c)) c"
          define s2 where "s2 = snd (run_state (consumeSendBuffer fd False (min n (length (cs_sendBuf c)))) s1)"
          have s2: "session_at fd c1 s2" "sv_sends s2 = rest" "sv_io s2 = sv_io s @ [SendTcp fd (take n (cs_sendBuf c))]"
            using at1 by (simp_all add: s2_def c1_def consumeSendBuffer_def releaseBytes_def monad_defs bufOf_def Let_def)
              (simp_all add: s1_def session_at_def setBuf_def min_def)
          have "flushed fd c1 s2 (snd (run_state (flushSendBuf_loop k fd) s2))"
            using Suc.prems s2 Cons by (intro Suc.IH) (simp_all add: c1_def setBuf_def)
          then have "flushed fd c s (snd (run_state (flushSendBuf_loop k fd) s2))"
            by (rule flushed_step [OF _ s2(3)]) (simp_all add: c1_def setBuf_def)
          with True show ?thesis by (simp add: run Cons Sent s2_def s1_def case_prod_unfold)
        next
          case False
          then have "n = 0" using \<open>cs_sendBuf c \<noteq> []\<close> by simp
          with at1 Suc.prems(1) Cons Sent \<open>cs_sendBuf c \<noteq> []\<close> show ?thesis
            by (auto intro!: flushed_now [where c' = "c\<lparr>cs_alive := False\<rparr>"] simp: run kill_def modC_def modify_def session_at_def flush_end_def)
        qed
      next
        case WouldBlock
        with Cons Suc.prems show ?thesis
          by (auto intro!: flushed_now [where c' = c] simp: run epollMod_def syscall_def modify_def session_at_def flush_end_def)
      next
        case SendError
        with Cons Suc.prems show ?thesis
          by (auto intro!: flushed_now [where c' = "c\<lparr>cs_alive := False\<rparr>"] simp: run kill_def modC_def modify_def session_at_def flush_end_def)
      qed
    qed
  qed
qed simp

lemma flushSendBuf_flushed:
  "session_at fd c s \<Longrightarrow> cs_tcpFd c = fd \<Longrightarrow> flushed fd c s (snd (run_state (flushSendBuf fd) s))"
  using flush_loop_flushed by (simp add: flushSendBuf_def gets_def del: flushSendBuf_loop.simps)

section \<open>Whole frames\<close>

definition frame_accepted :: "ClientSession \<Rightarrow> nat \<Rightarrow> nat \<Rightarrow> bytes \<Rightarrow> bool" where
  "frame_accepted c global limit body \<longleftrightarrow> cs_alive c \<and> length body \<le> MAX_TCP_MSG_PAYLOAD \<and>
     \<not> overBudget (length (cs_sendBuf c)) global limit (sizeof_TcpMsgHeader + length body)"

lemma length_tcpHeader [simp]: "length (tcpHeader t n) = 3"
  by (simp add: tcpHeader_def Let_def)

lemma append_accepted:
  assumes "session_at fd c s"
    "\<not> overBudget (length (cs_sendBuf c)) (sv_globalSendBytes s) (lm_maxSendBufferBytes (sv_limits s)) (length xs + length ys)"
  shows "fst (run_state (appendSendBuffer fd False xs ys) s)"
    and "session_at fd (c\<lparr>cs_sendBuf := cs_sendBuf c @ xs @ ys, cs_sendBudgetFailures := 0\<rparr>) (snd (run_state (appendSendBuffer fd False xs ys) s))"
    and "sv_io (snd (run_state (appendSendBuffer fd False xs ys) s)) = sv_io s"
  using assms by (simp_all add: appendSendBuffer_def monad_defs Let_def bufOf_def setBuf_def session_at_def)

lemma append_refused:
  assumes "session_at fd c s"
    "overBudget (length (cs_sendBuf c)) (sv_globalSendBytes s) (lm_maxSendBufferBytes (sv_limits s)) (length xs + length ys)"
  shows "\<not> fst (run_state (appendSendBuffer fd False xs ys) s)"
    and "\<exists>c'. session_at fd c' (snd (run_state (appendSendBuffer fd False xs ys) s)) \<and> cs_sendBuf c' = cs_sendBuf c"
    and "sv_io (snd (run_state (appendSendBuffer fd False xs ys) s)) = sv_io s"
  using assms by (simp_all add: appendSendBuffer_def monad_defs Let_def bufOf_def setBuf_def session_at_def)

text \<open>The two parts of \<^verbatim>\<open>sendMsg\<close> that follow the append.\<close>

lemma log_reject_frame [simp]:
  "sv_clients (snd (run_state logSendRejectSampled s)) = sv_clients s" "sv_io (snd (run_state logSendRejectSampled s)) = sv_io s"
  by (simp_all add: logSendRejectSampled_def monad_defs)

lemma session_at_cong: "sv_clients s = sv_clients t \<Longrightarrow> session_at fd c s = session_at fd c t"
  by (simp add: session_at_def)

lemma kill_if_at:
  assumes "session_at fd c s"
  shows "\<exists>c'. session_at fd c' (snd (run_state (if b then kill fd else skip) s)) \<and> cs_sendBuf c' = cs_sendBuf c \<and>
      (cs_alive c' \<longrightarrow> cs_alive c) \<and> (\<not> b \<longrightarrow> c' = c)"
    and "sv_io (snd (run_state (if b then kill fd else skip) s)) = sv_io s"
  using assms by (simp_all add: monad_defs session_at_def)

lemma sendMsg_accepted:
  assumes at: "session_at fd c s" and fd: "cs_tcpFd c = fd"
    and acc: "frame_accepted c (sv_globalSendBytes s) (lm_maxSendBufferBytes (sv_limits s)) body"
  shows "\<exists>c' ios. session_at fd c' (snd (run_state (sendMsg fd t body) s)) \<and>
     sv_io (snd (run_state (sendMsg fd t body) s)) = sv_io s @ ios \<and>
     stream_to fd ios @ cs_sendBuf c' = cs_sendBuf c @ tcpHeader t (length body) @ body \<and>
     fst (run_state (sendMsg fd t body) s) = cs_alive c' \<and> flush_end fd c' ios"
proof -
  let ?h = "tcpHeader t (length body)"
  define s1 where "s1 = snd (run_state (appendSendBuffer fd False ?h body) s)"
  define c1 where "c1 = c\<lparr>cs_sendBuf := cs_sendBuf c @ ?h @ body, cs_sendBudgetFailures := 0\<rparr>"
  define s2 where "s2 = snd (run_state (flushSendBuf fd) s1)"
  have ob: "\<not> overBudget (length (cs_sendBuf c)) (sv_globalSendBytes s) (lm_maxSendBufferBytes (sv_limits s)) (length ?h + length body)"
    using acc by (simp add: frame_accepted_def)
  note app = append_accepted [OF at ob]
  have "flushed fd c1 s1 s2" unfolding s2_def s1_def c1_def by (rule flushSendBuf_flushed [OF app(2)]) (simp add: fd)
  then obtain c2 ios where c2: "session_at fd c2 s2" "sv_io s2 = sv_io s @ ios" "stream_to fd ios @ cs_sendBuf c2 = cs_sendBuf c1"
      "flush_end fd c2 ios"
    unfolding flushed_def using app(3) by (auto simp: s1_def)
  define b where "b = (length (cs_sendBuf c2) > MAX_TCP_SEND_BUF)"
  define s3 where "s3 = snd (run_state (if b then kill fd else skip) s2)"
  obtain c3 where c3: "session_at fd c3 s3" "cs_sendBuf c3 = cs_sendBuf c2" "cs_alive c3 \<longrightarrow> cs_alive c2" "\<not> b \<longrightarrow> c3 = c2"
    using kill_if_at(1) [OF c2(1)] unfolding s3_def by blast
  have io3: "sv_io s3 = sv_io s @ ios" using kill_if_at(2) [OF c2(1)] c2(2) by (simp add: s3_def)
  have run: "run_state (sendMsg fd t body) s = (cs_alive c3, s3)"
    using at acc app(1) c3(1) c2(1)
    by (simp add: sendMsg_def gets_def getC_def frame_accepted_def session_at_def case_prod_unfold
        s1_def [symmetric] s2_def [symmetric] clientOf_def b_def [symmetric] s3_def [symmetric])
  have "flush_end fd c3 ios" using c2(4) c3 by (auto simp: flush_end_def)
  moreover have "stream_to fd ios @ cs_sendBuf c3 = cs_sendBuf c @ ?h @ body" using c2(3) c3(2) by (simp add: c1_def)
  ultimately show ?thesis using run io3 c3(1) by (intro exI [of _ c3] exI [of _ ios]) simp
qed

lemma sendMsg_refused:
  assumes at: "session_at fd c s" and "\<not> frame_accepted c (sv_globalSendBytes s) (lm_maxSendBufferBytes (sv_limits s)) body"
  shows "\<not> fst (run_state (sendMsg fd t body) s) \<and> sv_io (snd (run_state (sendMsg fd t body) s)) = sv_io s \<and>
     (\<exists>c'. session_at fd c' (snd (run_state (sendMsg fd t body) s)) \<and> cs_sendBuf c' = cs_sendBuf c)"
proof (cases "cs_alive c \<and> length body \<le> MAX_TCP_MSG_PAYLOAD")
  case True
  let ?h = "tcpHeader t (length body)"
  define s1 where "s1 = snd (run_state (appendSendBuffer fd False ?h body) s)"
  have ob: "overBudget (length (cs_sendBuf c)) (sv_globalSendBytes s) (lm_maxSendBufferBytes (sv_limits s)) (length ?h + length body)"
    using assms(2) True by (simp add: frame_accepted_def)
  note app = append_refused [OF at ob]
  obtain c1 where c1: "session_at fd c1 s1" "cs_sendBuf c1 = cs_sendBuf c" using app(2) by (auto simp: s1_def)
  define s2 where "s2 = snd (run_state logSendRejectSampled s1)"
  have at2: "session_at fd c1 s2" using c1(1) by (simp add: s2_def session_at_def)
  define b where "b = (cs_sendBudgetFailures c1 \<ge> 3)"
  define s3 where "s3 = snd (run_state (if b then kill fd else skip) s2)"
  have "run_state (sendMsg fd t body) s = (False, s3)"
    using at True app(1) at2
    by (simp add: sendMsg_def gets_def getC_def session_at_def case_prod_unfold s1_def [symmetric] s2_def [symmetric]
        clientOf_def b_def [symmetric] s3_def [symmetric])
  moreover have "sv_io s3 = sv_io s" using kill_if_at(2) [OF at2] app(3) by (simp add: s3_def s2_def s1_def)
  moreover have "\<exists>c'. session_at fd c' s3 \<and> cs_sendBuf c' = cs_sendBuf c" using kill_if_at(1) [OF at2] c1(2) unfolding s3_def by metis
  ultimately show ?thesis by simp
next
  case False
  with at show ?thesis by (auto simp: sendMsg_def gets_def session_at_def case_prod_unfold)
qed

text \<open>
  C29. A message to a client is sent whole or not at all, and in order: when the session is
  alive, the payload fits and the budgets allow it, the bytes given to the socket followed by
  those still buffered are the old buffer followed by exactly this frame, the result says
  whether the session lives on, and the server is done, waits for the socket or gives up;
  otherwise neither the socket nor the buffer sees a byte of it.
\<close>

theorem sendMsg_whole_frames:
  fixes s fd t body
  defines "r \<equiv> run_state (sendMsg fd t body) s"
  assumes "map_of (sv_clients s) fd = Some c" "cs_tcpFd c = fd"
  shows "\<exists>c' ios. map_of (sv_clients (snd r)) fd = Some c' \<and> sv_io (snd r) = sv_io s @ ios \<and>
     (if frame_accepted c (sv_globalSendBytes s) (lm_maxSendBufferBytes (sv_limits s)) body
      then stream_to fd ios @ cs_sendBuf c' = cs_sendBuf c @ tcpHeader t (length body) @ body \<and>
           fst r = cs_alive c' \<and> flush_end fd c' ios
      else \<not> fst r \<and> ios = [] \<and> cs_sendBuf c' = cs_sendBuf c)"
proof (cases "frame_accepted c (sv_globalSendBytes s) (lm_maxSendBufferBytes (sv_limits s)) body")
  case True
  then show ?thesis using sendMsg_accepted [OF _ assms(3) True, of t] assms(2) by (simp add: session_at_def r_def)
next
  case False
  then show ?thesis using sendMsg_refused [OF _ False, of fd t] assms(2) by (simp add: session_at_def r_def)
qed

theorem sendMsg_whole_frames_witness:
  "\<exists>c' ios. map_of (sv_clients (snd (run_state (sendMsg 7 5 [1, 2])
        (newSignalServer\<lparr>sv_clients := [(7, newClientSession\<lparr>cs_tcpFd := 7, cs_alive := True\<rparr>)], sv_sends := [Sent 4, WouldBlock]\<rparr>)))) 7 = Some c' \<and>
     stream_to 7 ios @ cs_sendBuf c' = [5, 0, 2, 1, 2]"
proof -
  let ?c = "newClientSession\<lparr>cs_tcpFd := 7, cs_alive := True\<rparr>"
  let ?s = "newSignalServer\<lparr>sv_clients := [(7, ?c)], sv_sends := [Sent 4, WouldBlock]\<rparr>"
  have "frame_accepted ?c (sv_globalSendBytes ?s) (lm_maxSendBufferBytes (sv_limits ?s)) [1, 2]"
    "cs_sendBuf ?c = []" "tcpHeader 5 (length [1, 2 :: u8]) = [5, 0, 2]"
    by (simp_all add: frame_accepted_def overBudget_def newSignalServer_def newServerLimits_def newClientSession_def tcpHeader_def Let_def)
  with sendMsg_whole_frames [of ?s 7 ?c 5 "[1, 2]"] show ?thesis by auto
qed

end
