(* ===== verification/Server_Requests.thy ===== *)
theory Server_Requests
  imports Server_Payloads
begin

text \<open>
  The validator in front of the handlers (\<^verbatim>\<open>validateClientSignalPayload\<close>) and the parsers inside
  them (\<^verbatim>\<open>onLogin\<close>, \<^verbatim>\<open>onCreateRoom\<close>, \<^verbatim>\<open>onResumeRoom\<close>, \<^verbatim>\<open>onTcpRelayData\<close>) agree: a payload
  that passes the first is read by the second without an exception.
\<close>

lemma read_string_start:
  assumes "d = string_enc name @ r" "length name < 65536"
  obtains b where "readString \<lparr>bb_data = d, bb_readPos = 0\<rparr> = Some (name, b)" "unread b = r"
proof
  have "unread \<lparr>bb_data = d, bb_readPos = 0\<rparr> = string_enc name @ r" by (simp add: unread_def assms(1))
  from strc.get_enc [OF assms(2) this] show "readString \<lparr>bb_data = d, bb_readPos = 0\<rparr> = Some (name, advance (length (string_enc name)) \<lparr>bb_data = d, bb_readPos = 0\<rparr>)" .
  show "unread (advance (length (string_enc name)) \<lparr>bb_data = d, bb_readPos = 0\<rparr>) = r"
    by (simp add: unread_def advance_def assms(1))
qed

lemma read_steps:
  "unread b = [v] @ r \<Longrightarrow> readU8 b = Some (v, advance 1 b)"
  "unread b = be16 w @ r \<Longrightarrow> readU16 b = Some (w, advance 2 b)"
  "unread b = be32 x @ r \<Longrightarrow> readU32 b = Some (x, advance 4 b)"
  "unread b = t @ r \<Longrightarrow> length t = n \<Longrightarrow> readBytes n b = Some (t, advance n b)"
  using u8c.get_enc [where x = v] u16c.get_enc [where x = w] u32c.get_enc [where x = x] rawc.get_enc [where x = t] by auto

lemma unread_skip: "unread (advance m b) = t @ r \<Longrightarrow> unread (advance (m + length t) b) = r"
  by (metis advance_advance append_eq_conv_conj unread_advance)

lemma drop_advance_Suc: "unread (advance m b) = v # r \<Longrightarrow> unread (advance (Suc m) b) = r"
  using unread_skip [of m b "[v]" r] by simp

lemma player_name_short: "isValidPlayerName name \<Longrightarrow> length name < 65536"
  by (simp add: isValidPlayerName_def)

lemma parseLogin_valid:
  assumes "login_msg d"
  shows "\<exists>req. parseLogin d = Some req \<and> isValidPlayerName (lr_name req) \<and> (lr_hasResume req \<longrightarrow> lr_roomId req \<noteq> 0 \<and> lr_peerId req \<noteq> 0)"
proof -
  from assms obtain name port tail where d: "d = string_enc name @ be16 port @ tail" and n: "isValidPlayerName name"
      and t: "tail = [0] \<or> (\<exists>roomId peerId token. roomId \<noteq> 0 \<and> peerId \<noteq> 0 \<and> length token = RECONNECT_TOKEN_SIZE \<and>
        tail = [1] @ be32 roomId @ be32 peerId @ token)"
    unfolding login_msg_def by blast
  obtain b where b: "readString \<lparr>bb_data = d, bb_readPos = 0\<rparr> = Some (name, b)" "unread b = be16 port @ tail"
    using read_string_start [OF d player_name_short [OF n]] by blast
  have u: "readU16 b = Some (port, advance 2 b)" "unread (advance 2 b) = tail" using b(2) read_steps(2) by simp_all
  from t show ?thesis
  proof (elim disjE exE conjE)
    assume z: "tail = [0]"
    then have "readU8 (advance 2 b) = Some (0, advance 3 b)" "unread (advance 3 b) = []"
      using u(2) read_steps(1) [of "advance 2 b" 0 "[]"] b(2) by (simp_all add: numeral_3_eq_3)
    with b u n show ?thesis by (simp add: parseLogin_def atEnd_unread)
  next
    fix room peer token assume r: "room \<noteq> 0" "peer \<noteq> 0" "length token = RECONNECT_TOKEN_SIZE" "tail = [1] @ be32 room @ be32 peer @ token"
    have 1: "readU8 (advance 2 b) = Some (1, advance 3 b)" using u(2) r(4) read_steps(1) [of "advance 2 b" 1] by (simp add: numeral_3_eq_3)
    have ub: "unread b = be16 port @ [1] @ be32 room @ be32 peer @ token" using b(2) r(4) by simp
    have 2: "readU32 (advance 3 b) = Some (room, advance 7 b)" using ub read_steps(3) [of "advance 3 b" room] by simp
    have 3: "readU32 (advance 7 b) = Some (peer, advance 11 b)" using ub read_steps(3) [of "advance 7 b" peer] by simp
    have 4: "readBytes RECONNECT_TOKEN_SIZE (advance 11 b) = Some (token, advance 43 b)"
      using ub r(3) read_steps(4) [of "advance 11 b" token "[]"] by simp
    have "unread (advance 43 b) = []" using ub r(3) by simp
    with b u n r 1 2 3 4 show ?thesis by (simp add: parseLogin_def atEnd_unread)
  qed
qed

lemma policy_values:
  "policy_wf p \<Longrightarrow> isValidTransportModeValue (TransportMode_val (tp_transportMode p)) \<and>
     isValidFecModeValue (FecMode_val (tp_fecMode p)) \<and> isValidKcpProfileValue (KcpProfile_val (tp_kcpProfile p)) \<and>
     \<not> (TransportMode_val (tp_transportMode p) = TransportMode_val MODE_RELAY_TCP \<and> FecMode_val (tp_fecMode p) \<noteq> FecMode_val FEC_NONE)"
  using policy_bytes_iff [of "TransportMode_val (tp_transportMode p)" "FecMode_val (tp_fecMode p)" "KcpProfile_val (tp_kcpProfile p)"]
  by (auto simp: policy_enc_def)

lemma read_policy_bytes:
  assumes "unread b = policy_enc p @ r"
  shows "readU8 b = Some (TransportMode_val (tp_transportMode p), advance 1 b)"
    "readU8 (advance 1 b) = Some (FecMode_val (tp_fecMode p), advance 2 b)"
    "readU8 (advance 2 b) = Some (KcpProfile_val (tp_kcpProfile p), advance 3 b)" "unread (advance 3 b) = r"
  using assms by (simp_all add: readU8_unread policy_enc_def numeral_2_eq_2 numeral_3_eq_3)

definition create_request :: "bytes \<Rightarrow> u8 \<Rightarrow> RoomTrafficPolicy \<Rightarrow> RoomTrafficPolicy \<Rightarrow> (bytes \<times> bytes) option \<Rightarrow> u16 \<Rightarrow> CreateRequest" where
  "create_request name mp tcp udp pw mtu = \<lparr>cq_name = name, cq_maxPlayers = mp, cq_tcpPolicy = tcp, cq_udpPolicy = udp,
     cq_passwordProtected = (if pw = None then 0 else 1),
     cq_salt = (case pw of Some (salt, _) \<Rightarrow> salt | None \<Rightarrow> replicate AUTH_SALT_SIZE 0),
     cq_hash = (case pw of Some (_, hash) \<Rightarrow> hash | None \<Rightarrow> replicate 32 0), cq_mtu = mtu\<rparr>"

lemma parseCreateRoom_enc:
  assumes d: "d = string_enc name @ [mp] @ policy_enc tcp @ policy_enc udp @
         (case pw of None \<Rightarrow> [0] | Some (salt, hash) \<Rightarrow> [1] @ salt @ hash) @ be16 mtu"
    and v: "isValidRoomName name" "2 \<le> unat mp" "unat mp \<le> MAX_PLAYERS" "policy_wf tcp" "policy_wf udp"
      "isValidRoomMtuValue (uint mtu)" "\<And>salt hash. pw = Some (salt, hash) \<Longrightarrow> length salt = AUTH_SALT_SIZE \<and> length hash = 32"
  shows "parseCreateRoom d = Some (Inr (create_request name mp tcp udp pw mtu))"
proof -
  let ?pw = "case pw of None \<Rightarrow> [0] | Some (salt, hash) \<Rightarrow> [1] @ salt @ hash"
  have "length name < 65536" using v(1) by (simp add: isValidRoomName_def)
  then obtain b where b: "readString \<lparr>bb_data = d, bb_readPos = 0\<rparr> = Some (name, b)"
      "unread b = [mp] @ policy_enc tcp @ policy_enc udp @ ?pw @ be16 mtu"
    using read_string_start [OF d] by blast
  have 1: "readU8 b = Some (mp, advance 1 b)" "unread (advance 1 b) = policy_enc tcp @ policy_enc udp @ ?pw @ be16 mtu"
    using b(2) read_steps(1) by simp_all
  note p = read_policy_bytes [OF 1(2)]
  have "unread (advance 4 b) = policy_enc udp @ ?pw @ be16 mtu" using p(4) by simp
  note q = read_policy_bytes [OF this]
  have rem: "\<not> remaining (advance 1 b) < 6" using 1(2) by (simp add: remaining_unread policy_enc_def)
  have last: "unread (advance 7 b) = ?pw @ be16 mtu" using q(4) by simp
  have mp: "\<not> (mp < 2 \<or> mp > of_nat MAX_PLAYERS)" using v(2,3) by (simp add: word_less_nat_alt)
  have tail: "do {
           (passwordProtected, bb) \<leftarrow> readU8 (advance 7 b);
           (pwdSalt, pwdHash, bb) \<leftarrow>
             (if passwordProtected \<noteq> 0 then do {
                (pwdSalt, bb) \<leftarrow> readBytes AUTH_SALT_SIZE bb;
                (pwdHash, bb) \<leftarrow> readBytes 32 bb;
                Some (pwdSalt, pwdHash, bb)
              }
              else Some (replicate AUTH_SALT_SIZE 0, replicate 32 0, bb));
           (roomMtu, bb) \<leftarrow> readU16 bb;
           if \<not> isValidRoomMtuValue (uint roomMtu) then Some (Inl None)
           else Some (Inr \<lparr>cq_name = name, cq_maxPlayers = mp, 
             cq_tcpPolicy = normalizeTrafficPolicy (TransportMode_val (tp_transportMode tcp)) (FecMode_val (tp_fecMode tcp))
               (KcpProfile_val (tp_kcpProfile tcp)) makeDefaultTcpPolicy,
             cq_udpPolicy = normalizeTrafficPolicy (TransportMode_val (tp_transportMode udp)) (FecMode_val (tp_fecMode udp))
               (KcpProfile_val (tp_kcpProfile udp)) makeDefaultUdpPolicy,
             cq_passwordProtected = passwordProtected, cq_salt = pwdSalt, cq_hash = pwdHash, cq_mtu = roomMtu\<rparr>)
         } = Some (Inr (create_request name mp tcp udp pw mtu) :: string option + CreateRequest)"
  proof (cases pw)
    case None
    then have "readU8 (advance 7 b) = Some (0, advance 8 b)" "unread (advance 8 b) = be16 mtu @ []"
      using last read_steps(1) [of "advance 7 b" 0] drop_advance_Suc [of 7 b] by simp_all
    with read_steps(2) [of "advance 8 b" mtu "[]"] None v(6) show ?thesis by (simp add: create_request_def normalizeTrafficPolicy_val v(4,5))
  next
    case (Some sh)
    obtain salt hash where sh: "sh = (salt, hash)" by fastforce
    have l: "length salt = AUTH_SALT_SIZE" "length hash = 32" using v(7) Some sh by auto
    have 8: "readU8 (advance 7 b) = Some (1, advance 8 b)" "unread (advance 8 b) = salt @ hash @ be16 mtu"
      using last Some sh read_steps(1) [of "advance 7 b" 1] drop_advance_Suc [of 7 b] by simp_all
    have 9: "readBytes AUTH_SALT_SIZE (advance 8 b) = Some (salt, advance 24 b)" "unread (advance 24 b) = hash @ be16 mtu"
      using read_steps(4) [OF 8(2) l(1)] unread_skip [OF 8(2)] l(1) by simp_all
    have 10: "readBytes 32 (advance 24 b) = Some (hash, advance 56 b)" "unread (advance 56 b) = be16 mtu @ []"
      using read_steps(4) [OF 9(2) l(2)] unread_skip [OF 9(2)] l(2) by simp_all
    from 8 9 10 read_steps(2) [OF 10(2)] Some sh v(6) show ?thesis by (simp add: create_request_def normalizeTrafficPolicy_val v(4,5))
  qed
  show ?thesis
    unfolding parseCreateRoom_def
    using b(1) 1(1) p(1-3) q(1-3) rem mp v(1) tail policy_values [OF v(4)] policy_values [OF v(5)]
    by simp
qed

definition request_ok :: "CreateRequest \<Rightarrow> bool" where
  "request_ok req \<longleftrightarrow> isValidRoomName (cq_name req) \<and> 2 \<le> unat (cq_maxPlayers req) \<and> unat (cq_maxPlayers req) \<le> MAX_PLAYERS \<and>
     policy_wf (cq_tcpPolicy req) \<and> policy_wf (cq_udpPolicy req) \<and> cq_passwordProtected req \<le> 1 \<and> isValidRoomMtuValue (uint (cq_mtu req))"

lemma parseCreateRoom_valid: "create_room_msg d \<Longrightarrow> \<exists>req. parseCreateRoom d = Some (Inr req) \<and> request_ok req"
  unfolding create_room_msg_def
proof (elim exE conjE)
  fix name mp tcp udp pw mtu
  assume d: "d = string_enc name @ [mp] @ policy_enc tcp @ policy_enc udp @
         (case pw of None \<Rightarrow> [0] | Some (salt, hash) \<Rightarrow> [1] @ salt @ hash) @ be16 mtu"
    and v: "isValidRoomName name" "2 \<le> unat mp" "unat mp \<le> MAX_PLAYERS" "policy_wf tcp" "policy_wf udp"
      "\<forall>salt hash. pw = Some (salt, hash) \<longrightarrow> length salt = AUTH_SALT_SIZE \<and> length hash = 32" "isValidRoomMtuValue (uint mtu)"
  have "parseCreateRoom d = Some (Inr (create_request name mp tcp udp pw mtu))"
    by (rule parseCreateRoom_enc [OF d]) (use v in auto)
  then show ?thesis using v by (simp add: request_ok_def create_request_def)
qed

lemma tokenIsZero_iff: "tokenIsZero t \<longleftrightarrow> \<not> hasNonzeroReconnectToken t"
  unfolding tokenIsZero_def hasNonzeroReconnectToken_def by simp

lemma parseResume_valid:
  assumes "resume_msg d"
  shows "\<exists>roomId peerId token. parseResume d = Some (roomId, peerId, token) \<and> roomId \<noteq> 0 \<and> peerId \<noteq> 0 \<and> \<not> tokenIsZero token"
proof -
  from assms obtain r p t where d: "d = be32 r @ be32 p @ t" and v: "r \<noteq> 0" "p \<noteq> 0" "length t = RECONNECT_TOKEN_SIZE" "\<exists>b \<in> set t. b \<noteq> 0"
    unfolding resume_msg_def by blast
  let ?b = "\<lparr>bb_data = d, bb_readPos = 0\<rparr>"
  have u: "unread ?b = be32 r @ be32 p @ t" by (simp add: unread_def d)
  have 1: "readU32 ?b = Some (r, advance 4 ?b)" "unread (advance 4 ?b) = be32 p @ t" using read_steps(3) [OF u] u by simp_all
  have 2: "readU32 (advance 4 ?b) = Some (p, advance 8 ?b)" "unread (advance 8 ?b) = t @ []" using read_steps(3) [OF 1(2)] u by simp_all
  have 3: "readBytes RECONNECT_TOKEN_SIZE (advance 8 ?b) = Some (t, advance 40 ?b)" using read_steps(4) [OF 2(2) v(3)] by simp
  have "\<not> tokenIsZero t" using v(3,4) by (simp add: tokenIsZero_iff hasNonzeroReconnectToken_iff)
  with 1 2 3 v show ?thesis by (simp add: parseResume_def)
qed

lemma parseRelay_long: "9 \<le> length d \<Longrightarrow> parseRelay d \<noteq> None"
  by (auto simp: parseRelay_def readU32_unread readU8_unread unread_def advance_def split: list.split)

text \<open>
  C31. A request that passes the validator is never refused by the handler's own parser: a
  login yields a valid player name, a create request a room that can be announced to the
  clients, a resume request identifiers and a token that are not zero, and relayed data its
  three header fields; so the error and exception branches of these parsers are never taken.
\<close>

theorem validated_requests_parse:
  "(validateClientSignalPayload MSG_LOGIN (Some d) (length d) \<longrightarrow>
      (\<exists>req. parseLogin d = Some req \<and> isValidPlayerName (lr_name req) \<and>
         (lr_hasResume req \<longrightarrow> lr_roomId req \<noteq> 0 \<and> lr_peerId req \<noteq> 0))) \<and>
   (validateClientSignalPayload MSG_CREATE_ROOM (Some d) (length d) \<longrightarrow>
      (\<exists>req. parseCreateRoom d = Some (Inr req) \<and> request_ok req)) \<and>
   (validateClientSignalPayload MSG_RESUME_ROOM (Some d) (length d) \<longrightarrow>
      (\<exists>roomId peerId token. parseResume d = Some (roomId, peerId, token) \<and> roomId \<noteq> 0 \<and> peerId \<noteq> 0 \<and> \<not> tokenIsZero token)) \<and>
   (validateClientSignalPayload MSG_TCP_RELAY_DATA (Some d) (length d) \<longrightarrow> parseRelay d \<noteq> None)"
proof -
  have "validateClientSignalPayload MSG_LOGIN (Some d) (length d) \<Longrightarrow> login_msg d"
    using parsesD [OF parses_login, of d] by (cases "d = []") (auto simp: validateClientSignalPayload_def)
  moreover have "validateClientSignalPayload MSG_CREATE_ROOM (Some d) (length d) \<Longrightarrow> create_room_msg d"
    using parsesD [OF parses_create, of d] by (cases "d = []") (auto simp: validateClientSignalPayload_def)
  moreover have "validateClientSignalPayload MSG_RESUME_ROOM (Some d) (length d) \<Longrightarrow> resume_msg d"
    using parsesD [OF parses_resume, of d] by (cases "d = []") (auto simp: validateClientSignalPayload_def split: if_splits)
  moreover have "validateClientSignalPayload MSG_TCP_RELAY_DATA (Some d) (length d) \<Longrightarrow> 9 \<le> length d"
    by (auto simp: validateClientSignalPayload_def split: if_splits)
  ultimately show ?thesis using parseLogin_valid parseCreateRoom_valid parseResume_valid parseRelay_long by blast
qed

theorem validated_requests_parse_witness:
  "\<exists>roomId peerId token. parseResume (be32 3 @ be32 7 @ replicate RECONNECT_TOKEN_SIZE 9) = Some (roomId, peerId, token) \<and> roomId \<noteq> 0"
proof -
  let ?d = "be32 3 @ be32 7 @ replicate RECONNECT_TOKEN_SIZE 9"
  have "resume_msg ?d"
    unfolding resume_msg_def by (rule exI [of _ 3], rule exI [of _ 7], rule exI [of _ "replicate RECONNECT_TOKEN_SIZE 9"]) simp
  then have "validateClientSignalPayload MSG_RESUME_ROOM (Some ?d) (length ?d)"
    using parsesD [OF parses_resume, of ?d] by (simp add: validateClientSignalPayload_def)
  then show ?thesis using validated_requests_parse [of ?d] by blast
qed

text \<open>A room created from a validated request can be announced, from its creation on.\<close>

lemma created_room_listing:
  assumes "request_ok req" "fst (allocateRoomId m) \<noteq> 0"
  shows "listing_ok (roomListStateOf (fst (createRoom (cq_name req) p (cq_maxPlayers req) (cq_tcpPolicy req) (cq_udpPolicy req)
     (cq_mtu req) (cq_passwordProtected req) (Some (cq_hash req)) (Some (cq_salt req)) m)))"
  using assms
  by (auto simp: request_ok_def listing_ok_def roomListStateOf_def createRoom_def Let_def case_prod_unfold newRoom_def word_le_nat_alt uint_normalizeRoomMtu split: option.split)

end
