(* ===== verification/Server_Tables.thy ===== *)
theory Server_Tables
  imports Server_Invariants
begin

text \<open>
  The rooms of the running server: the invariant of the room manager holds after every event,
  the number of rooms stays within its limit, and inside the expiry loop, which removes leases
  in place, it holds up to the host of the room being cleaned.
\<close>

section \<open>Predicates of the rooms alone\<close>

lemma rooms_only_modify:
  "(\<And>s. sv_rooms (f s) = sv_rooms s \<and> sv_limits (f s) = sv_limits s) \<Longrightarrow> keeps (\<lambda>s. P (sv_rooms s) (sv_limits s)) (modify f)"
  by (auto intro!: keepsI simp: modify_def)

lemma rooms_only_prims:
  "keeps (\<lambda>s. P (sv_rooms s) (sv_limits s)) (modC fd f)" "keeps (\<lambda>s. P (sv_rooms s) (sv_limits s)) (releaseBytes n)"
  "keeps (\<lambda>s. P (sv_rooms s) (sv_limits s)) (syscall e)" "keeps (\<lambda>s. P (sv_rooms s) (sv_limits s)) (modIp ip h)"
  "keeps (\<lambda>s. P (sv_rooms s) (sv_limits s)) (adjIp ip h)" "keeps (\<lambda>s. P (sv_rooms s) (sv_limits s)) (unbindDataFd d t)"
  unfolding modC_def releaseBytes_def syscall_def modIp_def adjIp_def unbindDataFd_def
  by (rule rooms_only_modify, simp)+

lemma rooms_only_ops:
  "keeps (\<lambda>s. P (sv_rooms s) (sv_limits s)) (appendSendBuffer fd ch xs ys)"
  "keeps (\<lambda>s. P (sv_rooms s) (sv_limits s)) (consumeSendBuffer fd ch n)"
  "keeps (\<lambda>s. P (sv_rooms s) (sv_limits s)) (clearSendBuffer fd ch)"
  "keeps (\<lambda>s. P (sv_rooms s) (sv_limits s)) (eraseSession fd)"
  "keeps (\<lambda>s. P (sv_rooms s) (sv_limits s)) (installClient fd ip buf)"
  unfolding appendSendBuffer_def consumeSendBuffer_def clearSendBuffer_def eraseSession_def installClient_def
    releaseClientIp_def epollDel_def close_fd_def
  by ((intro keeping rooms_only_prims rooms_only_modify; simp)+)

interpretation rooms_frame: send_invariant "\<lambda>s. P (sv_rooms s) (sv_limits s)" for P
proof
  show "keeps (\<lambda>s. P (sv_rooms s) (sv_limits s)) (closeDataChannel fd)" for fd
    unfolding closeDataChannel_def epollDel_def close_fd_def by (intro keeping rooms_only_prims rooms_only_ops)
qed (simp_all add: rooms_only_ops rooms_only_prims keepsI findClientOwnerByPeerId_def findClientOwnerBySecureSessionId_def
      findClientOwnerByDataFd_def split: option.split)

lemma rooms_only_release: "keeps (\<lambda>s. P (sv_rooms s) (sv_limits s)) (releasePeerId p)"
  unfolding releasePeerId_def by (intro keeping rooms_frame.send_prims rooms_only_modify) simp

section \<open>The invariant\<close>

definition rooms_within :: "RoomManager \<Rightarrow> ServerLimits \<Rightarrow> bool" where
  "rooms_within m l \<longleftrightarrow> managerSize m \<le> lm_maxRooms l \<and> lm_maxRooms l \<le> 2 ^ 32 - 2"

definition server_rooms_inv :: "SignalServer \<Rightarrow> bool" where
  "server_rooms_inv s \<longleftrightarrow> mgr_inv (sv_rooms s) \<and> rooms_within (sv_rooms s) (sv_limits s)"

definition mgr_except :: "u32 \<Rightarrow> RoomManager \<Rightarrow> bool" where
  "mgr_except r m \<longleftrightarrow> om_ok (mg_rooms m) \<and>
     (\<forall>i rm. getRoom i m = Some rm \<longrightarrow> rm_id rm = i \<and> room_core rm \<and> (i \<noteq> r \<longrightarrow> room_inv rm)) \<and>
     pool_inv (fst ` set (mg_rooms m)) (mg_freeRoomIds m) (mg_nextRoomId m)"

definition inv_except :: "u32 \<Rightarrow> SignalServer \<Rightarrow> bool" where
  "inv_except r s \<longleftrightarrow> mgr_except r (sv_rooms s) \<and> rooms_within (sv_rooms s) (sv_limits s)"

lemma mgr_inv_alt:
  "mgr_inv m \<longleftrightarrow> om_ok (mg_rooms m) \<and> (\<forall>i rm. getRoom i m = Some rm \<longrightarrow> rm_id rm = i \<and> room_inv rm) \<and>
     pool_inv (fst ` set (mg_rooms m)) (mg_freeRoomIds m) (mg_nextRoomId m)"
proof (cases "om_ok (mg_rooms m)")
  case True
  have "(\<forall>(i, rm) \<in> set (mg_rooms m). Q i rm) \<longleftrightarrow> (\<forall>i rm. getRoom i m = Some rm \<longrightarrow> Q i rm)" for Q
    unfolding getRoom_def om_in_set_iff [OF True, symmetric] by blast
  then show ?thesis by (simp add: mgr_inv_def rooms_inv_def)
qed (simp add: mgr_inv_def rooms_inv_def)

lemma mgr_inv_except: "mgr_inv m \<Longrightarrow> mgr_except r m"
  by (auto simp: mgr_inv_alt mgr_except_def room_inv_core)

lemma keys_adj: "fst ` set (om_adj k f m) = fst ` set m"
  by (metis list.set_map om_keys_adj)

lemma getRoom_upd: "getRoom j (updRoom r f m) = (if j = r then map_option f (getRoom r m) else getRoom j m)"
  by (simp add: getRoom_def updRoom_def)

lemma updRoom_parts:
  "mg_rooms (updRoom r f m) = om_adj r f (mg_rooms m)" "mg_freeRoomIds (updRoom r f m) = mg_freeRoomIds m"
  "mg_nextRoomId (updRoom r f m) = mg_nextRoomId m"
  by (simp_all add: updRoom_def)

lemma mgr_except_upd:
  assumes "mgr_except r m" "\<And>rm. getRoom r m = Some rm \<Longrightarrow> room_core rm \<Longrightarrow> room_core (f rm) \<and> rm_id (f rm) = rm_id rm"
  shows "mgr_except r (updRoom r f m)"
  using assms by (auto simp: mgr_except_def getRoom_upd updRoom_parts keys_adj split: if_splits)

lemma ensureHost_restores:
  assumes "mgr_except r m"
  shows "mgr_inv (updRoom r ensureHost m)"
  using assms room_inv_ensureHost
  by (auto simp: mgr_except_def mgr_inv_alt getRoom_upd updRoom_parts keys_adj split: if_splits)

lemma room_core_drop:
  assumes "room_core rm"
  shows "room_core (rm\<lparr>rm_leases := take i (rm_leases rm) @ drop (Suc i) (rm_leases rm)\<rparr>)"
proof (cases "i < length (rm_leases rm)")
  case True
  define xs where "xs = take i (rm_leases rm)"
  define ys where "ys = drop (Suc i) (rm_leases rm)"
  have "rm_leases rm = xs @ (rm_leases rm ! i) # ys" using True by (simp add: xs_def ys_def id_take_nth_drop)
  then obtain l where l: "rm_leases rm = xs @ l # ys" by blast
  show ?thesis using assms unfolding xs_def [symmetric] ys_def [symmetric] by (auto simp: room_core_def peerIds_def l)
qed (use assms in simp)

lemma room_core_update:
  assumes "room_core rm" "ls_peerId l = ls_peerId (rm_leases rm ! i)" "ls_virtualIP l = ls_virtualIP (rm_leases rm ! i)"
  shows "room_core (rm\<lparr>rm_leases := (rm_leases rm)[i := l]\<rparr>)"
proof (rule room_core_cong [OF assms(1)])
  show "map ls_peerId (rm_leases (rm\<lparr>rm_leases := (rm_leases rm)[i := l]\<rparr>)) = map ls_peerId (rm_leases rm)"
    using assms(2) by (simp add: map_update) (metis list_update_beyond list_update_id nth_map not_le_imp_less length_map)
  show "map ls_virtualIP (rm_leases (rm\<lparr>rm_leases := (rm_leases rm)[i := l]\<rparr>)) = map ls_virtualIP (rm_leases rm)"
    using assms(3) by (simp add: map_update) (metis list_update_beyond list_update_id nth_map not_le_imp_less length_map)
qed simp

lemma refreshLease_same:
  "refreshLease now live l = (ch, l') \<Longrightarrow> ls_peerId l' = ls_peerId l \<and> ls_virtualIP l' = ls_virtualIP l"
  by (auto simp: refreshLease_def split: if_splits)

section \<open>The expiry loop\<close>

lemma modLease_triple:
  assumes "refreshLease now live (rm_leases rm ! i) = (ch, l)"
  shows "triple (\<lambda>s. inv_except r s \<and> getRoom r (sv_rooms s) = Some rm) (if ch then modLease r i (\<lambda>_. l) else skip) (\<lambda>_. inv_except r)"
proof (rule tripleI, elim conjE)
  fix s assume s: "inv_except r s" "getRoom r (sv_rooms s) = Some rm"
  have "mgr_except r (updRoom r (\<lambda>rm. rm\<lparr>rm_leases := (rm_leases rm)[i := l]\<rparr>) (sv_rooms s))"
    using s refreshLease_same [OF assms] by (intro mgr_except_upd) (auto simp: inv_except_def intro: room_core_update)
  with s show "inv_except r (snd (run_state (if ch then modLease r i (\<lambda>_. l) else skip) s))"
    by (simp add: modLease_def monad_defs inv_except_def rooms_within_def)
qed

lemma dropLease_except: "keeps (inv_except r) (dropLease r i)"
  by (auto intro!: keepsI mgr_except_upd
      simp: dropLease_def monad_defs inv_except_def rooms_within_def room_core_drop)

lemma frame_except: "keeps (\<lambda>s. inv_except r s \<and> getRoom r (sv_rooms s) = x) m \<Longrightarrow> triple (\<lambda>s. inv_except r s \<and> getRoom r (sv_rooms s) = x) m
   (\<lambda>_ s. inv_except r s \<and> getRoom r (sv_rooms s) = x)"
  by (rule keeps_triple)

lemmas except_frame = rooms_frame.find_peer_keeps [where P = "\<lambda>m l. mgr_except r m \<and> rooms_within m l" for r, folded inv_except_def]
  rooms_frame.broadcast_keeps [where P = "\<lambda>m l. mgr_except r m \<and> rooms_within m l" for r, folded inv_except_def]
  rooms_only_release [where P = "\<lambda>m l. mgr_except r m \<and> rooms_within m l" for r, folded inv_except_def]

lemmas known_frame = rooms_frame.find_peer_keeps [where P = "\<lambda>m l. (mgr_except r m \<and> rooms_within m l) \<and> getRoom r m = Some rm" for r rm,
  folded inv_except_def]

lemma expire_loop_except: "keeps (inv_except r) (expireLeases_loop n C now r i ch)"
proof (induction n arbitrary: i ch)
  case (Suc n)
  have live: "keeps (\<lambda>s. inv_except r s \<and> getRoom r (sv_rooms s) = Some rm)
      (case live of None \<Rightarrow> ret False | Some fd \<Rightarrow> do { lc \<leftarrow> getC fd; ret (cs_roomId lc = rm_id rm \<and> cs_state lc = InRoom) })" for live rm
    by (intro keeping)
  have tail: "keeps (inv_except r)
      (if b then do {
          broadcastToRoom C (rm_id rm) MSG_PEER_LEFT body p;
          dropLease r i;
          live \<leftarrow> findClientByPeerId p;
          (if live = None then releasePeerId p else skip);
          expireLeases_loop n C now r i True }
       else expireLeases_loop n C now r (Suc i) c)" for b rm body p i c
    by (intro keeping except_frame dropLease_except Suc.IH)
  show ?case
    unfolding expireLeases_loop.simps
    apply (rule keeps_gets_bind)
    apply (split option.split, intro conjI impI allI)
     apply (rule keeps_weak, rule keeps_return)
    apply (rule triple_if)
     apply (rule keeps_weak, rule keeps_return)
    apply (unfold Let_def)
    apply (hypsubst)
    apply (rule triple_bind [OF keeps_triple [OF known_frame]])
    apply (rule triple_bind [OF keeps_triple [OF live]])
    apply (split prod.split, intro allI impI)
    apply (rule triple_seq [OF modLease_triple], assumption)
    apply (rule keeps_triple [OF tail])
    done
qed (simp add: keeping)

lemma expireRooms_inv: "keeps server_rooms_inv (expireRooms rooms C now ch em)"
proof (induction rooms arbitrary: ch em)
  case (Cons r rooms)
  have loop: "triple server_rooms_inv (expireLeases_loop n C now r 0 ch) (\<lambda>_. inv_except r)" for n
    using keeps_triple [OF expire_loop_except] by (rule triple_pre) (simp add: server_rooms_inv_def inv_except_def mgr_inv_except)
  have host: "triple (inv_except r) (modRooms (updRoom r ensureHost)) (\<lambda>_. server_rooms_inv)"
    by (rule tripleI) (simp add: monad_defs inv_except_def server_rooms_inv_def ensureHost_restores rooms_within_def)
  show ?case
    unfolding expireRooms.simps keeps_def
    by (rule triple_bind [OF keeps_triple [OF keeps_gets]], rule triple_bind [OF loop], rule triple_bind [OF host],
        rule keeps_triple, intro keeping Cons.IH)
qed (simp add: keeping)

section \<open>Every event keeps the rooms\<close>

lemma serverCreateRoom_inv:
  assumes "unat (cq_maxPlayers req) \<le> MAX_PLAYERS"
  shows "triple (\<lambda>s. server_rooms_inv s \<and> managerSize (sv_rooms s) < lm_maxRooms (sv_limits s)) (serverCreateRoom p req)
     (\<lambda>_. server_rooms_inv)"
proof (rule tripleI, elim conjE)
  fix s assume s: "server_rooms_inv s" "managerSize (sv_rooms s) < lm_maxRooms (sv_limits s)"
  let ?c = "createRoom (cq_name req) p (cq_maxPlayers req) (cq_tcpPolicy req) (cq_udpPolicy req) (cq_mtu req)
            (cq_passwordProtected req) (Some (cq_hash req)) (Some (cq_salt req)) (sv_rooms s)"
  have "length (mg_rooms (sv_rooms s)) < 2 ^ 32 - 2"
    using s by (simp add: server_rooms_inv_def rooms_within_def managerSize_def)
  then have "mgr_inv (snd ?c)" using createRoom_inv [OF _ _ assms] s(1) by (simp add: server_rooms_inv_def)
  moreover have "managerSize (snd ?c) \<le> Suc (managerSize (sv_rooms s))"
    using s(1) by (simp add: managerSize_def createRoom_effect length_om_upd server_rooms_inv_def mgr_inv_alt)
  moreover have "snd (run_state (serverCreateRoom p req) s) = s\<lparr>sv_rooms := snd ?c\<rparr>"
    by (simp add: serverCreateRoom_def split: prod.split)
  ultimately show "server_rooms_inv (snd (run_state (serverCreateRoom p req) s))"
    using s by (simp add: server_rooms_inv_def rooms_within_def)
qed

lemmas inv_frame = rooms_only_prims [where P = "\<lambda>m l. mgr_inv m \<and> rooms_within m l", folded server_rooms_inv_def]
  rooms_only_ops [where P = "\<lambda>m l. mgr_inv m \<and> rooms_within m l", folded server_rooms_inv_def]

interpretation rooms_base: server_base server_rooms_inv
proof
  show "keeps server_rooms_inv (modRooms g)" if "rooms_change g" for g
    using that by (fastforce intro!: keepsI simp: monad_defs server_rooms_inv_def rooms_change_def rooms_within_def)
  show "triple (\<lambda>s. server_rooms_inv s \<and> length (sv_clients s) < lm_maxClients (sv_limits s)) (installClient fd ip buf) (\<lambda>_. server_rooms_inv)"
    for fd ip buf by (rule keeps_weak) (rule inv_frame)
qed (rule serverCreateRoom_inv inv_frame | assumption | simp add: server_rooms_inv_def)+

interpretation rooms_srv: server_invariant server_rooms_inv
  by unfold_locales (rule expireRooms_inv)

lemma server_rooms_start: "lm_maxRooms (bt_limits b) \<le> 2 ^ 32 - 2 \<Longrightarrow> server_rooms_inv (startServer C b)"
  using mgr_inv_new by (simp add: server_rooms_inv_def rooms_within_def) (simp add: newRoomManager_def managerSize_def)

text \<open>
  C15. The rooms of a running server are consistent after every history of events: there are
  never more rooms than the limit, a room is stored under its own number, its members have
  distinct peer numbers and distinct addresses inside the subnet, there are no more members
  than it admits, and a room with members is hosted by one of them.
\<close>

theorem server_rooms_always:
  fixes C evs b
  defines "s \<equiv> server_run C evs (startServer C b)"
  assumes "lm_maxRooms (bt_limits b) \<le> 2 ^ 32 - 2"
  shows "managerSize (sv_rooms s) \<le> lm_maxRooms (bt_limits b) \<and>
     (\<forall>i r. getRoom i (sv_rooms s) = Some r \<longrightarrow> rm_id r = i \<and> i \<noteq> 0 \<and>
        distinct (peerIds r) \<and> distinct (map ls_virtualIP (rm_leases r)) \<and>
        (\<forall>ip \<in> set (map ls_virtualIP (rm_leases r)). 0x0A0A0002 \<le> unat ip \<and> unat ip \<le> 0x0A0A00FE) \<and>
        length (rm_leases r) \<le> unat (rm_maxPlayers r) \<and> (rm_leases r \<noteq> [] \<longrightarrow> hasLease (rm_hostPeerId r) r))"
proof -
  have "server_rooms_inv s" unfolding s_def by (rule rooms_srv.run_keeps [OF server_rooms_start [OF assms(2)]])
  moreover have "sv_limits s = bt_limits b" unfolding s_def by (rule limits.run_keeps) simp
  ultimately show ?thesis
    using mgr_inv_room by (simp add: server_rooms_inv_def rooms_within_def) blast
qed

theorem server_rooms_always_witness:
  "managerSize (sv_rooms (server_run demo_crypto demo_events (startServer demo_crypto demo_boot))) \<le> 128"
  using server_rooms_always [of demo_boot demo_crypto demo_events] by (simp add: demo_boot_def newServerLimits_def)

end
