(* ===== verification/Server_Leases.thy ===== *)
theory Server_Leases
  imports Server_Tables
begin

text \<open>
  Resumption depends on the lease still being there: the expiry sweep (\<^verbatim>\<open>cleanupExpiredLeases\<close>)
  never takes a seat away before its time, and never erases the room of such a seat.
\<close>

section \<open>Seats\<close>

definition lease_current :: "int \<Rightarrow> RoomLease \<Rightarrow> bool" where
  "lease_current now l \<longleftrightarrow> ls_online l \<or> ls_expiresAt l \<le> 0 \<or> now \<le> ls_expiresAt l"

definition same_seat :: "RoomLease \<Rightarrow> RoomLease \<Rightarrow> bool" where
  "same_seat a b \<longleftrightarrow> ls_peerId a = ls_peerId b \<and> ls_virtualIP a = ls_virtualIP b \<and> ls_name a = ls_name b \<and> ls_token a = ls_token b"

definition seated :: "int \<Rightarrow> RoomLease \<Rightarrow> Room \<Rightarrow> bool" where
  "seated now l0 rm \<longleftrightarrow> (\<exists>l \<in> set (rm_leases rm). same_seat l0 l \<and> lease_current now l)"

definition seat_in :: "int \<Rightarrow> u32 \<Rightarrow> RoomLease \<Rightarrow> RoomManager \<Rightarrow> bool" where
  "seat_in now r l0 m \<longleftrightarrow> (\<exists>rm. getRoom r m = Some rm \<and> seated now l0 rm)"

lemma refresh_current:
  assumes "refreshLease now live l = (ch, l')"
  shows "same_seat l0 l' = same_seat l0 l" "lease_current now l \<Longrightarrow> lease_current now l'" "\<not> ch \<Longrightarrow> l' = l"
  using assms by (auto simp: refreshLease_def same_seat_def lease_current_def split: if_splits)

lemma seated_update:
  assumes "seated now l0 rm" "refreshLease now live (rm_leases rm ! i) = (ch, l')" "i < length (rm_leases rm)"
  shows "seated now l0 (rm\<lparr>rm_leases := (rm_leases rm)[i := l']\<rparr>)"
proof -
  obtain j where j: "j < length (rm_leases rm)" "same_seat l0 (rm_leases rm ! j)" "lease_current now (rm_leases rm ! j)"
    using assms(1) by (auto simp: seated_def in_set_conv_nth)
  have "(rm_leases rm)[i := l'] ! j \<in> set ((rm_leases rm)[i := l'])" using j(1) by simp
  moreover have "same_seat l0 ((rm_leases rm)[i := l'] ! j) \<and> lease_current now ((rm_leases rm)[i := l'] ! j)"
    using j refresh_current [OF assms(2)] assms(3) by (cases "i = j") auto
  ultimately show ?thesis unfolding seated_def by auto
qed

lemma seated_drop:
  assumes "seated now l0 rm" "\<not> lease_current now (rm_leases rm ! i)" "i < length (rm_leases rm)"
  shows "seated now l0 (rm\<lparr>rm_leases := take i (rm_leases rm) @ drop (Suc i) (rm_leases rm)\<rparr>)"
proof -
  have "set (rm_leases rm) = set (take i (rm_leases rm)) \<union> {rm_leases rm ! i} \<union> set (drop (Suc i) (rm_leases rm))"
    using arg_cong [OF id_take_nth_drop [OF assms(3)], of set] by auto
  then show ?thesis using assms(1,2) unfolding seated_def by auto
qed

lemma seat_in_upd:
  "seat_in now r l0 m \<Longrightarrow> (\<And>rm. r = k \<Longrightarrow> getRoom k m = Some rm \<Longrightarrow> seated now l0 rm \<Longrightarrow> seated now l0 (f rm)) \<Longrightarrow>
   seat_in now r l0 (updRoom k f m)"
  by (auto simp: seat_in_def getRoom_upd)

lemma seated_host [simp]: "seated now l0 (ensureHost rm) = seated now l0 rm"
  by (simp add: seated_def ensureHost_def split: list.split option.split)

section \<open>The sweep\<close>

definition seat_inv :: "int \<Rightarrow> u32 \<Rightarrow> RoomLease \<Rightarrow> SignalServer \<Rightarrow> bool" where
  "seat_inv now r l0 s \<longleftrightarrow> seat_in now r l0 (sv_rooms s)"

definition seat_known :: "int \<Rightarrow> u32 \<Rightarrow> RoomLease \<Rightarrow> u32 \<Rightarrow> Room \<Rightarrow> SignalServer \<Rightarrow> bool" where
  "seat_known now r l0 k rm s \<longleftrightarrow> seat_in now r l0 (sv_rooms s) \<and> getRoom k (sv_rooms s) = Some rm"

lemmas seat_frame = rooms_frame.find_peer_keeps [where P = "\<lambda>m l. seat_in now r l0 m" for now r l0, folded seat_inv_def]
  rooms_frame.broadcast_keeps [where P = "\<lambda>m l. seat_in now r l0 m" for now r l0, folded seat_inv_def]
  rooms_only_release [where P = "\<lambda>m l. seat_in now r l0 m" for now r l0, folded seat_inv_def]

lemmas seat_known_frame =
  rooms_frame.find_peer_keeps [where P = "\<lambda>m l. seat_in now r l0 m \<and> getRoom k m = Some rm" for now r l0 k rm, folded seat_known_def]
  rooms_frame.broadcast_keeps [where P = "\<lambda>m l. seat_in now r l0 m \<and> getRoom k m = Some rm" for now r l0 k rm, folded seat_known_def]

lemma seat_modLease:
  assumes "refreshLease now live (rm_leases rm ! i) = (ch, l)" "i < length (rm_leases rm)"
  shows "triple (seat_known now r l0 k rm) (if ch then modLease k i (\<lambda>_. l) else skip)
    (\<lambda>_. seat_known now r l0 k (rm\<lparr>rm_leases := (rm_leases rm)[i := l]\<rparr>))"
proof (rule tripleI)
  fix s assume s: "seat_known now r l0 k rm s"
  have "seat_in now r l0 (updRoom k (\<lambda>rm. rm\<lparr>rm_leases := (rm_leases rm)[i := l]\<rparr>) (sv_rooms s))"
    using s seated_update assms by (intro seat_in_upd) (auto simp: seat_known_def)
  with s refresh_current(3) [OF assms(1)]
  show "seat_known now r l0 k (rm\<lparr>rm_leases := (rm_leases rm)[i := l]\<rparr>) (snd (run_state (if ch then modLease k i (\<lambda>_. l) else skip) s))"
    by (auto simp: modLease_def monad_defs seat_known_def getRoom_upd)
qed

lemma seat_dropLease:
  assumes "\<not> lease_current now (rm_leases rm ! i)" "i < length (rm_leases rm)"
  shows "triple (seat_known now r l0 k rm) (dropLease k i) (\<lambda>_. seat_inv now r l0)"
proof (rule tripleI)
  fix s assume s: "seat_known now r l0 k rm s"
  have "seat_in now r l0 (updRoom k (\<lambda>rm. rm\<lparr>rm_leases := take i (rm_leases rm) @ drop (Suc i) (rm_leases rm)\<rparr>) (sv_rooms s))"
    using s seated_drop assms by (intro seat_in_upd) (auto simp: seat_known_def)
  then show "seat_inv now r l0 (snd (run_state (dropLease k i) s))" by (simp add: dropLease_def monad_defs seat_inv_def)
qed

lemma seat_loop: "keeps (seat_inv now r l0) (expireLeases_loop n C now k i ch)"
proof (induction n arbitrary: i ch)
  case (Suc n)
  have live: "keeps (seat_known now r l0 k rm)
      (case live of None \<Rightarrow> ret False | Some fd \<Rightarrow> do { lc \<leftarrow> getC fd; ret (cs_roomId lc = rm_id rm \<and> cs_state lc = InRoom) })" for live rm
    by (intro keeping)
  have rest: "keeps (seat_inv now r l0) (do {
          live \<leftarrow> findClientByPeerId p;
          (if live = None then releasePeerId p else skip);
          expireLeases_loop n C now k i True })" for p i
    by (intro keeping seat_frame Suc.IH)
  have weak: "triple (seat_known now r l0 k rm) m (\<lambda>_. seat_inv now r l0)" if "keeps (seat_inv now r l0) m" for rm m
    using keeps_triple [OF that] by (rule triple_pre) (simp add: seat_known_def seat_inv_def)
  have tail: "triple (seat_known now r l0 k (rm\<lparr>rm_leases := (rm_leases rm)[i := l]\<rparr>))
      (if \<not> ls_online l \<and> ls_expiresAt l > 0 \<and> now > ls_expiresAt l then do {
          broadcastToRoom C (rm_id rm) MSG_PEER_LEFT body p;
          dropLease k i;
          live \<leftarrow> findClientByPeerId p;
          (if live = None then releasePeerId p else skip);
          expireLeases_loop n C now k i True }
       else expireLeases_loop n C now k (Suc i) c) (\<lambda>_. seat_inv now r l0)" if "i < length (rm_leases rm)" for rm body p i c l
    using that by (intro triple_if triple_seq [OF keeps_triple [OF seat_known_frame(2)]] triple_seq [OF seat_dropLease]
        keeps_triple [OF rest] weak Suc.IH) (auto simp: lease_current_def)
  show ?case
    unfolding expireLeases_loop.simps
    apply (rule keeps_gets_bind)
    apply (split option.split, intro conjI impI allI)
     apply (rule keeps_weak, rule keeps_return)
    apply (rule triple_if)
     apply (rule keeps_weak, rule keeps_return)
    apply (unfold Let_def)
    apply (hypsubst)
    apply (rule triple_pre [where P = "seat_known now r l0 k rm" for rm])
     apply (rule triple_bind [OF keeps_triple [OF seat_known_frame(1)]])
     apply (rule triple_bind [OF keeps_triple [OF live]])
     apply (split prod.split, intro allI impI)
     apply (rule triple_seq [OF seat_modLease], assumption, simp)
     apply (rule tail, simp)
    apply (simp add: seat_known_def seat_inv_def)
    done
qed (simp add: keeping)

lemma seat_expireRooms:
  "r \<notin> set em \<Longrightarrow> triple (seat_inv now r l0) (expireRooms rooms C now ch em) (\<lambda>x s. seat_inv now r l0 s \<and> r \<notin> set (snd x))"
proof (induction rooms arbitrary: ch em)
  case Nil
  then show ?case by (simp add: triple_def)
next
  case (Cons k rooms)
  have host: "keeps (seat_inv now r l0) (modRooms (updRoom k ensureHost))"
    by (rule keepsI) (auto simp: monad_defs seat_inv_def intro: seat_in_upd)
  have empty: "triple (seat_inv now r l0) (gets (\<lambda>s. case getRoom k (sv_rooms s) of Some r \<Rightarrow> rm_leases r = [] | None \<Rightarrow> False))
      (\<lambda>b s. seat_inv now r l0 s \<and> (b \<longrightarrow> k \<noteq> r))"
    by (auto simp: triple_def monad_defs seat_inv_def seat_in_def seated_def)
  have last: "triple (\<lambda>s. seat_inv now r l0 s \<and> (b \<longrightarrow> k \<noteq> r)) (expireRooms rooms C now c (if b then em @ [k] else em))
      (\<lambda>x s. seat_inv now r l0 s \<and> r \<notin> set (snd x))" for b c
  proof (cases "b \<longrightarrow> k \<noteq> r")
    case True
    then show ?thesis using Cons.prems by (intro triple_pre [OF Cons.IH]) auto
  next
    case False
    then show ?thesis by (simp add: triple_def)
  qed
  show ?case
    unfolding expireRooms.simps
    by (rule triple_bind [OF keeps_triple [OF keeps_gets]], rule triple_bind [OF keeps_triple [OF seat_loop]],
        rule triple_bind [OF keeps_triple [OF host]], rule triple_bind [OF empty], rule last)
qed

lemma seat_erase: "r \<notin> set em \<Longrightarrow> keeps (seat_inv now r l0) (forM em (\<lambda>k. modRooms (eraseRoom k)))"
proof (induction em)
  case (Cons k em)
  have "keeps (seat_inv now r l0) (modRooms (eraseRoom k))" using Cons.prems
    by (intro keepsI) (auto simp: monad_defs seat_inv_def seat_in_def eraseRoom_def getRoom_def Let_def)
  then show ?case using Cons by (simp add: keeping)
qed (simp add: keeping)

lemma seat_cleanup: "keeps (seat_inv now r l0) (cleanupExpiredLeases C now)"
proof -
  have rest: "triple (\<lambda>s. seat_inv now r l0 s \<and> r \<notin> set (snd x)) (case x of (changed, em) \<Rightarrow> do {
       forM em (\<lambda>roomId. modRooms (eraseRoom roomId));
       if changed \<or> em \<noteq> [] then broadcastRoomListPush C else skip })
      (\<lambda>_. seat_inv now r l0)" for x
  proof (cases "r \<in> set (snd x)")
    case False
    have "keeps (seat_inv now r l0) (case x of (changed, em) \<Rightarrow> do {
       forM em (\<lambda>roomId. modRooms (eraseRoom roomId));
       if changed \<or> em \<noteq> [] then broadcastRoomListPush C else skip })"
      using False
      by (cases x) (auto intro!: keeping seat_erase
          rooms_frame.push_keeps [where P = "\<lambda>m l. seat_in now r l0 m", folded seat_inv_def])
    then show ?thesis by (rule keeps_weak [THEN triple_pre]) simp
  qed (simp add: triple_def)
  show ?thesis unfolding cleanupExpiredLeases_def keeps_def
    by (rule triple_bind [OF keeps_triple [OF keeps_gets]], rule triple_bind [OF seat_expireRooms], simp, rule rest)
qed

text \<open>
  C28. Nobody loses a seat before its time: whatever else the expiry sweep does (marking other
  leases offline, removing expired ones, notifying, closing rooms left empty), a lease that is
  online, or has no expiry yet, or whose expiry has not passed, is still in its room afterwards,
  with its peer number, virtual address, name and resume token, and is again not yet due.
\<close>

theorem sweep_keeps_current_leases:
  assumes "getRoom r (sv_rooms s) = Some rm" "l \<in> set (rm_leases rm)"
    and "ls_online l \<or> ls_expiresAt l \<le> 0 \<or> now \<le> ls_expiresAt l"
  shows "\<exists>rm' l'. getRoom r (sv_rooms (snd (run_state (cleanupExpiredLeases C now) s))) = Some rm' \<and> l' \<in> set (rm_leases rm') \<and>
     ls_peerId l' = ls_peerId l \<and> ls_virtualIP l' = ls_virtualIP l \<and> ls_name l' = ls_name l \<and> ls_token l' = ls_token l \<and>
     (ls_online l' \<or> ls_expiresAt l' \<le> 0 \<or> now \<le> ls_expiresAt l')"
proof -
  have "seat_inv now r l s" using assms by (auto simp: seat_inv_def seat_in_def seated_def same_seat_def lease_current_def)
  from keepsD [OF seat_cleanup this, of C] obtain rm' l' where
    "getRoom r (sv_rooms (snd (run_state (cleanupExpiredLeases C now) s))) = Some rm'" "l' \<in> set (rm_leases rm')"
    "same_seat l l'" "lease_current now l'"
    by (auto simp: seat_inv_def seat_in_def seated_def)
  then show ?thesis unfolding same_seat_def lease_current_def by metis
qed

definition demo_seated :: SignalServer where
  "demo_seated = newSignalServer\<lparr>sv_rooms := newRoomManager\<lparr>mg_rooms := [(3, newRoom\<lparr>rm_id := 3, rm_leases :=
     [newRoomLease\<lparr>ls_peerId := 1, ls_expiresAt := 100\<rparr>, newRoomLease\<lparr>ls_peerId := 2, ls_expiresAt := 200\<rparr>]\<rparr>)]\<rparr>\<rparr>"

theorem sweep_keeps_current_leases_witness:
  "\<exists>rm' l'. getRoom 3 (sv_rooms (snd (run_state (cleanupExpiredLeases demo_crypto 150) demo_seated))) = Some rm' \<and>
     l' \<in> set (rm_leases rm') \<and> ls_peerId l' = 2"
  using sweep_keeps_current_leases [of 3 demo_seated _ "newRoomLease\<lparr>ls_peerId := 2, ls_expiresAt := 200\<rparr>" 150 demo_crypto]
  by (auto simp: demo_seated_def getRoom_def)

end
