(* ===== verification/Spec2Isabelle.thy ===== *)
theory Spec2Isabelle
  imports Overlay_Path Cli_RoomList Cli_Data Overlay Probe_Quality Room_Operation Kdf_Task Server_Buckets Server_Budget Server_Stream
    Server_Requests Server_Relay Server_Leases
begin

text \<open>
  \<^bold>\<open>VLan\<close> joins machines into virtual rooms: clients log in at a relay server, create or join a
  room, get a virtual address in it, and exchange overlay IPv4 packets through the server over
  TCP or UDP.  This library models the code the clients and the server share
  (\<^verbatim>\<open>src/common\<close>), the whole server (\<^verbatim>\<open>src/server/src\<close>) and the command line client
  (\<^verbatim>\<open>src/client-cli/src\<close>: signalling, data channel, tunnels, peers, data plane, and of the application
  what drives them), and proves what makes them correct.

  \<^bold>\<open>Conventions.\<close>  A struct or class is a record (the prefix of a field names the record: \<open>cs_\<close>
  session, \<open>ls_\<close> lease, \<open>rm_\<close> room, \<open>mg_\<close> room manager, \<open>sv_\<close> server, \<open>sc_\<close> cipher, \<open>ru_\<close> and
  \<open>ku_\<close> the tunnels, \<open>pc_\<close> peer, \<open>tm_\<close> tunnel manager, \<open>ca_\<close> application), an enum a
  datatype.  \<^verbatim>\<open>uint8_t\<close> to \<^verbatim>\<open>uint64_t\<close> are words of that width, \<^verbatim>\<open>size_t\<close> is \<open>nat\<close>, \<^verbatim>\<open>time_t\<close>
  and descriptors are \<open>int\<close>, byte vectors and \<^verbatim>\<open>std::string\<close> are lists of bytes, and \<^verbatim>\<open>std::map\<close>
  and \<^verbatim>\<open>std::set\<close> are association lists sorted by key (\<open>omap\<close> of \<open>Prelude_VLan\<close>), since the code
  iterates over them in that order.  A reference to a session is its key in \<^verbatim>\<open>m_clients\<close>, a
  pointer to a room its number; the tunnel manager of the client has a store of objects behind
  addresses, so that a pointer to a deleted object can be told from a good one.  A read past the end of a buffer, which throws in the code, is
  \<open>None\<close>.  Log text is left out; the sampling counters of the log are kept.

  \<^bold>\<open>Code that is not in the repository.\<close>  The primitives of Monocypher are the argument
  \<open>C :: crypto\<close> of every definition that uses them; the theorems that need a law of theirs name it
  (\<open>aead_correct\<close>: opening what was sealed under the same key, nonce and associated data
  gives the text back), and \<open>demo_crypto\<close> satisfies it.  The erasure code CM256 is the argument \<open>K :: cm256\<close>, KCP the
  argument \<open>A :: kcp_api\<close> with an opaque session (\<open>kcp_queue\<close> is its queue discipline); each law has
  a concrete instance in a witness.  The clock, the random generator and the
  results of \<^verbatim>\<open>send\<close> are scripts in the server's record, what the server does to sockets is
  appended to \<open>sv_io\<close>, and what arrives is the argument of the event, so the theorems hold for
  every behaviour of the system.

  \<^bold>\<open>The shared code.\<close>
  \<^item> \<open>Prelude_VLan\<close>: ordered maps, words and lists.
  \<^item> \<open>Protocol\<close> (\<^verbatim>\<open>protocol.h\<close>, \<^verbatim>\<open>net_common.h\<close>): message numbers, limits, policies and MTUs.
  \<^item> \<open>Byte_Buffer\<close> (\<^verbatim>\<open>byte_buffer.h\<close>, \<^verbatim>\<open>traffic_policy_codec.h\<close>, \<^verbatim>\<open>tcp_frame_probe.h\<close>): codecs
    with their round trips, and the framing of a byte stream (a frame is found exactly when it is
    complete).
  \<^item> \<open>Overlay\<close> (\<^verbatim>\<open>overlay_packet_validator.h\<close>): the packet filters accept exactly the intended
    packets, and what a sender lets out its receiver lets in.
  \<^item> \<open>Secure_Frame\<close> (\<^verbatim>\<open>secure_frame.h\<close>, \<^verbatim>\<open>payload_cipher.h\<close>): the circular bitmap of the replay
    window refines a set of accepted counters (\<open>decrypt_refines_window\<close>), so nothing is accepted
    twice, counters are never reused by the sender, and sealed frames are delivered.
  \<^item> \<open>Probe_Quality\<close> (\<^verbatim>\<open>probe_quality.h\<close>, \<^verbatim>\<open>relay_probe_watchdog.h\<close>), \<open>Room_Operation\<close>
    (\<^verbatim>\<open>room_operation.h\<close>), \<open>Kdf_Task\<close> (\<^verbatim>\<open>auth_kdf_task.h\<close>): state machines of the clients, with
    invariants over every history; the worker thread of the key derivation is interleaved with its
    caller at the granularity of the lock, and a request that is not cancelled is answered.
  \<^item> \<open>Signal_Validator\<close> and \<open>Signal_Language\<close> (\<^verbatim>\<open>signal_message_validator.h\<close>): the cursor and
    the validator of the server's messages, and the grammar of those messages; the validator
    accepts exactly the grammar.  \<open>Client_Validator\<close> does the same for the messages of the clients
    (\<^verbatim>\<open>client_message_validator.h\<close>) and the password file (\<^verbatim>\<open>auth_file.h\<close>).

  \<^bold>\<open>The server.\<close>
  \<^item> \<open>Room\<close>, \<open>Room_Invariants\<close> (\<^verbatim>\<open>room.h\<close>): session states, session indexes, leases, rooms and
    the room manager; its invariant over every sequence of operations.
  \<^item> \<open>Server_State\<close>, \<open>Server_Send\<close>, \<open>Server_Rooms\<close>, \<open>Server_Handlers\<close>, \<open>Server_Events\<close>
    (\<^verbatim>\<open>signal_server.h\<close>, \<^verbatim>\<open>signal_server.cpp\<close>, the start-up of \<^verbatim>\<open>main.cpp\<close>): the model of the server
    as a state monad, function by function: fields and limits, rate limits and indexes; send
    buffers, framing and encryption; room lists, leases and tearing down; the handler of every
    message and the dispatch to them; accept, receive, write, UDP and timeout events, start and
    stop.  \<open>server_run\<close> runs a history of events from \<open>startServer\<close>.
  \<^item> \<open>Server_Logic\<close>: triples and invariants of the monad, and the locale \<open>send_invariant\<close>: what an
    invariant must satisfy for all sending code to preserve it.  \<open>Server_Invariants\<close>: the locales
    \<open>server_base\<close> and \<open>server_invariant\<close> (what suffices for every event to preserve it); they are
    interpreted for the configured limits, the number of sessions, the send budget
    (\<open>Server_Budget\<close>) and the rooms (\<open>Server_Tables\<close>).
  \<^item> \<open>Server_Frame\<close>: the locales \<open>session_frame\<close> and \<open>handshake_frame\<close>: a handler that works on one
    session leaves everything else alone.  Hence an unauthenticated client is confined to its own
    session, and becomes authenticated only by the proof.  \<open>Server_Relay\<close> (locale \<open>relay_frame\<close>):
    data is relayed only within a room, over TCP and UDP.
  \<^item> \<open>Server_Leases\<close>: the expiry sweep takes no lease before its time.  \<open>Server_Buckets\<close>: the rate
    limits in every window of time.  \<open>Server_Stream\<close>: partial writes never break a frame.
  \<^item> \<open>Server_Payloads\<close>, \<open>Server_Requests\<close>: composition with the validators: what the server sends
    passes the clients' validator, pages and pushes describe the rooms exactly, and requests that
    pass the server's validator are parsed by their handlers.

  \<^bold>\<open>The command line client.\<close>
  \<^item> \<open>Bounded_Cache\<close>: the locale \<open>bounded_cache\<close> of a table that evicts its oldest entries, interpreted
    for the FEC decoder (\<open>Fec_Codec\<close>, \<^verbatim>\<open>cli_fec.cpp\<close>) and for the reassembly of fragments.
    \<open>Fec_Recovery\<close>: a group is recovered from any sufficient part of its blocks.
  \<^item> \<open>Cli_Conn\<close> (\<^verbatim>\<open>cli_common.h\<close>): the buffered connection.  \<open>Cli_Signal\<close>, \<open>Cli_Session\<close>
    (\<^verbatim>\<open>cli_net.cpp\<close>): the signalling client, with callbacks that may call back (locale
    \<open>signal_owner\<close>); its invariant, and that only the server's proof makes it trust a server.
    \<open>Cli_Handshake\<close>: client and server together complete the handshake.  \<open>Cli_RoomList\<close>: the client's
    room list is the server's.  \<open>Cli_Data\<close> (locale \<open>data_owner\<close>): the data channel.
  \<^item> \<open>Cli_RawUdp\<close> (locale \<open>raw_owner\<close>), \<open>Cli_RawDelivery\<close>, \<open>Cli_Kcp\<close> (\<^verbatim>\<open>cli_peer.cpp\<close>): the two kinds of
    tunnel, their bounds, and that what is sent comes out, also over losses with FEC.
  \<^item> \<open>Cli_Peer\<close> (\<^verbatim>\<open>cli_peer.cpp\<close>), \<open>Cli_Tunnel\<close> (\<^verbatim>\<open>cli_tunnel.cpp\<close>), \<open>Cli_App\<close> (\<^verbatim>\<open>cli_app.cpp\<close>): peers, the
    tunnel manager and the application around it.  \<open>Cli_World\<close>: the locales \<open>raw_world\<close> and
    \<open>kcp_world\<close>, a tunnel changes the rest of the program through its callbacks only.
    \<open>Cli_Ownership\<close>: the shape of the pointers, the operations on shapes that the manager's
    operations refine, and ownership as their invariant.  \<open>Cli_DataPlane\<close>: while packets flow only
    permitted output leaves.  \<open>Cli_AppSafety\<close> (locale \<open>tunnel_owner\<close>): both hold over every history of
    the application, so no pointer dangles, no object leaks, and nothing leaves unsealed.
  \<^item> \<open>Cli_Overlay\<close>, \<open>Overlay_Path\<close>: the parts put together.  A packet goes from the adapter of one
    member through its tunnel manager, the UDP part of the server (\<^verbatim>\<open>handleUdpPacket\<close>) and the tunnel
    manager of another member to that member's adapter, whole and once, however the datagrams are
    reordered on the two legs; the predicates \<open>linked\<close> (a client with a raw UDP transport to a peer) and
    \<open>joined\<close> (a client and its session at the server) say when, and a room of two clients, brought
    there by the events of the application, satisfies them.

  \<^bold>\<open>Loops and bounds.\<close>  Loops over a buffer or a table are structural recursions.  Where a loop is
  bounded by a counter, the counter is what the code can do at most: a flush sends at least one
  byte a round (the length of the buffer rounds), draining a receive buffer consumes a frame of at
  least the header a round, and the expiry loop moves on or removes a lease a round.  The receiving loop of a KCP tunnel has a
  round for each message the session holds and one more.  Hypotheses
  are limits of the configuration: at most \<open>2^32 - 2\<close> rooms so that room numbers do not wrap, and
  at most 700 rooms old and new together for the size of a room list push (the server admits 128).

  \<^bold>\<open>Not modelled.\<close>  The graphical client (\<^verbatim>\<open>src/client\<close>): Qt windows, and network classes that
  repeat those of the command line client on Qt sockets and timers.  Of the application of the
  command line client: the console, command parsing, the adapter's worker thread, resume leases and
  reconnecting; their outcomes are arguments of the events.  The virtual adapters, the Windows
  network configuration, log files and the queue between threads are calls of the operating system
  or containers under a lock.  The vendored libraries (Monocypher, KCP, CM256) are not part of the
  program.  \<^verbatim>\<open>relay_server.cpp\<close> is a helper that no code calls.
\<close>

end
